(* ===== verification/Xfr_Prelude.thy ===== *)
theory Xfr_Prelude
  imports Main Complex_Main "HOL-Library.Word"
begin

unbundle bit_operations_syntax

text \<open>
  Shared vocabulary of the development: the machine integers of the Rust source as words,
  the \<open>saturating\<close>, \<open>checked\<close> and \<open>div_ceil\<close> operations of the standard library, byte
  encodings of integers, slices of buffers, and the generic interfaces (fixed-layout wire
  codecs, transition systems with an inductive invariant) that the components interpret.
\<close>

section \<open>Machine integers\<close>

type_synonym u8 = "8 word"
type_synonym u16 = "16 word"
type_synonym u32 = "32 word"
type_synonym u64 = "64 word"
type_synonym u128 = "128 word"
type_synonym usize = "64 word"
type_synonym byte = "8 word"
type_synonym bytes = "8 word list"
type_synonym f64 = real

text \<open>Results of fallible operations: the error on the left, as \<open>Result\<close> has it on the right.\<close>

abbreviation Err :: "'e \<Rightarrow> 'e + 'a" where "Err \<equiv> Inl"
abbreviation Ok :: "'a \<Rightarrow> 'e + 'a" where "Ok \<equiv> Inr"

named_theorems word_ops \<open>definitions of the integer operations of the standard library\<close>
named_theorems wire_simps \<open>layout of the wire packets\<close>

text \<open>\<open>T::MAX\<close>, \<open>saturating_add\<close>, \<open>saturating_sub\<close>, \<open>saturating_mul\<close>, \<open>checked_add\<close>,
  \<open>div_ceil\<close> and \<open>abs_diff\<close> of Rust's unsigned integers.\<close>

definition umax :: "'a::len word" where
  "umax = - 1"

definition saturating_add :: "'a::len word \<Rightarrow> 'a word \<Rightarrow> 'a word" where
  "saturating_add a b = (if unat a + unat b < 2 ^ LENGTH('a) then a + b else umax)"

definition saturating_sub :: "'a::len word \<Rightarrow> 'a word \<Rightarrow> 'a word" where
  "saturating_sub a b = (if b \<le> a then a - b else 0)"

definition saturating_mul :: "'a::len word \<Rightarrow> 'a word \<Rightarrow> 'a word" where
  "saturating_mul a b = (if unat a * unat b < 2 ^ LENGTH('a) then a * b else umax)"

definition checked_add :: "'a::len word \<Rightarrow> 'a word \<Rightarrow> 'a word option" where
  "checked_add a b = (if unat a + unat b < 2 ^ LENGTH('a) then Some (a + b) else None)"

definition div_ceil :: "'a::len word \<Rightarrow> 'a word \<Rightarrow> 'a word" where
  "div_ceil a b = (if a mod b = 0 then a div b else a div b + 1)"

definition abs_diff :: "'a::len word \<Rightarrow> 'a word \<Rightarrow> 'a word" where
  "abs_diff a b = (if a < b then b - a else a - b)"

declare saturating_add_def [word_ops] saturating_sub_def [word_ops] saturating_mul_def [word_ops]
  checked_add_def [word_ops] div_ceil_def [word_ops] abs_diff_def [word_ops]

lemma unat_umax [simp]: "unat (umax :: 'a::len word) = 2 ^ LENGTH('a) - 1"
  by (simp add: umax_def unsigned_minus_1_eq_mask mask_eq_exp_minus_1)

lemma le_umax [simp]: "x \<le> (umax :: 'a::len word)"
  by (simp add: umax_def)

lemma unat_lt_pow [simp]: "unat (x :: 'a::len word) < 2 ^ LENGTH('a)"
  by (rule unsigned_less)

lemma unat_word_of_nat: "n < 2 ^ LENGTH('a) \<Longrightarrow> unat (word_of_nat n :: 'a::len word) = n"
  by (simp add: unat_of_nat take_bit_eq_mod)

lemma unat_saturating_add:
  "unat (saturating_add a b) = min (unat a + unat b) (2 ^ LENGTH('a) - 1)"
  for a b :: "'a::len word"
  by (auto simp: saturating_add_def unat_word_ariths min_def)

lemma unat_saturating_sub: "unat (saturating_sub a b) = unat a - unat b"
  by (auto simp: saturating_sub_def unat_sub word_le_nat_alt)

lemma unat_saturating_mul:
  "unat (saturating_mul a b) = min (unat a * unat b) (2 ^ LENGTH('a) - 1)"
  for a b :: "'a::len word"
proof (cases "unat a * unat b < 2 ^ LENGTH('a)")
  case True
  then show ?thesis by (simp add: saturating_mul_def unat_word_ariths)
next
  case False
  then have "min (unat a * unat b) (2 ^ LENGTH('a) - 1) = 2 ^ LENGTH('a) - (1::nat)"
    by (intro min_absorb2) linarith
  with False show ?thesis by (simp add: saturating_mul_def)
qed

lemma checked_add_SomeD: "checked_add a b = Some c \<Longrightarrow> unat c = unat a + unat b"
  by (auto simp: checked_add_def unat_word_ariths split: if_splits)

lemma checked_add_None_iff: "checked_add a b = None \<longleftrightarrow> 2 ^ LENGTH('a) \<le> unat a + unat b"
  for a b :: "'a::len word"
  by (auto simp: checked_add_def)

lemma unat_abs_diff:
  "unat (abs_diff a b) = (if unat a < unat b then unat b - unat a else unat a - unat b)"
  by (auto simp: abs_diff_def unat_sub word_less_nat_alt word_le_nat_alt)

text \<open>Rounding up never loses: the least multiple count that covers the dividend.\<close>

lemma unat_div_ceil:
  assumes "b \<noteq> 0"
  shows "unat (div_ceil a b) = (unat a + unat b - 1) div unat b"
proof -
  have b: "0 < unat b" using assms by (simp add: unat_gt_0)
  define q r where "q = unat a div unat b" and "r = unat a mod unat b"
  have a: "unat a = q * unat b + r" and r: "r < unat b"
    using b by (simp_all add: q_def r_def)
  show ?thesis
  proof (cases "r = 0")
    case True
    then have "a mod b = 0"
      by (metis r_def unat_eq_zero unat_mod)
    moreover have "(unat a + unat b - 1) div unat b = q"
      using True a b by (intro div_nat_eqI) (auto simp: algebra_simps)
    ultimately show ?thesis by (simp add: div_ceil_def unat_div q_def)
  next
    case False
    then have m: "a mod b \<noteq> 0"
      by (metis r_def unat_0 unat_mod)
    have "(unat a + unat b - 1) div unat b = q + 1"
      using a b r False by (intro div_nat_eqI) (auto simp: algebra_simps)
    moreover have "unat (a div b + 1) = q + 1"
    proof -
      have "q + 1 < 2 ^ LENGTH('a)" if "unat b \<noteq> 1"
      proof -
        have "2 \<le> unat b" using that b by linarith
        then have "q * 2 \<le> q * unat b" by simp
        then have "q * 2 + 1 \<le> unat a" using a False by linarith
        moreover have "unat a < 2 ^ LENGTH('a)" by simp
        ultimately show ?thesis by linarith
      qed
      moreover have "unat b \<noteq> 1" using r False by auto
      ultimately show ?thesis by (simp add: unat_word_ariths unat_div q_def)
    qed
    ultimately show ?thesis using m by (simp add: div_ceil_def)
  qed
qed

section \<open>Byte encodings of integers\<close>

text \<open>\<open>to_be_bytes\<close> and \<open>from_be_bytes\<close> on \<open>n\<close> bytes, most significant byte first; the
  little-endian forms are the reverse.\<close>

fun be_bytes :: "nat \<Rightarrow> nat \<Rightarrow> bytes" where
  "be_bytes 0 k = []"
| "be_bytes (Suc n) k = be_bytes n (k div 256) @ [word_of_nat (k mod 256)]"

definition be_val :: "bytes \<Rightarrow> nat" where
  "be_val bs = foldl (\<lambda>a b. a * 256 + unat b) 0 bs"

definition le_bytes :: "nat \<Rightarrow> nat \<Rightarrow> bytes" where
  "le_bytes n k = rev (be_bytes n k)"

definition le_val :: "bytes \<Rightarrow> nat" where
  "le_val bs = be_val (rev bs)"

lemma be_val_Nil [simp]: "be_val [] = 0"
  by (simp add: be_val_def)

lemma be_val_snoc [simp]: "be_val (bs @ [b]) = be_val bs * 256 + unat b"
  by (simp add: be_val_def)

lemma length_be_bytes [simp]: "length (be_bytes n k) = n"
  by (induction n arbitrary: k) auto

lemma be_val_be_bytes: "be_val (be_bytes n k) = k mod 256 ^ n"
proof (induction n arbitrary: k)
  case 0
  show ?case by simp
next
  case (Suc n)
  have "k mod (256 * 256 ^ n) = 256 * (k div 256 mod 256 ^ n) + k mod 256"
    by (rule mod_mult2_eq)
  then show ?case
    by (simp add: Suc.IH unat_word_ariths unat_of_nat take_bit_eq_mod algebra_simps)
qed

lemma be_val_bound: "be_val bs < 256 ^ length bs"
proof (induction bs rule: rev_induct)
  case Nil
  show ?case by simp
next
  case (snoc b bs)
  have "unat b < 256" using unat_lt_pow [of b] by simp
  with snoc show ?case by simp
qed

lemma be_bytes_be_val: "length bs = n \<Longrightarrow> be_bytes n (be_val bs) = bs"
proof (induction bs arbitrary: n rule: rev_induct)
  case Nil
  then show ?case by simp
next
  case (snoc b bs)
  have b: "unat b < 256" using unat_lt_pow [of b] by simp
  then have "(be_val bs * 256 + unat b) div 256 = be_val bs"
    and "(be_val bs * 256 + unat b) mod 256 = unat b" by simp_all
  with snoc show ?case by auto
qed

lemma length_le_bytes [simp]: "length (le_bytes n k) = n"
  by (simp add: le_bytes_def)

lemma le_val_le_bytes: "le_val (le_bytes n k) = k mod 256 ^ n"
  by (simp add: le_val_def le_bytes_def be_val_be_bytes)

text \<open>The encodings at the widths the wire formats use.\<close>

definition u16_to_be :: "u16 \<Rightarrow> bytes" where "u16_to_be x = be_bytes 2 (unat x)"
definition u32_to_be :: "u32 \<Rightarrow> bytes" where "u32_to_be x = be_bytes 4 (unat x)"
definition u64_to_be :: "u64 \<Rightarrow> bytes" where "u64_to_be x = be_bytes 8 (unat x)"
definition u64_to_le :: "u64 \<Rightarrow> bytes" where "u64_to_le x = le_bytes 8 (unat x)"
definition u32_to_le :: "u32 \<Rightarrow> bytes" where "u32_to_le x = le_bytes 4 (unat x)"
definition u16_from_be :: "bytes \<Rightarrow> u16" where "u16_from_be bs = word_of_nat (be_val bs)"
definition u32_from_be :: "bytes \<Rightarrow> u32" where "u32_from_be bs = word_of_nat (be_val bs)"
definition u64_from_be :: "bytes \<Rightarrow> u64" where "u64_from_be bs = word_of_nat (be_val bs)"
definition u64_from_le :: "bytes \<Rightarrow> u64" where "u64_from_le bs = word_of_nat (le_val bs)"

lemma be_roundtrips [simp]:
  "u16_from_be (u16_to_be x) = x"
  "u32_from_be (u32_to_be y) = y"
  "u64_from_be (u64_to_be z) = z"
  "u64_from_le (u64_to_le z) = z"
  using unat_lt_pow [of x] unat_lt_pow [of y] unat_lt_pow [of z]
  by (simp_all add: u16_from_be_def u16_to_be_def u32_from_be_def u32_to_be_def u64_from_be_def
      u64_to_be_def u64_from_le_def u64_to_le_def be_val_be_bytes le_val_le_bytes)

lemma be_lengths [simp]:
  "length (u16_to_be x) = 2" "length (u32_to_be y) = 4" "length (u64_to_be z) = 8"
  "length (u64_to_le z) = 8" "length (u32_to_le y) = 4"
  by (simp_all add: u16_to_be_def u32_to_be_def u64_to_be_def u64_to_le_def u32_to_le_def)

lemma to_be_from_be:
  "length a = 2 \<Longrightarrow> u16_to_be (u16_from_be a) = a"
  "length b = 4 \<Longrightarrow> u32_to_be (u32_from_be b) = b"
  "length c = 8 \<Longrightarrow> u64_to_be (u64_from_be c) = c"
  using be_val_bound [of a] be_val_bound [of b] be_val_bound [of c]
  by (simp_all add: u16_to_be_def u16_from_be_def u32_to_be_def u32_from_be_def u64_to_be_def
      u64_from_be_def unat_of_nat take_bit_eq_mod be_bytes_be_val)

lemma u64_to_le_inj: "u64_to_le a = u64_to_le b \<longleftrightarrow> a = b"
  by (metis be_roundtrips(4))

section \<open>Slices\<close>

text \<open>\<open>&buf[a..b]\<close>, and \<open>buf[a..b].copy_from_slice(src)\<close> on a buffer the code has already
  checked to be long enough.\<close>

definition subslice :: "nat \<Rightarrow> nat \<Rightarrow> 'a list \<Rightarrow> 'a list" where
  "subslice a b xs = take (b - a) (drop a xs)"

definition copy_at :: "nat \<Rightarrow> 'a list \<Rightarrow> 'a list \<Rightarrow> 'a list" where
  "copy_at a src xs = take a xs @ src @ drop (a + length src) xs"

lemma length_subslice [simp]: "length (subslice a b xs) = min (b - a) (length xs - a)"
  by (simp add: subslice_def)

lemma length_copy_at [simp]:
  "a + length src \<le> length xs \<Longrightarrow> length (copy_at a src xs) = length xs"
  by (simp add: copy_at_def)

lemma subslice_append_right [simp]:
  "length xs \<le> a \<Longrightarrow> subslice a b (xs @ ys) = subslice (a - length xs) (b - length xs) ys"
  by (simp add: subslice_def)

lemma subslice_append_left [simp]:
  "b \<le> length xs \<Longrightarrow> subslice a b (xs @ ys) = subslice a b xs"
  by (cases "a \<le> b") (auto simp: subslice_def)

lemma subslice_all [simp]: "length xs \<le> b \<Longrightarrow> subslice 0 b xs = xs"
  by (simp add: subslice_def)

lemma subslice_Cons [simp]: "0 < a \<Longrightarrow> subslice a b (x # xs) = subslice (a - 1) (b - 1) xs"
  by (cases a; cases b) (auto simp: subslice_def)

lemma subslice_Cons_0 [simp]: "0 < b \<Longrightarrow> subslice 0 b (x # xs) = x # subslice 0 (b - 1) xs"
  by (cases b) (auto simp: subslice_def)

lemma subslice_empty [simp]: "subslice a 0 xs = []"
  by (simp add: subslice_def)

lemma subslice_split: "a \<le> b \<Longrightarrow> b \<le> c \<Longrightarrow> subslice a c xs = subslice a b xs @ subslice b c xs"
proof -
  assume "a \<le> b" "b \<le> c"
  then have "take (c - a) (drop a xs) = take ((b - a) + (c - b)) (drop a xs)" by simp
  also have "\<dots> = subslice a b xs @ subslice b c xs"
    using \<open>a \<le> b\<close> by (simp only: take_add subslice_def drop_drop) simp
  finally show ?thesis by (simp add: subslice_def)
qed

lemma subslice_copy_at_same:
  "a + length src \<le> length xs \<Longrightarrow> subslice a (a + length src) (copy_at a src xs) = src"
  by (simp add: subslice_def copy_at_def)

lemma copy_at_0 [simp]: "copy_at 0 src xs = src @ drop (length src) xs"
  by (simp add: copy_at_def)

lemma copy_at_append [simp]:
  "length xs \<le> a \<Longrightarrow> copy_at a src (xs @ ys) = xs @ copy_at (a - length xs) src ys"
  by (simp add: copy_at_def)

lemma copy_at_Cons [simp]: "0 < a \<Longrightarrow> copy_at a src (x # xs) = x # copy_at (a - 1) src xs"
  by (cases a) (auto simp: copy_at_def)

text \<open>\<open>buf[i] = v\<close> within the buffer is the one-byte case.\<close>

lemma list_update_copy_at: "i < length xs \<Longrightarrow> xs[i := v] = copy_at i [v] xs"
  by (simp add: copy_at_def upd_conv_take_nth_drop)

section \<open>Interface: wire codecs\<close>

text \<open>
  A wire codec writes a value into bytes and reads it back. \<open>valid\<close> says which values can be
  written (the others are refused by the encoder). The law is the round trip; that the encoder
  is injective and that no two valid values share a datagram follow once and for all.
\<close>

locale wire_codec =
  fixes enc :: "'a \<Rightarrow> bytes"
    and dec :: "bytes \<Rightarrow> 'a option"
    and valid :: "'a \<Rightarrow> bool"
  assumes dec_enc: "valid x \<Longrightarrow> dec (enc x) = Some x"
begin

lemma enc_inj: "valid x \<Longrightarrow> valid y \<Longrightarrow> enc x = enc y \<Longrightarrow> x = y"
  using dec_enc by (metis option.inject)

lemma dec_enc_None: "dec (enc x) = None \<Longrightarrow> \<not> valid x"
  using dec_enc by auto

end

text \<open>A codec of a fixed length whose decoder refuses every other length.\<close>

locale fixed_codec = wire_codec +
  fixes width :: nat
  assumes enc_width: "valid x \<Longrightarrow> length (enc x) = width"
    and dec_width: "dec bs = Some x \<Longrightarrow> length bs = width"
begin

lemma dec_other_width: "length bs \<noteq> width \<Longrightarrow> dec bs = None"
  using dec_width by (cases "dec bs") auto

lemma enc_prefix_free: "valid x \<Longrightarrow> valid y \<Longrightarrow> enc x @ r = enc y @ s \<Longrightarrow> x = y \<and> r = s"
  using enc_width enc_inj by (metis append_eq_append_conv)

end

section \<open>Interface: transition systems\<close>

text \<open>Reachability of a step relation, and the invariant rule every component with
  interleaved steps uses.\<close>

inductive reachable :: "('s \<Rightarrow> bool) \<Rightarrow> ('s \<Rightarrow> 's \<Rightarrow> bool) \<Rightarrow> 's \<Rightarrow> bool"
  for init :: "'s \<Rightarrow> bool" and step :: "'s \<Rightarrow> 's \<Rightarrow> bool" where
  reach_init: "init s \<Longrightarrow> reachable init step s"
| reach_step: "reachable init step s \<Longrightarrow> step s t \<Longrightarrow> reachable init step t"

locale inductive_invariant =
  fixes init :: "'s \<Rightarrow> bool"
    and step :: "'s \<Rightarrow> 's \<Rightarrow> bool"
    and invar :: "'s \<Rightarrow> bool"
  assumes invar_init: "init s \<Longrightarrow> invar s"
    and invar_step: "invar s \<Longrightarrow> step s t \<Longrightarrow> invar t"
begin

lemma invar_reachable: "reachable init step s \<Longrightarrow> invar s"
  by (induction rule: reachable.induct) (auto intro: invar_init invar_step)

lemma invar_rtranclp: "step\<^sup>*\<^sup>* s t \<Longrightarrow> invar s \<Longrightarrow> invar t"
  by (induction rule: rtranclp_induct) (auto intro: invar_step)

end

section \<open>Interface: freshness of snapshots\<close>

text \<open>
  A consumer that receives snapshots of a growing measurement over lossy, reordering channels keeps
  one slot and replaces it only by a snapshot that is at least as fresh. The law is that freshness
  is a preorder; then the slot never goes back, and over snapshots of one source (pairwise
  comparable) it ends at the freshest of everything delivered, in whatever order it arrived.
\<close>

definition keep_fresh :: "('a \<Rightarrow> 'a \<Rightarrow> bool) \<Rightarrow> 'a \<Rightarrow> 'a \<Rightarrow> 'a" where
  "keep_fresh fresh slot x = (if fresh x slot then x else slot)"

locale freshness =
  fixes fresh :: "'a \<Rightarrow> 'a \<Rightarrow> bool"
  assumes fresh_refl: "fresh x x"
    and fresh_trans: "fresh x y \<Longrightarrow> fresh y z \<Longrightarrow> fresh x z"
begin

lemma keep_fresh_ge: "fresh (keep_fresh fresh s x) s"
  by (simp add: keep_fresh_def fresh_refl)

lemma fold_keep_fresh_ge: "fresh (foldl (keep_fresh fresh) s xs) s"
proof (induction xs arbitrary: s)
  case Nil
  show ?case by (simp add: fresh_refl)
next
  case (Cons x xs)
  from fresh_trans [OF Cons.IH keep_fresh_ge [of s x]] show ?case by simp
qed

lemma fold_keep_fresh_mem: "foldl (keep_fresh fresh) s xs \<in> insert s (set xs)"
proof (induction xs arbitrary: s)
  case Nil
  show ?case by simp
next
  case (Cons x xs)
  have "keep_fresh fresh s x \<in> {s, x}" by (simp add: keep_fresh_def)
  with Cons.IH [of "keep_fresh fresh s x"] show ?case by auto
qed

lemma fold_keep_fresh_newest:
  assumes "\<And>x y. x \<in> insert s (set xs) \<Longrightarrow> y \<in> insert s (set xs) \<Longrightarrow> fresh x y \<or> fresh y x"
    and "z \<in> insert s (set xs)"
  shows "fresh (foldl (keep_fresh fresh) s xs) z"
  using assms
proof (induction xs arbitrary: s z)
  case Nil
  then show ?case by (simp add: fresh_refl)
next
  case (Cons x xs)
  define t where "t = keep_fresh fresh s x"
  have t: "t \<in> {x, s}" "fresh t x" "fresh t s"
    using Cons.prems(1) [of x s] fresh_refl by (auto simp: t_def keep_fresh_def)
  have cmp: "fresh a b \<or> fresh b a" if "a \<in> insert t (set xs)" "b \<in> insert t (set xs)" for a b
    using Cons.prems(1) [of a b] t(1) that by auto
  have up: "fresh (foldl (keep_fresh fresh) t xs) y" if "y \<in> insert t (set xs)" for y
    using Cons.IH [of t y] cmp that by blast
  have "fresh (foldl (keep_fresh fresh) t xs) z"
  proof (cases "z \<in> set xs")
    case True
    then show ?thesis using up by simp
  next
    case False
    then have "fresh t z" using Cons.prems(2) t by auto
    then show ?thesis using up [of t] fresh_trans by blast
  qed
  then show ?case by (simp add: t_def)
qed

end

end
