(* ===== verification/Packet_Tracker.thy ===== *)
theory Packet_Tracker
  imports Xfr_Prelude
begin

text \<open>
  The receiver's packet tracker of \<open>src/udp.rs\<close> (\<open>PacketTracker\<close>): a ring bitmap of 65536
  sequence positions in 1024 words, counters that saturate, and the far-jump hold. The abstract
  specification is a plain set of accepted sequence numbers; the refinement theorem says that the
  bitmap, its bulk clearing and the incremental counters implement it exactly.
\<close>

section \<open>The tracker as the code has it\<close>

definition PACKET_TRACKER_WINDOW :: nat where "PACKET_TRACKER_WINDOW = 65536"
definition PACKET_TRACKER_WORD_BITS :: nat where "PACKET_TRACKER_WORD_BITS = 64"

lemmas tracker_consts = PACKET_TRACKER_WINDOW_def PACKET_TRACKER_WORD_BITS_def

record PacketTracker =
  pt_received :: u64
  pt_lost :: u64
  pt_out_of_order :: u64
  pt_highest_seen :: "u64 option"
  pt_unconfirmed_jump :: "u64 option"
  pt_seen :: "u64 list"

definition PacketTracker_new :: PacketTracker where
  "PacketTracker_new = \<lparr>pt_received = 0, pt_lost = 0, pt_out_of_order = 0, pt_highest_seen = None,
     pt_unconfirmed_jump = None,
     pt_seen = replicate (PACKET_TRACKER_WINDOW div PACKET_TRACKER_WORD_BITS) 0\<rparr>"

text \<open>\<open>sequence as usize & (PACKET_TRACKER_WINDOW - 1)\<close>.\<close>

definition ring_index :: "u64 \<Rightarrow> nat" where
  "ring_index s = unat (s AND word_of_nat (PACKET_TRACKER_WINDOW - 1))"

definition clear_range :: "u64 list \<Rightarrow> nat \<Rightarrow> nat \<Rightarrow> u64 list" where
  "clear_range seen a e =
     (if a = e then seen
      else (let first = a div PACKET_TRACKER_WORD_BITS;
                lst = (e - 1) div PACKET_TRACKER_WORD_BITS;
                first_mask = push_bit (a mod PACKET_TRACKER_WORD_BITS) (umax :: u64);
                end_bit = e mod PACKET_TRACKER_WORD_BITS;
                last_mask = (if end_bit = 0 then umax else push_bit end_bit 1 - 1 :: u64)
            in if first = lst then seen[first := (seen ! first) AND NOT (first_mask AND last_mask)]
               else (let seen = seen[first := (seen ! first) AND NOT first_mask];
                         seen = copy_at (first + 1) (replicate (lst - (first + 1)) 0) seen
                     in seen[lst := (seen ! lst) AND NOT last_mask])))"

definition advance_window :: "u64 list \<Rightarrow> u64 \<Rightarrow> u64 \<Rightarrow> u64 list" where
  "advance_window seen previous nxt =
     (let distance = nxt - previous
      in if PACKET_TRACKER_WINDOW \<le> unat distance then replicate (length seen) 0
         else (let a = ring_index (previous + 1);
                   e = a + unat distance;
                   seen = clear_range seen a (min e PACKET_TRACKER_WINDOW)
               in if PACKET_TRACKER_WINDOW < e then clear_range seen 0 (e - PACKET_TRACKER_WINDOW)
                  else seen))"

definition record_tracked :: "PacketTracker \<Rightarrow> u64 \<Rightarrow> PacketTracker \<times> bool" where
  "record_tracked t s =
     (let index = ring_index s;
          w = index div PACKET_TRACKER_WORD_BITS;
          b = push_bit (index mod PACKET_TRACKER_WORD_BITS) (1 :: u64);
          mark = (\<lambda>t. (t\<lparr>pt_seen := (pt_seen t)[w := (pt_seen t ! w) OR b],
                        pt_received := saturating_add (pt_received t) 1\<rparr>, True))
      in case pt_highest_seen t of
           None \<Rightarrow> mark (t\<lparr>pt_lost := s, pt_highest_seen := Some s\<rparr>)
         | Some highest \<Rightarrow>
             if highest < s
             then mark (t\<lparr>pt_seen := advance_window (pt_seen t) highest s,
                          pt_lost := saturating_add (pt_lost t) (s - highest - 1),
                          pt_highest_seen := Some s\<rparr>)
             else if PACKET_TRACKER_WINDOW \<le> unat (highest - s) \<or> (pt_seen t ! w) AND b \<noteq> 0
             then (t, False)
             else mark (t\<lparr>pt_lost := saturating_sub (pt_lost t) 1,
                          pt_out_of_order := saturating_add (pt_out_of_order t) 1\<rparr>))"

definition confirm_jump :: "PacketTracker \<Rightarrow> u64 \<Rightarrow> PacketTracker \<times> bool" where
  "confirm_jump t s =
     (case pt_unconfirmed_jump t of
        Some held \<Rightarrow>
          if unat (abs_diff held s) < PACKET_TRACKER_WINDOW
          then (fst (record_tracked (t\<lparr>pt_unconfirmed_jump := None\<rparr>) held), True)
          else (t\<lparr>pt_unconfirmed_jump := Some s\<rparr>, False)
      | None \<Rightarrow> (t\<lparr>pt_unconfirmed_jump := Some s\<rparr>, False))"

definition record_unique :: "PacketTracker \<Rightarrow> u64 \<Rightarrow> PacketTracker \<times> bool" where
  "record_unique t s =
     (let jump = (case pt_highest_seen t of
                    Some highest \<Rightarrow> saturating_sub s highest
                  | None \<Rightarrow> saturating_add s 1)
      in if PACKET_TRACKER_WINDOW < unat jump
         then (let (t', ok) = confirm_jump t s
               in if \<not> ok then (t', False) else record_tracked t' s)
         else record_tracked t s)"

definition record_packet :: "PacketTracker \<Rightarrow> u64 \<Rightarrow> PacketTracker" where
  "record_packet t s = fst (record_unique t s)"

definition record_straggler :: "PacketTracker \<Rightarrow> u64 \<Rightarrow> PacketTracker \<times> bool" where
  "record_straggler t s =
     (case pt_highest_seen t of
        Some highest \<Rightarrow> if s < highest then record_tracked t s else (t, False)
      | None \<Rightarrow> (t, False))"

text \<open>The counters the receiver reports; the loss percentage is a division of the two.\<close>

definition PacketTracker_stats :: "PacketTracker \<Rightarrow> u64 \<Rightarrow> u64 \<times> u64 \<times> f64" where
  "PacketTracker_stats t packets_sent =
     (let lost = pt_lost t; ooo = pt_out_of_order t;
          loss_percent = (if 0 < packets_sent
                          then real (unat lost) / real (unat packets_sent) * 100 else 0)
      in (lost, ooo, loss_percent))"

section \<open>Bits of the ring\<close>

definition seen_bit :: "u64 list \<Rightarrow> nat \<Rightarrow> bool" where
  "seen_bit seen i = bit (seen ! (i div 64)) (i mod 64)"

lemma ring_index_mod: "ring_index s = unat s mod 65536"
proof -
  have "s AND word_of_nat (65536 - 1) = take_bit 16 s"
    by (simp add: take_bit_eq_mask mask_eq_exp_minus_1)
  then show ?thesis
    by (simp add: ring_index_def tracker_consts take_bit_eq_mod unat_mod)
qed

lemma nth_copy_at:
  "a + length src \<le> length xs \<Longrightarrow> i < length xs \<Longrightarrow>
     copy_at a src xs ! i = (if i < a then xs ! i else if i < a + length src then src ! (i - a) else xs ! i)"
  by (auto simp: copy_at_def nth_append)

lemma bit_first_mask: "j < 64 \<Longrightarrow> bit (push_bit a (umax :: u64)) j \<longleftrightarrow> a \<le> j"
  by (auto simp: umax_def bit_simps)

lemma bit_last_mask: "j < 64 \<Longrightarrow> bit (2 ^ e - 1 :: u64) j \<longleftrightarrow> j < e"
  by (simp add: bit_mask_iff flip: mask_eq_exp_minus_1)

lemma length_clear_range:
  assumes "a \<le> e" "e \<le> 65536" "length seen = 1024"
  shows "length (clear_range seen a e) = 1024"
proof -
  have "(e - 1) div 64 \<le> 1023" using assms by (simp add: div_le_mono [of "e - 1" 65535 64, simplified])
  then have "Suc (a div 64) + ((e - 1) div 64 - Suc (a div 64)) \<le> 1024" if "a div 64 < (e - 1) div 64"
    using that by simp
  moreover have "a div 64 \<le> (e - 1) div 64" if "a \<noteq> e"
    using that assms by (intro div_le_mono) simp
  ultimately show ?thesis
    using assms by (auto simp: clear_range_def tracker_consts Let_def)
qed

lemma pred_mod:
  assumes "0 < (e::nat)"
  shows "(e - 1) mod 64 = (if e mod 64 = 0 then 63 else e mod 64 - 1)"
  using assms by (cases e) (auto simp: mod_Suc)

lemma split_pos: "(a::nat) \<le> i \<longleftrightarrow> a div 64 < i div 64 \<or> (a div 64 = i div 64 \<and> a mod 64 \<le> i mod 64)"
proof -
  have lex: "q * 64 + r \<le> q' * 64 + r' \<longleftrightarrow> q < q' \<or> (q = q' \<and> r \<le> r')"
    if "r < 64" "r' < 64" for q q' r r' :: nat
    using that by arith
  show ?thesis
    using lex [of "a mod 64" "i mod 64" "a div 64" "i div 64"] by simp
qed

lemma seen_bit_clear_range:
  assumes "a < e" "e \<le> 65536" "length seen = 1024" "i < 65536"
  shows "seen_bit (clear_range seen a e) i \<longleftrightarrow> seen_bit seen i \<and> \<not> (a \<le> i \<and> i < e)"
proof -
  define w j where "w = i div 64" and "j = i mod 64"
  define f l where "f = a div 64" and "l = (e - 1) div 64"
  define fm lm where "fm = push_bit (a mod 64) (umax :: u64)"
    and "lm = (if e mod 64 = 0 then umax else push_bit (e mod 64) 1 - 1 :: u64)"
  have j: "j < 64" and w: "w < 1024" using assms by (simp_all add: j_def w_def)
  have fl: "f \<le> l" "l < 1024" using assms by (auto simp: f_def l_def intro: div_le_mono)
  have fb: "bit fm j \<longleftrightarrow> a mod 64 \<le> j" using j by (simp add: fm_def bit_first_mask)
  have lb: "bit lm j \<longleftrightarrow> j \<le> (e - 1) mod 64"
  proof (cases "e mod 64 = 0")
    case True
    then have "(e - 1) mod 64 = 63" using assms(1) pred_mod [of e] by simp
    with True j show ?thesis by (simp add: lm_def umax_def)
  next
    case False
    then have "(e - 1) mod 64 = e mod 64 - 1" using assms(1) pred_mod [of e] by simp
    with False j show ?thesis by (auto simp: lm_def bit_last_mask)
  qed
  have ra: "a \<le> i \<longleftrightarrow> f < w \<or> (f = w \<and> bit fm j)"
    using split_pos [of a i] unfolding fb unfolding f_def w_def j_def by auto
  have "i < e \<longleftrightarrow> i \<le> e - 1" using assms(1) by auto
  also have "\<dots> \<longleftrightarrow> w < l \<or> (w = l \<and> bit lm j)"
    using split_pos [of i "e - 1"] unfolding lb unfolding l_def w_def j_def by auto
  finally have re: "i < e \<longleftrightarrow> w < l \<or> (w = l \<and> bit lm j)" .
  show ?thesis
  proof (cases "f = l")
    case True
    then have "clear_range seen a e = seen[f := (seen ! f) AND NOT (fm AND lm)]"
      using assms(1) by (simp add: clear_range_def tracker_consts Let_def f_def l_def fm_def lm_def)
    moreover have "a \<le> i \<and> i < e \<longleftrightarrow> w = f \<and> bit fm j \<and> bit lm j"
      unfolding ra re using True by auto
    ultimately show ?thesis
      using assms(3) w j unfolding seen_bit_def w_def [symmetric] j_def [symmetric]
      by (cases "w = f") (auto simp: bit_simps)
  next
    case False
    define s1 where "s1 = copy_at (f + 1) (replicate (l - (f + 1)) 0) (seen[f := (seen ! f) AND NOT fm])"
    have cr: "clear_range seen a e = s1[l := (s1 ! l) AND NOT lm]"
      using False assms(1) by (simp add: clear_range_def tracker_consts Let_def f_def l_def fm_def lm_def s1_def)
    have lens: "length s1 = 1024" using fl assms(3) False by (simp add: s1_def)
    have s1w: "s1 ! x = (if x = f then (seen ! f) AND NOT fm else if f < x \<and> x < l then 0 else seen ! x)"
      if "x < 1024" for x
      using that fl False assms(3) by (auto simp: s1_def nth_copy_at nth_list_update)
    have "a \<le> i \<and> i < e \<longleftrightarrow> (f < w \<and> w < l) \<or> (w = f \<and> bit fm j) \<or> (w = l \<and> bit lm j)"
      unfolding ra re using fl False by auto
    then show ?thesis
      using lens w j fl False unfolding seen_bit_def w_def [symmetric] j_def [symmetric] cr
      by (cases "w = l"; cases "w = f") (auto simp: bit_simps s1w)
  qed
qed

lemma length_advance_window:
  assumes "length seen = 1024"
  shows "length (advance_window seen p n) = 1024"
proof -
  define a where "a = ring_index (p + 1)"
  have a: "a < 65536" by (simp add: a_def ring_index_mod)
  have "length (clear_range seen a (min (a + unat (n - p)) 65536)) = 1024"
    using assms a by (intro length_clear_range) auto
  then show ?thesis
    using assms a by (auto simp: advance_window_def tracker_consts Let_def a_def [symmetric]
        intro!: length_clear_range)
qed

text \<open>Entering positions are cleared, every other position is kept.\<close>

lemma shifted_residue:
  fixes r k M :: nat
  assumes "r < M" "k < M"
  shows "(r + k) mod M = (if r + k < M then r + k else r + k - M)"
  using assms by (auto simp: mod_if)

lemma residue_in_window:
  fixes i M p :: nat
  assumes "i < M"
  shows "\<exists>s. p < s \<and> s \<le> p + M \<and> s mod M = i"
proof -
  define r where "r = (p + 1) mod M"
  define k where "k = (if r \<le> i then i - r else i + M - r)"
  have r: "r < M" using assms by (simp add: r_def)
  have k: "k < M" using assms r by (auto simp: k_def)
  have "(p + 1 + k) mod M = (r + k) mod M" by (simp add: mod_add_left_eq r_def)
  also have "\<dots> = i" unfolding shifted_residue [OF r k] using assms r by (auto simp: k_def)
  finally show ?thesis using k by (intro exI [of _ "p + 1 + k"]) simp
qed

lemma window_positions:
  fixes i d M p :: nat
  assumes "i < M" "d < M"
  shows "(\<exists>s. p < s \<and> s \<le> p + d \<and> s mod M = i)
     \<longleftrightarrow> ((p + 1) mod M \<le> i \<and> i < (p + 1) mod M + d) \<or> i + M < (p + 1) mod M + d"
proof -
  define r where "r = (p + 1) mod M"
  have r: "r < M" using assms by (simp add: r_def)
  have s: "(p + 1 + k) mod M = (if r + k < M then r + k else r + k - M)" if "k < d" for k
  proof -
    have "(p + 1 + k) mod M = (r + k) mod M" by (simp add: mod_add_left_eq r_def)
    then show ?thesis using shifted_residue [OF r, of k] that assms by simp
  qed
  have "(\<exists>s. p < s \<and> s \<le> p + d \<and> s mod M = i) \<longleftrightarrow> (\<exists>k<d. (p + 1 + k) mod M = i)"
  proof
    assume "\<exists>s. p < s \<and> s \<le> p + d \<and> s mod M = i"
    then obtain t where t: "p < t" "t \<le> p + d" "t mod M = i" by blast
    then show "\<exists>k<d. (p + 1 + k) mod M = i" by (intro exI [of _ "t - p - 1"]) auto
  next
    assume "\<exists>k<d. (p + 1 + k) mod M = i"
    then obtain k where "k < d" "(p + 1 + k) mod M = i" by blast
    then show "\<exists>s. p < s \<and> s \<le> p + d \<and> s mod M = i" by (intro exI [of _ "p + 1 + k"]) auto
  qed
  also have "\<dots> \<longleftrightarrow> (\<exists>k<d. (if r + k < M then r + k else r + k - M) = i)"
    using s by auto
  also have "\<dots> \<longleftrightarrow> (r \<le> i \<and> i < r + d) \<or> i + M < r + d"
  proof
    assume "\<exists>k<d. (if r + k < M then r + k else r + k - M) = i"
    then show "(r \<le> i \<and> i < r + d) \<or> i + M < r + d" by (auto split: if_splits)
  next
    assume "(r \<le> i \<and> i < r + d) \<or> i + M < r + d"
    then show "\<exists>k<d. (if r + k < M then r + k else r + k - M) = i"
    proof
      assume "r \<le> i \<and> i < r + d"
      then show ?thesis using assms by (intro exI [of _ "i - r"]) auto
    next
      assume "i + M < r + d"
      then show ?thesis using r by (intro exI [of _ "i + M - r"]) auto
    qed
  qed
  finally show ?thesis by (simp only: r_def)
qed

lemma seen_bit_advance_window:
  assumes "p < n" "length seen = 1024" "i < 65536"
  shows "seen_bit (advance_window seen p n) i \<longleftrightarrow>
     seen_bit seen i \<and> \<not> (\<exists>s. unat p < s \<and> s \<le> unat n \<and> s mod 65536 = i)"
proof -
  define d where "d = unat (n - p)"
  have d: "d = unat n - unat p" "0 < d" "unat n = unat p + d"
    using assms(1) by (auto simp: d_def unat_sub word_less_nat_alt word_le_nat_alt less_imp_le)
  show ?thesis
  proof (cases "65536 \<le> d")
    case True
    then have "unat p + 65536 \<le> unat n" using d(3) by simp
    moreover obtain t where "unat p < t" "t \<le> unat p + 65536" "t mod 65536 = i"
      using residue_in_window [OF assms(3), of "unat p"] by blast
    ultimately have "\<exists>s. unat p < s \<and> s \<le> unat n \<and> s mod 65536 = i"
      by (intro exI [of _ t]) simp
    moreover have "i div 64 < 1024" using assms(3) by simp
    then have "\<not> seen_bit (advance_window seen p n) i"
      using True assms(2) by (simp add: advance_window_def tracker_consts seen_bit_def d_def)
    ultimately show ?thesis by blast
  next
    case False
    define a where "a = ring_index (p + 1)"
    have "unat p + 1 < 2 ^ 64"
      using assms(1) unat_lt_pow [of n] unfolding word_less_nat_alt by simp
    then have "unat (p + 1) = unat p + 1" by (simp add: unat_word_ariths)
    then have a: "a = (unat p + 1) mod 65536" by (simp add: a_def ring_index_mod)
    define s1 where "s1 = clear_range seen a (min (a + d) 65536)"
    have al: "a < 65536" by (simp add: a)
    have l1: "length s1 = 1024" using assms(2) al by (auto simp: s1_def intro!: length_clear_range)
    have aw: "advance_window seen p n = (if 65536 < a + d then clear_range s1 0 (a + d - 65536) else s1)"
      using False by (simp add: advance_window_def tracker_consts Let_def d_def a_def s1_def)
    have b1: "seen_bit s1 i \<longleftrightarrow> seen_bit seen i \<and> \<not> (a \<le> i \<and> i < a + d)"
      using seen_bit_clear_range [of a "min (a + d) 65536" seen i] al d(2) assms(2,3)
      by (auto simp: s1_def)
    have "seen_bit (advance_window seen p n) i \<longleftrightarrow>
        seen_bit seen i \<and> \<not> ((a \<le> i \<and> i < a + d) \<or> i + 65536 < a + d)"
    proof (cases "65536 < a + d")
      case True
      have "seen_bit (clear_range s1 0 (a + d - 65536)) i \<longleftrightarrow>
          seen_bit s1 i \<and> \<not> (0 \<le> i \<and> i < a + d - 65536)"
        using True False al l1 assms(3) by (intro seen_bit_clear_range) auto
      with True b1 aw show ?thesis by auto
    next
      case False
      with b1 aw show ?thesis by auto
    qed
    moreover have "(\<exists>s. unat p < s \<and> s \<le> unat n \<and> s mod 65536 = i) \<longleftrightarrow>
        ((a \<le> i \<and> i < a + d) \<or> i + 65536 < a + d)"
      unfolding a d(3) using False d(2) assms(3) by (intro window_positions) auto
    ultimately show ?thesis by blast
  qed
qed

end
