(* ===== verification/Tracker_Refinement.thy ===== *)
theory Tracker_Refinement
  imports Packet_Tracker
begin

text \<open>
  What the packet tracker promises: the set of accepted sequence numbers, with the loss counter
  derived from it. The bitmap tracker of the sources is shown to implement this specification step
  by step, and the exact counts follow for every arrival order.
\<close>

section \<open>Specification\<close>

record seq_spec =
  sp_accepted :: "nat set"
  sp_top :: "nat option"
  sp_held :: "nat option"
  sp_late :: nat

definition spec_new :: seq_spec where
  "spec_new = \<lparr>sp_accepted = {}, sp_top = None, sp_held = None, sp_late = 0\<rparr>"

text \<open>A sequence number is accepted once, if it is new or still inside the window.\<close>

definition spec_tracked :: "seq_spec \<Rightarrow> nat \<Rightarrow> seq_spec \<times> bool" where
  "spec_tracked A s =
     (let add = (\<lambda>A. A\<lparr>sp_accepted := insert s (sp_accepted A)\<rparr>)
      in case sp_top A of
           None \<Rightarrow> (add A\<lparr>sp_top := Some s\<rparr>, True)
         | Some h \<Rightarrow> if h < s then (add A\<lparr>sp_top := Some s\<rparr>, True)
                    else if PACKET_TRACKER_WINDOW \<le> h - s \<or> s \<in> sp_accepted A then (A, False)
                    else (add A\<lparr>sp_late := sp_late A + 1\<rparr>, True))"

definition spec_unique :: "seq_spec \<Rightarrow> nat \<Rightarrow> seq_spec \<times> bool" where
  "spec_unique A s =
     (let jump = (case sp_top A of Some h \<Rightarrow> s - h | None \<Rightarrow> s + 1)
      in if PACKET_TRACKER_WINDOW < jump
         then (case sp_held A of
                 Some g \<Rightarrow> if (if g < s then s - g else g - s) < PACKET_TRACKER_WINDOW
                          then spec_tracked (fst (spec_tracked (A\<lparr>sp_held := None\<rparr>) g)) s
                          else (A\<lparr>sp_held := Some s\<rparr>, False)
               | None \<Rightarrow> (A\<lparr>sp_held := Some s\<rparr>, False))
         else spec_tracked A s)"

definition spec_straggler :: "seq_spec \<Rightarrow> nat \<Rightarrow> seq_spec \<times> bool" where
  "spec_straggler A s =
     (case sp_top A of Some h \<Rightarrow> if s < h then spec_tracked A s else (A, False) | None \<Rightarrow> (A, False))"

text \<open>Packets the specification counts as lost: the holes below the high-water mark.\<close>

definition spec_missing :: "seq_spec \<Rightarrow> nat set" where
  "spec_missing A = (case sp_top A of None \<Rightarrow> {} | Some h \<Rightarrow> {..h} - sp_accepted A)"

section \<open>The refinement relation\<close>

definition spec_wf :: "seq_spec \<Rightarrow> bool" where
  "spec_wf A = (finite (sp_accepted A) \<and>
     (case sp_top A of None \<Rightarrow> sp_accepted A = {} \<and> sp_late A = 0
      | Some h \<Rightarrow> h \<in> sp_accepted A \<and> sp_accepted A \<subseteq> {..h} \<and> sp_late A < card (sp_accepted A)))"

definition ring_agrees :: "u64 list \<Rightarrow> seq_spec \<Rightarrow> bool" where
  "ring_agrees seen A = (length seen = 1024 \<and>
     (case sp_top A of None \<Rightarrow> (\<forall>i<65536. \<not> seen_bit seen i)
      | Some h \<Rightarrow> (\<forall>s\<le>h. h - s < 65536 \<longrightarrow> (seen_bit seen (s mod 65536) \<longleftrightarrow> s \<in> sp_accepted A))))"

definition refines :: "PacketTracker \<Rightarrow> seq_spec \<Rightarrow> bool" where
  "refines t A = (spec_wf A \<and> ring_agrees (pt_seen t) A
     \<and> sp_top A = map_option unat (pt_highest_seen t)
     \<and> sp_held A = map_option unat (pt_unconfirmed_jump t)
     \<and> unat (pt_received t) = card (sp_accepted A)
     \<and> unat (pt_lost t) = card (spec_missing A)
     \<and> unat (pt_out_of_order t) = sp_late A)"

lemma refines_new: "refines PacketTracker_new spec_new"
proof -
  have "\<not> seen_bit (replicate 1024 0) i" if "i < 65536" for i
    using that by (simp add: seen_bit_def)
  then show ?thesis
    by (simp add: refines_def PacketTracker_new_def spec_new_def spec_wf_def ring_agrees_def
        spec_missing_def tracker_consts)
qed

lemma held_frame [simp]:
  "spec_wf (A\<lparr>sp_held := x\<rparr>) = spec_wf A"
  "ring_agrees seen (A\<lparr>sp_held := x\<rparr>) = ring_agrees seen A"
  "spec_missing (A\<lparr>sp_held := x\<rparr>) = spec_missing A"
  by (simp_all add: spec_wf_def ring_agrees_def spec_missing_def split: option.split)

lemma refines_held:
  "refines t A \<Longrightarrow> refines (t\<lparr>pt_unconfirmed_jump := y\<rparr>) (A\<lparr>sp_held := map_option unat y\<rparr>)"
  by (simp add: refines_def)

lemma refines_top: "refines t A \<Longrightarrow> sp_top A = Some (unat h) \<Longrightarrow> pt_highest_seen t = Some h"
  by (cases "pt_highest_seen t") (auto simp: refines_def word_unat_eq_iff)

lemma card_missing: "spec_wf A \<Longrightarrow> sp_top A = Some h \<Longrightarrow> card (spec_missing A) = h + 1 - card (sp_accepted A)"
  by (simp add: spec_missing_def spec_wf_def card_Diff_subset)

lemma card_accepted_le: "spec_wf A \<Longrightarrow> sp_top A = Some h \<Longrightarrow> card (sp_accepted A) \<le> h + 1"
  using card_mono [of "{..h}" "sp_accepted A"] by (simp add: spec_wf_def)

section \<open>One step\<close>

lemma window_inj:
  assumes "x \<le> h" "y \<le> h" "h - x < M" "h - y < M" "x mod M = y mod M"
  shows "x = (y::nat)"
proof -
  have aux: "a = b" if "a \<le> b" "b \<le> h" "h - a < M" "a mod M = b mod M" for a b
  proof -
    have "M dvd b - a" using that by (metis mod_eq_dvd_iff_nat)
    moreover have "b - a < M" using that by simp
    ultimately show ?thesis using that(1) by (metis diff_is_0_eq' dual_order.antisym
          dvd_imp_le gr_zeroI leD le_zero_eq diff_is_0_eq)
  qed
  show ?thesis using aux [of x y] aux [of y x] assms by (cases "x \<le> y") auto
qed

lemma seen_bit_mark:
  assumes "length seen = 1024" "k < 65536" "i < 65536"
  shows "seen_bit (seen[k div 64 := (seen ! (k div 64)) OR push_bit (k mod 64) 1]) i \<longleftrightarrow> seen_bit seen i \<or> i = k"
proof (cases "i div 64 = k div 64")
  case True
  have "i = k \<longleftrightarrow> i mod 64 = k mod 64" using True by (metis div_mult_mod_eq)
  with True assms show ?thesis by (auto simp: seen_bit_def bit_simps)
next
  case False
  with assms show ?thesis by (auto simp: seen_bit_def)
qed

lemma seen_test: "(seen ! (k div 64)) AND 2 ^ (k mod 64) = 0 \<longleftrightarrow> \<not> seen_bit seen k"
  by (simp add: seen_bit_def and_exp_eq_0_iff_not_bit)

text \<open>Marking a position in a ring that agrees with the specification before the mark.\<close>

lemma ring_mark:
  assumes r: "length seen = 1024"
    and b: "\<And>x. x \<le> h \<Longrightarrow> h - x < 65536 \<Longrightarrow> seen_bit seen (x mod 65536) \<longleftrightarrow> x \<in> B"
    and s: "s \<le> h" "h - s < 65536"
    and x: "x \<le> h" "h - x < 65536"
  shows "seen_bit (seen[s mod 65536 div 64 := (seen ! (s mod 65536 div 64)) OR
            push_bit (s mod 65536 mod 64) 1]) (x mod 65536) \<longleftrightarrow> x \<in> insert s B"
  using seen_bit_mark [OF r, of "s mod 65536" "x mod 65536"] b [OF x] window_inj [OF x(1) s(1) x(2) s(2)]
  by auto

lemma ring_advance:
  assumes "ring_agrees seen A" "spec_wf A" "sp_top A = Some (unat h)" "h < s"
    and x: "x \<le> unat s" "unat s - x < 65536"
  shows "seen_bit (advance_window seen h s) (x mod 65536) \<longleftrightarrow> x \<in> sp_accepted A"
proof -
  have hs: "unat h < unat s" using assms(4) by (simp add: word_less_nat_alt)
  have l: "length seen = 1024"
    and b: "\<And>y. y \<le> unat h \<Longrightarrow> unat h - y < 65536 \<Longrightarrow> seen_bit seen (y mod 65536) \<longleftrightarrow> y \<in> sp_accepted A"
    and sub: "sp_accepted A \<subseteq> {..unat h}"
    using assms(1-3) by (simp_all add: ring_agrees_def spec_wf_def)
  note adv = seen_bit_advance_window [OF assms(4) l, of "x mod 65536"]
  show ?thesis
  proof (cases "x \<le> unat h")
    case True
    have "\<not> (\<exists>y. unat h < y \<and> y \<le> unat s \<and> y mod 65536 = x mod 65536)"
      using window_inj [of _ "unat s" x 65536] x True by fastforce
    moreover have "unat h - x < 65536" using x hs by linarith
    ultimately show ?thesis using adv b [OF True] by simp
  next
    case False
    then show ?thesis using adv x sub by auto
  qed
qed

lemma refines_insert_top:
  assumes R: "refines t A" and bound: "card (sp_accepted A) < 2 ^ 64 - 1"
    and top: "sp_top A = Some (unat h)" "h < s"
  shows "refines (fst (record_tracked t s)) (fst (spec_tracked A (unat s)))
    \<and> snd (record_tracked t s) = snd (spec_tracked A (unat s))"
proof -
  have hs: "unat h < unat s" using top(2) by (simp add: word_less_nat_alt)
  have wf: "spec_wf A" and ring: "ring_agrees (pt_seen t) A" and hi: "pt_highest_seen t = Some h"
    and rc: "unat (pt_received t) = card (sp_accepted A)" and ls: "unat (pt_lost t) = card (spec_missing A)"
    using R refines_top [OF R top(1)] by (simp_all add: refines_def)
  have sub: "sp_accepted A \<subseteq> {..unat h}" and fin: "finite (sp_accepted A)"
    using wf top by (simp_all add: spec_wf_def)
  have ns: "unat s \<notin> sp_accepted A" using sub hs by auto
  let ?t = "fst (record_tracked t s)" and ?A = "fst (spec_tracked A (unat s))"
  have A': "sp_accepted ?A = insert (unat s) (sp_accepted A)" "sp_top ?A = Some (unat s)"
      "sp_held ?A = sp_held A" "sp_late ?A = sp_late A"
    using top hs by (simp_all add: spec_tracked_def)
  have l: "length (pt_seen t) = 1024" using ring by (simp add: ring_agrees_def)
  have la: "length (advance_window (pt_seen t) h s) = 1024" using l by (rule length_advance_window)
  have wf': "spec_wf ?A" using wf sub fin hs ns by (auto simp: spec_wf_def A' top(1))
  have cm: "card (spec_missing ?A) = unat s - card (sp_accepted A)"
    using card_missing [OF wf' A'(2)] ns fin by (simp add: A')
  have cl: "card (sp_accepted A) \<le> unat h + 1" by (rule card_accepted_le [OF wf top(1)])
  have gap: "unat (s - h - 1) = unat s - unat h - 1"
  proof -
    have "h \<le> s" using top(2) by simp
    then have sh: "unat (s - h) = unat s - unat h" by (simp add: unat_sub)
    then have "unat (1::u64) \<le> unat (s - h)" using hs by simp
    then show ?thesis using sh by (subst unat_sub) (simp_all add: word_le_nat_alt)
  qed
  have "unat (pt_lost t) + (unat s - unat h - 1) = unat s - card (sp_accepted A)"
    using cl hs by (simp add: ls card_missing [OF wf top(1)])
  moreover have "unat s - card (sp_accepted A) \<le> 2 ^ 64 - 1" using unat_lt_pow [of s] by simp
  ultimately have lost: "unat (pt_lost ?t) = card (spec_missing ?A)"
    using hi top(2) by (simp add: record_tracked_def Let_def unat_saturating_add gap cm)
  have recv: "unat (pt_received ?t) = card (sp_accepted ?A)"
    using hi top(2) bound fin ns by (simp add: record_tracked_def Let_def unat_saturating_add A' rc)
  have ringx: "seen_bit (pt_seen ?t) (x mod 65536) \<longleftrightarrow> x \<in> insert (unat s) (sp_accepted A)"
    if "x \<le> unat s" "unat s - x < 65536" for x
    using that hi top(2) ring_mark [OF la ring_advance [OF ring wf top] order_refl _ that]
    by (simp add: record_tracked_def Let_def ring_index_mod tracker_consts)
  have "length (pt_seen ?t) = 1024" using hi top(2) la by (simp add: record_tracked_def Let_def)
  then have ring': "ring_agrees (pt_seen ?t) ?A" using ringx by (simp add: ring_agrees_def A')
  have rest: "pt_highest_seen ?t = Some s" "pt_unconfirmed_jump ?t = pt_unconfirmed_jump t"
      "pt_out_of_order ?t = pt_out_of_order t" "snd (record_tracked t s)" "snd (spec_tracked A (unat s))"
    using hi top hs by (simp_all add: record_tracked_def spec_tracked_def Let_def)
  show ?thesis
    using R wf' ring' lost recv rest A' by (simp add: refines_def)
qed

lemma refines_insert_late:
  assumes R: "refines t A" and bound: "card (sp_accepted A) < 2 ^ 64 - 1"
    and top: "sp_top A = Some (unat h)" "\<not> h < s"
  shows "refines (fst (record_tracked t s)) (fst (spec_tracked A (unat s)))
    \<and> snd (record_tracked t s) = snd (spec_tracked A (unat s))"
proof -
  have hs: "unat s \<le> unat h" using top(2) by (simp add: word_less_nat_alt)
  have hd: "unat (h - s) = unat h - unat s" using hs by (simp add: unat_sub word_le_nat_alt)
  have wf: "spec_wf A" and ring: "ring_agrees (pt_seen t) A" and hi: "pt_highest_seen t = Some h"
    and rc: "unat (pt_received t) = card (sp_accepted A)" and ls: "unat (pt_lost t) = card (spec_missing A)"
    and ooo: "unat (pt_out_of_order t) = sp_late A"
    using R refines_top [OF R top(1)] by (simp_all add: refines_def)
  have l: "length (pt_seen t) = 1024"
    and b: "\<And>y. y \<le> unat h \<Longrightarrow> unat h - y < 65536 \<Longrightarrow> seen_bit (pt_seen t) (y mod 65536) \<longleftrightarrow> y \<in> sp_accepted A"
    using ring top(1) by (simp_all add: ring_agrees_def)
  have fin: "finite (sp_accepted A)" and late: "sp_late A < card (sp_accepted A)"
    and sub: "sp_accepted A \<subseteq> {..unat h}" and mem: "unat h \<in> sp_accepted A"
    using wf top by (simp_all add: spec_wf_def)
  show ?thesis
  proof (cases "65536 \<le> unat h - unat s \<or> unat s \<in> sp_accepted A")
    case True
    then have "65536 \<le> unat (h - s) \<or> seen_bit (pt_seen t) (ring_index s)"
      using b [OF hs] hd by (cases "65536 \<le> unat h - unat s") (simp_all add: ring_index_mod)
    then have "record_tracked t s = (t, False)"
      using hi top(2) by (auto simp: record_tracked_def Let_def tracker_consts seen_test)
    moreover have "spec_tracked A (unat s) = (A, False)"
      using True top(1) hs by (auto simp: spec_tracked_def tracker_consts Let_def)
    ultimately show ?thesis using R by simp
  next
    case False
    then have w: "unat h - unat s < 65536" and ns: "unat s \<notin> sp_accepted A" by auto
    have nb: "\<not> seen_bit (pt_seen t) (ring_index s)" using b [OF hs w] ns by (simp add: ring_index_mod)
    define t' where "t' = t\<lparr>pt_lost := saturating_sub (pt_lost t) 1,
        pt_out_of_order := saturating_add (pt_out_of_order t) 1,
        pt_seen := (pt_seen t)[ring_index s div 64 := (pt_seen t ! (ring_index s div 64)) OR
          push_bit (ring_index s mod 64) 1],
        pt_received := saturating_add (pt_received t) 1\<rparr>"
    have t': "record_tracked t s = (t', True)"
      using hi top(2) nb w hd seen_test [of "pt_seen t" "ring_index s"]
      by (simp add: record_tracked_def Let_def tracker_consts t'_def)
    define A' where "A' = A\<lparr>sp_accepted := insert (unat s) (sp_accepted A), sp_late := sp_late A + 1\<rparr>"
    have A': "spec_tracked A (unat s) = (A', True)"
      using top(1) hs w ns by (simp add: spec_tracked_def tracker_consts Let_def A'_def)
    have topA': "sp_top A' = Some (unat h)" by (simp add: A'_def top)
    have wf': "spec_wf A'" using wf fin sub hs ns late mem by (simp add: spec_wf_def A'_def top)
    have cm: "card (spec_missing A') = card (spec_missing A) - 1"
      using card_missing [OF wf' topA'] card_missing [OF wf top(1)] ns fin by (simp add: A'_def)
    have ring': "ring_agrees (pt_seen t') A'"
      using ring_mark [OF l b hs w] l
      by (simp add: ring_agrees_def t'_def A'_def top(1) ring_index_mod)
    have "sp_late A + 1 \<le> 2 ^ 64 - 1" using late bound by linarith
    then have "refines t' A'"
      using wf' ring' R topA' cm bound ns fin hi
      by (simp add: refines_def t'_def A'_def unat_saturating_sub unat_saturating_add rc ls ooo top min_def)
    then show ?thesis using t' A' by simp
  qed
qed

lemma refines_insert_first:
  assumes R: "refines t A" and top: "sp_top A = None"
  shows "refines (fst (record_tracked t s)) (fst (spec_tracked A (unat s)))
    \<and> snd (record_tracked t s) = snd (spec_tracked A (unat s))"
proof -
  have hi: "pt_highest_seen t = None" and acc: "sp_accepted A = {}" and late: "sp_late A = 0"
    and l: "length (pt_seen t) = 1024" and nb: "\<And>i. i < 65536 \<Longrightarrow> \<not> seen_bit (pt_seen t) i"
    and rc: "unat (pt_received t) = 0"
    using R top by (auto simp: refines_def spec_wf_def ring_agrees_def)
  have ringx: "seen_bit ((pt_seen t)[unat s mod 65536 div 64 := (pt_seen t ! (unat s mod 65536 div 64)) OR
            push_bit (unat s mod 65536 mod 64) 1]) (x mod 65536) \<longleftrightarrow> x = unat s"
    if "x \<le> unat s" "unat s - x < 65536" for x
    using ring_mark [OF l, of "unat s" "{}" "unat s" x] that nb by auto
  have "card ({..unat s} - {unat s}) = unat s" by simp
  then show ?thesis
    using R hi top l ringx
    by (simp add: refines_def spec_wf_def ring_agrees_def spec_missing_def record_tracked_def
        spec_tracked_def Let_def acc late ring_index_mod tracker_consts unat_saturating_add rc)
qed

theorem record_tracked_refines:
  assumes "refines t A" "card (sp_accepted A) < 2 ^ 64 - 1"
  shows "refines (fst (record_tracked t s)) (fst (spec_tracked A (unat s)))
    \<and> snd (record_tracked t s) = snd (spec_tracked A (unat s))"
proof (cases "pt_highest_seen t")
  case None
  with assms show ?thesis by (intro refines_insert_first) (auto simp: refines_def)
next
  case (Some h)
  with assms have "sp_top A = Some (unat h)" by (simp add: refines_def)
  with assms show ?thesis
    using refines_insert_top [of t A h s] refines_insert_late [of t A h s] by (cases "h < s") auto
qed

section \<open>Whole arrivals\<close>

text \<open>Membership facts of the specification: only received numbers are accepted or held.\<close>

lemma spec_tracked_accepted: "sp_accepted (fst (spec_tracked A s)) \<subseteq> insert s (sp_accepted A)"
  and spec_tracked_held: "sp_held (fst (spec_tracked A s)) = sp_held A"
  by (auto simp: spec_tracked_def Let_def split: option.splits)

lemma spec_tracked_mono: "sp_accepted A \<subseteq> sp_accepted (fst (spec_tracked A s))"
  by (auto simp: spec_tracked_def Let_def split: option.splits)

lemma spec_unique_accepted:
  "sp_accepted (fst (spec_unique A s)) \<subseteq> insert s (sp_accepted A \<union> set_option (sp_held A))"
  using spec_tracked_accepted [of A s] spec_tracked_accepted [of "A\<lparr>sp_held := None\<rparr>"]
    spec_tracked_accepted [of "fst (spec_tracked (A\<lparr>sp_held := None\<rparr>) g)" s for g]
  by (fastforce simp: spec_unique_def Let_def split: option.splits if_splits)

lemma spec_unique_held: "set_option (sp_held (fst (spec_unique A s))) \<subseteq> insert s (set_option (sp_held A))"
  by (auto simp: spec_unique_def Let_def spec_tracked_held split: option.splits if_splits)

theorem record_unique_refines:
  assumes R: "refines t A" and bound: "card (sp_accepted A) + 1 < 2 ^ 64 - 1"
  shows "refines (fst (record_unique t s)) (fst (spec_unique A (unat s)))
    \<and> snd (record_unique t s) = snd (spec_unique A (unat s))"
proof -
  define far where "far \<longleftrightarrow> PACKET_TRACKER_WINDOW < (case sp_top A of Some h \<Rightarrow> unat s - h | None \<Rightarrow> unat s + 1)"
  have top: "sp_top A = map_option unat (pt_highest_seen t)"
    and held: "sp_held A = map_option unat (pt_unconfirmed_jump t)" using R by (simp_all add: refines_def)
  have "PACKET_TRACKER_WINDOW < unat (case pt_highest_seen t of
      Some highest \<Rightarrow> saturating_sub s highest | None \<Rightarrow> saturating_add s 1) \<longleftrightarrow> far"
    by (auto simp: far_def top unat_saturating_sub unat_saturating_add tracker_consts min_def
        split: option.splits)
  then have code: "record_unique t s = (if far then (let (t', ok) = confirm_jump t s
      in if \<not> ok then (t', False) else record_tracked t' s) else record_tracked t s)"
    by (simp only: record_unique_def Let_def)
  have bound1: "card (sp_accepted A) < 2 ^ 64 - 1" using bound by simp
  show ?thesis
  proof (cases "far \<and> (\<exists>g. pt_unconfirmed_jump t = Some g \<and> unat (abs_diff g s) < PACKET_TRACKER_WINDOW)")
    case True
    then obtain g where g: "pt_unconfirmed_jump t = Some g" "unat (abs_diff g s) < PACKET_TRACKER_WINDOW"
      by blast
    let ?t = "t\<lparr>pt_unconfirmed_jump := None\<rparr>" and ?A = "A\<lparr>sp_held := None\<rparr>"
    have R0: "refines ?t ?A"
      using refines_held [OF R, of None] by simp
    have R1: "refines (fst (record_tracked ?t g)) (fst (spec_tracked ?A (unat g)))"
      using record_tracked_refines [OF R0] bound1 by simp
    have "card (sp_accepted (fst (spec_tracked ?A (unat g)))) \<le> card (insert (unat g) (sp_accepted A))"
      using spec_tracked_accepted [of ?A "unat g"] R
      by (intro card_mono) (auto simp: refines_def spec_wf_def)
    also have "\<dots> \<le> card (sp_accepted A) + 1" by (simp add: card_insert_le_m1 card_insert_if)
    finally have "card (sp_accepted (fst (spec_tracked ?A (unat g)))) < 2 ^ 64 - 1" using bound by simp
    note R2 = record_tracked_refines [OF R1 this, of s]
    have c: "record_unique t s = record_tracked (fst (record_tracked ?t g)) s"
      using True g by (simp add: code confirm_jump_def)
    have a: "spec_unique A (unat s) = spec_tracked (fst (spec_tracked ?A (unat g))) (unat s)"
      using True g unfolding far_def
      by (simp add: spec_unique_def held unat_abs_diff)
    show ?thesis unfolding c a by (rule R2)
  next
    case False
    show ?thesis
    proof (cases far)
      case True
      with False have c: "record_unique t s = (t\<lparr>pt_unconfirmed_jump := Some s\<rparr>, False)"
        by (auto simp: code confirm_jump_def split: option.splits)
      have a: "spec_unique A (unat s) = (A\<lparr>sp_held := Some (unat s)\<rparr>, False)"
        using True False unfolding far_def
        by (auto simp: spec_unique_def held unat_abs_diff split: option.splits)
      show ?thesis unfolding c a
        using refines_held [OF R, of "Some s"] by simp
    next
      case False
      then show ?thesis
        using record_tracked_refines [OF R bound1, of s] unfolding far_def
        by (simp add: code far_def spec_unique_def Let_def)
    qed
  qed
qed

theorem record_straggler_refines:
  assumes R: "refines t A" and bound: "card (sp_accepted A) < 2 ^ 64 - 1"
  shows "refines (fst (record_straggler t s)) (fst (spec_straggler A (unat s)))
    \<and> snd (record_straggler t s) = snd (spec_straggler A (unat s))"
proof (cases "pt_highest_seen t")
  case None
  with R show ?thesis by (simp add: record_straggler_def spec_straggler_def refines_def)
next
  case (Some h)
  with R have "sp_top A = Some (unat h)" by (simp add: refines_def)
  then show ?thesis
    using Some R record_tracked_refines [OF assms, of s]
    by (simp add: record_straggler_def spec_straggler_def word_less_nat_alt)
qed

definition tracker_run :: "u64 list \<Rightarrow> PacketTracker" where
  "tracker_run ss = foldl record_packet PacketTracker_new ss"

definition spec_run :: "nat list \<Rightarrow> seq_spec" where
  "spec_run ss = foldl (\<lambda>A s. fst (spec_unique A s)) spec_new ss"

lemma spec_run_members: "sp_accepted (spec_run ss) \<union> set_option (sp_held (spec_run ss)) \<subseteq> set ss"
proof (induction ss rule: rev_induct)
  case Nil
  show ?case by (simp add: spec_run_def spec_new_def)
next
  case (snoc s ss)
  then show ?case
    using spec_unique_accepted [of "spec_run ss" s] spec_unique_held [of "spec_run ss" s]
    by (auto simp: spec_run_def)
qed

lemma tracker_run_refines:
  "length ss < 2 ^ 64 - 2 \<Longrightarrow> refines (tracker_run ss) (spec_run (map unat ss))"
proof (induction ss rule: rev_induct)
  case Nil
  show ?case by (simp add: tracker_run_def spec_run_def refines_new)
next
  case (snoc s ss)
  have "card (sp_accepted (spec_run (map unat ss))) \<le> card (set (map unat ss))"
    using spec_run_members [of "map unat ss"] by (intro card_mono) auto
  also have "\<dots> \<le> length ss" by (metis card_length length_map)
  finally have "card (sp_accepted (spec_run (map unat ss))) + 1 < 2 ^ 64 - 1" using snoc.prems by simp
  then show ?case
    using snoc record_unique_refines [of "tracker_run ss" "spec_run (map unat ss)" s]
    by (simp add: tracker_run_def spec_run_def record_packet_def)
qed

lemma spec_run_snoc: "spec_run (ss @ [s]) = fst (spec_unique (spec_run ss) s)"
  by (simp add: spec_run_def)

text \<open>Inside one window nothing is held, refused as too old, or forgotten.\<close>

lemma spec_run_one_window:
  "\<forall>s\<in>set ss. s < PACKET_TRACKER_WINDOW \<Longrightarrow> sp_accepted (spec_run ss) = set ss
     \<and> sp_top (spec_run ss) = (if ss = [] then None else Some (Max (set ss)))"
proof (induction ss rule: rev_induct)
  case Nil
  show ?case by (simp add: spec_run_def spec_new_def)
next
  case (snoc s ss)
  let ?A = "spec_run ss"
  have s: "s < PACKET_TRACKER_WINDOW" and IH: "sp_accepted ?A = set ss"
      "sp_top ?A = (if ss = [] then None else Some (Max (set ss)))"
    using snoc by auto
  have step: "spec_run (ss @ [s]) = fst (spec_tracked ?A s)"
    using s IH(2) by (simp add: spec_run_snoc spec_unique_def Let_def)
  show ?case
  proof (cases "ss = []")
    case True
    with IH show ?thesis unfolding step by (simp add: spec_tracked_def)
  next
    case False
    have M: "Max (insert s (set ss)) = max s (Max (set ss))" using False by simp
    have "Max (set ss) \<in> set ss" using False by simp
    then have "Max (set ss) - s < PACKET_TRACKER_WINDOW" using snoc.prems by (auto intro: less_imp_diff_less)
    moreover have "Max (set ss) < s \<Longrightarrow> s \<notin> set ss" by (meson List.finite_set Max_ge leD)
    ultimately show ?thesis
      using False IH M
      by (cases "Max (set ss) < s"; cases "s \<in> set ss")
        (simp_all add: step spec_tracked_def Let_def insert_absorb max_def del: Max_insert Max_less_iff)
  qed
qed

lemma refines_sum:
  assumes "refines t A" "pt_highest_seen t = Some h"
  shows "unat (pt_received t) + unat (pt_lost t) = unat h + 1"
proof -
  have "sp_top A = Some (unat h)" "spec_wf A" using assms by (simp_all add: refines_def)
  then have "unat (pt_lost t) = unat h + 1 - card (sp_accepted A)" "card (sp_accepted A) \<le> unat h + 1"
    using assms(1) card_missing card_accepted_le by (auto simp: refines_def)
  moreover have "unat (pt_received t) = card (sp_accepted A)" using assms(1) by (simp add: refines_def)
  ultimately show ?thesis by linarith
qed

lemma record_tracked_frame:
  "record_tracked (t\<lparr>pt_unconfirmed_jump := y\<rparr>) s =
     (fst (record_tracked t s)\<lparr>pt_unconfirmed_jump := y\<rparr>, snd (record_tracked t s))"
  by (simp add: record_tracked_def Let_def split: option.split)

lemma record_tracked_below:
  "pt_highest_seen t = Some h \<Longrightarrow> s < h \<Longrightarrow> pt_highest_seen (fst (record_tracked t s)) = Some h"
  by (auto simp: record_tracked_def Let_def)

section \<open>Properties\<close>

text \<open>C6: for every arrival order of sequence numbers the bitmap tracker computes what the set
  specification says: received is the number of accepted sequence numbers, lost is the number of
  holes below the high-water mark, out-of-order counts the late ones, and the next packet is
  accepted exactly when the specification accepts it.\<close>

theorem tracker_refines_spec:
  assumes "length ss < 2 ^ 64 - 2"
  shows "let t = tracker_run ss; A = spec_run (map unat ss) in
      unat (pt_received t) = card (sp_accepted A)
    \<and> unat (pt_lost t) = card (spec_missing A)
    \<and> unat (pt_out_of_order t) = sp_late A
    \<and> (pt_highest_seen t = None \<or> unat (pt_received t) + unat (pt_lost t) = unat (the (pt_highest_seen t)) + 1)
    \<and> snd (record_unique t s) = snd (spec_unique A (unat s))"
proof -
  have R: "refines (tracker_run ss) (spec_run (map unat ss))" using assms by (rule tracker_run_refines)
  have "card (sp_accepted (spec_run (map unat ss))) \<le> card (set (map unat ss))"
    using spec_run_members [of "map unat ss"] by (intro card_mono) auto
  also have "\<dots> \<le> length ss" by (metis card_length length_map)
  finally have "card (sp_accepted (spec_run (map unat ss))) + 1 < 2 ^ 64 - 1" using assms by simp
  then have "snd (record_unique (tracker_run ss) s) = snd (spec_unique (spec_run (map unat ss)) (unat s))"
    using record_unique_refines [OF R] by blast
  moreover have "pt_highest_seen (tracker_run ss) = None \<or> unat (pt_received (tracker_run ss))
      + unat (pt_lost (tracker_run ss)) = unat (the (pt_highest_seen (tracker_run ss))) + 1"
    using refines_sum [OF R] by (cases "pt_highest_seen (tracker_run ss)") auto
  ultimately show ?thesis using R by (simp add: Let_def refines_def)
qed

theorem tracker_refines_spec_witness:
  "unat (pt_received (tracker_run [0, 3, 3, 1])) = 3 \<and> unat (pt_lost (tracker_run [0, 3, 3, 1])) = 1"
proof -
  have sp: "spec_run [0, 3, 3, Suc 0] = \<lparr>sp_accepted = {0, 3, Suc 0}, sp_top = Some 3, sp_held = None, sp_late = 1\<rparr>"
    by (simp add: spec_run_def spec_new_def spec_unique_def spec_tracked_def tracker_consts insert_commute)
  have "{..3::nat} - {0, 3, Suc 0} = {2}" by auto
  then show ?thesis
    using tracker_refines_spec [of "[0, 3, 3, 1]" 0] by (simp add: Let_def sp spec_missing_def)
qed

text \<open>As long as the sequence numbers stay inside one window, any reordering and any
  duplication is counted exactly: received is the number of distinct packets, and lost the number
  of sequence numbers up to the highest one that never arrived.\<close>

theorem tracker_exact_in_window:
  assumes "ss \<noteq> []" "length ss < 2 ^ 64 - 2" "\<forall>s\<in>set ss. unat s < PACKET_TRACKER_WINDOW"
  shows "unat (pt_received (tracker_run ss)) = card (set ss)
    \<and> unat (pt_lost (tracker_run ss)) = card ({..Max (unat ` set ss)} - unat ` set ss)"
proof -
  have A: "sp_accepted (spec_run (map unat ss)) = unat ` set ss"
      "sp_top (spec_run (map unat ss)) = Some (Max (unat ` set ss))"
    using spec_run_one_window [of "map unat ss"] assms by auto
  moreover have "card (unat ` set ss) = card (set ss)" by (simp add: card_image inj_on_def word_unat_eq_iff)
  ultimately show ?thesis
    using tracker_run_refines [OF assms(2)] by (simp add: refines_def spec_missing_def)
qed

theorem tracker_exact_in_window_witness:
  "unat (pt_received (tracker_run [5, 0, 5, 2])) = 3"
  using tracker_exact_in_window [of "[5, 0, 5, 2]"] by (simp add: tracker_consts card_insert_if)

text \<open>One datagram with a sequence number more than a window ahead changes nothing but the held
  jump: it is not accepted, and every later packet that is not itself a far jump is recorded
  exactly as if the stray datagram had never arrived.\<close>

theorem stray_far_jump_is_inert:
  assumes "pt_highest_seen t = Some h" "pt_unconfirmed_jump t = None"
    and "unat h + PACKET_TRACKER_WINDOW < unat s" and "unat r \<le> unat h + PACKET_TRACKER_WINDOW"
  shows "record_unique t s = (t\<lparr>pt_unconfirmed_jump := Some s\<rparr>, False)
    \<and> record_unique (fst (record_unique t s)) r =
        (fst (record_unique t r)\<lparr>pt_unconfirmed_jump := Some s\<rparr>, snd (record_unique t r))"
proof -
  have held: "record_unique t s = (t\<lparr>pt_unconfirmed_jump := Some s\<rparr>, False)"
    using assms less_diff_conv [of PACKET_TRACKER_WINDOW "unat s" "unat h"]
    by (simp add: record_unique_def confirm_jump_def unat_saturating_sub add.commute)
  have "\<not> PACKET_TRACKER_WINDOW < unat (saturating_sub r h)"
    using assms(4) by (simp add: unat_saturating_sub)
  then have "record_unique (t\<lparr>pt_unconfirmed_jump := y\<rparr>) r = record_tracked (t\<lparr>pt_unconfirmed_jump := y\<rparr>) r"
    and "record_unique t r = record_tracked t r" for y
    using assms(1) by (simp_all add: record_unique_def)
  then show ?thesis using held record_tracked_frame [where t = t and y = "Some s" and s = r] by simp
qed

theorem stray_far_jump_is_inert_witness:
  "snd (record_unique (PacketTracker_new\<lparr>pt_highest_seen := Some 0\<rparr>) 100000) = False"
  using stray_far_jump_is_inert [of "PacketTracker_new\<lparr>pt_highest_seen := Some 0\<rparr>" 0 100000 0]
  by (simp add: tracker_consts PacketTracker_new_def)

text \<open>A datagram drained after the test ended can only fill a hole: the high-water mark and the
  sum of received and lost stay as they were, and an accepted straggler raises received by one.\<close>

theorem straggler_only_fills_gaps:
  assumes "length ss < 2 ^ 64 - 2"
  shows "let t = tracker_run ss; (t', accepted) = record_straggler t s in
      pt_highest_seen t' = pt_highest_seen t
    \<and> unat (pt_received t') + unat (pt_lost t') = unat (pt_received t) + unat (pt_lost t)
    \<and> unat (pt_received t') = unat (pt_received t) + (if accepted then 1 else 0)"
proof -
  let ?t = "tracker_run ss" and ?A = "spec_run (map unat ss)"
  let ?t' = "fst (record_straggler ?t s)" and ?A' = "fst (spec_straggler ?A (unat s))"
  have R: "refines ?t ?A" using assms by (rule tracker_run_refines)
  have "card (sp_accepted ?A) \<le> card (set (map unat ss))"
    using spec_run_members [of "map unat ss"] by (intro card_mono) auto
  also have "\<dots> \<le> length ss" by (metis card_length length_map)
  finally have "card (sp_accepted ?A) < 2 ^ 64 - 1" using assms by simp
  from record_straggler_refines [OF R this, of s]
  have R': "refines ?t' ?A'" and acc: "snd (record_straggler ?t s) = snd (spec_straggler ?A (unat s))" by auto
  show ?thesis
  proof (cases "pt_highest_seen ?t")
    case None
    then show ?thesis by (simp add: record_straggler_def Let_def)
  next
    case (Some h)
    have h': "pt_highest_seen ?t' = Some h"
      using Some record_tracked_below [OF Some] by (auto simp: record_straggler_def)
    have top: "sp_top ?A = Some (unat h)" and fin: "finite (sp_accepted ?A)"
      using R Some by (simp_all add: refines_def spec_wf_def)
    have "card (sp_accepted ?A') = card (sp_accepted ?A) + (if snd (spec_straggler ?A (unat s)) then 1 else 0)"
      using top fin by (auto simp: spec_straggler_def spec_tracked_def Let_def)
    then have "unat (pt_received ?t') = unat (pt_received ?t) + (if snd (record_straggler ?t s) then 1 else 0)"
      using R R' acc by (simp add: refines_def)
    then show ?thesis
      using h' Some refines_sum [OF R Some] refines_sum [OF R' h'] by (simp add: Let_def split_beta)
  qed
qed

theorem straggler_only_fills_gaps_witness:
  "pt_highest_seen (fst (record_straggler (tracker_run [0, 2]) 1)) = pt_highest_seen (tracker_run [0, 2])"
  using straggler_only_fills_gaps [of "[0, 2]" 1] by (simp add: Let_def split_beta)

end
