(* ===== verification/Byte_Budget.thy ===== *)
theory Byte_Budget
  imports Xfr_Prelude
begin

text \<open>
  The shared byte budget of \<open>src/budget.rs\<close>. Sequentially \<open>claim\<close>, \<open>refund\<close> and \<open>is_spent\<close> are
  functions on the remaining count. Concurrently the claim is a load and a compare-exchange loop
  that other streams interleave with: a step relation over the threads' program points, with the
  weak exchange free to fail, and the conservation of bytes as its invariant.
\<close>

section \<open>Sequential operations\<close>

record ByteBudget =
  remaining :: u64

definition ByteBudget_new :: "u64 \<Rightarrow> ByteBudget" where
  "ByteBudget_new tot = \<lparr>remaining = tot\<rparr>"

definition claim :: "ByteBudget \<Rightarrow> usize \<Rightarrow> usize \<times> ByteBudget" where
  "claim b want =
     (let current = remaining b; granted = min current want
      in if granted = 0 then (0, b) else (granted, b\<lparr>remaining := current - granted\<rparr>))"

definition refund :: "ByteBudget \<Rightarrow> usize \<Rightarrow> ByteBudget" where
  "refund b n = (if 0 < n then b\<lparr>remaining := remaining b + n\<rparr> else b)"

definition is_spent :: "ByteBudget \<Rightarrow> bool" where
  "is_spent b = (remaining b = 0)"

text \<open>The optional budget of the send loops: without one, a timed test writes the full chunk.\<close>

definition claim_or_full :: "ByteBudget option \<Rightarrow> usize \<Rightarrow> usize \<times> ByteBudget option" where
  "claim_or_full budget want =
     (case budget of Some b \<Rightarrow> (let (g, b') = claim b want in (g, Some b')) | None \<Rightarrow> (want, None))"

definition refund_unwritten :: "ByteBudget option \<Rightarrow> usize \<Rightarrow> usize \<Rightarrow> ByteBudget option" where
  "refund_unwritten budget claimed written =
     (case budget of Some b \<Rightarrow> Some (refund b (saturating_sub claimed written)) | None \<Rightarrow> None)"

section \<open>Interface of a byte pool\<close>

text \<open>What a send loop relies on: a claim takes at most what is asked for and what is left, grants
  nothing only when nothing is left (or asked for), and a refund puts the bytes back.\<close>

locale byte_pool =
  fixes take_from :: "'p \<Rightarrow> usize \<Rightarrow> usize \<times> 'p"
    and give_back :: "'p \<Rightarrow> usize \<Rightarrow> 'p"
    and level :: "'p \<Rightarrow> nat"
  assumes take_le: "take_from p w = (g, p') \<Longrightarrow> g \<le> w"
    and take_level: "take_from p w = (g, p') \<Longrightarrow> level p' + unat g = level p"
    and take_zero: "take_from p w = (0, p') \<Longrightarrow> w = 0 \<or> level p = 0"
    and give_level: "level p + unat n < 2 ^ 64 \<Longrightarrow> level (give_back p n) = level p + unat n"
begin

text \<open>One round of a send loop: claim, write a part of it, hand the rest back.\<close>

lemma round_conserves:
  assumes "take_from p w = (g, p')" "n \<le> g" "level p < 2 ^ 64"
  shows "level (give_back p' (g - n)) + unat n = level p"
proof -
  have g: "level p' + unat g = level p" using assms(1) by (rule take_level)
  have gn: "unat (g - n) = unat g - unat n" using assms(2) by (simp add: unat_sub)
  have "unat n \<le> unat g" using assms(2) by (simp add: word_le_nat_alt)
  then have "level p' + unat (g - n) < 2 ^ 64" using g gn assms(3) by linarith
  then show ?thesis using give_level g gn \<open>unat n \<le> unat g\<close> by simp
qed

lemma take_never_exceeds: "take_from p w = (g, p') \<Longrightarrow> unat g \<le> level p"
  using take_level by fastforce

lemma take_progress: "take_from p w = (g, p') \<Longrightarrow> 0 < level p \<Longrightarrow> w \<noteq> 0 \<Longrightarrow> level p' < level p"
  using take_zero take_level by (metis add_cancel_right_right le_add1 le_neq_implies_less
      less_numeral_extra(3) unat_eq_zero)

end

lemma claim_cases:
  "claim b w = (g, b') \<Longrightarrow> g = min (remaining b) w \<and> remaining b' = remaining b - g"
  by (auto simp: claim_def Let_def split: if_splits)

interpretation budget: byte_pool claim refund "\<lambda>b. unat (remaining b)"
proof unfold_locales
  fix p w g p'
  assume c: "claim p w = (g, p')"
  note g = claim_cases [OF c]
  from g show "g \<le> w" by simp
  have "g \<le> remaining p" using g by simp
  then show "unat (remaining p') + unat g = unat (remaining p)"
    using g by (simp add: unat_sub word_le_nat_alt)
next
  fix p w p'
  assume "claim p w = (0, p')"
  from claim_cases [OF this] show "w = 0 \<or> unat (remaining p) = 0"
    by (auto simp: min_def split: if_splits)
next
  fix p :: ByteBudget and n :: usize
  assume "unat (remaining p) + unat n < 2 ^ 64"
  then show "unat (remaining (refund p n)) = unat (remaining p) + unat n"
    by (simp add: refund_def unat_word_ariths word_less_nat_alt)
qed

section \<open>Streams that share one budget\<close>

text \<open>
  A stream is idle, has started a claim, has loaded the value it will compare against, holds
  granted bytes it is about to write, has stopped because a claim returned zero, or has quit for
  another reason (deadline, cancel, write error).
\<close>

datatype stream_pc =
    Idle
  | ClaimStart usize
  | ClaimCas u64 usize
  | Holding usize
  | Stopped
  | Quit

record budget_sys =
  bs_budget :: ByteBudget
  bs_pcs :: "stream_pc list"
  bs_written :: nat

definition budget_init :: "u64 \<Rightarrow> nat \<Rightarrow> budget_sys \<Rightarrow> bool" where
  "budget_init tot n s = (s = \<lparr>bs_budget = ByteBudget_new tot, bs_pcs = replicate n Idle, bs_written = 0\<rparr>)"

abbreviation set_pc :: "budget_sys \<Rightarrow> nat \<Rightarrow> stream_pc \<Rightarrow> budget_sys" where
  "set_pc s i pc \<equiv> s\<lparr>bs_pcs := (bs_pcs s)[i := pc]\<rparr>"

text \<open>One atomic action of one stream. A chunk to write is never empty; a failed exchange (the
  value changed, or the weak exchange failed for no reason) reloads; a short write hands the rest
  back.\<close>

inductive budget_step :: "budget_sys \<Rightarrow> budget_sys \<Rightarrow> bool" where
  begin_claim: "i < length (bs_pcs s) \<Longrightarrow> bs_pcs s ! i = Idle \<Longrightarrow> 0 < want \<Longrightarrow>
     budget_step s (set_pc s i (ClaimStart want))"
| load: "i < length (bs_pcs s) \<Longrightarrow> bs_pcs s ! i = ClaimStart want \<Longrightarrow>
     budget_step s (set_pc s i (ClaimCas (remaining (bs_budget s)) want))"
| granted_zero: "i < length (bs_pcs s) \<Longrightarrow> bs_pcs s ! i = ClaimCas cur want \<Longrightarrow> min cur want = 0 \<Longrightarrow>
     budget_step s (set_pc s i Stopped)"
| cas_ok: "i < length (bs_pcs s) \<Longrightarrow> bs_pcs s ! i = ClaimCas cur want \<Longrightarrow> min cur want \<noteq> 0 \<Longrightarrow>
     remaining (bs_budget s) = cur \<Longrightarrow>
     budget_step s (set_pc (s\<lparr>bs_budget := \<lparr>remaining = cur - min cur want\<rparr>\<rparr>) i (Holding (min cur want)))"
| cas_fail: "i < length (bs_pcs s) \<Longrightarrow> bs_pcs s ! i = ClaimCas cur want \<Longrightarrow> min cur want \<noteq> 0 \<Longrightarrow>
     budget_step s (set_pc s i (ClaimCas (remaining (bs_budget s)) want))"
| written: "i < length (bs_pcs s) \<Longrightarrow> bs_pcs s ! i = Holding g \<Longrightarrow> n \<le> g \<Longrightarrow>
     budget_step s (set_pc (s\<lparr>bs_budget := refund (bs_budget s) (saturating_sub g n),
                              bs_written := bs_written s + unat n\<rparr>) i Idle)"
| quit: "i < length (bs_pcs s) \<Longrightarrow> bs_pcs s ! i = Idle \<Longrightarrow> budget_step s (set_pc s i Quit)"

inductive_simps budget_step_iff: "budget_step s t"

fun held_bytes :: "stream_pc \<Rightarrow> nat" where
  "held_bytes (Holding g) = unat g"
| "held_bytes _ = 0"

text \<open>A stream that will look at the budget again before it stops.\<close>

fun looking :: "stream_pc \<Rightarrow> bool" where
  "looking Idle = True"
| "looking (ClaimStart _) = True"
| "looking (ClaimCas cur _) = (cur \<noteq> 0)"
| "looking (Holding _) = True"
| "looking _ = False"

fun pc_wf :: "stream_pc \<Rightarrow> bool" where
  "pc_wf (ClaimStart w) = (w \<noteq> 0)"
| "pc_wf (ClaimCas _ w) = (w \<noteq> 0)"
| "pc_wf _ = True"

definition conserved :: "u64 \<Rightarrow> budget_sys \<Rightarrow> bool" where
  "conserved tot s \<longleftrightarrow>
     unat (remaining (bs_budget s)) + sum_list (map held_bytes (bs_pcs s)) + bs_written s = unat tot"

definition no_bytes_forgotten :: "budget_sys \<Rightarrow> bool" where
  "no_bytes_forgotten s \<longleftrightarrow> (\<forall>pc\<in>set (bs_pcs s). pc_wf pc) \<and>
     (remaining (bs_budget s) = 0 \<or> (\<exists>pc\<in>set (bs_pcs s). looking pc \<or> pc = Quit))"

lemma sum_list_update_held:
  "i < length pcs \<Longrightarrow>
     sum_list (map held_bytes (pcs[i := pc])) + held_bytes (pcs ! i) = sum_list (map held_bytes pcs) + held_bytes pc"
  by (induction pcs arbitrary: i) (auto simp: nth_Cons split: nat.split)

lemma conserved_step: "conserved tot s \<Longrightarrow> budget_step s t \<Longrightarrow> conserved tot t"
proof -
  assume c: "conserved tot s" and "budget_step s t"
  from this(2) show ?thesis
  proof cases
    case (cas_ok i cur want)
    have "min cur want \<le> cur" by simp
    then show ?thesis
      using c cas_ok sum_list_update_held [of i "bs_pcs s" "Holding (min cur want)"]
      by (simp add: conserved_def unat_sub word_le_nat_alt)
  next
    case (written i g n)
    have u: "sum_list (map held_bytes ((bs_pcs s)[i := Idle])) + unat g = sum_list (map held_bytes (bs_pcs s))"
      using sum_list_update_held [of i "bs_pcs s" Idle] written by simp
    have n: "unat n \<le> unat g" using written(4) by (simp add: word_le_nat_alt)
    have "unat (remaining (bs_budget s)) + unat (saturating_sub g n) < 2 ^ 64"
      using c u n unat_lt_pow [of tot] by (simp add: conserved_def unat_saturating_sub)
    then have "unat (remaining (refund (bs_budget s) (saturating_sub g n)))
        = unat (remaining (bs_budget s)) + (unat g - unat n)"
      by (simp add: budget.give_level unat_saturating_sub)
    then show ?thesis using c u n written(1) by (simp add: conserved_def)
  next
    case (begin_claim i want)
    then show ?thesis
      using c sum_list_update_held [of i "bs_pcs s" "ClaimStart want"] by (simp add: conserved_def)
  next
    case (load i want)
    then show ?thesis
      using c sum_list_update_held [of i "bs_pcs s" "ClaimCas (remaining (bs_budget s)) want"]
      by (simp add: conserved_def)
  next
    case (granted_zero i cur want)
    then show ?thesis
      using c sum_list_update_held [of i "bs_pcs s" Stopped] by (simp add: conserved_def)
  next
    case (cas_fail i cur want)
    then show ?thesis
      using c sum_list_update_held [of i "bs_pcs s" "ClaimCas (remaining (bs_budget s)) want"]
      by (simp add: conserved_def)
  next
    case (quit i)
    then show ?thesis
      using c sum_list_update_held [of i "bs_pcs s" Quit] by (simp add: conserved_def)
  qed
qed

lemma conserved_init: "budget_init tot n s \<Longrightarrow> conserved tot s"
  by (simp add: budget_init_def conserved_def ByteBudget_new_def sum_list_replicate)

interpretation budget_conserved: inductive_invariant "budget_init tot n" budget_step "conserved tot"
  by unfold_locales (auto intro: conserved_init conserved_step)

lemma pc_wf_update: "\<forall>pc\<in>set pcs. pc_wf pc \<Longrightarrow> pc_wf x \<Longrightarrow> \<forall>pc\<in>set (pcs[i := x]). pc_wf pc"
  by (auto dest!: set_update_subset_insert [THEN subsetD])

lemma looking_update:
  assumes "i < length pcs" "looking x \<or> x = Quit"
  shows "\<exists>pc\<in>set (pcs[i := x]). looking pc \<or> pc = Quit"
  using assms set_update_memI [of i pcs x] by blast

lemma looking_other:
  assumes "\<exists>pc\<in>set pcs. looking pc \<or> pc = Quit" "i < length pcs" "\<not> looking (pcs ! i)" "pcs ! i \<noteq> Quit"
  shows "\<exists>pc\<in>set (pcs[i := x]). looking pc \<or> pc = Quit"
proof -
  from assms(1) obtain k where k: "k < length pcs" "looking (pcs ! k) \<or> pcs ! k = Quit"
    by (auto simp: in_set_conv_nth)
  then have "k \<noteq> i" using assms by auto
  then have "pcs[i := x] ! k = pcs ! k" by simp
  then show ?thesis using k by (metis length_list_update nth_mem)
qed

lemma no_bytes_forgotten_step: "no_bytes_forgotten s \<Longrightarrow> budget_step s t \<Longrightarrow> no_bytes_forgotten t"
proof -
  assume c: "no_bytes_forgotten s" and "budget_step s t"
  then have wf: "\<forall>pc\<in>set (bs_pcs s). pc_wf pc"
    and lk: "remaining (bs_budget s) = 0 \<or> (\<exists>pc\<in>set (bs_pcs s). looking pc \<or> pc = Quit)"
    by (simp_all add: no_bytes_forgotten_def)
  from \<open>budget_step s t\<close> show ?thesis
  proof cases
    case (begin_claim i want)
    then have "want \<noteq> 0" by auto
    with begin_claim show ?thesis
      using pc_wf_update [OF wf, of "ClaimStart want" i] looking_update [of i "bs_pcs s" "ClaimStart want"]
      by (simp add: no_bytes_forgotten_def)
  next
    case (load i want)
    have "want \<noteq> 0" using wf load nth_mem [of i "bs_pcs s"] by fastforce
    then show ?thesis
      using load pc_wf_update [OF wf, of "ClaimCas (remaining (bs_budget s)) want" i] looking_update [of i "bs_pcs s" "ClaimCas (remaining (bs_budget s)) want"]
      by (auto simp: no_bytes_forgotten_def)
  next
    case (granted_zero i cur want)
    have "want \<noteq> 0" using wf granted_zero nth_mem [of i "bs_pcs s"] by fastforce
    then have "cur = 0" using granted_zero(4) by (auto simp: min_def split: if_splits)
    then show ?thesis
      using granted_zero lk pc_wf_update [OF wf, of Stopped i] looking_other [of "bs_pcs s" i Stopped]
      by (auto simp: no_bytes_forgotten_def)
  next
    case (cas_ok i cur want)
    then show ?thesis
      using pc_wf_update [OF wf, of "Holding (min cur want)" i] looking_update [of i "bs_pcs s" "Holding (min cur want)"]
      by (simp add: no_bytes_forgotten_def)
  next
    case (cas_fail i cur want)
    have "want \<noteq> 0" using wf cas_fail nth_mem [of i "bs_pcs s"] by fastforce
    then show ?thesis
      using cas_fail pc_wf_update [OF wf, of "ClaimCas (remaining (bs_budget s)) want" i] looking_update [of i "bs_pcs s" "ClaimCas (remaining (bs_budget s)) want"]
      by (auto simp: no_bytes_forgotten_def)
  next
    case (written i g n)
    then show ?thesis using pc_wf_update [OF wf, of Idle i] looking_update [of i "bs_pcs s" Idle]
      by (simp add: no_bytes_forgotten_def)
  next
    case (quit i)
    then show ?thesis using pc_wf_update [OF wf, of Quit i] looking_update [of i "bs_pcs s" Quit]
      by (simp add: no_bytes_forgotten_def)
  qed
qed

definition budget_start :: "u64 \<Rightarrow> nat \<Rightarrow> budget_sys \<Rightarrow> bool" where
  "budget_start tot n s = (budget_init tot n s \<and> 0 < n)"

lemma no_bytes_forgotten_init: "budget_start tot n s \<Longrightarrow> no_bytes_forgotten s"
  by (auto simp: budget_start_def budget_init_def no_bytes_forgotten_def)

interpretation budget_looked_at: inductive_invariant "budget_start tot n" budget_step no_bytes_forgotten
  by unfold_locales (auto intro: no_bytes_forgotten_init no_bytes_forgotten_step)

lemma start_reachable: "reachable (budget_start tot n) budget_step s \<Longrightarrow> reachable (budget_init tot n) budget_step s"
  by (induction rule: reachable.induct) (auto intro: reachable.intros simp: budget_start_def)

section \<open>Properties\<close>

text \<open>C7: in every interleaving of any number of streams, whatever their claims, failed exchanges,
  short writes and refunds, the bytes written, the bytes held for a write and the bytes left always
  add up to the budget; so the streams together never write more than N bytes.\<close>

theorem budget_never_exceeded:
  assumes "reachable (budget_init tot n) budget_step s"
  shows "bs_written s + sum_list (map held_bytes (bs_pcs s)) + unat (remaining (bs_budget s)) = unat tot
    \<and> bs_written s \<le> unat tot"
  using budget_conserved.invar_reachable [OF assms] by (simp add: conserved_def)

theorem budget_never_exceeded_witness:
  "bs_written \<lparr>bs_budget = ByteBudget_new 1000, bs_pcs = [Idle, Idle], bs_written = 0\<rparr> \<le> 1000"
proof -
  have "reachable (budget_init 1000 2) budget_step
      \<lparr>bs_budget = ByteBudget_new 1000, bs_pcs = [Idle, Idle], bs_written = 0\<rparr>"
    by (rule reach_init) (simp add: budget_init_def numeral_2_eq_2)
  from budget_never_exceeded [OF this] show ?thesis by simp
qed

text \<open>When every stream has stopped because its claim returned zero, exactly N bytes were
  written: no refunded byte is ever left behind, in whatever order the streams saw the budget.\<close>

theorem budget_fully_written:
  assumes r: "reachable (budget_start tot n) budget_step s" and all: "\<forall>pc\<in>set (bs_pcs s). pc = Stopped"
  shows "bs_written s = unat tot \<and> is_spent (bs_budget s)"
proof -
  have "remaining (bs_budget s) = 0"
    using budget_looked_at.invar_reachable [OF r] all by (fastforce simp: no_bytes_forgotten_def)
  moreover have "sum_list (map held_bytes (bs_pcs s)) = 0"
    using all by (induction "bs_pcs s" arbitrary: s) auto
  ultimately show ?thesis
    using budget_conserved.invar_reachable [OF start_reachable [OF r]] unfolding conserved_def is_spent_def
    by (simp only: unat_0 add_0_right add_0_left)
qed

lemma zero_budget_run:
  "reachable (budget_start 0 1) budget_step \<lparr>bs_budget = ByteBudget_new 0, bs_pcs = [Stopped], bs_written = 0\<rparr>"
proof -
  let ?s = "\<lambda>pc. \<lparr>bs_budget = ByteBudget_new 0, bs_pcs = [pc], bs_written = 0\<rparr>"
  have "reachable (budget_start 0 1) budget_step (?s Idle)"
    by (rule reach_init) (simp add: budget_start_def budget_init_def)
  moreover have "budget_step (?s Idle) (?s (ClaimStart 5))" using begin_claim [of 0 "?s Idle" 5] by simp
  moreover have "budget_step (?s (ClaimStart 5)) (?s (ClaimCas 0 5))"
    using load [of 0 "?s (ClaimStart 5)" 5] by (simp add: ByteBudget_new_def)
  moreover have "budget_step (?s (ClaimCas 0 5)) (?s Stopped)"
    using granted_zero [of 0 "?s (ClaimCas 0 5)" 0 5] by simp
  ultimately show ?thesis by (meson reach_step)
qed

theorem budget_fully_written_witness:
  "bs_written \<lparr>bs_budget = ByteBudget_new 0, bs_pcs = [Stopped], bs_written = 0\<rparr> = unat (0 :: u64)"
  using budget_fully_written [OF zero_budget_run] by simp

text \<open>The compare-exchange loop is atomic where it counts: a successful exchange changes the
  budget and grants exactly what the sequential claim would at that instant.\<close>

theorem cas_success_is_claim:
  assumes "i < length (bs_pcs s)" "bs_pcs s ! i = ClaimCas (remaining (bs_budget s)) want"
    and "min (remaining (bs_budget s)) want \<noteq> 0"
  shows "let (g, b) = claim (bs_budget s) want
     in budget_step s (set_pc (s\<lparr>bs_budget := b\<rparr>) i (Holding g)) \<and> g \<le> want \<and> unat g \<le> unat (remaining (bs_budget s))"
proof -
  have "claim (bs_budget s) want = (min (remaining (bs_budget s)) want,
      \<lparr>remaining = remaining (bs_budget s) - min (remaining (bs_budget s)) want\<rparr>)"
    using assms(3) by (cases "bs_budget s") (simp add: claim_def Let_def)
  moreover have "unat (min (remaining (bs_budget s)) want) \<le> unat (remaining (bs_budget s))"
    using word_le_nat_alt min.cobounded1 by blast
  ultimately show ?thesis using cas_ok [OF assms(1,2,3)] by simp
qed

theorem cas_success_is_claim_witness:
  "let s = \<lparr>bs_budget = ByteBudget_new 100, bs_pcs = [ClaimCas 100 64], bs_written = 0\<rparr>
   in budget_step s (set_pc (s\<lparr>bs_budget := ByteBudget_new 36\<rparr>) 0 (Holding 64))"
  using cas_success_is_claim [of 0 "\<lparr>bs_budget = ByteBudget_new 100, bs_pcs = [ClaimCas 100 64], bs_written = 0\<rparr>" 64]
  by (simp add: ByteBudget_new_def claim_def Let_def)

end
