(* ===== verification/Rust_Text.thy ===== *)
theory Rust_Text
  imports Xfr_Prelude
begin

text \<open>
  The string operations of Rust's standard library that the sources use, on strings over the
  code points U+0000 to U+00FF (one \<open>char\<close> per code point): lengths in UTF-8 bytes, trimming and
  splitting at white space, lines, case folding, and parsing of unsigned integers in a radix.
\<close>

section \<open>Characters\<close>

definition is_whitespace :: "char \<Rightarrow> bool" where
  "is_whitespace c = (let k = of_char c :: nat in (9 \<le> k \<and> k \<le> 13) \<or> k = 32 \<or> k = 133 \<or> k = 160)"

definition is_control :: "char \<Rightarrow> bool" where
  "is_control c = (let k = of_char c :: nat in k \<le> 31 \<or> (127 \<le> k \<and> k \<le> 159))"

definition is_ascii_char :: "char \<Rightarrow> bool" where
  "is_ascii_char c = ((of_char c :: nat) < 128)"

definition is_ascii :: "string \<Rightarrow> bool" where
  "is_ascii s = list_all is_ascii_char s"

text \<open>\<open>str::len\<close> counts UTF-8 bytes: two for a code point from U+0080 to U+00FF.\<close>

definition utf8_len :: "string \<Rightarrow> nat" where
  "utf8_len s = sum_list (map (\<lambda>c. if is_ascii_char c then 1 else 2) s)"

lemma utf8_len_ascii: "is_ascii s \<Longrightarrow> utf8_len s = length s"
  by (induction s) (auto simp: utf8_len_def is_ascii_def)

lemma length_le_utf8_len: "length s \<le> utf8_len s"
  by (induction s) (auto simp: utf8_len_def)

definition lower_char :: "char \<Rightarrow> char" where
  "lower_char c = (let k = of_char c :: nat in
     if (65 \<le> k \<and> k \<le> 90) \<or> (192 \<le> k \<and> k \<le> 222 \<and> k \<noteq> 215) then char_of (k + 32) else c)"

definition to_lowercase :: "string \<Rightarrow> string" where
  "to_lowercase s = map lower_char s"

section \<open>Splitting and trimming\<close>

definition trim :: "string \<Rightarrow> string" where
  "trim s = rev (dropWhile is_whitespace (rev (dropWhile is_whitespace s)))"

text \<open>\<open>str::split(c)\<close>: one more piece than there are separators.\<close>

fun split_on :: "char \<Rightarrow> string \<Rightarrow> string list" where
  "split_on c [] = [[]]"
| "split_on c (x # xs) =
     (if x = c then [] # split_on c xs
      else (case split_on c xs of [] \<Rightarrow> [[x]] | p # ps \<Rightarrow> (x # p) # ps))"

text \<open>\<open>str::split_whitespace\<close>: the maximal runs without white space.\<close>

function split_whitespace :: "string \<Rightarrow> string list" where
  "split_whitespace s =
     (case dropWhile is_whitespace s of
        [] \<Rightarrow> []
      | t \<Rightarrow> takeWhile (\<lambda>c. \<not> is_whitespace c) t # split_whitespace (dropWhile (\<lambda>c. \<not> is_whitespace c) t))"
  by pat_completeness auto
termination
proof (relation "measure length")
  show "wf (measure (length :: string \<Rightarrow> nat))" by simp
next
  fix s x xs
  assume eq: "dropWhile is_whitespace s = x # xs"
  then have "\<not> is_whitespace x"
    by (metis hd_dropWhile list.distinct(1) list.sel(1))
  then have "length (dropWhile (\<lambda>c. \<not> is_whitespace c) (x # xs)) \<le> length xs"
    by (simp add: length_dropWhile_le)
  moreover have "Suc (length xs) \<le> length s"
    using length_dropWhile_le [of is_whitespace s] eq by simp
  ultimately show "(dropWhile (\<lambda>c. \<not> is_whitespace c) (x # xs), s) \<in> measure length"
    by simp
qed

declare split_whitespace.simps [simp del]

text \<open>\<open>str::lines\<close>: pieces ended by a line feed, a final carriage return of a piece dropped,
  no piece for an empty rest after the last line feed.\<close>

definition strip_cr :: "string \<Rightarrow> string" where
  "strip_cr s = (if s \<noteq> [] \<and> last s = char_of (13::nat) then butlast s else s)"

definition lines :: "string \<Rightarrow> string list" where
  "lines s = (let ps = split_on (char_of (10::nat)) s in
     map strip_cr (butlast ps) @ (if last ps = [] then [] else [strip_cr (last ps)]))"

lemma split_on_ne [simp]: "split_on c s \<noteq> []"
  by (induction s) (auto split: list.splits)

lemma split_on_concat:
  "c \<notin> set p \<Longrightarrow> split_on c (p @ c # s) = p # split_on c s"
  by (induction p) auto

lemma split_on_no_sep: "c \<notin> set p \<Longrightarrow> split_on c p = [p]"
  by (induction p) auto

section \<open>Unsigned integers in text\<close>

definition digit_val :: "nat \<Rightarrow> char \<Rightarrow> nat option" where
  "digit_val r c = (let k = of_char c :: nat;
      d = (if 48 \<le> k \<and> k \<le> 57 then Some (k - 48)
           else if 97 \<le> k \<and> k \<le> 122 then Some (k - 87)
           else if 65 \<le> k \<and> k \<le> 90 then Some (k - 55) else None)
    in case d of None \<Rightarrow> None | Some v \<Rightarrow> if v < r then Some v else None)"

fun parse_digits :: "nat \<Rightarrow> nat \<Rightarrow> string \<Rightarrow> nat option" where
  "parse_digits r acc [] = Some acc"
| "parse_digits r acc (c # cs) =
     (case digit_val r c of None \<Rightarrow> None | Some d \<Rightarrow> parse_digits r (acc * r + d) cs)"

text \<open>\<open>from_str_radix\<close> of an unsigned integer of \<open>w\<close> bits: one leading plus sign is skipped when
  something follows it, at least one digit is required, and overflow is an error.\<close>

definition parse_uint :: "nat \<Rightarrow> nat \<Rightarrow> string \<Rightarrow> nat option" where
  "parse_uint r w s =
     (let t = (case s of [] \<Rightarrow> [] | c # cs \<Rightarrow> if c = CHR ''+'' \<and> cs \<noteq> [] then cs else s)
      in if t = [] then None
         else case parse_digits r 0 t of
                None \<Rightarrow> None | Some v \<Rightarrow> if v < 2 ^ w then Some v else None)"

section \<open>Hexadecimal\<close>

definition hex_digit :: "nat \<Rightarrow> char" where
  "hex_digit n = (if n < 10 then char_of (48 + n) else char_of (87 + n))"

text \<open>\<open>format!("{:02x}", b)\<close>.\<close>

definition hex2 :: "byte \<Rightarrow> string" where
  "hex2 b = [hex_digit (unat b div 16), hex_digit (unat b mod 16)]"

definition hex_encode :: "bytes \<Rightarrow> string" where
  "hex_encode bs = concat (map hex2 bs)"

lemma of_char_hex_digit: "n < 16 \<Longrightarrow> (of_char (hex_digit n) :: nat) = (if n < 10 then 48 + n else 87 + n)"
  by (simp add: hex_digit_def)

lemma digit_val_hex_digit: "n < 16 \<Longrightarrow> digit_val 16 (hex_digit n) = Some n"
  by (simp add: digit_val_def of_char_hex_digit Let_def)

lemma hex_digit_not_plus: "n < 16 \<Longrightarrow> hex_digit n \<noteq> CHR ''+''"
proof
  assume "n < 16" "hex_digit n = CHR ''+''"
  then have "(of_char (hex_digit n) :: nat) = 43" by simp
  with \<open>n < 16\<close> show False by (simp add: of_char_hex_digit split: if_splits)
qed

lemma unat_byte_lt: "unat (b :: byte) < 256"
  using unat_lt_pow [of b] by simp

lemma parse_hex2: "parse_uint 16 8 (hex2 b) = Some (unat b)"
proof -
  have hi: "unat b div 16 < 16" using unat_byte_lt [of b] by simp
  have lo: "unat b mod 16 < 16" by simp
  have "unat b div 16 * 16 + unat b mod 16 = unat b" by simp
  then show ?thesis
    using unat_byte_lt [of b]
    by (simp add: parse_uint_def hex2_def digit_val_hex_digit [OF hi] digit_val_hex_digit [OF lo]
        hex_digit_not_plus [OF hi])
qed

lemma is_ascii_hex_encode: "is_ascii (hex_encode bs)"
proof -
  have "(of_char (hex_digit n) :: nat) < 128" if "n < 16" for n
    using that by (simp add: of_char_hex_digit)
  moreover have "unat b div 16 < 16" for b :: byte using unat_byte_lt [of b] by simp
  ultimately show ?thesis
    by (induction bs) (auto simp: is_ascii_def hex_encode_def hex2_def is_ascii_char_def)
qed

lemma length_hex_encode [simp]: "length (hex_encode bs) = 2 * length bs"
  by (induction bs) (auto simp: hex_encode_def hex2_def)

text \<open>\<open>chunks(2)\<close> of the bytes of a string, each parsed as one byte.\<close>

fun chunks2 :: "'a list \<Rightarrow> 'a list list" where
  "chunks2 (a # b # r) = [a, b] # chunks2 r"
| "chunks2 [a] = [[a]]"
| "chunks2 [] = []"

lemma chunks2_hex_encode: "chunks2 (hex_encode bs) = map hex2 bs"
  by (induction bs) (auto simp: hex_encode_def hex2_def)

lemma those_map_Some [simp]: "those (map Some xs) = Some xs"
  by (induction xs) auto

lemma hex_encode_inj: "hex_encode a = hex_encode b \<Longrightarrow> a = b"
proof -
  assume "hex_encode a = hex_encode b"
  then have "map hex2 a = map hex2 b" by (metis chunks2_hex_encode)
  moreover have "inj hex2"
    by (rule injI) (metis option.inject parse_hex2 word_unat_eq_iff)
  ultimately show "a = b" by (simp add: inj_map_eq_map)
qed

section \<open>Decimal\<close>

text \<open>\<open>Display\<close> of an unsigned integer.\<close>

fun show_nat :: "nat \<Rightarrow> string" where
  "show_nat n = (if n < 10 then [hex_digit n] else show_nat (n div 10) @ [hex_digit (n mod 10)])"

declare show_nat.simps [simp del]

lemma show_nat_digits: "c \<in> set (show_nat n) \<Longrightarrow> \<exists>d<10. c = hex_digit d"
proof (induction n arbitrary: c rule: show_nat.induct)
  case (1 n)
  have "c \<in> set (if n < 10 then [hex_digit n] else show_nat (n div 10) @ [hex_digit (n mod 10)])"
    using "1.prems" by (subst (asm) show_nat.simps) simp
  then show ?case using "1.IH" by (auto split: if_splits intro: exI [of _ "n mod 10"])
qed

lemma show_nat_not_Nil [simp]: "show_nat n \<noteq> []"
  by (subst show_nat.simps) simp

lemma parse_digits_append:
  "parse_digits r acc (xs @ ys) = (case parse_digits r acc xs of None \<Rightarrow> None | Some v \<Rightarrow> parse_digits r v ys)"
  by (induction xs arbitrary: acc) (auto split: option.split)

lemma digit_val_10: "d < 10 \<Longrightarrow> digit_val 10 (hex_digit d) = Some d"
  by (simp add: digit_val_def of_char_hex_digit Let_def)

lemma parse_digits_show_nat: "parse_digits 10 0 (show_nat n) = Some n"
proof (induction n rule: show_nat.induct)
  case (1 n)
  then show ?case
    by (subst show_nat.simps) (auto simp: parse_digits_append digit_val_10)
qed

lemma show_nat_no_char: "(\<And>d. d < 10 \<Longrightarrow> c \<noteq> hex_digit d) \<Longrightarrow> c \<notin> set (show_nat n)"
  using show_nat_digits by blast

lemma parse_show_nat: "n < 2 ^ w \<Longrightarrow> parse_uint 10 w (show_nat n) = Some n"
proof -
  assume n: "n < 2 ^ w"
  have "CHR ''+'' \<notin> set (show_nat n)"
  proof (rule show_nat_no_char)
    fix d :: nat
    assume "d < 10"
    then have "d < 16" by simp
    from hex_digit_not_plus [OF this] show "CHR ''+'' \<noteq> hex_digit d" by simp
  qed
  then have "(case show_nat n of [] \<Rightarrow> [] | c # cs \<Rightarrow> if c = CHR ''+'' \<and> cs \<noteq> [] then cs else show_nat n) = show_nat n"
    by (auto split: list.splits)
  then show ?thesis using n by (simp add: parse_uint_def parse_digits_show_nat Let_def)
qed

section \<open>UTF-8 bytes of a string\<close>

definition utf8_char :: "char \<Rightarrow> bytes" where
  "utf8_char c = (let k = of_char c :: nat in
     if k < 128 then [word_of_nat k] else [word_of_nat (192 + k div 64), word_of_nat (128 + k mod 64)])"

definition as_bytes :: "string \<Rightarrow> bytes" where
  "as_bytes s = concat (map utf8_char s)"

lemma of_char_lt: "(of_char (c :: char) :: nat) < 256"
  using of_char_mod_256 [of c] by (metis mod_less_divisor zero_less_numeral)

lemma unat_of_small: "n < 256 \<Longrightarrow> unat (word_of_nat n :: byte) = n"
  by (simp add: unat_of_nat take_bit_eq_mod)

lemma utf8_char_prefix: "utf8_char c @ r = utf8_char d @ s \<Longrightarrow> c = d \<and> r = s"
proof -
  assume eq: "utf8_char c @ r = utf8_char d @ s"
  define k l where "k = (of_char c :: nat)" and "l = (of_char d :: nat)"
  have kl: "k < 256" "l < 256" by (simp_all add: k_def l_def of_char_lt)
  have dv: "k div 64 < 64" "l div 64 < 64" using kl by (simp_all add: less_mult_imp_div_less)
  have inj: "(word_of_nat a :: byte) = word_of_nat b \<Longrightarrow> a < 256 \<Longrightarrow> b < 256 \<Longrightarrow> a = b" for a b
    by (metis unat_of_small)
  have "k = l \<and> r = s"
  proof (cases "k < 128"; cases "l < 128")
    assume "\<not> k < 128" "\<not> l < 128"
    then have "192 + k div 64 = 192 + l div 64" "128 + k mod 64 = 128 + l mod 64" "r = s"
      using eq kl inj [of "192 + k div 64" "192 + l div 64"] inj [of "128 + k mod 64" "128 + l mod 64"]
      by (auto simp: utf8_char_def Let_def k_def [symmetric] l_def [symmetric] simp del: of_nat_add)
    then show ?thesis by (metis add_left_cancel div_mult_mod_eq)
  qed (use eq kl dv inj [of k "192 + l div 64"] inj [of "192 + k div 64" l] inj [of k l] in
      \<open>auto simp: utf8_char_def Let_def k_def [symmetric] l_def [symmetric] simp del: of_nat_add\<close>)
  then show ?thesis by (simp add: k_def l_def)
qed

lemma utf8_char_ne: "utf8_char c \<noteq> []"
  by (simp add: utf8_char_def Let_def)

lemma as_bytes_inj: "as_bytes s = as_bytes t \<longleftrightarrow> s = t"
proof
  show "as_bytes s = as_bytes t \<Longrightarrow> s = t"
  proof (induction s arbitrary: t)
    case Nil
    then show ?case by (cases t) (auto simp: as_bytes_def utf8_char_ne)
  next
    case (Cons c s)
    then obtain d t' where t: "t = d # t'" by (cases t) (auto simp: as_bytes_def utf8_char_ne)
    with Cons show ?case using utf8_char_prefix by (fastforce simp: as_bytes_def)
  qed
qed simp

lemma length_as_bytes: "length (as_bytes s) = utf8_len s"
  by (induction s) (auto simp: as_bytes_def utf8_len_def utf8_char_def is_ascii_char_def Let_def)

section \<open>Constant-time comparison\<close>

text \<open>\<open>constant_time_eq\<close>, which \<open>auth.rs\<close> and \<open>control_crypto.rs\<close> both define: every position up to the
  longer length is compared, a missing byte reads as zero, and the length difference is folded in.\<close>

definition get_or_0 :: "bytes \<Rightarrow> nat \<Rightarrow> byte" where
  "get_or_0 a i = (if i < length a then a ! i else 0)"

definition constant_time_eq :: "bytes \<Rightarrow> bytes \<Rightarrow> bool" where
  "constant_time_eq a b =
     (let len = max (length a) (length b);
          result = foldl (\<lambda>r i. r OR (get_or_0 a i XOR get_or_0 b i)) (0 :: byte) [0..<len];
          result = result OR (if length a \<noteq> length b then 1 else 0)
      in result = 0)"

lemma foldl_or_zero:
  "foldl (\<lambda>r i. r OR f i) (r :: byte) xs = 0 \<longleftrightarrow> r = 0 \<and> (\<forall>i\<in>set xs. f i = 0)"
  by (induction xs arbitrary: r) (auto simp: or_eq_0_iff)

lemma xor_zero: "a XOR b = 0 \<longleftrightarrow> a = b" for a b :: byte
proof
  assume "a XOR b = 0"
  then have "(a XOR b) XOR b = 0 XOR b" by simp
  then show "a = b" by (simp add: xor.assoc)
qed simp

lemma constant_time_eq_iff: "constant_time_eq a b \<longleftrightarrow> a = b"
proof
  assume c: "constant_time_eq a b"
  then have len: "length a = length b"
    by (auto simp: constant_time_eq_def Let_def or_eq_0_iff split: if_splits)
  have "\<forall>i<length a. get_or_0 a i XOR get_or_0 b i = 0"
    using c len by (simp add: constant_time_eq_def Let_def foldl_or_zero)
  then have "\<forall>i<length a. a ! i = b ! i"
    using len by (simp add: get_or_0_def xor_zero)
  with len show "a = b" by (simp add: nth_equalityI)
next
  assume "a = b"
  moreover have "foldl (\<lambda>r i. r) (0 :: byte) xs = 0" for xs :: "nat list" by (induction xs) auto
  ultimately show "constant_time_eq a b" by (simp add: constant_time_eq_def Let_def)
qed

end
