(* ===== verification/Acl.thy ===== *)
theory Acl
  imports Rust_Text
begin

text \<open>
  Access control lists (\<open>src/acl.rs\<close>). Networks come from the \<open>ipnetwork\<close> crate: their membership
  test, parser and printer are parameters (\<open>contains\<close>, \<open>parse\<close>, \<open>display\<close>) of the definitions that
  use them. Reading the rule file is a parameter too; what is done with its text is modelled.
\<close>

section \<open>Addresses\<close>

datatype IpAddr = V4 "32 word" | V6 "128 word"

text \<open>\<open>Ipv6Addr::to_ipv4_mapped\<close>: the prefix \<open>::ffff:0:0/96\<close>.\<close>

definition to_ipv4_mapped :: "128 word \<Rightarrow> 32 word option" where
  "to_ipv4_mapped a = (if drop_bit 32 a = 0xffff then Some (ucast a) else None)"

definition normalize_ip :: "IpAddr \<Rightarrow> IpAddr" where
  "normalize_ip ip =
     (case ip of
        V6 v6 \<Rightarrow> (case to_ipv4_mapped v6 of Some v4 \<Rightarrow> V4 v4 | None \<Rightarrow> ip)
      | _ \<Rightarrow> ip)"

definition map_v4 :: "32 word \<Rightarrow> 128 word" where
  "map_v4 a = push_bit 32 0xffff OR ucast a"

lemma to_ipv4_mapped_map_v4: "to_ipv4_mapped (map_v4 a) = Some a"
proof -
  have m: "(0xffff :: 128 word) = mask 16" by (simp add: mask_eq_exp_minus_1)
  have "drop_bit 32 (push_bit 32 (mask 16) OR ucast a) = (mask 16 :: 128 word)"
    by (rule bit_eqI) (auto simp: bit_simps dest: bit_imp_le_length)
  moreover have "(ucast (push_bit 32 p OR ucast a :: 128 word) :: 32 word) = a" for p :: "128 word"
    by (rule bit_eqI) (auto simp: bit_simps)
  ultimately show ?thesis unfolding to_ipv4_mapped_def map_v4_def m by simp
qed

section \<open>Rules\<close>

record 'net Acl =
  acl_allow :: "'net list"
  acl_deny :: "'net list"

datatype acl_error = ReadError | InvalidLine string | BadNetwork string | UnknownDirective string

definition Acl_new :: "'net Acl" where
  "Acl_new = \<lparr>acl_allow = [], acl_deny = []\<rparr>"

fun parse_all :: "(string \<Rightarrow> 'net option) \<Rightarrow> string list \<Rightarrow> acl_error + 'net list" where
  "parse_all parse [] = Ok []"
| "parse_all parse (s # ss) =
     (case parse s of
        None \<Rightarrow> Err (BadNetwork s)
      | Some n \<Rightarrow> (case parse_all parse ss of Inl e \<Rightarrow> Err e | Inr ns \<Rightarrow> Ok (n # ns)))"

definition from_rules :: "(string \<Rightarrow> 'net option) \<Rightarrow> string list \<Rightarrow> string list \<Rightarrow> acl_error + 'net Acl" where
  "from_rules parse allow deny =
     (case parse_all parse allow of
        Inl e \<Rightarrow> Err e
      | Inr a \<Rightarrow> (case parse_all parse deny of
                   Inl e \<Rightarrow> Err e
                 | Inr d \<Rightarrow> Ok \<lparr>acl_allow = a, acl_deny = d\<rparr>))"

definition allow_rule :: "'net Acl \<Rightarrow> 'net \<Rightarrow> 'net Acl" where
  "allow_rule acl n = acl\<lparr>acl_allow := acl_allow acl @ [n]\<rparr>"

definition deny_rule :: "'net Acl \<Rightarrow> 'net \<Rightarrow> 'net Acl" where
  "deny_rule acl n = acl\<lparr>acl_deny := acl_deny acl @ [n]\<rparr>"

text \<open>One line of a rule file: blank lines and comments are skipped, the network is parsed before
  the directive is looked at.\<close>

definition acl_line :: "(string \<Rightarrow> 'net option) \<Rightarrow> 'net Acl \<Rightarrow> string \<Rightarrow> acl_error + 'net Acl" where
  "acl_line parse acl raw =
     (let line = trim raw
      in if line = [] \<or> hd line = CHR ''#'' then Ok acl
         else (case split_whitespace line of
                 [d, n] \<Rightarrow>
                   (case parse n of
                      None \<Rightarrow> Err (BadNetwork n)
                    | Some network \<Rightarrow>
                        if to_lowercase d = ''allow'' then Ok (allow_rule acl network)
                        else if to_lowercase d = ''deny'' then Ok (deny_rule acl network)
                        else Err (UnknownDirective d))
               | _ \<Rightarrow> Err (InvalidLine line)))"

fun acl_lines :: "(string \<Rightarrow> 'net option) \<Rightarrow> 'net Acl \<Rightarrow> string list \<Rightarrow> acl_error + 'net Acl" where
  "acl_lines parse acl [] = Ok acl"
| "acl_lines parse acl (l # ls) =
     (case acl_line parse acl l of Inl e \<Rightarrow> Err e | Inr acl' \<Rightarrow> acl_lines parse acl' ls)"

definition from_file :: "(string \<Rightarrow> 'net option) \<Rightarrow> string option \<Rightarrow> acl_error + 'net Acl" where
  "from_file parse content =
     (case content of None \<Rightarrow> Err ReadError | Some text \<Rightarrow> acl_lines parse Acl_new (lines text))"

definition is_allowed :: "('net \<Rightarrow> IpAddr \<Rightarrow> bool) \<Rightarrow> 'net Acl \<Rightarrow> IpAddr \<Rightarrow> bool" where
  "is_allowed contains acl ip0 =
     (let ip = normalize_ip ip0
      in if list_ex (\<lambda>n. contains n ip) (acl_deny acl) then False
         else if acl_allow acl = [] then True
         else list_ex (\<lambda>n. contains n ip) (acl_allow acl))"

definition is_configured :: "'net Acl \<Rightarrow> bool" where
  "is_configured acl = (acl_allow acl \<noteq> [] \<or> acl_deny acl \<noteq> [])"

definition matched_rule :: "('net \<Rightarrow> IpAddr \<Rightarrow> bool) \<Rightarrow> ('net \<Rightarrow> string) \<Rightarrow> 'net Acl \<Rightarrow> IpAddr \<Rightarrow> string option" where
  "matched_rule contains display acl ip0 =
     (let ip = normalize_ip ip0
      in case find (\<lambda>n. contains n ip) (acl_deny acl) of
           Some n \<Rightarrow> Some (''deny '' @ display n)
         | None \<Rightarrow> (case find (\<lambda>n. contains n ip) (acl_allow acl) of
                     Some n \<Rightarrow> Some (''allow '' @ display n)
                   | None \<Rightarrow> None))"

record AclConfig =
  cfg_allow :: "string list"
  cfg_deny :: "string list"
  cfg_file :: "string option"

fun add_all :: "(string \<Rightarrow> 'net option) \<Rightarrow> ('net Acl \<Rightarrow> 'net \<Rightarrow> 'net Acl) \<Rightarrow> 'net Acl \<Rightarrow> string list \<Rightarrow> acl_error + 'net Acl" where
  "add_all parse add acl [] = Ok acl"
| "add_all parse add acl (s # ss) =
     (case parse s of None \<Rightarrow> Err (BadNetwork s) | Some n \<Rightarrow> add_all parse add (add acl n) ss)"

definition AclConfig_build :: "(string \<Rightarrow> 'net option) \<Rightarrow> (string \<Rightarrow> string option) \<Rightarrow> AclConfig \<Rightarrow> acl_error + 'net Acl" where
  "AclConfig_build parse read_file cfg =
     (case (case cfg_file cfg of Some file \<Rightarrow> from_file parse (read_file file) | None \<Rightarrow> Ok Acl_new) of
        Inl e \<Rightarrow> Err e
      | Inr acl \<Rightarrow> (case add_all parse allow_rule acl (cfg_allow cfg) of
                     Inl e \<Rightarrow> Err e
                   | Inr acl' \<Rightarrow> add_all parse deny_rule acl' (cfg_deny cfg)))"

section \<open>Lemmas\<close>

lemma parse_all_Ok_iff: "parse_all parse ss = Ok ns \<longleftrightarrow> map parse ss = map Some ns"
proof (induction ss arbitrary: ns)
  case Nil
  show ?case by auto
next
  case (Cons s ss)
  then show ?case
    by (cases "parse s"; cases "parse_all parse ss") (auto simp: Cons_eq_map_conv)
qed

lemma add_all_Ok_iff:
  "add_all parse add acl ss = Ok acl' \<longleftrightarrow> (\<exists>ns. map parse ss = map Some ns \<and> acl' = foldl add acl ns)"
proof (induction ss arbitrary: acl)
  case Nil
  show ?case by auto
next
  case (Cons s ss)
  show ?case
  proof (cases "parse s")
    case None
    then show ?thesis by auto
  next
    case (Some n)
    then have "(\<exists>ns. map parse (s # ss) = map Some ns \<and> acl' = foldl add acl ns) \<longleftrightarrow>
        (\<exists>ns. map parse ss = map Some ns \<and> acl' = foldl add (add acl n) ns)"
      by (auto simp: Cons_eq_map_conv)
    with Some Cons show ?thesis by simp
  qed
qed

lemma foldl_allow: "foldl allow_rule acl ns = acl\<lparr>acl_allow := acl_allow acl @ ns\<rparr>"
  and foldl_deny: "foldl deny_rule acl ns = acl\<lparr>acl_deny := acl_deny acl @ ns\<rparr>"
  by (induction ns arbitrary: acl) (auto simp: allow_rule_def deny_rule_def)

lemma find_none_iff_not_ex: "find P xs = None \<longleftrightarrow> \<not> list_ex P xs"
  by (auto simp: find_None_iff list_ex_iff)

lemma find_Some_list_ex: "find P xs = Some x \<Longrightarrow> list_ex P xs"
  by (metis find_none_iff_not_ex option.distinct(1))

section \<open>Properties\<close>

text \<open>The decision is the documented one, on the normalised address: refused when a deny rule
  matches, otherwise accepted exactly when there are no allow rules or one of them matches; an
  IPv4-mapped IPv6 address is judged as the IPv4 address it carries; and the rule reported for the
  log is a deny rule exactly when one refused the address.\<close>

theorem acl_decision:
  "(is_allowed contains acl ip \<longleftrightarrow>
      \<not> (\<exists>n\<in>set (acl_deny acl). contains n (normalize_ip ip))
      \<and> (acl_allow acl = [] \<or> (\<exists>n\<in>set (acl_allow acl). contains n (normalize_ip ip))))
   \<and> is_allowed contains acl (V6 (map_v4 a)) = is_allowed contains acl (V4 a)
   \<and> (matched_rule contains display acl ip = None \<longleftrightarrow>
        \<not> list_ex (\<lambda>n. contains n (normalize_ip ip)) (acl_deny acl @ acl_allow acl))
   \<and> ((\<exists>n\<in>set (acl_deny acl). contains n (normalize_ip ip)) \<longleftrightarrow>
        (\<exists>n\<in>set (acl_deny acl). contains n (normalize_ip ip)
           \<and> matched_rule contains display acl ip = Some (''deny '' @ display n)))"
proof (intro conjI)
  show "is_allowed contains acl ip \<longleftrightarrow>
      \<not> (\<exists>n\<in>set (acl_deny acl). contains n (normalize_ip ip))
      \<and> (acl_allow acl = [] \<or> (\<exists>n\<in>set (acl_allow acl). contains n (normalize_ip ip)))"
    by (auto simp: is_allowed_def Let_def list_ex_iff)
  show "is_allowed contains acl (V6 (map_v4 a)) = is_allowed contains acl (V4 a)"
    by (simp add: is_allowed_def normalize_ip_def to_ipv4_mapped_map_v4)
  show "matched_rule contains display acl ip = None \<longleftrightarrow>
        \<not> list_ex (\<lambda>n. contains n (normalize_ip ip)) (acl_deny acl @ acl_allow acl)"
    by (auto simp: matched_rule_def Let_def find_none_iff_not_ex dest: find_Some_list_ex split: option.splits)
  show "(\<exists>n\<in>set (acl_deny acl). contains n (normalize_ip ip)) \<longleftrightarrow>
        (\<exists>n\<in>set (acl_deny acl). contains n (normalize_ip ip)
           \<and> matched_rule contains display acl ip = Some (''deny '' @ display n))"
    by (auto simp: matched_rule_def Let_def find_None_iff find_Some_iff split: option.splits)
qed

text \<open>Building an ACL from a configuration succeeds exactly when the file (if any) loads and
  every command-line network parses; the command-line rules are appended to the rules of the file,
  and without a file the result is the one \<open>from_rules\<close> gives.\<close>

theorem acl_build_appends:
  "(AclConfig_build parse read_file cfg = Ok acl \<longleftrightarrow>
     (\<exists>base a d. (case cfg_file cfg of None \<Rightarrow> base = Acl_new
                  | Some f \<Rightarrow> from_file parse (read_file f) = Ok base)
        \<and> map parse (cfg_allow cfg) = map Some a \<and> map parse (cfg_deny cfg) = map Some d
        \<and> acl = \<lparr>acl_allow = acl_allow base @ a, acl_deny = acl_deny base @ d\<rparr>))
   \<and> (cfg_file cfg = None \<longrightarrow>
       (AclConfig_build parse read_file cfg = Ok acl \<longleftrightarrow> from_rules parse (cfg_allow cfg) (cfg_deny cfg) = Ok acl))"
proof -
  have b: "AclConfig_build parse read_file cfg = Ok acl \<longleftrightarrow>
     (\<exists>base a d. (case cfg_file cfg of None \<Rightarrow> base = Acl_new
                  | Some f \<Rightarrow> from_file parse (read_file f) = Ok base)
        \<and> map parse (cfg_allow cfg) = map Some a \<and> map parse (cfg_deny cfg) = map Some d
        \<and> acl = \<lparr>acl_allow = acl_allow base @ a, acl_deny = acl_deny base @ d\<rparr>)"
    (is "_ \<longleftrightarrow> ?R")
  proof -
    define r where "r = (case cfg_file cfg of Some file \<Rightarrow> from_file parse (read_file file) | None \<Rightarrow> Ok Acl_new)"
    have "(case cfg_file cfg of None \<Rightarrow> base = Acl_new | Some f \<Rightarrow> from_file parse (read_file f) = Ok base)
        \<longleftrightarrow> r = Ok base" for base
      by (auto simp: r_def split: option.splits)
    moreover have "AclConfig_build parse read_file cfg = Ok acl \<longleftrightarrow> (\<exists>base acl'. r = Ok base
        \<and> add_all parse allow_rule base (cfg_allow cfg) = Ok acl' \<and> add_all parse deny_rule acl' (cfg_deny cfg) = Ok acl)"
      unfolding AclConfig_build_def r_def [symmetric] by (auto split: sum.splits)
    ultimately show ?thesis
      by (auto simp: add_all_Ok_iff foldl_allow foldl_deny)
  qed
  moreover have "from_rules parse (cfg_allow cfg) (cfg_deny cfg) = Ok acl \<longleftrightarrow>
     (\<exists>a d. map parse (cfg_allow cfg) = map Some a \<and> map parse (cfg_deny cfg) = map Some d
        \<and> acl = \<lparr>acl_allow = a, acl_deny = d\<rparr>)"
    by (auto simp: from_rules_def simp flip: parse_all_Ok_iff split: sum.splits)
  ultimately show ?thesis by (auto simp: Acl_new_def)
qed

theorem acl_build_appends_witness:
  "AclConfig_build (\<lambda>s. if s = ''10.0.0.0/8'' then Some s else None) (\<lambda>_. None)
      \<lparr>cfg_allow = [''10.0.0.0/8''], cfg_deny = [], cfg_file = None\<rparr>
     = Ok \<lparr>acl_allow = [''10.0.0.0/8''], acl_deny = []\<rparr>"
  using acl_build_appends [of "\<lambda>s. if s = ''10.0.0.0/8'' then Some s else None" "\<lambda>_. None"
      "\<lparr>cfg_allow = [''10.0.0.0/8''], cfg_deny = [], cfg_file = None\<rparr>"
      "\<lparr>acl_allow = [''10.0.0.0/8''], acl_deny = []\<rparr>"]
  by (simp add: from_rules_def)

end
