(* ===== verification/Rate_Limit.thy ===== *)
theory Rate_Limit
  imports Acl
begin

text \<open>
  The per-address rate limiter of \<open>src/rate_limit.rs\<close>. Each operation holds the map's entry guard
  for its whole body, so it is one atomic step; the clock readings are arguments. A guard value
  (\<open>RateLimitGuard\<close>) releases its slot when it is dropped, so the system of limiter and live guards
  is a transition system whose invariant ties every count to the guards alive.
\<close>

section \<open>The limiter\<close>

type_synonym instant = nat
type_synonym duration = nat

record IpState =
  st_count :: u32
  st_last_access :: instant

record RateLimiter =
  rl_limits :: "IpAddr \<rightharpoonup> IpState"
  rl_max_per_ip :: u32
  rl_window :: duration

record RateLimitError =
  rle_ip :: IpAddr
  rle_current :: u32
  rle_max :: u32

definition RateLimiter_new :: "u32 \<Rightarrow> duration \<Rightarrow> RateLimiter" where
  "RateLimiter_new max_per_ip window =
     \<lparr>rl_limits = Map.empty, rl_max_per_ip = max_per_ip, rl_window = window\<rparr>"

text \<open>\<open>check\<close>: the entry is created on first sight, even for a refused address; \<open>now0\<close> and \<open>now1\<close> are
  the two clock readings.\<close>

definition check :: "RateLimiter \<Rightarrow> IpAddr \<Rightarrow> instant \<Rightarrow> instant \<Rightarrow> RateLimiter \<times> (RateLimitError + unit)" where
  "check rl ip now0 now1 =
     (let state = (case rl_limits rl ip of Some st \<Rightarrow> st
                   | None \<Rightarrow> \<lparr>st_count = 0, st_last_access = now0\<rparr>);
          rl0 = rl\<lparr>rl_limits := (rl_limits rl)(ip \<mapsto> state)\<rparr>
      in if rl_max_per_ip rl \<le> st_count state
         then (rl0, Err \<lparr>rle_ip = ip, rle_current = st_count state, rle_max = rl_max_per_ip rl\<rparr>)
         else (rl\<lparr>rl_limits := (rl_limits rl)(ip \<mapsto>
                  \<lparr>st_count = st_count state + 1, st_last_access = now1\<rparr>)\<rparr>, Ok ()))"

definition release :: "RateLimiter \<Rightarrow> IpAddr \<Rightarrow> RateLimiter" where
  "release rl ip =
     (case rl_limits rl ip of
        Some state \<Rightarrow> rl\<lparr>rl_limits := (rl_limits rl)(ip \<mapsto> state\<lparr>st_count := saturating_sub (st_count state) 1\<rparr>)\<rparr>
      | None \<Rightarrow> rl)"

definition current_count :: "RateLimiter \<Rightarrow> IpAddr \<Rightarrow> u32" where
  "current_count rl ip = (case rl_limits rl ip of Some state \<Rightarrow> st_count state | None \<Rightarrow> 0)"

definition cleanup :: "RateLimiter \<Rightarrow> instant \<Rightarrow> RateLimiter" where
  "cleanup rl now =
     rl\<lparr>rl_limits := (\<lambda>ip. case rl_limits rl ip of
          Some state \<Rightarrow> if 0 < st_count state \<or> now - st_last_access state < rl_window rl
                        then Some state else None
        | None \<Rightarrow> None)\<rparr>"

text \<open>The period of the background task, in nanoseconds: never zero.\<close>

definition cleanup_interval :: "RateLimiter \<Rightarrow> duration" where
  "cleanup_interval rl = max (rl_window rl div 2) (500 * 10 ^ 6)"

record RateLimitConfig =
  rlc_max_per_ip :: "u32 option"
  rlc_window_secs :: u64

definition RateLimitConfig_default :: RateLimitConfig where
  "RateLimitConfig_default = \<lparr>rlc_max_per_ip = None, rlc_window_secs = 60\<rparr>"

definition RateLimitConfig_build :: "RateLimitConfig \<Rightarrow> RateLimiter option" where
  "RateLimitConfig_build c =
     map_option (\<lambda>m. RateLimiter_new m (unat (rlc_window_secs c) * 10 ^ 9)) (rlc_max_per_ip c)"

section \<open>Limiter and live guards\<close>

record rl_sys =
  rs_limiter :: RateLimiter
  rs_guards :: "IpAddr list"

definition rl_init :: "u32 \<Rightarrow> duration \<Rightarrow> rl_sys \<Rightarrow> bool" where
  "rl_init m w s = (s = \<lparr>rs_limiter = RateLimiter_new m w, rs_guards = []\<rparr>)"

inductive rl_step :: "rl_sys \<Rightarrow> rl_sys \<Rightarrow> bool" where
  admit: "check (rs_limiter s) ip now0 now1 = (rl', Ok ()) \<Longrightarrow>
     rl_step s \<lparr>rs_limiter = rl', rs_guards = ip # rs_guards s\<rparr>"
| refuse: "check (rs_limiter s) ip now0 now1 = (rl', Err e) \<Longrightarrow>
     rl_step s (s\<lparr>rs_limiter := rl'\<rparr>)"
| drop_guard: "ip \<in> set (rs_guards s) \<Longrightarrow>
     rl_step s \<lparr>rs_limiter = release (rs_limiter s) ip, rs_guards = remove1 ip (rs_guards s)\<rparr>"
| clean: "rl_step s (s\<lparr>rs_limiter := cleanup (rs_limiter s) now\<rparr>)"

inductive_cases rl_stepE: "rl_step s t"

definition rl_inv :: "u32 \<Rightarrow> rl_sys \<Rightarrow> bool" where
  "rl_inv m s \<longleftrightarrow> rl_max_per_ip (rs_limiter s) = m
     \<and> (\<forall>ip. unat (current_count (rs_limiter s) ip) = count_list (rs_guards s) ip
            \<and> count_list (rs_guards s) ip \<le> unat m)"

lemma count_list_remove1: "x \<in> set xs \<Longrightarrow> count_list (remove1 x xs) y = count_list xs y - (if x = y then 1 else 0)"
proof (induction xs)
  case Nil
  then show ?case by simp
next
  case (Cons a xs)
  have "x \<in> set xs \<Longrightarrow> 0 < count_list xs x" by (metis count_list_0_iff gr0I)
  with Cons show ?case by (auto simp: Suc_diff_le)
qed

lemma check_Ok:
  assumes "check rl ip n0 n1 = (rl', Ok ())"
  shows "current_count rl ip < rl_max_per_ip rl" "rl_max_per_ip rl' = rl_max_per_ip rl"
    "unat (current_count rl' ip) = unat (current_count rl ip) + 1"
    "x \<noteq> ip \<Longrightarrow> current_count rl' x = current_count rl x"
proof -
  define c where "c = current_count rl ip"
  from assms have lt: "c < rl_max_per_ip rl" and c': "current_count rl' ip = c + 1"
    by (auto simp: check_def c_def current_count_def Let_def not_le word_gt_0 split: option.splits if_splits)
  show "current_count rl ip < rl_max_per_ip rl" using lt by (simp add: c_def)
  have "unat c + 1 < 2 ^ 32" using lt unat_lt_pow [of "rl_max_per_ip rl"] by (simp add: word_less_nat_alt)
  then show "unat (current_count rl' ip) = unat (current_count rl ip) + 1"
    using c' by (simp add: unat_word_ariths c_def)
  show "rl_max_per_ip rl' = rl_max_per_ip rl" "x \<noteq> ip \<Longrightarrow> current_count rl' x = current_count rl x"
    using assms by (auto simp: check_def current_count_def Let_def split: option.splits if_splits)
qed

lemma check_Err:
  assumes "check rl ip n0 n1 = (rl', Err e)"
  shows "rl_max_per_ip rl \<le> current_count rl ip" "rl_max_per_ip rl' = rl_max_per_ip rl"
    "current_count rl' x = current_count rl x"
    "e = \<lparr>rle_ip = ip, rle_current = current_count rl ip, rle_max = rl_max_per_ip rl\<rparr>"
  using assms by (auto simp: check_def current_count_def Let_def split: option.splits if_splits)

lemma current_count_release:
  "current_count (release rl ip) x = (if x = ip then saturating_sub (current_count rl x) 1 else current_count rl x)"
  "rl_max_per_ip (release rl ip) = rl_max_per_ip rl"
  by (auto simp: release_def current_count_def saturating_sub_def split: option.splits)

lemma current_count_cleanup:
  "current_count (cleanup rl now) x = current_count rl x" "rl_max_per_ip (cleanup rl now) = rl_max_per_ip rl"
  by (auto simp: cleanup_def current_count_def word_gt_0 split: option.splits)

lemma rl_inv_step: "rl_inv m s \<Longrightarrow> rl_step s t \<Longrightarrow> rl_inv m t"
proof -
  assume inv: "rl_inv m s" and "rl_step s t"
  from this(2) show ?thesis
  proof cases
    case (admit ip now0 now1 rl')
    note c = check_Ok [OF admit(2)]
    have "count_list (rs_guards s) ip < unat m"
      using inv c(1) unfolding rl_inv_def word_less_nat_alt by metis
    then show ?thesis using inv c(2-4) admit(1) by (auto simp: rl_inv_def)
  next
    case (refuse ip now0 now1 rl' e)
    then show ?thesis using inv check_Err [OF refuse(2)] by (simp add: rl_inv_def)
  next
    case (drop_guard ip)
    then show ?thesis
      using inv by (auto simp: rl_inv_def current_count_release unat_saturating_sub count_list_remove1
          intro: le_trans [OF diff_le_self])
  next
    case (clean now)
    then show ?thesis using inv by (simp add: rl_inv_def current_count_cleanup)
  qed
qed

interpretation rate_limit: inductive_invariant "rl_init m w" rl_step "rl_inv m"
proof unfold_locales
  show "rl_init m w s \<Longrightarrow> rl_inv m s" for s
    by (simp add: rl_init_def rl_inv_def RateLimiter_new_def current_count_def)
qed (rule rl_inv_step)

section \<open>Properties\<close>

text \<open>In every interleaving of admissions, refusals, dropped guards and cleanups, the count of
  an address is the number of its tests still running and never passes the limit; a further test
  is admitted exactly when it is below the limit.\<close>

theorem rate_limit_counts_live_tests:
  assumes "reachable (rl_init m w) rl_step s"
  shows "unat (current_count (rs_limiter s) ip) = count_list (rs_guards s) ip
    \<and> count_list (rs_guards s) ip \<le> unat m
    \<and> (snd (check (rs_limiter s) ip now0 now1) = Ok () \<longleftrightarrow> count_list (rs_guards s) ip < unat m)"
proof -
  have inv: "rl_inv m s" using rate_limit.invar_reachable [OF assms] .
  obtain rl' r where c: "check (rs_limiter s) ip now0 now1 = (rl', r)" by fastforce
  show ?thesis
  proof (cases r)
    case (Inl e)
    then have "rl_max_per_ip (rs_limiter s) \<le> current_count (rs_limiter s) ip"
      using c check_Err(1) by blast
    then show ?thesis using inv c Inl unfolding rl_inv_def word_le_nat_alt by auto
  next
    case (Inr u)
    then have "current_count (rs_limiter s) ip < rl_max_per_ip (rs_limiter s)"
      using c check_Ok(1) by (cases u) blast
    then show ?thesis using inv c Inr unfolding rl_inv_def word_less_nat_alt by auto
  qed
qed

theorem rate_limit_counts_live_tests_witness:
  "snd (check (RateLimiter_new 2 60) (V4 1) 0 0) = Ok ()"
proof -
  have "reachable (rl_init 2 60) rl_step \<lparr>rs_limiter = RateLimiter_new 2 60, rs_guards = []\<rparr>"
    by (rule reach_init) (simp add: rl_init_def)
  from rate_limit_counts_live_tests [OF this, of "V4 1" 0 0] show ?thesis by simp
qed

text \<open>Cleanup never forgets a running test, and forgets exactly the idle addresses whose last
  admission is at least a window old.\<close>

theorem cleanup_keeps_active:
  "(rl_limits (cleanup rl now) ip = None \<longleftrightarrow>
      rl_limits rl ip = None \<or> (\<exists>st. rl_limits rl ip = Some st \<and> st_count st = 0
        \<and> rl_window rl \<le> now - st_last_access st))
   \<and> (0 < current_count rl ip \<longrightarrow> rl_limits (cleanup rl now) ip = rl_limits rl ip)
   \<and> current_count (cleanup rl now) ip = current_count rl ip
   \<and> 0 < cleanup_interval rl"
  by (auto simp: cleanup_def current_count_def cleanup_interval_def not_less word_gt_0 split: option.splits)

theorem cleanup_keeps_active_witness:
  "rl_limits (cleanup (fst (check (RateLimiter_new 2 0) (V4 1) 0 0)) 100) (V4 1)
     = rl_limits (fst (check (RateLimiter_new 2 0) (V4 1) 0 0)) (V4 1)"
  using cleanup_keeps_active [of "fst (check (RateLimiter_new 2 0) (V4 1) 0 0)" 100 "V4 1"]
  by (simp add: check_def RateLimiter_new_def current_count_def Let_def)

end
