(* ===== verification/Auth.thy ===== *)
theory Auth
  imports Rust_Text
begin

text \<open>
  Pre-shared-key authentication (\<open>src/auth.rs\<close>): the challenge response, its verification, the
  permission rules for key files and the validation of keys. HMAC-SHA256 is a parameter
  \<open>hmac key message\<close>; what the file system reports (mode, owner, ACL bytes, content) are arguments.
\<close>

section \<open>Challenge and response\<close>

definition MAX_PSK_LENGTH :: nat where "MAX_PSK_LENGTH = 1024"
definition NONCE_LENGTH :: nat where "NONCE_LENGTH = 32"

text \<open>The random bytes are an argument of \<open>generate_nonce\<close>.\<close>

definition generate_nonce :: "bytes \<Rightarrow> string" where
  "generate_nonce random = hex_encode random"

definition compute_response_with_key :: "(bytes \<Rightarrow> bytes \<Rightarrow> bytes) \<Rightarrow> string \<Rightarrow> bytes \<Rightarrow> string" where
  "compute_response_with_key hmac nonce key = hex_encode (hmac key (as_bytes nonce))"

definition compute_response :: "(bytes \<Rightarrow> bytes \<Rightarrow> bytes) \<Rightarrow> string \<Rightarrow> string \<Rightarrow> string" where
  "compute_response hmac nonce psk = compute_response_with_key hmac nonce (as_bytes psk)"

definition verify_response_with_key :: "(bytes \<Rightarrow> bytes \<Rightarrow> bytes) \<Rightarrow> string \<Rightarrow> bytes \<Rightarrow> string \<Rightarrow> bool" where
  "verify_response_with_key hmac nonce key response =
     (let expected = compute_response_with_key hmac nonce key
      in constant_time_eq (as_bytes expected) (as_bytes response))"

definition verify_response :: "(bytes \<Rightarrow> bytes \<Rightarrow> bytes) \<Rightarrow> string \<Rightarrow> string \<Rightarrow> string \<Rightarrow> bool" where
  "verify_response hmac nonce psk response = verify_response_with_key hmac nonce (as_bytes psk) response"

section \<open>Key files\<close>

datatype auth_error =
    OpenFailed
  | MetadataFailed
  | BroadPermissions u32
  | ReadFailed
  | PskTooLong nat
  | PskEmpty

record Metadata =
  md_mode :: u32
  md_uid :: u32
  md_is_file :: bool

definition require_owner_only_permissions :: "Metadata \<Rightarrow> auth_error + unit" where
  "require_owner_only_permissions md =
     (let mode = md_mode md AND 511
      in if mode AND 63 \<noteq> 0 then Err (BroadPermissions mode) else Ok ())"

definition service_acl :: "u32 \<Rightarrow> bytes" where
  "service_acl uid =
     (let expected = [2, 0, 0, 0,
                      1, 0, 4, 0, 255, 255, 255, 255,
                      2, 0, 4, 0, 0, 0, 0, 0,
                      4, 0, 0, 0, 255, 255, 255, 255,
                      16, 0, 4, 0, 255, 255, 255, 255,
                      32, 0, 0, 0, 255, 255, 255, 255]
      in copy_at 16 (u32_to_le uid) expected)"

definition service_credential_permissions :: "u32 \<Rightarrow> u32 \<Rightarrow> bool \<Rightarrow> bytes \<Rightarrow> u32 \<Rightarrow> bool" where
  "service_credential_permissions owner mode regular acl uid =
     (owner = 0 \<and> mode AND 4095 = 288 \<and> regular \<and> acl = service_acl uid)"

text \<open>\<open>fgetxattr\<close> into a buffer of 44 bytes: \<open>None\<close> when it fails, the bytes read otherwise.\<close>

definition is_service_credential :: "bytes option \<Rightarrow> Metadata \<Rightarrow> u32 \<Rightarrow> bool" where
  "is_service_credential xattr md euid =
     (case xattr of
        Some acl \<Rightarrow> length acl = 44
          \<and> service_credential_permissions (md_uid md) (md_mode md) (md_is_file md) acl euid
      | None \<Rightarrow> False)"

definition validate_psk :: "string \<Rightarrow> auth_error + unit" where
  "validate_psk psk =
     (if MAX_PSK_LENGTH < utf8_len psk then Err (PskTooLong (utf8_len psk))
      else if psk = [] then Err PskEmpty
      else Ok ())"

text \<open>What the operating system reports about the opened file; a linux system.\<close>

record psk_file =
  pf_metadata :: "Metadata option"
  pf_xattr :: "bytes option"
  pf_content :: "string option"

definition read_psk_file :: "psk_file option \<Rightarrow> u32 \<Rightarrow> auth_error + string" where
  "read_psk_file opened euid =
     (case opened of
        None \<Rightarrow> Err OpenFailed
      | Some file \<Rightarrow>
          (case pf_metadata file of
             None \<Rightarrow> Err MetadataFailed
           | Some md \<Rightarrow>
               (let proceed = (case pf_content file of
                                 None \<Rightarrow> Err ReadFailed
                               | Some content \<Rightarrow>
                                   (let psk = trim content
                                    in case validate_psk psk of Inl e \<Rightarrow> Err e | Inr _ \<Rightarrow> Ok psk))
                in case require_owner_only_permissions md of
                     Inl e \<Rightarrow> if is_service_credential (pf_xattr file) md euid then proceed else Err e
                   | Inr _ \<Rightarrow> proceed)))"

record AuthConfig =
  ac_psk :: "string option"

definition is_required :: "AuthConfig \<Rightarrow> bool" where
  "is_required c = (ac_psk c \<noteq> None)"

definition AuthConfig_validate :: "AuthConfig \<Rightarrow> auth_error + unit" where
  "AuthConfig_validate c = (case ac_psk c of Some psk \<Rightarrow> validate_psk psk | None \<Rightarrow> Ok ())"

section \<open>Lemmas\<close>

lemma validate_psk_Ok: "validate_psk psk = Ok () \<longleftrightarrow> psk \<noteq> [] \<and> utf8_len psk \<le> MAX_PSK_LENGTH"
  by (auto simp: validate_psk_def utf8_len_def)

lemma mode_bits: "(m AND 511) AND 63 = m AND (63 :: u32)"
  by (simp add: and.assoc)

section \<open>Properties\<close>

text \<open>The constant-time verification accepts exactly the expected response: the hexadecimal HMAC
  of the nonce under the key, no other string, shorter or longer.\<close>

theorem verify_response_iff:
  "verify_response hmac nonce psk response \<longleftrightarrow> response = compute_response hmac nonce psk"
  by (auto simp: verify_response_def verify_response_with_key_def compute_response_def Let_def
      constant_time_eq_iff as_bytes_inj)

text \<open>C10: a key is returned only from a file that grants nothing to group and others, or that is
  the root-owned, read-only regular file whose ACL lets exactly the effective user read it; the key
  is the trimmed content, not empty and at most 1024 bytes long.\<close>

theorem read_psk_file_safe:
  assumes "read_psk_file opened euid = Ok psk"
  shows "\<exists>fl md content. opened = Some fl \<and> pf_metadata fl = Some md \<and> pf_content fl = Some content
    \<and> psk = trim content \<and> psk \<noteq> [] \<and> utf8_len psk \<le> MAX_PSK_LENGTH
    \<and> (md_mode md AND 63 = 0
       \<or> (md_uid md = 0 \<and> md_mode md AND 4095 = 288 \<and> md_is_file md \<and> pf_xattr fl = Some (service_acl euid)))"
proof -
  obtain fl md content where f: "opened = Some fl" "pf_metadata fl = Some md" "pf_content fl = Some content"
    using assms by (auto simp: read_psk_file_def Let_def split: option.splits sum.splits if_splits)
  then have psk: "psk = trim content" "validate_psk (trim content) = Ok ()"
    using assms by (auto simp: read_psk_file_def Let_def split: sum.splits if_splits)
  have "md_mode md AND 63 = 0 \<or> is_service_credential (pf_xattr fl) md euid"
    using assms f by (auto simp: read_psk_file_def require_owner_only_permissions_def Let_def mode_bits
        split: if_splits)
  then show ?thesis
    using f psk by (auto simp: validate_psk_Ok is_service_credential_def service_credential_permissions_def
        split: option.splits)
qed

theorem read_psk_file_safe_witness:
  "\<exists>fl md content. Some \<lparr>pf_metadata = Some \<lparr>md_mode = 384, md_uid = 1000, md_is_file = True\<rparr>,
       pf_xattr = None, pf_content = Some ''secret''\<rparr> = Some fl
     \<and> pf_metadata fl = Some md \<and> pf_content fl = Some content \<and> trim ''secret'' = trim content"
proof -
  have "read_psk_file (Some \<lparr>pf_metadata = Some \<lparr>md_mode = 384, md_uid = 1000, md_is_file = True\<rparr>,
       pf_xattr = None, pf_content = Some ''secret''\<rparr>) 1000 = Ok (trim ''secret'')"
    by (simp add: read_psk_file_def require_owner_only_permissions_def trim_def is_whitespace_def
        validate_psk_def utf8_len_def is_ascii_char_def MAX_PSK_LENGTH_def)
  from read_psk_file_safe [OF this] show ?thesis by auto
qed

end
