(* ===== verification/Udp_Wire.thy ===== *)
theory Udp_Wire
  imports Rust_Text
begin

text \<open>
  The fixed-layout datagrams of \<open>src/udp.rs\<close> (data header, receiver feedback, single-port hello
  and ack, routing token) with their encoders and decoders, and the demultiplexer of the shared
  server socket. Each packet is an instance of the codec interface of the prelude.
\<close>

section \<open>Constants\<close>

definition UDP_PAYLOAD_SIZE :: nat where "UDP_PAYLOAD_SIZE = 1400"
definition MAX_UDP_PAYLOAD_SIZE :: nat where "MAX_UDP_PAYLOAD_SIZE = 65507"
definition UDP_HEADER_SIZE :: nat where "UDP_HEADER_SIZE = 16"
definition UDP_FEEDBACK_SIZE :: nat where "UDP_FEEDBACK_SIZE = 36"
definition UDP_FEEDBACK_MAGIC :: bytes where "UDP_FEEDBACK_MAGIC = [0x58, 0x46, 0x52, 0x46]"
definition UDP_FEEDBACK_VERSION :: byte where "UDP_FEEDBACK_VERSION = 1"
definition UDP_FEEDBACK_KIND_RECEIVER_PROGRESS :: byte where "UDP_FEEDBACK_KIND_RECEIVER_PROGRESS = 1"
definition UDP_HELLO_MAGIC :: bytes where "UDP_HELLO_MAGIC = [0x00, 0x58, 0x46, 0x52]"
definition UDP_HELLO_SIZE :: nat where "UDP_HELLO_SIZE = 24"
definition UDP_HELLO_VERSION :: byte where "UDP_HELLO_VERSION = 1"
definition UDP_HELLO_KIND_HELLO :: byte where "UDP_HELLO_KIND_HELLO = 1"
definition UDP_HELLO_KIND_ACK :: byte where "UDP_HELLO_KIND_ACK = 2"
definition UDP_HELLO_TOKEN_LEN :: nat where "UDP_HELLO_TOKEN_LEN = 16"

lemmas udp_wire_consts = UDP_PAYLOAD_SIZE_def MAX_UDP_PAYLOAD_SIZE_def UDP_HEADER_SIZE_def
  UDP_FEEDBACK_SIZE_def UDP_FEEDBACK_MAGIC_def UDP_FEEDBACK_VERSION_def
  UDP_FEEDBACK_KIND_RECEIVER_PROGRESS_def UDP_HELLO_MAGIC_def UDP_HELLO_SIZE_def
  UDP_HELLO_VERSION_def UDP_HELLO_KIND_HELLO_def UDP_HELLO_KIND_ACK_def UDP_HELLO_TOKEN_LEN_def

text \<open>\<open>validate_payload_size\<close>: the complete UDP payload, header included.\<close>

datatype udp_error = PayloadSizeOutOfRange nat nat

definition validate_payload_size :: "nat \<Rightarrow> udp_error + unit" where
  "validate_payload_size n =
     (if UDP_HEADER_SIZE \<le> n \<and> n \<le> MAX_UDP_PAYLOAD_SIZE then Ok ()
      else Err (PayloadSizeOutOfRange UDP_HEADER_SIZE MAX_UDP_PAYLOAD_SIZE))"

section \<open>Data packet header\<close>

record UdpPacketHeader =
  sequence :: u64
  timestamp_us :: u64

definition UdpPacketHeader_encode :: "UdpPacketHeader \<Rightarrow> bytes \<Rightarrow> bytes \<times> bool" where
  "UdpPacketHeader_encode h buffer =
     (if length buffer < UDP_HEADER_SIZE then (buffer, False)
      else (let b = copy_at 0 (u64_to_be (sequence h)) buffer;
                b = copy_at 8 (u64_to_be (timestamp_us h)) b
            in (b, True)))"

definition UdpPacketHeader_decode :: "bytes \<Rightarrow> UdpPacketHeader option" where
  "UdpPacketHeader_decode buffer =
     (if length buffer < UDP_HEADER_SIZE then None
      else Some \<lparr>sequence = u64_from_be (subslice 0 8 buffer),
                 timestamp_us = u64_from_be (subslice 8 16 buffer)\<rparr>)"

lemma header_encode_layout:
  "16 \<le> length buffer \<Longrightarrow> UdpPacketHeader_encode h buffer =
     (u64_to_be (sequence h) @ u64_to_be (timestamp_us h) @ drop 16 buffer, True)"
  by (simp add: UdpPacketHeader_encode_def udp_wire_consts)

lemma header_roundtrip:
  "16 \<le> length buffer \<Longrightarrow> UdpPacketHeader_decode (fst (UdpPacketHeader_encode h buffer)) = Some h"
  by (simp add: header_encode_layout UdpPacketHeader_decode_def udp_wire_consts)

interpretation header_codec: wire_codec
  "\<lambda>h. fst (UdpPacketHeader_encode h (replicate 16 0))" UdpPacketHeader_decode "\<lambda>_. True"
  by unfold_locales (simp add: header_roundtrip)

section \<open>Receiver feedback packet\<close>

record UdpFeedbackPacket =
  fb_stream_id :: u16
  fb_elapsed_ms :: u64
  fb_packets_received :: u64
  fb_packets_lost :: u64

definition UdpFeedbackPacket_encode :: "UdpFeedbackPacket \<Rightarrow> bytes \<Rightarrow> bytes \<times> bool" where
  "UdpFeedbackPacket_encode p buffer =
     (if length buffer < UDP_FEEDBACK_SIZE then (buffer, False)
      else (let b = copy_at 0 UDP_FEEDBACK_MAGIC buffer;
                b = b[4 := UDP_FEEDBACK_VERSION];
                b = b[5 := UDP_FEEDBACK_KIND_RECEIVER_PROGRESS];
                b = copy_at 6 (u16_to_be 0) b;
                b = copy_at 8 (u16_to_be (fb_stream_id p)) b;
                b = copy_at 10 (u16_to_be 0) b;
                b = copy_at 12 (u64_to_be (fb_elapsed_ms p)) b;
                b = copy_at 20 (u64_to_be (fb_packets_received p)) b;
                b = copy_at 28 (u64_to_be (fb_packets_lost p)) b
            in (b, True)))"

definition UdpFeedbackPacket_decode :: "bytes \<Rightarrow> UdpFeedbackPacket option" where
  "UdpFeedbackPacket_decode buffer =
     (if length buffer \<noteq> UDP_FEEDBACK_SIZE then None
      else if subslice 0 4 buffer \<noteq> UDP_FEEDBACK_MAGIC then None
      else if buffer ! 4 \<noteq> UDP_FEEDBACK_VERSION then None
      else if buffer ! 5 \<noteq> UDP_FEEDBACK_KIND_RECEIVER_PROGRESS then None
      else Some \<lparr>fb_stream_id = u16_from_be (subslice 8 10 buffer),
                 fb_elapsed_ms = u64_from_be (subslice 12 20 buffer),
                 fb_packets_received = u64_from_be (subslice 20 28 buffer),
                 fb_packets_lost = u64_from_be (subslice 28 36 buffer)\<rparr>)"

definition feedback_layout :: "UdpFeedbackPacket \<Rightarrow> bytes" where
  "feedback_layout p = UDP_FEEDBACK_MAGIC @ [UDP_FEEDBACK_VERSION, UDP_FEEDBACK_KIND_RECEIVER_PROGRESS]
     @ u16_to_be 0 @ u16_to_be (fb_stream_id p) @ u16_to_be 0 @ u64_to_be (fb_elapsed_ms p)
     @ u64_to_be (fb_packets_received p) @ u64_to_be (fb_packets_lost p)"

lemma feedback_encode_layout:
  "36 \<le> length buffer \<Longrightarrow>
     UdpFeedbackPacket_encode p buffer = (feedback_layout p @ drop 36 buffer, True)"
  by (simp add: UdpFeedbackPacket_encode_def feedback_layout_def udp_wire_consts Let_def
      list_update_copy_at del: list_update.simps)

lemma feedback_decode_layout: "UdpFeedbackPacket_decode (feedback_layout p) = Some p"
  by (simp add: UdpFeedbackPacket_decode_def feedback_layout_def udp_wire_consts)

lemma length_feedback_layout [simp]: "length (feedback_layout p) = 36"
  by (simp add: feedback_layout_def udp_wire_consts)

interpretation feedback_codec: fixed_codec
  "\<lambda>p. fst (UdpFeedbackPacket_encode p (replicate 36 0))" UdpFeedbackPacket_decode "\<lambda>_. True" 36
proof unfold_locales
  fix p :: UdpFeedbackPacket and bs :: bytes
  show "UdpFeedbackPacket_decode (fst (UdpFeedbackPacket_encode p (replicate 36 0))) = Some p"
    and "length (fst (UdpFeedbackPacket_encode p (replicate 36 0))) = 36"
    by (simp_all add: feedback_encode_layout feedback_decode_layout)
  show "UdpFeedbackPacket_decode bs = Some p \<Longrightarrow> length bs = 36"
    by (auto simp: UdpFeedbackPacket_decode_def UDP_FEEDBACK_SIZE_def split: if_splits)
qed

section \<open>Single-port hello and ack packet\<close>

record UdpHelloPacket =
  hello_kind :: byte
  hello_stream_index :: u16
  hello_token :: bytes

definition UdpHelloPacket_encode :: "UdpHelloPacket \<Rightarrow> bytes" where
  "UdpHelloPacket_encode p =
     (let b = replicate UDP_HELLO_SIZE 0;
          b = copy_at 0 UDP_HELLO_MAGIC b;
          b = b[4 := UDP_HELLO_VERSION];
          b = b[5 := hello_kind p];
          b = copy_at 6 (u16_to_be (hello_stream_index p)) b;
          b = copy_at 8 (hello_token p) b
      in b)"

definition UdpHelloPacket_decode :: "bytes \<Rightarrow> UdpHelloPacket option" where
  "UdpHelloPacket_decode buffer =
     (if length buffer \<noteq> UDP_HELLO_SIZE then None
      else if subslice 0 4 buffer \<noteq> UDP_HELLO_MAGIC then None
      else if buffer ! 4 \<noteq> UDP_HELLO_VERSION then None
      else (let kind = buffer ! 5 in
        if kind \<noteq> UDP_HELLO_KIND_HELLO \<and> kind \<noteq> UDP_HELLO_KIND_ACK then None
        else Some \<lparr>hello_kind = kind,
                   hello_stream_index = u16_from_be (subslice 6 8 buffer),
                   hello_token = subslice 8 24 buffer\<rparr>))"

text \<open>The packets the protocol sends: a token of the array's length and one of the two kinds.\<close>

definition hello_valid :: "UdpHelloPacket \<Rightarrow> bool" where
  "hello_valid p = (length (hello_token p) = UDP_HELLO_TOKEN_LEN
     \<and> (hello_kind p = UDP_HELLO_KIND_HELLO \<or> hello_kind p = UDP_HELLO_KIND_ACK))"

lemma hello_encode_layout:
  "length (hello_token p) = 16 \<Longrightarrow> UdpHelloPacket_encode p =
     UDP_HELLO_MAGIC @ [UDP_HELLO_VERSION, hello_kind p] @ u16_to_be (hello_stream_index p) @ hello_token p"
  by (simp add: UdpHelloPacket_encode_def udp_wire_consts Let_def list_update_copy_at
      del: list_update.simps)

interpretation hello_codec: fixed_codec UdpHelloPacket_encode UdpHelloPacket_decode hello_valid 24
proof unfold_locales
  fix p
  assume v: "hello_valid p"
  then show "UdpHelloPacket_decode (UdpHelloPacket_encode p) = Some p"
    by (auto simp: hello_encode_layout UdpHelloPacket_decode_def hello_valid_def udp_wire_consts)
  from v show "length (UdpHelloPacket_encode p) = 24"
    by (simp add: hello_encode_layout hello_valid_def udp_wire_consts)
next
  fix bs p
  assume "UdpHelloPacket_decode bs = Some p"
  then show "length bs = 24"
    by (auto simp: UdpHelloPacket_decode_def UDP_HELLO_SIZE_def split: if_splits)
qed

lemma hello_decode_valid: "UdpHelloPacket_decode bs = Some p \<Longrightarrow> hello_valid p"
  by (auto simp: UdpHelloPacket_decode_def hello_valid_def udp_wire_consts Let_def split: if_splits)

section \<open>Routing tokens in text\<close>

definition encode_hello_token :: "bytes \<Rightarrow> string" where
  "encode_hello_token token = concat (map hex2 token)"

definition parse_hello_token :: "string \<Rightarrow> bytes option" where
  "parse_hello_token s =
     (if utf8_len s \<noteq> UDP_HELLO_TOKEN_LEN * 2 \<or> \<not> is_ascii s then None
      else those (map (\<lambda>chunk. map_option word_of_nat (parse_uint 16 8 chunk)) (chunks2 s)))"

section \<open>Demultiplexing the shared socket\<close>

datatype SharedSocketLane = XfrHello | Quic | XfrStray

definition classify_shared_datagram :: "bytes \<Rightarrow> SharedSocketLane" where
  "classify_shared_datagram datagram =
     (if length datagram = UDP_HELLO_SIZE \<and> subslice 0 4 datagram = UDP_HELLO_MAGIC then XfrHello
      else (case datagram of
              b # _ \<Rightarrow> if b AND 0x80 \<noteq> 0 then Quic
                      else if b AND 0x40 \<noteq> 0 then Quic else XfrStray
            | [] \<Rightarrow> XfrStray))"

section \<open>Properties\<close>

text \<open>An encoded single-port hello or ack is read back exactly, takes 24 bytes, is routed to
  the hello lane of the shared socket, and is never taken for a data header's feedback packet.\<close>

theorem hello_roundtrip_and_lane:
  assumes "hello_valid p"
  shows "UdpHelloPacket_decode (UdpHelloPacket_encode p) = Some p
    \<and> length (UdpHelloPacket_encode p) = UDP_HELLO_SIZE
    \<and> classify_shared_datagram (UdpHelloPacket_encode p) = XfrHello
    \<and> UdpFeedbackPacket_decode (UdpHelloPacket_encode p) = None"
proof (intro conjI)
  have len: "length (UdpHelloPacket_encode p) = 24" using assms by (rule hello_codec.enc_width)
  show "UdpHelloPacket_decode (UdpHelloPacket_encode p) = Some p"
    using assms by (rule hello_codec.dec_enc)
  show "length (UdpHelloPacket_encode p) = UDP_HELLO_SIZE" using len by (simp add: UDP_HELLO_SIZE_def)
  show "classify_shared_datagram (UdpHelloPacket_encode p) = XfrHello"
    using assms by (simp add: classify_shared_datagram_def hello_encode_layout hello_valid_def udp_wire_consts)
  show "UdpFeedbackPacket_decode (UdpHelloPacket_encode p) = None"
    using len by (intro feedback_codec.dec_other_width) simp
qed

theorem hello_roundtrip_and_lane_witness:
  "UdpHelloPacket_decode (UdpHelloPacket_encode
      \<lparr>hello_kind = 2, hello_stream_index = 258, hello_token = replicate 16 171\<rparr>)
     = Some \<lparr>hello_kind = 2, hello_stream_index = 258, hello_token = replicate 16 171\<rparr>"
proof -
  have "hello_valid \<lparr>hello_kind = 2, hello_stream_index = 258, hello_token = replicate 16 171\<rparr>"
    by (simp add: hello_valid_def udp_wire_consts)
  from hello_roundtrip_and_lane [OF this] show ?thesis by blast
qed

text \<open>The receiver feedback packet is read back exactly from any buffer with room for it, the
  bytes after it are untouched, and a buffer that is too small is left as it was.\<close>

theorem feedback_encode_decode:
  "UdpFeedbackPacket_encode p buffer =
     (if length buffer < UDP_FEEDBACK_SIZE then (buffer, False)
      else (take UDP_FEEDBACK_SIZE (fst (UdpFeedbackPacket_encode p buffer)) @ drop UDP_FEEDBACK_SIZE buffer, True))
   \<and> (UDP_FEEDBACK_SIZE \<le> length buffer \<longrightarrow>
       UdpFeedbackPacket_decode (take UDP_FEEDBACK_SIZE (fst (UdpFeedbackPacket_encode p buffer))) = Some p)"
proof (cases "length buffer < UDP_FEEDBACK_SIZE")
  case True
  then show ?thesis by (simp add: UdpFeedbackPacket_encode_def)
next
  case False
  then have "36 \<le> length buffer" by (simp add: UDP_FEEDBACK_SIZE_def)
  with False show ?thesis
    by (simp add: feedback_encode_layout feedback_decode_layout UDP_FEEDBACK_SIZE_def)
qed

theorem feedback_encode_decode_witness:
  "UdpFeedbackPacket_decode (take UDP_FEEDBACK_SIZE (fst (UdpFeedbackPacket_encode
      \<lparr>fb_stream_id = 3, fb_elapsed_ms = 1500, fb_packets_received = 99, fb_packets_lost = 1\<rparr>
      (replicate 40 7)))) =
    Some \<lparr>fb_stream_id = 3, fb_elapsed_ms = 1500, fb_packets_received = 99, fb_packets_lost = 1\<rparr>"
  using feedback_encode_decode
    [of "\<lparr>fb_stream_id = 3, fb_elapsed_ms = 1500, fb_packets_received = 99, fb_packets_lost = 1\<rparr>"
      "replicate 40 7"]
  by (simp add: UDP_FEEDBACK_SIZE_def)

lemma parse_token_length: "parse_hello_token s = Some t \<Longrightarrow> length t = UDP_HELLO_TOKEN_LEN"
proof -
  assume p: "parse_hello_token s = Some t"
  then have s: "utf8_len s = 32" "is_ascii s"
    and t: "those (map (\<lambda>chunk. map_option word_of_nat (parse_uint 16 8 chunk)) (chunks2 s)) = Some t"
    by (auto simp: parse_hello_token_def UDP_HELLO_TOKEN_LEN_def split: if_splits)
  have those_len: "those xs = Some ys \<Longrightarrow> length ys = length xs" for xs :: "byte option list" and ys
    by (induction xs arbitrary: ys) (auto split: option.splits)
  have ch: "even (length r) \<Longrightarrow> length (chunks2 r) = length r div 2" for r :: string
    by (induction r rule: chunks2.induct) auto
  have "length s = 32" using s by (simp add: utf8_len_ascii)
  with ch [of s] those_len [OF t] show ?thesis by (simp add: UDP_HELLO_TOKEN_LEN_def)
qed

text \<open>A routing token survives the trip through the text of a \<open>TestAck\<close>, and whatever text
  is accepted yields a token of sixteen bytes.\<close>

theorem token_text_roundtrip:
  "(length t = UDP_HELLO_TOKEN_LEN \<longrightarrow> parse_hello_token (encode_hello_token t) = Some t)
   \<and> (\<forall>u. parse_hello_token s = Some u \<longrightarrow> length u = UDP_HELLO_TOKEN_LEN)"
proof -
  have enc: "encode_hello_token t = hex_encode t"
    by (simp add: encode_hello_token_def hex_encode_def)
  have "(\<lambda>chunk. map_option word_of_nat (parse_uint 16 8 chunk)) \<circ> hex2 = Some"
    by (simp add: fun_eq_iff parse_hex2)
  then have "parse_hello_token (encode_hello_token t) = Some t" if "length t = UDP_HELLO_TOKEN_LEN"
    using that by (simp add: parse_hello_token_def enc is_ascii_hex_encode utf8_len_ascii chunks2_hex_encode)
  then show ?thesis by (auto dest: parse_token_length)
qed

theorem token_text_roundtrip_witness:
  "parse_hello_token (encode_hello_token (replicate 16 171)) = Some (replicate 16 171)"
  using token_text_roundtrip [of "replicate 16 171" "[]"] by (simp add: UDP_HELLO_TOKEN_LEN_def)

text \<open>The radix parser of the standard library skips one plus sign, so the parser accepts text
  that is not thirty-two hexadecimal digits.\<close>

theorem parse_hello_token_accepts_plus:
  "parse_hello_token (concat (replicate 16 ''+0'')) = Some (replicate 16 0)"
  by (simp add: parse_hello_token_def utf8_len_def is_ascii_def is_ascii_char_def
      UDP_HELLO_TOKEN_LEN_def numeral_eq_Suc parse_uint_def digit_val_def)

end
