(* ===== verification/Probe.thy ===== *)
theory Probe
  imports Udp_Wire
begin

text \<open>
  The path-MTU probe of \<open>src/probe.rs\<close>: the probe packet, the ladder of sizes, the size-search state
  machine, and the driver that walks it against a network. The network is an argument: it maps each
  datagram sent to what the socket reports (refused as too large, failed, or sent and followed by
  the datagrams received in the reply window).
\<close>

section \<open>Constants and sizes\<close>

definition PROBE_MAGIC :: bytes where "PROBE_MAGIC = [0x58, 0x46, 0x52, 0x50]"
definition PROBE_VERSION :: byte where "PROBE_VERSION = 1"
definition PROBE_HEADER_SIZE :: nat where "PROBE_HEADER_SIZE = 16"
definition MIN_PROBE_PAYLOAD :: nat where "MIN_PROBE_PAYLOAD = 548"
definition MAX_PROBE_PAYLOAD :: nat where "MAX_PROBE_PAYLOAD = 9188"
definition PROBE_KIND_PROBE :: byte where "PROBE_KIND_PROBE = 1"
definition PROBE_KIND_ACK :: byte where "PROBE_KIND_ACK = 2"
definition PROBE_KIND_ECHO :: byte where "PROBE_KIND_ECHO = 3"
definition PROBES_PER_SIZE :: nat where "PROBES_PER_SIZE = 3"

lemmas probe_consts = PROBE_MAGIC_def PROBE_VERSION_def PROBE_HEADER_SIZE_def MIN_PROBE_PAYLOAD_def
  MAX_PROBE_PAYLOAD_def PROBE_KIND_PROBE_def PROBE_KIND_ACK_def PROBE_KIND_ECHO_def PROBES_PER_SIZE_def

definition ip_overhead :: "bool \<Rightarrow> nat" where
  "ip_overhead is_ipv6 = (if is_ipv6 then 48 else 28)"

definition min_probe_payload :: "bool \<Rightarrow> nat" where
  "min_probe_payload is_ipv6 = (if is_ipv6 then 1280 - ip_overhead True else MIN_PROBE_PAYLOAD)"

section \<open>Probe packets\<close>

record ProbePacket =
  pp_kind :: byte
  pp_seq :: u32
  pp_declared_size :: u16

definition ProbePacket_encode :: "ProbePacket \<Rightarrow> bytes \<Rightarrow> (nat \<times> bytes) option" where
  "ProbePacket_encode p buffer =
     (let wire_len = (if pp_kind p = PROBE_KIND_ACK then PROBE_HEADER_SIZE else unat (pp_declared_size p))
      in if wire_len < PROBE_HEADER_SIZE \<or> length buffer < wire_len then None
         else (let b = copy_at 0 PROBE_MAGIC buffer;
                   b = b[4 := PROBE_VERSION];
                   b = b[5 := pp_kind p];
                   b = copy_at 6 (u16_to_be 0) b;
                   b = copy_at 8 (u32_to_be (pp_seq p)) b;
                   b = copy_at 12 (u16_to_be (pp_declared_size p)) b;
                   b = copy_at 14 (u16_to_be 0) b
               in Some (wire_len, b)))"

definition ProbePacket_decode :: "bytes \<Rightarrow> ProbePacket option" where
  "ProbePacket_decode buffer =
     (if length buffer < PROBE_HEADER_SIZE \<or> subslice 0 4 buffer \<noteq> PROBE_MAGIC then None
      else if buffer ! 4 \<noteq> PROBE_VERSION then None
      else (let kind = buffer ! 5 in
        if kind \<noteq> PROBE_KIND_PROBE \<and> kind \<noteq> PROBE_KIND_ACK \<and> kind \<noteq> PROBE_KIND_ECHO then None
        else (let seq = u32_from_be (subslice 8 12 buffer);
                  declared_size = u16_from_be (subslice 12 14 buffer)
              in if (kind = PROBE_KIND_PROBE \<or> kind = PROBE_KIND_ECHO)
                    \<and> (unat declared_size < PROBE_HEADER_SIZE \<or> length buffer < unat declared_size)
                 then None
                 else Some \<lparr>pp_kind = kind, pp_seq = seq, pp_declared_size = declared_size\<rparr>)))"

section \<open>The size search\<close>

datatype SizeVerdict = Pass | Fail | LocalLimit | Untested

definition size_ladder :: "bool \<Rightarrow> nat list" where
  "size_ladder is_ipv6 =
     (let overhead = ip_overhead is_ipv6;
          min_payload = min_probe_payload is_ipv6;
          max_payload = 9216 - overhead;
          ladder = filter (\<lambda>p. min_payload \<le> p \<and> p \<le> max_payload)
                     (map (\<lambda>wire. wire - overhead) [576, 1280, 1492, 1500, 4352, 9000, 9216]);
          ladder = (if ladder \<noteq> [] \<and> hd ladder = min_payload then ladder else min_payload # ladder);
          ladder = (if last ladder = max_payload then ladder else ladder @ [max_payload])
      in remdups_adj ladder)"

record SizeSearch =
  ss_ladder :: "nat list"
  ss_ladder_idx :: nat
  ss_low :: "nat option"
  ss_high :: "nat option"
  ss_in_binary :: bool
  ss_pending :: "nat option"

definition SizeSearch_new :: "bool \<Rightarrow> SizeSearch" where
  "SizeSearch_new is_ipv6 = \<lparr>ss_ladder = size_ladder is_ipv6, ss_ladder_idx = 0, ss_low = None,
     ss_high = None, ss_in_binary = False, ss_pending = None\<rparr>"

definition binary_midpoint :: "SizeSearch \<Rightarrow> nat option" where
  "binary_midpoint s =
     (case (ss_low s, ss_high s) of
        (Some low, Some high) \<Rightarrow> if high - low \<le> 1 then None else Some (low + (high - low) div 2)
      | _ \<Rightarrow> None)"

text \<open>The rung the ladder loop stops at: rungs at or above a known failure are skipped.\<close>

function ladder_skip :: "nat list \<Rightarrow> nat option \<Rightarrow> nat \<Rightarrow> nat" where
  "ladder_skip ladder high idx =
     (if idx < length ladder \<and> (case high of Some h \<Rightarrow> h \<le> ladder ! idx | None \<Rightarrow> False)
      then ladder_skip ladder high (idx + 1) else idx)"
  by pat_completeness auto
termination
  by (relation "measure (\<lambda>(ladder, high, idx). length ladder - idx)") auto

declare ladder_skip.simps [simp del]

definition next_size :: "SizeSearch \<Rightarrow> SizeSearch \<times> nat option" where
  "next_size s =
     (case ss_pending s of
        Some p \<Rightarrow> (s, Some p)
      | None \<Rightarrow>
          (let (s', nxt) =
             (if \<not> ss_in_binary s
              then (let idx = ladder_skip (ss_ladder s) (ss_high s) (ss_ladder_idx s);
                        s1 = s\<lparr>ss_ladder_idx := idx\<rparr>
                    in if idx < length (ss_ladder s) then (s1, Some (ss_ladder s ! idx))
                       else (let s2 = s1\<lparr>ss_in_binary := True\<rparr> in (s2, binary_midpoint s2)))
              else (s, binary_midpoint s))
           in (s'\<lparr>ss_pending := nxt\<rparr>, nxt)))"

definition search_record :: "SizeSearch \<Rightarrow> nat \<Rightarrow> SizeVerdict \<Rightarrow> SizeSearch" where
  "search_record s sz forward =
     (let s = s\<lparr>ss_pending := None\<rparr>;
          s = (if \<not> ss_in_binary s then s\<lparr>ss_ladder_idx := ss_ladder_idx s + 1\<rparr> else s)
      in case forward of
           Pass \<Rightarrow> (if (case ss_low s of None \<Rightarrow> True | Some l \<Rightarrow> l < sz) then s\<lparr>ss_low := Some sz\<rparr> else s)
         | Fail \<Rightarrow> (if (case ss_high s of None \<Rightarrow> True | Some h \<Rightarrow> sz < h) then s\<lparr>ss_high := Some sz\<rparr> else s)
         | LocalLimit \<Rightarrow> (if (case ss_high s of None \<Rightarrow> True | Some h \<Rightarrow> sz < h) then s\<lparr>ss_high := Some sz\<rparr> else s)
         | Untested \<Rightarrow> s)"

definition forward_max :: "SizeSearch \<Rightarrow> nat option" where
  "forward_max s = ss_low s"

section \<open>The probe driver\<close>

record SizeResult =
  sr_payload :: nat
  sr_forward_ok :: u8
  sr_reverse_ok :: u8
  sr_attempts :: u8
  sr_forward :: SizeVerdict
  sr_reverse :: SizeVerdict

record MtuProbeReport =
  forward_max_payload :: "nat option"
  reverse_max_payload :: "nat option"
  forward_path_mtu :: "nat option"
  reverse_path_mtu :: "nat option"
  report_ipv6 :: bool
  report_sizes :: "SizeResult list"

text \<open>What the reply window delivers, in order: a receive error, or a datagram.\<close>

datatype reply_event = ReplyError | ReplyDatagram bytes

fun collect_replies :: "u32 \<Rightarrow> nat \<Rightarrow> bool \<Rightarrow> reply_event list \<Rightarrow> bool \<times> bool" where
  "collect_replies seq sz got_ack [] = (got_ack, False)"
| "collect_replies seq sz got_ack (ReplyError # evs) = collect_replies seq sz got_ack evs"
| "collect_replies seq sz got_ack (ReplyDatagram d # evs) =
     (case ProbePacket_decode d of
        None \<Rightarrow> collect_replies seq sz got_ack evs
      | Some reply \<Rightarrow>
          if pp_seq reply \<noteq> seq \<or> unat (pp_declared_size reply) \<noteq> sz then collect_replies seq sz got_ack evs
          else if pp_kind reply = PROBE_KIND_ACK then collect_replies seq sz True evs
          else if pp_kind reply = PROBE_KIND_ECHO \<and> length d = sz then (got_ack, True)
          else collect_replies seq sz got_ack evs)"

datatype send_outcome = SendEmsgsize | SendFailed | SendOk "reply_event list"

record attempt_state =
  at_seq :: u32
  at_forward_ok :: u8
  at_reverse_ok :: u8
  at_attempts :: u8
  at_local_limit :: bool

text \<open>Up to \<open>k\<close> attempts at one size against the network \<open>net\<close>. \<open>None\<close> is the panic of a send buffer
  too small for the packet.\<close>

fun probe_attempts :: "(bytes \<Rightarrow> send_outcome) \<Rightarrow> nat \<Rightarrow> nat \<Rightarrow> attempt_state \<Rightarrow> attempt_state option" where
  "probe_attempts net sz 0 st = Some st"
| "probe_attempts net sz (Suc k) st =
     (let seq = at_seq st + 1;
          st = st\<lparr>at_attempts := at_attempts st + 1, at_seq := seq\<rparr>
      in case ProbePacket_encode \<lparr>pp_kind = PROBE_KIND_PROBE, pp_seq = seq, pp_declared_size = word_of_nat sz\<rparr>
                (replicate MAX_PROBE_PAYLOAD 0) of
           None \<Rightarrow> None
         | Some (len, buf) \<Rightarrow>
             (case net (take len buf) of
                SendEmsgsize \<Rightarrow> Some (st\<lparr>at_local_limit := True\<rparr>)
              | SendFailed \<Rightarrow> probe_attempts net sz k st
              | SendOk evs \<Rightarrow>
                  (let (got_ack, got_echo) = collect_replies seq sz False evs;
                       st = (if got_ack \<or> got_echo then st\<lparr>at_forward_ok := at_forward_ok st + 1\<rparr> else st);
                       st = (if got_echo then st\<lparr>at_reverse_ok := at_reverse_ok st + 1\<rparr> else st)
                   in if got_echo then Some st else probe_attempts net sz k st)))"

definition size_verdicts :: "attempt_state \<Rightarrow> SizeVerdict \<times> SizeVerdict" where
  "size_verdicts st =
     (let forward = (if at_local_limit st then LocalLimit
                     else if 0 < at_forward_ok st then Pass else Fail);
          reverse = (if 0 < at_reverse_ok st then Pass
                     else if forward = Pass then Fail else Untested)
      in (forward, reverse))"

record probe_run =
  pr_search :: SizeSearch
  pr_seq :: u32
  pr_reverse_max :: "nat option"
  pr_sizes :: "SizeResult list"

definition probe_one :: "(bytes \<Rightarrow> send_outcome) \<Rightarrow> probe_run \<Rightarrow> nat \<Rightarrow> probe_run option" where
  "probe_one net r sz =
     (case probe_attempts net sz PROBES_PER_SIZE
             \<lparr>at_seq = pr_seq r, at_forward_ok = 0, at_reverse_ok = 0, at_attempts = 0, at_local_limit = False\<rparr> of
        None \<Rightarrow> None
      | Some st \<Rightarrow>
          (let (forward, reverse) = size_verdicts st
           in Some \<lparr>pr_search = search_record (pr_search r) sz forward,
                    pr_seq = at_seq st,
                    pr_reverse_max = (if reverse = Pass \<and> (case pr_reverse_max r of None \<Rightarrow> True | Some m \<Rightarrow> m < sz)
                                      then Some sz else pr_reverse_max r),
                    pr_sizes = pr_sizes r @ [\<lparr>sr_payload = sz, sr_forward_ok = at_forward_ok st,
                       sr_reverse_ok = at_reverse_ok st, sr_attempts = at_attempts st,
                       sr_forward = forward, sr_reverse = reverse\<rparr>]\<rparr>))"

fun probe_loop :: "(bytes \<Rightarrow> send_outcome) \<Rightarrow> nat \<Rightarrow> probe_run \<Rightarrow> probe_run option" where
  "probe_loop net 0 r = None"
| "probe_loop net (Suc fuel) r =
     (let (s, nxt) = next_size (pr_search r); r = r\<lparr>pr_search := s\<rparr>
      in case nxt of
           None \<Rightarrow> Some r
         | Some sz \<Rightarrow> (case probe_one net r sz of None \<Rightarrow> None | Some r' \<Rightarrow> probe_loop net fuel r'))"

text \<open>Enough fuel for every network: more than the rungs of the ladder plus the widest bracket.\<close>

definition PROBE_FUEL :: nat where "PROBE_FUEL = 9300"

definition run_probe :: "(bytes \<Rightarrow> send_outcome) \<Rightarrow> bool \<Rightarrow> MtuProbeReport option" where
  "run_probe net is_ipv6 =
     (case probe_loop net PROBE_FUEL \<lparr>pr_search = SizeSearch_new is_ipv6, pr_seq = 0, pr_reverse_max = None, pr_sizes = []\<rparr> of
        None \<Rightarrow> None
      | Some r \<Rightarrow>
          (let overhead = ip_overhead is_ipv6; fm = forward_max (pr_search r)
           in Some \<lparr>forward_max_payload = fm, reverse_max_payload = pr_reverse_max r,
                    forward_path_mtu = map_option (\<lambda>p. p + overhead) fm,
                    reverse_path_mtu = map_option (\<lambda>p. p + overhead) (pr_reverse_max r),
                    report_ipv6 = is_ipv6, report_sizes = pr_sizes r\<rparr>))"

section \<open>The server's responder\<close>

text \<open>\<open>respond_mtu_probes\<close> of \<open>src/udp.rs\<close>: one datagram received by the loop, with the send buffer the loop
  keeps across datagrams; the result is the buffer and the datagrams sent, in order. On a
  single-port socket a retried hello is answered with the hello ack.\<close>

definition respond_probe_packet :: "bytes \<Rightarrow> bytes \<Rightarrow> bytes \<times> bytes list" where
  "respond_probe_packet send_buf d =
     (case ProbePacket_decode d of
        None \<Rightarrow> (send_buf, [])
      | Some pkt \<Rightarrow>
          if pp_kind pkt \<noteq> PROBE_KIND_PROBE then (send_buf, [])
          else (let (buf, acks) =
                      (case ProbePacket_encode \<lparr>pp_kind = PROBE_KIND_ACK, pp_seq = pp_seq pkt,
                                pp_declared_size = pp_declared_size pkt\<rparr> send_buf of
                         Some (len, b) \<Rightarrow> (b, [take len b]) | None \<Rightarrow> (send_buf, []));
                    (buf, echos) =
                      (case ProbePacket_encode \<lparr>pp_kind = PROBE_KIND_ECHO, pp_seq = pp_seq pkt,
                                pp_declared_size = pp_declared_size pkt\<rparr> buf of
                         Some (len, b) \<Rightarrow> (b, [take len b]) | None \<Rightarrow> (buf, []))
                in (buf, acks @ echos)))"

definition respond_mtu_probe :: "bytes option \<Rightarrow> bytes \<Rightarrow> bytes \<Rightarrow> bytes \<times> bytes list" where
  "respond_mtu_probe single_port_ack send_buf d =
     (case (single_port_ack, UdpHelloPacket_decode d) of
        (Some hello_ack, Some h) \<Rightarrow>
          if hello_kind h = UDP_HELLO_KIND_HELLO then (send_buf, [hello_ack])
          else respond_probe_packet send_buf d
      | _ \<Rightarrow> respond_probe_packet send_buf d)"

definition respond_mtu_probes :: "bytes option \<Rightarrow> bytes list \<Rightarrow> bytes list" where
  "respond_mtu_probes single_port_ack ds =
     snd (foldl (\<lambda>(buf, out) d. let (buf', rs) = respond_mtu_probe single_port_ack buf d in (buf', out @ rs))
            (replicate MAX_PROBE_PAYLOAD 0, []) ds)"

end
