(* ===== verification/Probe_Correct.thy ===== *)
theory Probe_Correct
  imports Probe
begin

text \<open>
  Correctness of the path-MTU probe: packets survive the wire, the search keeps a closed bracket and
  terminates against every network, and on a path with a size threshold it finds the threshold.
\<close>

section \<open>Packets\<close>

definition probe_valid :: "ProbePacket \<Rightarrow> bool" where
  "probe_valid p \<longleftrightarrow> pp_kind p = PROBE_KIND_ACK
     \<or> ((pp_kind p = PROBE_KIND_PROBE \<or> pp_kind p = PROBE_KIND_ECHO) \<and> PROBE_HEADER_SIZE \<le> unat (pp_declared_size p))"

definition probe_wire_len :: "ProbePacket \<Rightarrow> nat" where
  "probe_wire_len p = (if pp_kind p = PROBE_KIND_ACK then PROBE_HEADER_SIZE else unat (pp_declared_size p))"

lemma probe_encode_layout:
  assumes "16 \<le> probe_wire_len p" "probe_wire_len p \<le> length buffer"
  shows "ProbePacket_encode p buffer = Some (probe_wire_len p,
     PROBE_MAGIC @ [PROBE_VERSION, pp_kind p] @ u16_to_be 0 @ u32_to_be (pp_seq p)
       @ u16_to_be (pp_declared_size p) @ u16_to_be 0 @ drop 16 buffer)"
proof -
  have "16 \<le> length buffer" using assms by simp
  then show ?thesis
    using assms unfolding ProbePacket_encode_def probe_wire_len_def [symmetric]
    by (simp add: probe_consts Let_def list_update_copy_at del: list_update.simps)
qed

lemma probe_roundtrip:
  assumes "probe_valid p" "probe_wire_len p \<le> length buffer"
  shows "\<exists>b. ProbePacket_encode p buffer = Some (probe_wire_len p, b)
    \<and> ProbePacket_decode (take (probe_wire_len p) b) = Some p \<and> length b = length buffer"
proof -
  have wl: "16 \<le> probe_wire_len p"
    using assms(1) by (auto simp: probe_valid_def probe_wire_len_def probe_consts)
  define hdr where "hdr = PROBE_MAGIC @ [PROBE_VERSION, pp_kind p] @ u16_to_be 0 @ u32_to_be (pp_seq p)
       @ u16_to_be (pp_declared_size p) @ u16_to_be 0"
  have lh: "length hdr = 16" by (simp add: hdr_def probe_consts)
  have enc: "ProbePacket_encode p buffer = Some (probe_wire_len p, hdr @ drop 16 buffer)"
    using probe_encode_layout [OF wl assms(2)] by (simp add: hdr_def)
  define tl where "tl = take (probe_wire_len p - 16) (drop 16 buffer)"
  have tk: "take (probe_wire_len p) (hdr @ drop 16 buffer) = hdr @ tl"
    using wl lh by (simp add: tl_def)
  have ltl: "16 + length tl = probe_wire_len p" using wl assms(2) by (simp add: tl_def)
  have "ProbePacket_decode (hdr @ tl) = Some p"
    using assms(1) ltl
    by (auto simp: ProbePacket_decode_def hdr_def probe_valid_def probe_wire_len_def probe_consts Let_def)
  moreover have "length (hdr @ drop 16 buffer) = length buffer" using lh wl assms(2) by simp
  ultimately show ?thesis using enc tk by auto
qed

definition probe_datagram :: "ProbePacket \<Rightarrow> bytes" where
  "probe_datagram p = (case ProbePacket_encode p (replicate 65535 0) of Some (len, b) \<Rightarrow> take len b | None \<Rightarrow> [])"

lemma probe_wire_len_bound: "probe_wire_len p \<le> 65535"
  using unat_lt_pow [of "pp_declared_size p"] by (simp add: probe_wire_len_def probe_consts)

interpretation probe_codec: wire_codec probe_datagram ProbePacket_decode probe_valid
proof
  fix p
  assume "probe_valid p"
  then obtain b where "ProbePacket_encode p (replicate 65535 0) = Some (probe_wire_len p, b)"
      "ProbePacket_decode (take (probe_wire_len p) b) = Some p"
    using probe_roundtrip [of p "replicate 65535 0"] probe_wire_len_bound by auto
  then show "ProbePacket_decode (probe_datagram p) = Some p" by (simp add: probe_datagram_def)
qed

section \<open>The ladder\<close>

lemma size_ladder_v4: "size_ladder False = [548, 1252, 1464, 1472, 4324, 8972, 9188]"
  and size_ladder_v6: "size_ladder True = [1232, 1444, 1452, 4304, 8952, 9168]"
  by (simp_all add: size_ladder_def ip_overhead_def min_probe_payload_def MIN_PROBE_PAYLOAD_def Let_def)

definition max_probe :: "bool \<Rightarrow> nat" where
  "max_probe v6 = 9216 - ip_overhead v6"

lemma ladder_facts:
  "sorted_wrt (<) (size_ladder v6)" "size_ladder v6 \<noteq> []" "length (size_ladder v6) \<le> 7"
  "size_ladder v6 ! 0 = min_probe_payload v6" "last (size_ladder v6) = max_probe v6"
  "\<forall>x\<in>set (size_ladder v6). min_probe_payload v6 \<le> x \<and> x \<le> max_probe v6"
  "548 \<le> min_probe_payload v6" "max_probe v6 \<le> 9188"
  by (cases v6; simp add: size_ladder_v4 size_ladder_v6 min_probe_payload_def max_probe_def ip_overhead_def
      MIN_PROBE_PAYLOAD_def)+

lemma ladder_nth_bounds:
  "i < length (size_ladder v6) \<Longrightarrow> min_probe_payload v6 \<le> size_ladder v6 ! i \<and> size_ladder v6 ! i \<le> max_probe v6"
  using ladder_facts(6) nth_mem by blast

lemma ladder_mono: "i < j \<Longrightarrow> j < length (size_ladder v6) \<Longrightarrow> size_ladder v6 ! i < size_ladder v6 ! j"
  using ladder_facts(1) by (simp add: sorted_wrt_nth_less)

lemma ladder_skip_ge: "idx \<le> ladder_skip ladder high idx"
  by (induction ladder high idx rule: ladder_skip.induct) (subst ladder_skip.simps, auto)

lemma ladder_skip_le: "idx \<le> length ladder \<Longrightarrow> ladder_skip ladder high idx \<le> length ladder"
  by (induction ladder high idx rule: ladder_skip.induct) (subst ladder_skip.simps, auto)

lemma ladder_skip_stop:
  "ladder_skip ladder (Some h) idx < length ladder \<Longrightarrow> ladder ! ladder_skip ladder (Some h) idx < h"
proof (induction ladder "Some h" idx rule: ladder_skip.induct)
  case (1 ladder idx)
  show ?case
  proof (cases "idx < length ladder \<and> h \<le> ladder ! idx")
    case True
    then have "ladder_skip ladder (Some h) idx = ladder_skip ladder (Some h) (idx + 1)"
      by (subst ladder_skip.simps) simp
    then show ?thesis using 1 True by simp
  next
    case False
    then have "ladder_skip ladder (Some h) idx = idx"
      by (subst ladder_skip.simps) auto
    then show ?thesis using 1(2) False by auto
  qed
qed

lemma ladder_skip_None: "ladder_skip ladder None idx = idx"
  by (subst ladder_skip.simps) simp

section \<open>The bracket\<close>

definition search_inv :: "bool \<Rightarrow> SizeSearch \<Rightarrow> bool" where
  "search_inv v6 s \<longleftrightarrow> ss_ladder s = size_ladder v6 \<and> ss_pending s = None
     \<and> ss_ladder_idx s \<le> length (size_ladder v6)
     \<and> (\<forall>l. ss_low s = Some l \<longrightarrow> min_probe_payload v6 \<le> l \<and> l \<le> max_probe v6)
     \<and> (\<forall>h. ss_high s = Some h \<longrightarrow> min_probe_payload v6 \<le> h \<and> h \<le> max_probe v6)
     \<and> (\<forall>l h. ss_low s = Some l \<longrightarrow> ss_high s = Some h \<longrightarrow> l < h)
     \<and> (\<not> ss_in_binary s \<longrightarrow> (\<forall>l i. ss_low s = Some l \<longrightarrow> ss_ladder_idx s \<le> i \<longrightarrow> i < length (size_ladder v6)
           \<longrightarrow> l < size_ladder v6 ! i))"

definition search_measure :: "SizeSearch \<Rightarrow> nat" where
  "search_measure s = (if ss_in_binary s then 0 else length (ss_ladder s) - ss_ladder_idx s)
     + (case (ss_low s, ss_high s) of (Some l, Some h) \<Rightarrow> h - l | _ \<Rightarrow> 9188)"

lemma search_inv_new: "search_inv v6 (SizeSearch_new v6)"
  by (simp add: search_inv_def SizeSearch_new_def)

text \<open>What \<open>next_size\<close> gives: a size strictly inside the bracket and the probe range.\<close>

lemma next_size_Some:
  assumes "search_inv v6 s" "next_size s = (s', Some sz)"
  shows "ss_low s' = ss_low s" "ss_high s' = ss_high s" "ss_ladder s' = ss_ladder s"
    "min_probe_payload v6 \<le> sz" "sz \<le> max_probe v6"
    "\<And>l. ss_low s = Some l \<Longrightarrow> l < sz" "\<And>h. ss_high s = Some h \<Longrightarrow> sz < h"
    "ss_ladder_idx s \<le> ss_ladder_idx s'" "ss_ladder_idx s' \<le> length (ss_ladder s)"
    "\<not> ss_in_binary s' \<Longrightarrow> \<not> ss_in_binary s \<and> ss_ladder_idx s' < length (ss_ladder s) \<and> sz = ss_ladder s ! ss_ladder_idx s'
       \<and> (ss_high s = None \<longrightarrow> ss_ladder_idx s' = ss_ladder_idx s)"
    "ss_in_binary s' \<Longrightarrow> \<exists>l h. ss_low s = Some l \<and> ss_high s = Some h"
    "ss_in_binary s \<Longrightarrow> ss_in_binary s' \<and> ss_ladder_idx s' = ss_ladder_idx s"
proof -
  define idx where "idx = ladder_skip (ss_ladder s) (ss_high s) (ss_ladder_idx s)"
  have inv: "ss_ladder s = size_ladder v6" "ss_pending s = None" "ss_ladder_idx s \<le> length (size_ladder v6)"
    using assms(1) by (simp_all add: search_inv_def)
  have idx: "ss_ladder_idx s \<le> idx" "idx \<le> length (ss_ladder s)"
    using inv by (auto simp: idx_def ladder_skip_ge ladder_skip_le)
  have stop: "idx < length (ss_ladder s) \<Longrightarrow> ss_high s = Some h \<Longrightarrow> ss_ladder s ! idx < h" for h
    using ladder_skip_stop by (simp add: idx_def)
  have mid: "l < l + (h - l) div 2 \<and> l + (h - l) div 2 < h" if "\<not> h - l \<le> 1" for l h :: nat
    using that by auto
  note unf = assms(2) [unfolded next_size_def Let_def idx_def [symmetric]] inv
  show "ss_low s' = ss_low s" "ss_high s' = ss_high s" "ss_ladder s' = ss_ladder s"
    "ss_ladder_idx s \<le> ss_ladder_idx s'" "ss_ladder_idx s' \<le> length (ss_ladder s)"
    "ss_in_binary s \<Longrightarrow> ss_in_binary s' \<and> ss_ladder_idx s' = ss_ladder_idx s"
    using unf idx by (auto split: if_splits)
  show lad: "\<not> ss_in_binary s' \<Longrightarrow> \<not> ss_in_binary s \<and> ss_ladder_idx s' < length (ss_ladder s) \<and> sz = ss_ladder s ! ss_ladder_idx s'
       \<and> (ss_high s = None \<longrightarrow> ss_ladder_idx s' = ss_ladder_idx s)"
    using unf by (auto simp: idx_def ladder_skip_None split: if_splits)
  have bin: "ss_in_binary s' \<Longrightarrow> \<exists>l h. ss_low s = Some l \<and> ss_high s = Some h \<and> \<not> h - l \<le> 1 \<and> sz = l + (h - l) div 2"
    using unf by (auto simp: binary_midpoint_def split: if_splits option.splits)
  then show "ss_in_binary s' \<Longrightarrow> \<exists>l h. ss_low s = Some l \<and> ss_high s = Some h" by blast
  show "l < sz" if "ss_low s = Some l" for l
  proof (cases "ss_in_binary s'")
    case True
    then show ?thesis using bin mid that by auto
  next
    case False
    then show ?thesis using lad assms(1) that idx unf by (auto simp: search_inv_def split: if_splits)
  qed
  show "sz < h" if "ss_high s = Some h" for h
  proof (cases "ss_in_binary s'")
    case True
    then show ?thesis using bin mid that by auto
  next
    case False
    then show ?thesis using lad stop that unf by (auto split: if_splits)
  qed
  show "min_probe_payload v6 \<le> sz" "sz \<le> max_probe v6"
  proof -
    have "min_probe_payload v6 \<le> sz \<and> sz \<le> max_probe v6"
    proof (cases "ss_in_binary s'")
      case True
      then obtain l h where lh: "ss_low s = Some l" "ss_high s = Some h" "\<not> h - l \<le> 1" "sz = l + (h - l) div 2"
        using bin by blast
      then show ?thesis using assms(1) mid [of h l] by (auto simp: search_inv_def intro: le_trans less_imp_le)
    next
      case False
      then show ?thesis using lad inv ladder_nth_bounds by auto
    qed
    then show "min_probe_payload v6 \<le> sz" "sz \<le> max_probe v6" by auto
  qed
qed

lemma record_fields:
  "ss_ladder (search_record s sz v) = ss_ladder s" "ss_pending (search_record s sz v) = None"
  "ss_in_binary (search_record s sz v) = ss_in_binary s"
  "ss_ladder_idx (search_record s sz v) = (if ss_in_binary s then ss_ladder_idx s else ss_ladder_idx s + 1)"
  by (simp_all add: search_record_def Let_def split: SizeVerdict.split option.split)

lemma search_step:
  assumes inv: "search_inv v6 s" and nx: "next_size s = (s', Some sz)" and v: "v \<noteq> Untested"
  shows "search_inv v6 (search_record s' sz v)" "search_measure (search_record s' sz v) < search_measure s"
    "ss_low (search_record s' sz v) = (if v = Pass then Some sz else ss_low s)"
    "ss_high (search_record s' sz v) = (if v = Pass then ss_high s else Some sz)"
proof -
  note n = next_size_Some [OF inv nx]
  show low: "ss_low (search_record s' sz v) = (if v = Pass then Some sz else ss_low s)"
    and high: "ss_high (search_record s' sz v) = (if v = Pass then ss_high s else Some sz)"
    using v n(1,2,6,7) by (auto simp: search_record_def Let_def split: SizeVerdict.split option.split)
  have L: "ss_ladder s = size_ladder v6" using inv by (simp add: search_inv_def)
  show "search_inv v6 (search_record s' sz v)"
    unfolding search_inv_def record_fields low high
  proof (intro conjI allI impI)
    show "ss_ladder s' = size_ladder v6" using n(3) L by simp
    show "(if ss_in_binary s' then ss_ladder_idx s' else ss_ladder_idx s' + 1) \<le> length (size_ladder v6)"
      using n(9,10) L by auto
  next
    fix l i
    assume "\<not> ss_in_binary s'" "(if v = Pass then Some sz else ss_low s) = Some l"
      "(if ss_in_binary s' then ss_ladder_idx s' else ss_ladder_idx s' + 1) \<le> i" "i < length (size_ladder v6)"
    then have "sz < size_ladder v6 ! i" "l \<le> sz"
      using n(6,10) L ladder_mono [of "ss_ladder_idx s'" i v6] by (auto split: if_splits intro: less_imp_le)
    then show "l < size_ladder v6 ! i" by simp
  qed (use n(4-7) inv in \<open>auto simp: search_inv_def split: if_splits\<close>)
  show "search_measure (search_record s' sz v) < search_measure s"
  proof -
    have "case (ss_low (search_record s' sz v), ss_high (search_record s' sz v)) of (Some l, Some h) \<Rightarrow> h - l \<le> 9188 | _ \<Rightarrow> True"
      unfolding low high using inv n(5) ladder_facts(8) [of v6]
      by (auto simp: search_inv_def split: option.splits if_splits intro: le_trans [OF diff_le_self] le_trans)
    moreover have "(case (ss_low (search_record s' sz v), ss_high (search_record s' sz v)) of (Some l, Some h) \<Rightarrow> h - l | _ \<Rightarrow> 9188)
        \<le> (case (ss_low s, ss_high s) of (Some l, Some h) \<Rightarrow> h - l | _ \<Rightarrow> (9188::nat))"
      using calculation unfolding low high using n(6,7) by (auto split: option.splits if_splits)
    moreover have "(case (ss_low (search_record s' sz v), ss_high (search_record s' sz v)) of (Some l, Some h) \<Rightarrow> h - l | _ \<Rightarrow> 9188)
        < (case (ss_low s, ss_high s) of (Some l, Some h) \<Rightarrow> h - l | _ \<Rightarrow> (9188::nat))" if "ss_in_binary s'"
      using n(11) [OF that] n(6,7) unfolding low high by (auto intro: diff_less_mono2)
    ultimately show ?thesis
      using n(8,10,12) n(3) unfolding search_measure_def record_fields by (cases "ss_in_binary s'") auto
  qed
qed

section \<open>One size\<close>

lemma probe_encode_ok:
  assumes "16 \<le> sz" "sz \<le> 9188"
  shows "\<exists>b. ProbePacket_encode \<lparr>pp_kind = PROBE_KIND_PROBE, pp_seq = q, pp_declared_size = word_of_nat sz\<rparr>
           (replicate MAX_PROBE_PAYLOAD 0) = Some (sz, b)"
proof -
  have "unat (word_of_nat sz :: u16) = sz" using assms by (simp add: unat_of_nat take_bit_eq_mod)
  then show ?thesis
    using assms probe_encode_layout
      [of "\<lparr>pp_kind = PROBE_KIND_PROBE, pp_seq = q, pp_declared_size = word_of_nat sz\<rparr>" "replicate MAX_PROBE_PAYLOAD 0"]
    by (simp add: probe_wire_len_def probe_consts)
qed

lemma probe_attempts_total:
  assumes "16 \<le> sz" "sz \<le> 9188"
  shows "\<exists>st'. probe_attempts net sz k st = Some st'"
proof (induction k arbitrary: st)
  case 0
  show ?case by simp
next
  case (Suc k)
  obtain b where "ProbePacket_encode \<lparr>pp_kind = PROBE_KIND_PROBE, pp_seq = at_seq st + 1, pp_declared_size = word_of_nat sz\<rparr>
           (replicate MAX_PROBE_PAYLOAD 0) = Some (sz, b)"
    using probe_encode_ok [OF assms] by blast
  with Suc show ?case by (simp add: Let_def split: send_outcome.split prod.split)
qed

text \<open>An echo ends the attempts at once and counts for both directions.\<close>

lemma probe_attempts_reverse:
  assumes "probe_attempts net sz k st = Some st'" "at_reverse_ok st = 0"
    "unat (at_forward_ok st) + k \<le> 3" "\<not> at_local_limit st" "0 < at_reverse_ok st'"
  shows "0 < at_forward_ok st' \<and> \<not> at_local_limit st'"
  using assms
proof (induction k arbitrary: st)
  case 0
  then show ?case by simp
next
  case (Suc k)
  have inc: "unat (at_forward_ok st + 1) = unat (at_forward_ok st) + 1"
    using Suc.prems(3) by (simp add: unat_word_ariths)
  then have "0 < at_forward_ok st + 1" by (simp add: word_less_nat_alt)
  with Suc.prems inc show ?case
    by (auto simp: Let_def split: option.splits prod.splits send_outcome.splits if_splits dest!: Suc.IH)
qed

lemma size_verdicts_forward: "fst (size_verdicts st) \<noteq> Untested"
  by (simp add: size_verdicts_def Let_def)

lemma size_verdicts_reverse:
  "snd (size_verdicts st) = Pass \<longleftrightarrow> 0 < at_reverse_ok st"
  by (simp add: size_verdicts_def Let_def)

definition attempts_at :: "(bytes \<Rightarrow> send_outcome) \<Rightarrow> u32 \<Rightarrow> nat \<Rightarrow> attempt_state" where
  "attempts_at net q sz = the (probe_attempts net sz PROBES_PER_SIZE
     \<lparr>at_seq = q, at_forward_ok = 0, at_reverse_ok = 0, at_attempts = 0, at_local_limit = False\<rparr>)"

lemma probe_one_eq:
  assumes "16 \<le> sz" "sz \<le> 9188"
  shows "\<exists>r'. probe_one net r sz = Some r'
    \<and> pr_search r' = search_record (pr_search r) sz (fst (size_verdicts (attempts_at net (pr_seq r) sz)))
    \<and> pr_reverse_max r' = (if 0 < at_reverse_ok (attempts_at net (pr_seq r) sz)
         \<and> (case pr_reverse_max r of None \<Rightarrow> True | Some m \<Rightarrow> m < sz) then Some sz else pr_reverse_max r)
    \<and> (0 < at_reverse_ok (attempts_at net (pr_seq r) sz) \<longrightarrow>
         fst (size_verdicts (attempts_at net (pr_seq r) sz)) = Pass)"
proof -
  obtain st where st: "probe_attempts net sz PROBES_PER_SIZE
     \<lparr>at_seq = pr_seq r, at_forward_ok = 0, at_reverse_ok = 0, at_attempts = 0, at_local_limit = False\<rparr> = Some st"
    using probe_attempts_total [OF assms] by blast
  have "0 < at_reverse_ok st \<Longrightarrow> fst (size_verdicts st) = Pass"
    using probe_attempts_reverse [OF st] by (simp add: size_verdicts_def PROBES_PER_SIZE_def Let_def)
  then show ?thesis
    using st size_verdicts_reverse [of st]
    by (cases "size_verdicts st") (auto simp: probe_one_def attempts_at_def Let_def)
qed

section \<open>The driver loop\<close>

lemma probe_loop_rule:
  assumes "search_inv v6 (pr_search r)" "search_measure (pr_search r) < fuel" "P r"
    and step: "\<And>r s sz r'. P r \<Longrightarrow> search_inv v6 (pr_search r) \<Longrightarrow> next_size (pr_search r) = (s, Some sz)
       \<Longrightarrow> probe_one net (r\<lparr>pr_search := s\<rparr>) sz = Some r' \<Longrightarrow> P r'"
  shows "\<exists>r0 s. probe_loop net fuel r = Some (r0\<lparr>pr_search := s\<rparr>) \<and> P r0 \<and> search_inv v6 (pr_search r0)
    \<and> next_size (pr_search r0) = (s, None)"
  using assms(1-3)
proof (induction fuel arbitrary: r)
  case 0
  then show ?case by simp
next
  case (Suc fuel)
  obtain s nxt where nx: "next_size (pr_search r) = (s, nxt)" by fastforce
  show ?case
  proof (cases nxt)
    case None
    then show ?thesis using nx Suc.prems by (intro exI [of _ r] exI [of _ s]) simp
  next
    case (Some sz)
    note nx' = nx [unfolded Some]
    have sz: "16 \<le> sz" "sz \<le> 9188"
      using next_size_Some(4,5) [OF Suc.prems(1) nx'] ladder_facts(7,8) [of v6] by linarith+
    define v where "v = fst (size_verdicts (attempts_at net (pr_seq r) sz))"
    obtain r' where r': "probe_one net (r\<lparr>pr_search := s\<rparr>) sz = Some r'" "pr_search r' = search_record s sz v"
      using probe_one_eq [OF sz, of net "r\<lparr>pr_search := s\<rparr>"] by (auto simp: v_def)
    have "v \<noteq> Untested" using size_verdicts_forward by (simp add: v_def)
    note st = search_step [OF Suc.prems(1) nx' this]
    have "search_inv v6 (pr_search r')" "search_measure (pr_search r') < fuel"
      using st(1,2) r' Suc.prems(2) by auto
    from Suc.IH [OF this step [OF Suc.prems(3,1) nx' r'(1)]] show ?thesis using nx' r'(1) by simp
  qed
qed

lemma next_size_low: "next_size s = (s', nxt) \<Longrightarrow> ss_low s' = ss_low s"
  by (auto simp: next_size_def Let_def split: option.splits if_splits)

text \<open>The whole probe, with any property of the run that every probed size keeps.\<close>

lemma run_probe_rule:
  assumes init: "P \<lparr>pr_search = SizeSearch_new v6, pr_seq = 0, pr_reverse_max = None, pr_sizes = []\<rparr>"
    and step: "\<And>r s sz r'. P r \<Longrightarrow> search_inv v6 (pr_search r) \<Longrightarrow> next_size (pr_search r) = (s, Some sz)
       \<Longrightarrow> probe_one net (r\<lparr>pr_search := s\<rparr>) sz = Some r' \<Longrightarrow> P r'"
    and final: "\<And>rep r0 s. P r0 \<Longrightarrow> search_inv v6 (pr_search r0) \<Longrightarrow> next_size (pr_search r0) = (s, None)
       \<Longrightarrow> forward_max_payload rep = ss_low (pr_search r0) \<Longrightarrow> reverse_max_payload rep = pr_reverse_max r0
       \<Longrightarrow> forward_path_mtu rep = map_option (\<lambda>p. p + ip_overhead v6) (ss_low (pr_search r0))
       \<Longrightarrow> report_sizes rep = pr_sizes r0 \<Longrightarrow> Q rep"
  shows "\<exists>rep. run_probe net v6 = Some rep \<and> Q rep"
proof -
  have "search_measure (SizeSearch_new v6) < PROBE_FUEL"
    using ladder_facts(3) [of v6] by (simp add: search_measure_def SizeSearch_new_def PROBE_FUEL_def)
  then have "\<exists>r0 s. probe_loop net PROBE_FUEL \<lparr>pr_search = SizeSearch_new v6, pr_seq = 0, pr_reverse_max = None, pr_sizes = []\<rparr>
        = Some (r0\<lparr>pr_search := s\<rparr>) \<and> P r0 \<and> search_inv v6 (pr_search r0) \<and> next_size (pr_search r0) = (s, None)"
    using search_inv_new [of v6] init step by (intro probe_loop_rule [of v6 _ _ P net]) auto
  then obtain r0 s where "probe_loop net PROBE_FUEL \<lparr>pr_search = SizeSearch_new v6, pr_seq = 0, pr_reverse_max = None, pr_sizes = []\<rparr>
        = Some (r0\<lparr>pr_search := s\<rparr>)" and *: "P r0" "search_inv v6 (pr_search r0)" "next_size (pr_search r0) = (s, None)"
    by blast
  then show ?thesis
    using next_size_low [OF *(3)] by (auto simp: run_probe_def Let_def forward_max_def intro: final [OF *])
qed

section \<open>Convergence\<close>

definition threshold_inv :: "nat \<Rightarrow> bool \<Rightarrow> SizeSearch \<Rightarrow> bool" where
  "threshold_inv T v6 s \<longleftrightarrow>
     (\<forall>l. ss_low s = Some l \<longrightarrow> l \<le> T) \<and> (\<forall>h. ss_high s = Some h \<longrightarrow> T < h)
     \<and> (ss_in_binary s \<longrightarrow> ss_low s \<noteq> None \<and> ss_high s \<noteq> None)
     \<and> (ss_low s = None \<longrightarrow> ss_high s = None \<longrightarrow> ss_ladder_idx s = 0)
     \<and> (\<forall>h. ss_low s = None \<longrightarrow> ss_high s = Some h \<longrightarrow> h = min_probe_payload v6)
     \<and> (\<forall>l. ss_low s = Some l \<longrightarrow> ss_high s = None \<longrightarrow> 0 < ss_ladder_idx s \<and> l = size_ladder v6 ! (ss_ladder_idx s - 1))"

lemma threshold_inv_new: "threshold_inv T v6 (SizeSearch_new v6)"
  by (simp add: threshold_inv_def SizeSearch_new_def)

lemma threshold_inv_step:
  assumes inv: "search_inv v6 s" "threshold_inv T v6 s" and nx: "next_size s = (s', Some sz)"
    and v: "v \<noteq> Untested" "v = Pass \<longleftrightarrow> sz \<le> T"
  shows "threshold_inv T v6 (search_record s' sz v)"
proof -
  note n = next_size_Some [OF inv(1) nx]
  note st = search_step [OF inv(1) nx v(1)]
  have L: "ss_ladder s = size_ladder v6" using inv(1) by (simp add: search_inv_def)
  have rung: "sz = size_ladder v6 ! ss_ladder_idx s'" if "ss_low s = None \<or> ss_high s = None"
    using n(10,11) L that by (cases "ss_in_binary s'") auto
  have first: "sz = min_probe_payload v6" if "ss_low s = None" "v \<noteq> Pass"
  proof (cases "ss_high s")
    case None
    then have "ss_ladder_idx s' = 0"
      using n(10,11) inv(2) that by (cases "ss_in_binary s'") (auto simp: threshold_inv_def)
    then show ?thesis using rung that ladder_facts(4) by simp
  next
    case (Some h)
    then show ?thesis using n(4,7) inv(2) that by (force simp: threshold_inv_def)
  qed
  show ?thesis
    unfolding threshold_inv_def record_fields st(3,4)
    using v inv(2) n(10,11) first rung by (auto simp: threshold_inv_def split: if_splits)
qed

lemma threshold_inv_final:
  assumes "search_inv v6 s" "threshold_inv T v6 s" "next_size s = (s', None)"
  shows "ss_low s = (if T < min_probe_payload v6 then None else Some (min T (max_probe v6)))"
proof -
  have unf: "ss_pending s = None" "ss_ladder s = size_ladder v6" "ss_ladder_idx s \<le> length (size_ladder v6)"
    using assms(1) by (simp_all add: search_inv_def)
  have ne: "0 < length (size_ladder v6)" using ladder_facts(2) by simp
  have fin: "binary_midpoint s = None \<and> (\<not> ss_in_binary s \<longrightarrow>
      ladder_skip (ss_ladder s) (ss_high s) (ss_ladder_idx s) = length (size_ladder v6))"
    using assms(3) unf ladder_skip_le [of "ss_ladder_idx s" "ss_ladder s" "ss_high s"]
    by (auto simp: next_size_def Let_def binary_midpoint_def split: if_splits option.splits)
  show ?thesis
  proof (cases "ss_low s")
    case None
    then obtain h where "ss_high s = Some h"
      using assms(2) fin ne by (cases "ss_high s") (auto simp: threshold_inv_def ladder_skip_None)
    with None show ?thesis using assms(2) by (auto simp: threshold_inv_def)
  next
    case (Some l)
    have l: "min_probe_payload v6 \<le> l" "l \<le> max_probe v6" "l \<le> T"
      using Some assms(1,2) by (auto simp: search_inv_def threshold_inv_def)
    show ?thesis
    proof (cases "ss_high s")
      case None
      then have "l = size_ladder v6 ! (length (size_ladder v6) - 1)"
        using Some fin assms(2) by (auto simp: threshold_inv_def ladder_skip_None)
      then have "l = max_probe v6" using ladder_facts(2,5) [of v6] by (simp add: last_conv_nth)
      then show ?thesis using Some l by simp
    next
      case h: (Some h)
      then have "h - l \<le> 1" "T < h" "h \<le> max_probe v6"
        using fin Some assms(1,2) by (auto simp: binary_midpoint_def search_inv_def threshold_inv_def split: if_splits)
      then have "l = T" using l by linarith
      then show ?thesis using Some l by simp
    qed
  qed
qed

section \<open>The probe against the server\<close>

lemma hello_decode_probe_magic: "subslice 0 4 d = PROBE_MAGIC \<Longrightarrow> UdpHelloPacket_decode d = None"
  by (simp add: UdpHelloPacket_decode_def probe_consts udp_wire_consts)

lemma probe_decode_magic: "ProbePacket_decode d = Some p \<Longrightarrow> subslice 0 4 d = PROBE_MAGIC"
  by (auto simp: ProbePacket_decode_def split: if_splits)

lemma respond_to_probe:
  assumes d: "ProbePacket_decode d = Some p" "pp_kind p = PROBE_KIND_PROBE" "length d \<le> MAX_PROBE_PAYLOAD"
    and b: "length send_buf = MAX_PROBE_PAYLOAD"
  shows "\<exists>b' a e. respond_mtu_probe hello_ack send_buf d = (b', [a, e]) \<and> length b' = MAX_PROBE_PAYLOAD
     \<and> ProbePacket_decode a = Some (p\<lparr>pp_kind := PROBE_KIND_ACK\<rparr>) \<and> length a = PROBE_HEADER_SIZE
     \<and> ProbePacket_decode e = Some (p\<lparr>pp_kind := PROBE_KIND_ECHO\<rparr>) \<and> length e = unat (pp_declared_size p)"
proof -
  have sz: "PROBE_HEADER_SIZE \<le> unat (pp_declared_size p)" "unat (pp_declared_size p) \<le> length d"
    using d(1,2) by (auto simp: ProbePacket_decode_def Let_def split: if_splits)
  define pa pe where "pa = p\<lparr>pp_kind := PROBE_KIND_ACK\<rparr>" and "pe = p\<lparr>pp_kind := PROBE_KIND_ECHO\<rparr>"
  have va: "probe_valid pa" "probe_wire_len pa = PROBE_HEADER_SIZE"
    by (simp_all add: pa_def probe_valid_def probe_wire_len_def)
  have ve: "probe_valid pe" "probe_wire_len pe = unat (pp_declared_size p)"
    using sz by (simp_all add: pe_def probe_valid_def probe_wire_len_def probe_consts)
  obtain b1 where b1: "ProbePacket_encode pa send_buf = Some (PROBE_HEADER_SIZE, b1)"
      "ProbePacket_decode (take PROBE_HEADER_SIZE b1) = Some pa" "length b1 = MAX_PROBE_PAYLOAD"
    using probe_roundtrip [of pa send_buf] va b by (auto simp: probe_consts)
  obtain b2 where b2: "ProbePacket_encode pe b1 = Some (unat (pp_declared_size p), b2)"
      "ProbePacket_decode (take (unat (pp_declared_size p)) b2) = Some pe" "length b2 = MAX_PROBE_PAYLOAD"
    using probe_roundtrip [of pe b1] ve b1(3) sz d(3) by auto
  have rec: "\<lparr>pp_kind = PROBE_KIND_ACK, pp_seq = pp_seq p, pp_declared_size = pp_declared_size p\<rparr> = pa"
    "\<lparr>pp_kind = PROBE_KIND_ECHO, pp_seq = pp_seq p, pp_declared_size = pp_declared_size p\<rparr> = pe"
    by (simp_all add: pa_def pe_def)
  have "respond_mtu_probe hello_ack send_buf d = (b2, [take PROBE_HEADER_SIZE b1, take (unat (pp_declared_size p)) b2])"
    using d(1,2) hello_decode_probe_magic [OF probe_decode_magic [OF d(1)]] b1 b2
    by (simp add: respond_mtu_probe_def respond_probe_packet_def Let_def rec split: option.split)
  then show ?thesis using b1 b2 sz d(3) by (auto simp: pa_def pe_def probe_consts)
qed

text \<open>A path: datagrams above \<open>fwd\<close> bytes vanish on the way out (or are refused locally when \<open>refuse\<close>),
  replies above \<open>rev\<close> bytes vanish on the way back.\<close>

definition probe_path :: "nat \<Rightarrow> nat \<Rightarrow> bool \<Rightarrow> bytes option \<Rightarrow> bytes \<Rightarrow> send_outcome" where
  "probe_path fwd bwd refuse hello_ack d =
     (if fwd < length d then (if refuse then SendEmsgsize else SendOk [])
      else SendOk (map ReplyDatagram
             (filter (\<lambda>x. length x \<le> bwd) (snd (respond_mtu_probe hello_ack (replicate MAX_PROBE_PAYLOAD 0) d)))))"

lemma attempt_on_path:
  assumes "16 \<le> sz" "sz \<le> 9188" "16 \<le> bwd"
  shows "\<exists>b. ProbePacket_encode \<lparr>pp_kind = PROBE_KIND_PROBE, pp_seq = q, pp_declared_size = word_of_nat sz\<rparr>
            (replicate MAX_PROBE_PAYLOAD 0) = Some (sz, b) \<and>
     (if fwd < sz then probe_path fwd bwd refuse ha (take sz b) = (if refuse then SendEmsgsize else SendOk [])
      else \<exists>evs. probe_path fwd bwd refuse ha (take sz b) = SendOk evs \<and> collect_replies q sz False evs = (True, sz \<le> bwd))"
proof -
  define p where "p = \<lparr>pp_kind = PROBE_KIND_PROBE, pp_seq = q, pp_declared_size = (word_of_nat sz :: u16)\<rparr>"
  have u: "unat (pp_declared_size p) = sz" using assms by (simp add: p_def unat_of_nat take_bit_eq_mod)
  have w: "probe_wire_len p = sz" "probe_valid p"
    using u assms by (simp_all add: probe_wire_len_def probe_valid_def p_def probe_consts)
  obtain b where b: "ProbePacket_encode p (replicate MAX_PROBE_PAYLOAD 0) = Some (sz, b)"
      "ProbePacket_decode (take sz b) = Some p" "length b = 9188"
    using probe_roundtrip [OF w(2), of "replicate MAX_PROBE_PAYLOAD 0"] w(1) assms by (auto simp: probe_consts)
  have len: "length (take sz b) = sz" using b(3) assms by simp
  obtain b' a e where r: "respond_mtu_probe ha (replicate MAX_PROBE_PAYLOAD 0) (take sz b) = (b', [a, e])"
      "ProbePacket_decode a = Some (p\<lparr>pp_kind := PROBE_KIND_ACK\<rparr>)" "length a = 16"
      "ProbePacket_decode e = Some (p\<lparr>pp_kind := PROBE_KIND_ECHO\<rparr>)" "length e = sz"
    using respond_to_probe [OF b(2), of "replicate MAX_PROBE_PAYLOAD 0" ha] len u assms
    by (auto simp: p_def probe_consts)
  have pq: "pp_seq p = q" by (simp add: p_def)
  have coll: "collect_replies q sz False (map ReplyDatagram (filter (\<lambda>x. length x \<le> bwd) [a, e])) = (True, sz \<le> bwd)"
    using r u pq assms(3) by (simp add: PROBE_KIND_ACK_def PROBE_KIND_ECHO_def)
  have "if fwd < sz then probe_path fwd bwd refuse ha (take sz b) = (if refuse then SendEmsgsize else SendOk [])
      else \<exists>evs. probe_path fwd bwd refuse ha (take sz b) = SendOk evs \<and> collect_replies q sz False evs = (True, sz \<le> bwd)"
    unfolding probe_path_def len using r(1) coll by simp
  then show ?thesis using b(1) by (auto simp: p_def)
qed

lemma probe_attempts_path:
  assumes "16 \<le> sz" "sz \<le> 9188" "16 \<le> bwd"
  shows "probe_attempts (probe_path fwd bwd refuse ha) sz (Suc k) st =
    (let st1 = st\<lparr>at_attempts := at_attempts st + 1, at_seq := at_seq st + 1\<rparr>;
         st2 = st1\<lparr>at_forward_ok := at_forward_ok st + 1\<rparr>
     in if fwd < sz
        then (if refuse then Some (st1\<lparr>at_local_limit := True\<rparr>) else probe_attempts (probe_path fwd bwd refuse ha) sz k st1)
        else if sz \<le> bwd then Some (st2\<lparr>at_reverse_ok := at_reverse_ok st + 1\<rparr>)
        else probe_attempts (probe_path fwd bwd refuse ha) sz k st2)"
  using attempt_on_path [OF assms, of "at_seq st + 1" fwd refuse ha] by (auto simp: Let_def)

lemma attempts_on_path:
  assumes "16 \<le> sz" "sz \<le> 9188" "16 \<le> bwd"
  shows "fst (size_verdicts (attempts_at (probe_path fwd bwd refuse ha) q sz)) = Pass \<longleftrightarrow> sz \<le> fwd"
    and "0 < at_reverse_ok (attempts_at (probe_path fwd bwd refuse ha) q sz) \<longleftrightarrow> sz \<le> fwd \<and> sz \<le> bwd"
  unfolding attempts_at_def PROBES_PER_SIZE_def numeral_3_eq_3 probe_attempts_path [OF assms]
  by (simp_all add: Let_def size_verdicts_def)

section \<open>Properties\<close>

definition report_consistent :: "bool \<Rightarrow> MtuProbeReport \<Rightarrow> bool" where
  "report_consistent v6 rep \<longleftrightarrow>
     (case reverse_max_payload rep of None \<Rightarrow> True
      | Some m \<Rightarrow> min_probe_payload v6 \<le> m \<and> (case forward_max_payload rep of None \<Rightarrow> False | Some l \<Rightarrow> m \<le> l))
     \<and> (case forward_max_payload rep of None \<Rightarrow> True
        | Some l \<Rightarrow> min_probe_payload v6 \<le> l \<and> l \<le> max_probe v6)"

text \<open>C9: The probe terminates with a report against every network, whatever is lost, refused, delayed
  or forged: the search runs out of sizes within its fuel and no packet fails to encode. The
  report is consistent: the reverse maximum never exceeds the forward maximum, and both lie in
  the probed range.\<close>

theorem run_probe_total: "\<exists>rep. run_probe net v6 = Some rep \<and> report_consistent v6 rep"
proof -
  define P where "P r \<longleftrightarrow> (\<forall>m. pr_reverse_max r = Some m \<longrightarrow> min_probe_payload v6 \<le> m \<and> (\<exists>l. ss_low (pr_search r) = Some l \<and> m \<le> l))"
    for r :: probe_run
  have step: "P r'" if "P r" "search_inv v6 (pr_search r)" "next_size (pr_search r) = (s, Some sz)"
    "probe_one net (r\<lparr>pr_search := s\<rparr>) sz = Some r'" for r s sz r'
  proof -
    have sz: "16 \<le> sz" "sz \<le> 9188"
      using next_size_Some(4,5) [OF that(2,3)] ladder_facts(7,8) [of v6] by linarith+
    let ?st = "attempts_at net (pr_seq r) sz"
    obtain q where q: "probe_one net (r\<lparr>pr_search := s\<rparr>) sz = Some q"
        "pr_search q = search_record s sz (fst (size_verdicts ?st))"
        "pr_reverse_max q = (if 0 < at_reverse_ok ?st
           \<and> (case pr_reverse_max r of None \<Rightarrow> True | Some m \<Rightarrow> m < sz) then Some sz else pr_reverse_max r)"
        "0 < at_reverse_ok ?st \<Longrightarrow> fst (size_verdicts ?st) = Pass"
      using probe_one_eq [OF sz, of net "r\<lparr>pr_search := s\<rparr>"] by auto
    have low: "ss_low (pr_search q) = (if fst (size_verdicts ?st) = Pass then Some sz else ss_low (pr_search r))"
      unfolding q(2) by (rule search_step(3) [OF that(2,3) size_verdicts_forward])
    have "P q"
    proof (cases "pr_reverse_max q = pr_reverse_max r")
      case True
      show ?thesis
        unfolding P_def True low using that(1) next_size_Some(6) [OF that(2,3)]
        by (auto simp: P_def intro: order.trans [OF _ less_imp_le])
    next
      case False
      then have "pr_reverse_max q = Some sz" "fst (size_verdicts ?st) = Pass" using q(3,4) by (auto split: if_splits)
      then show ?thesis using low next_size_Some(4) [OF that(2,3)] by (simp add: P_def)
    qed
    then show ?thesis using q(1) that(4) by simp
  qed
  have "P \<lparr>pr_search = SizeSearch_new v6, pr_seq = 0, pr_reverse_max = None, pr_sizes = []\<rparr>" by (simp add: P_def)
  then show ?thesis
  proof (rule run_probe_rule [of P])
    fix rep :: MtuProbeReport and r0 s
    assume P: "P r0" and inv: "search_inv v6 (pr_search r0)"
      and rep: "forward_max_payload rep = ss_low (pr_search r0)" "reverse_max_payload rep = pr_reverse_max r0"
    have "\<forall>l. ss_low (pr_search r0) = Some l \<longrightarrow> min_probe_payload v6 \<le> l \<and> l \<le> max_probe v6"
      using inv by (auto simp: search_inv_def)
    moreover have "\<forall>m. pr_reverse_max r0 = Some m \<longrightarrow>
        min_probe_payload v6 \<le> m \<and> (\<exists>l. ss_low (pr_search r0) = Some l \<and> m \<le> l)"
      using P by (simp add: P_def)
    ultimately show "report_consistent v6 rep"
      by (cases "pr_reverse_max r0"; cases "ss_low (pr_search r0)") (simp_all add: report_consistent_def rep)
  qed (rule step)
qed

text \<open>C8: Against the server's own responder, over a path that carries at most \<open>fwd\<close> bytes of payload
  towards the server and \<open>bwd\<close> bytes back, the probe reports exactly the forward limit (clamped to
  the probed range, absent when even the smallest size does not pass), the path MTU as payload
  plus IP and UDP headers, and a reverse maximum within the reverse limit, exact when the way
  back is at least as wide.\<close>

theorem run_probe_finds_path_limit:
  assumes "PROBE_HEADER_SIZE \<le> bwd"
  shows "\<exists>rep. run_probe (probe_path fwd bwd refuse hello_ack) v6 = Some rep
    \<and> forward_max_payload rep = (if fwd < min_probe_payload v6 then None else Some (min fwd (max_probe v6)))
    \<and> forward_path_mtu rep = map_option (\<lambda>p. p + ip_overhead v6) (forward_max_payload rep)
    \<and> (\<forall>m. reverse_max_payload rep = Some m \<longrightarrow> m \<le> bwd)
    \<and> (fwd \<le> bwd \<longrightarrow> reverse_max_payload rep = forward_max_payload rep)"
proof -
  let ?net = "probe_path fwd bwd refuse hello_ack"
  have bwd: "16 \<le> bwd" using assms by (simp add: probe_consts)
  define P where "P r \<longleftrightarrow> threshold_inv fwd v6 (pr_search r) \<and> (\<forall>m. pr_reverse_max r = Some m \<longrightarrow> m \<le> bwd)
    \<and> (fwd \<le> bwd \<longrightarrow> pr_reverse_max r = ss_low (pr_search r))"
    for r :: probe_run
  have step: "P r'" if "P r" "search_inv v6 (pr_search r)" "next_size (pr_search r) = (s, Some sz)"
    "probe_one ?net (r\<lparr>pr_search := s\<rparr>) sz = Some r'" for r s sz r'
  proof -
    have sz: "16 \<le> sz" "sz \<le> 9188"
      using next_size_Some(4,5) [OF that(2,3)] ladder_facts(7,8) [of v6] by linarith+
    note on_path = attempts_on_path [OF sz bwd, of fwd refuse hello_ack "pr_seq r"]
    have thr: "threshold_inv fwd v6 (pr_search r')"
      using threshold_inv_step [OF that(2) _ that(3) size_verdicts_forward on_path(1)]
        probe_one_eq [OF sz, of ?net "r\<lparr>pr_search := s\<rparr>"] that(1,4) by (auto simp: P_def)
    show ?thesis
      using probe_one_eq [OF sz, of ?net "r\<lparr>pr_search := s\<rparr>"] that(1,4) thr on_path
        search_step(3) [OF that(2,3) size_verdicts_forward] next_size_Some(6) [OF that(2,3)]
      by (auto simp: P_def split: if_splits option.splits)
  qed
  have "P \<lparr>pr_search = SizeSearch_new v6, pr_seq = 0, pr_reverse_max = None, pr_sizes = []\<rparr>"
    using threshold_inv_new by (simp add: P_def) (simp add: SizeSearch_new_def)
  then show ?thesis
  proof (rule run_probe_rule [of P])
    fix rep r0 s
    assume P: "P r0" and s: "search_inv v6 (pr_search r0)" "next_size (pr_search r0) = (s, None)"
      and rep: "forward_max_payload rep = ss_low (pr_search r0)" "reverse_max_payload rep = pr_reverse_max r0"
        "forward_path_mtu rep = map_option (\<lambda>p. p + ip_overhead v6) (ss_low (pr_search r0))"
    have "ss_low (pr_search r0) = (if fwd < min_probe_payload v6 then None else Some (min fwd (max_probe v6)))"
      using P by (intro threshold_inv_final [OF s(1) _ s(2)]) (simp add: P_def)
    with P rep show "forward_max_payload rep = (if fwd < min_probe_payload v6 then None else Some (min fwd (max_probe v6)))
      \<and> forward_path_mtu rep = map_option (\<lambda>p. p + ip_overhead v6) (forward_max_payload rep)
      \<and> (\<forall>m. reverse_max_payload rep = Some m \<longrightarrow> m \<le> bwd)
      \<and> (fwd \<le> bwd \<longrightarrow> reverse_max_payload rep = forward_max_payload rep)"
      by (simp add: P_def)
  qed (rule step)
qed

theorem run_probe_finds_path_limit_witness:
  "\<exists>rep. run_probe (probe_path 1472 9188 True None) False = Some rep
    \<and> forward_max_payload rep = Some 1472 \<and> forward_path_mtu rep = Some 1500
    \<and> reverse_max_payload rep = Some 1472"
  using run_probe_finds_path_limit [of 9188 1472 True None False]
  by (auto simp: probe_consts min_probe_payload_def max_probe_def ip_overhead_def)

end
