(* ===== verification/Protocol.thy ===== *)
theory Protocol
  imports Probe
begin

text \<open>
  The control protocol of \<open>src/protocol.rs\<close>: versions, capabilities, the control messages and the
  measurements they carry. The JSON text of a message is produced and read by serde, a parameter;
  the validation that follows the parse is modelled.
\<close>

section \<open>Versions\<close>

definition PROTOCOL_VERSION :: string where "PROTOCOL_VERSION = ''1.1''"
definition DEFAULT_PORT :: u16 where "DEFAULT_PORT = 5201"

definition parse_protocol_major :: "string \<Rightarrow> nat option" where
  "parse_protocol_major version =
     (case split_on CHR ''.'' version of
        [] \<Rightarrow> None
      | f # parts \<Rightarrow>
          if f = [] then None
          else (case parse_uint 10 32 f of
                  None \<Rightarrow> None
                | Some major \<Rightarrow>
                    if list_all (\<lambda>part. part \<noteq> [] \<and> parse_uint 10 32 part \<noteq> None) parts then Some major
                    else None))"

definition versions_compatible :: "string \<Rightarrow> string \<Rightarrow> bool" where
  "versions_compatible version_a version_b =
     (case (parse_protocol_major version_a, parse_protocol_major version_b) of
        (Some major_a, Some major_b) \<Rightarrow> major_a = major_b
      | _ \<Rightarrow> False)"

section \<open>Data of the messages\<close>

datatype Protocol = Tcp | Udp | QuicProto
datatype Direction = Upload | Download | Bidir

definition Protocol_display :: "Protocol \<Rightarrow> string" where
  "Protocol_display p = (case p of Tcp \<Rightarrow> ''TCP'' | Udp \<Rightarrow> ''UDP'' | QuicProto \<Rightarrow> ''QUIC'')"

definition Direction_display :: "Direction \<Rightarrow> string" where
  "Direction_display d = (case d of Upload \<Rightarrow> ''Upload'' | Download \<Rightarrow> ''Download'' | Bidir \<Rightarrow> ''Bidirectional'')"

record AuthChallenge =
  ac_method :: string
  ac_nonce :: string

record UdpIntervalProgress =
  up_packets_received :: u64
  up_packets_lost :: u64

definition is_at_least_as_fresh_as :: "UdpIntervalProgress \<Rightarrow> UdpIntervalProgress \<Rightarrow> bool" where
  "is_at_least_as_fresh_as s previous \<longleftrightarrow>
     up_packets_received previous \<le> up_packets_received s
     \<and> saturating_add (up_packets_received previous) (up_packets_lost previous)
         \<le> saturating_add (up_packets_received s) (up_packets_lost s)"

definition lost_percent :: "UdpIntervalProgress \<Rightarrow> f64 option" where
  "lost_percent s =
     (let denom = saturating_add (up_packets_received s) (up_packets_lost s)
      in if denom = 0 then None
         else Some (real (unat (up_packets_lost s)) / real (unat denom) * 100))"

record UdpDirectionProgress =
  udp_progress_counts :: UdpIntervalProgress
  udp_progress_jitter_ms :: "f64 option"

record StreamInterval =
  si_id :: u8
  si_bytes :: u64
  si_retransmits :: "u64 option"
  si_jitter_ms :: "f64 option"
  si_lost :: "u64 option"
  si_error :: "string option"
  si_rtt_us :: "u32 option"
  si_cwnd :: "u32 option"
  si_bytes_sent :: "u64 option"
  si_bytes_received :: "u64 option"
  si_throughput_send_mbps :: "f64 option"
  si_throughput_recv_mbps :: "f64 option"

record AggregateInterval =
  ai_bytes :: u64
  ai_throughput_mbps :: f64
  ai_retransmits :: "u64 option"
  ai_jitter_ms :: "f64 option"
  ai_lost :: "u64 option"
  ai_udp_progress :: "UdpIntervalProgress option"
  ai_rtt_us :: "u32 option"
  ai_cwnd :: "u32 option"
  ai_bytes_sent :: "u64 option"
  ai_bytes_received :: "u64 option"
  ai_throughput_send_mbps :: "f64 option"
  ai_throughput_recv_mbps :: "f64 option"

record UdpSendErrors =
  se_count :: u64
  se_last_error :: string

definition MAX_ERROR_LEN :: nat where "MAX_ERROR_LEN = 128"

definition sanitize_message :: "string \<Rightarrow> string" where
  "sanitize_message raw = take MAX_ERROR_LEN (filter (\<lambda>c. \<not> is_control c) raw)"

definition UdpSendErrors_describe :: "UdpSendErrors \<Rightarrow> string \<Rightarrow> string" where
  "UdpSendErrors_describe e side =
     side @ '' reported '' @ show_nat (unat (se_count e)) @ '' UDP send error''
       @ (if se_count e = 1 then '''' else ''s'') @ '' (last: '' @ se_last_error e @ '')''"

record StreamResult =
  str_id :: u8
  str_bytes :: u64
  str_throughput_mbps :: f64
  str_retransmits :: "u64 option"
  str_jitter_ms :: "f64 option"
  str_lost :: "u64 option"
  str_bytes_sent :: "u64 option"
  str_bytes_received :: "u64 option"
  str_throughput_send_mbps :: "f64 option"
  str_throughput_recv_mbps :: "f64 option"

record TcpInfoSnapshot =
  ti_retransmits :: u64
  ti_rtt_us :: u32
  ti_rtt_var_us :: u32
  ti_cwnd :: u32
  ti_bytes_acked :: "u64 option"

record UdpStats =
  us_packets_sent :: u64
  us_packets_received :: u64
  us_lost :: u64
  us_lost_percent :: f64
  us_jitter_ms :: f64
  us_out_of_order :: u64
  us_jitter_max_ms :: "f64 option"
  us_packet_size :: "u32 option"

record TestResult =
  tr_id :: string
  tr_bytes_total :: u64
  tr_duration_ms :: u64
  tr_throughput_mbps :: f64
  tr_streams :: "StreamResult list"
  tr_tcp_info :: "TcpInfoSnapshot option"
  tr_udp_stats :: "UdpStats option"
  tr_udp_stats_send :: "UdpStats option"
  tr_udp_stats_recv :: "UdpStats option"
  tr_bytes_sent :: "u64 option"
  tr_bytes_received :: "u64 option"
  tr_throughput_send_mbps :: "f64 option"
  tr_throughput_recv_mbps :: "f64 option"
  tr_mtu_probe :: "MtuProbeReport option"
  tr_server_udp_send_errors :: "UdpSendErrors option"
  tr_client_udp_send_errors :: "UdpSendErrors option"
  tr_zero_byte_streams :: "u8 option"

definition count_zero_byte_streams :: "TestResult \<Rightarrow> u8" where
  "count_zero_byte_streams r =
     (let n = length (filter (\<lambda>s. str_bytes s = 0 \<or> str_bytes_sent s = Some 0 \<or> str_bytes_received s = Some 0)
                 (tr_streams r))
      in if n < 256 then word_of_nat n else umax)"

definition describe_zero_byte_streams :: "TestResult \<Rightarrow> string option" where
  "describe_zero_byte_streams r =
     (case tr_zero_byte_streams r of
        None \<Rightarrow> None
      | Some n \<Rightarrow>
          if 0 < n
          then Some (show_nat (unat n) @ '' of '' @ show_nat (length (tr_streams r))
                 @ '' streams carried no data; the totals cover only the rest'')
          else None)"

text \<open>\<open>to_progress\<close> of a feedback packet (\<open>src/udp.rs\<close>).\<close>

definition to_progress :: "UdpFeedbackPacket \<Rightarrow> UdpIntervalProgress" where
  "to_progress p = \<lparr>up_packets_received = fb_packets_received p, up_packets_lost = fb_packets_lost p\<rparr>"

section \<open>Timestamp formats\<close>

datatype TimestampFormat = Relative | Iso8601 | Unix

definition TimestampFormat_as_str :: "TimestampFormat \<Rightarrow> string" where
  "TimestampFormat_as_str t =
     (case t of Relative \<Rightarrow> ''relative'' | Iso8601 \<Rightarrow> ''iso8601'' | Unix \<Rightarrow> ''unix'')"

definition TimestampFormat_next :: "TimestampFormat \<Rightarrow> TimestampFormat" where
  "TimestampFormat_next t = (case t of Relative \<Rightarrow> Iso8601 | Iso8601 \<Rightarrow> Unix | Unix \<Rightarrow> Relative)"

definition TimestampFormat_prev :: "TimestampFormat \<Rightarrow> TimestampFormat" where
  "TimestampFormat_prev t = (case t of Relative \<Rightarrow> Unix | Iso8601 \<Rightarrow> Relative | Unix \<Rightarrow> Iso8601)"

datatype protocol_error = InvalidTimestampFormat string | TokenAndPorts | BadJson

definition TimestampFormat_from_str :: "string \<Rightarrow> protocol_error + TimestampFormat" where
  "TimestampFormat_from_str s =
     (let l = to_lowercase s
      in if l = ''relative'' then Ok Relative
         else if l = ''iso8601'' \<or> l = ''iso'' then Ok Iso8601
         else if l = ''unix'' \<or> l = ''epoch'' then Ok Unix
         else Err (InvalidTimestampFormat s))"

section \<open>Capabilities\<close>

definition UDP_PAYLOAD_SIZE_CAPABILITY :: string where "UDP_PAYLOAD_SIZE_CAPABILITY = ''udp_payload_size_v1''"
definition BYTE_BUDGET_CAPABILITY :: string where "BYTE_BUDGET_CAPABILITY = ''byte_budget_v1''"
definition QUIC_CHANNEL_BINDING_CAPABILITY :: string where "QUIC_CHANNEL_BINDING_CAPABILITY = ''quic_channel_binding_v1''"
definition SINGLE_PORT_UDP_CAPABILITY :: string where "SINGLE_PORT_UDP_CAPABILITY = ''single_port_udp_v1''"

definition SUPPORTED_CAPABILITIES :: "string list" where
  "SUPPORTED_CAPABILITIES =
     [''tcp'', ''udp'', ''quic'', ''multistream'', ''single_port_tcp'', ''pause_resume'', ''udp_feedback_v1'',
      ''zerocopy_v1'', ''mtu_probe_v1'', SINGLE_PORT_UDP_CAPABILITY, ''protected_control_v1'',
      QUIC_CHANNEL_BINDING_CAPABILITY, BYTE_BUDGET_CAPABILITY, UDP_PAYLOAD_SIZE_CAPABILITY]"

definition supported_capabilities :: "string list" where
  "supported_capabilities = SUPPORTED_CAPABILITIES"

definition supported_capabilities_without :: "string \<Rightarrow> string list" where
  "supported_capabilities_without excluded = filter (\<lambda>c. c \<noteq> excluded) SUPPORTED_CAPABILITIES"

definition capability_advertised :: "string list option \<Rightarrow> string \<Rightarrow> bool" where
  "capability_advertised capabilities name =
     (case capabilities of None \<Rightarrow> False | Some caps \<Rightarrow> list_ex (\<lambda>c. c = name) caps)"

section \<open>Control messages\<close>

record HelloFields =
  h_version :: string
  h_client :: "string option"
  h_server :: "string option"
  h_capabilities :: "string list option"
  h_auth :: "AuthChallenge option"
  h_client_nonce :: "string option"

record TestStartFields =
  ts_id :: string
  ts_protocol :: Protocol
  ts_streams :: u8
  ts_duration_secs :: u32
  ts_direction :: Direction
  ts_bitrate :: "u64 option"
  ts_congestion :: "string option"
  ts_mptcp :: bool
  ts_dscp :: "u8 option"
  ts_window_size :: "u64 option"
  ts_zerocopy :: bool
  ts_mtu_probe :: bool
  ts_tcp_nodelay :: bool
  ts_byte_budget :: "u64 option"
  ts_udp_payload_size :: "u16 option"

datatype ControlMessage =
    Hello HelloFields
  | AuthResponse string
  | AuthSuccess "string option"
  | TestStart TestStartFields
  | TestAck string "u16 list" "string option"
  | Interval string u64 "StreamInterval list" AggregateInterval
  | Result TestResult
  | Cancel string string
  | Cancelled string
  | Finish string
  | Pause string
  | Resume string
  | Error string
  | DataHello string u16

definition CARGO_PKG_VERSION :: string where "CARGO_PKG_VERSION = ''0.14.1''"

definition client_hello :: ControlMessage where
  "client_hello = Hello \<lparr>h_version = PROTOCOL_VERSION, h_client = Some (''xfr/'' @ CARGO_PKG_VERSION), h_server = None,
     h_capabilities = Some supported_capabilities, h_auth = None, h_client_nonce = None\<rparr>"

definition client_hello_with_nonce :: "string \<Rightarrow> ControlMessage" where
  "client_hello_with_nonce client_nonce = Hello \<lparr>h_version = PROTOCOL_VERSION,
     h_client = Some (''xfr/'' @ CARGO_PKG_VERSION), h_server = None,
     h_capabilities = Some supported_capabilities, h_auth = None, h_client_nonce = Some client_nonce\<rparr>"

definition server_hello_with_capabilities :: "string list \<Rightarrow> ControlMessage" where
  "server_hello_with_capabilities capabilities = Hello \<lparr>h_version = PROTOCOL_VERSION, h_client = None,
     h_server = Some (''xfr/'' @ CARGO_PKG_VERSION), h_capabilities = Some capabilities, h_auth = None,
     h_client_nonce = None\<rparr>"

definition server_hello :: ControlMessage where
  "server_hello = server_hello_with_capabilities supported_capabilities"

definition server_hello_with_auth_and_capabilities :: "string \<Rightarrow> string list \<Rightarrow> ControlMessage" where
  "server_hello_with_auth_and_capabilities nonce capabilities = Hello \<lparr>h_version = PROTOCOL_VERSION,
     h_client = None, h_server = Some (''xfr/'' @ CARGO_PKG_VERSION), h_capabilities = Some capabilities,
     h_auth = Some \<lparr>ac_method = ''psk'', ac_nonce = nonce\<rparr>, h_client_nonce = None\<rparr>"

definition server_hello_with_auth :: "string \<Rightarrow> ControlMessage" where
  "server_hello_with_auth nonce = server_hello_with_auth_and_capabilities nonce supported_capabilities"

definition auth_response :: "string \<Rightarrow> ControlMessage" where
  "auth_response response = AuthResponse response"

definition auth_success :: ControlMessage where
  "auth_success = AuthSuccess None"

definition auth_success_with_proof :: "string \<Rightarrow> ControlMessage" where
  "auth_success_with_proof server_proof = AuthSuccess (Some server_proof)"

definition error_message :: "string \<Rightarrow> ControlMessage" where
  "error_message message = Error message"

definition validate :: "ControlMessage \<Rightarrow> protocol_error + unit" where
  "validate msg =
     (case msg of
        TestAck i data_ports udp_token \<Rightarrow>
          if udp_token \<noteq> None \<and> data_ports \<noteq> [] then Err TokenAndPorts else Ok ()
      | _ \<Rightarrow> Ok ())"

text \<open>\<open>serde_json::from_str\<close> and \<open>to_string\<close> are the parameters \<open>from_json\<close> and \<open>to_json\<close>.\<close>

definition serialize :: "(ControlMessage \<Rightarrow> string) \<Rightarrow> ControlMessage \<Rightarrow> string" where
  "serialize to_json msg = to_json msg"

definition deserialize :: "(string \<Rightarrow> ControlMessage option) \<Rightarrow> string \<Rightarrow> protocol_error + ControlMessage" where
  "deserialize from_json s =
     (case from_json s of
        None \<Rightarrow> Err BadJson
      | Some msg \<Rightarrow> (case validate msg of Err e \<Rightarrow> Err e | Ok _ \<Rightarrow> Ok msg))"

section \<open>Freshness\<close>

interpretation progress_order: freshness is_at_least_as_fresh_as
  by unfold_locales (auto simp: is_at_least_as_fresh_as_def)

lemma fresh_unsaturated:
  assumes "unat (up_packets_received a) + unat (up_packets_lost a) < 2 ^ 64"
    "unat (up_packets_received b) + unat (up_packets_lost b) < 2 ^ 64"
  shows "is_at_least_as_fresh_as a b \<longleftrightarrow>
    unat (up_packets_received b) \<le> unat (up_packets_received a)
    \<and> unat (up_packets_received b) + unat (up_packets_lost b) \<le> unat (up_packets_received a) + unat (up_packets_lost a)"
  using assms by (auto simp: is_at_least_as_fresh_as_def word_le_nat_alt unat_saturating_add)

lemma lost_percent_range: "lost_percent p = Some x \<Longrightarrow> 0 \<le> x \<and> x \<le> 100"
proof -
  assume a: "lost_percent p = Some x"
  define d where "d = saturating_add (up_packets_received p) (up_packets_lost p)"
  have d: "d \<noteq> 0" and x: "x = real (unat (up_packets_lost p)) / real (unat d) * 100"
    using a by (auto simp: lost_percent_def d_def Let_def split: if_splits)
  have "unat (up_packets_lost p) \<le> unat d"
    using unat_lt_pow [of "up_packets_lost p"] by (simp add: d_def unat_saturating_add)
  moreover have "0 < unat d" using d by (simp add: unat_gt_0)
  moreover have "real n / real k \<le> 1" if "n \<le> k" "0 < k" for n k :: nat using that by simp
  ultimately have "real (unat (up_packets_lost p)) / real (unat d) \<le> 1" by blast
  moreover have "0 \<le> real (unat (up_packets_lost p)) / real (unat d)" by (rule divide_nonneg_nonneg) (rule of_nat_0_le_iff)+
  moreover have "0 \<le> y \<Longrightarrow> y \<le> 1 \<Longrightarrow> 0 \<le> y * 100 \<and> y * 100 \<le> 100" for y :: real by simp
  ultimately show ?thesis unfolding x by blast
qed

section \<open>Properties\<close>

lemma split_on_sep: "c \<notin> set p \<Longrightarrow> split_on c (p @ c # q) = p # split_on c q"
  by (induction p) auto

lemma dot_not_in_show_nat: "CHR ''.'' \<notin> set (show_nat n)"
proof (rule show_nat_no_char)
  fix d :: nat
  assume "d < 10"
  then have h: "(of_char (hex_digit d) :: nat) = 48 + d" by (simp add: of_char_hex_digit)
  show "CHR ''.'' \<noteq> hex_digit d"
  proof
    assume "CHR ''.'' = hex_digit d"
    then have "(of_char (CHR ''.'') :: nat) = 48 + d" using h by simp
    then show False by simp
  qed
qed

lemma parse_major_printed:
  fixes a b :: u32
  shows "parse_protocol_major (show_nat (unat a) @ ''.'' @ show_nat (unat b)) = Some (unat a)"
proof -
  have "unat x < 2 ^ 32" for x :: u32 using unat_lt_pow [of x] by simp
  then show ?thesis
    by (simp add: parse_protocol_major_def split_on_sep split_on_no_sep dot_not_in_show_nat parse_show_nat)
qed

text \<open>Two peers are compatible exactly when they print the same major version, whatever the minor
  versions; compatibility is symmetric, and a version that does not parse is compatible with none,
  not even itself.\<close>

theorem versions_compatible_major:
  fixes a b c d :: u32
  shows "(versions_compatible (show_nat (unat a) @ ''.'' @ show_nat (unat b))
            (show_nat (unat c) @ ''.'' @ show_nat (unat d)) \<longleftrightarrow> a = c)
    \<and> versions_compatible u v = versions_compatible v u
    \<and> (\<exists>w. versions_compatible u w) = (parse_protocol_major u \<noteq> None)"
proof (intro conjI)
  show "versions_compatible (show_nat (unat a) @ ''.'' @ show_nat (unat b))
            (show_nat (unat c) @ ''.'' @ show_nat (unat d)) \<longleftrightarrow> a = c"
    unfolding versions_compatible_def parse_major_printed by (simp add: word_unat_eq_iff)
  show "versions_compatible u v = versions_compatible v u"
    by (auto simp: versions_compatible_def split: option.split)
  show "(\<exists>w. versions_compatible u w) = (parse_protocol_major u \<noteq> None)"
    by (auto simp: versions_compatible_def split: option.splits intro!: exI [of _ u])
qed

text \<open>A sign is accepted by the integer parser, so \<open>+1.1\<close> counts as well formed.\<close>

lemma plus_version_compatible: "versions_compatible ''+1.1'' ''1.0''"
  by (simp add: versions_compatible_def parse_protocol_major_def parse_uint_def digit_val_def)

lemma sanitize_idem: "sanitize_message (sanitize_message raw) = sanitize_message raw"
proof -
  have "filter (\<lambda>c. \<not> is_control c) (take n (filter (\<lambda>c. \<not> is_control c) raw)) = take n (filter (\<lambda>c. \<not> is_control c) raw)" for n
    by (rule filter_True) (auto dest: in_set_takeD)
  then show ?thesis by (simp add: sanitize_message_def)
qed

text \<open>A send-error message kept for the report has at most 128 characters and no control
  character; sanitising it again on the client, after it crossed the wire, changes nothing, and a
  message that was already clean and short is kept as it is.\<close>

theorem sanitize_message_clean:
  "length (sanitize_message raw) \<le> MAX_ERROR_LEN \<and> list_all (\<lambda>c. \<not> is_control c) (sanitize_message raw)
    \<and> sanitize_message (sanitize_message raw) = sanitize_message raw
    \<and> (sanitize_message raw = raw \<longleftrightarrow> length raw \<le> MAX_ERROR_LEN \<and> list_all (\<lambda>c. \<not> is_control c) raw)"
proof (intro conjI)
  show len: "length (sanitize_message raw) \<le> MAX_ERROR_LEN" by (simp add: sanitize_message_def)
  show cl: "list_all (\<lambda>c. \<not> is_control c) (sanitize_message raw)"
    by (auto simp: sanitize_message_def list_all_iff dest: in_set_takeD)
  show "sanitize_message (sanitize_message raw) = sanitize_message raw" by (rule sanitize_idem)
  have "length raw \<le> MAX_ERROR_LEN \<and> list_all (\<lambda>c. \<not> is_control c) raw \<Longrightarrow> sanitize_message raw = raw"
    by (simp add: sanitize_message_def list_all_iff)
  then show "sanitize_message raw = raw \<longleftrightarrow> length raw \<le> MAX_ERROR_LEN \<and> list_all (\<lambda>c. \<not> is_control c) raw"
    using len cl by metis
qed

text \<open>The server's hello without a capability advertises every other supported capability and not
  that one.\<close>

lemma capabilities_without:
  "capability_advertised (Some (supported_capabilities_without excluded)) name \<longleftrightarrow>
     name \<in> set SUPPORTED_CAPABILITIES \<and> name \<noteq> excluded"
  by (auto simp: capability_advertised_def supported_capabilities_without_def list_ex_iff)

lemma timestamp_roundtrip: "TimestampFormat_from_str (TimestampFormat_as_str t) = Ok t"
  by (cases t) (simp_all add: TimestampFormat_from_str_def TimestampFormat_as_str_def to_lowercase_def
      lower_char_def Let_def)

lemma timestamp_cycle:
  "TimestampFormat_prev (TimestampFormat_next t) = t" "TimestampFormat_next (TimestampFormat_prev t) = t"
  by (cases t; simp add: TimestampFormat_prev_def TimestampFormat_next_def)+

lemma deserialize_Ok_iff:
  "deserialize from_json s = Ok msg \<longleftrightarrow> from_json s = Some msg \<and> validate msg = Ok ()"
  by (auto simp: deserialize_def split: option.split sum.split)

lemma deserialize_TestAck:
  "deserialize from_json s = Ok (TestAck i ports token) \<Longrightarrow> token = None \<or> ports = []"
  by (auto simp: deserialize_Ok_iff validate_def split: if_splits)

end
