(* ===== verification/Stats.thy ===== *)
theory Stats
  imports Protocol Rate_Limit
begin

text \<open>
  The measurements of \<open>src/stats.rs\<close>: per-stream counters, interval snapshots and results, and their
  aggregation over the streams of a test. The counters are shared with the data tasks, so a snapshot
  is a function of the values its loads observe (a \<open>reading\<close>) and of the fields only the reporter
  writes; \<open>record_interval\<close> takes the reading of a quiet state. \<open>+\<close> and \<open>sum\<close> on \<open>u64\<close> wrap, as in a
  release build. Times are nanoseconds; \<open>TCP_INFO\<close> of a descriptor is a parameter.
\<close>

section \<open>Floating point\<close>

text \<open>\<open>f64::round\<close> of a non-negative value and the saturating cast \<open>as u32\<close>.\<close>

definition round_half_up :: "f64 \<Rightarrow> int" where
  "round_half_up x = \<lfloor>x + 1 / 2\<rfloor>"

definition int_as_u32 :: "int \<Rightarrow> u32" where
  "int_as_u32 i = (if i < 0 then 0 else if 2 ^ 32 \<le> i then umax else word_of_int i)"

definition secs_f64 :: "duration \<Rightarrow> f64" where
  "secs_f64 d = real d / 1000000000"

abbreviation u64_as_f64 :: "u64 \<Rightarrow> f64" where
  "u64_as_f64 x \<equiv> real (unat x)"

section \<open>Stream statistics\<close>

definition MAX_INTERVAL_HISTORY :: nat where "MAX_INTERVAL_HISTORY = 60"

record IntervalStats =
  is_timestamp :: instant
  is_bytes :: u64
  is_throughput_mbps :: f64
  is_retransmits :: u64
  is_jitter_ms :: f64
  is_lost :: u64
  is_rtt_us :: "u32 option"
  is_cwnd :: "u32 option"
  is_bytes_sent :: u64
  is_bytes_received :: u64
  is_cumulative_packets_received :: u64
  is_cumulative_packets_lost :: u64

record StreamStats =
  st_stream_id :: u8
  st_bytes_sent :: u64
  st_bytes_received :: u64
  st_start_time :: instant
  st_intervals :: "IntervalStats list"
  st_retransmits :: u64
  st_interval_retransmits_total :: u64
  st_last_bytes :: u64
  st_last_bytes_sent :: u64
  st_last_bytes_received :: u64
  st_last_tcp_retransmits :: u64
  st_udp_jitter_us :: u64
  st_last_udp_lost :: u64
  st_udp_progress :: UdpIntervalProgress
  st_udp_send_errors :: "UdpSendErrors option"
  st_tcp_info_fd :: int
  st_final_tcp_info :: "TcpInfoSnapshot option"

definition StreamStats_new :: "u8 \<Rightarrow> instant \<Rightarrow> StreamStats" where
  "StreamStats_new stream_id now =
     \<lparr>st_stream_id = stream_id, st_bytes_sent = 0, st_bytes_received = 0, st_start_time = now, st_intervals = [],
      st_retransmits = 0, st_interval_retransmits_total = 0, st_last_bytes = 0, st_last_bytes_sent = 0,
      st_last_bytes_received = 0, st_last_tcp_retransmits = 0, st_udp_jitter_us = 0, st_last_udp_lost = 0,
      st_udp_progress = \<lparr>up_packets_received = 0, up_packets_lost = 0\<rparr>, st_udp_send_errors = None,
      st_tcp_info_fd = -1, st_final_tcp_info = None\<rparr>"

definition set_tcp_info_fd :: "StreamStats \<Rightarrow> int \<Rightarrow> StreamStats" where
  "set_tcp_info_fd s fd = s\<lparr>st_final_tcp_info := None, st_tcp_info_fd := fd\<rparr>"

definition clear_tcp_info_fd :: "StreamStats \<Rightarrow> StreamStats" where
  "clear_tcp_info_fd s = s\<lparr>st_tcp_info_fd := -1\<rparr>"

definition set_final_tcp_info :: "StreamStats \<Rightarrow> TcpInfoSnapshot \<Rightarrow> StreamStats" where
  "set_final_tcp_info s info = s\<lparr>st_final_tcp_info := Some info\<rparr>"

definition poll_tcp_info :: "(int \<Rightarrow> TcpInfoSnapshot option) \<Rightarrow> StreamStats \<Rightarrow> TcpInfoSnapshot option" where
  "poll_tcp_info tcp_info_of s = (if st_tcp_info_fd s < 0 then None else tcp_info_of (st_tcp_info_fd s))"

definition final_tcp_info :: "(int \<Rightarrow> TcpInfoSnapshot option) \<Rightarrow> StreamStats \<Rightarrow> TcpInfoSnapshot option" where
  "final_tcp_info tcp_info_of s =
     (case st_final_tcp_info s of Some i \<Rightarrow> Some i | None \<Rightarrow> poll_tcp_info tcp_info_of s)"

definition add_bytes_sent :: "StreamStats \<Rightarrow> u64 \<Rightarrow> StreamStats" where
  "add_bytes_sent s n = s\<lparr>st_bytes_sent := st_bytes_sent s + n\<rparr>"

definition add_bytes_received :: "StreamStats \<Rightarrow> u64 \<Rightarrow> StreamStats" where
  "add_bytes_received s n = s\<lparr>st_bytes_received := st_bytes_received s + n\<rparr>"

definition record_udp_send_error :: "StreamStats \<Rightarrow> string \<Rightarrow> StreamStats \<times> bool" where
  "record_udp_send_error s error =
     (let last_error = sanitize_message error;
          count = (case st_udp_send_errors s of None \<Rightarrow> 0 | Some e \<Rightarrow> se_count e) + 1
      in (s\<lparr>st_udp_send_errors := Some \<lparr>se_count = count, se_last_error = last_error\<rparr>\<rparr>, count = 1))"

definition add_retransmits :: "StreamStats \<Rightarrow> u64 \<Rightarrow> StreamStats" where
  "add_retransmits s n = s\<lparr>st_retransmits := st_retransmits s + n\<rparr>"

definition set_udp_jitter_us :: "StreamStats \<Rightarrow> u64 \<Rightarrow> StreamStats" where
  "set_udp_jitter_us s j = s\<lparr>st_udp_jitter_us := j\<rparr>"

definition set_udp_progress :: "StreamStats \<Rightarrow> u64 \<Rightarrow> u64 \<Rightarrow> StreamStats" where
  "set_udp_progress s received lost =
     s\<lparr>st_udp_progress := \<lparr>up_packets_received = received, up_packets_lost = lost\<rparr>\<rparr>"

definition udp_progress_snapshot :: "StreamStats \<Rightarrow> UdpIntervalProgress" where
  "udp_progress_snapshot s = st_udp_progress s"

definition udp_jitter_ms :: "StreamStats \<Rightarrow> f64" where
  "udp_jitter_ms s = u64_as_f64 (st_udp_jitter_us s) / 1000"

definition total_bytes :: "StreamStats \<Rightarrow> u64" where
  "total_bytes s = st_bytes_sent s + st_bytes_received s"

definition throughput_mbps :: "StreamStats \<Rightarrow> instant \<Rightarrow> f64" where
  "throughput_mbps s now =
     (let elapsed = secs_f64 (now - st_start_time s)
      in if 0 < elapsed then (u64_as_f64 (total_bytes s) * 8) / (elapsed * 1000000) else 0)"

text \<open>What the loads of one snapshot observe.\<close>

record reading =
  rd_total :: u64
  rd_sent :: u64
  rd_received :: u64
  rd_jitter_us :: u64
  rd_progress :: UdpIntervalProgress
  rd_tcp_info :: "TcpInfoSnapshot option"

definition reading_of :: "(int \<Rightarrow> TcpInfoSnapshot option) \<Rightarrow> StreamStats \<Rightarrow> reading" where
  "reading_of tcp_info_of s = \<lparr>rd_total = total_bytes s, rd_sent = st_bytes_sent s, rd_received = st_bytes_received s,
     rd_jitter_us = st_udp_jitter_us s, rd_progress = udp_progress_snapshot s, rd_tcp_info = poll_tcp_info tcp_info_of s\<rparr>"

definition push_interval :: "IntervalStats list \<Rightarrow> IntervalStats \<Rightarrow> IntervalStats list" where
  "push_interval ivs iv =
     (let ivs = ivs @ [iv] in if MAX_INTERVAL_HISTORY < length ivs then tl ivs else ivs)"

definition record_interval_with :: "StreamStats \<Rightarrow> instant \<Rightarrow> reading \<Rightarrow> StreamStats \<times> IntervalStats" where
  "record_interval_with s now rd =
     (let interval_bytes = saturating_sub (rd_total rd) (st_last_bytes s);
          interval_bytes_sent = saturating_sub (rd_sent rd) (st_last_bytes_sent s);
          interval_bytes_received = saturating_sub (rd_received rd) (st_last_bytes_received s);
          elapsed = now - st_start_time s;
          interval_duration = (if st_intervals s \<noteq> [] then now - is_timestamp (last (st_intervals s)) else elapsed);
          thr = (if 0 < secs_f64 interval_duration
                 then (u64_as_f64 interval_bytes * 8) / (secs_f64 interval_duration * 1000000) else 0);
          jitter_ms = u64_as_f64 (rd_jitter_us rd) / 1000;
          total_lost = up_packets_lost (rd_progress rd);
          interval_lost = saturating_sub total_lost (st_last_udp_lost s);
          interval_retransmits = (case rd_tcp_info rd of
             Some info \<Rightarrow> saturating_sub (ti_retransmits info) (st_last_tcp_retransmits s) | None \<Rightarrow> 0);
          iv = \<lparr>is_timestamp = now, is_bytes = interval_bytes, is_throughput_mbps = thr,
                is_retransmits = interval_retransmits, is_jitter_ms = jitter_ms, is_lost = interval_lost,
                is_rtt_us = map_option ti_rtt_us (rd_tcp_info rd), is_cwnd = map_option ti_cwnd (rd_tcp_info rd),
                is_bytes_sent = interval_bytes_sent, is_bytes_received = interval_bytes_received,
                is_cumulative_packets_received = up_packets_received (rd_progress rd),
                is_cumulative_packets_lost = total_lost\<rparr>
      in (s\<lparr>st_last_bytes := rd_total rd, st_last_bytes_sent := rd_sent rd, st_last_bytes_received := rd_received rd,
            st_last_udp_lost := total_lost,
            st_last_tcp_retransmits := (case rd_tcp_info rd of Some info \<Rightarrow> ti_retransmits info
                                          | None \<Rightarrow> st_last_tcp_retransmits s),
            st_interval_retransmits_total :=
              (if 0 < interval_retransmits then saturating_add (st_interval_retransmits_total s) interval_retransmits
               else st_interval_retransmits_total s),
            st_intervals := push_interval (st_intervals s) iv\<rparr>, iv))"

definition record_interval ::
  "(int \<Rightarrow> TcpInfoSnapshot option) \<Rightarrow> StreamStats \<Rightarrow> instant \<Rightarrow> StreamStats \<times> IntervalStats" where
  "record_interval tcp_info_of s now = record_interval_with s now (reading_of tcp_info_of s)"

definition then_some :: "bool \<Rightarrow> 'a \<Rightarrow> 'a option" where
  "then_some b x = (if b then Some x else None)"

definition to_interval_with_direction :: "StreamStats \<Rightarrow> IntervalStats \<Rightarrow> bool \<Rightarrow> StreamInterval" where
  "to_interval_with_direction s iv is_bidir =
     (let directional_mbps = (\<lambda>b. if 0 < is_bytes iv
            then is_throughput_mbps iv * u64_as_f64 b / u64_as_f64 (is_bytes iv) else 0)
      in \<lparr>si_id = st_stream_id s, si_bytes = is_bytes iv, si_retransmits = Some (is_retransmits iv),
          si_jitter_ms = (if 0 < is_jitter_ms iv \<or> 0 < is_cumulative_packets_received iv then Some (is_jitter_ms iv) else None),
          si_lost = (if 0 < is_lost iv then Some (is_lost iv) else None),
          si_error = None, si_rtt_us = is_rtt_us iv, si_cwnd = is_cwnd iv,
          si_bytes_sent = then_some is_bidir (is_bytes_received iv),
          si_bytes_received = then_some is_bidir (is_bytes_sent iv),
          si_throughput_send_mbps = then_some is_bidir (directional_mbps (is_bytes_received iv)),
          si_throughput_recv_mbps = then_some is_bidir (directional_mbps (is_bytes_sent iv))\<rparr>)"

definition to_interval :: "StreamStats \<Rightarrow> IntervalStats \<Rightarrow> StreamInterval" where
  "to_interval s iv = to_interval_with_direction s iv False"

definition to_result_with_direction :: "StreamStats \<Rightarrow> u64 \<Rightarrow> bool \<Rightarrow> StreamResult" where
  "to_result_with_direction s duration_ms is_bidir =
     (let sent = st_bytes_sent s; received = st_bytes_received s; b = sent + received;
          mbps = (\<lambda>b. if 0 < duration_ms then (u64_as_f64 b * 8) / (u64_as_f64 duration_ms / 1000) / 1000000 else 0)
      in \<lparr>str_id = st_stream_id s, str_bytes = b, str_throughput_mbps = mbps b,
          str_retransmits = Some (max (st_retransmits s) (st_interval_retransmits_total s)),
          str_jitter_ms = None, str_lost = None,
          str_bytes_sent = then_some is_bidir received, str_bytes_received = then_some is_bidir sent,
          str_throughput_send_mbps = then_some is_bidir (mbps received),
          str_throughput_recv_mbps = then_some is_bidir (mbps sent)\<rparr>)"

definition to_result :: "StreamStats \<Rightarrow> u64 \<Rightarrow> StreamResult" where
  "to_result s duration_ms = to_result_with_direction s duration_ms False"

section \<open>Test statistics\<close>

record TestStats =
  tst_test_id :: string
  tst_streams :: "StreamStats list"
  tst_start_time :: instant
  tst_tcp_info :: "TcpInfoSnapshot list"
  tst_udp_stats :: "UdpStats list"

definition TestStats_new :: "string \<Rightarrow> u8 \<Rightarrow> instant \<Rightarrow> TestStats" where
  "TestStats_new test_id num_streams now =
     \<lparr>tst_test_id = test_id, tst_streams = map (\<lambda>i. StreamStats_new (word_of_nat i) now) [0..<unat num_streams],
      tst_start_time = now, tst_tcp_info = [], tst_udp_stats = []\<rparr>"

definition add_udp_stats :: "TestStats \<Rightarrow> UdpStats \<Rightarrow> TestStats" where
  "add_udp_stats t u = t\<lparr>tst_udp_stats := tst_udp_stats t @ [u]\<rparr>"

text \<open>\<open>Option::max\<close>: an absent size is below every present one.\<close>

definition option_max :: "u32 option \<Rightarrow> u32 option \<Rightarrow> u32 option" where
  "option_max a b = (case (a, b) of (None, y) \<Rightarrow> y | (x, None) \<Rightarrow> x | (Some x, Some y) \<Rightarrow> Some (max x y))"

record udp_acc =
  ua_total :: UdpStats
  ua_jitter_max :: f64
  ua_any_jitter_max :: bool
  ua_jitter_count :: nat

definition udp_acc_step :: "bool \<Rightarrow> udp_acc \<Rightarrow> UdpStats \<Rightarrow> udp_acc" where
  "udp_acc_step receiver_only a s =
     (let t = (ua_total a)\<lparr>us_packets_sent := saturating_add (us_packets_sent (ua_total a)) (us_packets_sent s),
                us_packets_received := saturating_add (us_packets_received (ua_total a)) (us_packets_received s),
                us_lost := saturating_add (us_lost (ua_total a)) (us_lost s),
                us_out_of_order := saturating_add (us_out_of_order (ua_total a)) (us_out_of_order s)\<rparr>
      in if \<not> receiver_only \<or> 0 < us_packets_received s
         then a\<lparr>ua_total := t\<lparr>us_jitter_ms := us_jitter_ms t + us_jitter_ms s,
                               us_packet_size := option_max (us_packet_size t) (us_packet_size s)\<rparr>,
                ua_jitter_count := ua_jitter_count a + 1,
                ua_jitter_max := (case us_jitter_max_ms s of Some m \<Rightarrow> max (ua_jitter_max a) m | None \<Rightarrow> ua_jitter_max a),
                ua_any_jitter_max := (ua_any_jitter_max a \<or> us_jitter_max_ms s \<noteq> None)\<rparr>
         else a\<lparr>ua_total := t\<rparr>)"

definition udp_acc_init :: udp_acc where
  "udp_acc_init = \<lparr>ua_total = \<lparr>us_packets_sent = 0, us_packets_received = 0, us_lost = 0, us_lost_percent = 0,
       us_jitter_ms = 0, us_out_of_order = 0, us_jitter_max_ms = None, us_packet_size = None\<rparr>,
     ua_jitter_max = 0, ua_any_jitter_max = False, ua_jitter_count = 0\<rparr>"

definition aggregate_udp_stats_inner :: "TestStats \<Rightarrow> bool \<Rightarrow> UdpStats option" where
  "aggregate_udp_stats_inner t receiver_only =
     (let stats = tst_udp_stats t
      in if stats = [] \<or> (receiver_only \<and> \<not> list_ex (\<lambda>s. 0 < us_packets_received s \<or> 0 < us_lost s) stats) then None
         else (let a = foldl (udp_acc_step receiver_only) udp_acc_init stats;
                   tot = ua_total a;
                   tot = (if 0 < ua_jitter_count a then tot\<lparr>us_jitter_ms := us_jitter_ms tot / real (ua_jitter_count a)\<rparr> else tot);
                   tot = (if ua_any_jitter_max a then tot\<lparr>us_jitter_max_ms := Some (ua_jitter_max a)\<rparr> else tot);
                   tot = (if 0 < us_packets_sent tot
                          then tot\<lparr>us_lost_percent := u64_as_f64 (us_lost tot) / u64_as_f64 (us_packets_sent tot) * 100\<rparr>
                          else tot)
               in Some tot))"

definition aggregate_udp_stats :: "TestStats \<Rightarrow> UdpStats option" where
  "aggregate_udp_stats t = aggregate_udp_stats_inner t False"

definition aggregate_udp_receiver_stats :: "TestStats \<Rightarrow> UdpStats option" where
  "aggregate_udp_receiver_stats t = aggregate_udp_stats_inner t True"

fun reduce :: "('a \<Rightarrow> 'a \<Rightarrow> 'a) \<Rightarrow> 'a list \<Rightarrow> 'a option" where
  "reduce f [] = None"
| "reduce f (x # xs) = Some (foldl f x xs)"

definition TestStats_udp_send_errors :: "TestStats \<Rightarrow> UdpSendErrors option" where
  "TestStats_udp_send_errors t =
     reduce (\<lambda>acc e. \<lparr>se_count = se_count acc + se_count e, se_last_error = se_last_error e\<rparr>)
       (List.map_filter st_udp_send_errors (tst_streams t))"

definition record_intervals ::
  "(int \<Rightarrow> TcpInfoSnapshot option) \<Rightarrow> TestStats \<Rightarrow> instant \<Rightarrow> TestStats \<times> IntervalStats list" where
  "record_intervals tcp_info_of t now =
     (let rs = map (\<lambda>s. record_interval tcp_info_of s now) (tst_streams t)
      in (t\<lparr>tst_streams := map fst rs\<rparr>, map snd rs))"

definition saturating_sum :: "'a::len word list \<Rightarrow> 'a word" where
  "saturating_sum xs = foldl saturating_add 0 xs"

definition to_aggregate_with_direction :: "IntervalStats list \<Rightarrow> bool \<Rightarrow> AggregateInterval" where
  "to_aggregate_with_direction ivs is_bidir =
     (let total_bytes = sum_list (map is_bytes ivs);
          total_throughput = sum_list (map is_throughput_mbps ivs);
          total_retransmits = sum_list (map is_retransmits ivs);
          total_lost = saturating_sum (map is_lost ivs);
          client_sent = sum_list (map is_bytes_received ivs);
          client_recv = sum_list (map is_bytes_sent ivs);
          part = (\<lambda>b. if 0 < total_bytes then total_throughput * u64_as_f64 b / u64_as_f64 total_bytes else 0);
          jitters = map is_jitter_ms (filter (\<lambda>i. 0 < is_jitter_ms i \<or> 0 < is_cumulative_packets_received i) ivs);
          cumulative_received = saturating_sum (map is_cumulative_packets_received ivs);
          cumulative_lost = saturating_sum (map is_cumulative_packets_lost ivs);
          rtts = List.map_filter is_rtt_us ivs
      in \<lparr>ai_bytes = total_bytes, ai_throughput_mbps = total_throughput, ai_retransmits = Some total_retransmits,
          ai_jitter_ms = (if jitters = [] then None else Some (sum_list jitters / real (length jitters))),
          ai_lost = (if 0 < total_lost then Some total_lost else None),
          ai_udp_progress = (if 0 < cumulative_received \<or> 0 < cumulative_lost
             then Some \<lparr>up_packets_received = cumulative_received, up_packets_lost = cumulative_lost\<rparr> else None),
          ai_rtt_us = (if rtts = [] then None
             else Some (int_as_u32 (round_half_up (real (unat (sum_list (map ucast rtts :: u64 list))) / real (length rtts))))),
          ai_cwnd = reduce saturating_add (List.map_filter is_cwnd ivs),
          ai_bytes_sent = then_some is_bidir client_sent, ai_bytes_received = then_some is_bidir client_recv,
          ai_throughput_send_mbps = then_some is_bidir (part client_sent),
          ai_throughput_recv_mbps = then_some is_bidir (part client_recv)\<rparr>)"

definition to_aggregate :: "IntervalStats list \<Rightarrow> AggregateInterval" where
  "to_aggregate ivs = to_aggregate_with_direction ivs False"

definition TestStats_total_bytes :: "TestStats \<Rightarrow> u64" where
  "TestStats_total_bytes t = sum_list (map total_bytes (tst_streams t))"

definition total_bytes_sent :: "TestStats \<Rightarrow> u64" where
  "total_bytes_sent t = sum_list (map st_bytes_sent (tst_streams t))"

definition total_bytes_received :: "TestStats \<Rightarrow> u64" where
  "total_bytes_received t = sum_list (map st_bytes_received (tst_streams t))"

definition add_tcp_info :: "TestStats \<Rightarrow> TcpInfoSnapshot \<Rightarrow> TestStats" where
  "add_tcp_info t info = t\<lparr>tst_tcp_info := tst_tcp_info t @ [info]\<rparr>"

definition get_tcp_info :: "TestStats \<Rightarrow> TcpInfoSnapshot option" where
  "get_tcp_info t = (if tst_tcp_info t = [] then None else Some (last (tst_tcp_info t)))"

definition poll_local_tcp_info :: "(int \<Rightarrow> TcpInfoSnapshot option) \<Rightarrow> TestStats \<Rightarrow> (u32 \<times> u64 \<times> u32) option" where
  "poll_local_tcp_info tcp_info_of t =
     (let infos = List.map_filter (poll_tcp_info tcp_info_of) (tst_streams t);
          rtt_sum = sum_list (map (ucast \<circ> ti_rtt_us) infos :: u64 list)
      in if infos = [] then None
         else Some (int_as_u32 (round_half_up (u64_as_f64 rtt_sum / real (length infos))),
                    sum_list (map ti_retransmits infos), saturating_sum (map ti_cwnd infos)))"

definition final_local_tcp_info :: "(int \<Rightarrow> TcpInfoSnapshot option) \<Rightarrow> TestStats \<Rightarrow> TcpInfoSnapshot option" where
  "final_local_tcp_info tcp_info_of t =
     (let infos = List.map_filter (final_tcp_info tcp_info_of) (tst_streams t);
          rtt_sum = sum_list (map (ucast \<circ> ti_rtt_us) infos :: u64 list);
          rtt_var_sum = sum_list (map (ucast \<circ> ti_rtt_var_us) infos :: u64 list);
          acked = List.map_filter ti_bytes_acked infos
      in if infos = [] then None
         else Some \<lparr>ti_retransmits = sum_list (map ti_retransmits infos),
                    ti_rtt_us = int_as_u32 (round_half_up (u64_as_f64 rtt_sum / real (length infos))),
                    ti_rtt_var_us = int_as_u32 (round_half_up (u64_as_f64 rtt_var_sum / real (length infos))),
                    ti_cwnd = saturating_sum (map ti_cwnd infos),
                    ti_bytes_acked = (if acked \<noteq> [] then Some (sum_list acked) else None)\<rparr>)"

end
