(* ===== verification/Pause.thy ===== *)
theory Pause
  imports Rate_Limit
begin

text \<open>
  Pausing of streams (\<open>src/pause.rs\<close>). A \<open>watch\<close> channel is the last value sent and whether a sender is
  left. Waiting consumes the events that the \<open>select\<close> of the loop observes, in order; \<open>None\<close> means that
  the wait is still on when the events end.
\<close>

record watch =
  w_value :: bool
  w_open :: bool

definition channel_is_open :: "watch \<Rightarrow> bool" where
  "channel_is_open pause = w_open pause"

definition is_paused :: "watch \<Rightarrow> bool" where
  "is_paused pause = (w_value pause \<and> channel_is_open pause)"

text \<open>A change of the cancel or pause channel to a value, or the loss of its last sender.\<close>

datatype pause_event = CancelChanged bool | CancelClosed | PauseChanged bool | PauseClosed

fun wait_while_paused :: "watch \<Rightarrow> pause_event list \<Rightarrow> (bool \<times> watch \<times> pause_event list) option" where
  "wait_while_paused pause [] = (if is_paused pause then None else Some (False, pause, []))"
| "wait_while_paused pause (e # evs) =
     (if \<not> is_paused pause then Some (False, pause, e # evs)
      else (case e of
              CancelClosed \<Rightarrow> Some (True, pause, evs)
            | CancelChanged v \<Rightarrow> if v then Some (True, pause, evs) else wait_while_paused pause evs
            | PauseClosed \<Rightarrow> Some (False, pause\<lparr>w_open := False\<rparr>, evs)
            | PauseChanged v \<Rightarrow> wait_while_paused (pause\<lparr>w_value := v\<rparr>) evs))"

definition wait_while_paused_timed ::
  "watch \<Rightarrow> pause_event list \<Rightarrow> instant \<Rightarrow> instant \<Rightarrow> (bool \<times> duration \<times> watch \<times> pause_event list) option" where
  "wait_while_paused_timed pause evs pause_start now =
     (case wait_while_paused pause evs of
        None \<Rightarrow> None
      | Some (cancelled, pause', evs') \<Rightarrow> Some (cancelled, now - pause_start, pause', evs'))"

text \<open>The events that end a wait: a resume, a cancellation, or the loss of either sender.\<close>

fun ends_wait :: "pause_event \<Rightarrow> bool" where
  "ends_wait (CancelChanged v) = v"
| "ends_wait CancelClosed = True"
| "ends_wait (PauseChanged v) = (\<not> v)"
| "ends_wait PauseClosed = True"

fun is_cancel :: "pause_event \<Rightarrow> bool" where
  "is_cancel (CancelChanged v) = v"
| "is_cancel CancelClosed = True"
| "is_cancel _ = False"

lemma wait_skips: "is_paused pause \<Longrightarrow> \<not> ends_wait e \<Longrightarrow> wait_while_paused pause (e # evs) = wait_while_paused pause evs"
proof -
  assume p: "is_paused pause" and e: "\<not> ends_wait e"
  then have "pause\<lparr>w_value := True\<rparr> = pause" by (simp add: is_paused_def)
  then show ?thesis using p e by (cases e) auto
qed

lemma wait_ends:
  "is_paused pause \<Longrightarrow> ends_wait e \<Longrightarrow> \<exists>pause'. wait_while_paused pause (e # evs) = Some (is_cancel e, pause', evs)
     \<and> (is_cancel e \<or> \<not> is_paused pause')"
  by (cases e; cases evs) (auto simp: is_paused_def channel_is_open_def)

lemma wait_split:
  assumes "is_paused pause" "\<forall>e\<in>set pre. \<not> ends_wait e" "ends_wait e"
  shows "\<exists>pause'. wait_while_paused pause (pre @ e # post) = Some (is_cancel e, pause', post)
     \<and> (is_cancel e \<or> \<not> is_paused pause')"
  using assms
proof (induction pre)
  case Nil
  then show ?case using wait_ends by (simp del: wait_while_paused.simps)
next
  case (Cons a pre)
  then show ?case using wait_skips [of pause a "pre @ e # post"] by (simp del: wait_while_paused.simps)
qed

lemma wait_blocked: "is_paused pause \<Longrightarrow> \<forall>e\<in>set evs. \<not> ends_wait e \<Longrightarrow> wait_while_paused pause evs = None"
  by (induction evs) (auto simp: wait_skips simp del: wait_while_paused.simps(2))

text \<open>A paused stream waits until the first event that ends the wait and no longer: it returns then,
  reporting cancellation exactly when that event was a cancellation or the loss of the canceller,
  and otherwise not paused any more (a dropped pause sender counts as a resume, so no spin); with
  no such event it keeps waiting.\<close>

theorem wait_while_paused_wakes:
  assumes "is_paused pause"
  shows "case dropWhile (\<lambda>e. \<not> ends_wait e) evs of
      [] \<Rightarrow> wait_while_paused pause evs = None
    | e # post \<Rightarrow> (\<exists>pause'. wait_while_paused pause evs = Some (is_cancel e, pause', post) \<and> (is_cancel e \<or> \<not> is_paused pause'))"
proof (cases "dropWhile (\<lambda>e. \<not> ends_wait e) evs")
  case Nil
  then have "\<forall>e\<in>set evs. \<not> ends_wait e" by (simp add: dropWhile_eq_Nil_conv)
  then show ?thesis using wait_blocked [OF assms, of evs] unfolding Nil by simp
next
  case (Cons e post)
  define pre where "pre = takeWhile (\<lambda>e. \<not> ends_wait e) evs"
  have "evs = pre @ e # post" using takeWhile_dropWhile_id [of "\<lambda>e. \<not> ends_wait e" evs] Cons by (simp add: pre_def)
  moreover have "\<forall>e\<in>set pre. \<not> ends_wait e" by (auto simp: pre_def dest: set_takeWhileD)
  moreover have "ends_wait e" using hd_dropWhile [of "\<lambda>e. \<not> ends_wait e" evs] Cons by simp
  ultimately show ?thesis using wait_split [OF assms] Cons by auto
qed

theorem wait_while_paused_wakes_witness:
  "\<exists>pause'. wait_while_paused \<lparr>w_value = True, w_open = True\<rparr> [CancelChanged False, PauseClosed, CancelClosed]
     = Some (False, pause', [CancelClosed]) \<and> \<not> is_paused pause'"
  using wait_while_paused_wakes [of "\<lparr>w_value = True, w_open = True\<rparr>" "[CancelChanged False, PauseClosed, CancelClosed]"]
  by (simp add: is_paused_def channel_is_open_def)

end
