(* ===== verification/Udp_Send.thy ===== *)
theory Udp_Send
  imports Stats Pause Byte_Budget
begin

text \<open>
  The UDP send loops of \<open>src/udp.rs\<close>: the pacing schedule, the byte budget per datagram, and the paced
  and unlimited loops. What the loops observe of their environment (cancel and pause flags, clock
  readings, failed sends) are inputs, one record per datagram and one per iteration. A datagram
  socket sends all of a datagram or fails.
\<close>

section \<open>Pacing\<close>

definition MAX_PACING_TICKS_PER_SEC :: u64 where "MAX_PACING_TICKS_PER_SEC = 10000"
definition MAX_PACED_PACKETS_PER_TICK :: u64 where "MAX_PACED_PACKETS_PER_TICK = 1024"
definition UNLIMITED_BURST_PACKETS :: u64 where "UNLIMITED_BURST_PACKETS = 100"

record PacingSchedule =
  ps_interval :: u64
  ps_packets_per_tick :: u64

definition clamp :: "'a::len word \<Rightarrow> 'a word \<Rightarrow> 'a word \<Rightarrow> 'a word" where
  "clamp x lo hi = (if x < lo then lo else if hi < x then hi else x)"

text \<open>The interval is in nanoseconds.\<close>

definition pacing_schedule :: "u64 \<Rightarrow> usize \<Rightarrow> PacingSchedule" where
  "pacing_schedule target_bitrate packet_size =
     (let bits_per_packet = saturating_mul packet_size 8;
          bitrate_per_tick = saturating_mul bits_per_packet MAX_PACING_TICKS_PER_SEC;
          packets_per_tick = clamp (div_ceil target_bitrate bitrate_per_tick) 1 MAX_PACED_PACKETS_PER_TICK;
          interval_nanos = ucast (clamp (div_ceil (saturating_mul (saturating_mul (ucast packets_per_tick :: u128)
                                             (ucast bits_per_packet)) 1000000000) (ucast target_bitrate))
                                    1 (ucast (umax :: u64)))
      in \<lparr>ps_interval = interval_nanos, ps_packets_per_tick = packets_per_tick\<rparr>)"

section \<open>Errors near the deadline\<close>

definition SEND_TEARDOWN_GRACE :: duration where "SEND_TEARDOWN_GRACE = 250000000"

definition is_teardown_send_error :: "bool \<Rightarrow> bool \<Rightarrow> instant \<Rightarrow> instant \<Rightarrow> bool" where
  "is_teardown_send_error cancelled is_infinite now deadline =
     (cancelled \<or> (\<not> is_infinite \<and> deadline \<le> now + SEND_TEARDOWN_GRACE))"

section \<open>The loops\<close>

definition claim_datagram :: "ByteBudget option \<Rightarrow> usize \<Rightarrow> usize option \<times> ByteBudget option" where
  "claim_datagram budget packet_size =
     (let (n, budget') = claim_or_full budget packet_size
      in (if word_of_nat UDP_HEADER_SIZE \<le> n then (Some n, budget') else (None, budget')))"

record UdpSendStats =
  uss_packets_sent :: u64
  uss_bytes_sent :: u64

record send_state =
  sd_sequence :: u64
  sd_bytes_sent :: u64
  sd_budget_spent :: bool
  sd_budget :: "ByteBudget option"
  sd_stats :: StreamStats
  sd_packet :: bytes
  sd_deadline :: instant
  sd_wire :: "bytes list"

text \<open>What the loop observes around one datagram: the flags and the clock before it, the time since
  the start in microseconds, the error of the send if it failed, and flag and clock after it.\<close>

record packet_in =
  pi_cancelled :: bool
  pi_paused :: bool
  pi_now :: instant
  pi_now_us :: u64
  pi_error :: "string option"
  pi_cancelled_after :: bool
  pi_now_after :: instant

fun send_burst :: "usize \<Rightarrow> bool \<Rightarrow> packet_in list \<Rightarrow> send_state \<Rightarrow> send_state" where
  "send_burst packet_size is_infinite [] st = st"
| "send_burst packet_size is_infinite (i # is) st =
     (if pi_cancelled i \<or> pi_paused i then st
      else if \<not> is_infinite \<and> sd_deadline st \<le> pi_now i then st
      else (case claim_datagram (sd_budget st) packet_size of
              (None, budget') \<Rightarrow> st\<lparr>sd_budget := budget', sd_budget_spent := True\<rparr>
            | (Some send_len, budget') \<Rightarrow>
                (let packet = fst (UdpPacketHeader_encode
                                \<lparr>sequence = sd_sequence st, timestamp_us = pi_now_us i\<rparr> (sd_packet st));
                     st = st\<lparr>sd_budget := budget', sd_packet := packet\<rparr>
                 in case pi_error i of
                      None \<Rightarrow> send_burst packet_size is_infinite is
                        (st\<lparr>sd_stats := add_bytes_sent (sd_stats st) send_len,
                            sd_bytes_sent := sd_bytes_sent st + send_len,
                            sd_sequence := sd_sequence st + 1,
                            sd_wire := sd_wire st @ [take (unat send_len) packet]\<rparr>)
                    | Some e \<Rightarrow> send_burst packet_size is_infinite is
                        (st\<lparr>sd_stats := (if is_teardown_send_error (pi_cancelled_after i) is_infinite (pi_now_after i) (sd_deadline st)
                                         then sd_stats st else fst (record_udp_send_error (sd_stats st) e)),
                            sd_budget := refund_unwritten (sd_budget st) send_len 0\<rparr>))))"

text \<open>One iteration: cancelled at the top, a pause waited out (cancelled or not, and for how long), a
  cancel or pause change observed while waiting for the tick, or the tick with the burst's inputs.
  The unlimited loop has no tick: its burst follows the deadline check directly.\<close>

datatype iter_in = IterCancelled | IterPaused bool duration | IterCancelChanged bool | IterPauseChanged
  | IterBurst instant "packet_in list"

definition send_iter :: "usize \<Rightarrow> u64 \<Rightarrow> bool \<Rightarrow> iter_in \<Rightarrow> send_state \<Rightarrow> bool \<times> send_state" where
  "send_iter packet_size packets_per_tick is_infinite it st =
     (case it of
        IterCancelled \<Rightarrow> (True, st)
      | IterPaused cancelled paused \<Rightarrow> if cancelled then (True, st) else (False, st\<lparr>sd_deadline := sd_deadline st + paused\<rparr>)
      | IterCancelChanged stop \<Rightarrow> (stop, st)
      | IterPauseChanged \<Rightarrow> (False, st)
      | IterBurst now is \<Rightarrow>
          if \<not> is_infinite \<and> sd_deadline st \<le> now then (True, st)
          else (let st' = send_burst packet_size is_infinite (take (unat packets_per_tick) is) st
                in (sd_budget_spent st', st')))"

fun send_loop :: "usize \<Rightarrow> u64 \<Rightarrow> bool \<Rightarrow> iter_in list \<Rightarrow> send_state \<Rightarrow> bool \<times> send_state" where
  "send_loop packet_size ppt is_infinite [] st = (False, st)"
| "send_loop packet_size ppt is_infinite (it # its) st =
     (let (brk, st') = send_iter packet_size ppt is_infinite it st
      in if brk then (True, st') else send_loop packet_size ppt is_infinite its st')"

definition send_init :: "ByteBudget option \<Rightarrow> StreamStats \<Rightarrow> bytes \<Rightarrow> instant \<Rightarrow> duration \<Rightarrow> send_state" where
  "send_init budget stats packet start dur = \<lparr>sd_sequence = 0, sd_bytes_sent = 0, sd_budget_spent = False,
     sd_budget = budget, sd_stats = stats, sd_packet = packet, sd_deadline = start + dur, sd_wire = []\<rparr>"

text \<open>The whole send: \<open>packet\<close> is the buffer (zeros, or a random payload behind the header) and the
  first component says whether the loop has ended within the iterations given.\<close>

definition send_udp_unlimited ::
  "usize \<Rightarrow> duration \<Rightarrow> StreamStats \<Rightarrow> ByteBudget option \<Rightarrow> bytes \<Rightarrow> instant \<Rightarrow> iter_in list \<Rightarrow> bool \<times> send_state" where
  "send_udp_unlimited packet_size dur stats budget packet start its =
     send_loop packet_size UNLIMITED_BURST_PACKETS (dur = 0) its (send_init budget stats packet start dur)"

definition send_udp_paced ::
  "u64 \<Rightarrow> usize \<Rightarrow> duration \<Rightarrow> StreamStats \<Rightarrow> ByteBudget option \<Rightarrow> bytes \<Rightarrow> instant \<Rightarrow> iter_in list
     \<Rightarrow> udp_error + bool \<times> send_state" where
  "send_udp_paced target_bitrate packet_size dur stats budget packet start its =
     (case validate_payload_size (unat packet_size) of
        Err e \<Rightarrow> Err e
      | Ok _ \<Rightarrow>
          if target_bitrate = 0 then Ok (send_udp_unlimited packet_size dur stats budget packet start its)
          else Ok (send_loop packet_size (ps_packets_per_tick (pacing_schedule target_bitrate packet_size)) (dur = 0) its
                     (send_init budget stats packet start dur)))"

definition send_result :: "send_state \<Rightarrow> UdpSendStats" where
  "send_result st = \<lparr>uss_packets_sent = sd_sequence st, uss_bytes_sent = sd_bytes_sent st\<rparr>"

end
