(* ===== verification/Udp_Receive.thy ===== *)
theory Udp_Receive
  imports Udp_Send Packet_Tracker
begin

text \<open>
  The UDP receivers of \<open>src/udp.rs\<close>: jitter, the receive loop with its tail drain, the feedback packets it
  emits and the client task that stores them, and the single-port handshake on both sides. The
  events that a loop's \<open>select\<close> observes are its input, in order, with the clock readings they carry;
  the datagrams a loop sends are part of its result.
\<close>

section \<open>Jitter\<close>

record JitterCalculator =
  jc_last_send_time :: "u64 option"
  jc_last_recv_time :: "instant option"
  jc_jitter :: f64
  jc_jitter_max :: f64

definition JitterCalculator_new :: JitterCalculator where
  "JitterCalculator_new = \<lparr>jc_last_send_time = None, jc_last_recv_time = None, jc_jitter = 0, jc_jitter_max = 0\<rparr>"

text \<open>Microseconds of the saturating difference of two instants, and the deviation D of RFC 3550.\<close>

definition jitter_deviation :: "u64 \<Rightarrow> instant \<Rightarrow> u64 \<Rightarrow> instant \<Rightarrow> int" where
  "jitter_deviation last_send last_recv send_time_us recv_time =
     (let recv_diff = int ((recv_time - last_recv) div 1000);
          send_diff = uint send_time_us - uint last_send
      in \<bar>recv_diff - send_diff\<bar>)"

definition jitter_update :: "JitterCalculator \<Rightarrow> u64 \<Rightarrow> instant \<Rightarrow> JitterCalculator \<times> f64" where
  "jitter_update c send_time_us recv_time =
     (let c = (case (jc_last_send_time c, jc_last_recv_time c) of
                 (Some last_send, Some last_recv) \<Rightarrow>
                   (let d = real_of_int (jitter_deviation last_send last_recv send_time_us recv_time);
                        j = jc_jitter c + (d - jc_jitter c) / 16
                    in c\<lparr>jc_jitter := j, jc_jitter_max := (if jc_jitter_max c < j then j else jc_jitter_max c)\<rparr>)
               | _ \<Rightarrow> c);
          c = c\<lparr>jc_last_send_time := Some send_time_us, jc_last_recv_time := Some recv_time\<rparr>
      in (c, jc_jitter c))"

definition jitter_ms :: "JitterCalculator \<Rightarrow> f64" where "jitter_ms c = jc_jitter c / 1000"
definition jitter_max_ms :: "JitterCalculator \<Rightarrow> f64" where "jitter_max_ms c = jc_jitter_max c / 1000"

text \<open>\<open>as u64\<close> of a float: truncation, saturating at both ends.\<close>

definition f64_as_u64 :: "f64 \<Rightarrow> u64" where
  "f64_as_u64 x = (if x \<le> 0 then 0 else if 2 ^ 64 \<le> x then umax else word_of_int \<lfloor>x\<rfloor>)"

section \<open>The receive loop\<close>

definition UDP_INACTIVITY_TIMEOUT :: duration where "UDP_INACTIVITY_TIMEOUT = 30000000000"
definition UDP_TAIL_DRAIN :: duration where "UDP_TAIL_DRAIN = 200000000"

type_synonym sock_addr = nat

record rx_state =
  rx_stats :: StreamStats
  rx_tracker :: PacketTracker
  rx_jitter :: JitterCalculator
  rx_packet_size :: "u32 option"
  rx_last_recv :: instant
  rx_last_client_addr :: "sock_addr option"
  rx_pause_channel_open :: bool
  rx_sent :: "bytes list"

definition record_accepted_packet :: "rx_state \<Rightarrow> u64 \<Rightarrow> instant \<Rightarrow> rx_state" where
  "record_accepted_packet r timestamp recv_time =
     (let stats = set_udp_progress (rx_stats r) (pt_received (rx_tracker r)) (pt_lost (rx_tracker r));
          (jc, jitter_us) = jitter_update (rx_jitter r) timestamp recv_time
      in r\<lparr>rx_stats := set_udp_jitter_us stats (f64_as_u64 jitter_us), rx_jitter := jc\<rparr>)"

definition grow_packet_size :: "u32 option \<Rightarrow> nat \<Rightarrow> u32 option" where
  "grow_packet_size cur n = Some (max (case cur of None \<Rightarrow> 0 | Some k \<Rightarrow> k) (word_of_nat n))"

definition is_feedback_datagram :: "bytes \<Rightarrow> bool" where
  "is_feedback_datagram d = (length d = UDP_FEEDBACK_SIZE \<and> subslice 0 4 d = UDP_FEEDBACK_MAGIC)"

definition is_hello_datagram :: "bytes \<Rightarrow> bool" where
  "is_hello_datagram d = (length d = UDP_HELLO_SIZE \<and> subslice 0 4 d = UDP_HELLO_MAGIC)"

text \<open>One datagram received from \<open>addr\<close>; a re-acknowledged hello adds to what the socket sends.\<close>

definition receive_datagram :: "bytes option \<Rightarrow> rx_state \<Rightarrow> bytes \<Rightarrow> sock_addr \<Rightarrow> instant \<Rightarrow> rx_state" where
  "receive_datagram single_port_ack r d addr recv_time =
     (let r = r\<lparr>rx_last_recv := recv_time, rx_last_client_addr := Some addr\<rparr>
      in if is_feedback_datagram d then r
         else if is_hello_datagram d
         then (case (single_port_ack, UdpHelloPacket_decode d) of
                 (Some ack, Some pkt) \<Rightarrow> if hello_kind pkt = UDP_HELLO_KIND_HELLO then r\<lparr>rx_sent := rx_sent r @ [ack]\<rparr> else r
               | _ \<Rightarrow> r)
         else (let r = r\<lparr>rx_stats := add_bytes_received (rx_stats r) (word_of_nat (length d))\<rparr>
               in case UdpPacketHeader_decode d of
                    None \<Rightarrow> r
                  | Some header \<Rightarrow>
                      (let r = r\<lparr>rx_packet_size := grow_packet_size (rx_packet_size r) (length d)\<rparr>;
                           (t, accepted) = record_unique (rx_tracker r) (sequence header);
                           r = r\<lparr>rx_tracker := t\<rparr>
                       in if \<not> accepted then r
                          else record_accepted_packet r (timestamp_us header) recv_time)))"

text \<open>The feedback packet the 2 Hz timer sends once a peer is known and a packet was accepted.\<close>

definition feedback_packet :: "rx_state \<Rightarrow> u64 \<Rightarrow> UdpFeedbackPacket" where
  "feedback_packet r elapsed_ms =
     (let snap = udp_progress_snapshot (rx_stats r)
      in \<lparr>fb_stream_id = ucast (st_stream_id (rx_stats r)), fb_elapsed_ms = elapsed_ms,
          fb_packets_received = up_packets_received snap, fb_packets_lost = up_packets_lost snap\<rparr>)"

definition emit_feedback :: "rx_state \<Rightarrow> u64 \<Rightarrow> rx_state" where
  "emit_feedback r elapsed_ms =
     (if rx_last_client_addr r \<noteq> None \<and> 0 < pt_received (rx_tracker r)
      then (let (buf, ok) = UdpFeedbackPacket_encode (feedback_packet r elapsed_ms) (replicate UDP_FEEDBACK_SIZE 0)
            in if ok then r\<lparr>rx_sent := rx_sent r @ [buf]\<rparr> else r)
      else r)"

datatype recv_event =
    CancelledAtTop
  | PausedWait bool instant bool
  | Datagram bytes sock_addr instant
  | RecvFailed
  | CancelSeen bool
  | PauseSeen bool
  | InactivityWake instant
  | FeedbackTick u64

text \<open>\<open>CancelledAtTop\<close> is the flag found set at the top of the loop; \<open>PausedWait\<close> a pause waited out
  (cancelled or not, the time it ended and whether the channel is still open). The flag of
  \<open>CancelSeen\<close> says whether the change ends the loop, that of \<open>PauseSeen\<close> whether the channel closed.\<close>

definition receive_step :: "bytes option \<Rightarrow> recv_event \<Rightarrow> rx_state \<Rightarrow> bool \<times> rx_state" where
  "receive_step single_port_ack e r =
     (case e of
        CancelledAtTop \<Rightarrow> (True, r)
      | PausedWait cancelled now open_after \<Rightarrow>
          if cancelled then (True, r) else (False, r\<lparr>rx_last_recv := now, rx_pause_channel_open := open_after\<rparr>)
      | Datagram d addr recv_time \<Rightarrow> (False, receive_datagram single_port_ack r d addr recv_time)
      | RecvFailed \<Rightarrow> (False, r)
      | CancelSeen stop \<Rightarrow> (stop, r)
      | PauseSeen lost_sender \<Rightarrow> (False, if lost_sender then r\<lparr>rx_pause_channel_open := False\<rparr> else r)
      | InactivityWake now \<Rightarrow> (UDP_INACTIVITY_TIMEOUT \<le> now - rx_last_recv r, r)
      | FeedbackTick elapsed_ms \<Rightarrow> (False, emit_feedback r elapsed_ms))"

fun receive_loop :: "bytes option \<Rightarrow> recv_event list \<Rightarrow> rx_state \<Rightarrow> bool \<times> rx_state" where
  "receive_loop ack [] r = (False, r)"
| "receive_loop ack (e # es) r =
     (let (brk, r') = receive_step ack e r in if brk then (True, r') else receive_loop ack es r')"

text \<open>The tail drain: while packets are missing, the datagrams that arrive within the window, each with
  its time (a failed receive is \<open>None\<close>).\<close>

definition drain_datagram :: "rx_state \<Rightarrow> bytes \<Rightarrow> instant \<Rightarrow> rx_state" where
  "drain_datagram r d now =
     (case UdpPacketHeader_decode d of
        None \<Rightarrow> r
      | Some header \<Rightarrow>
          (let (t, accepted) = record_straggler (rx_tracker r) (sequence header);
               r = r\<lparr>rx_tracker := t\<rparr>
           in if accepted
              then record_accepted_packet
                     (r\<lparr>rx_stats := add_bytes_received (rx_stats r) (word_of_nat (length d)),
                        rx_packet_size := grow_packet_size (rx_packet_size r) (length d)\<rparr>)
                     (timestamp_us header) now
              else r))"

fun drain_loop :: "(bytes option \<times> instant) list \<Rightarrow> rx_state \<Rightarrow> rx_state" where
  "drain_loop [] r = r"
| "drain_loop ((d, now) # ds) r =
     (if 0 < pt_lost (rx_tracker r)
      then drain_loop ds (case d of None \<Rightarrow> r | Some b \<Rightarrow> drain_datagram r b now)
      else r)"

definition receive_result :: "rx_state \<Rightarrow> UdpStats" where
  "receive_result r =
     (let packets_received = pt_received (rx_tracker r);
          (lost, ooo, _) = PacketTracker_stats (rx_tracker r) (saturating_add packets_received (pt_lost (rx_tracker r)));
          packets_sent = saturating_add packets_received lost;
          loss_percent = (if 0 < packets_sent then u64_as_f64 lost / u64_as_f64 packets_sent * 100 else 0)
      in \<lparr>us_packets_sent = packets_sent, us_packets_received = packets_received, us_lost = lost,
          us_lost_percent = loss_percent, us_jitter_ms = jitter_ms (rx_jitter r), us_out_of_order = ooo,
          us_jitter_max_ms = Some (jitter_max_ms (rx_jitter r)), us_packet_size = rx_packet_size r\<rparr>)"

definition receive_init :: "StreamStats \<Rightarrow> instant \<Rightarrow> bool \<Rightarrow> rx_state" where
  "receive_init stats now pause_open = \<lparr>rx_stats = stats, rx_tracker = PacketTracker_new, rx_jitter = JitterCalculator_new,
     rx_packet_size = None, rx_last_recv = now, rx_last_client_addr = None, rx_pause_channel_open = pause_open, rx_sent = []\<rparr>"

definition receive_udp ::
  "bytes option \<Rightarrow> StreamStats \<Rightarrow> instant \<Rightarrow> bool \<Rightarrow> recv_event list \<Rightarrow> (bytes option \<times> instant) list \<Rightarrow> rx_state \<times> UdpStats" where
  "receive_udp single_port_ack stats now pause_open es drained =
     (let (ended, r) = receive_loop single_port_ack es (receive_init stats now pause_open);
          r = drain_loop drained r
      in (r, receive_result r))"

section \<open>Feedback at the client\<close>

definition store_udp_feedback ::
  "UdpIntervalProgress list \<Rightarrow> nat \<Rightarrow> UdpFeedbackPacket \<Rightarrow> UdpIntervalProgress list \<times> bool" where
  "store_udp_feedback slots expected packet =
     (if unat (fb_stream_id packet) \<noteq> expected then (slots, False)
      else if expected < length slots
      then (let nxt = to_progress packet
            in if \<not> is_at_least_as_fresh_as nxt (slots ! expected) then (slots, False)
               else (slots[expected := nxt], True))
      else (slots, False))"

text \<open>One datagram at the feedback receiver, before or in the drain after the cancellation.\<close>

definition feedback_datagram :: "nat \<Rightarrow> UdpIntervalProgress list \<Rightarrow> bytes \<Rightarrow> UdpIntervalProgress list" where
  "feedback_datagram stream_index slots d =
     (if length d \<noteq> UDP_FEEDBACK_SIZE then slots
      else (case UdpFeedbackPacket_decode d of
              None \<Rightarrow> slots
            | Some pkt \<Rightarrow> fst (store_udp_feedback slots stream_index pkt)))"

definition receive_udp_feedback_only :: "nat \<Rightarrow> UdpIntervalProgress list \<Rightarrow> bytes list \<Rightarrow> UdpIntervalProgress list" where
  "receive_udp_feedback_only stream_index slots ds = foldl (feedback_datagram stream_index) slots ds"

section \<open>Single-port handshake\<close>

definition UDP_HELLO_MAX_ATTEMPTS :: nat where "UDP_HELLO_MAX_ATTEMPTS = 50"

datatype handshake_error = HandshakeIo | HandshakeTimeout

text \<open>What one attempt sees after its hello: the datagrams at the head of the queue until the retry
  time (an I/O error is \<open>None\<close>). The result says whether the handshake is done and what is left queued.\<close>

fun handshake_attempt :: "bytes \<Rightarrow> u16 \<Rightarrow> bytes option list \<Rightarrow> handshake_error + bool \<times> bytes option list" where
  "handshake_attempt token stream_index [] = Ok (False, [])"
| "handshake_attempt token stream_index (None # ds) = Err HandshakeIo"
| "handshake_attempt token stream_index (Some d # ds) =
     (if is_hello_datagram d
      then (if (case UdpHelloPacket_decode d of
                  Some pkt \<Rightarrow> hello_kind pkt = UDP_HELLO_KIND_ACK \<and> hello_token pkt = token \<and> hello_stream_index pkt = stream_index
                | None \<Rightarrow> False)
            then Ok (True, ds) else handshake_attempt token stream_index ds)
      else Ok (True, Some d # ds))"

text \<open>The attempts: for each, whether the send of the hello failed and what arrived before the retry.\<close>

fun handshake_loop :: "bytes \<Rightarrow> u16 \<Rightarrow> nat \<Rightarrow> (bool \<times> bytes option list) list \<Rightarrow> handshake_error + bytes option list" where
  "handshake_loop token stream_index 0 net = Err HandshakeTimeout"
| "handshake_loop token stream_index (Suc k) [] = handshake_loop token stream_index k []"
| "handshake_loop token stream_index (Suc k) ((send_fails, arrived) # net) =
     (if send_fails then Err HandshakeIo
      else (case handshake_attempt token stream_index arrived of
              Err e \<Rightarrow> Err e
            | Ok (True, rest) \<Rightarrow> Ok rest
            | Ok (False, _) \<Rightarrow> handshake_loop token stream_index k net))"

definition single_port_udp_handshake :: "bytes \<Rightarrow> u16 \<Rightarrow> (bool \<times> bytes option list) list \<Rightarrow> handshake_error + bytes option list" where
  "single_port_udp_handshake token stream_index net =
     handshake_loop token stream_index UDP_HELLO_MAX_ATTEMPTS net"

definition handshake_hello :: "bytes \<Rightarrow> u16 \<Rightarrow> bytes" where
  "handshake_hello token stream_index =
     UdpHelloPacket_encode \<lparr>hello_kind = UDP_HELLO_KIND_HELLO, hello_stream_index = stream_index, hello_token = token\<rparr>"

text \<open>The server's responder: the datagrams it sends for those it receives.\<close>

definition respond_single_port_hellos :: "bytes \<Rightarrow> bytes list \<Rightarrow> bytes list" where
  "respond_single_port_hellos ack ds =
     concat (map (\<lambda>d. case UdpHelloPacket_decode d of
                        Some pkt \<Rightarrow> if hello_kind pkt = UDP_HELLO_KIND_HELLO then [ack] else []
                      | None \<Rightarrow> []) ds)"

text \<open>\<open>wait_for_client\<close>: the address of the first datagram, unless the receive fails or times out.\<close>

datatype first_recv = FirstDatagram sock_addr | FirstError | FirstTimeout
datatype wait_error = WaitRecvFailed | WaitTimeout

definition wait_for_client :: "first_recv \<Rightarrow> wait_error + sock_addr" where
  "wait_for_client e =
     (case e of FirstDatagram a \<Rightarrow> Ok a | FirstError \<Rightarrow> Err WaitRecvFailed | FirstTimeout \<Rightarrow> Err WaitTimeout)"

end
