(* ===== verification/Udp_Send_Correct.thy ===== *)
theory Udp_Send_Correct
  imports Udp_Send
begin

text \<open>
  Correctness of UDP sending: the pacing schedule is never faster than the requested rate, within a
  nanosecond of it, and bounded in wake-ups and batch size; every datagram on the wire carries the
  next sequence number; and a byte budget is spent to within one header.
\<close>

section \<open>Pacing\<close>

lemma unat_clamp: "unat (clamp x lo hi) = (if unat x < unat lo then unat lo else if unat hi < unat x then unat hi else unat x)"
  by (simp add: clamp_def word_less_nat_alt)

lemma unat_ucast_128: "unat (ucast (x :: u64) :: u128) = unat x"
proof -
  have "unat x < 2 ^ 128" using unat_lt_pow [of x] by simp
  then show ?thesis by (simp add: unsigned_ucast_eq take_bit_eq_mod)
qed

definition pps :: "nat \<Rightarrow> nat \<Rightarrow> nat" where
  "pps rate bits = (let c = (rate + bits * 10000 - 1) div (bits * 10000) in if c < 1 then 1 else if 1024 < c then 1024 else c)"

definition pace_ns :: "nat \<Rightarrow> nat \<Rightarrow> nat" where
  "pace_ns rate bits = (pps rate bits * bits * 1000000000 + rate - 1) div rate"

lemma pps_range: "1 \<le> pps rate bits" "pps rate bits \<le> 1024"
  by (simp_all add: pps_def Let_def)

lemma pace_ns_bounds:
  assumes "0 < rate" "0 < bits"
  shows "pps rate bits * bits * 1000000000 \<le> pace_ns rate bits * rate"
    "pace_ns rate bits * rate < pps rate bits * bits * 1000000000 + rate"
proof -
  define n where "n = pps rate bits * bits * 1000000000"
  have n: "0 < n" using assms pps_range(1) [of rate bits] by (simp add: n_def)
  have "(n + rate - 1) div rate * rate + (n + rate - 1) mod rate = n + rate - 1" by simp
  moreover have "(n + rate - 1) mod rate < rate" using assms by simp
  ultimately show "n \<le> pace_ns rate bits * rate" "pace_ns rate bits * rate < n + rate"
    unfolding pace_ns_def n_def [symmetric] using n assms by linarith+
qed

lemma pace_ns_wakeups:
  assumes "0 < rate" "0 < bits" "rate \<le> bits * 10000 * 1024"
  shows "100000 \<le> pace_ns rate bits"
proof -
  define c where "c = (rate + bits * 10000 - 1) div (bits * 10000)"
  have d: "0 < bits * 10000" using assms by simp
  have "c * (bits * 10000) + (rate + bits * 10000 - 1) mod (bits * 10000) = rate + bits * 10000 - 1"
    unfolding c_def by (rule div_mult_mod_eq)
  moreover have "(rate + bits * 10000 - 1) mod (bits * 10000) < bits * 10000" using d by simp
  ultimately have c: "rate \<le> c * (bits * 10000)" by linarith
  have "c \<le> 1024"
  proof -
    have "rate + bits * 10000 - 1 < 1025 * (bits * 10000)" using assms(3) d by linarith
    then have "c < 1025" unfolding c_def by (rule less_mult_imp_div_less)
    then show ?thesis by simp
  qed
  moreover have "1 \<le> c" using c assms(1) by (cases c) auto
  ultimately have "pps rate bits = c" unfolding pps_def Let_def c_def [symmetric] by simp
  then have "c * bits * 1000000000 \<le> pace_ns rate bits * rate" using pace_ns_bounds(1) [OF assms(1,2)] by simp
  moreover have "rate * 100000 \<le> c * bits * 1000000000" using c by (simp add: mult.commute mult.left_commute)
  ultimately have "rate * 100000 \<le> pace_ns rate bits * rate" by linarith
  then show ?thesis using assms(1) by (simp add: mult.commute)
qed

lemma pacing_schedule_eq:
  assumes "target \<noteq> 0" "0 < unat sz" "unat sz \<le> 65507"
  shows "unat (ps_packets_per_tick (pacing_schedule target sz)) = pps (unat target) (8 * unat sz)"
    and "unat (ps_interval (pacing_schedule target sz)) = pace_ns (unat target) (8 * unat sz)"
proof -
  define bits where "bits = saturating_mul sz 8"
  have bits: "unat bits = 8 * unat sz"
    using assms(3) by (simp add: bits_def unat_saturating_mul)
  define per where "per = saturating_mul bits MAX_PACING_TICKS_PER_SEC"
  have per: "unat per = 8 * unat sz * 10000"
    using assms(3) by (simp add: per_def unat_saturating_mul bits MAX_PACING_TICKS_PER_SEC_def)
  have per0: "per \<noteq> 0" using per assms(2) by (auto simp: word_unat_eq_iff)
  define p where "p = clamp (div_ceil target per) 1 MAX_PACED_PACKETS_PER_TICK"
  have p: "unat p = pps (unat target) (8 * unat sz)"
    by (simp add: p_def unat_clamp unat_div_ceil [OF per0] per pps_def Let_def MAX_PACED_PACKETS_PER_TICK_def mult.commute)
  have p_le: "unat p \<le> 1024" using p pps_range by simp
  define num where "num = saturating_mul (saturating_mul (ucast p :: u128) (ucast bits)) 1000000000"
  have pb: "unat p * (8 * unat sz) \<le> 1024 * (8 * 65507)" using p_le assms(3) by (intro mult_le_mono) auto
  have inner: "unat (saturating_mul (ucast p :: u128) (ucast bits)) = unat p * (8 * unat sz)"
    using pb by (simp add: unat_saturating_mul unat_ucast_128 bits)
  have num: "unat num = unat p * (8 * unat sz) * 1000000000"
    using pb by (simp add: num_def unat_saturating_mul [of "saturating_mul _ _"] inner)
  have t0: "(ucast target :: u128) \<noteq> 0"
    using assms(1) by (metis unat_eq_zero unat_ucast_128 word_unat_eq_iff unat_0)
  define q where "q = div_ceil num (ucast target :: u128)"
  have q: "unat q = pace_ns (unat target) (8 * unat sz)"
    by (simp add: q_def unat_div_ceil [OF t0] unat_ucast_128 num p pace_ns_def mult.assoc)
  have t: "0 < unat target" using assms(1) by (simp add: unat_gt_0)
  have q_pos: "1 \<le> unat q"
  proof (rule ccontr)
    assume "\<not> 1 \<le> unat q"
    then have "pace_ns (unat target) (8 * unat sz) = 0" using q by simp
    then have "pps (unat target) (8 * unat sz) * (8 * unat sz) * 1000000000 \<le> 0"
      using pace_ns_bounds(1) [OF t, of "8 * unat sz"] assms(2) by (metis mult_0 nat_0_less_mult_iff zero_less_numeral)
    then show False using pps_range(1) [of "unat target" "8 * unat sz"] assms(2) by simp
  qed
  have q_le: "unat q \<le> 2 ^ 64 - 1"
  proof -
    have "unat q * unat target < unat p * (8 * unat sz) * 1000000000 + unat target"
      using pace_ns_bounds(2) [OF t, of "8 * unat sz"] assms(2) q p by simp
    then have "(unat q - 1) * unat target < unat p * (8 * unat sz) * 1000000000"
    proof -
      have "unat target \<le> unat q * unat target" using q_pos by (cases "unat q") auto
      then show ?thesis
        using \<open>unat q * unat target < unat p * (8 * unat sz) * 1000000000 + unat target\<close>
        by (simp only: diff_mult_distrib)
    qed
    moreover have "unat q - 1 \<le> (unat q - 1) * unat target" using t by simp
    ultimately have "unat q \<le> unat p * (8 * unat sz) * 1000000000" by linarith
    then show ?thesis using pb by simp
  qed
  have sched: "pacing_schedule target sz = \<lparr>ps_interval = ucast (clamp q 1 (ucast (umax :: u64))), ps_packets_per_tick = p\<rparr>"
    by (simp add: pacing_schedule_def Let_def bits_def per_def p_def num_def q_def)
  have cl: "unat (clamp q 1 (ucast (umax :: u64) :: u128)) = unat q"
    using q_pos q_le by (simp add: unat_clamp unat_ucast_128)
  then have "unat (ucast (clamp q 1 (ucast (umax :: u64) :: u128)) :: u64) = unat q"
    using q_le by (simp add: unsigned_ucast_eq take_bit_eq_mod)
  then show "unat (ps_packets_per_tick (pacing_schedule target sz)) = pps (unat target) (8 * unat sz)"
    "unat (ps_interval (pacing_schedule target sz)) = pace_ns (unat target) (8 * unat sz)"
    using sched p q by simp_all
qed

section \<open>Datagrams and budget\<close>

lemma claim_datagram_None: "claim_datagram None sz = (if 16 \<le> unat sz then (Some sz, None) else (None, None))"
  by (simp add: claim_datagram_def claim_or_full_def UDP_HEADER_SIZE_def word_le_nat_alt)

lemma claim_datagram_budget:
  "claim_datagram (Some b) sz = (Some n, bo) \<Longrightarrow>
     \<exists>b'. bo = Some b' \<and> n \<le> sz \<and> 16 \<le> unat n \<and> unat (remaining b') + unat n = unat (remaining b)"
  "claim_datagram (Some b) sz = (None, bo) \<Longrightarrow> 16 \<le> unat sz \<Longrightarrow>
     \<exists>b'. bo = Some b' \<and> unat (remaining b') = 0 \<and> unat (remaining b) < 16"
proof -
  obtain g b' where c: "claim b sz = (g, b')" by fastforce
  have cd: "claim_datagram (Some b) sz = (if 16 \<le> unat g then Some g else None, Some b')"
    by (simp add: claim_datagram_def claim_or_full_def c UDP_HEADER_SIZE_def word_le_nat_alt)
  note lv = budget.take_level [OF c] and le = budget.take_le [OF c] and g = claim_cases [OF c]
  show "claim_datagram (Some b) sz = (Some n, bo) \<Longrightarrow>
     \<exists>b'. bo = Some b' \<and> n \<le> sz \<and> 16 \<le> unat n \<and> unat (remaining b') + unat n = unat (remaining b)"
    unfolding cd using lv le by (auto split: if_splits)
  show "\<exists>b'. bo = Some b' \<and> unat (remaining b') = 0 \<and> unat (remaining b) < 16"
    if "claim_datagram (Some b) sz = (None, bo)" "16 \<le> unat sz"
  proof -
    have b: "bo = Some b'" "unat g < 16" using that(1) unfolding cd by (auto split: if_splits)
    then have "g = remaining b" using g that(2) by (auto simp: min_def word_le_nat_alt split: if_splits)
    then show ?thesis using b lv by simp
  qed
qed

definition wire_ok :: "nat \<Rightarrow> bytes list \<Rightarrow> bool" where
  "wire_ok sz wire \<longleftrightarrow> (\<forall>i<length wire. 16 \<le> length (wire ! i) \<and> length (wire ! i) \<le> sz
     \<and> map_option sequence (UdpPacketHeader_decode (wire ! i)) = Some (word_of_nat i))"

lemma wire_ok_snoc:
  "wire_ok sz wire \<Longrightarrow> 16 \<le> length d \<Longrightarrow> length d \<le> sz
     \<Longrightarrow> map_option sequence (UdpPacketHeader_decode d) = Some (word_of_nat (length wire)) \<Longrightarrow> wire_ok sz (wire @ [d])"
  by (auto simp: wire_ok_def nth_append less_Suc_eq)

lemma datagram_header:
  assumes "16 \<le> n" "n \<le> length packet"
  shows "map_option sequence (UdpPacketHeader_decode (take n (fst (UdpPacketHeader_encode h packet)))) = Some (sequence h)"
    "length (take n (fst (UdpPacketHeader_encode h packet))) = n"
    "length (fst (UdpPacketHeader_encode h packet)) = length packet"
  using assms by (simp_all add: header_encode_layout UdpPacketHeader_decode_def udp_wire_consts)

text \<open>What has been sent is on the wire with consecutive sequence numbers, and the budget accounts for
  every byte; once the budget is spent, what was left for this stream did not fit a header.\<close>

definition wire_bytes :: "send_state \<Rightarrow> nat" where
  "wire_bytes st = sum_list (map length (sd_wire st))"

definition send_inv :: "nat option \<Rightarrow> nat \<Rightarrow> send_state \<Rightarrow> bool" where
  "send_inv N sz st \<longleftrightarrow> length (sd_packet st) = sz \<and> sd_sequence st = word_of_nat (length (sd_wire st))
     \<and> wire_ok sz (sd_wire st) \<and> sd_bytes_sent st = word_of_nat (wire_bytes st)
     \<and> (case (N, sd_budget st) of
          (None, None) \<Rightarrow> \<not> sd_budget_spent st
        | (Some n, Some b) \<Rightarrow> (if sd_budget_spent st then wire_bytes st \<le> n \<and> n < wire_bytes st + 16
                               else unat (remaining b) + wire_bytes st = n)
        | _ \<Rightarrow> False)"

lemma send_inv_sent:
  assumes "send_inv N (unat sz) st" "16 \<le> unat sz" "\<not> sd_budget_spent st"
    "claim_datagram (sd_budget st) sz = (Some n, bo)"
    "packet = fst (UdpPacketHeader_encode \<lparr>sequence = sd_sequence st, timestamp_us = us\<rparr> (sd_packet st))"
  shows "send_inv N (unat sz) (st\<lparr>sd_budget := bo, sd_packet := packet, sd_stats := stats,
            sd_bytes_sent := sd_bytes_sent st + n, sd_sequence := sd_sequence st + 1,
            sd_wire := sd_wire st @ [take (unat n) packet]\<rparr>)"
proof -
  have lp: "length (sd_packet st) = unat sz" using assms(1) by (simp add: send_inv_def)
  have n: "16 \<le> unat n" "unat n \<le> unat sz"
  proof -
    have "16 \<le> unat n \<and> unat n \<le> unat sz"
      using assms(4) claim_datagram_budget(1) [of _ sz n bo]
      by (cases "sd_budget st") (auto simp: claim_datagram_None word_le_nat_alt split: if_splits)
    then show "16 \<le> unat n" "unat n \<le> unat sz" by auto
  qed
  note h = datagram_header [of "unat n" "sd_packet st" "\<lparr>sequence = sd_sequence st, timestamp_us = us\<rparr>", folded assms(5)]
  have sq: "sd_sequence st = word_of_nat (length (sd_wire st))" using assms(1) by (simp add: send_inv_def)
  have w: "wire_ok (unat sz) (sd_wire st @ [take (unat n) packet])"
    using assms(1) n lp h sq by (intro wire_ok_snoc) (simp_all add: send_inv_def)
  have lt: "length (take (unat n) packet) = unat n" using h(2) n lp by simp
  have bud: "case (N, bo) of (None, None) \<Rightarrow> True | (Some k, Some b) \<Rightarrow> unat (remaining b) + (wire_bytes st + unat n) = k | _ \<Rightarrow> False"
  proof (cases "sd_budget st")
    case None
    then show ?thesis using assms(1,4) by (cases N) (auto simp: send_inv_def claim_datagram_None split: if_splits)
  next
    case (Some b)
    obtain b' where "bo = Some b'" "unat (remaining b') + unat n = unat (remaining b)"
      using claim_datagram_budget(1) [of b sz n bo] assms(4) Some by auto
    with Some show ?thesis using assms(1,3) by (cases N) (auto simp: send_inv_def)
  qed
  show ?thesis
    using assms(1,3) w lt bud h(3) n lp
    by (auto simp: send_inv_def wire_bytes_def split: option.splits)
qed

lemma send_inv_failed:
  assumes "send_inv N (unat sz) st" "\<not> sd_budget_spent st" "claim_datagram (sd_budget st) sz = (Some n, bo)"
    "16 \<le> unat sz" "packet = fst (UdpPacketHeader_encode h (sd_packet st))"
  shows "send_inv N (unat sz) (st\<lparr>sd_packet := packet, sd_stats := stats, sd_budget := refund_unwritten bo n 0\<rparr>)"
proof -
  have lp: "length packet = length (sd_packet st)"
    using assms(1,4,5) datagram_header(3) [of 16 "sd_packet st"] by (simp add: send_inv_def)
  show ?thesis
  proof (cases "sd_budget st")
    case None
    then have "bo = None" using assms(3,4) by (simp add: claim_datagram_None)
    with None show ?thesis using assms(1,2) lp by (auto simp: send_inv_def wire_bytes_def refund_unwritten_def split: option.splits)
  next
    case (Some b)
    then obtain b' where b': "bo = Some b'" "unat (remaining b') + unat n = unat (remaining b)"
      using assms(3) claim_datagram_budget(1) [of b sz n bo] by auto
    have "saturating_sub n 0 = n" by (simp add: saturating_sub_def)
    moreover have "unat (remaining (refund b' n)) = unat (remaining b)"
      using budget.give_level [of b' n] b'(2) unat_lt_pow [of "remaining b"] by simp
    ultimately show ?thesis using Some assms(1,2) lp b'(1)
      by (auto simp: send_inv_def wire_bytes_def refund_unwritten_def split: option.splits)
  qed
qed

lemma send_inv_spent:
  assumes "send_inv N (unat sz) st" "\<not> sd_budget_spent st" "claim_datagram (sd_budget st) sz = (None, bo)" "16 \<le> unat sz"
  shows "send_inv N (unat sz) (st\<lparr>sd_budget := bo, sd_budget_spent := True\<rparr>)"
proof (cases "sd_budget st")
  case None
  then show ?thesis using assms(3,4) by (simp add: claim_datagram_None)
next
  case (Some b)
  then obtain b' where "bo = Some b'" "unat (remaining b) < 16" using claim_datagram_budget(2) assms(3,4) by metis
  with Some show ?thesis using assms(1,2) by (auto simp: send_inv_def wire_bytes_def split: option.splits)
qed

lemma send_burst_inv:
  assumes "send_inv N (unat sz) st" "16 \<le> unat sz" "\<not> sd_budget_spent st"
  shows "send_inv N (unat sz) (send_burst sz unl is st)"
  using assms
proof (induction "is" arbitrary: st)
  case Nil
  then show ?case by simp
next
  case (Cons i "is")
  obtain no bo where c: "claim_datagram (sd_budget st) sz = (no, bo)" by fastforce
  show ?case
  proof (cases no)
    case None
    then show ?thesis using Cons.prems c send_inv_spent [OF Cons.prems(1,3)] by simp
  next
    case (Some n)
    note c' = c [unfolded Some]
    show ?thesis
      using Cons.prems c' Cons.IH send_inv_sent [OF Cons.prems c' refl] send_inv_failed [OF Cons.prems(1,3) c' Cons.prems(2) refl]
        send_inv_failed [OF Cons.prems(1,3) c' Cons.prems(2) refl, where stats = "sd_stats st"]
      by (auto simp: Let_def split: option.split)
  qed
qed

lemma send_loop_inv:
  assumes "send_inv N (unat sz) st" "16 \<le> unat sz" "\<not> sd_budget_spent st"
  shows "send_inv N (unat sz) (snd (send_loop sz ppt unl its st))"
  using assms
proof (induction its arbitrary: st)
  case Nil
  then show ?case by simp
next
  case (Cons it its)
  have "send_inv N (unat sz) (st\<lparr>sd_deadline := d\<rparr>)" for d
    using Cons.prems(1) by (auto simp: send_inv_def wire_bytes_def split: option.splits if_splits)
  then show ?case
    using Cons send_burst_inv [OF Cons.prems, of unl] by (cases it) (auto simp: send_iter_def Let_def)
qed

lemma send_udp_paced_inv:
  assumes "send_udp_paced rate sz dur stats budget packet start its = Ok (ended, st)" "length packet = unat sz"
  shows "send_inv (map_option (\<lambda>b. unat (remaining b)) budget) (unat sz) st"
proof -
  have sz: "16 \<le> unat sz"
    using assms(1) by (auto simp: send_udp_paced_def validate_payload_size_def udp_wire_consts split: if_splits sum.splits)
  obtain ppt where st: "st = snd (send_loop sz ppt (dur = 0) its (send_init budget stats packet start dur))"
    using assms(1) by (auto simp: send_udp_paced_def send_udp_unlimited_def split: if_splits sum.splits) (metis snd_conv)+
  have "send_inv (map_option (\<lambda>b. unat (remaining b)) budget) (unat sz) (send_init budget stats packet start dur)"
    using assms(2) by (cases budget) (simp_all add: send_inv_def send_init_def wire_ok_def wire_bytes_def)
  then show ?thesis
    using st send_loop_inv [OF _ sz] by (auto simp: send_init_def)
qed

section \<open>Properties\<close>

definition sample_packet_in :: packet_in where
  "sample_packet_in = \<lparr>pi_cancelled = False, pi_paused = False, pi_now = 0, pi_now_us = 7, pi_error = None,
     pi_cancelled_after = False, pi_now_after = 0\<rparr>"

text \<open>For every bitrate and legal payload size the schedule sends at most the requested bits in each
  interval and is slower by less than one nanosecond per interval; a batch is 1 to 1024 datagrams,
  and up to the rate a full batch per tick can carry there are at most 10,000 ticks a second.\<close>

theorem pacing_never_faster:
  assumes "target \<noteq> 0" "validate_payload_size (unat sz) = Ok ()"
  shows "let p = pacing_schedule target sz; bits = unat (ps_packets_per_tick p) * (8 * unat sz); ns = unat (ps_interval p) in
    bits * 1000000000 \<le> ns * unat target \<and> ns * unat target < bits * 1000000000 + unat target
    \<and> 1 \<le> ps_packets_per_tick p \<and> ps_packets_per_tick p \<le> MAX_PACED_PACKETS_PER_TICK
    \<and> (unat target \<le> 8 * unat sz * 10000 * 1024 \<longrightarrow> 100000 \<le> ns)"
proof -
  have sz: "16 \<le> unat sz" "unat sz \<le> 65507"
    using assms(2) by (auto simp: validate_payload_size_def udp_wire_consts split: if_splits)
  have pos: "0 < unat target" "0 < 8 * unat sz" using assms(1) sz(1) by (simp add: unat_gt_0, linarith)
  note e = pacing_schedule_eq [OF assms(1) _ sz(2)]
  have s0: "0 < unat sz" using sz(1) by linarith
  show ?thesis
    unfolding Let_def word_le_nat_alt e [OF s0] MAX_PACED_PACKETS_PER_TICK_def
    using pace_ns_bounds [OF pos] pps_range [of "unat target" "8 * unat sz"] pace_ns_wakeups [OF pos] by simp
qed

theorem pacing_never_faster_witness:
  "let p = pacing_schedule 1000000000 1400 in
     unat (ps_packets_per_tick p) * (8 * 1400) * 1000000000 \<le> unat (ps_interval p) * 1000000000
     \<and> 100000 \<le> unat (ps_interval p)"
  using pacing_never_faster [of 1000000000 1400] by (simp add: validate_payload_size_def udp_wire_consts Let_def)

text \<open>C14: however the send loop is cancelled, paused, rescheduled or hit by send errors, the datagrams it
  put on the wire carry the sequence numbers 0, 1, 2, ... in order, each between a header and the
  payload size long, and the byte and packet counts it returns are those of the wire.\<close>

theorem send_udp_wire:
  assumes "send_udp_paced rate sz dur stats budget packet start its = Ok (ended, st)" "length packet = unat sz"
  shows "wire_ok (unat sz) (sd_wire st)
    \<and> uss_packets_sent (send_result st) = word_of_nat (length (sd_wire st))
    \<and> uss_bytes_sent (send_result st) = word_of_nat (sum_list (map length (sd_wire st)))"
  using send_udp_paced_inv [OF assms] by (auto simp: send_inv_def send_result_def wire_bytes_def)

theorem send_udp_wire_witness:
  "\<exists>ended st. send_udp_paced 0 16 0 (StreamStats_new 0 0) None (replicate 16 0) 0
      [IterBurst 0 [sample_packet_in]] = Ok (ended, st)
    \<and> wire_ok 16 (sd_wire st) \<and> length (sd_wire st) = 1"
proof -
  obtain ended st where r: "send_udp_paced 0 16 0 (StreamStats_new 0 0) None (replicate 16 0) 0
      [IterBurst 0 [sample_packet_in]] = Ok (ended, st)"
    by (cases "send_udp_unlimited 16 0 (StreamStats_new 0 0) None (replicate 16 0) 0 [IterBurst 0 [sample_packet_in]]")
      (simp add: send_udp_paced_def validate_payload_size_def udp_wire_consts)
  have "length (sd_wire st) = 1"
    using r by (auto simp: send_udp_paced_def validate_payload_size_def udp_wire_consts send_udp_unlimited_def
        send_iter_def send_init_def sample_packet_in_def claim_datagram_None UNLIMITED_BURST_PACKETS_def Let_def)
  with send_udp_wire [OF r] r show ?thesis by simp
qed

text \<open>A byte budget of N that the loop reports as spent put at most N and more than N - 16 bytes on
  the wire (only a leftover too small for a header is dropped), while an unspent budget still holds
  exactly the rest: failed sends cost nothing.\<close>

theorem send_udp_budget:
  assumes "send_udp_paced rate sz dur stats (Some b) packet start its = Ok (ended, st)" "length packet = unat sz"
  shows "\<exists>b'. sd_budget st = Some b' \<and>
    (if sd_budget_spent st
     then sum_list (map length (sd_wire st)) \<le> unat (remaining b) \<and> unat (remaining b) < sum_list (map length (sd_wire st)) + UDP_HEADER_SIZE
     else unat (remaining b') + sum_list (map length (sd_wire st)) = unat (remaining b))"
  using send_udp_paced_inv [OF assms] by (auto simp: send_inv_def wire_bytes_def udp_wire_consts split: option.splits if_splits)

theorem send_udp_budget_witness:
  "\<exists>ended st. send_udp_paced 0 16 0 (StreamStats_new 0 0) (Some (ByteBudget_new 20)) (replicate 16 0) 0
      [IterBurst 0 [sample_packet_in, sample_packet_in]] = Ok (ended, st)
    \<and> sum_list (map length (sd_wire st)) \<le> 20"
proof -
  obtain ended st where r: "send_udp_paced 0 16 0 (StreamStats_new 0 0) (Some (ByteBudget_new 20)) (replicate 16 0) 0
      [IterBurst 0 [sample_packet_in, sample_packet_in]] = Ok (ended, st)"
    by (cases "send_udp_unlimited 16 0 (StreamStats_new 0 0) (Some (ByteBudget_new 20)) (replicate 16 0) 0 [IterBurst 0 [sample_packet_in, sample_packet_in]]")
      (simp add: send_udp_paced_def validate_payload_size_def udp_wire_consts)
  from send_udp_budget [OF r] r show ?thesis by (auto simp: ByteBudget_new_def split: if_splits)
qed

end
