(* ===== verification/Udp_Receive_Correct.thy ===== *)
theory Udp_Receive_Correct
  imports Udp_Receive Tracker_Refinement Udp_Send_Correct
begin

text \<open>
  Correctness of UDP reception: the published progress only ever becomes fresher, so feedback stored by
  the client under loss, duplication and reordering converges to the freshest delivered; a run of
  the sender's datagrams is counted exactly end to end; jitter stays within the deviations observed;
  the handshake ends and leaves data queued.
\<close>

section \<open>Progress of the tracker\<close>

definition progress_of :: "PacketTracker \<Rightarrow> UdpIntervalProgress" where
  "progress_of t = \<lparr>up_packets_received = pt_received t, up_packets_lost = pt_lost t\<rparr>"

definition tracker_started :: "PacketTracker \<Rightarrow> bool" where
  "tracker_started t \<longleftrightarrow> (pt_highest_seen t = None \<longrightarrow> pt_received t = 0 \<and> pt_lost t = 0)"

lemma fresh_by_unat:
  "unat (up_packets_received b) \<le> unat (up_packets_received a)
    \<Longrightarrow> min (unat (up_packets_received b) + unat (up_packets_lost b)) (2 ^ 64 - 1)
        \<le> min (unat (up_packets_received a) + unat (up_packets_lost a)) (2 ^ 64 - 1)
    \<Longrightarrow> is_at_least_as_fresh_as a b"
  unfolding is_at_least_as_fresh_as_def word_le_nat_alt unat_saturating_add by simp

lemma record_tracked_counters:
  "unat (pt_received (fst (record_tracked t s))) \<in> {unat (pt_received t), min (unat (pt_received t) + 1) (2 ^ 64 - 1)}
   \<and> (pt_highest_seen t \<noteq> None \<longrightarrow>
        unat (pt_lost (fst (record_tracked t s))) \<ge> unat (pt_lost t)
        \<or> (unat (pt_lost (fst (record_tracked t s))) = unat (pt_lost t) - 1
           \<and> unat (pt_received (fst (record_tracked t s))) = min (unat (pt_received t) + 1) (2 ^ 64 - 1)))"
proof -
  have M: "unat (pt_lost t) \<le> 2 ^ 64 - 1" using unat_lt_pow [of "pt_lost t"] by simp
  show ?thesis
    using M by (auto simp: record_tracked_def Let_def unat_saturating_add unat_saturating_sub split: option.split)
qed

lemma record_tracked_fresh:
  assumes "tracker_started t"
  shows "is_at_least_as_fresh_as (progress_of (fst (record_tracked t s))) (progress_of t)
    \<and> tracker_started (fst (record_tracked t s))"
proof
  have r: "unat (pt_received t) \<le> 2 ^ 64 - 1" using unat_lt_pow [of "pt_received t"] by simp
  show "tracker_started (fst (record_tracked t s))"
    using assms by (auto simp: tracker_started_def record_tracked_def Let_def split: option.splits)
  show "is_at_least_as_fresh_as (progress_of (fst (record_tracked t s))) (progress_of t)"
  proof (cases "pt_highest_seen t")
    case None
    then have "unat (pt_received t) = 0" "unat (pt_lost t) = 0" using assms by (simp_all add: tracker_started_def)
    then show ?thesis by (intro fresh_by_unat) (simp_all add: progress_of_def)
  next
    case (Some h)
    then show ?thesis
      using record_tracked_counters [of t s] r by (intro fresh_by_unat) (auto simp: progress_of_def)
  qed
qed

lemma progress_frame [simp]:
  "progress_of (t\<lparr>pt_unconfirmed_jump := y\<rparr>) = progress_of t" "tracker_started (t\<lparr>pt_unconfirmed_jump := y\<rparr>) = tracker_started t"
  by (simp_all add: progress_of_def tracker_started_def)

lemma record_unique_fresh:
  assumes "tracker_started t"
  shows "is_at_least_as_fresh_as (progress_of (fst (record_unique t s))) (progress_of t)
    \<and> tracker_started (fst (record_unique t s))"
proof -
  have cj: "is_at_least_as_fresh_as (progress_of (fst (confirm_jump t s))) (progress_of t) \<and> tracker_started (fst (confirm_jump t s))"
  proof (cases "pt_unconfirmed_jump t")
    case None
    then show ?thesis using assms by (simp add: confirm_jump_def progress_order.fresh_refl)
  next
    case (Some g)
    have "tracker_started (t\<lparr>pt_unconfirmed_jump := None\<rparr>)" using assms by simp
    from record_tracked_fresh [OF this, of g] Some assms show ?thesis
      by (simp add: confirm_jump_def progress_order.fresh_refl)
  qed
  obtain t1 ok where c: "confirm_jump t s = (t1, ok)" by fastforce
  have t1: "is_at_least_as_fresh_as (progress_of t1) (progress_of t)" "tracker_started t1" using cj c by simp_all
  note tracked = record_tracked_fresh [OF assms, of s] and tracked1 = record_tracked_fresh [OF t1(2), of s]
  have later: "is_at_least_as_fresh_as (progress_of (fst (record_tracked t1 s))) (progress_of t)"
    using tracked1 t1(1) by (blast intro: progress_order.fresh_trans)
  have "record_unique t s = record_tracked t s \<or> record_unique t s = (t1, False) \<or> record_unique t s = record_tracked t1 s"
    unfolding record_unique_def Let_def c by simp
  then show ?thesis using tracked tracked1 later t1 by (elim disjE) simp_all
qed

lemma record_straggler_fresh:
  assumes "tracker_started t"
  shows "is_at_least_as_fresh_as (progress_of (fst (record_straggler t s))) (progress_of t)
    \<and> tracker_started (fst (record_straggler t s))"
  using record_tracked_fresh [OF assms, of s] assms
  by (auto simp: record_straggler_def progress_order.fresh_refl split: option.split)

section \<open>Published progress\<close>

text \<open>What a receiver has published is a snapshot of its tracker, current or earlier.\<close>

definition rx_inv :: "rx_state \<Rightarrow> bool" where
  "rx_inv r \<longleftrightarrow> tracker_started (rx_tracker r)
     \<and> is_at_least_as_fresh_as (progress_of (rx_tracker r)) (st_udp_progress (rx_stats r))"

definition fresher :: "rx_state \<Rightarrow> rx_state \<Rightarrow> bool" where
  "fresher r' r \<longleftrightarrow> is_at_least_as_fresh_as (st_udp_progress (rx_stats r')) (st_udp_progress (rx_stats r))"

lemma record_accepted_progress:
  "st_udp_progress (rx_stats (record_accepted_packet r ts now)) = progress_of (rx_tracker r)"
  "rx_tracker (record_accepted_packet r ts now) = rx_tracker r"
  "rx_sent (record_accepted_packet r ts now) = rx_sent r"
  "st_stream_id (rx_stats (record_accepted_packet r ts now)) = st_stream_id (rx_stats r)"
  "st_bytes_received (rx_stats (record_accepted_packet r ts now)) = st_bytes_received (rx_stats r)"
  by (simp_all add: record_accepted_packet_def set_udp_progress_def set_udp_jitter_us_def progress_of_def Let_def
      split: prod.split)

lemma stats_frame:
  "st_udp_progress (add_bytes_received s n) = st_udp_progress s" "st_stream_id (add_bytes_received s n) = st_stream_id s"
  by (simp_all add: add_bytes_received_def)

lemma receive_datagram_fresh:
  assumes "rx_inv r"
  shows "rx_inv (receive_datagram ack r d a now)" "fresher (receive_datagram ack r d a now) r"
    "st_stream_id (rx_stats (receive_datagram ack r d a now)) = st_stream_id (rx_stats r)"
    "rx_sent (receive_datagram ack r d a now) = rx_sent r
      \<or> (\<exists>k. ack = Some k \<and> rx_sent (receive_datagram ack r d a now) = rx_sent r @ [k])"
proof -
  have st: "tracker_started (rx_tracker r)" using assms by (simp add: rx_inv_def)
  note u = record_unique_fresh [OF st]
  have tr: "is_at_least_as_fresh_as (progress_of (fst (record_unique (rx_tracker r) s))) (st_udp_progress (rx_stats r))" for s
    using u assms progress_order.fresh_trans by (auto simp: rx_inv_def)
  show "rx_inv (receive_datagram ack r d a now)"
    using assms u tr
    by (auto simp: receive_datagram_def rx_inv_def Let_def record_accepted_progress stats_frame progress_order.fresh_refl
        split: option.split prod.split) (metis fst_conv)+
  show "fresher (receive_datagram ack r d a now) r"
    using tr
    by (auto simp: receive_datagram_def fresher_def Let_def record_accepted_progress stats_frame progress_order.fresh_refl
        split: option.split prod.split) (metis fst_conv)+
  show "st_stream_id (rx_stats (receive_datagram ack r d a now)) = st_stream_id (rx_stats r)"
    by (auto simp: receive_datagram_def Let_def record_accepted_progress stats_frame split: option.split prod.split)
  show "rx_sent (receive_datagram ack r d a now) = rx_sent r
      \<or> (\<exists>k. ack = Some k \<and> rx_sent (receive_datagram ack r d a now) = rx_sent r @ [k])"
    by (auto simp: receive_datagram_def Let_def record_accepted_progress split: option.split prod.split)
qed

section \<open>The feedback packets a receiver sends\<close>

definition feedbacks :: "rx_state \<Rightarrow> UdpFeedbackPacket list" where
  "feedbacks r = List.map_filter UdpFeedbackPacket_decode (rx_sent r)"

definition feedback_inv :: "u8 \<Rightarrow> rx_state \<Rightarrow> bool" where
  "feedback_inv i r \<longleftrightarrow> rx_inv r \<and> st_stream_id (rx_stats r) = i
     \<and> sorted_wrt (\<lambda>a b. is_at_least_as_fresh_as (to_progress b) (to_progress a)) (feedbacks r)
     \<and> (\<forall>p\<in>set (feedbacks r). fb_stream_id p = ucast i
          \<and> is_at_least_as_fresh_as (st_udp_progress (rx_stats r)) (to_progress p))"

lemma feedback_inv_later:
  assumes "feedback_inv i r" "rx_inv r'" "fresher r' r" "st_stream_id (rx_stats r') = st_stream_id (rx_stats r)"
    "feedbacks r' = feedbacks r"
  shows "feedback_inv i r'"
  using assms progress_order.fresh_trans unfolding feedback_inv_def fresher_def by metis

lemma map_filter_snoc: "List.map_filter f (xs @ [x]) = List.map_filter f xs @ (case f x of None \<Rightarrow> [] | Some y \<Rightarrow> [y])"
  by (simp add: List.map_filter_def split: option.split)

lemma feedback_inv_datagram:
  assumes "feedback_inv i r" "\<forall>k. ack = Some k \<longrightarrow> length k = UDP_HELLO_SIZE"
  shows "feedback_inv i (receive_datagram ack r d a now)"
proof -
  have r: "rx_inv r" using assms(1) by (simp add: feedback_inv_def)
  have "feedbacks (receive_datagram ack r d a now) = feedbacks r"
    using receive_datagram_fresh(4) [OF r, of ack d a now] assms(2) feedback_codec.dec_other_width
    by (auto simp: feedbacks_def map_filter_snoc udp_wire_consts)
  then show ?thesis
    using assms(1) receive_datagram_fresh [OF r, of ack d a now] by (intro feedback_inv_later [OF assms(1)]) auto
qed

lemma feedback_inv_emit:
  assumes "feedback_inv i r"
  shows "feedback_inv i (emit_feedback r ms)"
proof -
  define p where "p = feedback_packet r ms"
  have enc: "UdpFeedbackPacket_encode p (replicate UDP_FEEDBACK_SIZE 0) = (feedback_layout p, True)"
    by (simp add: feedback_encode_layout UDP_FEEDBACK_SIZE_def)
  have prog: "to_progress p = st_udp_progress (rx_stats r)" "fb_stream_id p = ucast (st_stream_id (rx_stats r))"
    by (simp_all add: p_def feedback_packet_def to_progress_def udp_progress_snapshot_def Let_def)
  have "feedback_inv i (r\<lparr>rx_sent := rx_sent r @ [feedback_layout p]\<rparr>)"
    using assms prog
    by (auto simp: feedback_inv_def rx_inv_def feedbacks_def map_filter_snoc feedback_decode_layout sorted_wrt_append
        progress_order.fresh_refl)
  with assms enc show ?thesis by (auto simp: emit_feedback_def p_def [symmetric] Let_def)
qed

lemma feedback_inv_frame:
  "feedback_inv i r \<Longrightarrow> feedback_inv i (r\<lparr>rx_last_recv := x, rx_pause_channel_open := y\<rparr>)"
  "feedback_inv i r \<Longrightarrow> feedback_inv i (r\<lparr>rx_pause_channel_open := y\<rparr>)"
  by (simp_all add: feedback_inv_def rx_inv_def feedbacks_def)

lemma feedback_inv_loop:
  assumes "feedback_inv i r" "\<forall>k. ack = Some k \<longrightarrow> length k = UDP_HELLO_SIZE"
  shows "feedback_inv i (snd (receive_loop ack es r))"
  using assms(1)
proof (induction es arbitrary: r)
  case Nil
  then show ?case by simp
next
  case (Cons e es)
  have "feedback_inv i (snd (receive_step ack e r))"
    using Cons.prems assms(2)
    by (cases e) (auto simp: receive_step_def feedback_inv_frame feedback_inv_emit intro: feedback_inv_datagram)
  then show ?case using Cons.IH [of "snd (receive_step ack e r)"] by (auto split: prod.split)
qed

lemma feedback_inv_init:
  "st_udp_progress stats = \<lparr>up_packets_received = 0, up_packets_lost = 0\<rparr> \<Longrightarrow>
     feedback_inv (st_stream_id stats) (receive_init stats now po)"
  by (simp add: feedback_inv_def rx_inv_def receive_init_def feedbacks_def List.map_filter_def tracker_started_def
      PacketTracker_new_def progress_of_def progress_order.fresh_refl)

section \<open>The client's slot\<close>

lemma feedback_fold_slot:
  assumes "i < length slots" "\<forall>d\<in>set ds. \<forall>p. UdpFeedbackPacket_decode d = Some p \<longrightarrow> unat (fb_stream_id p) = i"
  shows "receive_udp_feedback_only i slots ds =
     slots[i := foldl (keep_fresh is_at_least_as_fresh_as) (slots ! i) (map to_progress (List.map_filter UdpFeedbackPacket_decode ds))]"
  using assms
proof (induction ds arbitrary: slots)
  case Nil
  then show ?case by (simp add: receive_udp_feedback_only_def List.map_filter_def)
next
  case (Cons d ds)
  show ?case
  proof (cases "UdpFeedbackPacket_decode d")
    case None
    then show ?thesis
      using Cons by (simp add: receive_udp_feedback_only_def feedback_datagram_def List.map_filter_def)
  next
    case (Some p)
    have len: "length d = UDP_FEEDBACK_SIZE" using feedback_codec.dec_width [OF Some] by (simp add: UDP_FEEDBACK_SIZE_def)
    have "feedback_datagram i slots d = slots[i := keep_fresh is_at_least_as_fresh_as (slots ! i) (to_progress p)]"
      using Cons.prems len Some by (auto simp: feedback_datagram_def store_udp_feedback_def keep_fresh_def Let_def)
    then show ?thesis
      using Cons.IH [of "slots[i := keep_fresh is_at_least_as_fresh_as (slots ! i) (to_progress p)]"] Cons.prems Some
      by (simp add: receive_udp_feedback_only_def List.map_filter_def)
  qed
qed

lemma in_map_filter: "y \<in> set (List.map_filter f xs) \<longleftrightarrow> (\<exists>x\<in>set xs. f x = Some y)"
  by (induction xs) (auto simp: List.map_filter_def)

lemma sorted_wrt_comparable:
  "sorted_wrt P xs \<Longrightarrow> (\<And>x. P x x) \<Longrightarrow> x \<in> set xs \<Longrightarrow> y \<in> set xs \<Longrightarrow> P x y \<or> P y x"
  by (induction xs) auto

section \<open>Counting the sender's datagrams\<close>

text \<open>A datagram of the sender is never taken for a control packet while its sequence number is below
  2^32: its first four bytes are zero.\<close>

lemma be_bytes_high_zero: "k < 256 ^ n \<Longrightarrow> take m (be_bytes (m + n) k) = replicate m 0"
proof (induction n arbitrary: k)
  case 0
  have "be_bytes m 0 = replicate m 0" for m
    by (induction m) (simp_all add: replicate_append_same)
  then show ?case using 0 by simp
next
  case (Suc n)
  then have "k div 256 < 256 ^ n" by (simp add: less_mult_imp_div_less mult.commute)
  with Suc.IH show ?case by simp
qed

lemma header_first_bytes:
  assumes "UdpPacketHeader_decode d = Some h" "unat (sequence h) < 2 ^ 32"
  shows "subslice 0 4 d = [0, 0, 0, 0]"
proof -
  have len: "16 \<le> length d" and sq: "sequence h = u64_from_be (subslice 0 8 d)"
    using assms(1) by (auto simp: UdpPacketHeader_decode_def udp_wire_consts split: if_splits)
  have "u64_to_be (sequence h) = subslice 0 8 d" using to_be_from_be(3) [of "subslice 0 8 d"] len sq by simp
  then have "take 4 (subslice 0 8 d) = take 4 (be_bytes (4 + 4) (unat (sequence h)))" by (simp add: u64_to_be_def)
  also have "\<dots> = replicate 4 0" using assms(2) by (intro be_bytes_high_zero) simp
  finally show ?thesis by (simp add: subslice_def numeral_eq_Suc)
qed

lemma data_datagram_not_control:
  assumes "UdpPacketHeader_decode d = Some h" "unat (sequence h) < 2 ^ 32"
  shows "\<not> is_feedback_datagram d" "\<not> is_hello_datagram d"
  using header_first_bytes [OF assms] by (simp_all add: is_feedback_datagram_def is_hello_datagram_def udp_wire_consts)

lemma receive_data:
  assumes "UdpPacketHeader_decode d = Some h" "unat (sequence h) < 2 ^ 32"
  shows "rx_tracker (receive_datagram ack r d a now) = record_packet (rx_tracker r) (sequence h)"
    "st_bytes_received (rx_stats (receive_datagram ack r d a now)) = st_bytes_received (rx_stats r) + word_of_nat (length d)"
  using data_datagram_not_control [OF assms] assms(1)
  by (auto simp: receive_datagram_def Let_def record_packet_def record_accepted_progress add_bytes_received_def split: prod.split)

text \<open>The events of a delivery: datagrams of the wire, by index, with their arrival times.\<close>

definition deliver :: "bytes list \<Rightarrow> (nat \<times> instant) list \<Rightarrow> recv_event list" where
  "deliver wire picks = map (\<lambda>(i, t). Datagram (wire ! i) 0 t) picks"

lemma receive_deliver:
  assumes "wire_ok sz wire" "length wire \<le> 2 ^ 32" "\<forall>(i, t)\<in>set picks. i < length wire"
  shows "fst (receive_loop ack (deliver wire picks) r) = False"
    "rx_tracker (snd (receive_loop ack (deliver wire picks) r))
        = foldl record_packet (rx_tracker r) (map (word_of_nat \<circ> fst) picks)"
    "st_bytes_received (rx_stats (snd (receive_loop ack (deliver wire picks) r)))
        = st_bytes_received (rx_stats r) + sum_list (map (\<lambda>(i, t). word_of_nat (length (wire ! i))) picks)"
proof -
  have "fst (receive_loop ack (deliver wire picks) r) = False
    \<and> rx_tracker (snd (receive_loop ack (deliver wire picks) r)) = foldl record_packet (rx_tracker r) (map (word_of_nat \<circ> fst) picks)
    \<and> st_bytes_received (rx_stats (snd (receive_loop ack (deliver wire picks) r)))
        = st_bytes_received (rx_stats r) + sum_list (map (\<lambda>(i, t). word_of_nat (length (wire ! i))) picks)"
    using assms(3)
  proof (induction picks arbitrary: r)
    case Nil
    then show ?case by (simp add: deliver_def)
  next
    case (Cons p picks)
    obtain i t where p: "p = (i, t)" by fastforce
    have i: "i < length wire" using Cons.prems p by auto
    then obtain h where h: "UdpPacketHeader_decode (wire ! i) = Some h" "sequence h = word_of_nat i"
      using assms(1) by (auto simp: wire_ok_def)
    have "i < 2 ^ 32" using i assms(2) by linarith
    then have "unat (sequence h) < 2 ^ 32" using h(2) unat_word_of_nat [where 'a=64, of i] by simp
    note rd = receive_data [OF h(1) this, of ack r 0 t]
    have picks: "\<forall>(i, t)\<in>set picks. i < length wire" using Cons.prems by auto
    show ?case
      using Cons.IH [OF picks, of "receive_datagram ack r (wire ! i) 0 t"] rd h(2) p
      by (simp add: deliver_def receive_step_def add.assoc)
  qed
  then show "fst (receive_loop ack (deliver wire picks) r) = False"
    "rx_tracker (snd (receive_loop ack (deliver wire picks) r)) = foldl record_packet (rx_tracker r) (map (word_of_nat \<circ> fst) picks)"
    "st_bytes_received (rx_stats (snd (receive_loop ack (deliver wire picks) r)))
        = st_bytes_received (rx_stats r) + sum_list (map (\<lambda>(i, t). word_of_nat (length (wire ! i))) picks)"
    by auto
qed

lemma tracker_run_counts:
  assumes "xs \<noteq> []" "length xs < 2 ^ 64 - 2" "\<forall>x\<in>set xs. x < PACKET_TRACKER_WINDOW"
  shows "unat (pt_received (foldl record_packet PacketTracker_new (map word_of_nat xs))) = card (set xs)"
    "unat (pt_lost (foldl record_packet PacketTracker_new (map word_of_nat xs))) = card ({..Max (set xs)} - set xs)"
proof -
  define ss where "ss = map (word_of_nat :: nat \<Rightarrow> u64) xs"
  have un: "map unat ss = xs"
  proof -
    have "unat (word_of_nat x :: u64) = x" if "x \<in> set xs" for x
    proof (rule unat_word_of_nat)
      have "x < 65536" using that assms(3) by (simp add: tracker_consts)
      also have "(65536 :: nat) \<le> 2 ^ LENGTH(64)" by simp
      finally show "x < 2 ^ LENGTH(64)" .
    qed
    then show ?thesis by (simp add: ss_def map_idI)
  qed
  have R: "refines (tracker_run ss) (spec_run xs)" using tracker_run_refines [of ss] assms(2) un by (simp add: ss_def)
  have A: "sp_accepted (spec_run xs) = set xs" "sp_top (spec_run xs) = Some (Max (set xs))"
    using spec_run_one_window [OF assms(3)] assms(1) by simp_all
  have t: "foldl record_packet PacketTracker_new (map word_of_nat xs) = tracker_run ss"
    by (simp add: tracker_run_def ss_def record_packet_def)
  show "unat (pt_received (foldl record_packet PacketTracker_new (map word_of_nat xs))) = card (set xs)"
    "unat (pt_lost (foldl record_packet PacketTracker_new (map word_of_nat xs))) = card ({..Max (set xs)} - set xs)"
    unfolding t using R A by (auto simp: refines_def spec_missing_def)
qed

section \<open>Jitter\<close>

definition jitter_run :: "(u64 \<times> instant) list \<Rightarrow> JitterCalculator" where
  "jitter_run ps = foldl (\<lambda>c (snt, rcv). fst (jitter_update c snt rcv)) JitterCalculator_new ps"

fun deviations :: "(u64 \<times> instant) list \<Rightarrow> int list" where
  "deviations ((s1, r1) # (s2, r2) # ps) = jitter_deviation s1 r1 s2 r2 # deviations ((s2, r2) # ps)"
| "deviations _ = []"

lemma deviations_snoc:
  "deviations (ps @ [(s1, r1), (s2, r2)]) = deviations (ps @ [(s1, r1)]) @ [jitter_deviation s1 r1 s2 r2]"
  by (induction ps rule: deviations.induct) auto

lemma jitter_average: "0 \<le> j \<Longrightarrow> j \<le> D \<Longrightarrow> 0 \<le> d \<Longrightarrow> d \<le> D \<Longrightarrow> 0 \<le> j + (d - j) / 16 \<and> j + (d - j) / 16 \<le> (D :: real)"
  by (simp add: field_simps)

lemma jitter_run_snoc: "jitter_run (ps @ [(s, r)]) = fst (jitter_update (jitter_run ps) s r)"
  by (simp add: jitter_run_def)

lemma jitter_run_last:
  "jc_last_send_time (jitter_run ps) = (if ps = [] then None else Some (fst (last ps)))
   \<and> jc_last_recv_time (jitter_run ps) = (if ps = [] then None else Some (snd (last ps)))"
proof (cases ps rule: rev_cases)
  case Nil
  then show ?thesis by (simp add: jitter_run_def JitterCalculator_new_def)
next
  case (snoc qs p)
  obtain s r where p: "p = (s, r)" by fastforce
  show ?thesis unfolding snoc p jitter_run_snoc by (simp add: jitter_update_def Let_def)
qed

lemma jitter_run_bounds:
  assumes "\<forall>d\<in>set (deviations ps). real_of_int d \<le> D" "0 \<le> D"
  shows "0 \<le> jc_jitter (jitter_run ps) \<and> jc_jitter (jitter_run ps) \<le> jc_jitter_max (jitter_run ps) \<and> jc_jitter_max (jitter_run ps) \<le> D"
  using assms(1)
proof (induction ps rule: rev_induct)
  case Nil
  then show ?case using assms(2) by (simp add: jitter_run_def JitterCalculator_new_def)
next
  case (snoc p ps)
  obtain s2 r2 where p: "p = (s2, r2)" by fastforce
  show ?case
  proof (cases ps rule: rev_cases)
    case Nil
    then show ?thesis using assms(2) by (simp add: p jitter_run_def JitterCalculator_new_def jitter_update_def Let_def)
  next
    case (snoc qs q)
    obtain s1 r1 where q: "q = (s1, r1)" by fastforce
    define c where "c = jitter_run ps"
    define d where "d = real_of_int (jitter_deviation s1 r1 s2 r2)"
    have dev: "deviations (ps @ [p]) = deviations ps @ [jitter_deviation s1 r1 s2 r2]"
      using deviations_snoc [of qs s1 r1 s2 r2] by (simp add: snoc q p)
    have d: "0 \<le> d" "d \<le> D" using snoc.prems dev by (auto simp: d_def jitter_deviation_def Let_def)
    have IH: "0 \<le> jc_jitter c" "jc_jitter c \<le> jc_jitter_max c" "jc_jitter_max c \<le> D"
      using snoc.IH snoc.prems dev by (simp_all add: c_def)
    have last: "jc_last_send_time c = Some s1" "jc_last_recv_time c = Some r1"
      using jitter_run_last [of ps] snoc q by (simp_all add: c_def)
    have j: "0 \<le> jc_jitter c + (d - jc_jitter c) / 16 \<and> jc_jitter c + (d - jc_jitter c) / 16 \<le> D"
      using IH d by (intro jitter_average) auto
    have "jitter_run (ps @ [p]) = fst (jitter_update c s2 r2)" by (simp add: p jitter_run_snoc c_def)
    then show ?thesis using last j IH by (simp add: jitter_update_def Let_def d_def [symmetric])
  qed
qed

section \<open>Handshake\<close>

definition is_data :: "bytes option \<Rightarrow> bool" where
  "is_data e = (case e of Some d \<Rightarrow> \<not> is_hello_datagram d | None \<Rightarrow> False)"

lemma handshake_attempt_keeps_data:
  "handshake_attempt token idx ds = Ok (b, rest) \<Longrightarrow> filter is_data rest = filter is_data ds"
  by (induction token idx ds rule: handshake_attempt.induct) (auto simp: is_data_def split: if_splits)

definition hello_noise :: "bytes \<Rightarrow> u16 \<Rightarrow> bytes option \<Rightarrow> bool" where
  "hello_noise token idx e = (case e of
     Some d \<Rightarrow> is_hello_datagram d \<and> UdpHelloPacket_decode d
        \<noteq> Some \<lparr>hello_kind = UDP_HELLO_KIND_ACK, hello_stream_index = idx, hello_token = token\<rparr>
   | None \<Rightarrow> False)"

lemma handshake_attempt_noise:
  "list_all (hello_noise token idx) ns \<Longrightarrow> handshake_attempt token idx (ns @ ds) = handshake_attempt token idx ds"
proof (induction ns)
  case Nil
  then show ?case by simp
next
  case (Cons n ns)
  then obtain d where n: "n = Some d" "is_hello_datagram d"
      "UdpHelloPacket_decode d \<noteq> Some \<lparr>hello_kind = UDP_HELLO_KIND_ACK, hello_stream_index = idx, hello_token = token\<rparr>"
    by (auto simp: hello_noise_def split: option.splits)
  have "\<not> (hello_kind pkt = UDP_HELLO_KIND_ACK \<and> hello_token pkt = token \<and> hello_stream_index pkt = idx)"
    if "UdpHelloPacket_decode d = Some pkt" for pkt
    using n(3) that by auto
  with Cons n show ?case by (auto split: option.split)
qed

lemma hello_decode_lane: "UdpHelloPacket_decode d = Some p \<Longrightarrow> is_hello_datagram d"
  by (auto simp: UdpHelloPacket_decode_def is_hello_datagram_def split: if_splits)

lemma handshake_loop_skip:
  "list_all (\<lambda>(fails, ns). \<not> fails \<and> list_all (hello_noise token idx) ns) pre \<Longrightarrow> length pre \<le> k \<Longrightarrow>
     handshake_loop token idx k (pre @ net) = handshake_loop token idx (k - length pre) net"
proof (induction pre arbitrary: k)
  case Nil
  then show ?case by simp
next
  case (Cons p pre)
  then obtain ns k' where p: "p = (False, ns)" "list_all (hello_noise token idx) ns" "k = Suc k'"
    by (cases p; cases k) auto
  have "handshake_attempt token idx ns = Ok (False, [])" using handshake_attempt_noise [OF p(2), of "[]"] by simp
  with Cons p show ?case by simp
qed

section \<open>Properties\<close>

definition sample_events :: "recv_event list" where
  "sample_events = [Datagram (fst (UdpPacketHeader_encode \<lparr>sequence = 0, timestamp_us = 0\<rparr> (replicate 16 0))) 1 5, FeedbackTick 500]"

text \<open>C15: whatever a receiver sees, and however its feedback packets are lost, duplicated or reordered on
  the way, the client's slot of that stream ends at least as fresh as every packet delivered, it
  holds one of them (or the start), and no other slot changes.\<close>

theorem feedback_converges:
  assumes "receive_loop ack es (receive_init stats now po) = (ended, r)"
    "st_udp_progress stats = \<lparr>up_packets_received = 0, up_packets_lost = 0\<rparr>"
    "ack = None \<or> length (the ack) = UDP_HELLO_SIZE"
    "set delivered \<subseteq> set (rx_sent r)" "i = unat (st_stream_id stats)" "i < length slots"
    "slots ! i = \<lparr>up_packets_received = 0, up_packets_lost = 0\<rparr>"
  shows "let slots' = receive_udp_feedback_only i slots delivered in
      (\<forall>d\<in>set delivered. \<forall>p. UdpFeedbackPacket_decode d = Some p \<longrightarrow> is_at_least_as_fresh_as (slots' ! i) (to_progress p))
      \<and> (slots' ! i = slots ! i \<or> (\<exists>d\<in>set delivered. \<exists>p. UdpFeedbackPacket_decode d = Some p \<and> slots' ! i = to_progress p))
      \<and> length slots' = length slots \<and> (\<forall>j. j \<noteq> i \<longrightarrow> slots' ! j = slots ! j)"
proof -
  have inv: "feedback_inv (st_stream_id stats) r"
    using feedback_inv_loop [OF feedback_inv_init [OF assms(2), of now po], of ack es] assms(1,3) by fastforce
  define ps where "ps = List.map_filter UdpFeedbackPacket_decode delivered"
  have ps: "set ps \<subseteq> set (feedbacks r)" using assms(4) unfolding ps_def feedbacks_def subset_iff in_map_filter by blast
  have id: "unat (fb_stream_id p) = i" if "p \<in> set (feedbacks r)" for p
  proof -
    have "unat (st_stream_id stats) < 2 ^ 16" using unat_lt_pow [of "st_stream_id stats"] by simp
    then have "unat (ucast (st_stream_id stats) :: u16) = i"
      using assms(5) by (simp add: unsigned_ucast_eq take_bit_eq_mod)
    then show ?thesis using inv that by (simp add: feedback_inv_def)
  qed
  have slots': "receive_udp_feedback_only i slots delivered =
      slots[i := foldl (keep_fresh is_at_least_as_fresh_as) (slots ! i) (map to_progress ps)]"
    unfolding ps_def using assms(4,6) id by (intro feedback_fold_slot) (auto simp: feedbacks_def in_map_filter)
  have zero: "is_at_least_as_fresh_as x (slots ! i)" for x
    by (simp add: assms(7) is_at_least_as_fresh_as_def saturating_add_def)
  have cmp: "is_at_least_as_fresh_as x y \<or> is_at_least_as_fresh_as y x"
    if x: "x \<in> insert (slots ! i) (set (map to_progress ps))" and y: "y \<in> insert (slots ! i) (set (map to_progress ps))" for x y
  proof (cases "x = slots ! i \<or> y = slots ! i")
    case True
    then show ?thesis using zero by auto
  next
    case False
    then obtain p q where "p \<in> set (feedbacks r)" "q \<in> set (feedbacks r)" "x = to_progress p" "y = to_progress q"
      using x y ps by auto
    then show ?thesis
      using sorted_wrt_comparable [of "\<lambda>a b. is_at_least_as_fresh_as (to_progress b) (to_progress a)" "feedbacks r" p q]
        inv progress_order.fresh_refl by (auto simp: feedback_inv_def)
  qed
  have new: "is_at_least_as_fresh_as (foldl (keep_fresh is_at_least_as_fresh_as) (slots ! i) (map to_progress ps)) z"
    if "z \<in> insert (slots ! i) (set (map to_progress ps))" for z
    using progress_order.fold_keep_fresh_newest [OF cmp that] .
  have mem: "foldl (keep_fresh is_at_least_as_fresh_as) (slots ! i) (map to_progress ps) \<in> insert (slots ! i) (set (map to_progress ps))"
    by (rule progress_order.fold_keep_fresh_mem)
  define f where "f = foldl (keep_fresh is_at_least_as_fresh_as) (slots ! i) (map to_progress ps)"
  have at: "receive_udp_feedback_only i slots delivered ! i = f" using assms(6) by (simp add: slots' f_def)
  have in_ps: "p \<in> set ps \<longleftrightarrow> (\<exists>d\<in>set delivered. UdpFeedbackPacket_decode d = Some p)" for p
    unfolding ps_def in_map_filter by blast
  have fresh: "\<forall>d\<in>set delivered. \<forall>p. UdpFeedbackPacket_decode d = Some p \<longrightarrow> is_at_least_as_fresh_as f (to_progress p)"
    unfolding f_def by (intro ballI allI impI new) (use in_ps in auto)
  have held: "f = slots ! i \<or> (\<exists>d\<in>set delivered. \<exists>p. UdpFeedbackPacket_decode d = Some p \<and> f = to_progress p)"
  proof (cases "f = slots ! i")
    case False
    then obtain p where "p \<in> set ps" "f = to_progress p" using mem by (auto simp: f_def)
    then show ?thesis using in_ps by blast
  qed simp
  show ?thesis
    unfolding Let_def at using fresh held by (simp add: slots')
qed

theorem feedback_converges_witness:
  "let (ended, r) = receive_loop None sample_events (receive_init (StreamStats_new 0 0) 0 True);
       slots' = receive_udp_feedback_only 0 [\<lparr>up_packets_received = 0, up_packets_lost = 0\<rparr>] (rx_sent r)
   in length slots' = 1"
proof -
  obtain ended r where r: "receive_loop None sample_events (receive_init (StreamStats_new 0 0) 0 True) = (ended, r)" by fastforce
  from feedback_converges [OF r _ _ subset_refl, of 0 "[\<lparr>up_packets_received = 0, up_packets_lost = 0\<rparr>]"]
  have "length (receive_udp_feedback_only 0 [\<lparr>up_packets_received = 0, up_packets_lost = 0\<rparr>] (rx_sent r)) = 1"
    by (simp add: StreamStats_new_def Let_def)
  with r show ?thesis by (simp add: Let_def)
qed

text \<open>The smoothed jitter never leaves the range of the deviations observed: over any packets whose
  deviations are at most D microseconds it stays between 0 and its maximum, and the maximum at most D.\<close>

theorem jitter_within_deviations:
  assumes "list_all (\<lambda>d. real_of_int d \<le> D) (deviations ps)" "0 \<le> D"
  shows "0 \<le> jitter_ms (jitter_run ps) \<and> jitter_ms (jitter_run ps) \<le> jitter_max_ms (jitter_run ps)
    \<and> jitter_max_ms (jitter_run ps) \<le> D / 1000"
  using jitter_run_bounds [of ps D] assms by (simp add: jitter_ms_def jitter_max_ms_def list_all_iff divide_right_mono)

theorem jitter_within_deviations_witness:
  "jitter_max_ms (jitter_run [(0, 0), (1000, 1500000), (2000, 2000000)]) \<le> 500 / 1000"
  using jitter_within_deviations [of 500 "[(0, 0), (1000, 1500000), (2000, 2000000)]"]
  by (simp add: jitter_deviation_def)

text \<open>C16: if within the first 50 attempts the server's responder's answer to the hello arrives, after any
  number of attempts that saw nothing but stray hello-lane packets, the handshake succeeds, and
  whatever is queued behind the ack is still there for the data path.\<close>

theorem handshake_completes:
  assumes "length token = UDP_HELLO_TOKEN_LEN" "length pre < UDP_HELLO_MAX_ATTEMPTS"
    "list_all (\<lambda>(fails, ns). \<not> fails \<and> list_all (hello_noise token idx) ns) pre"
    "list_all (hello_noise token idx) noise"
    "ack = UdpHelloPacket_encode \<lparr>hello_kind = UDP_HELLO_KIND_ACK, hello_stream_index = idx, hello_token = token\<rparr>"
  shows "single_port_udp_handshake token idx
      (pre @ (False, noise @ map Some (respond_single_port_hellos ack [handshake_hello token idx]) @ later) # net) = Ok later"
proof -
  have hello: "UdpHelloPacket_decode (handshake_hello token idx) =
      Some \<lparr>hello_kind = UDP_HELLO_KIND_HELLO, hello_stream_index = idx, hello_token = token\<rparr>"
    unfolding handshake_hello_def using assms(1) by (intro hello_codec.dec_enc) (simp add: hello_valid_def)
  have dec: "UdpHelloPacket_decode ack = Some \<lparr>hello_kind = UDP_HELLO_KIND_ACK, hello_stream_index = idx, hello_token = token\<rparr>"
    unfolding assms(5) using assms(1) by (intro hello_codec.dec_enc) (simp add: hello_valid_def)
  have resp: "respond_single_port_hellos ack [handshake_hello token idx] = [ack]"
    by (simp add: respond_single_port_hellos_def hello)
  have att: "handshake_attempt token idx (noise @ Some ack # later) = Ok (True, later)"
    using handshake_attempt_noise [OF assms(4)] dec hello_decode_lane [OF dec] by simp
  obtain k where k: "UDP_HELLO_MAX_ATTEMPTS - length pre = Suc k" using assms(2) by (metis Suc_diff_Suc)
  show ?thesis
    unfolding single_port_udp_handshake_def resp
    using handshake_loop_skip [OF assms(3), of UDP_HELLO_MAX_ATTEMPTS] assms(2) k att by simp
qed

theorem handshake_completes_witness:
  "single_port_udp_handshake (replicate 16 9) 3
     [(False, []), (False, map Some (respond_single_port_hellos
        (UdpHelloPacket_encode \<lparr>hello_kind = UDP_HELLO_KIND_ACK, hello_stream_index = 3, hello_token = replicate 16 9\<rparr>)
        [handshake_hello (replicate 16 9) 3]) @ [Some [1, 2]])] = Ok [Some [1, 2]]"
  using handshake_completes [of "replicate 16 9" "[(False, [])]" 3 "[]" _ "[Some [1, 2]]" "[]", OF _ _ _ _ refl]
  by (simp add: UDP_HELLO_TOKEN_LEN_def UDP_HELLO_MAX_ATTEMPTS_def)

end
