(* ===== verification/Control_Crypto.thy ===== *)
theory Control_Crypto
  imports Protocol Auth
begin

text \<open>
  The protected control channel of \<open>src/control_crypto.rs\<close>: key derivation, the server's proof, the
  per-direction AEAD codec with its sequence number, and the framing of messages in both modes.
  HKDF, HMAC and the AEAD are parameters. A connection's input is the list of chunks its buffered
  reader delivers, since the plaintext reader converts each chunk to text on its own.
\<close>

section \<open>Lossy UTF-8 conversion\<close>

text \<open>\<open>String::from_utf8_lossy\<close> on bytes, the resulting text again as its UTF-8 bytes: every maximal
  invalid sequence becomes U+FFFD. \<open>utf8_step\<close> gives the length of the next sequence and whether
  it is valid; a missing byte fails every range test, as a zero byte would.\<close>

definition in_range :: "bytes \<Rightarrow> nat \<Rightarrow> byte \<Rightarrow> byte \<Rightarrow> bool" where
  "in_range bs i lo hi = (i < length bs \<and> lo \<le> bs ! i \<and> bs ! i \<le> hi)"

definition utf8_step :: "bytes \<Rightarrow> nat \<times> bool" where
  "utf8_step bs =
     (let b0 = bs ! 0 in
      if b0 < 0x80 then (1, True)
      else if 0xC2 \<le> b0 \<and> b0 \<le> 0xDF then (if in_range bs 1 0x80 0xBF then (2, True) else (1, False))
      else if 0xE0 \<le> b0 \<and> b0 \<le> 0xEF then
        (let ok2 = (if b0 = 0xE0 then in_range bs 1 0xA0 0xBF
                    else if b0 = 0xED then in_range bs 1 0x80 0x9F else in_range bs 1 0x80 0xBF)
         in if \<not> ok2 then (1, False) else if \<not> in_range bs 2 0x80 0xBF then (2, False) else (3, True))
      else if 0xF0 \<le> b0 \<and> b0 \<le> 0xF4 then
        (let ok2 = (if b0 = 0xF0 then in_range bs 1 0x90 0xBF
                    else if b0 = 0xF4 then in_range bs 1 0x80 0x8F else in_range bs 1 0x80 0xBF)
         in if \<not> ok2 then (1, False) else if \<not> in_range bs 2 0x80 0xBF then (2, False)
            else if \<not> in_range bs 3 0x80 0xBF then (3, False) else (4, True))
      else (1, False))"

function from_utf8_lossy :: "bytes \<Rightarrow> bytes" where
  "from_utf8_lossy bs =
     (if bs = [] then []
      else (let (n, valid) = utf8_step bs
            in (if valid then take n bs else [0xEF, 0xBF, 0xBD]) @ from_utf8_lossy (drop n bs)))"
  by pat_completeness auto

lemma utf8_step_pos: "utf8_step bs = (n, v) \<Longrightarrow> 0 < n"
  by (auto simp: utf8_step_def Let_def split: if_splits)

termination from_utf8_lossy
  by (relation "measure length") (auto dest: utf8_step_pos [OF sym])

declare from_utf8_lossy.simps [simp del]

section \<open>Directions and keys\<close>

datatype Direction = C2S | S2C

definition Direction_info :: "Direction \<Rightarrow> bytes" where
  "Direction_info d = as_bytes (case d of C2S \<Rightarrow> ''xfr-protected-control-c2s'' | S2C \<Rightarrow> ''xfr-protected-control-s2c'')"

definition Direction_tag :: "Direction \<Rightarrow> byte" where
  "Direction_tag d = (case d of C2S \<Rightarrow> 0x00 | S2C \<Rightarrow> 0x01)"

definition NONCE_LEN :: nat where "NONCE_LEN = 12"

datatype control_error = HkdfFailed | AeadEncryptFailed | AeadDecryptFailed | SequenceOverflow | FrameTooShort
  | SequenceMismatch u64 u64 | LineTooLong | FrameTooLarge nat | UnexpectedEof | IoError

text \<open>\<open>hkdf salt ikm info len\<close> stands for extract-then-expand.\<close>

definition derive_keys ::
  "(bytes \<Rightarrow> bytes \<Rightarrow> bytes \<Rightarrow> nat \<Rightarrow> bytes option) \<Rightarrow> string \<Rightarrow> string \<Rightarrow> bytes
     \<Rightarrow> control_error + bytes \<times> bytes \<times> bytes" where
  "derive_keys hkdf client_nonce server_nonce key_material =
     (let salt = as_bytes client_nonce @ as_bytes server_nonce in
      case hkdf salt key_material (Direction_info C2S) 32 of
        None \<Rightarrow> Err HkdfFailed
      | Some c2s_key \<Rightarrow>
          (case hkdf salt key_material (Direction_info S2C) 32 of
             None \<Rightarrow> Err HkdfFailed
           | Some s2c_key \<Rightarrow>
               (case hkdf salt key_material (as_bytes ''xfr-protected-control-s2c-auth'') 32 of
                  None \<Rightarrow> Err HkdfFailed
                | Some s2c_auth_key \<Rightarrow> Ok (c2s_key, s2c_key, s2c_auth_key))))"

definition compute_server_proof_with_key ::
  "(bytes \<Rightarrow> bytes \<Rightarrow> bytes \<Rightarrow> nat \<Rightarrow> bytes option) \<Rightarrow> (bytes \<Rightarrow> bytes \<Rightarrow> bytes) \<Rightarrow> bytes \<Rightarrow> bytes
     \<Rightarrow> string \<Rightarrow> string \<Rightarrow> bytes \<Rightarrow> control_error + string" where
  "compute_server_proof_with_key hkdf hmac client_hello_bytes server_hello_bytes client_nonce server_nonce key_material =
     (case derive_keys hkdf client_nonce server_nonce key_material of
        Err e \<Rightarrow> Err e
      | Ok (c2s, s2c, s2c_auth_key) \<Rightarrow> Ok (hex_encode (hmac s2c_auth_key (client_hello_bytes @ server_hello_bytes))))"

definition compute_server_proof ::
  "(bytes \<Rightarrow> bytes \<Rightarrow> bytes \<Rightarrow> nat \<Rightarrow> bytes option) \<Rightarrow> (bytes \<Rightarrow> bytes \<Rightarrow> bytes) \<Rightarrow> bytes \<Rightarrow> bytes
     \<Rightarrow> string \<Rightarrow> string \<Rightarrow> string \<Rightarrow> control_error + string" where
  "compute_server_proof hkdf hmac ch sh cn sn psk = compute_server_proof_with_key hkdf hmac ch sh cn sn (as_bytes psk)"

definition verify_server_proof_with_key ::
  "(bytes \<Rightarrow> bytes \<Rightarrow> bytes \<Rightarrow> nat \<Rightarrow> bytes option) \<Rightarrow> (bytes \<Rightarrow> bytes \<Rightarrow> bytes) \<Rightarrow> bytes \<Rightarrow> bytes
     \<Rightarrow> string \<Rightarrow> string \<Rightarrow> bytes \<Rightarrow> string \<Rightarrow> control_error + bool" where
  "verify_server_proof_with_key hkdf hmac ch sh cn sn key_material expected =
     (case compute_server_proof_with_key hkdf hmac ch sh cn sn key_material of
        Err e \<Rightarrow> Err e
      | Ok actual \<Rightarrow> Ok (constant_time_eq (as_bytes actual) (as_bytes expected)))"

definition verify_server_proof ::
  "(bytes \<Rightarrow> bytes \<Rightarrow> bytes \<Rightarrow> nat \<Rightarrow> bytes option) \<Rightarrow> (bytes \<Rightarrow> bytes \<Rightarrow> bytes) \<Rightarrow> bytes \<Rightarrow> bytes
     \<Rightarrow> string \<Rightarrow> string \<Rightarrow> string \<Rightarrow> string \<Rightarrow> control_error + bool" where
  "verify_server_proof hkdf hmac ch sh cn sn psk expected =
     verify_server_proof_with_key hkdf hmac ch sh cn sn (as_bytes psk) expected"

section \<open>The codec\<close>

text \<open>The cipher is its key; \<open>enc key nonce aad msg\<close> and \<open>dec key nonce aad msg\<close> are the AEAD.\<close>

record ControlCodec =
  cc_cipher :: bytes
  cc_direction :: Direction
  cc_seq :: u64

definition ControlCodec_new :: "bytes \<Rightarrow> Direction \<Rightarrow> ControlCodec" where
  "ControlCodec_new key d = \<lparr>cc_cipher = key, cc_direction = d, cc_seq = 0\<rparr>"

definition derive_pair_with_key ::
  "(bytes \<Rightarrow> bytes \<Rightarrow> bytes \<Rightarrow> nat \<Rightarrow> bytes option) \<Rightarrow> string \<Rightarrow> string \<Rightarrow> bytes
     \<Rightarrow> control_error + ControlCodec \<times> ControlCodec" where
  "derive_pair_with_key hkdf client_nonce server_nonce key_material =
     (case derive_keys hkdf client_nonce server_nonce key_material of
        Err e \<Rightarrow> Err e
      | Ok (c2s, s2c, _) \<Rightarrow> Ok (ControlCodec_new c2s C2S, ControlCodec_new s2c S2C))"

definition derive_pair ::
  "(bytes \<Rightarrow> bytes \<Rightarrow> bytes \<Rightarrow> nat \<Rightarrow> bytes option) \<Rightarrow> string \<Rightarrow> string \<Rightarrow> string
     \<Rightarrow> control_error + ControlCodec \<times> ControlCodec" where
  "derive_pair hkdf client_nonce server_nonce psk = derive_pair_with_key hkdf client_nonce server_nonce (as_bytes psk)"

definition codec_nonce :: "ControlCodec \<Rightarrow> bytes" where
  "codec_nonce c = copy_at 0 (u64_to_le (cc_seq c)) (replicate NONCE_LEN 0)"

definition codec_aad :: "ControlCodec \<Rightarrow> bytes" where
  "codec_aad c = (copy_at 0 (u64_to_le (cc_seq c)) (replicate 9 0))[8 := Direction_tag (cc_direction c)]"

type_synonym aead = "bytes \<Rightarrow> bytes \<Rightarrow> bytes \<Rightarrow> bytes \<Rightarrow> bytes option"

definition seal :: "aead \<Rightarrow> ControlCodec \<Rightarrow> bytes \<Rightarrow> ControlCodec \<times> (control_error + bytes)" where
  "seal enc c plaintext =
     (case enc (cc_cipher c) (codec_nonce c) (codec_aad c) plaintext of
        None \<Rightarrow> (c, Err AeadEncryptFailed)
      | Some ciphertext \<Rightarrow>
          (let frame = u64_to_le (cc_seq c) @ ciphertext
           in case checked_add (cc_seq c) 1 of
                None \<Rightarrow> (c, Err SequenceOverflow)
              | Some s \<Rightarrow> (c\<lparr>cc_seq := s\<rparr>, Ok frame)))"

definition open_frame :: "aead \<Rightarrow> ControlCodec \<Rightarrow> bytes \<Rightarrow> ControlCodec \<times> (control_error + bytes)" where
  "open_frame dec c payload =
     (if length payload < 8 + 16 then (c, Err FrameTooShort)
      else (let seq = u64_from_le (subslice 0 8 payload)
            in if seq \<noteq> cc_seq c then (c, Err (SequenceMismatch (cc_seq c) seq))
               else (case dec (cc_cipher c) (codec_nonce c) (codec_aad c) (drop 8 payload) of
                       None \<Rightarrow> (c, Err AeadDecryptFailed)
                     | Some plaintext \<Rightarrow>
                         (case checked_add (cc_seq c) 1 of
                            None \<Rightarrow> (c, Err SequenceOverflow)
                          | Some s \<Rightarrow> (c\<lparr>cc_seq := s\<rparr>, Ok plaintext)))))"

section \<open>Transports\<close>

datatype ProtectedControl = Plaintext | Protected ControlCodec ControlCodec
datatype ControlReader = PlaintextReader | ProtectedReader ControlCodec
datatype ControlWriter = PlaintextWriter | ProtectedWriter ControlCodec

definition protected_client :: "ControlCodec \<Rightarrow> ControlCodec \<Rightarrow> ProtectedControl" where
  "protected_client c2s s2c = Protected c2s s2c"

definition protected_server :: "ControlCodec \<Rightarrow> ControlCodec \<Rightarrow> ProtectedControl" where
  "protected_server c2s s2c = Protected s2c c2s"

definition is_protected :: "ProtectedControl \<Rightarrow> bool" where
  "is_protected t = (case t of Protected send recv \<Rightarrow> True | Plaintext \<Rightarrow> False)"

definition split_transport :: "ProtectedControl \<Rightarrow> ControlReader \<times> ControlWriter" where
  "split_transport t =
     (case t of
        Plaintext \<Rightarrow> (PlaintextReader, PlaintextWriter)
      | Protected send recv \<Rightarrow> (ProtectedReader recv, ProtectedWriter send))"

definition MAX_LINE_LENGTH :: nat where "MAX_LINE_LENGTH = 1048576"
definition MAX_FRAME :: nat where "MAX_FRAME = 1048576"

text \<open>The buffered input: the chunks still to come, and whether the stream then fails or ends.\<close>

record Reader =
  rd_chunks :: "bytes list"
  rd_fails :: bool

fun position :: "('a \<Rightarrow> bool) \<Rightarrow> 'a list \<Rightarrow> nat option" where
  "position P [] = None"
| "position P (x # xs) = (if P x then Some 0 else map_option Suc (position P xs))"

text \<open>The loop of the plaintext reader, on the chunks: an empty \<open>fill_buf\<close> is the end of the stream.\<close>

fun read_line_loop :: "bytes \<Rightarrow> nat \<Rightarrow> bytes list \<Rightarrow> bool \<Rightarrow> control_error + bytes \<times> bytes list" where
  "read_line_loop line_buf tot [] fails = (if fails then Err IoError else Ok (line_buf, []))"
| "read_line_loop line_buf tot (bs # rest) fails =
     (if bs = [] then Ok (line_buf, bs # rest)
      else (case position (\<lambda>b. b = 10) bs of
              Some pos \<Rightarrow>
                (let to_read = pos + 1
                 in if MAX_LINE_LENGTH < tot + to_read then Err LineTooLong
                    else Ok (line_buf @ from_utf8_lossy (take to_read bs),
                             (if drop to_read bs = [] then rest else drop to_read bs # rest)))
            | None \<Rightarrow>
                (if MAX_LINE_LENGTH < tot + length bs then Err LineTooLong
                 else read_line_loop (line_buf @ from_utf8_lossy bs) (tot + length bs) rest fails)))"

fun drop_chunks :: "nat \<Rightarrow> bytes list \<Rightarrow> bytes list" where
  "drop_chunks n [] = []"
| "drop_chunks n (bs # rest) =
     (if n < length bs then drop n bs # rest else drop_chunks (n - length bs) rest)"

definition read_exact :: "nat \<Rightarrow> Reader \<Rightarrow> control_error + bytes \<times> Reader" where
  "read_exact n r =
     (if n \<le> length (concat (rd_chunks r))
      then Ok (take n (concat (rd_chunks r)), r\<lparr>rd_chunks := drop_chunks n (rd_chunks r)\<rparr>)
      else Err (if rd_fails r then IoError else UnexpectedEof))"

definition read_plaintext :: "Reader \<Rightarrow> control_error + bytes \<times> Reader" where
  "read_plaintext r =
     (case read_line_loop [] 0 (rd_chunks r) (rd_fails r) of
        Err e \<Rightarrow> Err e
      | Ok (line_buf, rest) \<Rightarrow> Ok (line_buf, r\<lparr>rd_chunks := rest\<rparr>))"

definition read_frame :: "aead \<Rightarrow> ControlCodec \<Rightarrow> Reader \<Rightarrow> control_error + bytes \<times> ControlCodec \<times> Reader" where
  "read_frame dec recv r =
     (case read_exact 4 r of
        Err e \<Rightarrow> Err e
      | Ok (len_buf, r1) \<Rightarrow>
          (let len = unat (u32_from_be len_buf)
           in if MAX_FRAME < len then Err (FrameTooLarge len)
              else (case read_exact len r1 of
                      Err e \<Rightarrow> Err e
                    | Ok (payload, r2) \<Rightarrow>
                        (case open_frame dec recv payload of
                           (recv', Err e) \<Rightarrow> Err e
                         | (recv', Ok plaintext) \<Rightarrow> Ok (from_utf8_lossy plaintext, recv', r2)))))"

definition ControlReader_read_message ::
  "aead \<Rightarrow> ControlReader \<Rightarrow> Reader \<Rightarrow> control_error + bytes \<times> ControlReader \<times> Reader" where
  "ControlReader_read_message dec t r =
     (case t of
        PlaintextReader \<Rightarrow> (case read_plaintext r of Err e \<Rightarrow> Err e | Ok (l, r') \<Rightarrow> Ok (l, PlaintextReader, r'))
      | ProtectedReader recv \<Rightarrow>
          (case read_frame dec recv r of Err e \<Rightarrow> Err e | Ok (l, recv', r') \<Rightarrow> Ok (l, ProtectedReader recv', r')))"

definition ProtectedControl_read_message ::
  "aead \<Rightarrow> ProtectedControl \<Rightarrow> Reader \<Rightarrow> control_error + bytes \<times> ProtectedControl \<times> Reader" where
  "ProtectedControl_read_message dec t r =
     (case t of
        Plaintext \<Rightarrow> (case read_plaintext r of Err e \<Rightarrow> Err e | Ok (l, r') \<Rightarrow> Ok (l, Plaintext, r'))
      | Protected send recv \<Rightarrow>
          (case read_frame dec recv r of Err e \<Rightarrow> Err e | Ok (l, recv', r') \<Rightarrow> Ok (l, Protected send recv', r')))"

definition encode_message :: "aead \<Rightarrow> ControlWriter \<Rightarrow> string \<Rightarrow> ControlWriter \<times> (control_error + bytes)" where
  "encode_message enc w serialized =
     (case w of
        PlaintextWriter \<Rightarrow> (w, Ok (as_bytes serialized @ [10]))
      | ProtectedWriter send \<Rightarrow>
          (case seal enc send (as_bytes serialized) of
             (send', Err e) \<Rightarrow> (ProtectedWriter send', Err e)
           | (send', Ok payload) \<Rightarrow>
               (ProtectedWriter send', Ok (u32_to_be (word_of_nat (length payload)) @ payload))))"

text \<open>\<open>ProtectedControl::write_message\<close>: the bytes written; the length prefix and the payload are
  two writes of the same bytes as \<open>encode_message\<close>.\<close>

definition ProtectedControl_write_message ::
  "aead \<Rightarrow> ProtectedControl \<Rightarrow> string \<Rightarrow> ProtectedControl \<times> (control_error + bytes)" where
  "ProtectedControl_write_message enc t serialized =
     (case t of
        Plaintext \<Rightarrow> (t, Ok (as_bytes serialized @ [10]))
      | Protected send recv \<Rightarrow>
          (case seal enc send (as_bytes serialized) of
             (send', Err e) \<Rightarrow> (Protected send' recv, Err e)
           | (send', Ok payload) \<Rightarrow>
               (Protected send' recv, Ok (u32_to_be (word_of_nat (length payload)) @ payload))))"

end
