(* ===== verification/Control_Channel.thy ===== *)
theory Control_Channel
  imports Control_Crypto
begin

text \<open>
  Correctness of the protected control channel: messages arrive in order and unchanged however the
  connection splits them, a replayed, reordered or foreign frame is refused by its sequence number,
  no nonce is used for two frames, and a plaintext line survives every chunking when it is ASCII.
\<close>

section \<open>Lossy conversion\<close>

lemma from_utf8_lossy_Nil [simp]: "from_utf8_lossy [] = []"
  by (subst from_utf8_lossy.simps) simp

lemma from_utf8_lossy_valid:
  "bs \<noteq> [] \<Longrightarrow> utf8_step bs = (n, True) \<Longrightarrow> from_utf8_lossy bs = take n bs @ from_utf8_lossy (drop n bs)"
  by (subst from_utf8_lossy.simps) simp

lemma from_utf8_lossy_ascii1: "b < 0x80 \<Longrightarrow> from_utf8_lossy (b # r) = b # from_utf8_lossy r"
  by (subst from_utf8_lossy_valid [of _ 1]) (simp_all add: utf8_step_def)

lemma from_utf8_lossy_ascii: "\<forall>b\<in>set bs. b < 0x80 \<Longrightarrow> from_utf8_lossy bs = bs"
  by (induction bs) (auto simp: from_utf8_lossy_ascii1)

lemma from_utf8_lossy_char: "from_utf8_lossy (utf8_char c @ r) = utf8_char c @ from_utf8_lossy r"
proof -
  define k where "k = (of_char c :: nat)"
  have k: "k < 256" by (simp add: k_def of_char_lt)
  show ?thesis
  proof (cases "k < 128")
    case True
    then have "(word_of_nat k :: byte) < 0x80" by (simp add: word_less_nat_alt unat_of_small)
    with True show ?thesis by (simp add: utf8_char_def k_def [symmetric] Let_def from_utf8_lossy_ascii1)
  next
    case False
    define b0 b1 where "b0 = (word_of_nat (192 + k div 64) :: byte)" and "b1 = (word_of_nat (128 + k mod 64) :: byte)"
    have d: "2 \<le> k div 64" "k div 64 < 4" using False k by (simp_all add: less_mult_imp_div_less)
    have u0: "unat b0 = 192 + k div 64" using d by (simp add: b0_def unat_of_small del: of_nat_add)
    have "k mod 64 < 64" by simp
    then have u1: "unat b1 = 128 + k mod 64" by (simp add: b1_def unat_of_small del: of_nat_add)
    have "k mod 64 \<le> 63" by simp
    then have "utf8_step (b0 # b1 # r) = (2, True)"
      using u0 u1 d by (simp add: utf8_step_def in_range_def word_less_nat_alt word_le_nat_alt Let_def)
    then have "from_utf8_lossy (b0 # b1 # r) = b0 # b1 # from_utf8_lossy r"
      by (subst from_utf8_lossy_valid [of _ 2]) simp_all
    moreover have "utf8_char c = [b0, b1]"
      using False by (simp add: utf8_char_def k_def [symmetric] Let_def b0_def b1_def del: of_nat_add)
    ultimately show ?thesis by simp
  qed
qed

lemma from_utf8_lossy_as_bytes: "from_utf8_lossy (as_bytes s) = as_bytes s"
  by (induction s) (simp_all add: as_bytes_def from_utf8_lossy_char)

section \<open>Reading exactly\<close>

lemma concat_drop_chunks: "concat (drop_chunks n cs) = drop n (concat cs)"
  by (induction n cs rule: drop_chunks.induct) auto

lemma read_exact_append:
  assumes "concat (rd_chunks r) = a @ b" "length a = n"
  shows "\<exists>r'. read_exact n r = Ok (a, r') \<and> concat (rd_chunks r') = b"
  using assms by (auto simp: read_exact_def concat_drop_chunks)

section \<open>The codec\<close>

text \<open>What the channel relies on of the AEAD, for messages that fit a frame: encryption succeeds, adds
  a 16-byte tag, and decryption under the same key, nonce and associated data inverts it.\<close>

definition aead_ok :: "aead \<Rightarrow> aead \<Rightarrow> bool" where
  "aead_ok enc dec \<longleftrightarrow> (\<forall>k n a m. length m \<le> MAX_FRAME \<longrightarrow>
     (\<exists>c. enc k n a m = Some c \<and> length c = length m + 16 \<and> dec k n a c = Some m))"

lemma seal_open:
  assumes "aead_ok enc dec" "length m \<le> MAX_FRAME" "cc_seq c \<noteq> umax"
  shows "\<exists>p. seal enc c m = (c\<lparr>cc_seq := cc_seq c + 1\<rparr>, Ok p) \<and> length p = length m + 24
    \<and> open_frame dec c p = (c\<lparr>cc_seq := cc_seq c + 1\<rparr>, Ok m)"
proof -
  obtain ct where ct: "enc (cc_cipher c) (codec_nonce c) (codec_aad c) m = Some ct" "length ct = length m + 16"
      "dec (cc_cipher c) (codec_nonce c) (codec_aad c) ct = Some m"
    using assms(1,2) unfolding aead_ok_def by blast
  have "unat (cc_seq c) \<noteq> 2 ^ 64 - 1" using assms(3) by (simp add: word_unat_eq_iff)
  moreover have "unat (cc_seq c) < 2 ^ 64" using unat_lt_pow [of "cc_seq c"] by simp
  ultimately have "unat (cc_seq c) + 1 < 2 ^ 64" by simp
  then have "checked_add (cc_seq c) 1 = Some (cc_seq c + 1)" by (simp add: checked_add_def)
  then show ?thesis using ct by (simp add: seal_def open_frame_def)
qed

lemma open_frame_cases:
  "open_frame dec c p = (c', Err e) \<Longrightarrow> c' = c"
  "open_frame dec c p = (c', Ok m) \<Longrightarrow> u64_from_le (subslice 0 8 p) = cc_seq c
     \<and> c' = c\<lparr>cc_seq := cc_seq c + 1\<rparr> \<and> unat (cc_seq c) + 1 < 2 ^ 64"
  by (auto simp: open_frame_def Let_def checked_add_def split: if_splits option.splits)

lemma seal_cases:
  "seal enc c m = (c', Err e) \<Longrightarrow> c' = c"
  "seal enc c m = (c', Ok p) \<Longrightarrow> take 8 p = u64_to_le (cc_seq c)
     \<and> c' = c\<lparr>cc_seq := cc_seq c + 1\<rparr> \<and> unat (cc_seq c) + 1 < 2 ^ 64"
  by (auto simp: seal_def Let_def checked_add_def split: if_splits option.splits)

section \<open>Sequences of messages\<close>

fun send_all :: "aead \<Rightarrow> ControlWriter \<Rightarrow> string list \<Rightarrow> control_error + bytes \<times> ControlWriter" where
  "send_all enc w [] = Ok ([], w)"
| "send_all enc w (m # ms) =
     (case encode_message enc w m of
        (w', Err e) \<Rightarrow> Err e
      | (w', Ok frame) \<Rightarrow> (case send_all enc w' ms of Err e \<Rightarrow> Err e | Ok (bs, w'') \<Rightarrow> Ok (frame @ bs, w'')))"

fun recv_all :: "aead \<Rightarrow> nat \<Rightarrow> ControlReader \<Rightarrow> Reader \<Rightarrow> control_error + bytes list \<times> ControlReader \<times> Reader" where
  "recv_all dec 0 t r = Ok ([], t, r)"
| "recv_all dec (Suc n) t r =
     (case ControlReader_read_message dec t r of
        Err e \<Rightarrow> Err e
      | Ok (line, t', r') \<Rightarrow>
          (case recv_all dec n t' r' of Err e \<Rightarrow> Err e | Ok (ls, t'', r'') \<Rightarrow> Ok (line # ls, t'', r'')))"

lemma message_roundtrip:
  assumes "aead_ok enc dec" "utf8_len m + 24 \<le> MAX_FRAME" "cc_seq c \<noteq> umax"
  shows "\<exists>frame. encode_message enc (ProtectedWriter c) m = (ProtectedWriter (c\<lparr>cc_seq := cc_seq c + 1\<rparr>), Ok frame)
    \<and> (\<forall>r rest. concat (rd_chunks r) = frame @ rest \<longrightarrow>
         (\<exists>r'. ControlReader_read_message dec (ProtectedReader c) r
            = Ok (as_bytes m, ProtectedReader (c\<lparr>cc_seq := cc_seq c + 1\<rparr>), r') \<and> concat (rd_chunks r') = rest))"
proof -
  obtain p where p: "seal enc c (as_bytes m) = (c\<lparr>cc_seq := cc_seq c + 1\<rparr>, Ok p)"
      "length p = utf8_len m + 24" "open_frame dec c p = (c\<lparr>cc_seq := cc_seq c + 1\<rparr>, Ok (as_bytes m))"
    using seal_open [OF assms(1) _ assms(3), of "as_bytes m"] assms(2) by (auto simp: length_as_bytes)
  have le: "length p \<le> MAX_FRAME" using p(2) assms(2) by simp
  have len: "unat (word_of_nat (length p) :: u32) = length p" "length p \<le> MAX_FRAME"
    using le by (auto simp: MAX_FRAME_def intro!: unat_word_of_nat)
  let ?frame = "u32_to_be (word_of_nat (length p)) @ p"
  have "\<exists>r'. ControlReader_read_message dec (ProtectedReader c) r
            = Ok (as_bytes m, ProtectedReader (c\<lparr>cc_seq := cc_seq c + 1\<rparr>), r') \<and> concat (rd_chunks r') = rest"
    if r: "concat (rd_chunks r) = ?frame @ rest" for r rest
  proof -
    obtain r1 where r1: "read_exact 4 r = Ok (u32_to_be (word_of_nat (length p)), r1)" "concat (rd_chunks r1) = p @ rest"
      using read_exact_append [of r "u32_to_be (word_of_nat (length p))" "p @ rest" 4] r by auto
    obtain r2 where r2: "read_exact (length p) r1 = Ok (p, r2)" "concat (rd_chunks r2) = rest"
      using read_exact_append [OF r1(2) refl] by blast
    show ?thesis
      using r1 r2 len p(3)
      by (simp add: ControlReader_read_message_def read_frame_def from_utf8_lossy_as_bytes)
  qed
  moreover have "encode_message enc (ProtectedWriter c) m = (ProtectedWriter (c\<lparr>cc_seq := cc_seq c + 1\<rparr>), Ok ?frame)"
    using p(1) by (simp add: encode_message_def)
  ultimately show ?thesis by blast
qed

lemma channel_roundtrip:
  assumes "aead_ok enc dec" "\<forall>m\<in>set ms. utf8_len m + 24 \<le> MAX_FRAME" "unat (cc_seq c) + length ms < 2 ^ 64"
  shows "\<exists>wire w. send_all enc (ProtectedWriter c) ms = Ok (wire, w) \<and>
    (\<forall>r rest. concat (rd_chunks r) = wire @ rest \<longrightarrow>
       (\<exists>t r'. recv_all dec (length ms) (ProtectedReader c) r = Ok (map as_bytes ms, t, r') \<and> concat (rd_chunks r') = rest))"
  using assms(2,3)
proof (induction ms arbitrary: c)
  case Nil
  then show ?case by simp
next
  case (Cons m ms)
  have ne: "cc_seq c \<noteq> umax"
  proof
    assume "cc_seq c = umax"
    then have "unat (cc_seq c) = 2 ^ 64 - 1" by simp
    then show False using Cons.prems(2) by simp
  qed
  let ?c = "c\<lparr>cc_seq := cc_seq c + 1\<rparr>"
  have "unat (cc_seq c + 1) = unat (cc_seq c) + 1"
    using Cons.prems(2) by (simp add: unat_word_ariths)
  then have "unat (cc_seq ?c) + length ms < 2 ^ 64" using Cons.prems(2) by simp
  with Cons.IH [of ?c] Cons.prems(1) obtain wire w where IH: "send_all enc (ProtectedWriter ?c) ms = Ok (wire, w)"
      "\<And>r rest. concat (rd_chunks r) = wire @ rest \<Longrightarrow>
         \<exists>t r'. recv_all dec (length ms) (ProtectedReader ?c) r = Ok (map as_bytes ms, t, r') \<and> concat (rd_chunks r') = rest"
    by auto
  obtain frame where f: "encode_message enc (ProtectedWriter c) m = (ProtectedWriter ?c, Ok frame)"
      "\<And>r rest. concat (rd_chunks r) = frame @ rest \<Longrightarrow>
         \<exists>r'. ControlReader_read_message dec (ProtectedReader c) r = Ok (as_bytes m, ProtectedReader ?c, r')
              \<and> concat (rd_chunks r') = rest"
    using message_roundtrip [OF assms(1) _ ne, of m] Cons.prems(1) by auto
  have "\<exists>t r'. recv_all dec (length (m # ms)) (ProtectedReader c) r = Ok (map as_bytes (m # ms), t, r') \<and> concat (rd_chunks r') = rest"
    if "concat (rd_chunks r) = (frame @ wire) @ rest" for r rest
  proof -
    obtain r1 where r1: "ControlReader_read_message dec (ProtectedReader c) r = Ok (as_bytes m, ProtectedReader ?c, r1)"
        "concat (rd_chunks r1) = wire @ rest"
      using f(2) [of r "wire @ rest"] \<open>concat (rd_chunks r) = (frame @ wire) @ rest\<close> by auto
    obtain t r' where "recv_all dec (length ms) (ProtectedReader ?c) r1 = Ok (map as_bytes ms, t, r')" "concat (rd_chunks r') = rest"
      using IH(2) [OF r1(2)] by blast
    with r1(1) show ?thesis by simp
  qed
  moreover have "send_all enc (ProtectedWriter c) (m # ms) = Ok (frame @ wire, w)" using f(1) IH(1) by simp
  ultimately show ?case by blast
qed

section \<open>Arbitrary payloads and repeated seals\<close>

text \<open>What a codec accepts of any list of payloads, whoever made them, and what it seals.\<close>

fun open_all :: "aead \<Rightarrow> ControlCodec \<Rightarrow> bytes list \<Rightarrow> ControlCodec \<times> (bytes \<times> bytes) list" where
  "open_all dec c [] = (c, [])"
| "open_all dec c (p # ps) =
     (case open_frame dec c p of
        (c', Err e) \<Rightarrow> open_all dec c' ps
      | (c', Ok m) \<Rightarrow> (let (c'', acc) = open_all dec c' ps in (c'', (p, m) # acc)))"

fun seal_all :: "aead \<Rightarrow> ControlCodec \<Rightarrow> bytes list \<Rightarrow> ControlCodec \<times> bytes list" where
  "seal_all enc c [] = (c, [])"
| "seal_all enc c (m # ms) =
     (case seal enc c m of
        (c', Err e) \<Rightarrow> seal_all enc c' ms
      | (c', Ok f) \<Rightarrow> (let (c'', acc) = seal_all enc c' ms in (c'', f # acc)))"

text \<open>A cipher in the place of \<open>enc\<close> that fails when \<open>enc\<close> does and otherwise gives away the nonce it was called with.\<close>

definition revealing :: "aead \<Rightarrow> aead" where
  "revealing enc = (\<lambda>key nonce aad m. map_option (\<lambda>_. nonce) (enc key nonce aad m))"

text \<open>A run of consecutive sequence numbers.\<close>

definition seq_run :: "u64 \<Rightarrow> nat \<Rightarrow> u64 list" where
  "seq_run s n = map (\<lambda>i. s + word_of_nat i) [0..<n]"

lemma seq_run_0 [simp]: "seq_run s 0 = []"
  by (simp add: seq_run_def)

lemma seq_run_Suc [simp]: "seq_run s (Suc n) = s # seq_run (s + 1) n"
  by (simp add: seq_run_def upt_conv_Cons map_Suc_upt [symmetric] algebra_simps del: upt_Suc)

lemma seq_run_distinct: "unat s + n < 2 ^ 64 \<Longrightarrow> distinct (seq_run s n)"
proof -
  assume n: "unat s + n < 2 ^ 64"
  have "inj_on (\<lambda>i. s + word_of_nat i) {0..<n}"
  proof (rule inj_onI)
    fix i j
    assume "i \<in> {0..<n}" "j \<in> {0..<n}" "s + word_of_nat i = s + word_of_nat j"
    then have ij: "i < 2 ^ 64" "j < 2 ^ 64" and "(word_of_nat i :: u64) = word_of_nat j" using n by auto
    then have "unat (word_of_nat i :: u64) = unat (word_of_nat j :: u64)" by simp
    then show "i = j" using unat_word_of_nat [where 'a=64, of i] unat_word_of_nat [where 'a=64, of j] ij by simp
  qed
  then show ?thesis by (simp add: seq_run_def distinct_map)
qed

lemma open_all_run:
  "open_all dec c ps = (c', acc) \<Longrightarrow>
     map (\<lambda>(p, m). u64_from_le (subslice 0 8 p)) acc = seq_run (cc_seq c) (length acc)
     \<and> unat (cc_seq c) + length acc < 2 ^ 64"
proof (induction ps arbitrary: c c' acc)
  case Nil
  then show ?case using unat_lt_pow [of "cc_seq c"] by simp
next
  case (Cons p ps)
  obtain c1 res where o: "open_frame dec c p = (c1, res)" by fastforce
  show ?case
  proof (cases res)
    case (Inl e)
    then show ?thesis using Cons o open_frame_cases(1) [of dec c p c1 e] by simp
  next
    case (Inr m)
    note oc = open_frame_cases(2) [OF o [unfolded Inr]]
    obtain c2 acc1 where rec: "open_all dec c1 ps = (c2, acc1)" by fastforce
    then have acc: "acc = (p, m) # acc1" using Cons.prems o Inr by simp
    have "unat (cc_seq c + 1) = unat (cc_seq c) + 1" using oc by (simp add: unat_word_ariths)
    then show ?thesis using Cons.IH [OF rec] oc acc by simp
  qed
qed

lemma seal_all_run:
  "seal_all (revealing enc) c ms = (c', acc) \<Longrightarrow>
     map (drop 8) acc = map (\<lambda>s. u64_to_le s @ [0, 0, 0, 0]) (seq_run (cc_seq c) (length acc))
     \<and> unat (cc_seq c) + length acc < 2 ^ 64"
proof (induction ms arbitrary: c c' acc)
  case Nil
  then show ?case using unat_lt_pow [of "cc_seq c"] by simp
next
  case (Cons m ms)
  obtain c1 res where o: "seal (revealing enc) c m = (c1, res)" by fastforce
  show ?case
  proof (cases res)
    case (Inl e)
    then show ?thesis using Cons o seal_cases(1) [of "revealing enc" c m c1 e] by simp
  next
    case (Inr f)
    note oc = seal_cases(2) [OF o [unfolded Inr]]
    obtain c2 acc1 where rec: "seal_all (revealing enc) c1 ms = (c2, acc1)" by fastforce
    then have acc: "acc = f # acc1" using Cons.prems o Inr by simp
    have nf: "drop 8 f = codec_nonce c"
      using o Inr by (auto simp: seal_def revealing_def Let_def split: option.splits)
    have "unat (cc_seq c + 1) = unat (cc_seq c) + 1" using oc by (simp add: unat_word_ariths)
    moreover have "codec_nonce c = u64_to_le (cc_seq c) @ [0, 0, 0, 0]"
      by (simp add: codec_nonce_def NONCE_LEN_def numeral_eq_Suc)
    ultimately show ?thesis using Cons.IH [OF rec] oc acc nf by simp
  qed
qed

section \<open>Plaintext lines\<close>

lemma position_append_None: "position P xs = None \<longleftrightarrow> (\<forall>x\<in>set xs. \<not> P x)"
  by (induction xs) auto

lemma position_split:
  "\<forall>x\<in>set xs. \<not> P x \<Longrightarrow> P y \<Longrightarrow> position P (xs @ y # zs) = Some (length xs)"
  by (induction xs) auto

lemma append_prefix_split:
  "xs @ ys = ps @ qs \<Longrightarrow> length ps \<le> length xs \<Longrightarrow> xs = ps @ drop (length ps) xs \<and> drop (length ps) xs @ ys = qs"
  by (auto simp: append_eq_append_conv2)

text \<open>A line arrives whole, however it is chunked, when each chunk converts to itself.\<close>

lemma read_line_loop_ascii:
  assumes "concat cs = l @ [10] @ rest" "\<forall>b\<in>set l. b \<noteq> 10 \<and> b < 0x80" "[] \<notin> set cs"
    "tot + length l + 1 \<le> MAX_LINE_LENGTH"
  shows "\<exists>cs'. read_line_loop buf tot cs fails = Ok (buf @ l @ [10], cs') \<and> concat cs' = rest \<and> [] \<notin> set cs'"
  using assms
proof (induction cs arbitrary: buf tot l)
  case Nil
  then show ?case by simp
next
  case (Cons bs cs)
  show ?case
  proof (cases "length bs \<le> length l")
    case True
    then obtain l' where l: "l = bs @ l'" "concat cs = l' @ [10] @ rest"
      using Cons.prems(1) by (metis (no_types, lifting) append_eq_append_conv_if append_take_drop_id concat.simps(2))
    have nl: "position (\<lambda>b. b = 10) bs = None" using Cons.prems(2) l by (auto simp: position_append_None)
    have "from_utf8_lossy bs = bs" using Cons.prems(2) l by (auto intro: from_utf8_lossy_ascii)
    moreover have "\<exists>cs'. read_line_loop (buf @ bs) (tot + length bs) cs fails = Ok ((buf @ bs) @ l' @ [10], cs')
        \<and> concat cs' = rest \<and> [] \<notin> set cs'"
      using Cons.prems l by (intro Cons.IH) auto
    ultimately show ?thesis using nl Cons.prems l by auto
  next
    case False
    then obtain r where r: "bs = l @ [10] @ r" "r @ concat cs = rest"
    proof -
      have "bs @ concat cs = (l @ [10]) @ rest" "length (l @ [10]) \<le> length bs" using False Cons.prems(1) by simp_all
      then have "bs = (l @ [10]) @ drop (length (l @ [10])) bs \<and> drop (length (l @ [10])) bs @ concat cs = rest"
        by (intro append_prefix_split)
      then obtain us where "bs = (l @ [10]) @ us" "us @ concat cs = rest" by blast
      then show ?thesis using that by simp
    qed
    have p: "position (\<lambda>b. b = 10) bs = Some (length l)"
      using Cons.prems(2) r by (auto intro: position_split)
    have "from_utf8_lossy (l @ [10]) = l @ [10]" using Cons.prems(2) by (intro from_utf8_lossy_ascii) auto
    then show ?thesis using p r Cons.prems by auto
  qed
qed

section \<open>Properties\<close>

definition toy_enc :: aead where "toy_enc k n a m = Some (m @ replicate 16 0)"
definition toy_dec :: aead where "toy_dec k n a c = Some (take (length c - 16) c)"

lemma toy_aead_ok: "aead_ok toy_enc toy_dec"
  by (simp add: aead_ok_def toy_enc_def toy_dec_def)

definition delivers :: "aead \<Rightarrow> aead \<Rightarrow> ControlWriter \<Rightarrow> ControlReader \<Rightarrow> string list \<Rightarrow> bool" where
  "delivers enc dec w t ms \<longleftrightarrow> (\<exists>wire w'. send_all enc w ms = Ok (wire, w') \<and>
     (\<forall>r rest. concat (rd_chunks r) = wire @ rest \<longrightarrow>
        (\<exists>t' r'. recv_all dec (length ms) t r = Ok (map as_bytes ms, t', r') \<and> concat (rd_chunks r') = rest)))"

text \<open>With codecs derived from the same nonces and key, every list of messages that fit a frame is read by
  the other peer in order and unchanged, however the connection cuts the bytes into chunks.\<close>

lemma derived_codecs_deliver:
  assumes "aead_ok enc dec" "derive_pair hkdf client_nonce server_nonce psk = Ok (c2s, s2c)"
    "list_all (\<lambda>m. utf8_len m + 24 \<le> MAX_FRAME) ms" "length ms < 2 ^ 64"
  shows "delivers enc dec (snd (split_transport (protected_client c2s s2c)))
           (fst (split_transport (protected_server c2s s2c))) ms
    \<and> delivers enc dec (snd (split_transport (protected_server c2s s2c)))
           (fst (split_transport (protected_client c2s s2c))) ms"
proof -
  have "cc_seq c2s = 0" "cc_seq s2c = 0"
    using assms(2) by (auto simp: derive_pair_def derive_pair_with_key_def ControlCodec_new_def split: sum.splits prod.splits)
  then have "unat (cc_seq c2s) + length ms < 2 ^ 64" "unat (cc_seq s2c) + length ms < 2 ^ 64"
    using assms(4) by simp_all
  then show ?thesis
    using channel_roundtrip [OF assms(1)] assms(3)
    by (simp add: delivers_def split_transport_def protected_client_def protected_server_def list_all_iff)
qed

text \<open>C11: whatever payloads an attacker delivers, the ones a codec accepts carry consecutive sequence
  numbers from its current one, so no payload is accepted twice and none out of order; the sequence
  number never wraps.\<close>

theorem replay_rejected:
  "map (\<lambda>(p, m). u64_from_le (subslice 0 8 p)) (snd (open_all dec c ps))
      = seq_run (cc_seq c) (length (snd (open_all dec c ps)))
    \<and> distinct (map fst (snd (open_all dec c ps)))
    \<and> unat (cc_seq c) + length (snd (open_all dec c ps)) < 2 ^ 64"
proof -
  obtain c' acc where o: "open_all dec c ps = (c', acc)" by fastforce
  note run = open_all_run [OF o]
  then have "distinct (map (\<lambda>(p, m). u64_from_le (subslice 0 8 p)) acc)" by (simp add: seq_run_distinct)
  then have "distinct (map (\<lambda>p. u64_from_le (subslice 0 8 p)) (map fst acc))" by (simp add: comp_def case_prod_unfold)
  then have "distinct (map fst acc)" by (simp only: distinct_map)
  with run o show ?thesis by simp
qed

text \<open>C12: over the life of a codec no two frames it returns were encrypted under the same nonce, whatever the cipher and whichever
  calls of it fail. A frame is eight bytes of sequence number and the ciphertext; with the cipher replaced by one that returns its
  nonce, what follows the eight bytes is the nonce that the cipher was given.\<close>

theorem nonce_never_reused: "distinct (map (drop 8) (snd (seal_all (revealing enc) c ms)))"
proof -
  obtain c' acc where o: "seal_all (revealing enc) c ms = (c', acc)" by fastforce
  have "distinct (seq_run (cc_seq c) (length acc))" using seal_all_run [OF o] by (intro seq_run_distinct) simp
  moreover have "inj (\<lambda>s. u64_to_le s @ [0, 0, 0, 0 :: byte])" by (rule injI) (simp add: u64_to_le_inj)
  ultimately show ?thesis using seal_all_run [OF o] o by (simp add: distinct_map inj_on_def inj_def)
qed

text \<open>In plaintext mode an ASCII message without a line feed, of at most one megabyte with its line
  feed, is read back as that line however it is cut into chunks, and what follows it stays queued.\<close>

theorem plaintext_line_roundtrip:
  assumes "is_ascii msg" "CHR 0x0A \<notin> set msg" "length msg + 1 \<le> MAX_LINE_LENGTH"
    "encode_message enc PlaintextWriter msg = (w, Ok wire)"
    "concat (rd_chunks r) = wire @ rest" "[] \<notin> set (rd_chunks r)"
  shows "\<exists>r'. ControlReader_read_message dec PlaintextReader r = Ok (as_bytes msg @ [10], PlaintextReader, r')
    \<and> concat (rd_chunks r') = rest"
proof -
  have wire: "wire = as_bytes msg @ [10]" using assms(4) by (simp add: encode_message_def)
  have byte: "b \<noteq> 10 \<and> b < 0x80" if mem: "b \<in> set (as_bytes msg)" for b
  proof -
    obtain c where c: "c \<in> set msg" "b \<in> set (utf8_char c)" using mem by (auto simp: as_bytes_def)
    define k where "k = (of_char c :: nat)"
    have "c = char_of k" by (simp add: k_def)
    moreover have "char_of (10 :: nat) = CHR 0x0A" by code_simp
    ultimately have "k \<noteq> 10" using c(1) assms(2) by auto
    then have k: "k < 128" "k \<noteq> 10"
      using c assms(1) by (auto simp: k_def is_ascii_def list_all_iff is_ascii_char_def)
    then have b: "b = word_of_nat k" using c(2) by (simp add: utf8_char_def k_def [symmetric] Let_def)
    then have "unat b = k" using k unat_of_small by simp
    then show ?thesis using k by (auto simp: word_less_nat_alt)
  qed
  have "length (as_bytes msg) = length msg" using assms(1) by (simp add: length_as_bytes utf8_len_ascii)
  then have "\<exists>cs'. read_line_loop [] 0 (rd_chunks r) (rd_fails r) = Ok ([] @ as_bytes msg @ [10], cs') \<and> concat cs' = rest \<and> [] \<notin> set cs'"
    using assms(3,5,6) byte wire by (intro read_line_loop_ascii) auto
  then show ?thesis by (auto simp: ControlReader_read_message_def read_plaintext_def)
qed

theorem plaintext_line_roundtrip_witness:
  "\<exists>r'. ControlReader_read_message toy_dec PlaintextReader \<lparr>rd_chunks = [[123], [125, 10, 91]], rd_fails = False\<rparr>
      = Ok (as_bytes ''{}'' @ [10], PlaintextReader, r') \<and> concat (rd_chunks r') = [91]"
proof -
  have w: "as_bytes ''{}'' = [123, 125]" by (simp add: as_bytes_def utf8_char_def)
  have "encode_message toy_enc PlaintextWriter ''{}'' = (PlaintextWriter, Ok [123, 125, 10])"
    by (simp add: encode_message_def w)
  from plaintext_line_roundtrip [OF _ _ _ this, of "\<lparr>rd_chunks = [[123], [125, 10, 91]], rd_fails = False\<rparr>" "[91]" toy_dec]
  show ?thesis by (simp add: is_ascii_def is_ascii_char_def MAX_LINE_LENGTH_def)
qed

text \<open>A character of two bytes that straddles two chunks is not read back: each half becomes U+FFFD.\<close>

lemma plaintext_split_character:
  "as_bytes [CHR 0xE9] = [0xC3, 0xA9] \<and>
   read_plaintext \<lparr>rd_chunks = [[0xC3], [0xA9, 10]], rd_fails = False\<rparr>
     = Ok ([0xEF, 0xBF, 0xBD, 0xEF, 0xBF, 0xBD, 10], \<lparr>rd_chunks = [], rd_fails = False\<rparr>)"
proof
  show "as_bytes [CHR 0xE9] = [0xC3, 0xA9]" by (simp add: as_bytes_def utf8_char_def)
  have "from_utf8_lossy [0xC3] = [0xEF, 0xBF, 0xBD]"
    by (subst from_utf8_lossy.simps) (simp add: utf8_step_def in_range_def)
  moreover have "from_utf8_lossy [0xA9, 10] = [0xEF, 0xBF, 0xBD, 10]"
    by (subst from_utf8_lossy.simps) (simp add: utf8_step_def in_range_def from_utf8_lossy_ascii1)
  ultimately show "read_plaintext \<lparr>rd_chunks = [[0xC3], [0xA9, 10]], rd_fails = False\<rparr>
     = Ok ([0xEF, 0xBF, 0xBD, 0xEF, 0xBF, 0xBD, 10], \<lparr>rd_chunks = [], rd_fails = False\<rparr>)"
    by (simp add: read_plaintext_def MAX_LINE_LENGTH_def)
qed

text \<open>The server's proof is accepted exactly when it is the proof over both hellos.\<close>

lemma verify_server_proof_iff:
  "compute_server_proof hkdf hmac ch sh cn sn psk = Ok p \<Longrightarrow>
     verify_server_proof hkdf hmac ch sh cn sn psk expected = Ok (expected = p)"
  by (auto simp: verify_server_proof_def verify_server_proof_with_key_def compute_server_proof_def
      constant_time_eq_iff as_bytes_inj)

end
