(* ===== verification/Reporting.thy ===== *)
theory Reporting
  imports Stats Pause Control_Channel
begin

text \<open>
  Interval reporting on the server (\<open>src/serve/reporting.rs\<close>, with the control reader of \<open>src/serve.rs\<close>): the
  loop that samples the statistics once a second, coalesces samples while the client does not
  read, writes one frame at a time, obeys control commands and ends the test. Each iteration has the
  clock reading at its top and the branch of the \<open>select\<close> that won, with what it observed.
\<close>

section \<open>Control commands\<close>

datatype ControlCommand = CmdCancel | CmdPause | CmdResume | CmdFinish

definition control_command :: "string \<Rightarrow> ControlMessage \<Rightarrow> ControlCommand option" where
  "control_command test_id msg =
     (case msg of
        Cancel cid reason \<Rightarrow> if cid = test_id then Some CmdCancel else None
      | ControlMessage.Pause pid \<Rightarrow> if pid = test_id then Some CmdPause else None
      | Finish fid \<Rightarrow> if fid = test_id then Some CmdFinish else None
      | Resume rid \<Rightarrow> if rid = test_id then Some CmdResume else None
      | _ \<Rightarrow> None)"

text \<open>The reader task on the lines it reads (a failed read is \<open>None\<close>), until it ends; the flag says
  whether it has ended. The receiver outlives it.\<close>

fun control_reader :: "(string \<Rightarrow> ControlMessage option) \<Rightarrow> string \<Rightarrow> string option list \<Rightarrow> ControlCommand list \<times> bool" where
  "control_reader from_json test_id [] = ([], False)"
| "control_reader from_json test_id (None # ls) = ([], True)"
| "control_reader from_json test_id (Some line # ls) =
     (if trim line = [] then ([], True)
      else (let (cmds, ended) = control_reader from_json test_id ls
            in case deserialize from_json (trim line) of
                 Err e \<Rightarrow> (cmds, ended)
               | Ok msg \<Rightarrow> (case control_command test_id msg of None \<Rightarrow> (cmds, ended) | Some cmd \<Rightarrow> (cmd # cmds, ended))))"

definition budget_transfer_complete :: "Protocol.Direction \<Rightarrow> bool \<Rightarrow> bool \<Rightarrow> bool" where
  "budget_transfer_complete direction client_finished server_send_done =
     (case direction of Upload \<Rightarrow> client_finished | Download \<Rightarrow> server_send_done
      | Bidir \<Rightarrow> client_finished \<and> server_send_done)"

definition FINISH_DRAIN_GRACE :: duration where "FINISH_DRAIN_GRACE = 10000000000"
definition FINISH_DRAIN_GRACE_UDP :: duration where "FINISH_DRAIN_GRACE_UDP = 250000000"

definition finish_drain_grace :: "Protocol \<Rightarrow> duration" where
  "finish_drain_grace protocol =
     (case protocol of Udp \<Rightarrow> FINISH_DRAIN_GRACE_UDP | Tcp \<Rightarrow> FINISH_DRAIN_GRACE | QuicProto \<Rightarrow> FINISH_DRAIN_GRACE)"

section \<open>Frames\<close>

datatype report_error = EncodeFailed control_error | WriteFailed | WriteZero | AlreadyFinished | FlushTimedOut

record Frame =
  fr_bytes :: bytes
  fr_offset :: nat

definition Frame_encode :: "aead \<Rightarrow> ControlWriter \<Rightarrow> string \<Rightarrow> ControlWriter \<times> (report_error + Frame)" where
  "Frame_encode enc codec serialized =
     (case encode_message enc codec serialized of
        (codec', Err e) \<Rightarrow> (codec', Err (EncodeFailed e))
      | (codec', Ok b) \<Rightarrow> (codec', Ok \<lparr>fr_bytes = b, fr_offset = 0\<rparr>))"

definition frame_rest :: "Frame \<Rightarrow> bytes" where
  "frame_rest f = drop (fr_offset f) (fr_bytes f)"

text \<open>One write: the writer fails (\<open>None\<close>) or takes some bytes of what it is given. The result is the
  frame and the bytes that went out.\<close>

definition write_once :: "Frame \<Rightarrow> nat option \<Rightarrow> report_error + Frame \<times> bytes" where
  "write_once f accepts =
     (case accepts of
        None \<Rightarrow> Err WriteFailed
      | Some n \<Rightarrow>
          (let written = min n (length (frame_rest f))
           in if written = 0 then Err WriteZero
              else Ok (f\<lparr>fr_offset := fr_offset f + written\<rparr>, take written (frame_rest f))))"

definition frame_complete :: "Frame \<Rightarrow> bool" where
  "frame_complete f = (fr_offset f = length (fr_bytes f))"

section \<open>Samples\<close>

record Sample =
  sm_intervals :: "IntervalStats list"
  sm_durations :: "duration list"
  sm_elapsed_ms :: u64

text \<open>Each stream's snapshot has its own clock reading and counter readings, in the order of the streams.\<close>

definition record_intervals_with :: "TestStats \<Rightarrow> (instant \<times> reading) list \<Rightarrow> TestStats \<times> IntervalStats list" where
  "record_intervals_with t obs =
     (let rs = map2 (\<lambda>s (now, rd). record_interval_with s now rd) (tst_streams t) obs
      in (t\<lparr>tst_streams := map fst rs\<rparr>, map snd rs))"

definition Sample_capture :: "TestStats \<Rightarrow> (instant \<times> reading) list \<Rightarrow> u64 \<Rightarrow> TestStats \<times> Sample" where
  "Sample_capture stats obs elapsed_ms =
     (let previous = map (\<lambda>s. if st_intervals s = [] then st_start_time s else is_timestamp (last (st_intervals s))) (tst_streams stats);
          (stats', intervals) = record_intervals_with stats obs;
          durations = map2 (\<lambda>iv prev. is_timestamp iv - prev) intervals previous
      in (stats', \<lparr>sm_intervals = intervals, sm_durations = durations, sm_elapsed_ms = elapsed_ms\<rparr>))"

definition merge_interval :: "IntervalStats \<Rightarrow> duration \<Rightarrow> IntervalStats \<Rightarrow> duration \<Rightarrow> IntervalStats \<times> duration" where
  "merge_interval older dur newer newer_dur =
     (let total_dur = dur + newer_dur; b = saturating_add (is_bytes older) (is_bytes newer)
      in (newer\<lparr>is_bytes := b,
                is_retransmits := saturating_add (is_retransmits older) (is_retransmits newer),
                is_lost := saturating_add (is_lost older) (is_lost newer),
                is_bytes_sent := saturating_add (is_bytes_sent older) (is_bytes_sent newer),
                is_bytes_received := saturating_add (is_bytes_received older) (is_bytes_received newer),
                is_throughput_mbps := (if total_dur = 0 then 0 else u64_as_f64 b * 8 / secs_f64 total_dur / 1000000)\<rparr>,
          total_dur))"

definition Sample_merge :: "Sample \<Rightarrow> Sample \<Rightarrow> Sample" where
  "Sample_merge older newer =
     (let ms = map2 (\<lambda>(o_iv, o_d) (n_iv, n_d). merge_interval o_iv o_d n_iv n_d)
                 (zip (sm_intervals older) (sm_durations older)) (zip (sm_intervals newer) (sm_durations newer))
      in \<lparr>sm_intervals = map fst ms, sm_durations = map snd ms, sm_elapsed_ms = sm_elapsed_ms newer\<rparr>)"

record ReportLoopConfig =
  rc_id :: string
  rc_protocol :: Protocol
  rc_duration :: duration
  rc_direction :: Protocol.Direction
  rc_tui :: bool
  rc_byte_budget_test :: bool
  rc_end_on_server_send :: bool

definition Sample_message :: "ReportLoopConfig \<Rightarrow> TestStats \<Rightarrow> Sample \<Rightarrow> ControlMessage" where
  "Sample_message config stats s =
     Interval (rc_id config) (sm_elapsed_ms s)
       (map2 (\<lambda>stream iv. to_interval_with_direction stream iv (rc_direction config = Bidir)) (tst_streams stats) (sm_intervals s))
       (to_aggregate_with_direction (sm_intervals s) (rc_direction config = Bidir))"

definition Sample_serialize :: "(ControlMessage \<Rightarrow> string) \<Rightarrow> ReportLoopConfig \<Rightarrow> TestStats \<Rightarrow> Sample \<Rightarrow> string" where
  "Sample_serialize to_json config stats s = serialize to_json (Sample_message config stats s)"

section \<open>The loop\<close>

definition active_elapsed :: "instant \<Rightarrow> instant \<Rightarrow> duration \<Rightarrow> instant option \<Rightarrow> duration" where
  "active_elapsed now start paused_total pause_start =
     (now - start) - (paused_total + (case pause_start of None \<Rightarrow> 0 | Some p \<Rightarrow> now - p))"

definition as_millis :: "duration \<Rightarrow> u64" where
  "as_millis d = word_of_nat (d div 1000000)"

record report_state =
  rp_codec :: ControlWriter
  rp_stats :: TestStats
  rp_paused_total :: duration
  rp_pause_start :: "instant option"
  rp_current :: "Frame option"
  rp_pending :: "Sample option"
  rp_cancelled :: bool
  rp_client_finished :: bool
  rp_server_send_done :: bool
  rp_drain_until :: "instant option"
  rp_received_at :: "duration option"
  rp_sent_at :: "duration option"
  rp_written :: bytes
  rp_pause_sent :: "bool list"
  rp_tui_updates :: "(u64 \<times> f64) list"

definition report_init :: "ControlWriter \<Rightarrow> TestStats \<Rightarrow> report_state" where
  "report_init codec stats = \<lparr>rp_codec = codec, rp_stats = stats, rp_paused_total = 0, rp_pause_start = None,
     rp_current = None, rp_pending = None, rp_cancelled = False, rp_client_finished = False, rp_server_send_done = False,
     rp_drain_until = None, rp_received_at = None, rp_sent_at = None, rp_written = [], rp_pause_sent = [],
     rp_tui_updates = []\<rparr>"

text \<open>The branches of the \<open>select\<close>: the duration's deadline (which a timer never reaches early), the drain's deadline, the receive loops done, the send
  loops done, a tick with its readings, a command (the end of the reader is \<open>None\<close>; the flag says
  whether the test is still registered), a write. A branch whose guard is off is never taken.\<close>

datatype report_event =
    DurationDeadline instant
  | DrainExpired instant
  | RecvDone instant
  | SendDone instant
  | StatsTick instant "(instant \<times> reading) list"
  | Command "ControlCommand option" instant bool
  | Written "nat option"

datatype loop_state = Running report_state | Ended report_state | Failed report_error report_state

definition state_elapsed :: "instant \<Rightarrow> instant \<Rightarrow> report_state \<Rightarrow> duration" where
  "state_elapsed start now st = active_elapsed now start (rp_paused_total st) (rp_pause_start st)"

definition report_top :: "aead \<Rightarrow> (ControlMessage \<Rightarrow> string) \<Rightarrow> ReportLoopConfig \<Rightarrow> instant \<Rightarrow> instant \<Rightarrow> report_state \<Rightarrow> loop_state" where
  "report_top enc to_json config start now st =
     (if rc_duration config \<noteq> 0 \<and> rc_duration config \<le> state_elapsed start now st then Ended st
      else (case (rp_current st, rp_pending st) of
              (None, Some sample) \<Rightarrow>
                (case Frame_encode enc (rp_codec st) (Sample_serialize to_json config (rp_stats st) sample) of
                   (codec, Err e) \<Rightarrow> Failed e (st\<lparr>rp_codec := codec, rp_pending := None\<rparr>)
                 | (codec, Ok f) \<Rightarrow> Running (st\<lparr>rp_codec := codec, rp_pending := None, rp_current := Some f\<rparr>))
            | _ \<Rightarrow> Running st))"

definition get_or_insert :: "'a option \<Rightarrow> 'a \<Rightarrow> 'a option" where
  "get_or_insert x y = (case x of None \<Rightarrow> Some y | Some _ \<Rightarrow> x)"

definition end_if :: "bool \<Rightarrow> report_state \<Rightarrow> loop_state" where
  "end_if b st = (if b then Ended st else Running st)"

definition transfer_complete :: "ReportLoopConfig \<Rightarrow> report_state \<Rightarrow> bool" where
  "transfer_complete config st =
     budget_transfer_complete (rc_direction config) (rp_client_finished st) (rp_server_send_done st)"

definition report_tick :: "ReportLoopConfig \<Rightarrow> instant \<Rightarrow> instant \<Rightarrow> (instant \<times> reading) list \<Rightarrow> report_state \<Rightarrow> loop_state" where
  "report_tick config start now obs st =
     (let elapsed = state_elapsed start now st
      in if rc_duration config \<noteq> 0 \<and> rc_duration config \<le> elapsed then Ended st
         else (let (stats', sample) = Sample_capture (rp_stats st) obs (as_millis elapsed);
                   agg = to_aggregate_with_direction (sm_intervals sample) (rc_direction config = Bidir);
                   st = st\<lparr>rp_stats := stats',
                           rp_tui_updates := (if rc_tui config then rp_tui_updates st @ [(ai_bytes agg, ai_throughput_mbps agg)]
                                              else rp_tui_updates st)\<rparr>
               in Running (st\<lparr>rp_pending := Some (case rp_pending st of Some p \<Rightarrow> Sample_merge p sample | None \<Rightarrow> sample)\<rparr>)))"

definition report_command :: "ReportLoopConfig \<Rightarrow> ControlCommand option \<Rightarrow> instant \<Rightarrow> bool \<Rightarrow> report_state \<Rightarrow> loop_state" where
  "report_command config cmd now registered st =
     (case cmd of
        Some CmdFinish \<Rightarrow>
          if rc_byte_budget_test config \<and> \<not> rp_client_finished st \<and> rp_drain_until st = None
          then Running (st\<lparr>rp_drain_until := Some (now + finish_drain_grace (rc_protocol config))\<rparr>) else Running st
      | Some CmdCancel \<Rightarrow> Ended (st\<lparr>rp_cancelled := True\<rparr>)
      | Some CmdPause \<Rightarrow>
          Running (st\<lparr>rp_pause_start := get_or_insert (rp_pause_start st) now,
                      rp_pause_sent := (if registered then rp_pause_sent st @ [True] else rp_pause_sent st)\<rparr>)
      | Some CmdResume \<Rightarrow>
          Running (st\<lparr>rp_pause_start := None,
                      rp_paused_total := rp_paused_total st + (case rp_pause_start st of None \<Rightarrow> 0 | Some p \<Rightarrow> now - p),
                      rp_pause_sent := (if registered then rp_pause_sent st @ [False] else rp_pause_sent st)\<rparr>)
      | None \<Rightarrow> Ended st)"

definition report_write :: "nat option \<Rightarrow> report_state \<Rightarrow> loop_state" where
  "report_write accepts st =
     (case rp_current st of
        None \<Rightarrow> Running st
      | Some f \<Rightarrow>
          (case write_once f accepts of
             Err e \<Rightarrow> Failed e st
           | Ok (f', out) \<Rightarrow>
               Running (st\<lparr>rp_written := rp_written st @ out, rp_current := (if frame_complete f' then None else Some f')\<rparr>)))"

definition report_event_step :: "ReportLoopConfig \<Rightarrow> instant \<Rightarrow> report_event \<Rightarrow> report_state \<Rightarrow> loop_state" where
  "report_event_step config start e st =
     (case e of
        DurationDeadline now \<Rightarrow>
          end_if (rc_duration config \<noteq> 0 \<and> rp_pause_start st = None
                    \<and> start + rp_paused_total st + rc_duration config \<le> now) st
      | DrainExpired now \<Rightarrow>
          if rp_drain_until st = None then Running st
          else (let st = st\<lparr>rp_client_finished := True,
                           rp_received_at := get_or_insert (rp_received_at st) (state_elapsed start now st),
                           rp_drain_until := None\<rparr>
                in end_if (transfer_complete config st) st)
      | RecvDone now \<Rightarrow>
          if rp_drain_until st \<noteq> None \<or> (rc_byte_budget_test config \<and> rc_protocol config \<noteq> Udp \<and> rp_received_at st = None)
          then (let st = st\<lparr>rp_received_at := get_or_insert (rp_received_at st) (state_elapsed start now st)\<rparr>
                in if rp_drain_until st \<noteq> None
                   then (let st = st\<lparr>rp_client_finished := True, rp_drain_until := None\<rparr>
                         in end_if (transfer_complete config st) st)
                   else Running st)
          else Running st
      | SendDone now \<Rightarrow>
          if rc_end_on_server_send config \<and> \<not> rp_server_send_done st
          then (let st = st\<lparr>rp_server_send_done := True, rp_sent_at := Some (state_elapsed start now st)\<rparr>
                in end_if (transfer_complete config st) st)
          else Running st
      | StatsTick now obs \<Rightarrow> report_tick config start now obs st
      | Command cmd now registered \<Rightarrow> report_command config cmd now registered st
      | Written accepts \<Rightarrow> report_write accepts st)"

definition report_iter ::
  "aead \<Rightarrow> (ControlMessage \<Rightarrow> string) \<Rightarrow> ReportLoopConfig \<Rightarrow> instant \<Rightarrow> instant \<Rightarrow> report_event \<Rightarrow> report_state \<Rightarrow> loop_state" where
  "report_iter enc to_json config start now e st =
     (case report_top enc to_json config start now st of
        Running st' \<Rightarrow> report_event_step config start e st'
      | r \<Rightarrow> r)"

fun report_loop ::
  "aead \<Rightarrow> (ControlMessage \<Rightarrow> string) \<Rightarrow> ReportLoopConfig \<Rightarrow> instant \<Rightarrow> (instant \<times> report_event) list \<Rightarrow> report_state \<Rightarrow> loop_state" where
  "report_loop enc to_json config start [] st = Running st"
| "report_loop enc to_json config start ((now, e) # its) st =
     (case report_iter enc to_json config start now e st of
        Running st' \<Rightarrow> report_loop enc to_json config start its st'
      | r \<Rightarrow> r)"

text \<open>The wrapper stops the data tasks, if the test is still registered, once the loop is over in any way.\<close>

definition report_run ::
  "aead \<Rightarrow> (ControlMessage \<Rightarrow> string) \<Rightarrow> ReportLoopConfig \<Rightarrow> instant \<Rightarrow> (instant \<times> report_event) list \<Rightarrow> report_state
     \<Rightarrow> bool \<Rightarrow> loop_state \<times> bool" where
  "report_run enc to_json config start its st registered =
     (let r = report_loop enc to_json config start its st
      in (r, registered \<and> (case r of Running _ \<Rightarrow> False | _ \<Rightarrow> True)))"

section \<open>The end of a report\<close>

definition CANCEL_FLUSH_TIMEOUT :: duration where "CANCEL_FLUSH_TIMEOUT = 3000000000"
definition RESULT_FLUSH_TIMEOUT :: duration where "RESULT_FLUSH_TIMEOUT = 30000000000"

record Reporting =
  rg_start :: instant
  rg_paused_total :: duration
  rg_pause_start :: "instant option"
  rg_transfer_end :: "duration option"
  rg_codec :: "ControlWriter option"
  rg_current :: "Frame option"
  rg_pending :: "string option"
  rg_cancelled :: "string option"
  rg_finish_deadline :: instant

definition option_time_max :: "duration option \<Rightarrow> duration option \<Rightarrow> duration option" where
  "option_time_max a b = (case (a, b) of (None, y) \<Rightarrow> y | (x, None) \<Rightarrow> x | (Some x, Some y) \<Rightarrow> Some (max x y))"

definition transfer_end :: "ReportLoopConfig \<Rightarrow> report_state \<Rightarrow> duration option" where
  "transfer_end config st =
     (if rp_cancelled st \<or> \<not> rc_byte_budget_test config \<or> \<not> transfer_complete config st then None
      else (case rc_direction config of
              Upload \<Rightarrow> rp_received_at st
            | Download \<Rightarrow> rp_sent_at st
            | Bidir \<Rightarrow> option_time_max (rp_received_at st) (rp_sent_at st)))"

definition report_end :: "(ControlMessage \<Rightarrow> string) \<Rightarrow> ReportLoopConfig \<Rightarrow> instant \<Rightarrow> instant \<Rightarrow> report_state \<Rightarrow> Reporting" where
  "report_end to_json config start now st =
     \<lparr>rg_start = start, rg_paused_total = rp_paused_total st, rg_pause_start = rp_pause_start st,
      rg_transfer_end = transfer_end config st, rg_codec = Some (rp_codec st), rg_current = rp_current st,
      rg_pending = (if rp_cancelled st then None else map_option (Sample_serialize to_json config (rp_stats st)) (rp_pending st)),
      rg_cancelled = (if rp_cancelled st then Some (serialize to_json (Cancelled (rc_id config))) else None),
      rg_finish_deadline = now + (if rp_cancelled st then CANCEL_FLUSH_TIMEOUT else RESULT_FLUSH_TIMEOUT)\<rparr>"

definition duration_ms :: "Reporting \<Rightarrow> instant \<Rightarrow> u64" where
  "duration_ms r now =
     (case rg_transfer_end r of
        Some e \<Rightarrow> max (div_ceil (word_of_nat (e div 1000)) 1000) 1
      | None \<Rightarrow> as_millis (active_elapsed now (rg_start r) (rg_paused_total r) (rg_pause_start r)))"

text \<open>The terminal flush: what is offered to the writer, and how far the writer comes before it fails or
  the deadline passes. The codec is consumed in every case.\<close>

datatype flush_result = Flushed | FlushExpired nat | FlushFailed nat

fun flush_frames :: "aead \<Rightarrow> ControlWriter \<Rightarrow> string list \<Rightarrow> bytes \<times> control_error option" where
  "flush_frames enc codec [] = ([], None)"
| "flush_frames enc codec (m # ms) =
     (case encode_message enc codec m of
        (codec', Err e) \<Rightarrow> ([], Some e)
      | (codec', Ok b) \<Rightarrow> (let (bs, e) = flush_frames enc codec' ms in (b @ bs, e)))"

definition option_list :: "'a option \<Rightarrow> 'a list" where
  "option_list x = (case x of None \<Rightarrow> [] | Some y \<Rightarrow> [y])"

definition Reporting_finish :: "aead \<Rightarrow> Reporting \<Rightarrow> string \<Rightarrow> flush_result \<Rightarrow> Reporting \<times> bytes \<times> (report_error + unit)" where
  "Reporting_finish enc r result_serialized fl =
     (case rg_codec r of
        None \<Rightarrow> (r, [], Err AlreadyFinished)
      | Some codec \<Rightarrow>
          (let msgs = option_list (rg_pending r) @ option_list (rg_cancelled r) @ [result_serialized];
               (bs, e) = flush_frames enc codec msgs;
               wire = (case rg_current r of None \<Rightarrow> [] | Some f \<Rightarrow> frame_rest f) @ bs;
               r' = r\<lparr>rg_codec := None, rg_current := None, rg_pending := None, rg_cancelled := None\<rparr>
           in case fl of
                Flushed \<Rightarrow> (r', wire, (case e of None \<Rightarrow> Ok () | Some c \<Rightarrow> Err (EncodeFailed c)))
              | FlushExpired n \<Rightarrow> (r', take n wire, Err FlushTimedOut)
              | FlushFailed n \<Rightarrow> (r', take n wire, Err WriteFailed)))"

end
