(* ===== verification/Stats_Correct.thy ===== *)
theory Stats_Correct
  imports Stats
begin

text \<open>
  Correctness of the measurements: interval snapshots lose and double-count no byte, the history is
  bounded, direction splits add up, aggregation over streams keeps loss percentages in range and
  preserves the freshness order, and send errors are counted exactly.
\<close>

section \<open>Saturating sums\<close>

lemma unat_saturating_foldl:
  "unat (foldl saturating_add a xs) = min (unat a + sum_list (map unat xs)) (2 ^ LENGTH('a) - 1)"
  for a :: "'a::len word"
proof (induction xs arbitrary: a)
  case Nil
  have "unat a \<le> 2 ^ LENGTH('a) - 1" using unat_lt_pow [of a] by linarith
  then show ?case by simp
next
  case (Cons x xs)
  have mn: "min (min (b + c) M + d) M = min (b + (c + d)) M" for b c d M :: nat
    by (auto simp: min_def)
  show ?case using Cons.IH [of "saturating_add a x"] by (simp only: foldl_Cons list.map sum_list.Cons unat_saturating_add mn)
qed

lemma unat_saturating_sum: "unat (saturating_sum xs) = min (sum_list (map unat xs)) (2 ^ LENGTH('a) - 1)"
  for xs :: "'a::len word list"
  by (simp add: saturating_sum_def unat_saturating_foldl)

section \<open>Snapshots\<close>

fun record_run :: "StreamStats \<Rightarrow> (instant \<times> reading) list \<Rightarrow> StreamStats \<times> IntervalStats list" where
  "record_run s [] = (s, [])"
| "record_run s ((now, rd) # rs) =
     (let (s1, iv) = record_interval_with s now rd; (s2, ivs) = record_run s1 rs in (s2, iv # ivs))"

lemma record_interval_fields:
  "record_interval_with s now rd = (s', iv) \<Longrightarrow>
     st_last_bytes s' = rd_total rd \<and> st_last_bytes_sent s' = rd_sent rd \<and> st_last_bytes_received s' = rd_received rd
     \<and> is_bytes iv = saturating_sub (rd_total rd) (st_last_bytes s)
     \<and> is_bytes_sent iv = saturating_sub (rd_sent rd) (st_last_bytes_sent s)
     \<and> is_bytes_received iv = saturating_sub (rd_received rd) (st_last_bytes_received s)
     \<and> st_intervals s' = push_interval (st_intervals s) iv \<and> is_timestamp iv = now
     \<and> st_bytes_sent s' = st_bytes_sent s \<and> st_bytes_received s' = st_bytes_received s"
  by (auto simp: record_interval_with_def Let_def)

definition monotone_readings :: "StreamStats \<Rightarrow> (instant \<times> reading) list \<Rightarrow> bool" where
  "monotone_readings s rs \<longleftrightarrow>
     sorted_wrt (\<le>) (st_last_bytes s # map (rd_total \<circ> snd) rs)
     \<and> sorted_wrt (\<le>) (st_last_bytes_sent s # map (rd_sent \<circ> snd) rs)
     \<and> sorted_wrt (\<le>) (st_last_bytes_received s # map (rd_received \<circ> snd) rs)"

lemma record_run_conserves:
  "record_run s rs = (s', ivs) \<Longrightarrow> monotone_readings s rs \<Longrightarrow>
     unat (st_last_bytes s') = unat (st_last_bytes s) + sum_list (map (unat \<circ> is_bytes) ivs)
     \<and> unat (st_last_bytes_sent s') = unat (st_last_bytes_sent s) + sum_list (map (unat \<circ> is_bytes_sent) ivs)
     \<and> unat (st_last_bytes_received s') = unat (st_last_bytes_received s) + sum_list (map (unat \<circ> is_bytes_received) ivs)"
proof (induction rs arbitrary: s ivs)
  case Nil
  then show ?case by simp
next
  case (Cons r rs)
  obtain now rd where r: "r = (now, rd)" by fastforce
  obtain s1 iv where s1: "record_interval_with s now rd = (s1, iv)" by fastforce
  obtain ivs1 where ivs: "record_run s1 rs = (s', ivs1)" "ivs = iv # ivs1"
    using Cons.prems(1) r s1 by (auto simp: split: prod.splits)
  note f = record_interval_fields [OF s1]
  have le: "st_last_bytes s \<le> rd_total rd" "st_last_bytes_sent s \<le> rd_sent rd" "st_last_bytes_received s \<le> rd_received rd"
    using Cons.prems(2) r by (auto simp: monotone_readings_def)
  have "monotone_readings s1 rs" using Cons.prems(2) r f by (auto simp: monotone_readings_def)
  with Cons.IH [OF ivs(1)] f ivs(2) le show ?case by (auto simp: unat_saturating_sub word_le_nat_alt)
qed

lemma push_interval_take:
  "length ivs \<le> MAX_INTERVAL_HISTORY \<Longrightarrow>
     push_interval ivs iv = drop (length (ivs @ [iv]) - MAX_INTERVAL_HISTORY) (ivs @ [iv])
     \<and> length (push_interval ivs iv) \<le> MAX_INTERVAL_HISTORY"
proof (cases "length ivs = MAX_INTERVAL_HISTORY")
  case True
  then have "length (ivs @ [iv]) - MAX_INTERVAL_HISTORY = Suc 0" by simp
  with True show ?thesis by (simp only: push_interval_def Let_def drop_Suc drop_0) simp
qed (auto simp: push_interval_def)

lemma drop_drop_append: "n \<le> length xs \<Longrightarrow> drop k (drop n xs @ ys) = drop (n + k) (xs @ ys)"
proof -
  assume "n \<le> length xs"
  then have "drop n xs @ ys = drop n (xs @ ys)" by simp
  then have "drop k (drop n xs @ ys) = drop k (drop n (xs @ ys))" by (rule arg_cong)
  also have "\<dots> = drop (n + k) (xs @ ys)" by (simp only: drop_drop add.commute)
  finally show ?thesis .
qed

lemma record_run_history:
  "record_run s rs = (s', ivs) \<Longrightarrow> length (st_intervals s) \<le> MAX_INTERVAL_HISTORY \<Longrightarrow>
     st_intervals s' = drop (length (st_intervals s @ ivs) - MAX_INTERVAL_HISTORY) (st_intervals s @ ivs)"
proof (induction rs arbitrary: s ivs)
  case Nil
  then show ?case by simp
next
  case (Cons r rs)
  obtain now rd where r: "r = (now, rd)" by fastforce
  obtain s1 iv where s1: "record_interval_with s now rd = (s1, iv)" by fastforce
  obtain ivs1 where ivs: "record_run s1 rs = (s', ivs1)" "ivs = iv # ivs1"
    using Cons.prems(1) r s1 by (auto simp: split: prod.splits)
  define n where "n = length (st_intervals s @ [iv]) - MAX_INTERVAL_HISTORY"
  have i: "st_intervals s1 = drop n (st_intervals s @ [iv])" "length (st_intervals s1) \<le> MAX_INTERVAL_HISTORY"
    using record_interval_fields [OF s1] push_interval_take [OF Cons.prems(2), of iv] by (simp_all add: n_def)
  have n: "n \<le> length (st_intervals s @ [iv])" by (simp add: n_def)
  have "st_intervals s' = drop (length (st_intervals s1 @ ivs1) - MAX_INTERVAL_HISTORY) (st_intervals s1 @ ivs1)"
    using Cons.IH [OF ivs(1) i(2)] .
  also have "\<dots> = drop (n + (length (st_intervals s1 @ ivs1) - MAX_INTERVAL_HISTORY)) ((st_intervals s @ [iv]) @ ivs1)"
    unfolding i(1) by (rule drop_drop_append [OF n])
  also have "n + (length (st_intervals s1 @ ivs1) - MAX_INTERVAL_HISTORY) = length (st_intervals s @ ivs) - MAX_INTERVAL_HISTORY"
    using Cons.prems(2) unfolding i(1) ivs(2) n_def by simp
  finally show ?case by (simp add: ivs(2))
qed

section \<open>Direction splits\<close>

text \<open>A quiet stream: the counters of the two directions add up without overflow, now and at the last
  snapshot.\<close>

definition coherent :: "StreamStats \<Rightarrow> bool" where
  "coherent s \<longleftrightarrow> unat (st_bytes_sent s) + unat (st_bytes_received s) < 2 ^ 64
     \<and> unat (st_last_bytes s) = unat (st_last_bytes_sent s) + unat (st_last_bytes_received s)
     \<and> st_last_bytes_sent s \<le> st_bytes_sent s \<and> st_last_bytes_received s \<le> st_bytes_received s"

lemma record_interval_coherent:
  assumes "coherent s" "record_interval tcp_info_of s now = (s', iv)"
  shows "coherent s'" "unat (is_bytes iv) = unat (is_bytes_sent iv) + unat (is_bytes_received iv)"
proof -
  note f = record_interval_fields [OF assms(2) [unfolded record_interval_def]]
  have tot: "unat (total_bytes s) = unat (st_bytes_sent s) + unat (st_bytes_received s)"
    using assms(1) by (simp add: coherent_def total_bytes_def unat_word_ariths)
  show "coherent s'" using f tot assms(1) by (simp add: coherent_def reading_of_def)
  have le: "unat (st_last_bytes_sent s) \<le> unat (st_bytes_sent s)" "unat (st_last_bytes_received s) \<le> unat (st_bytes_received s)"
    "unat (st_last_bytes s) = unat (st_last_bytes_sent s) + unat (st_last_bytes_received s)"
    using assms(1) by (simp_all add: coherent_def word_le_nat_alt)
  show "unat (is_bytes iv) = unat (is_bytes_sent iv) + unat (is_bytes_received iv)"
    using f tot le by (simp add: reading_of_def unat_saturating_sub)
qed

lemma coherent_add: "coherent s \<Longrightarrow> unat (st_bytes_sent s) + unat n + unat (st_bytes_received s) < 2 ^ 64 \<Longrightarrow> coherent (add_bytes_sent s n)"
  by (auto simp: coherent_def add_bytes_sent_def unat_word_ariths word_le_nat_alt)

section \<open>Freshness of aggregated progress\<close>

lemma sum_min_mono:
  fixes a b :: "nat list"
  assumes "list_all2 (\<lambda>x y. min x M \<le> min y M) a b"
  shows "min (sum_list a) M \<le> min (sum_list b) M"
  using assms by (induction rule: list_all2_induct) (auto simp: min_def split: if_splits)

definition aggregate_progress :: "UdpIntervalProgress list \<Rightarrow> UdpIntervalProgress" where
  "aggregate_progress ps = \<lparr>up_packets_received = saturating_sum (map up_packets_received ps),
     up_packets_lost = saturating_sum (map up_packets_lost ps)\<rparr>"

lemma aggregate_progress_denominator:
  "unat (saturating_add (up_packets_received (aggregate_progress ps)) (up_packets_lost (aggregate_progress ps)))
     = min (sum_list (map (\<lambda>p. unat (up_packets_received p) + unat (up_packets_lost p)) ps)) (2 ^ 64 - 1)"
proof -
  have mn: "min (min b M + min c M) M = min (b + c) M" for b c M :: nat by (auto simp: min_def)
  have "unat (saturating_add (up_packets_received (aggregate_progress ps)) (up_packets_lost (aggregate_progress ps)))
     = min (sum_list (map unat (map up_packets_received ps)) + sum_list (map unat (map up_packets_lost ps))) (2 ^ 64 - 1)"
    unfolding unat_saturating_add aggregate_progress_def UdpIntervalProgress.simps unat_saturating_sum mn by simp
  then show ?thesis by (simp only: map_map comp_def sum_list_addf)
qed

lemma aggregate_progress_fresh:
  assumes "list_all2 is_at_least_as_fresh_as news olds"
  shows "is_at_least_as_fresh_as (aggregate_progress news) (aggregate_progress olds)"
proof -
  have sw: "list_all2 (\<lambda>old new. is_at_least_as_fresh_as new old) olds news"
    using assms by (simp add: list_all2_conv_all_nth)
  have r: "list_all2 (\<lambda>x y. min x (2 ^ 64 - 1) \<le> min y (2 ^ 64 - (1::nat)))
      (map (unat \<circ> up_packets_received) olds) (map (unat \<circ> up_packets_received) news)"
    using sw by (auto simp: list_all2_conv_all_nth is_at_least_as_fresh_as_def word_le_nat_alt min_le_iff_disj)
  have "min (unat (up_packets_received b) + unat (up_packets_lost b)) (2 ^ 64 - 1)
      \<le> min (unat (up_packets_received a) + unat (up_packets_lost a)) (2 ^ 64 - 1)" if "is_at_least_as_fresh_as a b" for a b
    using that unfolding is_at_least_as_fresh_as_def word_le_nat_alt unat_saturating_add by simp
  then have t: "list_all2 (\<lambda>x y. min x (2 ^ 64 - 1) \<le> min y (2 ^ 64 - (1::nat)))
      (map (\<lambda>p. unat (up_packets_received p) + unat (up_packets_lost p)) olds)
      (map (\<lambda>p. unat (up_packets_received p) + unat (up_packets_lost p)) news)"
    using sw by (simp add: list_all2_conv_all_nth)
  have "unat (up_packets_received (aggregate_progress olds)) \<le> unat (up_packets_received (aggregate_progress news))"
    using sum_min_mono [OF r] by (simp add: aggregate_progress_def unat_saturating_sum)
  then show ?thesis
    using sum_min_mono [OF t] unfolding is_at_least_as_fresh_as_def word_le_nat_alt aggregate_progress_denominator by simp
qed

section \<open>Aggregated UDP statistics\<close>

lemma udp_acc_counters:
  "us_packets_sent (ua_total (foldl (udp_acc_step ro) a ss)) = foldl saturating_add (us_packets_sent (ua_total a)) (map us_packets_sent ss)
   \<and> us_packets_received (ua_total (foldl (udp_acc_step ro) a ss)) = foldl saturating_add (us_packets_received (ua_total a)) (map us_packets_received ss)
   \<and> us_lost (ua_total (foldl (udp_acc_step ro) a ss)) = foldl saturating_add (us_lost (ua_total a)) (map us_lost ss)
   \<and> us_lost_percent (ua_total (foldl (udp_acc_step ro) a ss)) = us_lost_percent (ua_total a)"
  by (induction ss arbitrary: a) (auto simp: udp_acc_step_def Let_def)

definition observed :: "bool \<Rightarrow> UdpStats \<Rightarrow> bool" where
  "observed receiver_only s \<longleftrightarrow> (receiver_only \<longrightarrow> 0 < us_packets_received s)"

lemma udp_acc_jitter:
  "us_jitter_ms (ua_total (foldl (udp_acc_step ro) a ss))
     = us_jitter_ms (ua_total a) + sum_list (map us_jitter_ms (filter (observed ro) ss))
   \<and> ua_jitter_count (foldl (udp_acc_step ro) a ss) = ua_jitter_count a + length (filter (observed ro) ss)"
  by (induction ss arbitrary: a) (auto simp: udp_acc_step_def Let_def observed_def)

section \<open>Send errors\<close>

lemma record_error_step:
  "st_udp_send_errors (fst (record_udp_send_error s e)) =
     Some \<lparr>se_count = (case st_udp_send_errors s of None \<Rightarrow> 0 | Some x \<Rightarrow> se_count x) + 1, se_last_error = sanitize_message e\<rparr>"
  by (simp add: record_udp_send_error_def Let_def)

lemma record_errors_count:
  "st_udp_send_errors (foldl (\<lambda>s e. fst (record_udp_send_error s e)) s (es @ [e])) =
     Some \<lparr>se_count = (case st_udp_send_errors s of None \<Rightarrow> 0 | Some x \<Rightarrow> se_count x) + word_of_nat (length es + 1),
           se_last_error = sanitize_message e\<rparr>"
proof (induction es arbitrary: s e rule: rev_induct)
  case Nil
  then show ?case by (simp add: record_error_step)
next
  case (snoc x xs)
  have "st_udp_send_errors (foldl (\<lambda>s e. fst (record_udp_send_error s e)) s ((xs @ [x]) @ [e])) =
      st_udp_send_errors (fst (record_udp_send_error (foldl (\<lambda>s e. fst (record_udp_send_error s e)) s (xs @ [x])) e))"
    by simp
  also have "\<dots> = Some \<lparr>se_count = (case st_udp_send_errors s of None \<Rightarrow> 0 | Some x \<Rightarrow> se_count x) + word_of_nat (length xs + 1) + 1,
           se_last_error = sanitize_message e\<rparr>"
    unfolding record_error_step snoc by simp
  finally show ?case by simp
qed

section \<open>Properties\<close>

definition sample_interval :: "u64 \<Rightarrow> u64 \<Rightarrow> IntervalStats" where
  "sample_interval r l = \<lparr>is_timestamp = 0, is_bytes = 0, is_throughput_mbps = 0, is_retransmits = 0, is_jitter_ms = 0,
     is_lost = 0, is_rtt_us = None, is_cwnd = None, is_bytes_sent = 0, is_bytes_received = 0,
     is_cumulative_packets_received = r, is_cumulative_packets_lost = l\<rparr>"

definition sample_udp_stats :: UdpStats where
  "sample_udp_stats = \<lparr>us_packets_sent = 10, us_packets_received = 8, us_lost = 2, us_lost_percent = 20, us_jitter_ms = 1,
     us_out_of_order = 0, us_jitter_max_ms = None, us_packet_size = None\<rparr>"

definition sample_reading :: "u64 \<Rightarrow> reading" where
  "sample_reading n = \<lparr>rd_total = n, rd_sent = n, rd_received = 0, rd_jitter_us = 0,
     rd_progress = \<lparr>up_packets_received = 0, up_packets_lost = 0\<rparr>, rd_tcp_info = None\<rparr>"

definition sample_readings :: "(instant \<times> reading) list" where
  "sample_readings = [(1, sample_reading 100), (2, sample_reading 100), (3, sample_reading 250)]"

text \<open>C13: over any sequence of snapshots whose readings never go back, the interval byte counts add up
  to exactly what the counters moved, in total and per direction, so no byte is lost or counted
  twice between intervals; and the history is the last 60 snapshots in order.\<close>

theorem intervals_conserve_bytes:
  assumes "monotone_readings (StreamStats_new i t0) rs"
  shows "let (s', ivs) = record_run (StreamStats_new i t0) rs in
      unat (st_last_bytes s') = sum_list (map (unat \<circ> is_bytes) ivs)
      \<and> unat (st_last_bytes_sent s') = sum_list (map (unat \<circ> is_bytes_sent) ivs)
      \<and> unat (st_last_bytes_received s') = sum_list (map (unat \<circ> is_bytes_received) ivs)
      \<and> st_intervals s' = drop (length ivs - MAX_INTERVAL_HISTORY) ivs"
proof -
  obtain s' ivs where r: "record_run (StreamStats_new i t0) rs = (s', ivs)" by fastforce
  show ?thesis
    using record_run_conserves [OF r assms] record_run_history [OF r] r by (simp add: StreamStats_new_def)
qed

theorem intervals_conserve_bytes_witness:
  "let (s', ivs) = record_run (StreamStats_new 0 0) sample_readings in
      unat (st_last_bytes s') = sum_list (map (unat \<circ> is_bytes) ivs) \<and> length ivs = 3
      \<and> st_intervals s' = drop (length ivs - MAX_INTERVAL_HISTORY) ivs"
proof -
  have m: "monotone_readings (StreamStats_new 0 0) sample_readings"
    by (simp add: monotone_readings_def sample_readings_def sample_reading_def StreamStats_new_def)
  obtain s' ivs where r: "record_run (StreamStats_new 0 0) sample_readings = (s', ivs)" by fastforce
  have "length ivs = 3"
    using r by (auto simp: sample_readings_def split: prod.splits)
  with intervals_conserve_bytes [OF m] r show ?thesis by simp
qed

text \<open>For a bidirectional test the interval sent to the client is from the client's side: its upload
  is what the server received and its download what the server sent, the two byte counts add up to
  the interval's bytes, and the two throughputs add up to its throughput.\<close>

theorem bidir_split_adds_up:
  assumes "coherent s" "record_interval tcp_info_of s now = (s', iv)"
  shows "\<exists>up down. si_bytes_sent (to_interval_with_direction s' iv True) = Some up
      \<and> si_bytes_received (to_interval_with_direction s' iv True) = Some down
      \<and> up = is_bytes_received iv \<and> down = is_bytes_sent iv
      \<and> unat up + unat down = unat (si_bytes (to_interval_with_direction s' iv True))
      \<and> the (si_throughput_send_mbps (to_interval_with_direction s' iv True))
         + the (si_throughput_recv_mbps (to_interval_with_direction s' iv True))
         = (if 0 < is_bytes iv then is_throughput_mbps iv else 0)"
proof -
  define b d e where "b = unat (is_bytes iv)" and "d = unat (is_bytes_sent iv)" and "e = unat (is_bytes_received iv)"
  have sum: "b = d + e"
    using record_interval_coherent(2) [OF assms] by (simp add: b_def d_def e_def)
  have "t * real e / real b + t * real d / real b = t" if "0 < b" for t
  proof -
    have "real e + real d = real b" using sum by simp
    then have "t * real e + t * real d = t * real b" by (metis distrib_left)
    then show ?thesis using that by (simp add: add_divide_distrib [symmetric])
  qed
  then have "0 < is_bytes iv \<Longrightarrow> is_throughput_mbps iv * u64_as_f64 (is_bytes_received iv) / u64_as_f64 (is_bytes iv)
      + is_throughput_mbps iv * u64_as_f64 (is_bytes_sent iv) / u64_as_f64 (is_bytes iv) = is_throughput_mbps iv"
    unfolding b_def d_def e_def by (metis unat_gt_0 word_gt_0)
  moreover have "unat (is_bytes_received iv) + unat (is_bytes_sent iv) = unat (is_bytes iv)"
    using sum by (simp add: b_def d_def e_def)
  ultimately show ?thesis by (auto simp: to_interval_with_direction_def then_some_def Let_def)
qed

theorem bidir_split_adds_up_witness:
  "let s = add_bytes_sent (add_bytes_received (StreamStats_new 0 0) 300) 100;
       (s', iv) = record_interval (\<lambda>_. None) s 1000
   in si_bytes_sent (to_interval_with_direction s' iv True) = Some 300
      \<and> si_bytes_received (to_interval_with_direction s' iv True) = Some 100
      \<and> unat (si_bytes (to_interval_with_direction s' iv True)) = 400"
proof -
  define s where "s = add_bytes_sent (add_bytes_received (StreamStats_new 0 0) 300) 100"
  obtain s' iv where r: "record_interval (\<lambda>_. None) s 1000 = (s', iv)" by fastforce
  have c: "coherent s"
    by (simp add: s_def coherent_def add_bytes_sent_def add_bytes_received_def StreamStats_new_def)
  have "is_bytes_received iv = 300" "is_bytes_sent iv = 100"
    using r by (auto simp: s_def record_interval_def record_interval_with_def reading_of_def add_bytes_sent_def
        add_bytes_received_def StreamStats_new_def saturating_sub_def Let_def)
  with bidir_split_adds_up [OF c r] r show ?thesis unfolding Let_def s_def [symmetric] by auto
qed

text \<open>The progress of a test, summed over its streams with saturation, is at least as fresh as an
  earlier one whenever every stream's progress is: a client comparing aggregates never discards
  news because one stream's late packets lowered its loss.\<close>

theorem aggregate_keeps_freshness:
  assumes "list_all2 is_at_least_as_fresh_as news olds"
    "map (\<lambda>i. \<lparr>up_packets_received = is_cumulative_packets_received i, up_packets_lost = is_cumulative_packets_lost i\<rparr>) new_ivs = news"
    "map (\<lambda>i. \<lparr>up_packets_received = is_cumulative_packets_received i, up_packets_lost = is_cumulative_packets_lost i\<rparr>) old_ivs = olds"
    "ai_udp_progress (to_aggregate_with_direction old_ivs bd) = Some old"
  shows "\<exists>new. ai_udp_progress (to_aggregate_with_direction new_ivs bd) = Some new \<and> is_at_least_as_fresh_as new old"
proof -
  have agg: "ai_udp_progress (to_aggregate_with_direction ivs bd) =
      (let a = aggregate_progress (map (\<lambda>i. \<lparr>up_packets_received = is_cumulative_packets_received i,
                 up_packets_lost = is_cumulative_packets_lost i\<rparr>) ivs)
       in if 0 < up_packets_received a \<or> 0 < up_packets_lost a then Some a else None)" for ivs
    by (simp add: to_aggregate_with_direction_def aggregate_progress_def Let_def comp_def)
  have old: "old = aggregate_progress olds" "0 < up_packets_received old \<or> 0 < up_packets_lost old"
    using assms(4) unfolding agg assms(3) Let_def by (auto split: if_splits)
  have fr: "is_at_least_as_fresh_as (aggregate_progress news) old"
    using aggregate_progress_fresh [OF assms(1)] old(1) by simp
  have "0 < unat (saturating_add (up_packets_received old) (up_packets_lost old))"
    using old(2) by (auto simp: unat_saturating_add word_less_nat_alt)
  then have "0 < unat (saturating_add (up_packets_received (aggregate_progress news)) (up_packets_lost (aggregate_progress news)))"
    using fr by (simp add: is_at_least_as_fresh_as_def word_le_nat_alt)
  then have "0 < up_packets_received (aggregate_progress news) \<or> 0 < up_packets_lost (aggregate_progress news)"
    by (auto simp: unat_saturating_add word_less_nat_alt)
  with fr show ?thesis unfolding agg assms(2) Let_def by simp
qed

theorem aggregate_keeps_freshness_witness:
  "\<exists>new. ai_udp_progress (to_aggregate_with_direction [sample_interval 5 1] False) = Some new
     \<and> is_at_least_as_fresh_as new \<lparr>up_packets_received = 4, up_packets_lost = 2\<rparr>"
proof -
  have fr: "list_all2 is_at_least_as_fresh_as [\<lparr>up_packets_received = 5, up_packets_lost = 1\<rparr>] [\<lparr>up_packets_received = 4, up_packets_lost = 2\<rparr>]"
    by (simp add: is_at_least_as_fresh_as_def saturating_add_def)
  have "ai_udp_progress (to_aggregate_with_direction [sample_interval 4 2] False) = Some \<lparr>up_packets_received = 4, up_packets_lost = 2\<rparr>"
    by (simp add: to_aggregate_with_direction_def sample_interval_def saturating_sum_def saturating_add_def Let_def)
  from aggregate_keeps_freshness [OF fr _ _ this, of "[sample_interval 5 1]"] show ?thesis
    by (simp add: sample_interval_def)
qed

text \<open>The aggregate of the streams' UDP statistics has the saturated sums of the counters, a loss
  percentage between 0 and 100 when no stream lost more than it expected, and the mean jitter over
  the observed streams only.\<close>

theorem aggregate_udp_stats_range:
  assumes "aggregate_udp_stats_inner t ro = Some u" "list_all (\<lambda>s. us_lost s \<le> us_packets_sent s) (tst_udp_stats t)"
  shows "unat (us_packets_received u) = min (sum_list (map (unat \<circ> us_packets_received) (tst_udp_stats t))) (2 ^ 64 - 1)
    \<and> us_lost u \<le> us_packets_sent u \<and> 0 \<le> us_lost_percent u \<and> us_lost_percent u \<le> 100
    \<and> (filter (observed ro) (tst_udp_stats t) \<noteq> [] \<longrightarrow>
        us_jitter_ms u = sum_list (map us_jitter_ms (filter (observed ro) (tst_udp_stats t)))
          / real (length (filter (observed ro) (tst_udp_stats t))))"
proof -
  let ?ss = "tst_udp_stats t"
  define a where "a = foldl (udp_acc_step ro) udp_acc_init ?ss"
  define fs where "fs = filter (observed ro) ?ss"
  have cnt: "us_packets_sent (ua_total a) = saturating_sum (map us_packets_sent ?ss)"
    "us_packets_received (ua_total a) = saturating_sum (map us_packets_received ?ss)"
    "us_lost (ua_total a) = saturating_sum (map us_lost ?ss)" "us_lost_percent (ua_total a) = 0"
    using udp_acc_counters [of ro udp_acc_init ?ss] by (simp_all add: a_def saturating_sum_def udp_acc_init_def)
  have jit: "us_jitter_ms (ua_total a) = sum_list (map us_jitter_ms fs)" "ua_jitter_count a = length fs"
    using udp_acc_jitter [of ro udp_acc_init ?ss] by (simp_all add: a_def fs_def udp_acc_init_def)
  have "sum_list (map (unat \<circ> us_lost) ?ss) \<le> sum_list (map (unat \<circ> us_packets_sent) ?ss)"
    using assms(2) by (intro sum_list_mono) (auto simp: list_all_iff word_le_nat_alt)
  then have le: "unat (us_lost (ua_total a)) \<le> unat (us_packets_sent (ua_total a))"
    unfolding cnt unat_saturating_sum by simp
  have u: "us_packets_sent u = us_packets_sent (ua_total a)" "us_packets_received u = us_packets_received (ua_total a)"
    "us_lost u = us_lost (ua_total a)"
    "us_jitter_ms u = (if 0 < ua_jitter_count a then us_jitter_ms (ua_total a) / real (ua_jitter_count a) else us_jitter_ms (ua_total a))"
    "us_lost_percent u = (if 0 < us_packets_sent (ua_total a)
        then u64_as_f64 (us_lost (ua_total a)) / u64_as_f64 (us_packets_sent (ua_total a)) * 100 else 0)"
    using assms(1) cnt(4) unfolding aggregate_udp_stats_inner_def Let_def a_def [symmetric] by (auto split: if_splits)
  have pct: "0 \<le> real n / real k * 100 \<and> real n / real k * 100 \<le> 100" if "n \<le> k" "0 < k" for n k :: nat
    using that by (simp add: field_simps)
  have "0 \<le> us_lost_percent u \<and> us_lost_percent u \<le> 100"
  proof (cases "0 < us_packets_sent (ua_total a)")
    case True
    then have "0 < unat (us_packets_sent (ua_total a))" by (simp add: word_less_nat_alt)
    from pct [OF le this] True show ?thesis unfolding u(5) by (simp only: if_True)
  qed (simp add: u(5))
  moreover have "us_lost u \<le> us_packets_sent u" using le u by (simp add: word_le_nat_alt)
  moreover have "unat (us_packets_received u) = min (sum_list (map (unat \<circ> us_packets_received) ?ss)) (2 ^ 64 - 1)"
    unfolding u(2) cnt(2) unat_saturating_sum by simp
  moreover have "fs \<noteq> [] \<longrightarrow> us_jitter_ms u = sum_list (map us_jitter_ms fs) / real (length fs)"
    using u(4) jit by simp
  ultimately show ?thesis unfolding fs_def by blast
qed

theorem aggregate_udp_stats_range_witness:
  "let t = (TestStats_new ''t'' 1 0)\<lparr>tst_udp_stats := [sample_udp_stats]\<rparr>
   in \<exists>u. aggregate_udp_stats_inner t True = Some u \<and> us_lost_percent u \<le> 100"
proof -
  define t where "t = (TestStats_new ''t'' 1 0)\<lparr>tst_udp_stats := [sample_udp_stats]\<rparr>"
  have ss: "tst_udp_stats t = [sample_udp_stats]" by (simp add: t_def)
  then obtain u where u: "aggregate_udp_stats_inner t True = Some u"
    by (auto simp: aggregate_udp_stats_inner_def sample_udp_stats_def Let_def)
  have "list_all (\<lambda>s. us_lost s \<le> us_packets_sent s) (tst_udp_stats t)" by (simp add: ss sample_udp_stats_def)
  from aggregate_udp_stats_range [OF u this] u show ?thesis unfolding Let_def t_def [symmetric] by blast
qed

end
