(* ===== verification/Reporting_Correct.thy ===== *)
theory Reporting_Correct
  imports Reporting Stats_Correct
begin

text \<open>
  Correctness of interval reporting: however ticks, commands and partial writes interleave, what goes out
  is a sequence of whole frames in codec order, and coalescing loses no byte.
\<close>

section \<open>Frames in order\<close>

lemma send_all_append:
  "send_all enc w (xs @ ys) =
     (case send_all enc w xs of Err e \<Rightarrow> Err e
      | Ok (bs, w') \<Rightarrow> (case send_all enc w' ys of Err e \<Rightarrow> Err e | Ok (cs, w'') \<Rightarrow> Ok (bs @ cs, w'')))"
  by (induction xs arbitrary: w) (auto split: sum.split prod.split)

lemma flush_frames_send_all:
  "flush_frames enc w ms = (bs, None) \<Longrightarrow> \<exists>w'. send_all enc w ms = Ok (bs, w')"
proof (induction ms arbitrary: w bs)
  case (Cons m ms)
  then obtain w1 b cs where e: "encode_message enc w m = (w1, Ok b)" "flush_frames enc w1 ms = (cs, None)" "bs = b @ cs"
    by (auto split: sum.splits prod.splits)
  then obtain w' where "send_all enc w1 ms = Ok (cs, w')" using Cons.IH by blast
  with e show ?case by simp
qed simp

lemma flush_plaintext: "snd (flush_frames enc PlaintextWriter ms) = None"
  by (induction ms) (auto simp: encode_message_def split: prod.split)

lemma Frame_encode_Ok:
  "Frame_encode enc w m = (w', Ok f) \<Longrightarrow> send_all enc w [m] = Ok (frame_rest f, w')"
  by (auto simp: Frame_encode_def frame_rest_def split: sum.splits prod.splits)

lemma write_once_rest:
  "write_once f n = Ok (f', out) \<Longrightarrow> frame_rest f = out @ frame_rest f' \<and> (frame_complete f' \<longrightarrow> frame_rest f' = [])"
proof -
  assume "write_once f n = Ok (f', out)"
  then have "\<exists>k. k \<le> length (frame_rest f) \<and> f' = f\<lparr>fr_offset := fr_offset f + k\<rparr> \<and> out = take k (frame_rest f)"
    by (auto simp: write_once_def Let_def split: option.splits if_splits intro: min.cobounded2)
  then obtain k where "k \<le> length (frame_rest f)" "f' = f\<lparr>fr_offset := fr_offset f + k\<rparr>" "out = take k (frame_rest f)"
    by blast
  then show ?thesis
    by (auto simp: frame_rest_def frame_complete_def add.commute simp flip: drop_drop)
qed

definition unsent :: "report_state \<Rightarrow> bytes" where
  "unsent st = (case rp_current st of None \<Rightarrow> [] | Some f \<Rightarrow> frame_rest f)"

section \<open>Bytes of a report\<close>

fun interval_bytes :: "nat \<Rightarrow> ControlMessage \<Rightarrow> nat" where
  "interval_bytes k (Interval i e ss a) = unat (si_bytes (ss ! k))"
| "interval_bytes k m = 0"

fun interval_elapsed :: "ControlMessage \<Rightarrow> nat" where
  "interval_elapsed (Interval i e ss a) = unat e"
| "interval_elapsed m = 0"

fun is_interval_of :: "string \<Rightarrow> nat \<Rightarrow> ControlMessage \<Rightarrow> bool" where
  "is_interval_of test_id n (Interval i e ss a) = (i = test_id \<and> length ss = n)"
| "is_interval_of test_id n m = False"

definition sample_bytes :: "nat \<Rightarrow> Sample option \<Rightarrow> nat" where
  "sample_bytes k p = (case p of None \<Rightarrow> 0 | Some s \<Rightarrow> unat (is_bytes (sm_intervals s ! k)))"

definition sample_wf :: "nat \<Rightarrow> Sample \<Rightarrow> bool" where
  "sample_wf n s \<longleftrightarrow> length (sm_intervals s) = n \<and> length (sm_durations s) = n"

text \<open>The readings of the ticks: one per stream, and no total goes back.\<close>

fun ticks_ok :: "u64 list \<Rightarrow> (instant \<times> report_event) list \<Rightarrow> bool" where
  "ticks_ok ls [] = True"
| "ticks_ok ls ((t, StatsTick now obs) # its) =
     (list_all2 (\<lambda>l ob. l \<le> rd_total (snd ob)) ls obs \<and> ticks_ok (map (rd_total \<circ> snd) obs) its)"
| "ticks_ok ls ((t, e) # its) = ticks_ok ls its"

abbreviation last_totals :: "TestStats \<Rightarrow> u64 list" where
  "last_totals t \<equiv> map st_last_bytes (tst_streams t)"

lemma Sample_capture_facts:
  assumes "Sample_capture t obs e = (t', s)" "list_all2 (\<lambda>l ob. l \<le> rd_total (snd ob)) (last_totals t) obs"
  shows "last_totals t' = map (rd_total \<circ> snd) obs" "sample_wf (length (tst_streams t)) s" "sm_elapsed_ms s = e"
    "\<And>k. k < length (tst_streams t) \<Longrightarrow>
       unat (is_bytes (sm_intervals s ! k)) = unat (last_totals t' ! k) - unat (last_totals t ! k)
       \<and> last_totals t ! k \<le> last_totals t' ! k"
proof -
  have len: "length obs = length (tst_streams t)" using list_all2_lengthD [OF assms(2)] by simp
  have t': "tst_streams t' = map (\<lambda>(s, now, rd). fst (record_interval_with s now rd)) (zip (tst_streams t) obs)"
    "sm_intervals s = map (\<lambda>(s, now, rd). snd (record_interval_with s now rd)) (zip (tst_streams t) obs)"
    using assms(1) by (auto simp: Sample_capture_def record_intervals_with_def Let_def)
  show tot: "last_totals t' = map (rd_total \<circ> snd) obs"
    using len by (intro nth_equalityI) (auto simp: t' record_interval_with_def Let_def split: prod.split)
  show "sample_wf (length (tst_streams t)) s" "sm_elapsed_ms s = e"
    using assms(1) len by (auto simp: sample_wf_def Sample_capture_def record_intervals_with_def Let_def)
  fix k assume k: "k < length (tst_streams t)"
  then have le: "last_totals t ! k \<le> last_totals t' ! k"
    using assms(2) len by (auto simp: tot list_all2_conv_all_nth split: prod.splits)
  have "is_bytes (sm_intervals s ! k) = saturating_sub (last_totals t' ! k) (last_totals t ! k)"
    using k len by (auto simp: t' record_interval_with_def Let_def split: prod.split)
  then show "unat (is_bytes (sm_intervals s ! k)) = unat (last_totals t' ! k) - unat (last_totals t ! k)
       \<and> last_totals t ! k \<le> last_totals t' ! k"
    using le by (simp add: unat_saturating_sub)
qed

lemma Sample_merge_facts:
  assumes "sample_wf n a" "sample_wf n b"
  shows "sample_wf n (Sample_merge a b)" "sm_elapsed_ms (Sample_merge a b) = sm_elapsed_ms b"
    "\<And>k. k < n \<Longrightarrow> is_bytes (sm_intervals (Sample_merge a b) ! k)
        = saturating_add (is_bytes (sm_intervals a ! k)) (is_bytes (sm_intervals b ! k))"
  using assms by (auto simp: sample_wf_def Sample_merge_def Let_def merge_interval_def)

section \<open>The invariant\<close>

text \<open>\<open>ms\<close> are the interval messages encoded so far: they are what went out and what is left of the frame in
  flight, every one came before the deadline, and with the pending sample they account for every
  stream's total at the last tick.\<close>

definition accounted :: "ControlMessage list \<Rightarrow> report_state \<Rightarrow> bool" where
  "accounted ms st \<longleftrightarrow> (\<forall>k<length (tst_streams (rp_stats st)).
     (\<Sum>m\<leftarrow>ms. interval_bytes k m) + sample_bytes k (rp_pending st) = unat (last_totals (rp_stats st) ! k))"

definition in_time :: "ReportLoopConfig \<Rightarrow> nat \<Rightarrow> bool" where
  "in_time config e_ms \<longleftrightarrow> rc_duration config = 0 \<or> e_ms * 1000000 < rc_duration config"

definition report_inv ::
  "aead \<Rightarrow> (ControlMessage \<Rightarrow> string) \<Rightarrow> ReportLoopConfig \<Rightarrow> ControlWriter \<Rightarrow> nat \<Rightarrow> ControlMessage list \<Rightarrow> report_state \<Rightarrow> bool" where
  "report_inv enc to_json config w0 n ms st \<longleftrightarrow>
     send_all enc w0 (map to_json ms) = Ok (rp_written st @ unsent st, rp_codec st)
     \<and> list_all (is_interval_of (rc_id config) n) ms \<and> list_all (in_time config \<circ> interval_elapsed) ms
     \<and> length (tst_streams (rp_stats st)) = n
     \<and> (case rp_pending st of None \<Rightarrow> True | Some s \<Rightarrow> sample_wf n s \<and> in_time config (unat (sm_elapsed_ms s)))
     \<and> accounted ms st"

lemma report_inv_frame:
  assumes "report_inv enc to_json config w0 n ms st" "rp_codec st' = rp_codec st" "rp_current st' = rp_current st"
    "rp_written st' = rp_written st" "rp_stats st' = rp_stats st" "rp_pending st' = rp_pending st"
  shows "report_inv enc to_json config w0 n ms st'"
  using assms by (simp add: report_inv_def unsent_def accounted_def)

lemma as_millis_le: "unat (as_millis d) * 1000000 \<le> d"
proof -
  have "unat (as_millis d) \<le> d div 1000000" by (simp add: as_millis_def unat_of_nat)
  then show ?thesis by (metis div_times_less_eq_dividend mult_le_mono1 order_trans)
qed

lemma report_inv_top:
  assumes "report_inv enc to_json config w0 n ms st" "report_top enc to_json config start now st = Running st'"
  shows "(\<exists>ms'. report_inv enc to_json config w0 n ms' st') \<and> rp_stats st' = rp_stats st"
proof (cases "rp_current st = None \<and> rp_pending st \<noteq> None")
  case False
  then have "st' = st" using assms(2) by (auto simp: report_top_def split: if_splits option.splits)
  with assms(1) show ?thesis by blast
next
  case True
  then obtain s codec f where s: "rp_pending st = Some s" and cur: "rp_current st = None"
    and f: "Frame_encode enc (rp_codec st) (Sample_serialize to_json config (rp_stats st) s) = (codec, Ok f)"
    and st': "st' = st\<lparr>rp_codec := codec, rp_pending := None, rp_current := Some f\<rparr>"
    using assms(2) by (auto simp: report_top_def split: if_splits option.splits sum.splits prod.splits)
  let ?m = "Sample_message config (rp_stats st) s"
  have wf: "sample_wf n s" "in_time config (unat (sm_elapsed_ms s))" "length (tst_streams (rp_stats st)) = n"
    using assms(1) s by (auto simp: report_inv_def)
  have "send_all enc w0 (map to_json (ms @ [?m])) = Ok (rp_written st' @ unsent st', rp_codec st')"
    using assms(1) Frame_encode_Ok [OF f] cur
    by (simp add: report_inv_def send_all_append unsent_def st' Sample_serialize_def serialize_def)
  moreover have "interval_bytes k ?m = sample_bytes k (Some s)" if "k < n" for k
    using that wf by (simp add: Sample_message_def sample_bytes_def sample_wf_def to_interval_with_direction_def Let_def)
  ultimately have "report_inv enc to_json config w0 n (ms @ [?m]) st'"
    using assms(1) s wf
    by (auto simp: report_inv_def accounted_def st' sample_bytes_def Sample_message_def sample_wf_def)
  then show ?thesis by (auto simp: st')
qed

lemma report_inv_tick:
  assumes "report_inv enc to_json config w0 n ms st" "report_tick config start now obs st = Running st'"
    "list_all2 (\<lambda>l ob. l \<le> rd_total (snd ob)) (last_totals (rp_stats st)) obs"
  shows "report_inv enc to_json config w0 n ms st' \<and> last_totals (rp_stats st') = map (rd_total \<circ> snd) obs"
proof -
  define e where "e = state_elapsed start now st"
  obtain t' s where c: "Sample_capture (rp_stats st) obs (as_millis e) = (t', s)" by fastforce
  have e: "rc_duration config = 0 \<or> e < rc_duration config"
    using assms(2) by (auto simp: report_tick_def e_def Let_def split: if_splits)
  then have it: "in_time config (unat (sm_elapsed_ms s))"
    using as_millis_le [of e] Sample_capture_facts(3) [OF c assms(3)] by (auto simp: in_time_def)
  have st': "rp_stats st' = t'" "rp_pending st' = Some (case rp_pending st of Some p \<Rightarrow> Sample_merge p s | None \<Rightarrow> s)"
    "rp_codec st' = rp_codec st" "rp_written st' = rp_written st" "unsent st' = unsent st"
    using assms(2) c by (auto simp: report_tick_def e_def Let_def unsent_def split: if_splits prod.splits option.splits)
  have n: "length (tst_streams (rp_stats st)) = n" using assms(1) by (simp add: report_inv_def)
  have tot: "last_totals t' = map (rd_total \<circ> snd) obs" using Sample_capture_facts(1) [OF c assms(3)] .
  then have n': "length (tst_streams t') = n" using list_all2_lengthD [OF assms(3)] n by (metis length_map)
  note cap = Sample_capture_facts(2,4) [OF c assms(3), unfolded n]
  have wf: "sample_wf n (the (rp_pending st'))" "in_time config (unat (sm_elapsed_ms (the (rp_pending st'))))"
    using assms(1) cap(1) it Sample_merge_facts(1,2)
    by (auto simp: st' report_inv_def split: option.splits)
  have "(\<Sum>m\<leftarrow>ms. interval_bytes k m) + sample_bytes k (rp_pending st') = unat (last_totals t' ! k)" if k: "k < n" for k
  proof -
    have old: "(\<Sum>m\<leftarrow>ms. interval_bytes k m) + sample_bytes k (rp_pending st) = unat (last_totals (rp_stats st) ! k)"
      using assms(1) k by (simp add: report_inv_def accounted_def)
    have le: "unat (last_totals (rp_stats st) ! k) \<le> unat (last_totals t' ! k)"
      using cap(2) [OF k] by (simp add: word_le_nat_alt)
    show ?thesis
    proof (cases "rp_pending st")
      case None
      then show ?thesis using old cap(2) [OF k] le by (simp add: st' sample_bytes_def)
    next
      case (Some p)
      then have p: "sample_wf n p" using assms(1) by (simp add: report_inv_def)
      have "unat (is_bytes (sm_intervals p ! k)) + unat (is_bytes (sm_intervals s ! k)) \<le> unat (last_totals t' ! k)"
        using old cap(2) [OF k] le Some by (simp add: sample_bytes_def)
      then have "unat (is_bytes (sm_intervals p ! k)) + unat (is_bytes (sm_intervals s ! k)) < 2 ^ 64"
        using unat_lt_pow [of "last_totals t' ! k"] by simp
      then show ?thesis
        using old cap(2) [OF k] le Some Sample_merge_facts(3) [OF p cap(1) k]
        by (simp add: st' sample_bytes_def unat_saturating_add)
    qed
  qed
  then show ?thesis
    using assms(1) wf tot n' st' by (auto simp: report_inv_def accounted_def)
qed

lemma report_inv_write:
  assumes "report_inv enc to_json config w0 n ms st" "report_write acc st = Running st'"
  shows "report_inv enc to_json config w0 n ms st' \<and> rp_stats st' = rp_stats st"
proof (cases "rp_current st")
  case None
  then show ?thesis using assms by (simp add: report_write_def)
next
  case (Some f)
  then obtain f' out where w: "write_once f acc = Ok (f', out)"
    and st': "st' = st\<lparr>rp_written := rp_written st @ out, rp_current := (if frame_complete f' then None else Some f')\<rparr>"
    using assms(2) by (auto simp: report_write_def split: sum.splits prod.splits)
  have "rp_written st @ unsent st = rp_written st' @ unsent st'"
    using write_once_rest [OF w] Some by (auto simp: unsent_def st')
  then show ?thesis using assms(1) by (auto simp: report_inv_def accounted_def st')
qed

fun tick_totals :: "report_event \<Rightarrow> u64 list \<Rightarrow> u64 list" where
  "tick_totals (StatsTick now obs) ls = map (rd_total \<circ> snd) obs"
| "tick_totals e ls = ls"

fun tick_ok :: "report_event \<Rightarrow> u64 list \<Rightarrow> bool" where
  "tick_ok (StatsTick now obs) ls = list_all2 (\<lambda>l ob. l \<le> rd_total (snd ob)) ls obs"
| "tick_ok e ls = True"

lemma ticks_ok_Cons: "ticks_ok ls ((t, e) # its) \<longleftrightarrow> tick_ok e ls \<and> ticks_ok (tick_totals e ls) its"
  by (cases e) simp_all

lemma report_tick_Ended: "report_tick config start now obs st = Ended st' \<Longrightarrow> st' = st"
  by (auto simp: report_tick_def Let_def split: if_splits prod.splits)

lemma report_write_not_Ended [simp]: "report_write acc st \<noteq> Ended st'"
  by (auto simp: report_write_def split: option.splits sum.splits prod.splits)

lemma report_inv_command:
  assumes "report_inv enc to_json config w0 n ms st"
    "report_command config cmd now reg st = Running st' \<or> report_command config cmd now reg st = Ended st'"
  shows "report_inv enc to_json config w0 n ms st' \<and> rp_stats st' = rp_stats st"
  using assms(2)
  by (auto simp: report_command_def split: option.splits ControlCommand.splits if_splits
      intro!: report_inv_frame [OF assms(1)])

lemma report_event_frame:
  assumes "report_event_step config start e st = Running st' \<or> report_event_step config start e st = Ended st'"
    "\<nexists>now obs. e = StatsTick now obs" "\<nexists>acc. e = Written acc"
  shows "rp_codec st' = rp_codec st \<and> rp_current st' = rp_current st \<and> rp_written st' = rp_written st
    \<and> rp_stats st' = rp_stats st \<and> rp_pending st' = rp_pending st"
proof (cases e)
  case (Command cmd now reg)
  with assms(1) show ?thesis
    by (auto simp: report_event_step_def report_command_def split: option.splits ControlCommand.splits if_splits)
qed (use assms in \<open>auto simp: report_event_step_def end_if_def Let_def split: if_splits\<close>)

lemma report_inv_event:
  assumes "report_inv enc to_json config w0 n ms st" "tick_ok e (last_totals (rp_stats st))"
  shows "report_event_step config start e st = Running st' \<Longrightarrow>
      report_inv enc to_json config w0 n ms st' \<and> last_totals (rp_stats st') = tick_totals e (last_totals (rp_stats st))"
    "report_event_step config start e st = Ended st' \<Longrightarrow> report_inv enc to_json config w0 n ms st'"
proof -
  assume r: "report_event_step config start e st = Running st'"
  show "report_inv enc to_json config w0 n ms st' \<and> last_totals (rp_stats st') = tick_totals e (last_totals (rp_stats st))"
  proof (cases "(\<exists>now obs. e = StatsTick now obs) \<or> (\<exists>acc. e = Written acc)")
    case True
    then show ?thesis
      using r assms report_inv_tick [OF assms(1)] report_inv_write [OF assms(1)] by (auto simp: report_event_step_def)
  next
    case False
    then have "tick_totals e (last_totals (rp_stats st)) = last_totals (rp_stats st)" by (cases e) auto
    then show ?thesis
      using report_event_frame [of config start e st st'] r False report_inv_frame [OF assms(1), of st'] by simp
  qed
next
  assume r: "report_event_step config start e st = Ended st'"
  show "report_inv enc to_json config w0 n ms st'"
  proof (cases "\<exists>now obs. e = StatsTick now obs")
    case True
    then show ?thesis using r assms(1) by (auto simp: report_event_step_def dest!: report_tick_Ended)
  next
    case False
    moreover have "\<nexists>acc. e = Written acc" using r by (auto simp: report_event_step_def)
    ultimately show ?thesis
      using report_event_frame [of config start e st st'] r report_inv_frame [OF assms(1), of st'] by simp
  qed
qed

lemma report_inv_loop:
  assumes "report_inv enc to_json config w0 n ms st" "ticks_ok (last_totals (rp_stats st)) its"
    "report_loop enc to_json config start its st = Running st' \<or> report_loop enc to_json config start its st = Ended st'"
  shows "\<exists>ms'. report_inv enc to_json config w0 n ms' st'"
  using assms
proof (induction its arbitrary: st ms)
  case Nil
  then show ?case by auto
next
  case (Cons it its)
  obtain now e where it: "it = (now, e)" by fastforce
  have tick: "tick_ok e (last_totals (rp_stats st))" "ticks_ok (tick_totals e (last_totals (rp_stats st))) its"
    using Cons.prems(2) unfolding it ticks_ok_Cons by auto
  show ?case
  proof (cases "report_top enc to_json config start now st")
    case (Running st1)
    then obtain ms1 where inv1: "report_inv enc to_json config w0 n ms1 st1" and same: "rp_stats st1 = rp_stats st"
      using report_inv_top [OF Cons.prems(1) Running] by blast
    show ?thesis
    proof (cases "report_event_step config start e st1")
      case (Running st2)
      then have "report_inv enc to_json config w0 n ms1 st2" "last_totals (rp_stats st2) = tick_totals e (last_totals (rp_stats st))"
        using report_inv_event(1) [OF inv1 _ Running] tick(1) same by simp_all
      moreover have "report_loop enc to_json config start its st2 = Running st' \<or> report_loop enc to_json config start its st2 = Ended st'"
        using Cons.prems(3) it Running \<open>report_top _ _ _ _ _ _ = _\<close> by (simp add: report_iter_def)
      ultimately show ?thesis using Cons.IH tick(2) by simp
    next
      case (Ended st2)
      then have "st' = st2" using Cons.prems(3) it \<open>report_top _ _ _ _ _ _ = _\<close> by (simp add: report_iter_def)
      then show ?thesis using report_inv_event(2) [OF inv1 _ Ended] tick(1) same by auto
    next
      case (Failed err st2)
      then show ?thesis using Cons.prems(3) it \<open>report_top _ _ _ _ _ _ = _\<close> by (simp add: report_iter_def)
    qed
  next
    case (Ended st1)
    then have "st1 = st" by (auto simp: report_top_def split: if_splits option.splits sum.splits prod.splits)
    then show ?thesis using Cons.prems(1,3) it Ended by (auto simp: report_iter_def)
  next
    case (Failed err st1)
    then show ?thesis using Cons.prems(3) it by (simp add: report_iter_def)
  qed
qed

lemma report_inv_init:
  assumes "list_all (\<lambda>s. st_last_bytes s = 0) (tst_streams stats)"
  shows "report_inv enc to_json config w0 (length (tst_streams stats)) [] (report_init w0 stats)"
  using assms by (simp add: report_inv_def report_init_def unsent_def accounted_def sample_bytes_def list_all_length)

section \<open>The whole report\<close>

definition report_lines :: "(ControlMessage \<Rightarrow> string) \<Rightarrow> ReportLoopConfig \<Rightarrow> report_state \<Rightarrow> ControlMessage list \<Rightarrow> ControlMessage \<Rightarrow> string list" where
  "report_lines to_json config st ms result =
     map to_json (ms @ (if rp_cancelled st then [Cancelled (rc_id config)] else []) @ [result])"

lemma finish_plaintext:
  assumes "rg_codec r = Some PlaintextWriter"
  shows "\<exists>r' tail. Reporting_finish enc r m Flushed = (r', tail, Ok ())"
proof -
  obtain bs where "flush_frames enc PlaintextWriter (option_list (rg_pending r) @ option_list (rg_cancelled r) @ [m]) = (bs, None)"
    using flush_plaintext by (metis prod.collapse)
  then show ?thesis using assms by (simp add: Reporting_finish_def)
qed

lemma report_wire:
  assumes "report_inv enc to_json config w0 n ms st"
    "Reporting_finish enc (report_end to_json config start now st) (to_json result) Flushed = (rep, tail, Ok ())"
  shows "\<exists>ms' w. list_all (is_interval_of (rc_id config) n) ms' \<and> list_all (in_time config \<circ> interval_elapsed) ms'
    \<and> send_all enc w0 (report_lines to_json config st ms' result) = Ok (rp_written st @ tail, w)
    \<and> (\<forall>k<n. (\<Sum>m\<leftarrow>ms'. interval_bytes k m) + (if rp_cancelled st then sample_bytes k (rp_pending st) else 0)
               = unat (last_totals (rp_stats st) ! k))"
proof -
  define ps where "ps = (if rp_cancelled st then [] else map (Sample_message config (rp_stats st)) (option_list (rp_pending st)))"
  let ?ms = "ms @ ps"
  define cs where "cs = (if rp_cancelled st then [Cancelled (rc_id config)] else [])"
  have opt: "option_list (rg_pending (report_end to_json config start now st)) = map to_json ps"
    "option_list (rg_cancelled (report_end to_json config start now st)) = map to_json cs"
    by (auto simp: report_end_def ps_def cs_def option_list_def Sample_serialize_def serialize_def split: option.split)
  obtain bs where bs: "flush_frames enc (rp_codec st) (map to_json (ps @ cs @ [result])) = (bs, None)" and t: "tail = unsent st @ bs"
    using assms(2) opt
    by (auto simp: Reporting_finish_def report_end_def unsent_def Let_def split: prod.splits option.splits)
  obtain w where "send_all enc (rp_codec st) (map to_json (ps @ cs @ [result])) = Ok (bs, w)"
    using flush_frames_send_all [OF bs] by blast
  then have wire: "send_all enc w0 (report_lines to_json config st ?ms result) = Ok (rp_written st @ tail, w)"
    using assms(1) by (simp add: report_lines_def report_inv_def send_all_append t cs_def)
  have n: "length (tst_streams (rp_stats st)) = n" using assms(1) by (simp add: report_inv_def)
  have "list_all (is_interval_of (rc_id config) n) ps \<and> list_all (in_time config \<circ> interval_elapsed) ps"
    using assms(1) n by (auto simp: ps_def option_list_def report_inv_def Sample_message_def sample_wf_def split: option.splits)
  moreover have "(\<Sum>m\<leftarrow>ps. interval_bytes k m) = (if rp_cancelled st then 0 else sample_bytes k (rp_pending st))" if "k < n" for k
    using that n assms(1)
    by (auto simp: ps_def option_list_def report_inv_def Sample_message_def sample_bytes_def sample_wf_def
        to_interval_with_direction_def Let_def split: option.splits)
  ultimately have "list_all (is_interval_of (rc_id config) n) ?ms \<and> list_all (in_time config \<circ> interval_elapsed) ?ms
    \<and> (\<forall>k<n. (\<Sum>m\<leftarrow>?ms. interval_bytes k m) + (if rp_cancelled st then sample_bytes k (rp_pending st) else 0)
               = unat (last_totals (rp_stats st) ! k))"
    using assms(1) n by (auto simp: report_inv_def accounted_def)
  with wire show ?thesis by blast
qed

section \<open>Time\<close>

text \<open>A timer that is paused or not never runs backwards.\<close>

lemma active_elapsed_mono: "t \<le> now \<Longrightarrow> active_elapsed t start pt ps \<le> active_elapsed now start pt ps"
  by (auto simp: active_elapsed_def split: option.split)

fun event_time :: "report_event \<Rightarrow> instant" where
  "event_time (DurationDeadline t) = t"
| "event_time (DrainExpired t) = t"
| "event_time (RecvDone t) = t"
| "event_time (SendDone t) = t"
| "event_time (StatsTick t obs) = t"
| "event_time (Command c t r) = t"
| "event_time (Written acc) = 0"

definition clocks_until :: "instant \<Rightarrow> (instant \<times> report_event) list \<Rightarrow> bool" where
  "clocks_until now its \<longleftrightarrow> list_all (\<lambda>(t, e). t \<le> now \<and> event_time e \<le> now) its"

fun is_exit :: "report_event \<Rightarrow> bool" where
  "is_exit (Command None t r) = True"
| "is_exit _ = False"

lemma transfer_complete_plain:
  assumes "\<not> rc_byte_budget_test config" "\<not> rc_end_on_server_send config" "rp_drain_until st = None"
    "report_event_step config start e st = Ended st'" "\<not> rp_cancelled st'" "\<not> is_exit e"
  shows "rc_duration config \<noteq> 0 \<and> rc_duration config \<le> state_elapsed start (event_time e) st'"
proof (cases e)
  case (Command cmd now reg)
  with assms show ?thesis
    by (auto simp: report_event_step_def report_command_def split: option.splits ControlCommand.splits if_splits)
next
  case (StatsTick now obs)
  with assms(4) show ?thesis by (auto simp: report_event_step_def report_tick_def Let_def split: if_splits prod.splits)
next
  case (DurationDeadline now)
  with assms(4) have "st' = st" "rc_duration config \<noteq> 0" "rp_pause_start st = None"
    "start + rp_paused_total st + rc_duration config \<le> now"
    by (auto simp: report_event_step_def end_if_def split: if_splits)
  with DurationDeadline show ?thesis by (simp add: state_elapsed_def active_elapsed_def)
qed (use assms in \<open>auto simp: report_event_step_def end_if_def split: if_splits\<close>)

lemma no_drain_kept:
  assumes "\<not> rc_byte_budget_test config" "rp_drain_until st = None" "report_event_step config start e st = Running st'"
  shows "rp_drain_until st' = None"
proof (cases e)
  case (Command cmd now reg)
  with assms show ?thesis
    by (auto simp: report_event_step_def report_command_def split: option.splits ControlCommand.splits if_splits)
next
  case (StatsTick now obs)
  with assms show ?thesis by (auto simp: report_event_step_def report_tick_def Let_def split: if_splits prod.splits)
next
  case (Written acc)
  with assms show ?thesis
    by (auto simp: report_event_step_def report_write_def split: option.splits sum.splits prod.splits)
qed (use assms in \<open>auto simp: report_event_step_def end_if_def Let_def split: if_splits\<close>)

lemma report_loop_deadline:
  assumes "\<not> rc_byte_budget_test config" "\<not> rc_end_on_server_send config" "rp_drain_until st = None"
    "report_loop enc to_json config start its st = Ended st'" "\<not> rp_cancelled st'" "list_all (\<lambda>(t, e). \<not> is_exit e) its"
    "clocks_until now its"
  shows "rc_duration config \<noteq> 0 \<and> rc_duration config \<le> state_elapsed start now st'"
  using assms(3,4,6,7)
proof (induction its arbitrary: st)
  case Nil
  then show ?case by simp
next
  case (Cons it its)
  obtain t e where it: "it = (t, e)" by fastforce
  have t: "t \<le> now" "event_time e \<le> now" using Cons.prems(4) it by (auto simp: clocks_until_def)
  have mono: "state_elapsed start u st' \<le> state_elapsed start now st'" if "u \<le> now" for u
    using that by (simp add: state_elapsed_def active_elapsed_mono)
  show ?case
  proof (cases "report_top enc to_json config start t st")
    case (Running st1)
    then have d1: "rp_drain_until st1 = None"
      using Cons.prems(1) by (auto simp: report_top_def split: if_splits option.splits sum.splits prod.splits)
    show ?thesis
    proof (cases "report_event_step config start e st1")
      case (Running st2)
      then have "report_loop enc to_json config start its st2 = Ended st'"
        using Cons.prems(2) it \<open>report_top _ _ _ _ _ _ = _\<close> by (simp add: report_iter_def)
      then show ?thesis
        using Cons.IH [OF no_drain_kept [OF assms(1) d1 Running]] Cons.prems(3,4) by (simp add: clocks_until_def)
    next
      case (Ended st2)
      then have "st' = st2" using Cons.prems(2) it \<open>report_top _ _ _ _ _ _ = _\<close> by (simp add: report_iter_def)
      with Ended show ?thesis
        using transfer_complete_plain [OF assms(1,2) d1, of start e st'] assms(5) Cons.prems(3) it mono [OF t(2)] by auto
    next
      case (Failed err st2)
      then show ?thesis using Cons.prems(2) it \<open>report_top _ _ _ _ _ _ = _\<close> by (simp add: report_iter_def)
    qed
  next
    case (Ended st1)
    then have "rc_duration config \<noteq> 0 \<and> rc_duration config \<le> state_elapsed start t st1" "st' = st1"
      using Cons.prems(2) it
      by (auto simp: report_iter_def report_top_def split: if_splits option.splits sum.splits prod.splits)
    then show ?thesis using mono [OF t(1)] by auto
  next
    case (Failed err st1)
    then show ?thesis using Cons.prems(2) it by (simp add: report_iter_def)
  qed
qed

text \<open>The duration of a byte-budget test is cut to whole microseconds before it is rounded up, so
  999 nanoseconds past a millisecond are not reported.\<close>

lemma duration_ms_drops_nanoseconds:
  assumes "rg_transfer_end r = Some 1000999"
  shows "duration_ms r now = 1"
  using assms by (simp add: duration_ms_def div_ceil_def)

section \<open>Properties\<close>

definition sample_config :: ReportLoopConfig where
  "sample_config = \<lparr>rc_id = ''t'', rc_protocol = Tcp, rc_duration = 9000000, rc_direction = Upload, rc_tui = False,
     rc_byte_budget_test = False, rc_end_on_server_send = False\<rparr>"

definition sample_its :: "(instant \<times> report_event) list" where
  "sample_its = [(0, StatsTick 3000000 [(3000000, sample_reading 8)]), (4000000, Written (Some 1)),
     (8000000, DurationDeadline 9000000)]"

lemma report_messages:
  assumes "report_loop enc to_json config start its (report_init w0 (TestStats_new test_id streams t0)) = Ended st"
    "ticks_ok (replicate (unat streams) 0) its"
    "Reporting_finish enc (report_end to_json config start now st) (to_json result) Flushed = (rep, tail, Ok ())"
  shows "\<exists>ms w. list_all (is_interval_of (rc_id config) (unat streams)) ms
    \<and> send_all enc w0 (report_lines to_json config st ms result) = Ok (rp_written st @ tail, w)
    \<and> (\<forall>k<unat streams. (\<Sum>m\<leftarrow>ms. interval_bytes k m) + (if rp_cancelled st then sample_bytes k (rp_pending st) else 0)
               = unat (st_last_bytes (tst_streams (rp_stats st) ! k)))"
proof -
  define stats where "stats = TestStats_new test_id streams t0"
  have s: "length (tst_streams stats) = unat streams" "last_totals stats = replicate (unat streams) 0"
    "list_all (\<lambda>s. st_last_bytes s = 0) (tst_streams stats)"
    by (simp_all add: stats_def TestStats_new_def StreamStats_new_def list_all_iff map_replicate_const comp_def)
  have "rp_stats (report_init w0 stats) = stats" by (simp add: report_init_def)
  with report_inv_loop [OF report_inv_init [OF s(3)], where its = its and st' = st] assms(1,2) s
  obtain ms where inv: "report_inv enc to_json config w0 (unat streams) ms st" by (metis stats_def)
  then have "length (tst_streams (rp_stats st)) = unat streams" by (simp add: report_inv_def)
  with report_wire [OF inv assms(3)] show ?thesis by auto
qed

text \<open>Whatever the interleaving of ticks, commands and partial writes, the bytes a finished report put
  on the wire are the frames of whole interval messages of this test, the cancellation if there was
  one, and the result, encoded once each in that order; and coalescing while the client does not
  read loses nothing: for every stream the interval byte counts add up to its total at the last tick
  (less the sample that a cancellation drops).\<close>

theorem report_accounts_for_bytes:
  assumes "report_loop enc to_json config start its (report_init w0 (TestStats_new test_id streams t0)) = Ended st"
    "ticks_ok (replicate (unat streams) 0) its"
    "Reporting_finish enc (report_end to_json config start now st) (to_json result) Flushed = (rep, tail, Ok ())"
  shows "\<exists>ms w. list_all (is_interval_of (rc_id config) (unat streams)) ms
    \<and> send_all enc w0 (report_lines to_json config st ms result) = Ok (rp_written st @ tail, w)
    \<and> (\<forall>k<unat streams. (\<Sum>m\<leftarrow>ms. interval_bytes k m) + (if rp_cancelled st then sample_bytes k (rp_pending st) else 0)
               = unat (st_last_bytes (tst_streams (rp_stats st) ! k)))"
  using report_messages [OF assms] .

lemmas report_eval = report_iter_def report_top_def report_event_step_def report_tick_def report_write_def report_init_def
  end_if_def state_elapsed_def active_elapsed_def Sample_capture_def record_intervals_with_def record_interval_with_def
  push_interval_def MAX_INTERVAL_HISTORY_def TestStats_new_def StreamStats_new_def sample_config_def sample_reading_def
  Frame_encode_def write_once_def frame_rest_def frame_complete_def encode_message_def Let_def

lemma sample_run: "\<exists>st. report_loop toy_enc (\<lambda>m. ''abc'') sample_config 0 sample_its
    (report_init PlaintextWriter (TestStats_new ''t'' 1 0)) = Ended st
  \<and> rp_cancelled st = False \<and> rp_codec st = PlaintextWriter \<and> st_last_bytes (tst_streams (rp_stats st) ! 0) = 8"
  by (simp add: sample_its_def report_eval as_bytes_def utf8_char_def saturating_sub_def)

theorem report_accounts_for_bytes_witness:
  "\<exists>st ms. report_loop toy_enc (\<lambda>m. ''abc'') sample_config 0 sample_its
      (report_init PlaintextWriter (TestStats_new ''t'' 1 0)) = Ended st
    \<and> list_all (is_interval_of ''t'' 1) ms \<and> (\<Sum>m\<leftarrow>ms. interval_bytes 0 m) = 8"
proof -
  obtain st where st: "report_loop toy_enc (\<lambda>m. ''abc'') sample_config 0 sample_its
      (report_init PlaintextWriter (TestStats_new ''t'' 1 0)) = Ended st"
    "rp_cancelled st = False" "rp_codec st = PlaintextWriter" "st_last_bytes (tst_streams (rp_stats st) ! 0) = 8"
    using sample_run by blast
  obtain rep tail where "Reporting_finish toy_enc (report_end (\<lambda>m. ''abc'') sample_config 0 0 st) ((\<lambda>m. ''abc'') (Cancelled [])) Flushed
      = (rep, tail, Ok ())"
    using finish_plaintext st(3) by (metis Reporting.select_convs(5) report_end_def)
  from report_accounts_for_bytes [OF st(1) _ this] st(2,4)
  have "\<exists>ms. list_all (is_interval_of ''t'' 1) ms \<and> (\<Sum>m\<leftarrow>ms. interval_bytes 0 m) = 8"
    by (auto simp: sample_its_def sample_reading_def sample_config_def)
  with st(1) show ?thesis by blast
qed

text \<open>A timed test that was not cancelled and did not lose its client reports at least the requested
  duration of active time (pauses excluded).\<close>

theorem timed_report_duration:
  assumes "report_loop enc to_json config start its (report_init w0 stats) = Ended st"
    "\<not> rc_byte_budget_test config" "\<not> rc_end_on_server_send config" "\<not> rp_cancelled st"
    "list_all (\<lambda>(t, e). \<not> is_exit e) its" "clocks_until now its" "now < 2 ^ 64 * 1000000"
  shows "rc_duration config div 1000000 \<le> unat (duration_ms (report_end to_json config start now st) now)"
proof -
  have "rc_duration config \<le> state_elapsed start now st"
    using report_loop_deadline [OF assms(2,3) _ assms(1,4,5,6)] by (simp add: report_init_def)
  moreover have "state_elapsed start now st \<le> now" by (simp add: state_elapsed_def active_elapsed_def)
  then have "state_elapsed start now st div 1000000 < 2 ^ 64" using assms(7) by (simp add: less_mult_imp_div_less)
  then have "unat (as_millis (state_elapsed start now st)) = state_elapsed start now st div 1000000"
    by (simp add: as_millis_def unat_word_of_nat)
  ultimately show ?thesis
    using assms(2) by (simp add: duration_ms_def report_end_def transfer_end_def state_elapsed_def div_le_mono)
qed

theorem timed_report_duration_witness:
  "\<exists>st. report_loop toy_enc (\<lambda>m. ''abc'') sample_config 0 sample_its
      (report_init PlaintextWriter (TestStats_new ''t'' 1 0)) = Ended st
    \<and> 9 \<le> unat (duration_ms (report_end (\<lambda>m. ''abc'') sample_config 0 9000000 st) 9000000)"
proof -
  obtain st where st: "report_loop toy_enc (\<lambda>m. ''abc'') sample_config 0 sample_its
      (report_init PlaintextWriter (TestStats_new ''t'' 1 0)) = Ended st" "rp_cancelled st = False"
    using sample_run by blast
  from timed_report_duration [OF st(1), of 9000000] st(2)
  have "9 \<le> unat (duration_ms (report_end (\<lambda>m. ''abc'') sample_config 0 9000000 st) 9000000)"
    by (simp add: sample_config_def sample_its_def clocks_until_def)
  with st(1) show ?thesis by blast
qed

end
