(* ===== verification/Net.thy ===== *)
theory Net
  imports Acl
begin

text \<open>
  Addresses and socket decisions of \<open>src/net.rs\<close>: address families, socket addresses with their IPv6 scope, the choice
  of bind addresses, resolution and connection attempts in order, buffer sizes. Name lookup, connecting and
  \<open>setsockopt\<close> are arguments.
\<close>

section \<open>Addresses\<close>

datatype AddressFamily = V4Only | V6Only | DualStack

definition AddressFamily_from_str :: "string \<Rightarrow> AddressFamily option" where
  "AddressFamily_from_str s =
     (let s = to_lowercase s
      in if s \<in> {''4'', ''v4'', ''ipv4'', ''v4only'', ''ipv4-only''} then Some V4Only
         else if s \<in> {''6'', ''v6'', ''ipv6'', ''v6only'', ''ipv6-only''} then Some V6Only
         else if s \<in> {''dual'', ''dualstack'', ''dual-stack'', ''both''} then Some DualStack
         else None)"

definition AddressFamily_display :: "AddressFamily \<Rightarrow> string" where
  "AddressFamily_display f = (case f of V4Only \<Rightarrow> ''IPv4'' | V6Only \<Rightarrow> ''IPv6'' | DualStack \<Rightarrow> ''dual-stack'')"

text \<open>An IPv6 socket address has flow information and a scope beside its address and port.\<close>

datatype SocketAddr = SockV4 "32 word" u16 | SockV6 "128 word" u16 u32 u32

fun SocketAddr_new :: "IpAddr \<Rightarrow> u16 \<Rightarrow> SocketAddr" where
  "SocketAddr_new (V4 a) p = SockV4 a p"
| "SocketAddr_new (V6 a) p = SockV6 a p 0 0"

fun addr_ip :: "SocketAddr \<Rightarrow> IpAddr" where
  "addr_ip (SockV4 a p) = V4 a"
| "addr_ip (SockV6 a p fl sc) = V6 a"

fun addr_port :: "SocketAddr \<Rightarrow> u16" where
  "addr_port (SockV4 a p) = p"
| "addr_port (SockV6 a p fl sc) = p"

fun is_ipv4 :: "SocketAddr \<Rightarrow> bool" where
  "is_ipv4 (SockV4 a p) = True"
| "is_ipv4 (SockV6 a p fl sc) = False"

fun is_unspecified :: "IpAddr \<Rightarrow> bool" where
  "is_unspecified (V4 a) = (a = 0)"
| "is_unspecified (V6 a) = (a = 0)"

fun with_port :: "SocketAddr \<Rightarrow> u16 \<Rightarrow> SocketAddr" where
  "with_port (SockV4 a p) q = SockV4 a q"
| "with_port (SockV6 a p fl sc) q = SockV6 a q fl sc"

definition is_ipv4_mapped :: "IpAddr \<Rightarrow> bool" where
  "is_ipv4_mapped ip = (case ip of V6 a \<Rightarrow> to_ipv4_mapped a \<noteq> None | V4 _ \<Rightarrow> False)"

definition normalize_addr :: "SocketAddr \<Rightarrow> SocketAddr" where
  "normalize_addr addr =
     (case addr of
        SockV6 a p fl sc \<Rightarrow> (case to_ipv4_mapped a of Some v4 \<Rightarrow> SockV4 v4 p | None \<Rightarrow> addr)
      | _ \<Rightarrow> addr)"

definition family_bind_addr :: "AddressFamily \<Rightarrow> u16 \<Rightarrow> SocketAddr" where
  "family_bind_addr f p = (case f of V4Only \<Rightarrow> SocketAddr_new (V4 0) p | _ \<Rightarrow> SocketAddr_new (V6 0) p)"

text \<open>The \<open>IPV6_V6ONLY\<close> flag that a listening socket gets; \<open>None\<close> for IPv4.\<close>

definition v6only_for_addr :: "SocketAddr \<Rightarrow> AddressFamily \<Rightarrow> bool option" where
  "v6only_for_addr addr family =
     (if is_ipv4 addr then None
      else Some (if is_unspecified (addr_ip addr) then family = V6Only else True))"

definition match_bind_family :: "SocketAddr \<Rightarrow> SocketAddr \<Rightarrow> SocketAddr" where
  "match_bind_family bind remote =
     (if is_unspecified (addr_ip bind) \<and> is_ipv4 bind \<noteq> is_ipv4 remote
      then SocketAddr_new (if \<not> is_ipv4 remote then V6 0 else V4 0) (addr_port bind)
      else bind)"

text \<open>\<open>host_port\<close>: brackets around an IPv6 literal.\<close>

definition host_port :: "string \<Rightarrow> u16 \<Rightarrow> string" where
  "host_port host p =
     (let host = dropWhile (\<lambda>c. c = CHR ''['') host;
          host = rev (dropWhile (\<lambda>c. c = CHR '']'') (rev host))
      in if CHR '':'' \<in> set host then ''['' @ host @ '']:'' @ show_nat (unat p)
         else host @ '':'' @ show_nat (unat p))"

section \<open>Connecting\<close>

datatype net_error = ResolveFailed | NoSuchHost string | NoFamilyAddress AddressFamily string | NotConnected | ConnectFailed string

text \<open>\<open>lookup\<close> is what the literal parser or the resolver returned.\<close>

definition resolve_host :: "(net_error + SocketAddr list) \<Rightarrow> string \<Rightarrow> AddressFamily \<Rightarrow> net_error + SocketAddr list" where
  "resolve_host lookup host family =
     (case lookup of
        Err e \<Rightarrow> Err e
      | Ok addrs \<Rightarrow>
          if addrs = [] then Err (NoSuchHost host)
          else (let filtered = (case family of
                                  V4Only \<Rightarrow> filter is_ipv4 addrs
                                | V6Only \<Rightarrow> filter (\<lambda>a. \<not> is_ipv4 a) addrs
                                | DualStack \<Rightarrow> addrs)
                in if filtered = [] then Err (NoFamilyAddress family host) else Ok filtered))"

fun connect_loop ::
  "(SocketAddr \<Rightarrow> SocketAddr option \<Rightarrow> net_error + 'stream) \<Rightarrow> SocketAddr option \<Rightarrow> SocketAddr list \<Rightarrow> net_error option
     \<Rightarrow> net_error + 'stream \<times> SocketAddr" where
  "connect_loop connect bind [] last_err = Err (case last_err of None \<Rightarrow> NotConnected | Some e \<Rightarrow> e)"
| "connect_loop connect bind (addr # addrs) last_err =
     (case connect addr (map_option (\<lambda>local. match_bind_family local addr) bind) of
        Ok stream \<Rightarrow> Ok (stream, addr)
      | Err e \<Rightarrow> connect_loop connect bind addrs (Some e))"

definition connect_tcp ::
  "(SocketAddr \<Rightarrow> SocketAddr option \<Rightarrow> net_error + 'stream) \<Rightarrow> (net_error + SocketAddr list) \<Rightarrow> string \<Rightarrow> AddressFamily
     \<Rightarrow> SocketAddr option \<Rightarrow> net_error + 'stream \<times> SocketAddr" where
  "connect_tcp connect lookup host family bind =
     (case resolve_host lookup host family of
        Err e \<Rightarrow> Err e
      | Ok addrs \<Rightarrow> connect_loop connect bind addrs None)"

section \<open>Buffer sizes\<close>

datatype buffer_error = WindowTooLarge usize | WindowZero | SndBuf string | RcvBuf string | SndRcvBuf string string

definition validate_udp_buffer_size :: "usize \<Rightarrow> buffer_error + nat" where
  "validate_udp_buffer_size n =
     (if 2 ^ 31 \<le> unat n then Err (WindowTooLarge n) else if unat n = 0 then Err WindowZero else Ok (unat n))"

definition combine_udp_buffer_errors :: "string option \<Rightarrow> string option \<Rightarrow> buffer_error + unit" where
  "combine_udp_buffer_errors snd_err rcv_err =
     (case (snd_err, rcv_err) of
        (None, None) \<Rightarrow> Ok ()
      | (Some e, None) \<Rightarrow> Err (SndBuf e)
      | (None, Some e) \<Rightarrow> Err (RcvBuf e)
      | (Some s, Some r) \<Rightarrow> Err (SndRcvBuf s r))"

text \<open>The options tried, in order, and the outcome; \<open>set\<close> is the \<open>setsockopt\<close> of an option.\<close>

datatype sock_opt = SO_SNDBUF | SO_RCVBUF

definition set_udp_buffer_size_with :: "(sock_opt \<Rightarrow> nat \<Rightarrow> string option) \<Rightarrow> usize \<Rightarrow> (sock_opt \<times> nat) list \<times> (buffer_error + unit)" where
  "set_udp_buffer_size_with set_opt n =
     (case validate_udp_buffer_size n of
        Err e \<Rightarrow> ([], Err e)
      | Ok size_c \<Rightarrow>
          ([(SO_SNDBUF, size_c), (SO_RCVBUF, size_c)],
           combine_udp_buffer_errors (set_opt SO_SNDBUF size_c) (set_opt SO_RCVBUF size_c)))"

section \<open>Lemmas\<close>

lemma with_port_simps [simp]:
  "addr_port (with_port a p) = p" "addr_ip (with_port a p) = addr_ip a" "is_ipv4 (with_port a p) = is_ipv4 a"
  by (cases a; simp)+

lemma SocketAddr_new_simps [simp]: "addr_ip (SocketAddr_new i p) = i" "addr_port (SocketAddr_new i p) = p"
  by (cases i; simp)+

lemma normalize_addr_ip: "addr_ip (normalize_addr a) = normalize_ip (addr_ip a)" "addr_port (normalize_addr a) = addr_port a"
  by (cases a; simp add: normalize_addr_def normalize_ip_def split: option.split)+

text \<open>A wildcard bind address takes the family of the remote one; a concrete one is kept; the port stays.\<close>

lemma match_bind_family_port [simp]: "addr_port (match_bind_family b r) = addr_port b"
  by (simp add: match_bind_family_def)

lemma match_bind_family_same: "is_unspecified (addr_ip b) \<Longrightarrow> is_ipv4 (match_bind_family b r) = is_ipv4 r"
  by (cases b; cases r) (auto simp: match_bind_family_def)

lemma resolve_host_family:
  assumes "resolve_host lookup host family = Ok addrs"
  shows "addrs \<noteq> [] \<and> (family = V4Only \<longrightarrow> list_all is_ipv4 addrs) \<and> (family = V6Only \<longrightarrow> list_all (Not \<circ> is_ipv4) addrs)"
  using assms by (auto simp: resolve_host_def Let_def list_all_iff split: sum.splits if_splits AddressFamily.splits)

text \<open>The first address that accepts is used; only when all refuse is there an error, the last one.\<close>

lemma connect_loop_Ok:
  "connect_loop connect bind addrs e = Ok (s, a) \<longleftrightarrow>
     (\<exists>pre post. addrs = pre @ a # post
        \<and> connect a (map_option (\<lambda>local. match_bind_family local a) bind) = Ok s
        \<and> (\<forall>b\<in>set pre. \<exists>err. connect b (map_option (\<lambda>local. match_bind_family local b) bind) = Err err))"
    (is "_ \<longleftrightarrow> ?R addrs")
proof (induction addrs arbitrary: e)
  case Nil
  then show ?case by simp
next
  case (Cons b addrs)
  let ?c = "connect b (map_option (\<lambda>local. match_bind_family local b) bind)"
  show ?case
  proof (cases ?c)
    case (Inl err)
    have "?R (b # addrs) \<longleftrightarrow> ?R addrs"
    proof
      assume "?R (b # addrs)"
      then obtain pre post where h: "b # addrs = pre @ a # post"
        "connect a (map_option (\<lambda>local. match_bind_family local a) bind) = Ok s"
        "\<forall>b\<in>set pre. \<exists>err. connect b (map_option (\<lambda>local. match_bind_family local b) bind) = Err err" by blast
      then have "pre \<noteq> []" using Inl by auto
      then obtain pre' where "pre = b # pre'" "addrs = pre' @ a # post" using h(1) by (cases pre) auto
      then show "?R addrs" using h by auto
    next
      assume "?R addrs"
      then obtain pre post where "addrs = pre @ a # post"
        "connect a (map_option (\<lambda>local. match_bind_family local a) bind) = Ok s"
        "\<forall>b\<in>set pre. \<exists>err. connect b (map_option (\<lambda>local. match_bind_family local b) bind) = Err err" by blast
      then show "?R (b # addrs)" using Inl by (intro exI [of _ "b # pre"] exI [of _ post]) auto
    qed
    then show ?thesis using Inl Cons.IH [of "Some err"] by simp
  next
    case (Inr s')
    have "?R (b # addrs) \<longleftrightarrow> a = b \<and> s = s'"
    proof
      assume "?R (b # addrs)"
      then obtain pre post where h: "b # addrs = pre @ a # post"
        "connect a (map_option (\<lambda>local. match_bind_family local a) bind) = Ok s"
        "\<forall>b\<in>set pre. \<exists>err. connect b (map_option (\<lambda>local. match_bind_family local b) bind) = Err err" by blast
      then have "pre = []" using Inr by (cases pre) auto
      then show "a = b \<and> s = s'" using h Inr by auto
    next
      assume "a = b \<and> s = s'"
      then show "?R (b # addrs)" using Inr by (intro exI [of _ "[]"] exI [of _ addrs]) auto
    qed
    then show ?thesis using Inr by auto
  qed
qed

lemma buffer_sizes_independent:
  "validate_udp_buffer_size n = Ok k \<Longrightarrow>
     map fst (fst (set_udp_buffer_size_with set_opt n)) = [SO_SNDBUF, SO_RCVBUF]
     \<and> (snd (set_udp_buffer_size_with set_opt n) = Ok () \<longleftrightarrow> set_opt SO_SNDBUF k = None \<and> set_opt SO_RCVBUF k = None)"
  by (auto simp: set_udp_buffer_size_with_def combine_udp_buffer_errors_def split: option.split)

end
