(* ===== verification/Handshake.thy ===== *)
theory Handshake
  imports Control_Channel Net Rate_Limit
begin

text \<open>
  The handshake on the control connection, on both sides: the server's of \<open>src/serve.rs\<close> (hello, challenge, test
  request) and the client's of \<open>src/client.rs\<close> (hello, answer, proof, test start, acknowledgement). Each step is
  a function of the line that was read; what it writes is part of its result. The nonces are
  arguments, and so are the JSON encoder and decoder, the MAC, the key derivation and the kernel's
  list of congestion algorithms.
\<close>

type_synonym hkdf = "bytes \<Rightarrow> bytes \<Rightarrow> bytes \<Rightarrow> nat \<Rightarrow> bytes option"
type_synonym hmac = "bytes \<Rightarrow> bytes \<Rightarrow> bytes"

datatype hs_error =
    VersionMismatch | NoProtectedControl | ExpectedHello | HsTimeout | HsRead | ClientSentNoPsk | ServerUsesNoPsk
  | BadMessage protocol_error | AuthenticationFailed | NoClientNonce | CryptoFailed control_error | ExpectedAuthResponse
  | ExpectedTestStart | PayloadNeedsUdp | BadPayloadSize udp_error | BadStreamCount | BadCongestion string
  | PskRequired | ServerError string | UnexpectedResponse | AuthRejected string | ProofFailed | NoProof
  | NoUdpPayloadSupport | NoMtuProbeSupport | NoByteBudgetSupport | ExpectedTestAck | NoSinglePortTcp | NoSinglePortUdp

definition PROTECTED_CONTROL_CAPABILITY :: string where "PROTECTED_CONTROL_CAPABILITY = ''protected_control_v1''"

section \<open>The server's side\<close>

record SecurityContext =
  sc_psk :: "string option"
  sc_capabilities :: "string list"
  sc_udp_hello_routes :: bool

record server_await =
  sa_auth :: "(string \<times> string) option"
  sa_capabilities :: "string list option"
  sa_client_nonce :: "string option"

definition server_on_hello ::
  "(ControlMessage \<Rightarrow> string) \<Rightarrow> SecurityContext \<Rightarrow> string \<Rightarrow> ControlMessage \<Rightarrow> string list \<times> (hs_error + server_await)" where
  "server_on_hello to_json security nonce first_msg =
     (case first_msg of
        Hello h \<Rightarrow>
          if \<not> versions_compatible (h_version h) PROTOCOL_VERSION
          then ([serialize to_json (error_message (''Incompatible protocol version: '' @ h_version h @ '' (server: '' @ PROTOCOL_VERSION @ '')''))],
                Err VersionMismatch)
          else if sc_psk security \<noteq> None
          then (if \<not> capability_advertised (h_capabilities h) PROTECTED_CONTROL_CAPABILITY
                then ([serialize to_json (error_message ''PSK authentication requires protected_control_v1 capability'')], Err NoProtectedControl)
                else (let server_hello_json = serialize to_json (server_hello_with_auth_and_capabilities nonce (sc_capabilities security))
                      in ([server_hello_json],
                          Ok \<lparr>sa_auth = Some (nonce, server_hello_json), sa_capabilities = h_capabilities h,
                              sa_client_nonce = h_client_nonce h\<rparr>)))
          else ([serialize to_json (server_hello_with_capabilities (sc_capabilities security))],
                Ok \<lparr>sa_auth = None, sa_capabilities = h_capabilities h, sa_client_nonce = h_client_nonce h\<rparr>)
      | _ \<Rightarrow> ([], Err ExpectedHello))"

text \<open>A read within the handshake's time limit: it times out, fails, or returns a line (empty at the
  end of the connection).\<close>

datatype handshake_read = ReadTimeout | ReadFailed | ReadLine string

definition explain_psk_hangup :: "(hs_error + unit) \<Rightarrow> string \<Rightarrow> bool \<Rightarrow> bool \<Rightarrow> hs_error + unit" where
  "explain_psk_hangup r line client_has_psk server_has_psk =
     (if r \<noteq> Ok () \<or> line = []
      then (case (client_has_psk, server_has_psk) of
              (False, True) \<Rightarrow> Err ClientSentNoPsk
            | (True, False) \<Rightarrow> Err ServerUsesNoPsk
            | _ \<Rightarrow> r)
      else r)"

definition handshake_line :: "handshake_read \<Rightarrow> bool \<Rightarrow> bool \<Rightarrow> hs_error + string" where
  "handshake_line r client_has_psk server_has_psk =
     (case r of
        ReadTimeout \<Rightarrow> Err HsTimeout
      | ReadFailed \<Rightarrow> (case explain_psk_hangup (Err HsRead) [] client_has_psk server_has_psk of Err e \<Rightarrow> Err e | Ok _ \<Rightarrow> Ok [])
      | ReadLine line \<Rightarrow> (case explain_psk_hangup (Ok ()) line client_has_psk server_has_psk of Err e \<Rightarrow> Err e | Ok _ \<Rightarrow> Ok line))"

definition parse_line :: "(string \<Rightarrow> ControlMessage option) \<Rightarrow> string \<Rightarrow> hs_error + ControlMessage" where
  "parse_line from_json line = (case deserialize from_json (trim line) of Err e \<Rightarrow> Err (BadMessage e) | Ok m \<Rightarrow> Ok m)"

definition server_on_auth ::
  "hkdf \<Rightarrow> hmac \<Rightarrow> (ControlMessage \<Rightarrow> string) \<Rightarrow> string \<Rightarrow> string \<Rightarrow> string \<Rightarrow> string \<Rightarrow> string option \<Rightarrow> ControlMessage
     \<Rightarrow> string list \<times> (hs_error + ProtectedControl)" where
  "server_on_auth hkdf hmac to_json psk raw_client_hello nonce server_hello_json client_nonce msg =
     (case msg of
        AuthResponse response \<Rightarrow>
          if \<not> verify_response hmac nonce psk response
          then ([serialize to_json (error_message ''Authentication failed'')], Err AuthenticationFailed)
          else (case client_nonce of
                  None \<Rightarrow> ([], Err NoClientNonce)
                | Some cn \<Rightarrow>
                    (case derive_pair hkdf cn nonce psk of
                       Err e \<Rightarrow> ([], Err (CryptoFailed e))
                     | Ok (c2s, s2c) \<Rightarrow>
                         (case compute_server_proof hkdf hmac (as_bytes raw_client_hello) (as_bytes server_hello_json) cn nonce psk of
                            Err e \<Rightarrow> ([], Err (CryptoFailed e))
                          | Ok server_proof \<Rightarrow>
                              ([serialize to_json (auth_success_with_proof server_proof)], Ok (protected_server c2s s2c)))))
      | _ \<Rightarrow> ([serialize to_json (error_message ''Expected auth response'')], Err ExpectedAuthResponse))"

text \<open>The handshake up to the test request: the lines written and the transport from then on.\<close>

definition server_handshake ::
  "hkdf \<Rightarrow> hmac \<Rightarrow> (string \<Rightarrow> ControlMessage option) \<Rightarrow> (ControlMessage \<Rightarrow> string) \<Rightarrow> SecurityContext \<Rightarrow> string
     \<Rightarrow> ControlMessage \<Rightarrow> string \<Rightarrow> handshake_read \<Rightarrow> string list \<times> (hs_error + server_await \<times> ProtectedControl)" where
  "server_handshake hkdf hmac from_json to_json security nonce first_msg raw_client_hello auth_read =
     (case server_on_hello to_json security nonce first_msg of
        (out, Err e) \<Rightarrow> (out, Err e)
      | (out, Ok aw) \<Rightarrow>
          (case (sa_auth aw, sc_psk security) of
             (Some (n, server_hello_json), Some psk) \<Rightarrow>
               (case handshake_line auth_read (sa_client_nonce aw \<noteq> None) True of
                  Err e \<Rightarrow> (out, Err e)
                | Ok line \<Rightarrow>
                    (case parse_line from_json line of
                       Err e \<Rightarrow> (out, Err e)
                     | Ok msg \<Rightarrow>
                         (case server_on_auth hkdf hmac to_json psk raw_client_hello n server_hello_json (sa_client_nonce aw) msg of
                            (out', Err e) \<Rightarrow> (out @ out', Err e)
                          | (out', Ok t) \<Rightarrow> (out @ out', Ok (aw, t)))))
           | _ \<Rightarrow> (out, Ok (aw, Plaintext))))"

section \<open>The test request\<close>

definition MAX_STREAMS :: u8 where "MAX_STREAMS = 128"
definition MAX_TEST_DURATION :: duration where "MAX_TEST_DURATION = 3600 * 1000000000"

definition from_secs :: "u32 \<Rightarrow> duration" where "from_secs s = unat s * 1000000000"

definition effective_duration :: "duration option \<Rightarrow> u32 \<Rightarrow> duration" where
  "effective_duration server_max duration_secs =
     (let dur = from_secs duration_secs
      in if dur = 0 then (case server_max of Some m \<Rightarrow> m | None \<Rightarrow> dur)
         else (let dur = (if MAX_TEST_DURATION < dur then MAX_TEST_DURATION else dur)
               in case server_max of Some m \<Rightarrow> if m < dur then m else dur | None \<Rightarrow> dur))"

record accepted_test =
  tq_start :: TestStartFields
  tq_duration :: duration
  tq_payload_size :: nat
  tq_single_port_udp :: bool

fun payload_error_text :: "hs_error \<Rightarrow> string" where
  "payload_error_text (BadPayloadSize (PayloadSizeOutOfRange lo hi)) =
     ''UDP payload size must be between '' @ show_nat lo @ '' and '' @ show_nat hi @ '' bytes''"
| "payload_error_text _ = ''UDP payload size requires a UDP throughput test''"

text \<open>The checks of a test request: the error to send, if any, and the test to run.\<close>

definition check_test_request ::
  "(string \<Rightarrow> string option) \<Rightarrow> SecurityContext \<Rightarrow> duration option \<Rightarrow> bool \<Rightarrow> ControlMessage
     \<Rightarrow> ControlMessage option \<times> (hs_error + accepted_test)" where
  "check_test_request congestion_error security server_max client_supports_single_port_udp msg =
     (case msg of
        TestStart ts \<Rightarrow>
          (let payload = (case ts_udp_payload_size ts of
                 None \<Rightarrow> Ok ()
               | Some n \<Rightarrow> if ts_protocol ts \<noteq> Udp \<or> ts_mtu_probe ts then Err PayloadNeedsUdp
                           else (case validate_payload_size (unat n) of Err e \<Rightarrow> Err (BadPayloadSize e) | Ok _ \<Rightarrow> Ok ()))
           in case payload of
                Err e \<Rightarrow> (Some (error_message (payload_error_text e)), Err e)
              | Ok _ \<Rightarrow>
                  if ts_streams ts = 0 \<or> MAX_STREAMS < ts_streams ts
                  then (Some (error_message (''Invalid stream count '' @ show_nat (unat (ts_streams ts)) @ '' (must be 1-128)'')), Err BadStreamCount)
                  else (let dur = effective_duration server_max (ts_duration_secs ts);
                            algo_error = (if ts_protocol ts = Tcp
                                          then (case ts_congestion ts of None \<Rightarrow> None
                                                | Some algo \<Rightarrow> map_option (\<lambda>e. (algo, e)) (congestion_error algo))
                                          else None)
                        in case algo_error of
                             Some (algo, e) \<Rightarrow>
                               (Some (error_message (''Unsupported congestion control algorithm '' @ [CHR 0x27] @ algo @ [CHR 0x27] @ '': '' @ e)),
                                Err (BadCongestion algo))
                           | None \<Rightarrow>
                               (None, Ok \<lparr>tq_start = ts, tq_duration = dur,
                                          tq_payload_size = (case ts_udp_payload_size ts of None \<Rightarrow> UDP_PAYLOAD_SIZE | Some n \<Rightarrow> unat n),
                                          tq_single_port_udp = (client_supports_single_port_udp \<and> sc_udp_hello_routes security)\<rparr>)))
      | _ \<Rightarrow> (Some (error_message ''Expected test_start message''), Err ExpectedTestStart))"

text \<open>The error goes out through the transport.\<close>

definition handle_test_request ::
  "aead \<Rightarrow> (string \<Rightarrow> ControlMessage option) \<Rightarrow> (ControlMessage \<Rightarrow> string) \<Rightarrow> (string \<Rightarrow> string option) \<Rightarrow> SecurityContext
     \<Rightarrow> duration option \<Rightarrow> server_await \<Rightarrow> ProtectedControl \<Rightarrow> handshake_read
     \<Rightarrow> ProtectedControl \<times> bytes \<times> (hs_error + accepted_test)" where
  "handle_test_request enc from_json to_json congestion_error security server_max aw transport r =
     (case handshake_line r (sa_client_nonce aw \<noteq> None) (sc_psk security \<noteq> None) of
        Err e \<Rightarrow> (transport, [], Err e)
      | Ok line \<Rightarrow>
          (case parse_line from_json line of
             Err e \<Rightarrow> (transport, [], Err e)
           | Ok msg \<Rightarrow>
               (case check_test_request congestion_error security server_max
                       (capability_advertised (sa_capabilities aw) SINGLE_PORT_UDP_CAPABILITY) msg of
                  (None, res) \<Rightarrow> (transport, [], res)
                | (Some err, res) \<Rightarrow>
                    (case ProtectedControl_write_message enc transport (serialize to_json err) of
                       (transport', Err e) \<Rightarrow> (transport', [], Err (CryptoFailed e))
                     | (transport', Ok bs) \<Rightarrow> (transport', bs, res)))))"

section \<open>The client's side\<close>

datatype ZerocopyMode = ZcOff | ZcAuto | ZcRequested

definition zerocopy_enabled :: "ZerocopyMode \<Rightarrow> bool" where
  "zerocopy_enabled z = (z \<noteq> ZcOff)"

record ClientConfig =
  cl_host :: string
  cl_port :: u16
  cl_protocol :: Protocol
  cl_streams :: u8
  cl_duration :: duration
  cl_direction :: Protocol.Direction
  cl_bitrate :: "u64 option"
  cl_udp_payload_size :: "u16 option"
  cl_tcp_nodelay :: bool
  cl_tcp_congestion :: "string option"
  cl_window_size :: "usize option"
  cl_psk :: "string option"
  cl_address_family :: AddressFamily
  cl_bind_addr :: "SocketAddr option"
  cl_sequential_ports :: bool
  cl_mptcp :: bool
  cl_random_payload :: bool
  cl_zerocopy :: ZerocopyMode
  cl_dscp :: "u8 option"
  cl_mtu_probe :: bool
  cl_connect_timeout :: "duration option"
  cl_byte_budget :: "u64 option"

definition ClientConfig_default :: ClientConfig where
  "ClientConfig_default = \<lparr>cl_host = ''127.0.0.1'', cl_port = DEFAULT_PORT, cl_protocol = Tcp, cl_streams = 1,
     cl_duration = 10000000000, cl_direction = Upload, cl_bitrate = None, cl_udp_payload_size = None, cl_tcp_nodelay = False,
     cl_tcp_congestion = None, cl_window_size = None, cl_psk = None, cl_address_family = DualStack, cl_bind_addr = None,
     cl_sequential_ports = False, cl_mptcp = False, cl_random_payload = True, cl_zerocopy = ZcAuto, cl_dscp = None,
     cl_mtu_probe = False, cl_connect_timeout = None, cl_byte_budget = None\<rparr>"

datatype config_error = BadParallel u8 | DurationTooLong | LengthWithProbe | BadLength udp_error | BadPsk auth_error

definition as_secs :: "duration \<Rightarrow> nat" where "as_secs d = d div 1000000000"

definition ClientConfig_validate :: "ClientConfig \<Rightarrow> config_error + unit" where
  "ClientConfig_validate c =
     (if \<not> (1 \<le> cl_streams c \<and> cl_streams c \<le> 128) then Err (BadParallel (cl_streams c))
      else if unat (umax :: u32) < as_secs (cl_duration c) then Err DurationTooLong
      else (case (case cl_udp_payload_size c of
                    None \<Rightarrow> Ok ()
                  | Some n \<Rightarrow> if cl_mtu_probe c then Err LengthWithProbe
                              else (case validate_payload_size (unat n) of Err e \<Rightarrow> Err (BadLength e) | Ok _ \<Rightarrow> Ok ())) of
              Err e \<Rightarrow> Err e
            | Ok _ \<Rightarrow> (case cl_psk c of
                         None \<Rightarrow> Ok ()
                       | Some psk \<Rightarrow> (case validate_psk psk of Err e \<Rightarrow> Err (BadPsk e) | Ok _ \<Rightarrow> Ok ()))))"

text \<open>The client's hello carries a nonce exactly when it has a key; \<open>fresh\<close> is the generated nonce.\<close>

definition client_nonce :: "ClientConfig \<Rightarrow> string \<Rightarrow> string option" where
  "client_nonce c fresh = (if cl_psk c \<noteq> None then Some fresh else None)"

definition client_first :: "ClientConfig \<Rightarrow> string \<Rightarrow> ControlMessage" where
  "client_first c fresh = (case client_nonce c fresh of Some n \<Rightarrow> client_hello_with_nonce n | None \<Rightarrow> client_hello)"

record client_hs =
  ch_capabilities :: "string list option"
  ch_server_version :: "string option"
  ch_server_nonce :: "string option"
  ch_raw_server_hello :: string

text \<open>The server's hello: the answer to send, if it carries a challenge.\<close>

definition client_on_hello ::
  "hmac \<Rightarrow> (string \<Rightarrow> ControlMessage option) \<Rightarrow> (ControlMessage \<Rightarrow> string) \<Rightarrow> ClientConfig \<Rightarrow> string
     \<Rightarrow> hs_error + string option \<times> client_hs" where
  "client_on_hello hmac from_json to_json c line =
     (case parse_line from_json line of
        Err e \<Rightarrow> Err e
      | Ok (Hello h) \<Rightarrow>
          if \<not> versions_compatible (h_version h) PROTOCOL_VERSION then Err VersionMismatch
          else (let st = \<lparr>ch_capabilities = h_capabilities h, ch_server_version = h_server h, ch_server_nonce = None,
                         ch_raw_server_hello = trim line\<rparr>
                in case h_auth h of
                     Some challenge \<Rightarrow>
                       (case cl_psk c of
                          None \<Rightarrow> Err PskRequired
                        | Some psk \<Rightarrow>
                            if \<not> capability_advertised (h_capabilities h) PROTECTED_CONTROL_CAPABILITY then Err NoProtectedControl
                            else Ok (Some (serialize to_json (auth_response (compute_response hmac (ac_nonce challenge) psk))),
                                     st\<lparr>ch_server_nonce := Some (ac_nonce challenge)\<rparr>))
                   | None \<Rightarrow> if cl_psk c \<noteq> None then Err ServerUsesNoPsk else Ok (None, st))
      | Ok (Error message) \<Rightarrow> Err (ServerError message)
      | Ok _ \<Rightarrow> Err UnexpectedResponse)"

text \<open>The reply to the answer: the proof over both hellos must verify.\<close>

definition client_on_auth ::
  "hkdf \<Rightarrow> hmac \<Rightarrow> (string \<Rightarrow> ControlMessage option) \<Rightarrow> string \<Rightarrow> string \<Rightarrow> string \<Rightarrow> string \<Rightarrow> string option \<Rightarrow> string \<Rightarrow> hs_error + unit" where
  "client_on_auth hkdf hmac from_json psk client_hello_json raw_server_hello server_nonce cn line =
     (case parse_line from_json line of
        Err e \<Rightarrow> Err e
      | Ok (AuthSuccess server_proof) \<Rightarrow>
          (case cn of
             None \<Rightarrow> Err NoClientNonce
           | Some n \<Rightarrow>
               (case server_proof of
                  None \<Rightarrow> Err NoProof
                | Some proof \<Rightarrow>
                    (case verify_server_proof hkdf hmac (as_bytes client_hello_json) (as_bytes raw_server_hello) n server_nonce psk proof of
                       Err e \<Rightarrow> Err (CryptoFailed e)
                     | Ok good \<Rightarrow> if good then Ok () else Err ProofFailed)))
      | Ok (Error message) \<Rightarrow> Err (AuthRejected message)
      | Ok _ \<Rightarrow> Err UnexpectedResponse)"

definition client_transport :: "hkdf \<Rightarrow> ClientConfig \<Rightarrow> string option \<Rightarrow> string option \<Rightarrow> hs_error + ProtectedControl" where
  "client_transport hkdf c cn sn =
     (case cl_psk c of
        None \<Rightarrow> Ok Plaintext
      | Some psk \<Rightarrow>
          (case (cn, sn) of
             (Some n, Some s) \<Rightarrow>
               (case derive_pair hkdf n s psk of
                  Err e \<Rightarrow> Err (CryptoFailed e)
                | Ok (c2s, s2c) \<Rightarrow> Ok (protected_client c2s s2c))
           | _ \<Rightarrow> Err NoClientNonce))"

text \<open>The whole handshake: the server's hello line, then, if the client answered, the reply. The result has
  the answer that was sent.\<close>

definition client_handshake ::
  "hkdf \<Rightarrow> hmac \<Rightarrow> (string \<Rightarrow> ControlMessage option) \<Rightarrow> (ControlMessage \<Rightarrow> string) \<Rightarrow> ClientConfig \<Rightarrow> string
     \<Rightarrow> string \<Rightarrow> string \<Rightarrow> string list \<times> (hs_error + client_hs \<times> ProtectedControl)" where
  "client_handshake hkdf hmac from_json to_json c fresh hello_line reply_line =
     (case client_on_hello hmac from_json to_json c hello_line of
        Err e \<Rightarrow> ([], Err e)
      | Ok (None, st) \<Rightarrow>
          ([], case client_transport hkdf c (client_nonce c fresh) (ch_server_nonce st) of Err e \<Rightarrow> Err e | Ok t \<Rightarrow> Ok (st, t))
      | Ok (Some answer, st) \<Rightarrow>
          ([answer],
           case (cl_psk c, ch_server_nonce st) of
             (Some psk, Some sn) \<Rightarrow>
               (case client_on_auth hkdf hmac from_json psk (serialize to_json (client_first c fresh)) (ch_raw_server_hello st)
                       sn (client_nonce c fresh) reply_line of
                  Err e \<Rightarrow> Err e
                | Ok _ \<Rightarrow> (case client_transport hkdf c (client_nonce c fresh) (ch_server_nonce st) of Err e \<Rightarrow> Err e | Ok t \<Rightarrow> Ok (st, t)))
           | _ \<Rightarrow> Err PskRequired))"

definition client_test_start ::
  "(string \<Rightarrow> string option) \<Rightarrow> ClientConfig \<Rightarrow> string list option \<Rightarrow> string \<Rightarrow> hs_error + ControlMessage" where
  "client_test_start congestion_error c caps test_id =
     (let payload = (if cl_protocol c = Udp then cl_udp_payload_size c else None)
      in if payload \<noteq> None \<and> \<not> capability_advertised caps UDP_PAYLOAD_SIZE_CAPABILITY then Err NoUdpPayloadSupport
         else if cl_mtu_probe c \<and> \<not> capability_advertised caps ''mtu_probe_v1'' then Err NoMtuProbeSupport
         else if cl_byte_budget c \<noteq> None \<and> \<not> capability_advertised caps BYTE_BUDGET_CAPABILITY then Err NoByteBudgetSupport
         else if cl_protocol c = Tcp \<and> (case cl_tcp_congestion c of Some algo \<Rightarrow> congestion_error algo \<noteq> None | None \<Rightarrow> False)
         then Err (BadCongestion (the (cl_tcp_congestion c)))
         else Ok (TestStart \<lparr>ts_id = test_id, ts_protocol = cl_protocol c, ts_streams = cl_streams c,
                  ts_duration_secs = word_of_nat (as_secs (cl_duration c)), ts_direction = cl_direction c, ts_bitrate = cl_bitrate c,
                  ts_congestion = cl_tcp_congestion c, ts_mptcp = cl_mptcp c, ts_dscp = cl_dscp c,
                  ts_window_size = cl_window_size c, ts_zerocopy = (cl_protocol c = Tcp \<and> zerocopy_enabled (cl_zerocopy c)),
                  ts_mtu_probe = cl_mtu_probe c, ts_tcp_nodelay = (cl_protocol c = Tcp \<and> cl_tcp_nodelay c),
                  ts_byte_budget = cl_byte_budget c, ts_udp_payload_size = payload\<rparr>))"

text \<open>The acknowledgement: the data ports, or the routing token of single-port UDP.\<close>

definition client_on_ack ::
  "ClientConfig \<Rightarrow> string list option \<Rightarrow> ControlMessage \<Rightarrow> hs_error + u16 list \<times> bytes option" where
  "client_on_ack c caps msg =
     (case msg of
        TestAck i data_ports udp_token \<Rightarrow>
          if data_ports = [] \<and> cl_protocol c = Tcp \<and> \<not> capability_advertised caps ''single_port_tcp'' then Err NoSinglePortTcp
          else if cl_protocol c = Udp \<and> data_ports = []
          then (case Option.bind udp_token parse_hello_token of
                  Some token \<Rightarrow> if capability_advertised caps SINGLE_PORT_UDP_CAPABILITY then Ok (data_ports, Some token) else Err NoSinglePortUdp
                | None \<Rightarrow> Err NoSinglePortUdp)
          else Ok (data_ports, None)
      | Error message \<Rightarrow> Err (ServerError message)
      | _ \<Rightarrow> Err ExpectedTestAck)"

section \<open>Local ports of the client\<close>

definition control_bind_addr :: "ClientConfig \<Rightarrow> SocketAddr option" where
  "control_bind_addr c =
     (if cl_protocol c \<noteq> Tcp then cl_bind_addr c
      else map_option (\<lambda>a. if addr_port a \<noteq> 0 then with_port a 0 else a) (cl_bind_addr c))"

datatype port_error = SequentialNeedsBind | SequentialNeedsPort | SequentialOverflow u16 nat | ControlPortOverlaps u16 u16 u16

definition sequential_bind_base :: "SocketAddr option \<Rightarrow> bool \<Rightarrow> nat \<Rightarrow> port_error + SocketAddr option" where
  "sequential_bind_base bind_addr sequential_ports stream_count =
     (if sequential_ports
      then (case bind_addr of
              None \<Rightarrow> Err SequentialNeedsBind
            | Some addr \<Rightarrow>
                if addr_port addr = 0 then Err SequentialNeedsPort
                else (let max_port = unat (addr_port addr) + (stream_count - 1)
                      in if 65535 < max_port then Err (SequentialOverflow (addr_port addr) max_port) else Ok (Some addr)))
      else Ok bind_addr)"

definition stream_bind_addr :: "SocketAddr option \<Rightarrow> bool \<Rightarrow> nat \<Rightarrow> SocketAddr option" where
  "stream_bind_addr base sequential_ports stream_index =
     (if sequential_ports then map_option (\<lambda>a. with_port a (addr_port a + word_of_nat stream_index)) base else base)"

definition tcp_data_port_range :: "ClientConfig \<Rightarrow> (u16 \<times> u16) option" where
  "tcp_data_port_range c =
     (if cl_protocol c \<noteq> Tcp then None
      else (case cl_bind_addr c of
              None \<Rightarrow> None
            | Some a \<Rightarrow>
                if addr_port a = 0 then None
                else (let start = addr_port a
                      in Some (start, if cl_sequential_ports c
                                      then saturating_add start (saturating_sub (ucast (cl_streams c)) 1) else start))))"

definition validate_tcp_control_port :: "SocketAddr \<Rightarrow> ClientConfig \<Rightarrow> port_error + unit" where
  "validate_tcp_control_port control_local c =
     (case tcp_data_port_range c of
        Some (start, end_port) \<Rightarrow>
          (let p = addr_port control_local
           in if start \<le> p \<and> p \<le> end_port then Err (ControlPortOverlaps p start end_port) else Ok ())
      | None \<Rightarrow> Ok ())"

end
