(* ===== verification/Handshake_Correct.thy ===== *)
theory Handshake_Correct
  imports Handshake
begin

text \<open>
  Correctness of the handshake: two honest ends with the same key end up with matching codecs, an end that
  has a key never continues in plaintext or with a peer that did not prove the key, what a valid
  client asks for is accepted, and accepted tests are within the server's limits.
\<close>

section \<open>Lines\<close>

lemma trim_newline: "trim (s @ [CHR 0x0A]) = trim s"
proof (cases "\<exists>c\<in>set s. \<not> is_whitespace c")
  case True
  then have "dropWhile is_whitespace (s @ [CHR 0x0A]) = dropWhile is_whitespace s @ [CHR 0x0A]"
    by (auto simp: dropWhile_append1)
  then show ?thesis by (simp add: trim_def is_whitespace_def)
next
  case False
  moreover have "is_whitespace (CHR 0x0A)" by (simp add: is_whitespace_def)
  ultimately have "\<forall>c\<in>set (s @ [CHR 0x0A]). is_whitespace c" "\<forall>c\<in>set s. is_whitespace c" by simp_all
  then have "dropWhile is_whitespace s = []" "dropWhile is_whitespace (s @ [CHR 0x0A]) = []"
    unfolding dropWhile_eq_Nil_conv by blast+
  then show ?thesis by (simp only: trim_def)
qed

text \<open>What the handshake relies on of the JSON encoder, for the messages it exchanges: a message decodes
  to itself, and its text has no white space around it.\<close>

definition json_ok :: "(string \<Rightarrow> ControlMessage option) \<Rightarrow> (ControlMessage \<Rightarrow> string) \<Rightarrow> ControlMessage set \<Rightarrow> bool" where
  "json_ok from_json to_json M \<longleftrightarrow> (\<forall>m\<in>M. from_json (to_json m) = Some m \<and> trim (to_json m) = to_json m)"

definition handshake_messages ::
  "hkdf \<Rightarrow> hmac \<Rightarrow> (ControlMessage \<Rightarrow> string) \<Rightarrow> SecurityContext \<Rightarrow> ClientConfig \<Rightarrow> string \<Rightarrow> string \<Rightarrow> string \<Rightarrow> ControlMessage set" where
  "handshake_messages hkdf hmac to_json sec c cn sn psk =
     (let hello = server_hello_with_auth_and_capabilities sn (sc_capabilities sec)
      in insert hello (insert (AuthResponse (compute_response hmac sn psk))
           {AuthSuccess (Some p) | p. compute_server_proof hkdf hmac (as_bytes (to_json (client_first c cn)))
                                        (as_bytes (to_json hello)) cn sn psk = Ok p}))"

definition as_line :: "string \<Rightarrow> string" where "as_line s = s @ [CHR 0x0A]"

lemma parse_own_line:
  assumes "json_ok from_json to_json M" "m \<in> M" "validate m = Ok ()"
  shows "parse_line from_json (as_line (to_json m)) = Ok m" "trim (as_line (to_json m)) = to_json m"
  using assms by (simp_all add: json_ok_def parse_line_def as_line_def trim_newline deserialize_def)

lemma own_version: "versions_compatible PROTOCOL_VERSION PROTOCOL_VERSION"
  by (simp add: versions_compatible_def parse_protocol_major_def PROTOCOL_VERSION_def parse_uint_def digit_val_def
      Let_def of_char_def)

lemma verify_own_response: "verify_response hmac nonce psk (compute_response hmac nonce psk)"
  by (simp add: verify_response_def verify_response_with_key_def compute_response_def constant_time_eq_iff)

section \<open>Agreement\<close>

text \<open>An honest run: each side reads the lines that the other one wrote.\<close>

lemma client_first_psk: "cl_psk c = Some psk \<Longrightarrow> client_first c cn = client_hello_with_nonce cn"
  by (simp add: client_first_def client_nonce_def)

lemma server_hello_psk:
  assumes "cl_psk c = Some psk" "sc_psk sec = Some psk'"
  shows "server_on_hello to_json sec sn (client_first c cn) =
    ([to_json (server_hello_with_auth_and_capabilities sn (sc_capabilities sec))],
     Ok \<lparr>sa_auth = Some (sn, to_json (server_hello_with_auth_and_capabilities sn (sc_capabilities sec))),
         sa_capabilities = Some supported_capabilities, sa_client_nonce = Some cn\<rparr>)"
proof -
  have "capability_advertised (Some supported_capabilities) PROTECTED_CONTROL_CAPABILITY"
    by (simp add: capability_advertised_def supported_capabilities_def SUPPORTED_CAPABILITIES_def PROTECTED_CONTROL_CAPABILITY_def)
  then show ?thesis
    using assms own_version
    by (simp add: server_on_hello_def client_first_psk client_hello_with_nonce_def serialize_def Let_def)
qed

lemma client_answer_psk:
  assumes "json_ok from_json to_json M" "server_hello_with_auth_and_capabilities sn caps \<in> M"
    "cl_psk c = Some psk" "PROTECTED_CONTROL_CAPABILITY \<in> set caps" "sh = to_json (server_hello_with_auth_and_capabilities sn caps)"
  shows "client_on_hello hmac from_json to_json c (as_line sh) =
    Ok (Some (to_json (AuthResponse (compute_response hmac sn psk))),
        \<lparr>ch_capabilities = Some caps, ch_server_version = Some (''xfr/'' @ CARGO_PKG_VERSION), ch_server_nonce = Some sn,
         ch_raw_server_hello = sh\<rparr>)"
proof -
  have "capability_advertised (Some caps) PROTECTED_CONTROL_CAPABILITY"
    using assms(4) by (auto simp: capability_advertised_def list_ex_iff)
  moreover have "validate (server_hello_with_auth_and_capabilities sn caps) = Ok ()"
    by (simp add: validate_def server_hello_with_auth_and_capabilities_def)
  ultimately show ?thesis
    using parse_own_line [OF assms(1,2)] assms(3,5) own_version
    by (simp add: client_on_hello_def server_hello_with_auth_and_capabilities_def serialize_def auth_response_def Let_def)
qed

lemma derive_from_keys:
  assumes "derive_keys hkdf cn sn (as_bytes psk) = Ok ks"
  obtains c2s s2c p where "derive_pair hkdf cn sn psk = Ok (c2s, s2c)"
    "\<And>ch sh. \<exists>p. compute_server_proof hkdf hmac ch sh cn sn psk = Ok p"
  using assms
  by (cases ks) (auto simp: derive_pair_def derive_pair_with_key_def compute_server_proof_def compute_server_proof_with_key_def)

lemma handshake_psk:
  assumes "json_ok from_json to_json (handshake_messages hkdf hmac to_json sec c cn sn psk)"
    "cl_psk c = Some psk" "sc_psk sec = Some psk"
    "PROTECTED_CONTROL_CAPABILITY \<in> set (sc_capabilities sec)" "derive_keys hkdf cn sn (as_bytes psk) = Ok ks"
  shows "\<exists>hello answer reply aw st c2s s2c.
    server_handshake hkdf hmac from_json to_json sec sn (client_first c cn) (to_json (client_first c cn)) (ReadLine (as_line answer))
      = ([hello, reply], Ok (aw, protected_server c2s s2c))
    \<and> client_handshake hkdf hmac from_json to_json c cn (as_line hello) (as_line reply)
      = ([answer], Ok (st, protected_client c2s s2c))
    \<and> derive_pair hkdf cn sn psk = Ok (c2s, s2c)"
proof -
  define hello where "hello = to_json (server_hello_with_auth_and_capabilities sn (sc_capabilities sec))"
  define answer where "answer = to_json (AuthResponse (compute_response hmac sn psk))"
  obtain c2s s2c where pair: "derive_pair hkdf cn sn psk = Ok (c2s, s2c)"
    and proofs: "\<And>ch sh. \<exists>p. compute_server_proof hkdf hmac ch sh cn sn psk = Ok p"
    using derive_from_keys [OF assms(5)] by metis
  then obtain p where p: "compute_server_proof hkdf hmac (as_bytes (to_json (client_first c cn))) (as_bytes hello) cn sn psk = Ok p"
    by blast
  define reply where "reply = to_json (AuthSuccess (Some p))"
  have in_M: "server_hello_with_auth_and_capabilities sn (sc_capabilities sec) \<in> handshake_messages hkdf hmac to_json sec c cn sn psk"
    "AuthResponse (compute_response hmac sn psk) \<in> handshake_messages hkdf hmac to_json sec c cn sn psk"
    "AuthSuccess (Some p) \<in> handshake_messages hkdf hmac to_json sec c cn sn psk"
    using p by (simp_all add: handshake_messages_def Let_def hello_def)
  have ne: "as_line x \<noteq> []" for x by (simp add: as_line_def)
  have s: "server_handshake hkdf hmac from_json to_json sec sn (client_first c cn) (to_json (client_first c cn)) (ReadLine (as_line answer))
      = ([hello, reply], Ok (\<lparr>sa_auth = Some (sn, hello), sa_capabilities = Some supported_capabilities, sa_client_nonce = Some cn\<rparr>,
           protected_server c2s s2c))"
    using server_hello_psk [OF assms(2,3), of to_json sn cn] parse_own_line(1) [OF assms(1) in_M(2)]
      assms(3) ne pair p verify_own_response [of hmac sn psk]
    by (simp add: server_handshake_def hello_def [symmetric] answer_def handshake_line_def explain_psk_hangup_def validate_def
        server_on_auth_def serialize_def auth_success_with_proof_def reply_def)
  have c: "client_handshake hkdf hmac from_json to_json c cn (as_line hello) (as_line reply)
      = ([answer], Ok (\<lparr>ch_capabilities = Some (sc_capabilities sec), ch_server_version = Some (''xfr/'' @ CARGO_PKG_VERSION),
            ch_server_nonce = Some sn, ch_raw_server_hello = hello\<rparr>, protected_client c2s s2c))"
    using client_answer_psk [OF assms(1) in_M(1) assms(2,4) hello_def] parse_own_line(1) [OF assms(1) in_M(3)] assms(2) pair
      verify_server_proof_iff [OF p]
    by (simp add: client_handshake_def answer_def client_on_auth_def client_nonce_def client_transport_def reply_def
        validate_def serialize_def)
  from s c pair show ?thesis by blast
qed

section \<open>What an adversary cannot do\<close>

lemma server_handshake_psk:
  assumes "server_handshake hkdf hmac from_json to_json sec sn msg raw r = (out, Ok (aw, t))" "sc_psk sec = Some psk"
  shows "\<exists>h cn c2s s2c line. msg = Hello h \<and> h_client_nonce h = Some cn \<and> derive_pair hkdf cn sn psk = Ok (c2s, s2c)
    \<and> t = protected_server c2s s2c \<and> r = ReadLine line
    \<and> parse_line from_json line = Ok (AuthResponse (compute_response hmac sn psk))"
proof -
  obtain h where h: "msg = Hello h" using assms(1) by (cases msg) (auto simp: server_handshake_def server_on_hello_def)
  have aw: "sa_auth aw = Some (sn, to_json (server_hello_with_auth_and_capabilities sn (sc_capabilities sec)))"
    "sa_client_nonce aw = h_client_nonce h"
    "\<exists>line m. handshake_line r (h_client_nonce h \<noteq> None) True = Ok line \<and> parse_line from_json line = Ok m
      \<and> snd (server_on_auth hkdf hmac to_json psk raw sn (to_json (server_hello_with_auth_and_capabilities sn (sc_capabilities sec)))
          (h_client_nonce h) m) = Ok t"
    using assms h
    by (auto simp: server_handshake_def server_on_hello_def serialize_def Let_def split: if_splits sum.splits prod.splits option.splits)
  then obtain line m where l: "handshake_line r (h_client_nonce h \<noteq> None) True = Ok line" "parse_line from_json line = Ok m"
    "snd (server_on_auth hkdf hmac to_json psk raw sn (to_json (server_hello_with_auth_and_capabilities sn (sc_capabilities sec)))
          (h_client_nonce h) m) = Ok t" by blast
  have r: "r = ReadLine line"
    using l(1) by (auto simp: handshake_line_def explain_psk_hangup_def split: handshake_read.splits if_splits bool.splits)
  obtain resp where m: "m = AuthResponse resp" "verify_response hmac sn psk resp"
    using l(3) by (cases m) (auto simp: server_on_auth_def split: if_splits)
  then have "resp = compute_response hmac sn psk"
    by (simp add: verify_response_def verify_response_with_key_def compute_response_def constant_time_eq_iff as_bytes_inj)
  moreover have "\<exists>cn c2s s2c. h_client_nonce h = Some cn \<and> derive_pair hkdf cn sn psk = Ok (c2s, s2c) \<and> t = protected_server c2s s2c"
    using l(3) m by (auto simp: server_on_auth_def split: option.splits sum.splits)
  ultimately show ?thesis using h r l(2) m by blast
qed

lemma client_handshake_psk:
  assumes "client_handshake hkdf hmac from_json to_json c cn hello_line reply_line = (out, Ok (st, t))" "cl_psk c = Some psk"
  shows "\<exists>sn c2s s2c p. ch_server_nonce st = Some sn \<and> derive_pair hkdf cn sn psk = Ok (c2s, s2c) \<and> t = protected_client c2s s2c
    \<and> parse_line from_json reply_line = Ok (AuthSuccess (Some p))
    \<and> compute_server_proof hkdf hmac (as_bytes (to_json (client_first c cn))) (as_bytes (trim hello_line)) cn sn psk = Ok p"
proof -
  obtain ans st' where h: "client_on_hello hmac from_json to_json c hello_line = Ok (ans, st')"
    using assms(1) by (auto simp: client_handshake_def split: sum.splits option.splits)
  then obtain sn where a: "ans \<noteq> None" "ch_server_nonce st' = Some sn" "ch_raw_server_hello st' = trim hello_line"
    using assms(2) by (auto simp: client_on_hello_def Let_def split: sum.splits ControlMessage.splits if_splits option.splits)
  then have auth: "client_on_auth hkdf hmac from_json psk (to_json (client_first c cn)) (trim hello_line) sn (Some cn) reply_line = Ok ()"
    and t: "client_transport hkdf c (Some cn) (Some sn) = Ok t" and st: "st = st'"
    using assms h by (auto simp: client_handshake_def client_nonce_def serialize_def split: sum.splits option.splits)
  obtain p where p: "parse_line from_json reply_line = Ok (AuthSuccess (Some p))"
    "verify_server_proof hkdf hmac (as_bytes (to_json (client_first c cn))) (as_bytes (trim hello_line)) cn sn psk p = Ok True"
    using auth by (auto simp: client_on_auth_def split: sum.splits ControlMessage.splits option.splits if_splits)
  have "compute_server_proof hkdf hmac (as_bytes (to_json (client_first c cn))) (as_bytes (trim hello_line)) cn sn psk = Ok p"
  proof (cases "compute_server_proof hkdf hmac (as_bytes (to_json (client_first c cn))) (as_bytes (trim hello_line)) cn sn psk")
    case (Inl e)
    then show ?thesis
      using p(2) by (simp add: verify_server_proof_def verify_server_proof_with_key_def compute_server_proof_def)
  next
    case (Inr q)
    then show ?thesis using p(2) verify_server_proof_iff [OF Inr, of p] by simp
  qed
  moreover have "\<exists>c2s s2c. derive_pair hkdf cn sn psk = Ok (c2s, s2c) \<and> t = protected_client c2s s2c"
    using t assms(2) by (auto simp: client_transport_def split: sum.splits prod.splits)
  ultimately show ?thesis using a st p(1) by auto
qed

section \<open>Limits\<close>

lemma effective_duration_limits:
  "(effective_duration mx secs = 0 \<longrightarrow> (secs = 0 \<and> mx = None) \<or> mx = Some 0)
   \<and> (secs \<noteq> 0 \<longrightarrow> effective_duration mx secs \<le> MAX_TEST_DURATION \<and> effective_duration mx secs \<le> from_secs secs)
   \<and> (mx = Some m \<longrightarrow> effective_duration mx secs \<le> m)"
proof -
  have "from_secs secs = 0 \<longleftrightarrow> secs = 0" by (simp add: from_secs_def unat_eq_0)
  then show ?thesis
    by (auto simp: effective_duration_def Let_def MAX_TEST_DURATION_def split: option.splits)
qed

lemma check_test_request_Ok:
  assumes "check_test_request ce sec mx sp msg = (err, Ok q)"
  shows "\<exists>ts. msg = TestStart ts \<and> err = None \<and> 1 \<le> ts_streams ts \<and> ts_streams ts \<le> 128
    \<and> tq_duration q = effective_duration mx (ts_duration_secs ts)
    \<and> validate_payload_size (tq_payload_size q) = Ok ()
    \<and> (ts_udp_payload_size ts \<noteq> None \<longrightarrow> ts_protocol ts = Udp \<and> \<not> ts_mtu_probe ts)
    \<and> tq_start q = ts"
proof -
  obtain ts where ts: "msg = TestStart ts" using assms by (cases msg) (auto simp: check_test_request_def)
  have one: "ts_streams ts = 0 \<or> 1 \<le> ts_streams ts" by (cases "ts_streams ts = 0") (simp_all add: word_le_nat_alt unat_gt_0 Suc_le_eq)
  have dflt: "validate_payload_size UDP_PAYLOAD_SIZE = Ok ()" by (simp add: validate_payload_size_def udp_wire_consts)
  show ?thesis
    using assms ts one dflt
    by (auto simp: check_test_request_def Let_def MAX_STREAMS_def not_less split: option.splits if_splits sum.splits)
qed

lemma client_request_accepted:
  assumes "ClientConfig_validate c = Ok ()" "client_test_start ce c caps test_id = Ok msg"
  shows "\<exists>q. check_test_request ce sec mx sp msg = (None, Ok q)
    \<and> tq_duration q = effective_duration mx (word_of_nat (as_secs (cl_duration c)))"
proof -
  have v: "1 \<le> cl_streams c" "cl_streams c \<le> 128"
    "\<And>n. cl_udp_payload_size c = Some n \<Longrightarrow> \<not> cl_mtu_probe c \<and> validate_payload_size (unat n) = Ok ()"
    using assms(1) by (auto simp: ClientConfig_validate_def split: if_splits option.splits sum.splits)
  then have "cl_streams c \<noteq> 0" "\<not> 128 < cl_streams c" by auto
  then show ?thesis
    using assms(2) v(3)
    by (auto simp: client_test_start_def check_test_request_def Let_def MAX_STREAMS_def split: if_splits option.splits)
qed

section \<open>Ports\<close>

lemma sequential_ports_distinct:
  assumes "sequential_bind_base bind True n = Ok (Some a)" "i < n" "j < n"
  shows "unat (addr_port (the (stream_bind_addr (Some a) True i))) = unat (addr_port a) + i"
    "i \<noteq> j \<Longrightarrow> stream_bind_addr (Some a) True i \<noteq> stream_bind_addr (Some a) True j"
proof -
  have m: "unat (addr_port a) + (n - 1) \<le> 65535"
    using assms(1) by (auto simp: sequential_bind_base_def Let_def split: option.splits if_splits)
  have p: "unat (addr_port (the (stream_bind_addr (Some a) True k))) = unat (addr_port a) + k" if "k < n" for k
  proof -
    have k: "unat (word_of_nat k :: u16) = k" using that m by (intro unat_word_of_nat) simp
    have "unat (addr_port a) + unat (word_of_nat k :: u16) < 2 ^ 16" using that m unfolding k by simp
    then show ?thesis using k by (simp add: stream_bind_addr_def unat_word_ariths)
  qed
  show "unat (addr_port (the (stream_bind_addr (Some a) True i))) = unat (addr_port a) + i" using p assms(2) .
  show "stream_bind_addr (Some a) True i \<noteq> stream_bind_addr (Some a) True j" if "i \<noteq> j"
    using p [OF assms(2)] p [OF assms(3)] that by auto
qed

text \<open>The MTU probe of a client with a key writes its cancellation as a plaintext line although the
  channel is protected: the server's reader takes the first four characters of the JSON text for a
  length and refuses the frame.\<close>

lemma plaintext_on_protected_channel:
  assumes "concat (rd_chunks r) = 0x7b # a # b # d # rest"
  shows "\<exists>n. ControlReader_read_message dec (ProtectedReader c) r = Err (FrameTooLarge n)"
proof -
  obtain r1 where r1: "read_exact 4 r = Ok ([0x7b, a, b, d], r1)"
    using read_exact_append [of r "[0x7b, a, b, d]" rest 4] assms by auto
  have "unat (u32_from_be [0x7b, a, b, d]) = 123 * 16777216 + unat a * 65536 + unat b * 256 + unat d"
  proof -
    have v: "be_val [0x7b, a, b, d] = 123 * 16777216 + unat a * 65536 + unat b * 256 + unat d" by (simp add: be_val_def)
    have "be_val [0x7b, a, b, d] < 256 ^ length [0x7b, a, b, d]" by (rule be_val_bound)
    then have "unat (word_of_nat (be_val [0x7b, a, b, d]) :: u32) = be_val [0x7b, a, b, d]" by (intro unat_word_of_nat) simp
    then show ?thesis using v by (simp add: u32_from_be_def)
  qed
  then have "MAX_FRAME < unat (u32_from_be [0x7b, a, b, d])" by (simp add: MAX_FRAME_def)
  then show ?thesis by (auto simp: ControlReader_read_message_def read_frame_def r1)
qed

section \<open>Properties\<close>

definition toy_hkdf :: hkdf where "toy_hkdf salt ikm info n = Some []"
definition toy_hmac :: hmac where "toy_hmac key msg = []"

definition toy_to_json :: "ControlMessage \<Rightarrow> string" where
  "toy_to_json m = (case m of Hello h \<Rightarrow> ''h'' | AuthResponse r \<Rightarrow> ''r'' | AuthSuccess p \<Rightarrow> ''a'' | _ \<Rightarrow> ''x'')"

definition toy_from_json :: "string \<Rightarrow> ControlMessage option" where
  "toy_from_json s = (if s = ''h'' then Some (server_hello_with_auth_and_capabilities ''n'' supported_capabilities)
     else if s = ''r'' then Some (AuthResponse []) else if s = ''a'' then Some (AuthSuccess (Some [])) else None)"

definition toy_config :: ClientConfig where "toy_config = ClientConfig_default\<lparr>cl_psk := Some ''k''\<rparr>"
definition toy_security :: SecurityContext where
  "toy_security = \<lparr>sc_psk = Some ''k'', sc_capabilities = supported_capabilities, sc_udp_hello_routes = False\<rparr>"

lemma toy_proof: "compute_server_proof toy_hkdf toy_hmac ch sh cn sn psk = Ok []"
  by (simp add: compute_server_proof_def compute_server_proof_with_key_def derive_keys_def toy_hkdf_def toy_hmac_def hex_encode_def)

lemma toy_json_ok: "json_ok toy_from_json toy_to_json (handshake_messages toy_hkdf toy_hmac toy_to_json toy_security toy_config cn ''n'' psk)"
  by (auto simp: json_ok_def handshake_messages_def Let_def toy_to_json_def toy_from_json_def toy_security_def
      server_hello_with_auth_and_capabilities_def compute_response_def compute_response_with_key_def toy_hmac_def hex_encode_def
      toy_proof trim_def is_whitespace_def)

lemma toy_keys: "derive_keys toy_hkdf cn sn key = Ok ([], [], [])"
  by (simp add: derive_keys_def toy_hkdf_def)

lemma toy_facts:
  "cl_psk toy_config = Some ''k''" "sc_psk toy_security = Some ''k''"
  "PROTECTED_CONTROL_CAPABILITY \<in> set (sc_capabilities toy_security)"
  by (simp_all add: toy_config_def toy_security_def supported_capabilities_def SUPPORTED_CAPABILITIES_def PROTECTED_CONTROL_CAPABILITY_def)

text \<open>A client and a server with the same key that read each other's lines complete the handshake, and
  the control channel they then share carries any messages that fit a frame unchanged and in order
  in both directions.\<close>

theorem handshake_agrees:
  assumes "json_ok from_json to_json (handshake_messages hkdf hmac to_json sec c cn sn psk)"
    "cl_psk c = Some psk" "sc_psk sec = Some psk" "PROTECTED_CONTROL_CAPABILITY \<in> set (sc_capabilities sec)"
    "derive_keys hkdf cn sn (as_bytes psk) = Ok ks" "aead_ok enc dec"
    "list_all (\<lambda>m. utf8_len m + 24 \<le> MAX_FRAME) ms" "length ms < 2 ^ 64"
  shows "\<exists>hello answer reply aw st server client.
    server_handshake hkdf hmac from_json to_json sec sn (client_first c cn) (to_json (client_first c cn)) (ReadLine (as_line answer))
      = ([hello, reply], Ok (aw, server))
    \<and> client_handshake hkdf hmac from_json to_json c cn (as_line hello) (as_line reply) = ([answer], Ok (st, client))
    \<and> delivers enc dec (snd (split_transport client)) (fst (split_transport server)) ms
    \<and> delivers enc dec (snd (split_transport server)) (fst (split_transport client)) ms"
  using handshake_psk [OF assms(1-5)] derived_codecs_deliver [OF assms(6) _ assms(7,8)] by blast

theorem handshake_agrees_witness:
  "\<exists>hello answer reply aw st server client.
    server_handshake toy_hkdf toy_hmac toy_from_json toy_to_json toy_security ''n'' (client_first toy_config ''m'')
        (toy_to_json (client_first toy_config ''m'')) (ReadLine (as_line answer)) = ([hello, reply], Ok (aw, server))
    \<and> client_handshake toy_hkdf toy_hmac toy_from_json toy_to_json toy_config ''m'' (as_line hello) (as_line reply) = ([answer], Ok (st, client))
    \<and> delivers toy_enc toy_dec (snd (split_transport client)) (fst (split_transport server)) [''go'']
    \<and> delivers toy_enc toy_dec (snd (split_transport server)) (fst (split_transport client)) [''go'']"
  by (rule handshake_agrees [OF toy_json_ok toy_facts toy_keys toy_aead_ok]) (simp_all add: utf8_len_def MAX_FRAME_def)

text \<open>C5: whatever bytes the peer sends, the handshake of an end that has a key succeeds only with codecs derived from it: the
  server's only after the right answer to its own nonce from a client that sent a nonce, the client's
  only after a proof over exactly the hello it sent and the hello it read. No message of the peer makes it succeed with a
  plaintext transport. This is about the transport the handshake hands over; \<open>run_mtu_probe_exchange\<close> of the client
  afterwards writes its cancel message around it (\<open>plaintext_on_protected_channel\<close>).\<close>

theorem psk_no_downgrade:
  "(server_handshake hkdf hmac from_json to_json sec sn msg raw r = (out, Ok (aw, t)) \<and> sc_psk sec = Some psk \<longrightarrow>
     (\<exists>h cn c2s s2c line. msg = Hello h \<and> h_client_nonce h = Some cn \<and> derive_pair hkdf cn sn psk = Ok (c2s, s2c)
        \<and> t = protected_server c2s s2c \<and> r = ReadLine line
        \<and> parse_line from_json line = Ok (AuthResponse (compute_response hmac sn psk))))
   \<and> (client_handshake hkdf hmac from_json to_json c cn' hello_line reply_line = (out', Ok (st, t')) \<and> cl_psk c = Some psk \<longrightarrow>
     (\<exists>sn' c2s s2c p. ch_server_nonce st = Some sn' \<and> derive_pair hkdf cn' sn' psk = Ok (c2s, s2c)
        \<and> t' = protected_client c2s s2c \<and> parse_line from_json reply_line = Ok (AuthSuccess (Some p))
        \<and> compute_server_proof hkdf hmac (as_bytes (to_json (client_first c cn'))) (as_bytes (trim hello_line)) cn' sn' psk = Ok p))"
  using server_handshake_psk [of hkdf hmac from_json to_json sec sn msg raw r out aw t psk]
    client_handshake_psk [of hkdf hmac from_json to_json c cn' hello_line reply_line out' st t' psk]
  by (intro conjI impI) simp_all

theorem psk_no_downgrade_witness:
  "\<exists>hello answer reply aw t st t' c2s s2c p.
    server_handshake toy_hkdf toy_hmac toy_from_json toy_to_json toy_security ''n'' (client_first toy_config ''m'')
        (toy_to_json (client_first toy_config ''m'')) (ReadLine (as_line answer)) = ([hello, reply], Ok (aw, t))
    \<and> client_handshake toy_hkdf toy_hmac toy_from_json toy_to_json toy_config ''m'' (as_line hello) (as_line reply) = ([answer], Ok (st, t'))
    \<and> t = protected_server c2s s2c \<and> parse_line toy_from_json (as_line reply) = Ok (AuthSuccess (Some p))"
proof -
  obtain hello answer reply aw st t t'
    where S: "server_handshake toy_hkdf toy_hmac toy_from_json toy_to_json toy_security ''n'' (client_first toy_config ''m'')
        (toy_to_json (client_first toy_config ''m'')) (ReadLine (as_line answer)) = ([hello, reply], Ok (aw, t))"
    and C: "client_handshake toy_hkdf toy_hmac toy_from_json toy_to_json toy_config ''m'' (as_line hello) (as_line reply) = ([answer], Ok (st, t'))"
    using handshake_psk [OF toy_json_ok toy_facts toy_keys] by blast
  note nd = psk_no_downgrade [where sec = toy_security and c = toy_config and psk = "''k''"]
  from nd [THEN conjunct1, THEN mp, OF conjI, OF S toy_facts(2)] nd [THEN conjunct2, THEN mp, OF conjI, OF C toy_facts(1)] S C
  show ?thesis by blast
qed

text \<open>A test that the server accepts has 1 to 128 streams and a legal payload size, a finite one runs
  no longer than asked, an hour, and the server's own limit, and one without an end is run only
  where the server sets no limit (or a limit of zero).\<close>

theorem accepted_test_limits:
  assumes "check_test_request ce sec mx sp msg = (err, Ok q)"
  shows "\<exists>ts. msg = TestStart ts \<and> err = None \<and> 1 \<le> ts_streams ts \<and> ts_streams ts \<le> 128
    \<and> validate_payload_size (tq_payload_size q) = Ok ()
    \<and> (ts_duration_secs ts \<noteq> 0 \<longrightarrow> tq_duration q \<le> MAX_TEST_DURATION \<and> tq_duration q \<le> from_secs (ts_duration_secs ts))
    \<and> (\<forall>m. mx = Some m \<longrightarrow> tq_duration q \<le> m)
    \<and> (tq_duration q = 0 \<longrightarrow> (ts_duration_secs ts = 0 \<and> mx = None) \<or> mx = Some 0)"
  using check_test_request_Ok [OF assms] effective_duration_limits [of mx] by fastforce

theorem accepted_test_limits_witness:
  "\<exists>q ts. client_test_start (\<lambda>_. None) ClientConfig_default None ''t'' = Ok (TestStart ts)
    \<and> check_test_request (\<lambda>_. None) toy_security (Some 5) False (TestStart ts) = (None, Ok q) \<and> tq_duration q \<le> 5"
proof -
  obtain ts where ts: "client_test_start (\<lambda>_. None) ClientConfig_default None ''t'' = Ok (TestStart ts)"
    by (simp add: client_test_start_def ClientConfig_default_def Let_def)
  have "ClientConfig_validate ClientConfig_default = Ok ()"
    by (simp add: ClientConfig_validate_def ClientConfig_default_def as_secs_def)
  from client_request_accepted [OF this ts] obtain q
    where q: "check_test_request (\<lambda>_. None) toy_security (Some 5) False (TestStart ts) = (None, Ok q)" by blast
  from accepted_test_limits [OF q] ts q show ?thesis by blast
qed

text \<open>What a client with a valid configuration asks for passes every check of the server that knows the
  same congestion algorithms, and no two of its sequential streams share a local port.\<close>

theorem valid_client_is_served:
  assumes "ClientConfig_validate c = Ok ()" "client_test_start ce c caps test_id = Ok msg"
    "sequential_bind_base (cl_bind_addr c) True (unat (cl_streams c)) = Ok (Some a)"
    "i < unat (cl_streams c)" "j < unat (cl_streams c)" "i \<noteq> j"
  shows "(\<exists>q. check_test_request ce sec mx sp msg = (None, Ok q)
      \<and> tq_duration q = effective_duration mx (word_of_nat (as_secs (cl_duration c))))
    \<and> stream_bind_addr (Some a) True i \<noteq> stream_bind_addr (Some a) True j"
  using client_request_accepted [OF assms(1,2)] sequential_ports_distinct(2) [OF assms(3-6)] by blast

theorem valid_client_is_served_witness:
  "let c = ClientConfig_default\<lparr>cl_streams := 2, cl_bind_addr := Some (SockV4 0 65534)\<rparr> in
   \<exists>msg q. client_test_start (\<lambda>_. None) c None ''t'' = Ok msg \<and> check_test_request (\<lambda>_. None) toy_security None False msg = (None, Ok q)
     \<and> stream_bind_addr (Some (SockV4 0 65534)) True 0 \<noteq> stream_bind_addr (Some (SockV4 0 65534)) True 1"
proof -
  define c where "c = ClientConfig_default\<lparr>cl_streams := 2, cl_bind_addr := Some (SockV4 0 65534)\<rparr>"
  have v: "ClientConfig_validate c = Ok ()"
    by (simp add: ClientConfig_validate_def ClientConfig_default_def as_secs_def c_def)
  obtain msg where m: "client_test_start (\<lambda>_. None) c None ''t'' = Ok msg"
    by (simp add: client_test_start_def ClientConfig_default_def Let_def c_def)
  have b: "sequential_bind_base (cl_bind_addr c) True (unat (cl_streams c)) = Ok (Some (SockV4 0 65534))"
    by (simp add: sequential_bind_base_def c_def Let_def)
  have "0 < unat (cl_streams c)" "1 < unat (cl_streams c)" by (simp_all add: c_def)
  from valid_client_is_served [OF v m b this, of toy_security None False] m show ?thesis unfolding Let_def c_def by auto
qed

end
