(* ===== verification/Tcp.thy ===== *)
theory Tcp
  imports Udp_Send
begin

text \<open>
  The TCP data path of \<open>src/tcp.rs\<close>: the send loop with its byte budget, pause, deadline, pacing and zero-copy
  fallback, the receive loop, and the accounting at the end of a stream. Each iteration's
  observations (flags, clock, how far a write came and what interrupted it) are inputs; the bytes
  handed to the socket are part of the state. The half-stream variants have the same loops.
\<close>

section \<open>Errors and deadlines\<close>

datatype io_kind = ConnectionReset | BrokenPipe | ConnectionAborted | WouldBlock | Unsupported | InvalidInput | OtherKind

definition is_peer_closed_error :: "io_kind \<Rightarrow> bool" where
  "is_peer_closed_error k \<longleftrightarrow> k = ConnectionReset \<or> k = BrokenPipe \<or> k = ConnectionAborted"

definition should_end_receive_after_error :: "io_kind \<Rightarrow> bool \<Rightarrow> bool \<Rightarrow> bool" where
  "should_end_receive_after_error k cancel_requested expected_teardown \<longleftrightarrow>
     cancel_requested \<or> (expected_teardown \<and> is_peer_closed_error k)"

text \<open>\<open>SEND_TEARDOWN_GRACE\<close> has the same value here as in \<open>udp.rs\<close>.\<close>

definition receive_teardown_window :: "instant \<Rightarrow> instant \<Rightarrow> duration \<Rightarrow> bool \<times> bool" where
  "receive_teardown_window start now dur =
     (if dur = 0 then (False, False)
      else (let deadline = start + dur;
                deadline_reached = (deadline \<le> now);
                near_deadline = (\<not> deadline_reached \<and> SEND_TEARDOWN_GRACE < dur \<and> deadline - now \<le> SEND_TEARDOWN_GRACE)
            in (deadline_reached, near_deadline)))"

definition clamp_bytes_sent_to_acked :: "StreamStats \<Rightarrow> TcpInfoSnapshot \<Rightarrow> StreamStats" where
  "clamp_bytes_sent_to_acked stats info =
     (case ti_bytes_acked info of
        Some acked \<Rightarrow> if acked < st_bytes_sent stats then stats\<lparr>st_bytes_sent := acked\<rparr> else stats
      | None \<Rightarrow> stats)"

section \<open>Pacing\<close>

record TcpConfig =
  tc_buffer_size :: nat
  tc_nodelay :: bool
  tc_window_size :: "usize option"
  tc_congestion :: "string option"
  tc_random_payload :: bool
  tc_zerocopy :: bool

definition DEFAULT_BUFFER_SIZE :: nat where "DEFAULT_BUFFER_SIZE = 131072"

definition TcpConfig_default :: TcpConfig where
  "TcpConfig_default = \<lparr>tc_buffer_size = DEFAULT_BUFFER_SIZE, tc_nodelay = False, tc_window_size = None,
     tc_congestion = None, tc_random_payload = False, tc_zerocopy = False\<rparr>"

definition pacing_rate_bytes_per_sec :: "u64 \<Rightarrow> u64" where
  "pacing_rate_bytes_per_sec bps = (if bps = 0 then 0 else saturating_add bps 7 div 8)"

definition send_buf_size :: "TcpConfig \<Rightarrow> u64 option \<Rightarrow> nat" where
  "send_buf_size config bitrate =
     (case bitrate of
        Some bps \<Rightarrow> if 0 < bps then min (tc_buffer_size config) (max (unat (bps div 8) div 10) 1) else tc_buffer_size config
      | None \<Rightarrow> tc_buffer_size config)"

text \<open>The sleep after a write, in seconds, when more was sent than the bitrate allows by now.\<close>

definition pacing_sleep :: "u64 \<Rightarrow> u64 \<Rightarrow> u64 \<Rightarrow> instant \<Rightarrow> instant \<Rightarrow> f64 option" where
  "pacing_sleep bps bytes_sent pace_bytes_offset pace_start now =
     (let bytes_per_sec = u64_as_f64 bps / 8;
          expected = secs_f64 (now - pace_start) * bytes_per_sec;
          total_sent = u64_as_f64 (bytes_sent - pace_bytes_offset)
      in if expected < total_sent then Some ((total_sent - expected) / bytes_per_sec) else None)"

section \<open>The send loop\<close>

record tcp_send_state =
  td_stats :: StreamStats
  td_budget :: "ByteBudget option"
  td_deadline :: instant
  td_pace_start :: instant
  td_pace_bytes_offset :: u64
  td_chunk_offset :: nat
  td_zerocopy :: bool
  td_suppressed :: nat
  td_wire :: bytes

text \<open>How the race between cancel, pause, deadline and the write of the claimed slice ends. A write takes
  some of the slice (none when the socket was not ready after all); the flag says whether a
  cancellation interrupts the pacing sleep, which starts at the time given. An error has its kind,
  the cancel flag and the time.\<close>

datatype write_race =
    RaceCancel
  | RacePause
  | RaceDeadline
  | WriteOk nat instant bool
  | WriteErr io_kind bool instant

datatype tcp_iter =
    TcpCancelled
  | TcpPaused bool duration instant
  | TcpWrite instant write_race

datatype tcp_step = TcpContinue tcp_send_state | TcpBreak tcp_send_state | TcpFail io_kind tcp_send_state

record tcp_env =
  te_infinite :: bool
  te_buffer :: bytes
  te_kernel_pacing :: bool
  te_bitrate :: "u64 option"

definition tcp_written :: "tcp_env \<Rightarrow> usize \<Rightarrow> nat \<Rightarrow> tcp_send_state \<Rightarrow> tcp_send_state" where
  "tcp_written env claimed n st =
     (let offset = td_chunk_offset st + n
      in st\<lparr>td_budget := refund_unwritten (td_budget st) claimed (word_of_nat n),
            td_stats := add_bytes_sent (td_stats st) (word_of_nat n),
            td_chunk_offset := (if length (te_buffer env) \<le> offset then 0 else offset),
            td_wire := td_wire st @ take n (drop (td_chunk_offset st) (te_buffer env))\<rparr>)"

definition tcp_write_result :: "tcp_env \<Rightarrow> (io_kind \<Rightarrow> TcpInfoSnapshot option) \<Rightarrow> usize \<Rightarrow> write_race \<Rightarrow> tcp_send_state \<Rightarrow> tcp_step" where
  "tcp_write_result env info_after claimed r st =
     (let back = st\<lparr>td_budget := refund_unwritten (td_budget st) claimed 0\<rparr>
      in case r of
           RaceCancel \<Rightarrow> TcpBreak back
         | RacePause \<Rightarrow> TcpContinue back
         | RaceDeadline \<Rightarrow> if te_infinite env then TcpContinue back else TcpBreak back
         | WriteOk k now cancel_wakes \<Rightarrow>
             (let st' = tcp_written env claimed (min k (unat claimed)) st
              in case te_bitrate env of
                   Some bps \<Rightarrow>
                     if \<not> te_kernel_pacing env \<and> 0 < bps
                        \<and> pacing_sleep bps (st_bytes_sent (td_stats st')) (td_pace_bytes_offset st') (td_pace_start st') now \<noteq> None
                        \<and> cancel_wakes
                     then TcpBreak st' else TcpContinue st'
                 | None \<Rightarrow> TcpContinue st')
         | WriteErr k cancelled now \<Rightarrow>
             if td_zerocopy st \<and> (k = Unsupported \<or> k = InvalidInput)
             then TcpContinue (back\<lparr>td_zerocopy := False\<rparr>)
             else (let deadline_reached = (\<not> te_infinite env \<and> td_deadline st \<le> now);
                       near_deadline = (\<not> te_infinite env \<and> td_deadline st \<le> now + SEND_TEARDOWN_GRACE);
                       peer_closed = is_peer_closed_error k
                   in if cancelled \<or> deadline_reached \<or> (peer_closed \<and> near_deadline)
                      then TcpBreak (if peer_closed then back\<lparr>td_suppressed := td_suppressed st + 1\<rparr> else back)
                      else TcpFail k (case info_after k of
                                        Some info \<Rightarrow> back\<lparr>td_stats := clamp_bytes_sent_to_acked (td_stats st) info\<rparr>
                                      | None \<Rightarrow> back)))"

definition tcp_send_iter :: "tcp_env \<Rightarrow> (io_kind \<Rightarrow> TcpInfoSnapshot option) \<Rightarrow> tcp_iter \<Rightarrow> tcp_send_state \<Rightarrow> tcp_step" where
  "tcp_send_iter env info_after it st =
     (case it of
        TcpCancelled \<Rightarrow> TcpBreak st
      | TcpPaused cancelled paused now \<Rightarrow>
          if cancelled then TcpBreak st
          else TcpContinue (st\<lparr>td_deadline := td_deadline st + paused, td_pace_start := now,
                              td_pace_bytes_offset := st_bytes_sent (td_stats st)\<rparr>)
      | TcpWrite now r \<Rightarrow>
          if \<not> te_infinite env \<and> td_deadline st \<le> now then TcpBreak st
          else (case claim_or_full (td_budget st) (word_of_nat (length (te_buffer env) - td_chunk_offset st)) of
                  (claimed, budget') \<Rightarrow>
                    if claimed = 0 then TcpBreak (st\<lparr>td_budget := budget'\<rparr>)
                    else tcp_write_result env info_after claimed r (st\<lparr>td_budget := budget'\<rparr>)))"

fun tcp_send_loop :: "tcp_env \<Rightarrow> (io_kind \<Rightarrow> TcpInfoSnapshot option) \<Rightarrow> tcp_iter list \<Rightarrow> tcp_send_state \<Rightarrow> tcp_step" where
  "tcp_send_loop env info_after [] st = TcpContinue st"
| "tcp_send_loop env info_after (it # its) st =
     (case tcp_send_iter env info_after it st of
        TcpContinue st' \<Rightarrow> tcp_send_loop env info_after its st'
      | r \<Rightarrow> r)"

definition refresh_after_ack_wait ::
  "StreamStats \<Rightarrow> TcpInfoSnapshot option \<Rightarrow> TcpInfoSnapshot option \<Rightarrow> StreamStats \<times> TcpInfoSnapshot option" where
  "refresh_after_ack_wait stats before after =
     (case after of
        None \<Rightarrow> (stats, before)
      | Some a \<Rightarrow>
          (let counted = (case before of None \<Rightarrow> 0 | Some b \<Rightarrow> ti_retransmits b)
           in (add_retransmits stats (saturating_sub (ti_retransmits a) counted), Some a)))"

text \<open>The end of a stream: the snapshot taken after the loop and, for a byte budget, the one taken once the
  send queue was acknowledged (or the wait given up).\<close>

definition tcp_send_end ::
  "TcpInfoSnapshot option \<Rightarrow> TcpInfoSnapshot option \<Rightarrow> tcp_send_state \<Rightarrow> tcp_send_state \<times> TcpInfoSnapshot option" where
  "tcp_send_end info info_acked st =
     (let stats = (case info of
                     None \<Rightarrow> td_stats st
                   | Some i \<Rightarrow>
                       (let s = add_retransmits (td_stats st) (ti_retransmits i)
                        in if td_budget st = None then clamp_bytes_sent_to_acked s i else s))
      in if td_budget st \<noteq> None
         then (let (stats', info') = refresh_after_ack_wait stats info info_acked in (st\<lparr>td_stats := stats'\<rparr>, info'))
         else (st\<lparr>td_stats := stats\<rparr>, info))"

definition tcp_send_init :: "StreamStats \<Rightarrow> ByteBudget option \<Rightarrow> instant \<Rightarrow> duration \<Rightarrow> bool \<Rightarrow> tcp_send_state" where
  "tcp_send_init stats budget start dur zerocopy = \<lparr>td_stats = stats, td_budget = budget, td_deadline = start + dur,
     td_pace_start = start, td_pace_bytes_offset = 0, td_chunk_offset = 0, td_zerocopy = zerocopy, td_suppressed = 0, td_wire = []\<rparr>"

section \<open>The receive loop\<close>

record tcp_recv_state =
  tr_stats :: StreamStats
  tr_cancelled :: bool
  tr_rsuppressed :: nat

datatype tcp_recv_event =
    RecvBytes usize
  | RecvErr io_kind bool instant
  | RecvCancelChanged bool

datatype tcp_recv_step = RecvContinue tcp_recv_state | RecvEnd tcp_recv_state | RecvFail io_kind tcp_recv_state

definition tcp_recv_iter :: "instant \<Rightarrow> duration \<Rightarrow> tcp_recv_event \<Rightarrow> tcp_recv_state \<Rightarrow> tcp_recv_step" where
  "tcp_recv_iter start dur e st =
     (case e of
        RecvBytes n \<Rightarrow>
          if n = 0 then RecvEnd st else RecvContinue (st\<lparr>tr_stats := add_bytes_received (tr_stats st) n\<rparr>)
      | RecvErr k cancel_requested now \<Rightarrow>
          if k = WouldBlock then RecvContinue st
          else (let (deadline_reached, near_deadline) = receive_teardown_window start now dur
                in if should_end_receive_after_error k cancel_requested (deadline_reached \<or> near_deadline)
                   then RecvEnd (st\<lparr>tr_cancelled := cancel_requested,
                                   tr_rsuppressed := (if is_peer_closed_error k then tr_rsuppressed st + 1 else tr_rsuppressed st)\<rparr>)
                   else RecvFail k st)
      | RecvCancelChanged stop \<Rightarrow> if stop then RecvEnd (st\<lparr>tr_cancelled := True\<rparr>) else RecvContinue st)"

fun tcp_recv_loop :: "instant \<Rightarrow> duration \<Rightarrow> tcp_recv_event list \<Rightarrow> tcp_recv_state \<Rightarrow> tcp_recv_step" where
  "tcp_recv_loop start dur [] st = RecvContinue st"
| "tcp_recv_loop start dur (e # es) st =
     (case tcp_recv_iter start dur e st of
        RecvContinue st' \<Rightarrow> tcp_recv_loop start dur es st'
      | r \<Rightarrow> r)"

definition tcp_recv_init :: "StreamStats \<Rightarrow> tcp_recv_state" where
  "tcp_recv_init stats = \<lparr>tr_stats = stats, tr_cancelled = False, tr_rsuppressed = 0\<rparr>"

definition tcp_recv_end :: "TcpInfoSnapshot option \<Rightarrow> tcp_recv_state \<Rightarrow> StreamStats \<times> TcpInfoSnapshot option" where
  "tcp_recv_end info st =
     ((case info of None \<Rightarrow> tr_stats st | Some i \<Rightarrow> add_retransmits (tr_stats st) (ti_retransmits i)), info)"

end
