(* ===== verification/Tcp_Correct.thy ===== *)
theory Tcp_Correct
  imports Tcp
begin

text \<open>
  Correctness of the TCP data path: whatever interrupts the writes, the socket gets the payload buffer over and
  over without a gap or a repeat, the counters and the byte budget account for every byte, and a
  receiver ends quietly only for the reasons it should.
\<close>

section \<open>The payload stream\<close>

definition cyclic :: "bytes \<Rightarrow> bytes \<Rightarrow> bool" where
  "cyclic buf wire \<longleftrightarrow> (\<forall>i<length wire. wire ! i = buf ! (i mod length buf))"

lemma cyclic_append:
  assumes "cyclic buf wire" "n \<le> length buf - length wire mod length buf" "buf \<noteq> []"
  shows "cyclic buf (wire @ take n (drop (length wire mod length buf) buf))"
  unfolding cyclic_def
proof (intro allI impI)
  fix i assume i: "i < length (wire @ take n (drop (length wire mod length buf) buf))"
  let ?o = "length wire mod length buf"
  have o: "?o < length buf" using assms(3) by simp
  show "(wire @ take n (drop ?o buf)) ! i = buf ! (i mod length buf)"
  proof (cases "i < length wire")
    case True
    then show ?thesis using assms(1) by (simp add: cyclic_def nth_append)
  next
    case False
    define j where "j = i - length wire"
    have j: "j < n" "?o + j < length buf" "i = length wire + j" using i False assms(2) o by (auto simp: j_def)
    then have "i mod length buf = ?o + j" by (metis mod_add_left_eq mod_less)
    then show ?thesis using j by (simp add: nth_append)
  qed
qed

lemma offset_step:
  assumes "off = k mod len" "n \<le> len - off" "0 < (len :: nat)"
  shows "(if len \<le> off + n then 0 else off + n) = (k + n) mod len"
proof (cases "len \<le> off + n")
  case True
  then have "off + n = len" using assms by (metis le_antisym le_diff_conv2 mod_less_divisor nat_less_le add.commute)
  then have "(k + n) mod len = 0" using assms(1) by (metis mod_add_left_eq mod_self)
  with True show ?thesis by simp
next
  case False
  then show ?thesis using assms(1) by (metis mod_add_left_eq mod_less not_le)
qed

definition budget_ok :: "nat option \<Rightarrow> ByteBudget option \<Rightarrow> nat \<Rightarrow> bool" where
  "budget_ok N b sent \<longleftrightarrow> (case (N, b) of (None, None) \<Rightarrow> True | (Some n, Some b) \<Rightarrow> unat (remaining b) + sent = n | _ \<Rightarrow> False)"

definition tcp_inv :: "nat option \<Rightarrow> tcp_env \<Rightarrow> u64 \<Rightarrow> tcp_send_state \<Rightarrow> bool" where
  "tcp_inv N env b0 st \<longleftrightarrow> cyclic (te_buffer env) (td_wire st)
     \<and> td_chunk_offset st = length (td_wire st) mod length (te_buffer env)
     \<and> st_bytes_sent (td_stats st) = b0 + word_of_nat (length (td_wire st))
     \<and> budget_ok N (td_budget st) (length (td_wire st))"

text \<open>A claim with the refund of what was not written moves exactly the bytes written.\<close>

lemma claim_refund:
  assumes "claim_or_full b w = (claimed, b')" "n \<le> unat claimed" "budget_ok N b sent"
  shows "budget_ok N (refund_unwritten b' claimed (word_of_nat n)) (sent + n)" "claimed \<le> w"
proof -
  have n: "unat (word_of_nat n :: usize) = n" using assms(2) unat_lt_pow [of claimed] by (intro unat_word_of_nat) simp
  then have le: "word_of_nat n \<le> claimed" using assms(2) by (simp add: word_le_nat_alt)
  then have sub: "saturating_sub claimed (word_of_nat n) = claimed - word_of_nat n" by (simp add: saturating_sub_def)
  show "claimed \<le> w"
    using assms(1) budget.take_le by (auto simp: claim_or_full_def split: option.splits prod.splits)
  show "budget_ok N (refund_unwritten b' claimed (word_of_nat n)) (sent + n)"
  proof (cases b)
    case None
    then show ?thesis using assms by (auto simp: budget_ok_def claim_or_full_def refund_unwritten_def split: option.splits)
  next
    case (Some x)
    then obtain x' where x': "claim x w = (claimed, x')" "b' = Some x'"
      using assms(1) by (auto simp: claim_or_full_def split: prod.splits)
    have "unat (remaining (refund x' (claimed - word_of_nat n))) + n = unat (remaining x)"
      using budget.round_conserves [OF x'(1) le] n unat_lt_pow [of "remaining x"] by simp
    then show ?thesis using assms(3) Some x' sub by (auto simp: budget_ok_def refund_unwritten_def split: option.splits)
  qed
qed

section \<open>The loop\<close>

fun step_state :: "tcp_step \<Rightarrow> tcp_send_state" where
  "step_state (TcpContinue st) = st"
| "step_state (TcpBreak st) = st"
| "step_state (TcpFail k st) = st"

fun failed :: "tcp_step \<Rightarrow> bool" where
  "failed (TcpFail k st) = True"
| "failed _ = False"

text \<open>On a failed stream the counter may have been lowered to what the peer acknowledged.\<close>

definition tcp_inv_failed :: "nat option \<Rightarrow> tcp_env \<Rightarrow> tcp_send_state \<Rightarrow> bool" where
  "tcp_inv_failed N env st \<longleftrightarrow> cyclic (te_buffer env) (td_wire st) \<and> budget_ok N (td_budget st) (length (td_wire st))"

lemma tcp_inv_iter:
  assumes "tcp_inv N env b0 st" "te_buffer env \<noteq> []" "length (te_buffer env) < 2 ^ 64"
  shows "let r = tcp_send_iter env info it st in
    tcp_inv_failed N env (step_state r) \<and> (\<not> failed r \<longrightarrow> tcp_inv N env b0 (step_state r))"
proof (cases "\<exists>now r. it = TcpWrite now r \<and> \<not> (\<not> te_infinite env \<and> td_deadline st \<le> now)")
  case False
  then show ?thesis
    using assms(1) by (cases it) (auto simp: tcp_send_iter_def tcp_inv_def tcp_inv_failed_def Let_def)
next
  case True
  then obtain now r where it: "it = TcpWrite now r" "\<not> (\<not> te_infinite env \<and> td_deadline st \<le> now)" by blast
  let ?len = "length (te_buffer env)" and ?off = "td_chunk_offset st"
  have len: "0 < ?len" using assms(2) by simp
  have off: "?off = length (td_wire st) mod ?len" "?off < ?len"
    using assms(1) len by (auto simp: tcp_inv_def)
  obtain claimed b' where c: "claim_or_full (td_budget st) (word_of_nat (?len - ?off)) = (claimed, b')" by fastforce
  have bud: "budget_ok N (td_budget st) (length (td_wire st))" using assms(1) by (simp add: tcp_inv_def)
  have cl: "unat claimed \<le> ?len - ?off"
  proof -
    have "?len - ?off < 2 ^ 64" using assms(3) by linarith
    then have "unat (word_of_nat (?len - ?off) :: usize) = ?len - ?off" by (intro unat_word_of_nat) simp
    then show ?thesis using claim_refund(2) [OF c _ bud, of 0] by (simp add: word_le_nat_alt)
  qed
  have restored: "budget_ok N (refund_unwritten b' claimed 0) (length (td_wire st))"
    using claim_refund(1) [OF c _ bud, of 0] by simp
  have zero: "budget_ok N b' (length (td_wire st))" if "claimed = 0"
    using restored that by (auto simp: refund_unwritten_def budget_ok_def refund_def saturating_sub_def split: option.splits)
  have written: "tcp_inv N env b0 (tcp_written env claimed n (st\<lparr>td_budget := b'\<rparr>))" if n: "n \<le> unat claimed" for n
  proof -
    have "cyclic (te_buffer env) (td_wire st @ take n (drop ?off (te_buffer env)))"
      using cyclic_append [of "te_buffer env" "td_wire st" n] assms(1,2) n cl off by (simp add: tcp_inv_def)
    moreover have "length (take n (drop ?off (te_buffer env))) = n" using n cl by simp
    moreover have "(if ?len \<le> ?off + n then 0 else ?off + n) = (length (td_wire st) + n) mod ?len"
      using offset_step [OF off(1)] n cl len by simp
    moreover have "budget_ok N (refund_unwritten b' claimed (word_of_nat n)) (length (td_wire st) + n)"
      using claim_refund(1) [OF c n bud] .
    ultimately show ?thesis
      using assms(1) by (auto simp: tcp_inv_def tcp_written_def Let_def add_bytes_sent_def split: if_splits)
  qed
  have weak: "tcp_inv_failed N env s" if "tcp_inv N env b0 s" for s using that by (simp add: tcp_inv_def tcp_inv_failed_def)
  show ?thesis
  proof (cases "claimed = 0")
    case True
    then show ?thesis
      using it c zero assms(1) by (simp add: tcp_send_iter_def tcp_inv_def tcp_inv_failed_def)
  next
    case ne: False
    have w: "tcp_send_iter env info it st = tcp_write_result env info claimed r (st\<lparr>td_budget := b'\<rparr>)"
      using it c ne by (auto simp: tcp_send_iter_def)
    show ?thesis
    proof (cases r)
      case (WriteOk k t cw)
      then have "step_state (tcp_send_iter env info it st) = tcp_written env claimed (min k (unat claimed)) (st\<lparr>td_budget := b'\<rparr>)"
        unfolding w by (simp add: tcp_write_result_def Let_def split: option.split)
      then show ?thesis using written [of "min k (unat claimed)"] weak by (simp add: Let_def)
    next
      case (WriteErr k ca t)
      then show ?thesis
        unfolding w using assms(1) restored
        by (auto simp: tcp_write_result_def Let_def tcp_inv_def tcp_inv_failed_def split: option.split)
    qed (use assms(1) restored in \<open>auto simp: w tcp_write_result_def Let_def tcp_inv_def tcp_inv_failed_def\<close>)
  qed
qed

lemma tcp_inv_loop:
  assumes "tcp_inv N env b0 st" "te_buffer env \<noteq> []" "length (te_buffer env) < 2 ^ 64"
  shows "let r = tcp_send_loop env info its st in
    tcp_inv_failed N env (step_state r) \<and> (\<not> failed r \<longrightarrow> tcp_inv N env b0 (step_state r))"
  using assms(1)
proof (induction its arbitrary: st)
  case Nil
  then show ?case by (simp add: Let_def tcp_inv_def tcp_inv_failed_def)
next
  case (Cons it its)
  show ?case
    using tcp_inv_iter [OF Cons.prems assms(2,3), of info it] Cons.IH
    by (cases "tcp_send_iter env info it st") (auto simp: Let_def)
qed

lemma tcp_inv_init:
  "tcp_inv (map_option (\<lambda>b. unat (remaining b)) budget) env (st_bytes_sent stats) (tcp_send_init stats budget start dur zc)"
  by (cases budget) (simp_all add: tcp_inv_def tcp_send_init_def cyclic_def budget_ok_def)

section \<open>Receiving\<close>

fun recv_state :: "tcp_recv_step \<Rightarrow> tcp_recv_state" where
  "recv_state (RecvContinue st) = st"
| "recv_state (RecvEnd st) = st"
| "recv_state (RecvFail k st) = st"

fun event_bytes :: "tcp_recv_event \<Rightarrow> u64" where
  "event_bytes (RecvBytes n) = n"
| "event_bytes _ = 0"

text \<open>The reasons for a quiet end: the end of the stream, a cancellation, or a peer that closed within the
  window around the deadline.\<close>

fun ends_receive :: "instant \<Rightarrow> duration \<Rightarrow> tcp_recv_event \<Rightarrow> bool" where
  "ends_receive start dur (RecvBytes n) = (n = 0)"
| "ends_receive start dur (RecvErr k cancel now) =
     (k \<noteq> WouldBlock \<and> (cancel \<or> (is_peer_closed_error k \<and> dur \<noteq> 0
        \<and> (start + dur \<le> now \<or> (SEND_TEARDOWN_GRACE < dur \<and> start + dur \<le> now + SEND_TEARDOWN_GRACE)))))"
| "ends_receive start dur (RecvCancelChanged stop) = stop"

fun fails_receive :: "instant \<Rightarrow> duration \<Rightarrow> tcp_recv_event \<Rightarrow> bool" where
  "fails_receive start dur (RecvErr k cancel now) = (k \<noteq> WouldBlock \<and> \<not> ends_receive start dur (RecvErr k cancel now))"
| "fails_receive start dur _ = False"

lemma tcp_recv_iter_cases:
  "(case tcp_recv_iter start dur e st of
      RecvContinue st' \<Rightarrow> \<not> ends_receive start dur e \<and> \<not> fails_receive start dur e
        \<and> st_bytes_received (tr_stats st') = st_bytes_received (tr_stats st) + event_bytes e
    | RecvEnd st' \<Rightarrow> ends_receive start dur e \<and> tr_stats st' = tr_stats st
    | RecvFail k st' \<Rightarrow> fails_receive start dur e \<and> st' = st)"
  by (cases e) (auto simp: tcp_recv_iter_def receive_teardown_window_def should_end_receive_after_error_def Let_def
      add_bytes_received_def le_diff_conv)

lemma tcp_recv_loop_stop:
  "let (pre, post) = (takeWhile (\<lambda>e. \<not> ends_receive start dur e \<and> \<not> fails_receive start dur e) es,
                     dropWhile (\<lambda>e. \<not> ends_receive start dur e \<and> \<not> fails_receive start dur e) es);
       r = tcp_recv_loop start dur es st
   in st_bytes_received (tr_stats (recv_state r)) = st_bytes_received (tr_stats st) + sum_list (map event_bytes pre)
      \<and> (case r of RecvContinue _ \<Rightarrow> post = [] | RecvEnd _ \<Rightarrow> post \<noteq> [] \<and> ends_receive start dur (hd post)
         | RecvFail _ _ \<Rightarrow> post \<noteq> [] \<and> fails_receive start dur (hd post))"
proof (induction es arbitrary: st)
  case Nil
  then show ?case by simp
next
  case (Cons e es)
  have excl: "fails_receive start dur e \<Longrightarrow> \<not> ends_receive start dur e" by (cases e) auto
  show ?case
    using tcp_recv_iter_cases [of start dur e st] Cons.IH excl
    by (cases "tcp_recv_iter start dur e st") (auto simp: Let_def add.assoc)
qed

section \<open>Properties\<close>

definition tcp_sample_env :: tcp_env where
  "tcp_sample_env = \<lparr>te_infinite = False, te_buffer = [1, 2, 3, 4], te_kernel_pacing = False, te_bitrate = None\<rparr>"

definition tcp_sample_its :: "tcp_iter list" where
  "tcp_sample_its = [TcpWrite 1 (WriteOk 3 1 False), TcpPaused False 5 7, TcpWrite 8 RacePause, TcpWrite 9 (WriteErr Unsupported False 9),
     TcpWrite 10 (WriteOk 9 10 False), TcpWrite 11 (WriteOk 1 11 False), TcpWrite 12 RaceCancel]"

text \<open>Through pauses, short writes, interrupted writes, the fallback from zero-copy and errors, a TCP sender
  hands its socket the payload buffer over and over with no gap and no repeat; its byte counter is
  what the socket took, and a byte budget loses exactly those bytes, so nothing claimed and not
  written is ever forgotten.\<close>

theorem tcp_send_exact:
  assumes "te_buffer env \<noteq> []" "length (te_buffer env) < 2 ^ 64"
    "tcp_send_loop env info its (tcp_send_init stats budget start dur zc) = r"
  shows "(\<forall>i<length (td_wire (step_state r)). td_wire (step_state r) ! i = te_buffer env ! (i mod length (te_buffer env)))
    \<and> (\<forall>b. budget = Some b \<longrightarrow> (\<exists>b'. td_budget (step_state r) = Some b'
         \<and> unat (remaining b') + length (td_wire (step_state r)) = unat (remaining b)))
    \<and> (\<not> failed r \<longrightarrow> st_bytes_sent (td_stats (step_state r)) = st_bytes_sent stats + word_of_nat (length (td_wire (step_state r))))"
proof -
  note run = tcp_inv_loop [OF tcp_inv_init [of budget env stats start dur zc] assms(1,2), of info its]
  have inv: "tcp_inv_failed (map_option (\<lambda>b. unat (remaining b)) budget) env (step_state r)"
    "\<not> failed r \<Longrightarrow> tcp_inv (map_option (\<lambda>b. unat (remaining b)) budget) env (st_bytes_sent stats) (step_state r)"
    using run assms(3) by (simp_all add: Let_def)
  have "\<exists>b'. td_budget (step_state r) = Some b' \<and> unat (remaining b') + length (td_wire (step_state r)) = unat (remaining b)"
    if "budget = Some b" for b
    using inv(1) that by (auto simp: tcp_inv_failed_def budget_ok_def split: option.splits)
  with inv show ?thesis by (auto simp: tcp_inv_failed_def tcp_inv_def cyclic_def)
qed

theorem tcp_send_exact_witness:
  "let r = tcp_send_loop tcp_sample_env (\<lambda>_. None) tcp_sample_its (tcp_send_init (StreamStats_new 0 0) (Some (ByteBudget_new 10)) 0 100 True) in
   td_wire (step_state r) = [1, 2, 3, 4, 1]
   \<and> (\<exists>b'. td_budget (step_state r) = Some b' \<and> unat (remaining b') + 5 = 10)"
proof -
  define r where "r = tcp_send_loop tcp_sample_env (\<lambda>_. None) tcp_sample_its
    (tcp_send_init (StreamStats_new 0 0) (Some (ByteBudget_new 10)) 0 100 True)"
  have w: "td_wire (step_state r) = [1, 2, 3, 4, 1]"
    by (simp add: r_def tcp_sample_its_def tcp_send_iter_def tcp_send_init_def tcp_sample_env_def claim_or_full_def claim_def ByteBudget_new_def
        tcp_write_result_def tcp_written_def refund_unwritten_def refund_def saturating_sub_def Let_def min_def word_le_nat_alt word_less_nat_alt)
  from tcp_send_exact [of tcp_sample_env "\<lambda>_. None" tcp_sample_its "StreamStats_new 0 0" "Some (ByteBudget_new 10)" 0 100 True r]
  have "\<exists>b'. td_budget (step_state r) = Some b' \<and> unat (remaining b') + 5 = 10"
    using w by (simp add: r_def tcp_sample_env_def ByteBudget_new_def)
  with w show ?thesis by (simp add: Let_def r_def)
qed

text \<open>A TCP receiver counts exactly the bytes read before the event that stops it, stops quietly only at the
  end of the stream, on a cancellation, or when the peer closes within the window around the
  deadline, and reports every other failed read as an error.\<close>

theorem tcp_receive_verdict:
  "let running = (\<lambda>e. \<not> ends_receive start dur e \<and> \<not> fails_receive start dur e); r = tcp_recv_loop start dur es st in
   st_bytes_received (tr_stats (recv_state r)) = st_bytes_received (tr_stats st) + sum_list (map event_bytes (takeWhile running es))
   \<and> (case r of
        RecvContinue _ \<Rightarrow> list_all running es
      | RecvEnd _ \<Rightarrow> dropWhile running es \<noteq> [] \<and> ends_receive start dur (hd (dropWhile running es))
      | RecvFail _ _ \<Rightarrow> dropWhile running es \<noteq> [] \<and> fails_receive start dur (hd (dropWhile running es)))"
  using tcp_recv_loop_stop [of start dur es st]
  by (auto simp: Let_def list_all_iff split: tcp_recv_step.splits)

end
