(* ===== verification/Tcp_Stream.thy ===== *)
theory Tcp_Stream
  imports Tcp_Correct
begin

text \<open>
  A whole TCP data stream: the options of its socket, the zero-copy payload, and the four functions that send or receive on a
  socket or on a half of one (\<open>src/tcp.rs\<close>, \<open>src/zerocopy.rs\<close>), around the loops of \<open>Tcp\<close>. The answers of the kernel to
  the calls on a socket are arguments. Linux.
\<close>

section \<open>Socket options\<close>

record tcp_socket =
  so_nodelay :: bool
  so_sndbuf :: "nat option"
  so_rcvbuf :: "nat option"
  so_congestion :: "string option"
  so_linger :: "duration option"
  so_pacing :: "u64 option"

text \<open>Which of the options the kernel takes; why it refuses the first and the last.\<close>

record socket_calls =
  kc_nodelay :: "io_kind option"
  kc_sndbuf :: bool
  kc_rcvbuf :: bool
  kc_congestion :: "string \<Rightarrow> io_kind option"
  kc_linger :: bool
  kc_pacing :: bool

definition configure_socket_buffers :: "socket_calls \<Rightarrow> usize \<Rightarrow> tcp_socket \<Rightarrow> tcp_socket \<times> (io_kind + unit)" where
  "configure_socket_buffers k buffer_size s =
     (if 2147483647 < unat buffer_size \<or> buffer_size = 0 then (s, Err InvalidInput)
      else (let s = (if kc_sndbuf k then s\<lparr>so_sndbuf := Some (unat buffer_size)\<rparr> else s);
                s = (if kc_rcvbuf k then s\<lparr>so_rcvbuf := Some (unat buffer_size)\<rparr> else s)
            in (s, Ok ())))"

definition set_tcp_congestion :: "socket_calls \<Rightarrow> string \<Rightarrow> tcp_socket \<Rightarrow> tcp_socket \<times> (io_kind + unit)" where
  "set_tcp_congestion k algo s = (case kc_congestion k algo of Some e \<Rightarrow> (s, Err e) | None \<Rightarrow> (s\<lparr>so_congestion := Some algo\<rparr>, Ok ()))"

definition try_set_pacing_rate :: "socket_calls \<Rightarrow> u64 \<Rightarrow> tcp_socket \<Rightarrow> tcp_socket \<times> bool" where
  "try_set_pacing_rate k bitrate_bps s =
     (if kc_pacing k then (s\<lparr>so_pacing := Some (pacing_rate_bytes_per_sec bitrate_bps)\<rparr>, True) else (s, False))"

definition configure_stream :: "socket_calls \<Rightarrow> TcpConfig \<Rightarrow> tcp_socket \<Rightarrow> tcp_socket \<times> (io_kind + unit)" where
  "configure_stream k config s =
     (case kc_nodelay k of
        Some e \<Rightarrow> (s, Err e)
      | None \<Rightarrow>
          (let s = s\<lparr>so_nodelay := tc_nodelay config\<rparr>
           in case (case tc_window_size config of Some window \<Rightarrow> configure_socket_buffers k window s | None \<Rightarrow> (s, Ok ())) of
                (s, Err e) \<Rightarrow> (s, Err e)
              | (s, Ok _) \<Rightarrow> (case tc_congestion config of Some algo \<Rightarrow> set_tcp_congestion k algo s | None \<Rightarrow> (s, Ok ()))))"

definition configure_control_stream :: "socket_calls \<Rightarrow> tcp_socket \<Rightarrow> tcp_socket \<times> (io_kind + unit)" where
  "configure_control_stream k s = (case kc_nodelay k of Some e \<Rightarrow> (s, Err e) | None \<Rightarrow> (s\<lparr>so_nodelay := True\<rparr>, Ok ()))"

text \<open>The test socket of the check before a run: a failure to make it is its text, and \<open>available\<close> the kernel's list, if it can
  be read.\<close>

definition validate_congestion :: "(string + unit) \<Rightarrow> socket_calls \<Rightarrow> string option \<Rightarrow> string \<Rightarrow> string + unit" where
  "validate_congestion made k available algo =
     (case made of
        Err e \<Rightarrow> Err (''failed to create test socket: '' @ e)
      | Ok _ \<Rightarrow>
          if kc_congestion k algo \<noteq> None
          then Err (case available of
                      Some names \<Rightarrow> ''not available (available: '' @ trim names @ '')''
                    | None \<Rightarrow> ''not available on this kernel'')
          else Ok ())"

section \<open>The zero-copy payload\<close>

text \<open>\<open>made\<close>: why the memory file could not be made and filled, if it could not.\<close>

record ZerocopyPayload =
  zc_payload :: bytes

definition ZerocopyPayload_new :: "io_kind option \<Rightarrow> bytes \<Rightarrow> io_kind + ZerocopyPayload" where
  "ZerocopyPayload_new made payload =
     (if payload = [] then Err InvalidInput else (case made of Some e \<Rightarrow> Err e | None \<Rightarrow> Ok \<lparr>zc_payload = payload\<rparr>))"

definition setup_zerocopy :: "TcpConfig \<Rightarrow> io_kind option \<Rightarrow> bytes \<Rightarrow> ZerocopyPayload option" where
  "setup_zerocopy config made buffer =
     (if \<not> tc_zerocopy config then None
      else (case ZerocopyPayload_new made buffer of Ok payload \<Rightarrow> Some payload | Err e \<Rightarrow> None))"

text \<open>What the kernel takes of an offer. An interrupted call is repeated, until the list of answers ends.\<close>

datatype kernel_send = SendInterrupted | SendErr io_kind | SendTook nat

fun sendfile_calls :: "nat \<Rightarrow> kernel_send list \<Rightarrow> (io_kind + nat) option" where
  "sendfile_calls room [] = None"
| "sendfile_calls room (SendInterrupted # ks) = sendfile_calls room ks"
| "sendfile_calls room (SendErr e # ks) = Some (Err e)"
| "sendfile_calls room (SendTook n # ks) = Some (Ok (min n room))"

definition sendfile_once :: "ZerocopyPayload \<Rightarrow> nat \<Rightarrow> nat \<Rightarrow> kernel_send list \<Rightarrow> (io_kind + nat) option" where
  "sendfile_once payload offset max_len ks =
     (let room = min (length (zc_payload payload) - offset) max_len
      in if room = 0 then Some (Ok 0) else sendfile_calls room ks)"

definition would_block_is_zero :: "io_kind + nat \<Rightarrow> io_kind + nat" where
  "would_block_is_zero r = (case r of Err e \<Rightarrow> if e = WouldBlock then Ok 0 else Err e | Ok n \<Rightarrow> Ok n)"

definition send_chunk :: "io_kind option \<Rightarrow> ZerocopyPayload \<Rightarrow> nat \<Rightarrow> nat \<Rightarrow> kernel_send list \<Rightarrow> (io_kind + nat) option" where
  "send_chunk writable payload offset max_len ks =
     (case writable of Some e \<Rightarrow> Some (Err e) | None \<Rightarrow> map_option would_block_is_zero (sendfile_once payload offset max_len ks))"

text \<open>The bytes that reach the socket and the answer: from the memory file, at the offset, or from the slice itself. Nothing taken
  of a slice that is not empty is an error of its own.\<close>

definition write_chunk ::
  "io_kind option \<Rightarrow> bytes \<Rightarrow> nat \<Rightarrow> ZerocopyPayload option \<Rightarrow> kernel_send list \<Rightarrow> (bytes \<times> (io_kind + nat)) option" where
  "write_chunk writable part offset zerocopy ks =
     (case zerocopy of
        Some payload \<Rightarrow>
          map_option (\<lambda>r. (case r of Ok n \<Rightarrow> take n (drop offset (zc_payload payload)) | Err e \<Rightarrow> [], r))
            (send_chunk writable payload offset (length part) ks)
      | None \<Rightarrow>
          (case writable of
             Some e \<Rightarrow> Some ([], Err e)
           | None \<Rightarrow>
               (case ks of
                  [] \<Rightarrow> None
                | SendInterrupted # _ \<Rightarrow> Some ([], Err OtherKind)
                | SendErr e # _ \<Rightarrow> Some ([], would_block_is_zero (Err e))
                | SendTook n # _ \<Rightarrow>
                    (let n = min n (length part)
                     in if n = 0 \<and> part \<noteq> [] then Some ([], Err OtherKind) else Some (take n part, Ok n)))))"

section \<open>Waits at the end of a stream\<close>

definition RECEIVE_CANCEL_DRAIN_GRACE :: duration where "RECEIVE_CANCEL_DRAIN_GRACE = 200000000"

text \<open>What a receiver reads and throws away after a cancellation, with the time of each look at the clock: until the end of the
  stream, an error or the end of the grace period (\<open>None\<close>).\<close>

datatype drain_read = DrainBytes nat | DrainErr io_kind

fun drain_after_cancel :: "instant \<Rightarrow> (instant \<times> drain_read option) list \<Rightarrow> u64" where
  "drain_after_cancel deadline [] = 0"
| "drain_after_cancel deadline ((now, e) # es) =
     (if deadline \<le> now then 0
      else (case e of
              None \<Rightarrow> 0
            | Some (DrainBytes n) \<Rightarrow> if n = 0 then 0 else word_of_nat n + drain_after_cancel deadline es
            | Some (DrainErr k) \<Rightarrow> if k = WouldBlock then drain_after_cancel deadline es else 0))"

text \<open>The polls of the send queue: how many bytes it still has (or that the kernel does not say), the cancel flag, the time, and
  whether a cancellation ends the millisecond between two polls. \<open>None\<close>: the wait is still on.\<close>

record queue_poll =
  qp_queued :: "int option"
  qp_cancelled :: bool
  qp_now :: instant
  qp_woken :: bool

fun wait_for_send_queue_acked :: "instant \<Rightarrow> queue_poll list \<Rightarrow> nat option" where
  "wait_for_send_queue_acked deadline [] = None"
| "wait_for_send_queue_acked deadline (p # ps) =
     (if (case qp_queued p of None \<Rightarrow> True | Some queued \<Rightarrow> queued \<le> 0) \<or> qp_cancelled p \<or> deadline \<le> qp_now p \<or> qp_woken p
      then Some 0
      else map_option Suc (wait_for_send_queue_acked deadline ps))"

section \<open>Sending\<close>

record send_args =
  sn_config :: TcpConfig
  sn_duration :: duration
  sn_bitrate :: "u64 option"
  sn_budget :: "ByteBudget option"

text \<open>What happens to one stream: the random payload (at least as long as the buffer), the memory file, the start, the
  iterations of the loop, and the snapshots of the socket at an error, after the loop and after the wait for the acks.\<close>

record send_run =
  sn_random :: bytes
  sn_memfd :: "io_kind option"
  sn_start :: instant
  sn_iters :: "tcp_iter list"
  sn_info_after :: "io_kind \<Rightarrow> TcpInfoSnapshot option"
  sn_info :: "TcpInfoSnapshot option"
  sn_info_acked :: "TcpInfoSnapshot option"

definition prepare_send :: "socket_calls \<Rightarrow> send_args \<Rightarrow> tcp_socket \<Rightarrow> tcp_socket \<times> bool" where
  "prepare_send k a s =
     (let s = (if sn_budget a = None \<and> kc_linger k then s\<lparr>so_linger := Some 0\<rparr> else s)
      in case sn_bitrate a of
           Some bps \<Rightarrow> if 0 < bps then try_set_pacing_rate k bps s else (s, False)
         | None \<Rightarrow> (s, False))"

definition send_buffer :: "send_args \<Rightarrow> bytes \<Rightarrow> bytes" where
  "send_buffer a random =
     (let buf_size = send_buf_size (sn_config a) (sn_bitrate a)
      in if tc_random_payload (sn_config a) then take buf_size random else replicate buf_size 0)"

definition send_env :: "send_args \<Rightarrow> bytes \<Rightarrow> bool \<Rightarrow> tcp_env" where
  "send_env a random kernel_pacing = \<lparr>te_infinite = (sn_duration a = 0), te_buffer = send_buffer a random,
     te_kernel_pacing = kernel_pacing, te_bitrate = sn_bitrate a\<rparr>"

text \<open>The result of a send: still running, failed, or done with the last snapshot.\<close>

datatype 'a stream_end = StillRunning | StreamFailed io_kind 'a | StreamDone 'a "TcpInfoSnapshot option"

definition send_loop_end :: "send_run \<Rightarrow> tcp_step \<Rightarrow> tcp_send_state stream_end" where
  "send_loop_end run r =
     (case r of
        TcpContinue st \<Rightarrow> StillRunning
      | TcpFail e st \<Rightarrow> StreamFailed e st
      | TcpBreak st \<Rightarrow> (case tcp_send_end (sn_info run) (sn_info_acked run) st of (st', info) \<Rightarrow> StreamDone st' info))"

definition send_start :: "send_args \<Rightarrow> send_run \<Rightarrow> StreamStats \<Rightarrow> tcp_send_state" where
  "send_start a run stats =
     tcp_send_init stats (sn_budget a) (sn_start run) (sn_duration a)
       (setup_zerocopy (sn_config a) (sn_memfd run) (send_buffer a (sn_random run)) \<noteq> None)"

definition send_data_half :: "socket_calls \<Rightarrow> send_args \<Rightarrow> send_run \<Rightarrow> StreamStats \<Rightarrow> tcp_socket \<Rightarrow> tcp_socket \<times> tcp_send_state stream_end" where
  "send_data_half k a run stats s =
     (let (s, kernel_pacing) = prepare_send k a s
      in (s, send_loop_end run
               (tcp_send_loop (send_env a (sn_random run) kernel_pacing) (sn_info_after run) (sn_iters run) (send_start a run stats))))"

definition send_data :: "socket_calls \<Rightarrow> send_args \<Rightarrow> send_run \<Rightarrow> StreamStats \<Rightarrow> tcp_socket \<Rightarrow> tcp_socket \<times> (io_kind + tcp_send_state stream_end)" where
  "send_data k a run stats s =
     (case configure_stream k (sn_config a) s of
        (s, Err e) \<Rightarrow> (s, Err e)
      | (s, Ok _) \<Rightarrow> (case send_data_half k a run stats s of (s, r) \<Rightarrow> (s, Ok r)))"

section \<open>Receiving\<close>

record receive_run =
  rr_start :: instant
  rr_events :: "tcp_recv_event list"
  rr_info :: "TcpInfoSnapshot option"

definition receive_data_half :: "duration \<Rightarrow> receive_run \<Rightarrow> StreamStats \<Rightarrow> StreamStats stream_end" where
  "receive_data_half dur run stats =
     (case tcp_recv_loop (rr_start run) dur (rr_events run) (tcp_recv_init stats) of
        RecvContinue st \<Rightarrow> StillRunning
      | RecvFail e st \<Rightarrow> StreamFailed e (tr_stats st)
      | RecvEnd st \<Rightarrow> StreamDone (tr_stats st) None)"

definition receive_data ::
  "socket_calls \<Rightarrow> TcpConfig \<Rightarrow> duration \<Rightarrow> receive_run \<Rightarrow> StreamStats \<Rightarrow> tcp_socket \<Rightarrow> tcp_socket \<times> (io_kind + StreamStats stream_end)" where
  "receive_data k config dur run stats s =
     (case configure_stream k config s of
        (s, Err e) \<Rightarrow> (s, Err e)
      | (s, Ok _) \<Rightarrow>
          (s, Ok (case tcp_recv_loop (rr_start run) dur (rr_events run) (tcp_recv_init stats) of
                    RecvContinue st \<Rightarrow> StillRunning
                  | RecvFail e st \<Rightarrow> StreamFailed e (tr_stats st)
                  | RecvEnd st \<Rightarrow> (case tcp_recv_end (rr_info run) st of (stats', info) \<Rightarrow> StreamDone stats' info))))"

section \<open>Both halves of one socket\<close>

text \<open>In a bidirectional test the two halves run at the same time on the same counters: an interleaving of the iterations of the
  send loop (\<open>Inl\<close>) and of the receive loop (\<open>Inr\<close>). A loop that has ended ignores what follows.\<close>

record duplex_state =
  dx_stats :: StreamStats
  dx_send :: tcp_step
  dx_recv :: tcp_recv_step

definition duplex_send :: "tcp_env \<Rightarrow> (io_kind \<Rightarrow> TcpInfoSnapshot option) \<Rightarrow> tcp_iter \<Rightarrow> duplex_state \<Rightarrow> duplex_state" where
  "duplex_send env info_after it d =
     (case dx_send d of
        TcpContinue st \<Rightarrow>
          (let r = tcp_send_iter env info_after it (st\<lparr>td_stats := dx_stats d\<rparr>)
           in d\<lparr>dx_stats := (case r of TcpContinue s \<Rightarrow> td_stats s | TcpBreak s \<Rightarrow> td_stats s | TcpFail e s \<Rightarrow> td_stats s), dx_send := r\<rparr>)
      | _ \<Rightarrow> d)"

definition duplex_recv :: "instant \<Rightarrow> duration \<Rightarrow> tcp_recv_event \<Rightarrow> duplex_state \<Rightarrow> duplex_state" where
  "duplex_recv start dur e d =
     (case dx_recv d of
        RecvContinue st \<Rightarrow>
          (let r = tcp_recv_iter start dur e (st\<lparr>tr_stats := dx_stats d\<rparr>)
           in d\<lparr>dx_stats := (case r of RecvContinue s \<Rightarrow> tr_stats s | RecvEnd s \<Rightarrow> tr_stats s | RecvFail e s \<Rightarrow> tr_stats s), dx_recv := r\<rparr>)
      | _ \<Rightarrow> d)"

fun duplex_loop ::
  "tcp_env \<Rightarrow> (io_kind \<Rightarrow> TcpInfoSnapshot option) \<Rightarrow> instant \<Rightarrow> duration \<Rightarrow> (tcp_iter + tcp_recv_event) list \<Rightarrow> duplex_state \<Rightarrow> duplex_state" where
  "duplex_loop env info_after start dur [] d = d"
| "duplex_loop env info_after start dur (x # xs) d =
     duplex_loop env info_after start dur xs
       (case x of Inl it \<Rightarrow> duplex_send env info_after it d | Inr e \<Rightarrow> duplex_recv start dur e d)"

definition duplex_start :: "tcp_send_state \<Rightarrow> duplex_state" where
  "duplex_start st = \<lparr>dx_stats = td_stats st, dx_send = TcpContinue st, dx_recv = RecvContinue (tcp_recv_init (td_stats st))\<rparr>"

end
