(* ===== verification/Tcp_Stream_Correct.thy ===== *)
theory Tcp_Stream_Correct
  imports Tcp_Stream
begin

text \<open>
  What holds of whole TCP streams: zero-copy sends put the same bytes on the wire, the halves of a bidirectional stream do not
  disturb each other's counters, the waits at the end of a stream are bounded.
\<close>

section \<open>Zero copy\<close>

lemma sendfile_calls_le: "sendfile_calls room ks = Some (Ok n) \<Longrightarrow> n \<le> room"
  by (induction room ks rule: sendfile_calls.induct) auto

lemma sendfile_once_le: "sendfile_once payload offset m ks = Some (Ok n) \<Longrightarrow> n \<le> min (length (zc_payload payload) - offset) m"
  by (auto simp: sendfile_once_def Let_def split: if_splits dest: sendfile_calls_le)

lemma send_chunk_le: "send_chunk w payload offset m ks = Some (Ok n) \<Longrightarrow> n \<le> min (length (zc_payload payload) - offset) m"
proof (cases "sendfile_once payload offset m ks")
  case (Some r)
  assume "send_chunk w payload offset m ks = Some (Ok n)"
  with Some have "would_block_is_zero r = Ok n" by (simp add: send_chunk_def split: option.splits)
  then show ?thesis using Some sendfile_once_le [of payload offset m ks]
    by (cases r) (auto simp: would_block_is_zero_def split: if_splits)
qed (simp add: send_chunk_def split: option.splits)

lemma write_chunk_error: "write_chunk w part offset zc ks = Some (bs, Err e) \<Longrightarrow> bs = []"
  by (auto simp: write_chunk_def Let_def split: option.splits list.splits kernel_send.splits sum.splits if_splits)

lemma write_chunk_plain: "write_chunk w part offset None ks = Some (bs, Ok n) \<Longrightarrow> bs = take n part \<and> n \<le> length part"
  by (auto simp: write_chunk_def Let_def would_block_is_zero_def split: option.splits list.splits kernel_send.splits if_splits)

text \<open>The kernel's answer decides how much is written, the slice decides what.\<close>

lemma write_chunk_bytes:
  assumes "write_chunk w (take c (drop offset buffer)) offset zc ks = Some (bs, Ok n)"
    and "zc = None \<or> zc = Some \<lparr>zc_payload = buffer\<rparr>"
  shows "bs = take n (take c (drop offset buffer)) \<and> n \<le> c"
proof (cases zc)
  case None
  then show ?thesis using write_chunk_plain assms(1) by fastforce
next
  case (Some payload)
  then have p: "payload = \<lparr>zc_payload = buffer\<rparr>" using assms(2) by simp
  have le: "n \<le> min (length buffer - offset) (min (length buffer - offset) c)" and bs: "bs = take n (drop offset buffer)"
    using assms(1) Some p by (auto simp: write_chunk_def split: sum.splits dest: send_chunk_le)
  from le have "n \<le> c" by linarith
  then show ?thesis using bs by (simp add: min_def)
qed

lemma setup_zerocopy_payload: "setup_zerocopy config made buffer = None \<or> setup_zerocopy config made buffer = Some \<lparr>zc_payload = buffer\<rparr>"
  by (auto simp: setup_zerocopy_def ZerocopyPayload_new_def split: option.splits)

section \<open>Socket options\<close>

lemma window_too_large:
  "tc_window_size config = Some w \<Longrightarrow> 2147483647 < unat w \<Longrightarrow> \<exists>s' e. configure_stream k config s = (s', Err e) \<and> so_sndbuf s' = so_sndbuf s"
  by (auto simp: configure_stream_def configure_socket_buffers_def split: option.splits)

text \<open>A byte budget is never sent over a socket that drops its queue when it is closed.\<close>

lemma budget_never_linger: "sn_budget a \<noteq> None \<Longrightarrow> so_linger (fst (prepare_send k a s)) = so_linger s"
  by (auto simp: prepare_send_def try_set_pacing_rate_def Let_def split: option.splits)

section \<open>Waits\<close>

lemma wait_for_acks:
  assumes "\<And>i. i < length ps \<Longrightarrow> t0 + i * 1000000 \<le> qp_now (ps ! i)" "deadline \<le> t0 + n * 1000000" "n < length ps"
  shows "\<exists>k\<le>n. wait_for_send_queue_acked deadline ps = Some k"
  using assms
proof (induction ps arbitrary: t0 n)
  case (Cons p ps)
  show ?case
  proof (cases n)
    case 0
    then show ?thesis using Cons.prems(1) [of 0] Cons.prems(2) by simp
  next
    case (Suc m)
    have "\<exists>k\<le>m. wait_for_send_queue_acked deadline ps = Some k"
    proof (rule Cons.IH)
      show "t0 + 1000000 + i * 1000000 \<le> qp_now (ps ! i)" if "i < length ps" for i
        using Cons.prems(1) [of "Suc i"] that by simp
      show "deadline \<le> t0 + 1000000 + m * 1000000" "m < length ps"
        using Cons.prems(2,3) Suc by simp_all
    qed
    then show ?thesis using Suc by auto
  qed
qed simp

section \<open>The halves of a stream\<close>

fun map_step :: "(tcp_send_state \<Rightarrow> tcp_send_state) \<Rightarrow> tcp_step \<Rightarrow> tcp_step" where
  "map_step f (TcpContinue st) = TcpContinue (f st)"
| "map_step f (TcpBreak st) = TcpBreak (f st)"
| "map_step f (TcpFail e st) = TcpFail e (f st)"

fun map_recv :: "(tcp_recv_state \<Rightarrow> tcp_recv_state) \<Rightarrow> tcp_recv_step \<Rightarrow> tcp_recv_step" where
  "map_recv f (RecvContinue st) = RecvContinue (f st)"
| "map_recv f (RecvEnd st) = RecvEnd (f st)"
| "map_recv f (RecvFail e st) = RecvFail e (f st)"

text \<open>A step of a half under other counters of the other half.\<close>

definition sent_as :: "StreamStats \<Rightarrow> StreamStats \<Rightarrow> StreamStats" where
  "sent_as s s' = s\<lparr>st_bytes_sent := st_bytes_sent s'\<rparr>"

definition received_as :: "StreamStats \<Rightarrow> StreamStats \<Rightarrow> StreamStats" where
  "received_as s s' = s\<lparr>st_bytes_received := st_bytes_received s'\<rparr>"

lemma sent_as_simps [simp]:
  "st_bytes_sent (sent_as s s') = st_bytes_sent s'" "st_bytes_received (sent_as s s') = st_bytes_received s"
  "sent_as s s = s"
  by (simp_all add: sent_as_def)

lemma received_as_simps [simp]:
  "st_bytes_received (received_as s s') = st_bytes_received s'" "st_bytes_sent (received_as s s') = st_bytes_sent s"
  "received_as s s = s"
  by (simp_all add: received_as_def)

lemma add_bytes_sent_as: "add_bytes_sent (sent_as s s') n = sent_as s (add_bytes_sent s' n)"
  by (simp add: sent_as_def add_bytes_sent_def)

lemma clamp_sent_as: "clamp_bytes_sent_to_acked (sent_as s s') i = sent_as s (clamp_bytes_sent_to_acked s' i)"
  by (auto simp: sent_as_def clamp_bytes_sent_to_acked_def split: option.splits)

definition under :: "StreamStats \<Rightarrow> tcp_send_state \<Rightarrow> tcp_send_state" where
  "under s st = st\<lparr>td_stats := sent_as s (td_stats st)\<rparr>"

lemma under_fields [simp]:
  "td_budget (under s st) = td_budget st" "td_deadline (under s st) = td_deadline st" "td_pace_start (under s st) = td_pace_start st"
  "td_pace_bytes_offset (under s st) = td_pace_bytes_offset st" "td_chunk_offset (under s st) = td_chunk_offset st"
  "td_zerocopy (under s st) = td_zerocopy st" "td_suppressed (under s st) = td_suppressed st" "td_wire (under s st) = td_wire st"
  "td_stats (under s st) = sent_as s (td_stats st)"
  by (simp_all add: under_def)

lemma under_update:
  "(under s st)\<lparr>td_budget := b\<rparr> = under s (st\<lparr>td_budget := b\<rparr>)"
  "(under s st)\<lparr>td_zerocopy := z\<rparr> = under s (st\<lparr>td_zerocopy := z\<rparr>)"
  "(under s st)\<lparr>td_suppressed := n\<rparr> = under s (st\<lparr>td_suppressed := n\<rparr>)"
  "(under s st)\<lparr>td_deadline := t\<rparr> = under s (st\<lparr>td_deadline := t\<rparr>)"
  "(under s st)\<lparr>td_pace_start := t\<rparr> = under s (st\<lparr>td_pace_start := t\<rparr>)"
  "(under s st)\<lparr>td_pace_bytes_offset := w\<rparr> = under s (st\<lparr>td_pace_bytes_offset := w\<rparr>)"
  "(under s st)\<lparr>td_chunk_offset := o'\<rparr> = under s (st\<lparr>td_chunk_offset := o'\<rparr>)"
  "(under s st)\<lparr>td_wire := bs\<rparr> = under s (st\<lparr>td_wire := bs\<rparr>)"
  "(under s st)\<lparr>td_stats := sent_as s t'\<rparr> = under s (st\<lparr>td_stats := t'\<rparr>)"
  by (simp_all add: under_def)

lemma tcp_written_under: "tcp_written env claimed n (under s st) = under s (tcp_written env claimed n st)"
  by (simp add: tcp_written_def Let_def under_def add_bytes_sent_as)

lemma write_result_under: "tcp_write_result env info claimed r (under s st) = map_step (under s) (tcp_write_result env info claimed r st)"
proof (cases r)
  case (WriteOk k now wakes)
  then show ?thesis
    by (cases "te_bitrate env") (simp_all add: tcp_write_result_def Let_def tcp_written_under)
next
  case (WriteErr k cancelled now)
  then show ?thesis
    by (cases "info k") (simp_all add: tcp_write_result_def Let_def under_update clamp_sent_as)
qed (simp_all add: tcp_write_result_def Let_def under_update)

lemma send_iter_under: "tcp_send_iter env info it (under s st) = map_step (under s) (tcp_send_iter env info it st)"
proof (cases it)
  case (TcpWrite now r)
  obtain claimed b where c: "claim_or_full (td_budget st) (word_of_nat (length (te_buffer env) - td_chunk_offset st)) = (claimed, b)"
    by fastforce
  show ?thesis
    using TcpWrite c by (simp add: tcp_send_iter_def under_update write_result_under)
qed (simp_all add: tcp_send_iter_def under_update)

definition under_recv :: "StreamStats \<Rightarrow> tcp_recv_state \<Rightarrow> tcp_recv_state" where
  "under_recv s st = st\<lparr>tr_stats := received_as s (tr_stats st)\<rparr>"

lemma recv_iter_under: "tcp_recv_iter start dur e (under_recv s st) = map_recv (under_recv s) (tcp_recv_iter start dur e st)"
  by (cases e) (simp_all add: tcp_recv_iter_def under_recv_def received_as_def add_bytes_received_def Let_def split_def)

lemma send_iter_frame:
  "td_stats (step_state (tcp_send_iter env info it st)) = sent_as (td_stats st) (td_stats (step_state (tcp_send_iter env info it st)))"
proof -
  have w: "td_stats (step_state (tcp_write_result env info claimed r st')) =
      sent_as (td_stats st') (td_stats (step_state (tcp_write_result env info claimed r st')))" for claimed r st'
    by (cases r) (simp_all add: tcp_write_result_def tcp_written_def Let_def sent_as_def add_bytes_sent_def clamp_bytes_sent_to_acked_def
        split: option.splits)
  show ?thesis
    using w [of _ _ "st\<lparr>td_budget := _\<rparr>"]
    by (cases it) (simp_all add: tcp_send_iter_def split_def)
qed

lemma recv_iter_frame:
  "tr_stats (recv_state (tcp_recv_iter start dur e st)) = received_as (tr_stats st) (tr_stats (recv_state (tcp_recv_iter start dur e st)))"
  by (cases e) (simp_all add: tcp_recv_iter_def received_as_def add_bytes_received_def Let_def split_def)

text \<open>One more iteration of a loop that may have ended.\<close>

definition send_one :: "tcp_env \<Rightarrow> (io_kind \<Rightarrow> TcpInfoSnapshot option) \<Rightarrow> tcp_iter \<Rightarrow> tcp_step \<Rightarrow> tcp_step" where
  "send_one env info it r = (case r of TcpContinue st \<Rightarrow> tcp_send_iter env info it st | _ \<Rightarrow> r)"

definition recv_one :: "instant \<Rightarrow> duration \<Rightarrow> tcp_recv_event \<Rightarrow> tcp_recv_step \<Rightarrow> tcp_recv_step" where
  "recv_one start dur e r = (case r of RecvContinue st \<Rightarrow> tcp_recv_iter start dur e st | _ \<Rightarrow> r)"

lemma send_loop_foldl: "tcp_send_loop env info its st = foldl (\<lambda>r it. send_one env info it r) (TcpContinue st) its"
proof (induction its arbitrary: st)
  case (Cons it its)
  have stuck: "foldl (\<lambda>r it. send_one env info it r) r xs = r" if "\<forall>s. r \<noteq> TcpContinue s" for r xs
    using that by (cases r; induction xs) (simp_all add: send_one_def)
  show ?case
    using Cons.IH stuck by (cases "tcp_send_iter env info it st") (simp_all add: send_one_def)
qed simp

lemma recv_loop_foldl: "tcp_recv_loop start dur es st = foldl (\<lambda>r e. recv_one start dur e r) (RecvContinue st) es"
proof (induction es arbitrary: st)
  case (Cons e es)
  have stuck: "foldl (\<lambda>r e. recv_one start dur e r) r xs = r" if "\<forall>s. r \<noteq> RecvContinue s" for r xs
    using that by (cases r; induction xs) (simp_all add: recv_one_def)
  show ?case
    using Cons.IH stuck by (cases "tcp_recv_iter start dur e st") (simp_all add: recv_one_def)
qed simp

text \<open>The two loops as they stand in an interleaving, and alone.\<close>

definition duplex_inv :: "StreamStats \<Rightarrow> duplex_state \<Rightarrow> tcp_step \<Rightarrow> tcp_recv_step \<Rightarrow> bool" where
  "duplex_inv base d l r \<longleftrightarrow>
     dx_stats d = received_as (sent_as base (td_stats (step_state l))) (tr_stats (recv_state r))
     \<and> td_stats (step_state l) = sent_as base (td_stats (step_state l))
     \<and> tr_stats (recv_state r) = received_as base (tr_stats (recv_state r))
     \<and> (\<exists>s. dx_send d = map_step (under s) l) \<and> (\<exists>s. dx_recv d = map_recv (under_recv s) r)"

lemma step_state_map [simp]: "step_state (map_step f r) = f (step_state r)"
  by (cases r) simp_all

lemma recv_state_map [simp]: "recv_state (map_recv f r) = f (recv_state r)"
  by (cases r) simp_all

lemma step_case_state:
  "(case r of TcpContinue s \<Rightarrow> td_stats s | TcpBreak s \<Rightarrow> td_stats s | TcpFail e s \<Rightarrow> td_stats s) = td_stats (step_state r)"
  by (cases r) simp_all

lemma recv_case_state:
  "(case r of RecvContinue s \<Rightarrow> tr_stats s | RecvEnd s \<Rightarrow> tr_stats s | RecvFail e s \<Rightarrow> tr_stats s) = tr_stats (recv_state r)"
  by (cases r) simp_all

lemma sent_received: "received_as (sent_as base a) b = sent_as (received_as base b) a"
  by (simp add: sent_as_def received_as_def)

lemma as_absorb [simp]: "sent_as (sent_as s a) b = sent_as s b" "received_as (received_as s a) b = received_as s b"
  by (simp_all add: sent_as_def received_as_def)

lemma duplex_invI:
  assumes "td_stats (step_state l) = sent_as base (td_stats (step_state l))" "tr_stats (recv_state r) = received_as base (tr_stats (recv_state r))"
  shows "duplex_inv base \<lparr>dx_stats = received_as (sent_as base (td_stats (step_state l))) (tr_stats (recv_state r)),
           dx_send = map_step (under s) l, dx_recv = map_recv (under_recv s') r\<rparr> l r"
  unfolding duplex_inv_def duplex_state.simps using assms by blast

lemma duplex_inv_send:
  assumes "duplex_inv base d l r"
  shows "duplex_inv base (duplex_send env info it d) (send_one env info it l) r"
proof (cases l)
  case (TcpContinue st)
  obtain s where s: "dx_send d = TcpContinue (under s st)" using assms TcpContinue by (auto simp: duplex_inv_def)
  have stats: "dx_stats d = sent_as (received_as base (tr_stats (recv_state r))) (td_stats st)"
    and own: "td_stats st = sent_as base (td_stats st)"
    using assms TcpContinue by (simp_all add: duplex_inv_def sent_received)
  let ?b = "received_as base (tr_stats (recv_state r))" and ?l = "tcp_send_iter env info it st"
  have "(under s st)\<lparr>td_stats := dx_stats d\<rparr> = under ?b st"
    by (simp add: under_def stats)
  then have run: "tcp_send_iter env info it ((under s st)\<lparr>td_stats := dx_stats d\<rparr>) = map_step (under ?b) ?l"
    by (simp add: send_iter_under)
  have "td_stats (step_state ?l) = sent_as base (td_stats (step_state ?l))"
    using send_iter_frame [of env info it st] own by (metis as_absorb(1))
  moreover obtain s' where s': "dx_recv d = map_recv (under_recv s') r" "tr_stats (recv_state r) = received_as base (tr_stats (recv_state r))"
    using assms by (auto simp: duplex_inv_def)
  moreover have "duplex_send env info it d = \<lparr>dx_stats = received_as (sent_as base (td_stats (step_state ?l))) (tr_stats (recv_state r)),
      dx_send = map_step (under ?b) ?l, dx_recv = map_recv (under_recv s') r\<rparr>"
    using s run s'(1) by (cases d) (simp add: duplex_send_def Let_def step_case_state sent_received)
  moreover have "send_one env info it l = ?l"
    by (simp add: send_one_def TcpContinue)
  ultimately show ?thesis
    using duplex_invI [of ?l base r ?b s'] by simp
next
  case (TcpBreak st)
  then show ?thesis using assms by (auto simp: duplex_inv_def duplex_send_def send_one_def)
next
  case (TcpFail e st)
  then show ?thesis using assms by (auto simp: duplex_inv_def duplex_send_def send_one_def)
qed

lemma duplex_inv_recv:
  assumes "duplex_inv base d l r"
  shows "duplex_inv base (duplex_recv start dur e d) l (recv_one start dur e r)"
proof (cases r)
  case (RecvContinue st)
  obtain s where s: "dx_recv d = RecvContinue (under_recv s st)" using assms RecvContinue by (auto simp: duplex_inv_def)
  have stats: "dx_stats d = received_as (sent_as base (td_stats (step_state l))) (tr_stats st)"
    and own: "tr_stats st = received_as base (tr_stats st)"
    using assms RecvContinue by (simp_all add: duplex_inv_def)
  let ?b = "sent_as base (td_stats (step_state l))" and ?r = "tcp_recv_iter start dur e st"
  have "(under_recv s st)\<lparr>tr_stats := dx_stats d\<rparr> = under_recv ?b st"
    by (simp add: under_recv_def stats)
  then have run: "tcp_recv_iter start dur e ((under_recv s st)\<lparr>tr_stats := dx_stats d\<rparr>) = map_recv (under_recv ?b) ?r"
    by (simp add: recv_iter_under)
  have "tr_stats (recv_state ?r) = received_as base (tr_stats (recv_state ?r))"
    using recv_iter_frame [of start dur e st] own by (metis as_absorb(2))
  moreover obtain s' where s': "dx_send d = map_step (under s') l" "td_stats (step_state l) = sent_as base (td_stats (step_state l))"
    using assms by (auto simp: duplex_inv_def)
  moreover have "duplex_recv start dur e d = \<lparr>dx_stats = received_as ?b (tr_stats (recv_state ?r)),
      dx_send = map_step (under s') l, dx_recv = map_recv (under_recv ?b) ?r\<rparr>"
    using s run s'(1) by (cases d) (simp add: duplex_recv_def Let_def recv_case_state under_recv_def)
  moreover have "recv_one start dur e r = ?r"
    by (simp add: recv_one_def RecvContinue)
  ultimately show ?thesis
    using duplex_invI [of l base ?r s' ?b] by simp
next
  case (RecvEnd st)
  then show ?thesis using assms by (auto simp: duplex_inv_def duplex_recv_def recv_one_def)
next
  case (RecvFail e st)
  then show ?thesis using assms by (auto simp: duplex_inv_def duplex_recv_def recv_one_def)
qed

definition send_part :: "(tcp_iter + tcp_recv_event) list \<Rightarrow> tcp_iter list" where
  "send_part xs = List.map_filter (\<lambda>x. case x of Inl it \<Rightarrow> Some it | Inr e \<Rightarrow> None) xs"

definition recv_part :: "(tcp_iter + tcp_recv_event) list \<Rightarrow> tcp_recv_event list" where
  "recv_part xs = List.map_filter (\<lambda>x. case x of Inl it \<Rightarrow> None | Inr e \<Rightarrow> Some e) xs"

lemma duplex_inv_loop:
  "duplex_inv base d l r \<Longrightarrow>
     duplex_inv base (duplex_loop env info start dur xs d) (foldl (\<lambda>r it. send_one env info it r) l (send_part xs))
       (foldl (\<lambda>r e. recv_one start dur e r) r (recv_part xs))"
proof (induction xs arbitrary: d l r)
  case (Cons x xs)
  show ?case
    using Cons.IH duplex_inv_send [OF Cons.prems] duplex_inv_recv [OF Cons.prems]
    by (cases x) (simp_all add: send_part_def recv_part_def map_filter_simps)
qed (simp add: send_part_def recv_part_def map_filter_simps)

lemma duplex_inv_start: "duplex_inv (td_stats st) (duplex_start st) (TcpContinue st) (RecvContinue (tcp_recv_init (td_stats st)))"
  by (auto simp: duplex_inv_def duplex_start_def tcp_recv_init_def under_def under_recv_def
      intro: exI [of _ "td_stats st"])

fun same_step :: "tcp_step \<Rightarrow> tcp_step \<Rightarrow> bool" where
  "same_step (TcpContinue a) (TcpContinue b) = True"
| "same_step (TcpBreak a) (TcpBreak b) = True"
| "same_step (TcpFail e a) (TcpFail e' b) = (e = e')"
| "same_step _ _ = False"

fun same_recv :: "tcp_recv_step \<Rightarrow> tcp_recv_step \<Rightarrow> bool" where
  "same_recv (RecvContinue a) (RecvContinue b) = True"
| "same_recv (RecvEnd a) (RecvEnd b) = True"
| "same_recv (RecvFail e a) (RecvFail e' b) = (e = e')"
| "same_recv _ _ = False"

lemma same_step_map: "same_step (map_step f r) r"
  by (cases r) simp_all

lemma same_recv_map: "same_recv (map_recv f r) r"
  by (cases r) simp_all

text \<open>C39: The two halves of a bidirectional TCP stream share one set of counters and run at the same time. However their iterations
  interleave, each half does what it does alone: the bytes sent, the bytes on the wire and the budget are those of the send loop by
  itself, the bytes received those of the receive loop by itself, each ends as it would, and no other counter changes.\<close>

lemma halves_are_independent:
  "let d = duplex_loop env info_after start dur xs (duplex_start st);
       sent = tcp_send_loop env info_after (List.map_filter (\<lambda>x. case x of Inl it \<Rightarrow> Some it | Inr e \<Rightarrow> None) xs) st;
       received = tcp_recv_loop start dur (List.map_filter (\<lambda>x. case x of Inl it \<Rightarrow> None | Inr e \<Rightarrow> Some e) xs) (tcp_recv_init (td_stats st))
   in dx_stats d = (td_stats st)\<lparr>st_bytes_sent := st_bytes_sent (td_stats (step_state sent)),
                                  st_bytes_received := st_bytes_received (tr_stats (recv_state received))\<rparr>
      \<and> same_step (dx_send d) sent \<and> same_recv (dx_recv d) received
      \<and> td_wire (step_state (dx_send d)) = td_wire (step_state sent) \<and> td_budget (step_state (dx_send d)) = td_budget (step_state sent)"
proof -
  let ?d = "duplex_loop env info_after start dur xs (duplex_start st)"
  let ?sent = "tcp_send_loop env info_after (send_part xs) st"
  let ?received = "tcp_recv_loop start dur (recv_part xs) (tcp_recv_init (td_stats st))"
  have "duplex_inv (td_stats st) ?d ?sent ?received"
    using duplex_inv_loop [OF duplex_inv_start, of st env info_after start dur xs]
    by (simp add: send_loop_foldl recv_loop_foldl)
  then have "dx_stats ?d = (td_stats st)\<lparr>st_bytes_sent := st_bytes_sent (td_stats (step_state ?sent)),
               st_bytes_received := st_bytes_received (tr_stats (recv_state ?received))\<rparr>
      \<and> same_step (dx_send ?d) ?sent \<and> same_recv (dx_recv ?d) ?received
      \<and> td_wire (step_state (dx_send ?d)) = td_wire (step_state ?sent) \<and> td_budget (step_state (dx_send ?d)) = td_budget (step_state ?sent)"
    by (auto simp: duplex_inv_def same_step_map same_recv_map received_as_def sent_as_def)
  then show ?thesis by (simp add: Let_def send_part_def recv_part_def)
qed

end
