(* ===== verification/Rust_Format.thy ===== *)
theory Rust_Format
  imports Rust_Text
begin

text \<open>
  The parts of Rust's \<open>format!\<close> that the reports use: decimal numbers with a fixed number of places, an explicit
  sign, and padding to a width; and the values of \<open>f64\<close> that are not real numbers where the sources test for
  them. Text that goes beyond U+00FF (arrows, rules) is given as its UTF-8 bytes, one \<open>char\<close> per byte.
\<close>

section \<open>Values\<close>

datatype float = Fin real | PosInf | NegInf | NaN

fun is_finite :: "float \<Rightarrow> bool" where
  "is_finite (Fin x) = True"
| "is_finite _ = False"

text \<open>\<open>a < b\<close>: no comparison with NaN holds.\<close>

fun float_less :: "float \<Rightarrow> float \<Rightarrow> bool" where
  "float_less (Fin a) (Fin b) = (a < b)"
| "float_less NegInf (Fin b) = True"
| "float_less NegInf PosInf = True"
| "float_less (Fin a) PosInf = True"
| "float_less _ _ = False"

section \<open>Decimals\<close>

text \<open>\<open>{:.p}\<close> rounds the exact value to \<open>p\<close> places, ties to the even digit; \<open>f64::round\<close> rounds ties away
  from zero.\<close>

definition round_half_even :: "real \<Rightarrow> int" where
  "round_half_even x =
     (let f = \<lfloor>x\<rfloor>; r = x - of_int f
      in if r < 1 / 2 then f else if 1 / 2 < r then f + 1 else if even f then f else f + 1)"

definition f64_round :: "real \<Rightarrow> int" where
  "f64_round x = (if 0 \<le> x then \<lfloor>x + 1 / 2\<rfloor> else - \<lfloor>- x + 1 / 2\<rfloor>)"

definition pad_zeros :: "nat \<Rightarrow> string \<Rightarrow> string" where
  "pad_zeros n s = replicate (n - length s) CHR ''0'' @ s"

text \<open>The digits of \<open>n / 10 ^ p\<close>.\<close>

definition show_scaled :: "nat \<Rightarrow> nat \<Rightarrow> string" where
  "show_scaled p n = show_nat (n div 10 ^ p) @ (if p = 0 then [] else CHR ''.'' # pad_zeros p (show_nat (n mod 10 ^ p)))"

definition fmt_fixed :: "nat \<Rightarrow> real \<Rightarrow> string" where
  "fmt_fixed p x = (if x < 0 then ''-'' else []) @ show_scaled p (nat (round_half_even (\<bar>x\<bar> * 10 ^ p)))"

text \<open>\<open>{:+.p}\<close>, also of the values that are not numbers.\<close>

definition fmt_signed :: "nat \<Rightarrow> float \<Rightarrow> string" where
  "fmt_signed p v =
     (case v of
        Fin x \<Rightarrow> if x < 0 then fmt_fixed p x else ''+'' @ fmt_fixed p x
      | PosInf \<Rightarrow> ''+inf'' | NegInf \<Rightarrow> ''-inf'' | NaN \<Rightarrow> ''NaN'')"

text \<open>\<open>{:>w}\<close> and \<open>{:<w}\<close>: padding counts characters and never cuts.\<close>

definition pad_left :: "nat \<Rightarrow> string \<Rightarrow> string" where
  "pad_left w s = replicate (w - length s) CHR '' '' @ s"

definition pad_right :: "nat \<Rightarrow> string \<Rightarrow> string" where
  "pad_right w s = s @ replicate (w - length s) CHR '' ''"

definition utf8_text :: "string \<Rightarrow> string" where
  "utf8_text s = map (\<lambda>b. char_of (unat b)) (as_bytes s)"

definition line :: "string \<Rightarrow> string" where
  "line s = s @ [char_of (10::nat)]"

section \<open>Slicing\<close>

text \<open>The capitals of the code points up to U+00FF; those of the micro sign and of the y with diaeresis lie
  beyond and are left alone, which no parser below accepts either way.\<close>

definition upper_char :: "char \<Rightarrow> string" where
  "upper_char c = (let k = of_char c :: nat in
     if (97 \<le> k \<and> k \<le> 122) \<or> (224 \<le> k \<and> k \<le> 254 \<and> k \<noteq> 247) then [char_of (k - 32)]
     else if k = 223 then ''SS'' else [c])"

definition to_uppercase :: "string \<Rightarrow> string" where
  "to_uppercase s = concat (map upper_char s)"

definition ends_with :: "char \<Rightarrow> string \<Rightarrow> bool" where
  "ends_with c s = (s \<noteq> [] \<and> last s = c)"

definition trim_end_matches :: "char \<Rightarrow> string \<Rightarrow> string" where
  "trim_end_matches c s = rev (dropWhile (\<lambda>x. x = c) (rev s))"

definition strip_suffix :: "char \<Rightarrow> string \<Rightarrow> string option" where
  "strip_suffix c s = (if ends_with c s then Some (butlast s) else None)"

fun strip_prefix :: "string \<Rightarrow> string \<Rightarrow> string option" where
  "strip_prefix [] s = Some s"
| "strip_prefix (p # ps) [] = None"
| "strip_prefix (p # ps) (c # cs) = (if p = c then strip_prefix ps cs else None)"

text \<open>\<open>str::split_once\<close>: around the first occurrence of a separator.\<close>

fun split_once :: "string \<Rightarrow> string \<Rightarrow> (string \<times> string) option" where
  "split_once sep s =
     (case strip_prefix sep s of
        Some rest \<Rightarrow> Some ([], rest)
      | None \<Rightarrow> (case s of [] \<Rightarrow> None | c # cs \<Rightarrow> map_option (\<lambda>(a, b). (c # a, b)) (split_once sep cs)))"

section \<open>Lemmas\<close>

lemma round_half_even_near: "\<bar>x - of_int (round_half_even x)\<bar> \<le> 1 / 2"
  unfolding round_half_even_def Let_def by (auto; linarith)

lemma round_half_even_nonneg: "0 \<le> x \<Longrightarrow> 0 \<le> round_half_even x"
  unfolding round_half_even_def Let_def by auto

lemma round_half_even_of_int [simp]: "round_half_even (of_int k) = k"
  by (simp add: round_half_even_def)

lemma round_half_even_numeral [simp]: "round_half_even (numeral k) = numeral k"
  using round_half_even_of_int [of "numeral k"] by simp

lemma round_half_even_le: "x \<le> of_int k \<Longrightarrow> round_half_even x \<le> k"
proof -
  assume "x \<le> of_int k"
  then have "of_int (round_half_even x) \<le> real_of_int k + 1 / 2" using round_half_even_near [of x] by linarith
  then have "real_of_int (round_half_even x) < of_int (k + 1)" by simp
  then show ?thesis by linarith
qed

lemma f64_round_near: "\<bar>x - of_int (f64_round x)\<bar> \<le> 1 / 2"
proof -
  have f: "of_int \<lfloor>y\<rfloor> \<le> y \<and> y < of_int \<lfloor>y\<rfloor> + 1" for y :: real using floor_correct [of y] by simp
  show ?thesis
  proof (cases "0 \<le> x")
    case True
    then have "f64_round x = \<lfloor>x + 1 / 2\<rfloor>" by (simp add: f64_round_def)
    then show ?thesis using f [of "x + 1 / 2"] by linarith
  next
    case False
    then have "of_int (f64_round x) = - real_of_int \<lfloor>- x + 1 / 2\<rfloor>" by (simp add: f64_round_def)
    then show ?thesis using f [of "- x + 1 / 2"] by linarith
  qed
qed

lemma length_pad_left [simp]: "length (pad_left w s) = max w (length s)"
  by (simp add: pad_left_def)

lemma length_pad_right [simp]: "length (pad_right w s) = max w (length s)"
  by (simp add: pad_right_def)

lemma length_pad_zeros [simp]: "length (pad_zeros w s) = max w (length s)"
  by (simp add: pad_zeros_def)

text \<open>How long the decimal digits of a number are.\<close>

lemma length_show_nat_le: "n < 10 ^ k \<Longrightarrow> 0 < k \<Longrightarrow> length (show_nat n) \<le> k"
proof (induction k arbitrary: n)
  case 0
  then show ?case by simp
next
  case (Suc k)
  show ?case
  proof (cases "n < 10")
    case True
    then show ?thesis by (simp add: show_nat.simps [of n])
  next
    case False
    then have "n div 10 < 10 ^ k" using Suc.prems(1) by (simp add: less_mult_imp_div_less mult.commute)
    moreover have "0 < k" using False Suc.prems(1) by (cases k) auto
    ultimately show ?thesis using Suc.IH [of "n div 10"] False by (simp add: show_nat.simps [of n])
  qed
qed

lemma length_show_scaled_le:
  assumes "n < 10 ^ (p + k)" "0 < k" "0 < p"
  shows "length (show_scaled p n) \<le> k + 1 + p"
proof -
  have "n div 10 ^ p < 10 ^ k" using assms(1) by (simp add: less_mult_imp_div_less power_add mult.commute)
  then have "length (show_nat (n div 10 ^ p)) \<le> k" using assms(2) by (rule length_show_nat_le)
  moreover have "length (show_nat (n mod 10 ^ p)) \<le> p" by (rule length_show_nat_le) (simp_all add: assms(3))
  ultimately show ?thesis using assms(3) by (simp add: show_scaled_def)
qed

text \<open>Slices.\<close>

lemma find_Some_mem: "find P xs = Some x \<Longrightarrow> x \<in> set xs \<and> P x"
  by (induction xs) (auto split: if_splits)

lemma strip_prefix_append [simp]: "strip_prefix p (p @ s) = Some s"
  by (induction p) auto

lemma strip_prefix_Some_iff: "strip_prefix p s = Some r \<longleftrightarrow> s = p @ r"
  by (induction p s rule: strip_prefix.induct) auto

text \<open>\<open>split_once\<close> finds the first occurrence.\<close>

lemma split_once_one: "split_once [c] s = (if c \<in> set s then Some (takeWhile (\<lambda>x. x \<noteq> c) s, tl (dropWhile (\<lambda>x. x \<noteq> c) s)) else None)"
  by (induction s) auto

declare split_once.simps [simp del]

lemma split_once_append:
  assumes "split_once sep s = Some (a, b)"
  shows "s = a @ sep @ b"
  using assms
proof (induction sep s arbitrary: a rule: split_once.induct)
  case (1 sep s)
  show ?case
  proof (cases "strip_prefix sep s")
    case (Some rest)
    then have "a = [] \<and> b = rest" using 1(2) by (simp add: split_once.simps [of sep s])
    then show ?thesis using Some by (simp add: strip_prefix_Some_iff)
  next
    case None
    then have "s \<noteq> []" using 1(2) by (auto simp: split_once.simps [of sep "[]"])
    then obtain c cs where s: "s = c # cs" by (cases s) auto
    with None 1(2) obtain a' where a': "split_once sep cs = Some (a', b)" "a = c # a'"
      by (auto simp: split_once.simps [of sep "c # cs"])
    from 1(1) [OF None s a'(1)] show ?thesis using a'(2) s by simp
  qed
qed

lemma split_once_at: "c \<notin> set h \<Longrightarrow> split_once [c] (h @ c # r) = Some (h, r)"
  by (induction h) (auto simp: split_once_one)

lemma split_once_bracket:
  assumes "CHR '']'' \<notin> set h"
  shows "split_once '']:'' (h @ '']:'' @ p) = Some (h, p)"
  using assms
proof (induction h)
  case Nil
  then show ?case by (simp add: split_once.simps)
next
  case (Cons c h)
  then show ?case by (simp add: split_once.simps [of "'']:''" "c # _"])
qed

text \<open>What numbers are written with: no separator of any report.\<close>

definition decimal_char :: "char \<Rightarrow> bool" where
  "decimal_char c = (let k = of_char c :: nat in (48 \<le> k \<and> k \<le> 57) \<or> k = 45 \<or> k = 46)"

lemma decimal_char_show_nat: "c \<in> set (show_nat n) \<Longrightarrow> decimal_char c"
  using show_nat_digits [of c n] by (auto simp: decimal_char_def of_char_hex_digit)

lemma decimal_char_fmt_fixed: "c \<in> set (fmt_fixed p x) \<Longrightarrow> decimal_char c"
proof -
  have "decimal_char CHR ''-''" "decimal_char CHR ''.''" "decimal_char CHR ''0''" by (simp_all add: decimal_char_def)
  then show "c \<in> set (fmt_fixed p x) \<Longrightarrow> decimal_char c"
    unfolding fmt_fixed_def show_scaled_def pad_zeros_def set_append
    by (elim UnE) (auto dest: decimal_char_show_nat split: if_splits)
qed

end
