(* ===== verification/Config_File.thy ===== *)
theory Config_File
  imports Rust_Format Auth Protocol
begin

text \<open>
  Configuration (\<open>src/config.rs\<close>), preferences (\<open>src/prefs.rs\<close>) and the update check (\<open>src/update.rs\<close>). The file
  system is a record of what its calls return, a path is the list of its components, and the TOML decoder is a parameter.
\<close>

section \<open>Configuration values\<close>

record ClientDefaults =
  cd_push_gateway :: "string option"
  cd_push_labels :: "(string \<times> string) list"
  cd_push_job :: "string option"
  cd_duration_secs :: "u64 option"
  cd_parallel_streams :: "u8 option"
  cd_port :: "u16 option"
  cd_tcp_nodelay :: "bool option"
  cd_window_size :: "string option"
  cd_bitrate :: "string option"
  cd_congestion :: "string option"
  cd_dscp :: "string option"
  cd_interval_secs :: "float option"
  cd_json_output :: "bool option"
  cd_no_tui :: "bool option"
  cd_no_update_check :: "bool option"
  cd_timestamp_format :: "TimestampFormat option"
  cd_log_file :: "string option"
  cd_log_level :: "string option"
  cd_psk :: "string option"
  cd_theme :: "string option"
  cd_address_family :: "string option"
  cd_bind :: "string option"
  cd_cport :: "u16 option"
  cd_omit_secs :: "u64 option"

record ServerDefaults =
  sx_port :: "u16 option"
  sx_one_off :: "bool option"
  sx_prometheus_port :: "u16 option"
  sx_push_gateway :: "string option"
  sx_push_labels :: "(string \<times> string) list"
  sx_log_file :: "string option"
  sx_log_level :: "string option"
  sx_psk :: "string option"
  sx_rate_limit :: "u32 option"
  sx_rate_limit_window :: "u64 option"
  sx_allow :: "string list option"
  sx_deny :: "string list option"
  sx_acl_file :: "string option"
  sx_address_family :: "string option"
  sx_no_mdns :: "bool option"

record ServerPreset =
  sp_name :: string
  sp_bandwidth_limit :: "string option"
  sp_allowed_clients :: "string list option"
  sp_max_duration_secs :: "u64 option"

record Config =
  cf_client :: ClientDefaults
  cf_server :: ServerDefaults
  cf_presets :: "ServerPreset list"

definition Config_default :: Config where
  "Config_default =
     \<lparr>cf_client = \<lparr>cd_push_gateway = None, cd_push_labels = [], cd_push_job = None, cd_duration_secs = None, cd_parallel_streams = None,
        cd_port = None, cd_tcp_nodelay = None, cd_window_size = None, cd_bitrate = None, cd_congestion = None, cd_dscp = None,
        cd_interval_secs = None, cd_json_output = None, cd_no_tui = None, cd_no_update_check = None, cd_timestamp_format = None,
        cd_log_file = None, cd_log_level = None, cd_psk = None, cd_theme = None, cd_address_family = None, cd_bind = None,
        cd_cport = None, cd_omit_secs = None\<rparr>,
      cf_server = \<lparr>sx_port = None, sx_one_off = None, sx_prometheus_port = None, sx_push_gateway = None, sx_push_labels = [],
        sx_log_file = None, sx_log_level = None, sx_psk = None, sx_rate_limit = None, sx_rate_limit_window = None, sx_allow = None,
        sx_deny = None, sx_acl_file = None, sx_address_family = None, sx_no_mdns = None\<rparr>,
      cf_presets = []\<rparr>"

definition get_preset :: "Config \<Rightarrow> string \<Rightarrow> ServerPreset option" where
  "get_preset c name = find (\<lambda>p. sp_name p = name) (cf_presets c)"

section \<open>Finding and reading the file\<close>

type_synonym path = "string list"

datatype io_kind = NotFound | PermissionDenied | OtherIo

text \<open>What opening a file gives: its metadata and its text, each of which may fail, read from one handle.\<close>

record config_handle =
  ch_metadata :: "io_kind + Metadata"
  ch_content :: "io_kind + string"

record file_system =
  fs_open :: "path \<Rightarrow> io_kind + config_handle"
  fs_is_symlink :: "path \<Rightarrow> bool"
  fs_exists :: "path \<Rightarrow> bool"

datatype config_file_error =
    MissingExplicit path string
  | DanglingSymlink path path
  | IoFailed path io_kind
  | ParseFailed path
  | BadPermissions auth_error
  | PermissionDeniedFile path

text \<open>\<open>Path::ancestors\<close>: the path itself first, its root last.\<close>

definition ancestors :: "path \<Rightarrow> path list" where
  "ancestors p = map (\<lambda>n. take n p) (rev [0..<Suc (length p)])"

definition load_from :: "(string \<Rightarrow> Config option) \<Rightarrow> file_system \<Rightarrow> path \<Rightarrow> config_file_error + Config option" where
  "load_from from_toml fs config_path =
     (case fs_open fs config_path of
        Err NotFound \<Rightarrow>
          (case find (\<lambda>p. fs_is_symlink fs p \<and> \<not> fs_exists fs p) (ancestors config_path) of
             Some link \<Rightarrow> Err (DanglingSymlink config_path link)
           | None \<Rightarrow> Ok None)
      | Err k \<Rightarrow> Err (IoFailed config_path k)
      | Ok file \<Rightarrow>
          (case ch_metadata file of
             Err k \<Rightarrow> Err (IoFailed config_path k)
           | Ok md \<Rightarrow>
               (case ch_content file of
                  Err k \<Rightarrow> Err (IoFailed config_path k)
                | Ok contents \<Rightarrow>
                    (case from_toml contents of
                       None \<Rightarrow> Err (ParseFailed config_path)
                     | Some config \<Rightarrow>
                         if cd_psk (cf_client config) \<noteq> None \<or> sx_psk (cf_server config) \<noteq> None
                         then (case require_owner_only_permissions md of
                                 Err e \<Rightarrow> Err (BadPermissions e) | Ok _ \<Rightarrow> Ok (Some config))
                         else Ok (Some config)))))"

text \<open>The search: the first file that exists, an unreadable one skipped if the caller may. The result names the file
  and the files skipped.\<close>

fun search :: "(string \<Rightarrow> Config option) \<Rightarrow> file_system \<Rightarrow> bool \<Rightarrow> path list \<Rightarrow> path list
    \<Rightarrow> config_file_error + Config \<times> path option \<times> path list" where
  "search from_toml fs skip_unreadable [] skipped = Ok (Config_default, None, skipped)"
| "search from_toml fs skip_unreadable (p # ps) skipped =
     (case load_from from_toml fs p of
        Ok (Some config) \<Rightarrow> Ok (config, Some p, skipped)
      | Ok None \<Rightarrow> search from_toml fs skip_unreadable ps skipped
      | Err (IoFailed q PermissionDenied) \<Rightarrow>
          if skip_unreadable then search from_toml fs skip_unreadable ps (skipped @ [p]) else Err (PermissionDeniedFile p)
      | Err e \<Rightarrow> Err e)"

definition resolve :: "(string \<Rightarrow> Config option) \<Rightarrow> file_system \<Rightarrow> (path \<times> string) option \<Rightarrow> path list \<Rightarrow> bool
    \<Rightarrow> config_file_error + Config \<times> path option \<times> path list" where
  "resolve from_toml fs explicit candidates skip_unreadable =
     (case explicit of
        Some (p, src) \<Rightarrow>
          (case load_from from_toml fs p of
             Err e \<Rightarrow> Err e
           | Ok None \<Rightarrow> Err (MissingExplicit p src)
           | Ok (Some config) \<Rightarrow> Ok (config, Some p, []))
      | None \<Rightarrow> search from_toml fs skip_unreadable candidates [])"

definition search_paths_from :: "path option \<Rightarrow> path list" where
  "search_paths_from config_dir =
     (case config_dir of Some dir \<Rightarrow> [dir @ [''xfr'', ''config.toml'']] | None \<Rightarrow> [])
       @ [[''/'', ''etc'', ''xfr'', ''config.toml'']]"

definition config_path :: "path option \<Rightarrow> path" where
  "config_path config_dir = (case config_dir of Some dir \<Rightarrow> dir | None \<Rightarrow> [''.'']) @ [''xfr'', ''config.toml'']"

definition load_with :: "(string \<Rightarrow> Config option) \<Rightarrow> file_system \<Rightarrow> path option \<Rightarrow> (path \<times> string) option \<Rightarrow> bool
    \<Rightarrow> config_file_error + Config \<times> path option \<times> path list" where
  "load_with from_toml fs config_dir explicit skip_unreadable =
     resolve from_toml fs explicit (search_paths_from config_dir) skip_unreadable"

definition load :: "(string \<Rightarrow> Config option) \<Rightarrow> file_system \<Rightarrow> path option \<Rightarrow> config_file_error + Config" where
  "load from_toml fs config_dir = (case load_with from_toml fs config_dir None False of Err e \<Rightarrow> Err e | Ok (c, _) \<Rightarrow> Ok c)"

section \<open>Preferences\<close>

record Prefs =
  pf_theme :: "string option"
  pf_last_server :: "string option"
  pf_streams :: "u8 option"
  pf_show_help_on_start :: "bool option"
  pf_disable_update_check :: "bool option"

definition Prefs_default :: Prefs where
  "Prefs_default = \<lparr>pf_theme = None, pf_last_server = None, pf_streams = None, pf_show_help_on_start = None, pf_disable_update_check = None\<rparr>"

definition prefs_path :: "path option \<Rightarrow> path option" where
  "prefs_path config_dir = map_option (\<lambda>p. p @ [''xfr'', ''prefs.toml'']) config_dir"

definition prefs_load :: "(string \<Rightarrow> Prefs option) \<Rightarrow> (path \<Rightarrow> string option) \<Rightarrow> path option \<Rightarrow> Prefs" where
  "prefs_load from_toml read_file config_dir =
     (case Option.bind (Option.bind (prefs_path config_dir) read_file) from_toml of Some p \<Rightarrow> p | None \<Rightarrow> Prefs_default)"

definition with_overrides :: "Prefs \<Rightarrow> string option \<Rightarrow> string option \<Rightarrow> Prefs" where
  "with_overrides p cli_theme config_theme =
     (case cli_theme of
        Some t \<Rightarrow> p\<lparr>pf_theme := Some t\<rparr>
      | None \<Rightarrow> (case config_theme of Some t \<Rightarrow> p\<lparr>pf_theme := Some t\<rparr> | None \<Rightarrow> p))"

definition effective_theme_name :: "Prefs \<Rightarrow> bool \<Rightarrow> string" where
  "effective_theme_name p no_color =
     (case pf_theme p of Some t \<Rightarrow> t | None \<Rightarrow> if no_color then ''monochrome'' else ''default'')"

definition theme_name :: "(string \<Rightarrow> string option) \<Rightarrow> Prefs \<Rightarrow> string" where
  "theme_name env p = effective_theme_name p (case env ''NO_COLOR'' of Some v \<Rightarrow> v \<noteq> [] | None \<Rightarrow> False)"

section \<open>Update check\<close>

datatype InstallMethod = Homebrew | Cargo | Binary

definition str_contains :: "string \<Rightarrow> string \<Rightarrow> bool" where
  "str_contains s sub = (split_once sub s \<noteq> None)"

text \<open>\<open>exe\<close> is the canonical path of the running program, if it can be told.\<close>

definition InstallMethod_detect :: "string option \<Rightarrow> InstallMethod" where
  "InstallMethod_detect exe =
     (case exe of
        Some p \<Rightarrow>
          (let s = to_lowercase p
           in if str_contains s ''homebrew'' \<or> str_contains s ''cellar'' then Homebrew
              else if str_contains s ''.cargo/bin'' then Cargo else Binary)
      | None \<Rightarrow> Binary)"

definition update_command :: "InstallMethod \<Rightarrow> string" where
  "update_command m =
     (case m of Homebrew \<Rightarrow> ''brew upgrade xfr'' | Cargo \<Rightarrow> ''cargo install xfr'' | Binary \<Rightarrow> ''github.com/lance0/xfr/releases'')"

definition flag_is_truthy :: "string \<Rightarrow> bool" where
  "flag_is_truthy v = (trim v \<notin> {'''', ''0'', ''false''})"

definition env_opt_out :: "(string \<Rightarrow> string option) \<Rightarrow> bool" where
  "env_opt_out env =
     list_ex (\<lambda>k. case env k of Some v \<Rightarrow> flag_is_truthy v | None \<Rightarrow> False) [''DO_NOT_TRACK'', ''XFR_NO_UPDATE_CHECK'']"

text \<open>\<open>enabled\<close> says whether the check was compiled in.\<close>

definition check_disabled :: "bool \<Rightarrow> bool \<Rightarrow> bool \<Rightarrow> bool option \<Rightarrow> bool option \<Rightarrow> bool" where
  "check_disabled enabled opted_out cli_flag config pref \<longleftrightarrow>
     \<not> enabled \<or> opted_out \<or> cli_flag
       \<or> (case config of Some explicit \<Rightarrow> explicit | None \<Rightarrow> (case pref of Some p \<Rightarrow> p | None \<Rightarrow> False))"

definition check_lock_reason :: "bool \<Rightarrow> bool \<Rightarrow> bool \<Rightarrow> bool option \<Rightarrow> string option" where
  "check_lock_reason enabled opted_out cli_flag config =
     (if \<not> enabled then Some ''not compiled in''
      else if opted_out then Some ''locked: environment''
      else if cli_flag then Some ''locked: --no-update-check''
      else if config \<noteq> None then Some ''locked: config.toml''
      else None)"

section \<open>Lemmas\<close>

text \<open>A setting that is not locked is exactly one that the preference decides.\<close>

lemma unlocked_iff_pref_decides:
  "check_lock_reason enabled env cli config = None \<longleftrightarrow>
     (\<forall>b. check_disabled enabled env cli config (Some b) = b)"
  by (auto simp: check_lock_reason_def check_disabled_def split: option.splits)

lemma load_from_keeps_secrets:
  assumes "load_from from_toml fs p = Ok (Some c)" "cd_psk (cf_client c) \<noteq> None \<or> sx_psk (cf_server c) \<noteq> None"
  shows "\<exists>file md. fs_open fs p = Ok file \<and> ch_metadata file = Ok md \<and> require_owner_only_permissions md = Ok ()"
  using assms by (auto simp: load_from_def split: sum.splits option.splits io_kind.splits if_splits)

text \<open>What a candidate that does not decide the search looked like.\<close>

definition passed_over :: "(string \<Rightarrow> Config option) \<Rightarrow> file_system \<Rightarrow> bool \<Rightarrow> path \<Rightarrow> bool" where
  "passed_over from_toml fs skip p \<longleftrightarrow>
     load_from from_toml fs p = Ok None
     \<or> (skip \<and> (\<exists>q. load_from from_toml fs p = Err (IoFailed q PermissionDenied)))"

lemma search_Ok:
  assumes "search from_toml fs skip ps skipped = Ok (c, loaded, skipped')"
  shows "(\<exists>pre p post. ps = pre @ p # post \<and> loaded = Some p \<and> load_from from_toml fs p = Ok (Some c)
             \<and> (\<forall>q\<in>set pre. passed_over from_toml fs skip q))
       \<or> (loaded = None \<and> c = Config_default \<and> (\<forall>q\<in>set ps. passed_over from_toml fs skip q))"
    "set skipped' \<subseteq> set skipped \<union> set ps" "\<not> skip \<longrightarrow> skipped' = skipped"
  using assms
proof (induction ps arbitrary: skipped)
  case Nil
  {
    case 1
    then show ?case by simp
  next
    case 2
    then show ?case by simp
  next
    case 3
    then show ?case by simp
  }
next
  case (Cons p ps)
  have step: "(load_from from_toml fs p = Ok (Some c) \<and> loaded = Some p \<and> skipped' = sk)
      \<or> (\<exists>sk'. passed_over from_toml fs skip p \<and> search from_toml fs skip ps sk' = Ok (c, loaded, skipped')
              \<and> set sk' \<subseteq> insert p (set sk) \<and> (\<not> skip \<longrightarrow> sk' = sk))"
    if "search from_toml fs skip (p # ps) sk = Ok (c, loaded, skipped')" for sk
    using that
    by (auto simp: passed_over_def split: sum.splits option.splits config_file_error.splits io_kind.splits if_splits)
  {
    case 1
    from step [OF 1] show ?case
    proof
      assume "load_from from_toml fs p = Ok (Some c) \<and> loaded = Some p \<and> skipped' = skipped"
      then show ?thesis by (intro disjI1 exI [of _ "[]"] exI [of _ p] exI [of _ ps]) simp
    next
      assume "\<exists>sk'. passed_over from_toml fs skip p \<and> search from_toml fs skip ps sk' = Ok (c, loaded, skipped')
              \<and> set sk' \<subseteq> insert p (set skipped) \<and> (\<not> skip \<longrightarrow> sk' = skipped)"
      then obtain sk' where o: "passed_over from_toml fs skip p" and s: "search from_toml fs skip ps sk' = Ok (c, loaded, skipped')" by blast
      from Cons.IH(1) [OF s] show ?thesis
      proof
        assume "\<exists>pre p' post. ps = pre @ p' # post \<and> loaded = Some p' \<and> load_from from_toml fs p' = Ok (Some c)
             \<and> (\<forall>q\<in>set pre. passed_over from_toml fs skip q)"
        then obtain pre p' post where "ps = pre @ p' # post" "loaded = Some p'" "load_from from_toml fs p' = Ok (Some c)"
          "\<forall>q\<in>set pre. passed_over from_toml fs skip q" by blast
        then show ?thesis using o by (intro disjI1 exI [of _ "p # pre"] exI [of _ p'] exI [of _ post]) simp
      qed (use o in simp)
    qed
  next
    case 2
    from step [OF 2] Cons.IH(2) show ?case by fastforce
  next
    case 3
    from step [OF 3] Cons.IH(3) show ?case by blast
  }
qed

section \<open>Properties\<close>

text \<open>C24: a configuration that holds a pre-shared key was read from a file that only its owner can access, whether it was
  named explicitly or found; configurations are never merged: the one used is that of the named file or of the first
  candidate that is there, and a server (which may not skip unreadable files) is never started on defaults
  while a candidate exists.\<close>

theorem config_is_trustworthy:
  assumes "resolve from_toml fs explicit candidates skip = Ok (c, loaded, skipped)"
  shows "(cd_psk (cf_client c) \<noteq> None \<or> sx_psk (cf_server c) \<noteq> None \<longrightarrow>
            (\<exists>p file md. loaded = Some p \<and> fs_open fs p = Ok file \<and> ch_metadata file = Ok md \<and> require_owner_only_permissions md = Ok ()))
    \<and> (case loaded of
         Some p \<Rightarrow> load_from from_toml fs p = Ok (Some c) \<and>
           (case explicit of
              Some (q, _) \<Rightarrow> p = q
            | None \<Rightarrow> \<exists>pre post. candidates = pre @ p # post \<and> (\<forall>q\<in>set pre. passed_over from_toml fs skip q))
       | None \<Rightarrow> c = Config_default \<and> (skip \<or> (\<forall>p\<in>set candidates. fs_open fs p = Err NotFound)))"
proof -
  have nf: "fs_open fs p = Err NotFound" if "load_from from_toml fs p = Ok None" for p
    using that by (auto simp: load_from_def split: sum.splits option.splits io_kind.splits if_splits)
  have d: "cd_psk (cf_client Config_default) = None" "sx_psk (cf_server Config_default) = None" by (simp_all add: Config_default_def)
  show ?thesis
  proof (cases explicit)
    case (Some e)
    then obtain q src where e: "explicit = Some (q, src)" by (cases e) auto
    with assms have "load_from from_toml fs q = Ok (Some c)" "loaded = Some q"
      by (auto simp: resolve_def split: sum.splits option.splits)
    then show ?thesis using load_from_keeps_secrets e by fastforce
  next
    case None
    then have s: "search from_toml fs skip candidates [] = Ok (c, loaded, skipped)" using assms by (simp add: resolve_def)
    from search_Ok(1) [OF s] show ?thesis
    proof
      assume "\<exists>pre p post. candidates = pre @ p # post \<and> loaded = Some p \<and> load_from from_toml fs p = Ok (Some c)
             \<and> (\<forall>q\<in>set pre. passed_over from_toml fs skip q)"
      then show ?thesis using None load_from_keeps_secrets by fastforce
    next
      assume "loaded = None \<and> c = Config_default \<and> (\<forall>q\<in>set candidates. passed_over from_toml fs skip q)"
      then show ?thesis using d nf by (auto simp: passed_over_def)
    qed
  qed
qed

definition sample_fs :: file_system where
  "sample_fs = \<lparr>fs_open = (\<lambda>p. if p = [''system''] then Ok \<lparr>ch_metadata = Ok \<lparr>md_mode = 384, md_uid = 0, md_is_file = True\<rparr>, ch_content = Ok ''k''\<rparr> else Err NotFound),
     fs_is_symlink = (\<lambda>_. False), fs_exists = (\<lambda>_. False)\<rparr>"

definition sample_toml :: "string \<Rightarrow> Config option" where
  "sample_toml s = Some (Config_default\<lparr>cf_server := (cf_server Config_default)\<lparr>sx_psk := Some s\<rparr>\<rparr>)"

theorem config_is_trustworthy_witness:
  "\<exists>c. resolve sample_toml sample_fs None [[''user''], [''system'']] False = Ok (c, Some [''system''], [])
     \<and> sx_psk (cf_server c) = Some ''k''
     \<and> load_from sample_toml sample_fs [''system''] = Ok (Some c)"
proof -
  have p: "require_owner_only_permissions \<lparr>md_mode = 384, md_uid = 0, md_is_file = True\<rparr> = Ok ()"
    by (simp add: require_owner_only_permissions_def)
  have u: "load_from sample_toml sample_fs [''user''] = Ok None" by (simp add: load_from_def sample_fs_def ancestors_def)
  have l: "load_from sample_toml sample_fs [''system''] = Ok (sample_toml ''k'')"
    using p by (simp add: load_from_def sample_fs_def sample_toml_def)
  have "\<exists>c. resolve sample_toml sample_fs None [[''user''], [''system'']] False = Ok (c, Some [''system''], []) \<and> sx_psk (cf_server c) = Some ''k''"
    by (simp add: resolve_def u l) (simp add: sample_toml_def)
  then obtain c where c: "resolve sample_toml sample_fs None [[''user''], [''system'']] False = Ok (c, Some [''system''], [])"
    "sx_psk (cf_server c) = Some ''k''" by blast
  from config_is_trustworthy [OF c(1)] c show ?thesis by auto
qed

end
