(* ===== verification/Persistence.thy ===== *)
theory Persistence
  imports Config_File
begin

unbundle bit_operations_syntax

text \<open>
  Saving files without truncating the previous one, \<open>src/persistence.rs\<close>, and its use by \<open>save\<close> of \<open>src/prefs.rs\<close>. The file system
  is a store from paths to nodes, with what of it has reached the disk. A save is the list of stores that another process may find while
  it runs, with the store and the answer at its end; the answers of the kernel to each call are arguments. What a reboot may find
  after a crash in one of these stores is \<open>crash_finds\<close>.
\<close>

section \<open>The file system\<close>

datatype save_kind = NoSuchPath | NotADirectory | IsADirectory | AccessDenied | ReadOnlyFilesystem | OtherKind string

datatype file_type = Directory | Special | Regular

text \<open>\<open>nd_open\<close> is why the file cannot be opened for writing, if it cannot; \<open>nd_synced\<close> that contents and mode are on the disk, not
  only in the cache of the kernel.\<close>

record file_node =
  nd_type :: file_type
  nd_content :: bytes
  nd_mode :: u32
  nd_open :: "save_kind option"
  nd_synced :: bool

text \<open>\<open>dk_nodes\<close> has the nodes the process can look up, \<open>dk_entries\<close> the directory entries as they are on the disk, \<open>dk_links\<close> the
  symbolic links with the path they resolve to, \<open>dk_stat\<close> why the lookup of another path fails where it is not that nothing is there.\<close>

record disk =
  dk_nodes :: "path \<rightharpoonup> file_node"
  dk_entries :: "path \<rightharpoonup> file_node"
  dk_links :: "path \<rightharpoonup> path"
  dk_stat :: "path \<rightharpoonup> save_kind"

definition resolved :: "disk \<Rightarrow> path \<Rightarrow> path" where
  "resolved d p = (case dk_links d p of Some target \<Rightarrow> target | None \<Rightarrow> p)"

definition metadata :: "disk \<Rightarrow> path \<Rightarrow> save_kind + file_node" where
  "metadata d p =
     (case dk_nodes d (resolved d p) of
        Some n \<Rightarrow> Ok n
      | None \<Rightarrow> Err (case dk_stat d p of Some k \<Rightarrow> k | None \<Rightarrow> NoSuchPath))"

text \<open>After a crash a path has the entry that the kernel had in its cache or the one on the disk, whichever was written back, and a
  file that was not synced has any contents and mode.\<close>

definition written_back :: "file_node option \<Rightarrow> file_node option \<Rightarrow> bool" where
  "written_back entry found =
     (case entry of
        None \<Rightarrow> found = None
      | Some n \<Rightarrow> (case found of None \<Rightarrow> False | Some n' \<Rightarrow> if nd_synced n then n' = n else nd_type n' = nd_type n))"

definition crash_finds :: "disk \<Rightarrow> path \<Rightarrow> file_node option \<Rightarrow> bool" where
  "crash_finds d p found \<longleftrightarrow> written_back (dk_nodes d p) found \<or> written_back (dk_entries d p) found"

section \<open>Errors\<close>

text \<open>\<open>std_text\<close> is the standard library's wording of the other kinds.\<close>

datatype save_error = CannotSave path save_kind string | DanglingLink path | SaveIo save_kind

definition cannot_save_text :: "(path \<Rightarrow> string) \<Rightarrow> (save_kind \<Rightarrow> string) \<Rightarrow> path \<Rightarrow> save_kind \<Rightarrow> string \<Rightarrow> string" where
  "cannot_save_text show_path std_text p k subject =
     ''Cannot save to '' @ show_path p @ '': ''
     @ (case k of
          NoSuchPath \<Rightarrow> ''directory does not exist''
        | NotADirectory \<Rightarrow> ''parent is not a directory''
        | IsADirectory \<Rightarrow> ''is a directory''
        | AccessDenied \<Rightarrow> subject @ '' is not writable''
        | ReadOnlyFilesystem \<Rightarrow> ''file system is read-only''
        | OtherKind _ \<Rightarrow> std_text k)"

definition save_error_text :: "(path \<Rightarrow> string) \<Rightarrow> (save_kind \<Rightarrow> string) \<Rightarrow> save_error \<Rightarrow> string" where
  "save_error_text show_path std_text e =
     (case e of
        CannotSave p k subject \<Rightarrow> cannot_save_text show_path std_text p k subject
      | DanglingLink p \<Rightarrow> ''Cannot save to '' @ show_path p @ '': symlink target does not exist''
      | SaveIo k \<Rightarrow> std_text k)"

section \<open>Looking at the destination\<close>

datatype destination = SpecialFile | ExistingFile u32 | NewFile

text \<open>Unix: no write bit in the mode, \<open>0o222\<close>.\<close>

definition readonly_mode :: "u32 \<Rightarrow> bool" where
  "readonly_mode m = (m AND 0x92 = 0)"

definition inspect :: "disk \<Rightarrow> path \<Rightarrow> save_error + destination" where
  "inspect d p =
     (case metadata d p of
        Ok n \<Rightarrow>
          if nd_type n = Directory then Err (CannotSave p IsADirectory ''file'')
          else if nd_type n \<noteq> Regular then Ok SpecialFile
          else if readonly_mode (nd_mode n) then Err (CannotSave p AccessDenied ''file'')
          else (case nd_open n of
                  Some k \<Rightarrow> Err (CannotSave p k ''file'')
                | None \<Rightarrow> Ok (ExistingFile (nd_mode n)))
      | Err k \<Rightarrow>
          if k = NoSuchPath
          then (if dk_links d p \<noteq> None then Err (DanglingLink p) else Ok NewFile)
          else Err (CannotSave p k ''directory''))"

text \<open>A path is its components; \<open>[''.'']\<close> stands for an empty parent.\<close>

definition parent_dir :: "path \<Rightarrow> path" where
  "parent_dir p = (if butlast p = [] then [''.''] else butlast p)"

text \<open>\<open>access\<close>: why a directory cannot be written and searched, if it cannot.\<close>

definition check_destination :: "(path \<Rightarrow> save_kind option) \<Rightarrow> disk \<Rightarrow> path \<Rightarrow> save_error + unit" where
  "check_destination access d p =
     (case inspect d p of
        Err e \<Rightarrow> Err e
      | Ok NewFile \<Rightarrow>
          (case metadata d (parent_dir p) of
             Ok n \<Rightarrow> if nd_type n = Directory
                     then (case access (parent_dir p) of Some k \<Rightarrow> Err (CannotSave p k ''directory'') | None \<Rightarrow> Ok ())
                     else Err (CannotSave p NotADirectory ''directory'')
           | Err k \<Rightarrow> Err (CannotSave p k ''directory''))
      | Ok _ \<Rightarrow> Ok ())"

section \<open>Writing\<close>

text \<open>How the calls of one save go. \<open>sc_resolve\<close> is a failure to read or resolve a link at the path. A write that fails has put the
  given number of bytes into the file before. The umask is taken off the mode of a file when it is made.\<close>

record save_calls =
  sc_resolve :: "save_kind option"
  sc_temporary :: "save_kind + path"
  sc_umask :: u32
  sc_permissions :: "save_kind option"
  sc_write :: "(nat \<times> save_kind) option"
  sc_sync :: "save_kind option"
  sc_rename :: "save_kind option"
  sc_directory_sync :: "save_kind option"
  sc_truncate :: "save_kind option"

definition put_content :: "path \<Rightarrow> bytes \<Rightarrow> disk \<Rightarrow> disk" where
  "put_content p bs d = d\<lparr>dk_nodes := (dk_nodes d)(p := map_option (\<lambda>n. n\<lparr>nd_content := bs, nd_synced := False\<rparr>) (dk_nodes d p))\<rparr>"

definition create_file :: "path \<Rightarrow> u32 \<Rightarrow> disk \<Rightarrow> disk" where
  "create_file p mode d = d\<lparr>dk_nodes := (dk_nodes d)(p \<mapsto> \<lparr>nd_type = Regular, nd_content = [], nd_mode = mode, nd_open = None, nd_synced = False\<rparr>)\<rparr>"

definition set_permissions :: "path \<Rightarrow> u32 \<Rightarrow> disk \<Rightarrow> disk" where
  "set_permissions p mode d = d\<lparr>dk_nodes := (dk_nodes d)(p := map_option (\<lambda>n. n\<lparr>nd_mode := mode, nd_synced := False\<rparr>) (dk_nodes d p))\<rparr>"

text \<open>\<open>sync_all\<close> of a file and of a directory.\<close>

definition sync_file :: "path \<Rightarrow> disk \<Rightarrow> disk" where
  "sync_file p d = d\<lparr>dk_nodes := (dk_nodes d)(p := map_option (\<lambda>n. n\<lparr>nd_synced := True\<rparr>) (dk_nodes d p))\<rparr>"

definition sync_directory :: "path \<Rightarrow> disk \<Rightarrow> disk" where
  "sync_directory dir d = d\<lparr>dk_entries := (\<lambda>p. if parent_dir p = dir then dk_nodes d p else dk_entries d p)\<rparr>"

definition drop_file :: "path \<Rightarrow> disk \<Rightarrow> disk" where
  "drop_file p d = d\<lparr>dk_nodes := (dk_nodes d)(p := None)\<rparr>"

definition rename_file :: "path \<Rightarrow> path \<Rightarrow> disk \<Rightarrow> disk" where
  "rename_file source target d = d\<lparr>dk_nodes := (dk_nodes d)(target := dk_nodes d source, source := None)\<rparr>"

definition write_content :: "path \<Rightarrow> bytes \<Rightarrow> save_calls \<Rightarrow> disk \<Rightarrow> disk list \<times> (save_kind + disk)" where
  "write_content p bs calls d =
     (case sc_write calls of
        Some (n, k) \<Rightarrow> (map (\<lambda>i. put_content p (take i bs) d) [0..<Suc (min n (length bs))], Err k)
      | None \<Rightarrow> (map (\<lambda>i. put_content p (take i bs) d) [0..<Suc (length bs)], Ok (put_content p bs d)))"

text \<open>In place: truncate, then write. What was there is gone from the first of these stores on. A device has no contents to lose.\<close>

definition write_in_place :: "path \<Rightarrow> bytes \<Rightarrow> save_calls \<Rightarrow> disk \<Rightarrow> path \<Rightarrow> disk list \<times> disk \<times> (save_error + unit)" where
  "write_in_place p bs calls d shown =
     (case sc_truncate calls of
        Some k \<Rightarrow> ([d], d, Err (CannotSave shown k ''file''))
      | None \<Rightarrow>
          if (case dk_nodes d p of Some n \<Rightarrow> nd_type n = Special | None \<Rightarrow> False)
          then ([d], d, case sc_write calls of Some (n, k) \<Rightarrow> Err (SaveIo k) | None \<Rightarrow> Ok ())
          else (case write_content p bs calls d of
                  (ds, Err k) \<Rightarrow> (d # ds, last ds, Err (SaveIo k))
                | (ds, Ok d') \<Rightarrow> (d # ds, d', Ok ())))"

text \<open>Through a temporary file \<open>t\<close> in the directory of the target, made with the mode of the target or \<open>0o666\<close>. Dropping its handle
  removes it on every error. The file is synced before the rename; that the directory is synced after it is best effort.\<close>

definition write_temporary ::
  "path \<Rightarrow> path \<Rightarrow> path \<Rightarrow> u32 option \<Rightarrow> bytes \<Rightarrow> save_calls \<Rightarrow> disk \<Rightarrow> disk list \<times> disk \<times> (save_error + unit)" where
  "write_temporary shown t target mode bs calls d =
     (let made = create_file t ((case mode of Some m \<Rightarrow> m | None \<Rightarrow> 0x1B6) AND NOT (sc_umask calls)) d;
          ready = (case mode of Some m \<Rightarrow> set_permissions t m made | None \<Rightarrow> made);
          give_up = (\<lambda>seen here e. (seen @ [here, drop_file t here], drop_file t here, Err e))
      in case (if mode = None then None else sc_permissions calls) of
           Some k \<Rightarrow> give_up [d] made (SaveIo k)
         | None \<Rightarrow>
             (case write_content t bs calls ready of
                (ds, Err k) \<Rightarrow> give_up (d # made # ready # ds) (last ds) (SaveIo k)
              | (ds, Ok full) \<Rightarrow>
                  (case sc_sync calls of
                     Some k \<Rightarrow> give_up (d # made # ready # ds) full (SaveIo k)
                   | None \<Rightarrow>
                       (let safe = sync_file t full
                        in case sc_rename calls of
                          Some k \<Rightarrow> give_up (d # made # ready # ds @ [full]) safe (CannotSave shown k ''directory'')
                        | None \<Rightarrow>
                            (let saved = rename_file t target safe;
                                 lasting = (case sc_directory_sync calls of
                                              None \<Rightarrow> sync_directory (parent_dir target) saved | Some k \<Rightarrow> saved)
                             in (d # made # ready # ds @ [full, safe, saved, lasting], lasting, Ok ()))))))"

definition write_with :: "save_calls \<Rightarrow> disk \<Rightarrow> path \<Rightarrow> bytes \<Rightarrow> disk list \<times> disk \<times> (save_error + unit)" where
  "write_with calls d p bs =
     (case inspect d p of
        Err e \<Rightarrow> ([d], d, Err e)
      | Ok SpecialFile \<Rightarrow> write_in_place (resolved d p) bs calls d p
      | Ok dest \<Rightarrow>
          (let mode = (case dest of ExistingFile m \<Rightarrow> Some m | _ \<Rightarrow> None); target = resolved d p
           in case sc_resolve calls of
                Some k \<Rightarrow> ([d], d, Err (SaveIo k))
              | None \<Rightarrow>
                  (case sc_temporary calls of
                     Ok t \<Rightarrow> write_temporary p t target mode bs calls d
                   | Err k \<Rightarrow>
                       if k = AccessDenied \<and> mode \<noteq> None then write_in_place target bs calls d target
                       else ([d], d, Err (CannotSave p k ''directory'')))))"

definition atomic_write :: "save_calls \<Rightarrow> disk \<Rightarrow> path \<Rightarrow> bytes \<Rightarrow> disk list \<times> disk \<times> (save_error + unit)" where
  "atomic_write calls d p bs = write_with calls d p bs"

text \<open>\<open>Prefs::save\<close>: without a configuration directory there is nothing to save. \<open>make_dirs\<close> is \<open>create_dir_all\<close>.\<close>

definition prefs_save ::
  "(Prefs \<Rightarrow> string option) \<Rightarrow> (disk \<Rightarrow> path \<Rightarrow> save_kind + disk) \<Rightarrow> save_calls \<Rightarrow> path option \<Rightarrow> Prefs \<Rightarrow> disk
     \<Rightarrow> disk list \<times> disk \<times> (save_error + unit) option" where
  "prefs_save to_toml make_dirs calls config_dir prefs d =
     (case prefs_path config_dir of
        None \<Rightarrow> ([d], d, Some (Ok ()))
      | Some p \<Rightarrow>
          (case make_dirs d (butlast p) of
             Err k \<Rightarrow> ([d], d, Some (Err (SaveIo k)))
           | Ok d' \<Rightarrow>
               (case to_toml prefs of
                  None \<Rightarrow> ([d, d'], d', None)
                | Some s \<Rightarrow> (case atomic_write calls d' p (as_bytes s) of (ds, e, r) \<Rightarrow> (d # ds, e, Some r)))))"

text \<open>\<open>save_json\<close> of \<open>src/output/json.rs\<close>: a result that has no text is not saved.\<close>

definition save_json :: "('r \<Rightarrow> string + string) \<Rightarrow> save_calls \<Rightarrow> disk \<Rightarrow> 'r \<Rightarrow> path \<Rightarrow> disk list \<times> disk \<times> (string + save_error + unit)" where
  "save_json output_json calls d result p =
     (case output_json result of
        Err e \<Rightarrow> ([d], d, Err e)
      | Ok json \<Rightarrow> (case atomic_write calls d p (as_bytes json) of (ds, e, r) \<Rightarrow> (ds, e, Ok r)))"

end
