(* ===== verification/Persistence_Correct.thy ===== *)
theory Persistence_Correct
  imports Persistence
begin

text \<open>
  What a save leaves behind at every moment: through a temporary file the target holds its old contents or the new ones, never a part
  of them, for another process and, since the file is synced before it is renamed, after a crash.
\<close>

section \<open>Stores that differ at one path\<close>

definition same_but :: "path \<Rightarrow> disk \<Rightarrow> disk \<Rightarrow> bool" where
  "same_but t d d' \<longleftrightarrow> dk_entries d' = dk_entries d \<and> (\<forall>q. q \<noteq> t \<longrightarrow> dk_nodes d' q = dk_nodes d q)"

named_theorems store_rule

lemma same_but_refl [store_rule]: "same_but t d d"
  by (simp add: same_but_def)

lemma same_but_put [store_rule]: "same_but t d d' \<Longrightarrow> same_but t d (put_content t bs d')"
  by (simp add: same_but_def put_content_def)

lemma same_but_create [store_rule]: "same_but t d d' \<Longrightarrow> same_but t d (create_file t m d')"
  by (simp add: same_but_def create_file_def)

lemma same_but_permissions [store_rule]: "same_but t d d' \<Longrightarrow> same_but t d (set_permissions t m d')"
  by (simp add: same_but_def set_permissions_def)

lemma same_but_sync [store_rule]: "same_but t d d' \<Longrightarrow> same_but t d (sync_file t d')"
  by (simp add: same_but_def sync_file_def)

lemma same_but_drop [store_rule]: "same_but t d d' \<Longrightarrow> same_but t d (drop_file t d')"
  by (simp add: same_but_def drop_file_def)

lemma drop_undoes: "same_but t d d' \<Longrightarrow> dk_nodes d t = None \<Longrightarrow> dk_nodes (drop_file t d') = dk_nodes d"
  by (rule ext) (simp add: same_but_def drop_file_def)

lemma write_content_stores:
  assumes "same_but t d d0" "write_content t bs calls d0 = (ds, r)"
  shows "list_all (same_but t d) ds" "ds \<noteq> []" "\<And>d'. r = Ok d' \<Longrightarrow> d' = put_content t bs d0"
  using assms by (auto simp: write_content_def list_all_iff store_rule split: option.splits)

definition intact :: "path \<Rightarrow> path \<Rightarrow> bytes \<Rightarrow> disk \<Rightarrow> disk \<Rightarrow> bool" where
  "intact t target bs d d' \<longleftrightarrow>
     (\<forall>q. q \<noteq> t \<longrightarrow> q \<noteq> target \<longrightarrow> dk_nodes d' q = dk_nodes d q)
     \<and> (dk_nodes d' target = dk_nodes d target \<or> map_option nd_content (dk_nodes d' target) = Some bs)
     \<and> (\<forall>q found. crash_finds d' q found \<longrightarrow> q \<noteq> t \<longrightarrow>
          crash_finds d q found \<or> q = target \<and> map_option nd_content found = Some bs)"

lemma same_but_intact: "same_but t d d' \<Longrightarrow> t \<noteq> target \<Longrightarrow> intact t target bs d d'"
  by (auto simp: same_but_def intact_def crash_finds_def)

text \<open>A synced node at the target, with the entries of the disk as they were or as the process sees them.\<close>

lemma intact_saved:
  assumes "dk_nodes d' = (dk_nodes d)(target \<mapsto> n)" "nd_content n = bs" "nd_synced n"
    and "\<And>q. dk_entries d' q = dk_entries d q \<or> dk_entries d' q = dk_nodes d' q"
  shows "intact t target bs d d'"
proof -
  have "crash_finds d q found \<or> q = target \<and> map_option nd_content found = Some bs" if "crash_finds d' q found" for q found
  proof -
    have "written_back (dk_nodes d' q) found \<or> written_back (dk_entries d q) found"
      using that assms(4) [of q] by (auto simp: crash_finds_def)
    then show ?thesis
      using assms(1-3) by (auto simp: crash_finds_def written_back_def split: option.splits if_splits)
  qed
  then show ?thesis using assms(1,2) by (simp add: intact_def)
qed

section \<open>The temporary file\<close>

text \<open>The state a save ends in: what it was on an error, the new contents under the old mode on success.\<close>

definition saved_node :: "u32 option \<Rightarrow> u32 \<Rightarrow> bytes \<Rightarrow> file_node" where
  "saved_node mode umask bs = \<lparr>nd_type = Regular, nd_content = bs,
     nd_mode = (case mode of Some m \<Rightarrow> m | None \<Rightarrow> 0x1B6 AND NOT umask), nd_open = None, nd_synced = True\<rparr>"

definition saved_or_unchanged :: "path \<Rightarrow> u32 option \<Rightarrow> u32 \<Rightarrow> bytes \<Rightarrow> disk \<Rightarrow> disk \<Rightarrow> save_error + unit \<Rightarrow> bool" where
  "saved_or_unchanged target mode umask bs d e r =
     (case r of
        Err _ \<Rightarrow> dk_nodes e = dk_nodes d
      | Ok _ \<Rightarrow> dk_nodes e = (dk_nodes d)(target \<mapsto> saved_node mode umask bs))"

definition ready_file :: "path \<Rightarrow> u32 option \<Rightarrow> u32 \<Rightarrow> disk \<Rightarrow> disk" where
  "ready_file t mode umask d =
     (case mode of
        Some m \<Rightarrow> set_permissions t m (create_file t (m AND NOT umask) d)
      | None \<Rightarrow> create_file t (0x1B6 AND NOT umask) d)"

lemma ready_same_but: "same_but t d (ready_file t mode umask d)"
  by (auto simp: ready_file_def store_rule split: option.splits)

text \<open>Once the directory is synced too, a crash finds the new file.\<close>

definition lasts_when_synced :: "save_calls \<Rightarrow> path \<Rightarrow> bytes \<Rightarrow> disk \<Rightarrow> save_error + unit \<Rightarrow> bool" where
  "lasts_when_synced calls target bs e r \<longleftrightarrow>
     (r = Ok () \<longrightarrow> sc_directory_sync calls = None \<longrightarrow>
        (\<forall>found. crash_finds e target found \<longrightarrow> map_option nd_content found = Some bs))"

lemma rename_ready:
  assumes "t \<noteq> target" "dk_nodes d t = None"
  shows "dk_nodes (rename_file t target (sync_file t (put_content t bs (ready_file t mode umask d))))
    = (dk_nodes d)(target \<mapsto> saved_node mode umask bs)"
  using assms by (cases mode)
    (auto simp: fun_eq_iff rename_file_def sync_file_def put_content_def ready_file_def create_file_def set_permissions_def saved_node_def)

lemma renamed_entries: "same_but t d d' \<Longrightarrow> dk_entries (rename_file t target d') = dk_entries d"
  by (simp add: same_but_def rename_file_def)

lemma sync_directory_fields:
  "dk_nodes (sync_directory dir d) = dk_nodes d"
  "parent_dir p = dir \<Longrightarrow> dk_entries (sync_directory dir d) p = dk_nodes d p"
  "dk_entries (sync_directory dir d) p = dk_entries d p \<or> dk_entries (sync_directory dir d) p = dk_nodes d p"
  by (simp_all add: sync_directory_def)

lemma write_temporary_atomic:
  assumes run: "write_temporary shown t target mode bs calls d = (ds, e, r)"
    and fresh: "t \<noteq> target" "dk_nodes d t = None"
  shows "list_all (intact t target bs d) ds" "saved_or_unchanged target mode (sc_umask calls) bs d e r" "last ds = e"
    "lasts_when_synced calls target bs e r"
proof -
  define made where "made = create_file t ((case mode of Some m \<Rightarrow> m | None \<Rightarrow> 0x1B6) AND NOT (sc_umask calls)) d"
  define ready where "ready = ready_file t mode (sc_umask calls) d"
  have ready: "(case mode of Some m \<Rightarrow> set_permissions t m made | None \<Rightarrow> made) = ready"
    by (simp add: ready_def ready_file_def made_def split: option.splits)
  have sames: "same_but t d d" "same_but t d made" "same_but t d ready"
    by (simp_all add: made_def ready_def ready_same_but store_rule)
  obtain seen w where w: "write_content t bs calls ready = (seen, w)" by fastforce
  note stores = write_content_stores [OF sames(3) w]
  have lasts: "same_but t d (last seen)"
    using stores(1,2) by (simp add: list_all_iff)
  have full: "same_but t d (put_content t bs ready)"
    by (rule same_but_put [OF sames(3)])
  have sints: "same_but t d x \<Longrightarrow> intact t target bs d x" for x
    by (rule same_but_intact) (use fresh in auto)
  have seens: "list_all (intact t target bs d) seen"
    using stores(1) sints by (auto simp: list_all_iff)
  define safe where "safe = sync_file t (put_content t bs ready)"
  have safe: "same_but t d safe" unfolding safe_def by (rule same_but_sync [OF full])
  define saved where "saved = rename_file t target safe"
  define lasting where "lasting = (case sc_directory_sync calls of
      None \<Rightarrow> sync_directory (parent_dir target) saved | Some k \<Rightarrow> saved)"
  have nodes: "dk_nodes saved = (dk_nodes d)(target \<mapsto> saved_node mode (sc_umask calls) bs)"
    unfolding saved_def safe_def ready_def by (rule rename_ready [OF fresh])
  have entries: "dk_entries saved = dk_entries d" unfolding saved_def by (rule renamed_entries [OF safe])
  have nodes': "dk_nodes lasting = dk_nodes saved"
    by (simp add: lasting_def sync_directory_fields split: option.split)
  have entries': "dk_entries lasting q = dk_entries d q \<or> dk_entries lasting q = dk_nodes lasting q" for q
    using sync_directory_fields(3) [of "parent_dir target" saved q] entries nodes'
    by (auto simp: lasting_def split: option.splits)
  have new: "intact t target bs d saved" "intact t target bs d lasting"
    by (rule intact_saved [OF nodes], simp_all add: saved_node_def entries)
      (rule intact_saved [OF nodes' [unfolded nodes]], simp_all add: saved_node_def entries')
  have stays: "lasts_when_synced calls target bs lasting (Ok ())"
    by (auto simp: lasts_when_synced_def crash_finds_def nodes' nodes written_back_def lasting_def sync_directory_fields saved_node_def
        split: option.splits)
  note ints = sints [OF sames(1)] sints [OF sames(2)] sints [OF sames(3)] sints [OF lasts] sints [OF full] sints [OF safe]
    sints [OF same_but_drop [OF sames(2)]] sints [OF same_but_drop [OF lasts]] sints [OF same_but_drop [OF full]]
    sints [OF same_but_drop [OF safe]] new
  note drops = drop_undoes [OF sames(2) fresh(2)] drop_undoes [OF lasts fresh(2)] drop_undoes [OF full fresh(2)]
    drop_undoes [OF safe fresh(2)]
  have failed: "lasts_when_synced calls target bs x (Inl err)" "sc_directory_sync calls = Some k \<Longrightarrow> lasts_when_synced calls target bs x r"
    for x err k by (simp_all add: lasts_when_synced_def)
  have synced: "sc_directory_sync calls = None \<Longrightarrow> sync_directory (parent_dir target) saved = lasting"
    "sc_directory_sync calls = Some k \<Longrightarrow> lasting = saved" for k by (simp_all add: lasting_def)
  note eq = run [unfolded write_temporary_def Let_def, folded made_def, unfolded ready w]
  have out: "w = Ok d' \<Longrightarrow> d' = put_content t bs ready" for d' by (rule stores(3))
  show "list_all (intact t target bs d) ds" "saved_or_unchanged target mode (sc_umask calls) bs d e r" "last ds = e"
    "lasts_when_synced calls target bs e r"
    using eq out seens ints drops nodes nodes' stays failed synced
    by (auto simp: saved_or_unchanged_def simp flip: safe_def saved_def split: option.splits sum.splits if_splits)
qed

section \<open>The whole save\<close>

lemma write_with_atomic:
  assumes run: "write_with calls d p bs = (ds, e, r)" and fresh: "sc_temporary calls = Ok t" "t \<noteq> resolved d p" "dk_nodes d t = None"
    and regular: "inspect d p \<noteq> Ok SpecialFile"
  shows "list_all (intact t (resolved d p) bs d) ds \<and> last ds = e
         \<and> saved_or_unchanged (resolved d p) (case inspect d p of Ok (ExistingFile m) \<Rightarrow> Some m | _ \<Rightarrow> None) (sc_umask calls) bs d e r
         \<and> lasts_when_synced calls (resolved d p) bs e r"
proof -
  have trivial: "list_all (intact t q bs d) [d]" for q
    by (simp add: intact_def)
  show ?thesis
  proof (cases "inspect d p")
    case (Inl x)
    then show ?thesis using run trivial by (auto simp: write_with_def saved_or_unchanged_def lasts_when_synced_def)
  next
    case (Inr dest)
    show ?thesis
    proof (cases "sc_resolve calls")
      case None
      have "write_temporary p t (resolved d p) (case inspect d p of Ok (ExistingFile m) \<Rightarrow> Some m | _ \<Rightarrow> None) bs calls d = (ds, e, r)"
        using run None Inr fresh regular by (cases dest) (auto simp: write_with_def)
      from write_temporary_atomic [OF this fresh(2,3)] show ?thesis by simp
    next
      case (Some k)
      then show ?thesis using run Inr regular trivial by (cases dest) (auto simp: write_with_def saved_or_unchanged_def lasts_when_synced_def)
    qed
  qed
qed

text \<open>The mode of a replaced file is the one it had.\<close>

lemma inspect_mode:
  assumes "inspect d p = Ok dest" "dest \<noteq> SpecialFile"
  shows "(case inspect d p of Ok (ExistingFile m) \<Rightarrow> Some m | _ \<Rightarrow> None) = map_option nd_mode (dk_nodes d (resolved d p))"
  using assms by (auto simp: inspect_def metadata_def split: if_splits option.splits sum.splits)

section \<open>Agreement with the check before a test\<close>

text \<open>An error of the inspection is the error of the check and of the save, which then touches nothing.\<close>

lemma check_predicts_save:
  "inspect d p = Err e \<Longrightarrow> check_destination access d p = Err e \<and> atomic_write calls d p bs = ([d], d, Err e)"
  by (simp add: check_destination_def atomic_write_def write_with_def)

lemma existing_file_passes: "inspect d p = Ok (ExistingFile m) \<Longrightarrow> check_destination access d p = Ok ()"
  by (simp add: check_destination_def)

text \<open>A new file in a directory the check accepts is saved when no call fails, and so is a file that is there.\<close>

lemma save_succeeds:
  assumes "check_destination access d p = Ok ()" "inspect d p \<noteq> Ok SpecialFile" "sc_temporary calls = Ok t"
    and "sc_resolve calls = None" "sc_permissions calls = None" "sc_write calls = None" "sc_sync calls = None" "sc_rename calls = None"
  shows "snd (snd (atomic_write calls d p bs)) = Ok ()"
  using assms
  by (cases "inspect d p")
    (auto simp: check_destination_def atomic_write_def write_with_def write_temporary_def write_content_def Let_def
      split: destination.splits option.splits)

section \<open>The property\<close>

text \<open>C40: A save through a temporary file is atomic. At every moment another process finds at the target its old contents or all of the
  new ones, and no other file changed but the temporary one. A crash at any moment, after which files that were not synced hold anything
  and directory entries are the old or the new ones, leaves at every path but the temporary one what a crash before the save could have
  left, or at the target all of the new contents; these alone once the save has succeeded and the directory was synced. An error leaves
  every file as it was and no temporary file; a success leaves the new contents under the mode that the target had (or the one the umask
  gives to a new file). Excluded are devices, which are written in place, and a temporary file that is there already.\<close>

lemma save_is_atomic:
  assumes "atomic_write calls d p bs = (ds, e, r)" "sc_temporary calls = Inr t" "t \<noteq> resolved d p" "dk_nodes d t = None"
    and "inspect d p \<noteq> Inr SpecialFile"
  shows "(\<forall>d'\<in>set ds. (\<forall>q. q \<noteq> t \<and> q \<noteq> resolved d p \<longrightarrow> dk_nodes d' q = dk_nodes d q)
            \<and> (dk_nodes d' (resolved d p) = dk_nodes d (resolved d p)
               \<or> map_option nd_content (dk_nodes d' (resolved d p)) = Some bs)
            \<and> (\<forall>q found. crash_finds d' q found \<longrightarrow> q \<noteq> t \<longrightarrow>
                 crash_finds d q found \<or> q = resolved d p \<and> map_option nd_content found = Some bs))
         \<and> last ds = e
         \<and> (case r of
              Inl _ \<Rightarrow> dk_nodes e = dk_nodes d
            | Inr _ \<Rightarrow> dk_nodes e = (dk_nodes d)(resolved d p \<mapsto>
                \<lparr>nd_type = Regular, nd_content = bs,
                 nd_mode = (case dk_nodes d (resolved d p) of Some n \<Rightarrow> nd_mode n | None \<Rightarrow> 0x1B6 AND NOT (sc_umask calls)),
                 nd_open = None, nd_synced = True\<rparr>)
              \<and> (sc_directory_sync calls = None \<longrightarrow>
                   (\<forall>found. crash_finds e (resolved d p) found \<longrightarrow> map_option nd_content found = Some bs)))"
proof -
  note run = write_with_atomic [OF assms(1) [unfolded atomic_write_def] assms(2-5)]
  have "r = Inr u \<Longrightarrow> \<exists>dest. inspect d p = Ok dest \<and> dest \<noteq> SpecialFile" for u
    using assms(1,5) by (auto simp: atomic_write_def write_with_def split: sum.splits)
  then have "r = Inr u \<Longrightarrow> (case inspect d p of Ok (ExistingFile m) \<Rightarrow> Some m | _ \<Rightarrow> None) = map_option nd_mode (dk_nodes d (resolved d p))"
    for u using inspect_mode by blast
  with run show ?thesis
    by (auto simp: list_all_iff intact_def saved_or_unchanged_def saved_node_def lasts_when_synced_def split: sum.splits option.splits)
qed

definition sample_disk :: disk where
  "sample_disk = \<lparr>dk_nodes = [[''r.json''] \<mapsto> \<lparr>nd_type = Regular, nd_content = [1, 2, 3], nd_mode = 0x1A4, nd_open = None, nd_synced = True\<rparr>],
     dk_entries = [[''r.json''] \<mapsto> \<lparr>nd_type = Regular, nd_content = [1, 2, 3], nd_mode = 0x1A4, nd_open = None, nd_synced = True\<rparr>],
     dk_links = Map.empty, dk_stat = Map.empty\<rparr>"

definition sample_calls :: save_calls where
  "sample_calls = \<lparr>sc_resolve = None, sc_temporary = Ok [''.xfr-1''], sc_umask = 0x12, sc_permissions = None,
     sc_write = Some (1, OtherKind ''no space''), sc_sync = None, sc_rename = None, sc_directory_sync = None, sc_truncate = None\<rparr>"

lemma sample_inspect: "inspect sample_disk [''r.json''] = Inr (ExistingFile 0x1A4)" "resolved sample_disk [''r.json''] = [''r.json'']"
  by (simp_all add: inspect_def metadata_def resolved_def sample_disk_def readonly_mode_def)

text \<open>A disk that fills up after one byte: the previous file stays.\<close>

lemma save_is_atomic_witness:
  "\<exists>ds e. atomic_write sample_calls sample_disk [''r.json''] [7, 8] = (ds, e, Inl (SaveIo (OtherKind ''no space'')))
     \<and> length ds = 7 \<and> dk_nodes e = dk_nodes sample_disk"
proof -
  obtain ds e r where run: "atomic_write sample_calls sample_disk [''r.json''] [7, 8] = (ds, e, r)"
    by (cases "atomic_write sample_calls sample_disk [''r.json''] [7, 8]") auto
  then have shape: "r = Inl (SaveIo (OtherKind ''no space''))" "length ds = 7"
    by (auto simp: atomic_write_def write_with_def sample_inspect write_temporary_def write_content_def sample_calls_def Let_def)
  have "dk_nodes e = dk_nodes sample_disk"
    using save_is_atomic [OF run, of "[''.xfr-1'']"] shape
    by (simp add: sample_inspect) (simp add: sample_disk_def sample_calls_def)
  with run shape show ?thesis by blast
qed

end
