(* ===== verification/Client_Run.thy ===== *)
theory Client_Run
  imports Handshake Reporting
begin

text \<open>
  The client during a test, of \<open>client.rs\<close>: the measurements it takes itself for UDP downloads, the filter that keeps
  the packet counts from going back, the control reader, the control loop of \<open>run_test\<close> with its
  pause-aware clocks, and the corrections of the final result. The statistics change while the loop runs:
  an event that reads them carries the snapshot it reads.
\<close>

section \<open>Time limits\<close>

definition STREAM_JOIN_TIMEOUT_BASE :: duration where "STREAM_JOIN_TIMEOUT_BASE = 2000000000"
definition STREAM_JOIN_TIMEOUT_PER_STREAM_MS :: u64 where "STREAM_JOIN_TIMEOUT_PER_STREAM_MS = 50"
definition SINGLE_PORT_HANDSHAKE_FANOUT_MAX :: nat where "SINGLE_PORT_HANDSHAKE_FANOUT_MAX = 16"
definition CONTROL_CANCEL_RESULT_TIMEOUT :: duration where "CONTROL_CANCEL_RESULT_TIMEOUT = 3000000000"

definition stream_join_timeout :: "u8 \<Rightarrow> duration" where
  "stream_join_timeout streams =
     (let scaled = unat (saturating_mul (ucast streams) STREAM_JOIN_TIMEOUT_PER_STREAM_MS) * 1000000
      in if STREAM_JOIN_TIMEOUT_BASE < scaled then scaled else STREAM_JOIN_TIMEOUT_BASE)"

definition single_port_handshake_parallelism :: "u8 \<Rightarrow> nat" where
  "single_port_handshake_parallelism streams = max 1 (min (unat streams) SINGLE_PORT_HANDSHAKE_FANOUT_MAX)"

definition local_stop_deadline :: "instant \<Rightarrow> duration \<Rightarrow> instant option" where
  "local_stop_deadline start dur = (if dur = 0 then None else Some (start + dur))"

section \<open>Measurements of a UDP receiver\<close>

text \<open>The bytes of each stream since the last call, and the new baselines.\<close>

definition udp_recv_interval_deltas :: "TestStats \<Rightarrow> u64 list \<Rightarrow> (u64 \<times> u64 list) \<times> u64 list" where
  "udp_recv_interval_deltas stats last_recv =
     (let streams = tst_streams stats;
          deltas = map (\<lambda>(idx, s). saturating_sub (st_bytes_received s) (if idx < length last_recv then last_recv ! idx else 0))
                     (enumerate 0 streams);
          last_recv' = map (\<lambda>(idx, prev). if idx < length streams then st_bytes_received (streams ! idx) else prev)
                         (enumerate 0 last_recv)
      in ((sum_list deltas, deltas), last_recv'))"

definition local_udp_recv_intervals :: "u64 list \<Rightarrow> TestStats \<Rightarrow> StreamInterval list" where
  "local_udp_recv_intervals deltas stats =
     map (\<lambda>(id, b).
        let jitter = (if id < length (tst_streams stats) then Some (udp_jitter_ms (tst_streams stats ! id)) else None)
        in \<lparr>si_id = word_of_nat id, si_bytes = b, si_retransmits = None,
            si_jitter_ms = (case jitter of Some j \<Rightarrow> if 0 < j then Some j else None | None \<Rightarrow> None),
            si_lost = None, si_error = None, si_rtt_us = None, si_cwnd = None, si_bytes_sent = None, si_bytes_received = None,
            si_throughput_send_mbps = None, si_throughput_recv_mbps = None\<rparr>)
       (enumerate 0 deltas)"

definition add_progress :: "UdpIntervalProgress \<Rightarrow> UdpIntervalProgress \<Rightarrow> UdpIntervalProgress" where
  "add_progress acc p = \<lparr>up_packets_received = saturating_add (up_packets_received acc) (up_packets_received p),
     up_packets_lost = saturating_add (up_packets_lost acc) (up_packets_lost p)\<rparr>"

definition zero_progress :: UdpIntervalProgress where
  "zero_progress = \<lparr>up_packets_received = 0, up_packets_lost = 0\<rparr>"

definition udp_local_progress :: "TestStats \<Rightarrow> UdpIntervalProgress" where
  "udp_local_progress stats = foldl (\<lambda>acc s. add_progress acc (udp_progress_snapshot s)) zero_progress (tst_streams stats)"

definition udp_local_direction_progress :: "TestStats \<Rightarrow> UdpDirectionProgress option" where
  "udp_local_direction_progress stats =
     (let progress = udp_local_progress stats
      in if up_packets_received progress = 0 \<and> up_packets_lost progress = 0 then None
         else (let jitters = map udp_jitter_ms
                     (filter (\<lambda>s. 0 < up_packets_received (udp_progress_snapshot s)) (tst_streams stats))
               in Some \<lparr>udp_progress_counts = progress,
                        udp_progress_jitter_ms = (if jitters \<noteq> [] then Some (sum_list jitters / real (length jitters)) else None)\<rparr>))"

definition overlay_udp_bidir_interval :: "u64 list \<Rightarrow> f64 \<Rightarrow> StreamInterval \<Rightarrow> StreamInterval" where
  "overlay_udp_bidir_interval received duration_secs s =
     (if unat (si_id s) < length received
      then (let b = received ! unat (si_id s)
            in s\<lparr>si_bytes_received := Some b,
                 si_throughput_recv_mbps := Some (if 0 < duration_secs then u64_as_f64 b * 8 / duration_secs / 1000000 else 0),
                 si_bytes := (case si_bytes_sent s of Some sent \<Rightarrow> saturating_add sent b | None \<Rightarrow> si_bytes s)\<rparr>)
      else s)"

definition overlay_udp_bidir_intervals :: "StreamInterval list \<Rightarrow> u64 list \<Rightarrow> f64 \<Rightarrow> StreamInterval list" where
  "overlay_udp_bidir_intervals streams received duration_secs = map (overlay_udp_bidir_interval received duration_secs) streams"

section \<open>Corrections of the result\<close>

definition result_mbps :: "u64 \<Rightarrow> u64 \<Rightarrow> f64" where
  "result_mbps dur_ms b =
     (if 0 < dur_ms then (u64_as_f64 b * 8) / (u64_as_f64 dur_ms / 1000) / 1000000 else 0)"

definition overlay_udp_download_result :: "TestResult \<Rightarrow> TestStats \<Rightarrow> TestResult" where
  "overlay_udp_download_result result stats =
     (let mbps = result_mbps (tr_duration_ms result); received = total_bytes_received stats
      in result\<lparr>tr_bytes_total := received, tr_throughput_mbps := mbps received,
           tr_streams := map (\<lambda>s. if unat (str_id s) < length (tst_streams stats)
                                  then (let b = st_bytes_received (tst_streams stats ! unat (str_id s))
                                        in s\<lparr>str_bytes := b, str_throughput_mbps := mbps b\<rparr>)
                                  else s) (tr_streams result),
           tr_udp_stats := (case tr_udp_stats result of None \<Rightarrow> aggregate_udp_stats stats | u \<Rightarrow> u)\<rparr>)"

definition observed_stats :: "UdpStats option \<Rightarrow> UdpStats option" where
  "observed_stats u = (case u of Some s \<Rightarrow> if 0 < us_packets_received s \<or> 0 < us_lost s then Some s else None | None \<Rightarrow> None)"

definition overlay_udp_bidir_stream :: "(u64 \<Rightarrow> f64) \<Rightarrow> TestStats \<Rightarrow> StreamResult \<Rightarrow> StreamResult" where
  "overlay_udp_bidir_stream mbps stats s =
     (if unat (str_id s) < length (tst_streams stats)
      then (let b = st_bytes_received (tst_streams stats ! unat (str_id s));
                s = s\<lparr>str_bytes_received := Some b, str_throughput_recv_mbps := Some (mbps b)\<rparr>
            in case str_bytes_sent s of
                 Some sent \<Rightarrow> s\<lparr>str_bytes := saturating_add sent b, str_throughput_mbps := mbps (saturating_add sent b)\<rparr>
               | None \<Rightarrow> s)
      else s)"

definition overlay_udp_bidir_result :: "TestResult \<Rightarrow> TestStats \<Rightarrow> TestResult" where
  "overlay_udp_bidir_result result stats =
     (let mbps = result_mbps (tr_duration_ms result); received = total_bytes_received stats;
          result = result\<lparr>tr_udp_stats_send := (case observed_stats (tr_udp_stats_send result) of
                                                   None \<Rightarrow> observed_stats (tr_udp_stats result) | u \<Rightarrow> u),
                          tr_udp_stats_recv := aggregate_udp_receiver_stats stats,
                          tr_bytes_received := Some received, tr_throughput_recv_mbps := Some (mbps received)\<rparr>;
          result = (case tr_bytes_sent result of
                      Some sent \<Rightarrow> result\<lparr>tr_bytes_total := sent + received, tr_throughput_mbps := mbps (sent + received)\<rparr>
                    | None \<Rightarrow> result)
      in result\<lparr>tr_streams := map (overlay_udp_bidir_stream mbps stats) (tr_streams result)\<rparr>)"

section \<open>Progress and its filter\<close>

record TestProgress =
  tp_elapsed_ms :: u64
  tp_total_bytes :: u64
  tp_throughput_mbps :: f64
  tp_streams :: "StreamInterval list"
  tp_rtt_us :: "u32 option"
  tp_cwnd :: "u32 option"
  tp_total_retransmits :: "u64 option"
  tp_bytes_sent :: "u64 option"
  tp_bytes_received :: "u64 option"
  tp_throughput_send_mbps :: "f64 option"
  tp_throughput_recv_mbps :: "f64 option"
  tp_udp_progress :: "UdpIntervalProgress option"
  tp_udp_feedback_only :: bool
  tp_udp_send :: "UdpDirectionProgress option"
  tp_udp_recv :: "UdpDirectionProgress option"

definition feedback_progress :: "u64 \<Rightarrow> TestProgress" where
  "feedback_progress elapsed_ms = \<lparr>tp_elapsed_ms = elapsed_ms, tp_total_bytes = 0, tp_throughput_mbps = 0, tp_streams = [],
     tp_rtt_us = None, tp_cwnd = None, tp_total_retransmits = None, tp_bytes_sent = None, tp_bytes_received = None,
     tp_throughput_send_mbps = None, tp_throughput_recv_mbps = None, tp_udp_progress = None, tp_udp_feedback_only = True,
     tp_udp_send = None, tp_udp_recv = None\<rparr>"

type_synonym UdpProgressFilter = "UdpIntervalProgress option"

definition filter_apply :: "UdpProgressFilter \<Rightarrow> UdpIntervalProgress \<Rightarrow> UdpIntervalProgress option \<times> UdpProgressFilter" where
  "filter_apply latest progress =
     (if (case latest of Some previous \<Rightarrow> \<not> is_at_least_as_fresh_as progress previous | None \<Rightarrow> False)
      then (None, latest) else (Some progress, Some progress))"

text \<open>One tick of the feedback consumer: what it sends, if anything, and the filter.\<close>

definition feedback_tick :: "UdpIntervalProgress list \<Rightarrow> u64 \<Rightarrow> UdpProgressFilter \<Rightarrow> TestProgress option \<times> UdpProgressFilter" where
  "feedback_tick slots elapsed_ms filt =
     (let total = foldl add_progress zero_progress slots
      in if up_packets_received total = 0 \<and> up_packets_lost total = 0 then (None, filt)
         else (case filter_apply filt total of
                 (Some filtered, filt') \<Rightarrow> (Some ((feedback_progress elapsed_ms)\<lparr>tp_udp_progress := Some filtered\<rparr>), filt')
               | (None, filt') \<Rightarrow> (None, filt')))"

section \<open>The control reader\<close>

datatype run_error = ServerSaid string | ParseFailed | ReadError | NoResult | TimedOut

datatype ClientControlEvent = EvMessage ControlMessage | EvEof | EvError run_error

text \<open>What the reader task sends for the lines it reads (a failed read is \<open>None\<close>), until it ends.\<close>

fun client_control_reader :: "(string \<Rightarrow> ControlMessage option) \<Rightarrow> string option list \<Rightarrow> ClientControlEvent list" where
  "client_control_reader from_json [] = []"
| "client_control_reader from_json (None # ls) = [EvError ReadError]"
| "client_control_reader from_json (Some line # ls) =
     (if trim line = [] then [EvEof]
      else (case deserialize from_json (trim line) of
              Ok msg \<Rightarrow> EvMessage msg # client_control_reader from_json ls
            | Err e \<Rightarrow> [EvError ParseFailed]))"

section \<open>The control loop\<close>

record client_env =
  ce_config :: ClientConfig
  ce_test_id :: string
  ce_supports_pause :: bool
  ce_supports_udp_feedback :: bool
  ce_progress :: bool
  ce_progress_start :: instant

abbreviation ce_direction :: "client_env \<Rightarrow> Protocol.Direction" where "ce_direction e \<equiv> cl_direction (ce_config e)"

definition finish_on_budget :: "client_env \<Rightarrow> bool" where
  "finish_on_budget e = (cl_byte_budget (ce_config e) \<noteq> None \<and> ce_direction e \<noteq> Download)"

definition udp_download :: "client_env \<Rightarrow> bool" where
  "udp_download e = (cl_protocol (ce_config e) = Udp \<and> ce_direction e = Download)"

definition udp_bidir :: "client_env \<Rightarrow> bool" where
  "udp_bidir e = (cl_protocol (ce_config e) = Udp \<and> ce_direction e = Bidir)"

definition has_feedback_consumer :: "client_env \<Rightarrow> bool" where
  "has_feedback_consumer e =
     (cl_protocol (ce_config e) = Udp \<and> ce_direction e = Upload \<and> ce_supports_udp_feedback e \<and> ce_progress e)"

definition is_sender :: "client_env \<Rightarrow> bool" where
  "is_sender e = (ce_direction e = Upload \<or> ce_direction e = Bidir)"

text \<open>\<open>cr_stopped\<close> is the cancel channel of the data streams, \<open>cr_pauses\<close> what was sent on their pause channel,
  \<open>cr_sent\<close> the messages handed to the control writer, whose errors the loop ignores,
  \<open>cr_shown\<close> the progress updates in the order they were queued for the consumer. \<open>cr_busy\<close> is what the loop waits for inside a branch:
  a control write, with the instant at which it is given up if it has one, or room for an update; \<open>cr_feedback_pending\<close> is
  an update that the feedback consumer, a task of its own, has let through the filter and not queued yet.\<close>

datatype loop_busy = LoopIdle | LoopWriting "instant option" | LoopShowing TestProgress

record client_state =
  cr_deadline :: instant
  cr_local_end :: "instant option"
  cr_local_stop_sent :: bool
  cr_pause_started_at :: "instant option"
  cr_paused_total :: duration
  cr_finish_sent :: bool
  cr_cancel_request_open :: bool
  cr_pause_request_open :: bool
  cr_last_recv_bytes :: "u64 list"
  cr_last_recv_instant :: instant
  cr_filter :: UdpProgressFilter
  cr_stopped :: bool
  cr_pauses :: "bool list"
  cr_sent :: "ControlMessage list"
  cr_shown :: "TestProgress list"
  cr_busy :: loop_busy
  cr_feedback_pending :: "TestProgress option"

definition timeout_duration :: "client_env \<Rightarrow> duration" where
  "timeout_duration e =
     (if cl_duration (ce_config e) = 0 then 365 * 24 * 3600 * 1000000000 else cl_duration (ce_config e) + 30 * 1000000000)"

definition client_init :: "client_env \<Rightarrow> TestStats \<Rightarrow> instant \<Rightarrow> client_state" where
  "client_init e stats now = \<lparr>cr_deadline = now + timeout_duration e,
     cr_local_end = local_stop_deadline now (cl_duration (ce_config e)), cr_local_stop_sent = False,
     cr_pause_started_at = None, cr_paused_total = 0, cr_finish_sent = False, cr_cancel_request_open = True,
     cr_pause_request_open = True, cr_last_recv_bytes = replicate (length (tst_streams stats)) 0, cr_last_recv_instant = now,
     cr_filter = None, cr_stopped = False, cr_pauses = [], cr_sent = [], cr_shown = [],
     cr_busy = LoopIdle, cr_feedback_pending = None\<rparr>"

definition start_control_cancel_wait :: "instant \<Rightarrow> client_state \<Rightarrow> client_state" where
  "start_control_cancel_wait now st =
     st\<lparr>cr_deadline := now + CONTROL_CANCEL_RESULT_TIMEOUT, cr_pause_started_at := None\<rparr>"

text \<open>A message is handed to the writer, and the loop waits until it is written: for a cancel at most until the deadline, for the other
  messages as long as it takes.\<close>

definition start_write :: "instant option \<Rightarrow> ControlMessage \<Rightarrow> client_state \<Rightarrow> client_state" where
  "start_write limit msg st = st\<lparr>cr_sent := cr_sent st @ [msg], cr_busy := LoopWriting limit\<rparr>"

definition send_control_cancel :: "ControlMessage \<Rightarrow> instant \<Rightarrow> client_state \<Rightarrow> client_state" where
  "send_control_cancel msg now st =
     (let st = start_control_cancel_wait now st; st = st\<lparr>cr_stopped := True\<rparr>
      in start_write (Some (cr_deadline st)) msg st)"

text \<open>\<open>send_progress_until_cancelled\<close> waits for room in the consumer's queue, or for a request to cancel; \<open>show_progress\<close> is its end
  (or a \<open>try_send\<close>): the flag says whether the update went into the queue.\<close>

definition start_showing :: "TestProgress \<Rightarrow> client_state \<Rightarrow> client_state" where
  "start_showing p st = st\<lparr>cr_busy := LoopShowing p\<rparr>"

definition show_progress :: "bool \<Rightarrow> TestProgress \<Rightarrow> client_state \<Rightarrow> client_state" where
  "show_progress delivered p st = (if delivered then st\<lparr>cr_shown := cr_shown st @ [p]\<rparr> else st)"

definition interval_mbps :: "u64 \<Rightarrow> f64 \<Rightarrow> f64" where
  "interval_mbps b dt = (if 0 < dt then (u64_as_f64 b * 8) / dt / 1000000 else 0)"

text \<open>The download half of a bidirectional interval is replaced by what this end received: bytes and rate
  received, the totals, the streams, and the new state.\<close>

definition receive_half ::
  "client_env \<Rightarrow> instant \<Rightarrow> TestStats \<Rightarrow> StreamInterval list \<Rightarrow> AggregateInterval \<Rightarrow> client_state
     \<Rightarrow> (u64 option \<times> f64 option \<times> u64 \<times> f64) \<times> StreamInterval list \<times> client_state" where
  "receive_half e now stats streams aggregate st =
     (if udp_bidir e
      then (let dt = secs_f64 (now - cr_last_recv_instant st);
                ((interval_recv, deltas), last_recv) = udp_recv_interval_deltas stats (cr_last_recv_bytes st);
                recv_mbps = interval_mbps interval_recv dt;
                (total, total_mbps) = (case (ai_bytes_sent aggregate, ai_throughput_send_mbps aggregate) of
                   (Some sent, Some send_mbps) \<Rightarrow> (sent + interval_recv, send_mbps + recv_mbps)
                 | _ \<Rightarrow> (ai_bytes aggregate, ai_throughput_mbps aggregate))
            in ((Some interval_recv, Some recv_mbps, total, total_mbps), overlay_udp_bidir_intervals streams deltas dt,
                st\<lparr>cr_last_recv_instant := now, cr_last_recv_bytes := last_recv\<rparr>))
      else ((ai_bytes_received aggregate, ai_throughput_recv_mbps aggregate, ai_bytes aggregate, ai_throughput_mbps aggregate),
            streams, st))"

definition filter_option :: "UdpProgressFilter \<Rightarrow> UdpIntervalProgress option \<Rightarrow> UdpIntervalProgress option \<times> UdpProgressFilter" where
  "filter_option filt p = (case p of Some p \<Rightarrow> filter_apply filt p | None \<Rightarrow> (None, filt))"

definition client_interval ::
  "client_env \<Rightarrow> instant \<Rightarrow> TestStats \<Rightarrow> (int \<Rightarrow> TcpInfoSnapshot option) \<Rightarrow> u64 \<Rightarrow> StreamInterval list \<Rightarrow> AggregateInterval
     \<Rightarrow> client_state \<Rightarrow> client_state" where
  "client_interval e now stats tcp_info_of elapsed_ms streams aggregate st =
     (if udp_download e \<or> \<not> ce_progress e then st
      else (let remote = (ai_rtt_us aggregate, ai_cwnd aggregate, None);
                (rtt_us, cwnd, total_retransmits) =
                  (if is_sender e
                   then (case poll_local_tcp_info tcp_info_of stats of
                           Some (rtt, retrans, cw) \<Rightarrow> (Some rtt, Some cw, Some retrans) | None \<Rightarrow> remote)
                   else remote);
                ((bytes_received, recv_mbps, total_bytes, total_mbps), streams, st) = receive_half e now stats streams aggregate st;
                (filtered, filt) = filter_option (cr_filter st) (ai_udp_progress aggregate);
                st = st\<lparr>cr_filter := filt\<rparr>
            in start_showing
                 \<lparr>tp_elapsed_ms = elapsed_ms, tp_total_bytes = total_bytes, tp_throughput_mbps = total_mbps, tp_streams = streams,
                  tp_rtt_us = rtt_us, tp_cwnd = cwnd, tp_total_retransmits = total_retransmits,
                  tp_bytes_sent = ai_bytes_sent aggregate, tp_bytes_received = bytes_received,
                  tp_throughput_send_mbps = ai_throughput_send_mbps aggregate, tp_throughput_recv_mbps = recv_mbps,
                  tp_udp_progress = filtered, tp_udp_feedback_only = False,
                  tp_udp_send = (if udp_bidir e
                     then map_option (\<lambda>p. \<lparr>udp_progress_counts = p, udp_progress_jitter_ms = ai_jitter_ms aggregate\<rparr>) filtered
                     else None),
                  tp_udp_recv = (if udp_bidir e then udp_local_direction_progress stats else None)\<rparr> st))"

text \<open>A sender overlays its own TCP readings on the result.\<close>

definition client_result :: "client_env \<Rightarrow> TestStats \<Rightarrow> (int \<Rightarrow> TcpInfoSnapshot option) \<Rightarrow> TestResult \<Rightarrow> TestResult" where
  "client_result e stats tcp_info_of result =
     (if \<not> is_sender e then result
      else (let result = result\<lparr>tr_streams := map (\<lambda>(i, s).
                    case (if i < length (tst_streams stats) then final_tcp_info tcp_info_of (tst_streams stats ! i) else None) of
                      Some info \<Rightarrow> s\<lparr>str_retransmits := Some (ti_retransmits info)\<rparr> | None \<Rightarrow> s)
                  (enumerate 0 (tr_streams result))\<rparr>
            in case final_local_tcp_info tcp_info_of stats of
                 Some info \<Rightarrow> result\<lparr>tr_tcp_info := Some info\<rparr> | None \<Rightarrow> result))"

datatype client_step = ClRunning client_state | ClDone "run_error + TestResult" client_state

definition client_message ::
  "client_env \<Rightarrow> instant \<Rightarrow> TestStats \<Rightarrow> (int \<Rightarrow> TcpInfoSnapshot option) \<Rightarrow> ControlMessage \<Rightarrow> client_state \<Rightarrow> client_step" where
  "client_message e now stats tcp_info_of msg st =
     (case msg of
        Interval i elapsed_ms streams aggregate \<Rightarrow>
          ClRunning (client_interval e now stats tcp_info_of elapsed_ms streams aggregate st)
      | Result result \<Rightarrow> ClDone (Ok (client_result e stats tcp_info_of result)) st
      | Error message \<Rightarrow> ClDone (Err (ServerSaid message)) st
      | Cancelled i \<Rightarrow> ClRunning (start_control_cancel_wait now st)
      | _ \<Rightarrow> ClRunning st)"

definition client_pause :: "client_env \<Rightarrow> bool \<Rightarrow> instant \<Rightarrow> client_state \<Rightarrow> client_state" where
  "client_pause e paused now st =
     (let st = (if paused
                then (if cr_pause_started_at st = None then st\<lparr>cr_pause_started_at := Some now\<rparr> else st)
                else (case cr_pause_started_at st of
                        Some started \<Rightarrow>
                          (let paused_for = now - started
                           in st\<lparr>cr_pause_started_at := None, cr_deadline := cr_deadline st + paused_for,
                                 cr_local_end := map_option (\<lambda>t. t + paused_for) (cr_local_end st),
                                 cr_paused_total := cr_paused_total st + paused_for\<rparr>)
                      | None \<Rightarrow> st));
          st = st\<lparr>cr_pauses := cr_pauses st @ [paused]\<rparr>
      in if ce_supports_pause e
         then start_write None (if paused then ControlMessage.Pause (ce_test_id e) else Resume (ce_test_id e)) st
         else st)"

definition client_tick :: "client_env \<Rightarrow> instant \<Rightarrow> TestStats \<Rightarrow> bool \<Rightarrow> client_state \<Rightarrow> client_state" where
  "client_tick e now stats delivered st =
     (let elapsed_ms = as_millis ((now - ce_progress_start e) - cr_paused_total st)
      in if \<not> ce_progress e then st
         else if udp_bidir e
         then show_progress delivered ((feedback_progress elapsed_ms)\<lparr>tp_udp_recv := udp_local_direction_progress stats\<rparr>) st
         else (let dt = secs_f64 (now - cr_last_recv_instant st);
                   ((interval_total, deltas), last_recv) = udp_recv_interval_deltas stats (cr_last_recv_bytes st);
                   (filtered, filt) = filter_apply (cr_filter st) (udp_local_progress stats);
                   st = st\<lparr>cr_last_recv_instant := now, cr_last_recv_bytes := last_recv, cr_filter := filt\<rparr>
               in start_showing
                    ((feedback_progress elapsed_ms)\<lparr>tp_total_bytes := interval_total,
                       tp_throughput_mbps := interval_mbps interval_total dt, tp_streams := local_udp_recv_intervals deltas stats,
                       tp_udp_progress := filtered, tp_udp_feedback_only := False\<rparr>) st))"

text \<open>The branches of the \<open>select\<close>; the ends of the calls that the loop waits for; and the feedback consumer, a task of its own,
  whose tick filters an update and then queues it. A branch whose guard is off, or whose timer has not expired, is
  never taken, and no branch while the loop waits for a write or for the queue. A request channel whose sender is gone yields \<open>None\<close>.
  The flag of an update says whether it went into the queue.\<close>

datatype client_event =
    ClCommand "ClientControlEvent option" instant TestStats "int \<Rightarrow> TcpInfoSnapshot option"
  | ClCancelRequest "bool option" instant
  | ClPauseRequest "bool option" instant
  | ClLocalEnd instant
  | ClSendingDone
  | ClTick instant TestStats bool
  | ClDeadline instant
  | ClWritten
  | ClWriteTimeout instant
  | ClShown bool
  | ClFeedback "UdpIntervalProgress list" u64
  | ClFeedbackSent bool

definition client_select :: "client_env \<Rightarrow> client_event \<Rightarrow> client_state \<Rightarrow> client_step" where
  "client_select e ev st =
     (case ev of
        ClCommand cmd now stats tcp_info_of \<Rightarrow>
          (case cmd of
             Some EvEof \<Rightarrow> ClDone (Err NoResult) st
           | Some (EvError err) \<Rightarrow> ClDone (Err err) st
           | Some (EvMessage msg) \<Rightarrow> client_message e now stats tcp_info_of msg st
           | None \<Rightarrow> ClDone (Err NoResult) st)
      | ClCancelRequest req now \<Rightarrow>
          if \<not> cr_cancel_request_open st then ClRunning st
          else (case req of
                  None \<Rightarrow> ClRunning (st\<lparr>cr_cancel_request_open := False\<rparr>)
                | Some requested \<Rightarrow>
                    if requested
                    then ClRunning (send_control_cancel (Cancel (ce_test_id e) ''User requested cancellation'') now st)
                    else ClRunning st)
      | ClPauseRequest req now \<Rightarrow>
          if \<not> cr_pause_request_open st then ClRunning st
          else (case req of
                  None \<Rightarrow> ClRunning (st\<lparr>cr_pause_request_open := False\<rparr>)
                | Some paused \<Rightarrow> ClRunning (client_pause e paused now st))
      | ClLocalEnd now \<Rightarrow>
          (case cr_local_end st of
             Some local_end \<Rightarrow>
               if \<not> cr_local_stop_sent st \<and> cr_pause_started_at st = None \<and> local_end \<le> now
               then ClRunning (st\<lparr>cr_local_stop_sent := True, cr_stopped := True\<rparr>) else ClRunning st
           | None \<Rightarrow> ClRunning st)
      | ClSendingDone \<Rightarrow>
          if finish_on_budget e \<and> \<not> cr_finish_sent st
          then ClRunning (start_write None (Finish (ce_test_id e)) (st\<lparr>cr_finish_sent := True\<rparr>)) else ClRunning st
      | ClTick now stats delivered \<Rightarrow>
          if (udp_download e \<or> udp_bidir e) \<and> \<not> cr_local_stop_sent st \<and> cr_pause_started_at st = None
          then ClRunning (client_tick e now stats delivered st) else ClRunning st
      | ClDeadline now \<Rightarrow>
          if cr_pause_started_at st = None \<and> cr_deadline st \<le> now then ClDone (Err TimedOut) st else ClRunning st
      | _ \<Rightarrow> ClRunning st)"

text \<open>The end of a wait. A write that fails is over too; one with a limit is dropped when that has passed.\<close>

definition wait_ends :: "client_event \<Rightarrow> client_state \<Rightarrow> client_state" where
  "wait_ends ev st =
     (case (cr_busy st, ev) of
        (LoopWriting limit, ClWritten) \<Rightarrow> st\<lparr>cr_busy := LoopIdle\<rparr>
      | (LoopWriting (Some limit), ClWriteTimeout now) \<Rightarrow> if limit \<le> now then st\<lparr>cr_busy := LoopIdle\<rparr> else st
      | (LoopShowing p, ClShown delivered) \<Rightarrow> show_progress delivered p (st\<lparr>cr_busy := LoopIdle\<rparr>)
      | _ \<Rightarrow> st)"

definition client_feedback :: "client_env \<Rightarrow> UdpIntervalProgress list \<Rightarrow> u64 \<Rightarrow> client_state \<Rightarrow> client_state" where
  "client_feedback e slots elapsed_ms st =
     (if has_feedback_consumer e \<and> cr_feedback_pending st = None
      then (case feedback_tick slots elapsed_ms (cr_filter st) of
              (pending, filt) \<Rightarrow> st\<lparr>cr_filter := filt, cr_feedback_pending := pending\<rparr>)
      else st)"

definition feedback_sent :: "bool \<Rightarrow> client_state \<Rightarrow> client_state" where
  "feedback_sent delivered st =
     (case cr_feedback_pending st of
        Some p \<Rightarrow> show_progress delivered p (st\<lparr>cr_feedback_pending := None\<rparr>)
      | None \<Rightarrow> st)"

definition client_event_step :: "client_env \<Rightarrow> client_event \<Rightarrow> client_state \<Rightarrow> client_step" where
  "client_event_step e ev st =
     (case ev of
        ClFeedback slots elapsed_ms \<Rightarrow> ClRunning (client_feedback e slots elapsed_ms st)
      | ClFeedbackSent delivered \<Rightarrow> ClRunning (feedback_sent delivered st)
      | _ \<Rightarrow> if cr_busy st = LoopIdle then client_select e ev st else ClRunning (wait_ends ev st))"

fun client_loop :: "client_env \<Rightarrow> client_event list \<Rightarrow> client_state \<Rightarrow> client_step" where
  "client_loop e [] st = ClRunning st"
| "client_loop e (ev # evs) st =
     (case client_event_step e ev st of ClRunning st' \<Rightarrow> client_loop e evs st' | ClDone r st' \<Rightarrow> ClDone r st')"

text \<open>After the streams have been joined: the corrections, on the final statistics.\<close>

definition client_finish :: "client_env \<Rightarrow> TestStats \<Rightarrow> (run_error + TestResult) \<Rightarrow> run_error + TestResult" where
  "client_finish e stats r =
     (case r of
        Err err \<Rightarrow> Err err
      | Ok result \<Rightarrow>
          (let result = (if udp_download e then overlay_udp_download_result result stats else result);
               result = (if udp_bidir e then overlay_udp_bidir_result result stats else result);
               result = result\<lparr>tr_server_udp_send_errors :=
                          map_option (\<lambda>errs. errs\<lparr>se_last_error := sanitize_message (se_last_error errs)\<rparr>) (tr_server_udp_send_errors result),
                          tr_client_udp_send_errors := TestStats_udp_send_errors stats\<rparr>;
               result = (if cl_protocol (ce_config e) = Tcp \<and> cl_byte_budget (ce_config e) = None
                         then (let n = count_zero_byte_streams result
                               in result\<lparr>tr_zero_byte_streams := (if 0 < n then Some n else None)\<rparr>)
                         else result)
           in Ok result))"

definition client_run :: "client_env \<Rightarrow> TestStats \<Rightarrow> instant \<Rightarrow> client_event list \<Rightarrow> TestStats \<Rightarrow> (run_error + TestResult) option \<times> client_state" where
  "client_run e stats0 now evs final_stats =
     (case client_loop e evs (client_init e stats0 now) of
        ClRunning st \<Rightarrow> (None, st)
      | ClDone r st \<Rightarrow> (Some (client_finish e final_stats r), st\<lparr>cr_stopped := True\<rparr>))"

section \<open>Requests from outside\<close>

datatype PauseResult = PauseApplied | PauseUnsupported | PauseNotReady

text \<open>The request channels, if a run has made them: the value last sent and whether the run still listens.\<close>

record Client =
  cx_cancel_request :: "(bool \<times> bool) option"
  cx_pause_request :: "(bool \<times> bool) option"
  cx_server_supports_pause :: "bool option"
  cx_server_version :: "string option"

definition Client_cancel :: "Client \<Rightarrow> Client \<times> bool" where
  "Client_cancel x = (case cx_cancel_request x of
     Some (v, True) \<Rightarrow> (x\<lparr>cx_cancel_request := Some (True, True)\<rparr>, True) | _ \<Rightarrow> (x, False))"

definition Client_pause :: "Client \<Rightarrow> Client \<times> PauseResult" where
  "Client_pause x =
     (case cx_server_supports_pause x of
        None \<Rightarrow> (x, PauseNotReady)
      | Some False \<Rightarrow> (x, PauseUnsupported)
      | Some True \<Rightarrow>
          (case cx_pause_request x of
             Some (v, True) \<Rightarrow> (x\<lparr>cx_pause_request := Some (\<not> v, True)\<rparr>, PauseApplied)
           | _ \<Rightarrow> (x, PauseNotReady)))"

end
