(* ===== verification/Client_Run_Correct.thy ===== *)
theory Client_Run_Correct
  imports Client_Run Stats_Correct "HOL-Library.Sublist"
begin

text \<open>
  Correctness of the client during a test: what it shows never goes back and adds up, its clocks do not
  count pauses, a cancellation ends it in bounded time, and the result it returns is the server's with the
  receiver's own counts where this end is the receiver.
\<close>

fun cl_state :: "client_step \<Rightarrow> client_state" where
  "cl_state (ClRunning st) = st"
| "cl_state (ClDone r st) = st"

lemma client_loop_inv:
  assumes step: "\<And>ev st. ev \<in> set evs \<Longrightarrow> P st \<Longrightarrow> P (cl_state (client_event_step e ev st))" and "P st"
  shows "P (cl_state (client_loop e evs st))"
  using assms
proof (induction evs arbitrary: st)
  case (Cons ev evs)
  then show ?case by (cases "client_event_step e ev st") (fastforce split: client_step.split)+
qed simp

section \<open>Packet counts never go back\<close>

text \<open>The updates queued, then those on their way: that of the loop and that of the feedback consumer. A lane is the counts of one of
  the two producers.\<close>

definition in_flight :: "client_state \<Rightarrow> TestProgress list" where
  "in_flight st = (case cr_busy st of LoopShowing p \<Rightarrow> [p] | _ \<Rightarrow> [])
     @ (case cr_feedback_pending st of Some p \<Rightarrow> [p] | None \<Rightarrow> [])"

definition lane :: "bool \<Rightarrow> TestProgress list \<Rightarrow> UdpIntervalProgress list" where
  "lane feedback ps = List.map_filter tp_udp_progress (filter (\<lambda>p. tp_udp_feedback_only p = feedback) ps)"

lemma lane_simps [simp]:
  "lane fb [] = []"
  "lane fb (p # ps) = (if tp_udp_feedback_only p = fb then (case tp_udp_progress p of Some x \<Rightarrow> [x] | None \<Rightarrow> []) else []) @ lane fb ps"
  "lane fb (ps @ qs) = lane fb ps @ lane fb qs"
  by (auto simp: lane_def map_filter_def split: option.split)

abbreviation fresh_order :: "UdpIntervalProgress list \<Rightarrow> bool" where
  "fresh_order \<equiv> sorted_wrt (\<lambda>p q. is_at_least_as_fresh_as q p)"

definition counts_inv :: "client_state \<Rightarrow> bool" where
  "counts_inv st \<longleftrightarrow>
     (\<forall>fb. fresh_order (lane fb (cr_shown st @ in_flight st))
        \<and> (\<forall>p\<in>set (lane fb (cr_shown st @ in_flight st)). \<exists>latest. cr_filter st = Some latest \<and> is_at_least_as_fresh_as latest p))
     \<and> (\<forall>p. cr_busy st = LoopShowing p \<longrightarrow> \<not> tp_udp_feedback_only p)
     \<and> (\<forall>p. cr_feedback_pending st = Some p \<longrightarrow> tp_udp_feedback_only p)"

lemma filter_apply_cases:
  assumes "filter_apply filt p = (out, filt')"
  shows "(out = None \<and> filt' = filt) \<or> (out = Some p \<and> filt' = Some p \<and> (\<forall>q. filt = Some q \<longrightarrow> is_at_least_as_fresh_as p q))"
  using assms by (auto simp: filter_apply_def split: if_splits option.splits)

lemma filter_option_cases:
  assumes "filter_option filt q = (out, filt')"
  shows "(out = None \<and> filt' = filt) \<or> (\<exists>p. out = Some p \<and> filt' = Some p \<and> (\<forall>q. filt = Some q \<longrightarrow> is_at_least_as_fresh_as p q))"
proof (cases q)
  case (Some p)
  then show ?thesis using assms filter_apply_cases [of filt p out filt'] by (auto simp: filter_option_def)
qed (use assms in \<open>simp add: filter_option_def\<close>)

text \<open>The end of a wait, case by case.\<close>

lemma wait_ends_cases:
  "wait_ends ev st = st
     \<or> (\<exists>limit. cr_busy st = LoopWriting limit \<and> (ev = ClWritten \<or> (\<exists>now. ev = ClWriteTimeout now)) \<and> wait_ends ev st = st\<lparr>cr_busy := LoopIdle\<rparr>)
     \<or> (\<exists>p d. cr_busy st = LoopShowing p \<and> ev = ClShown d \<and> wait_ends ev st = show_progress d p (st\<lparr>cr_busy := LoopIdle\<rparr>))"
  by (cases "cr_busy st"; cases ev) (auto simp: wait_ends_def split: option.split)

text \<open>An update with what the filter let through comes last in its lane.\<close>

lemma counts_inv_admit:
  assumes inv: "counts_inv st" and f: "filter_option (cr_filter st) q = (out, cr_filter st')"
    and lanes: "\<And>fb. lane fb (cr_shown st' @ in_flight st') = lane fb (cr_shown st @ in_flight st)
        @ (if fb = mine then (case out of Some x \<Rightarrow> [x] | None \<Rightarrow> []) else [])"
    and kinds: "\<forall>p. cr_busy st' = LoopShowing p \<longrightarrow> \<not> tp_udp_feedback_only p"
      "\<forall>p. cr_feedback_pending st' = Some p \<longrightarrow> tp_udp_feedback_only p"
  shows "counts_inv st'"
proof (cases "out = None")
  case True
  then have "cr_filter st' = cr_filter st" using filter_option_cases [OF f] by auto
  moreover have "lane fb (cr_shown st' @ in_flight st') = lane fb (cr_shown st @ in_flight st)" for fb using lanes [of fb] True by simp
  ultimately show ?thesis using inv kinds unfolding counts_inv_def by simp
next
  case False
  then obtain x where x: "out = Some x" "cr_filter st' = Some x" "\<forall>y. cr_filter st = Some y \<longrightarrow> is_at_least_as_fresh_as x y"
    using filter_option_cases [OF f] by auto
  have below: "is_at_least_as_fresh_as x y" if "y \<in> set (lane fb (cr_shown st @ in_flight st))" for y fb
    using inv that x(3) progress_order.fresh_trans unfolding counts_inv_def by blast
  have 1: "fresh_order (lane fb (cr_shown st' @ in_flight st'))" for fb
  proof -
    define xs where "xs = lane fb (cr_shown st @ in_flight st)"
    have "fresh_order xs" using inv unfolding counts_inv_def xs_def by blast
    moreover have "\<forall>y\<in>set xs. is_at_least_as_fresh_as x y" unfolding xs_def using below by blast
    ultimately have "fresh_order (xs @ (if fb = mine then [x] else []))" by (simp add: sorted_wrt_append)
    then show ?thesis using lanes [of fb] unfolding x(1) option.case xs_def by (simp only:)
  qed
  have 2: "\<exists>latest. cr_filter st' = Some latest \<and> is_at_least_as_fresh_as latest p"
    if "p \<in> set (lane fb (cr_shown st' @ in_flight st'))" for p fb
  proof -
    have "p \<in> set (lane fb (cr_shown st @ in_flight st)) \<or> p = x"
      using that unfolding lanes [of fb] x(1) set_append by (cases "fb = mine") auto
    then have "is_at_least_as_fresh_as x p" using below progress_order.fresh_refl by blast
    then show ?thesis using x(2) by blast
  qed
  show ?thesis unfolding counts_inv_def using 1 2 kinds by blast
qed

lemma subseq_set: "subseq xs ys \<Longrightarrow> x \<in> set xs \<Longrightarrow> x \<in> set ys"
  by (induction rule: list_emb.induct) auto

lemma sorted_wrt_subseq: "subseq xs ys \<Longrightarrow> sorted_wrt R ys \<Longrightarrow> sorted_wrt R xs"
  by (induction rule: list_emb.induct) (auto dest: subseq_set)

text \<open>An update on its way is queued or lost.\<close>

lemma counts_inv_thin:
  assumes "counts_inv st" "cr_filter st' = cr_filter st"
    and "\<And>fb. subseq (lane fb (cr_shown st' @ in_flight st')) (lane fb (cr_shown st @ in_flight st))"
    and "cr_busy st' = cr_busy st \<or> (\<forall>p. cr_busy st' \<noteq> LoopShowing p)"
    and "cr_feedback_pending st' = cr_feedback_pending st \<or> cr_feedback_pending st' = None"
  shows "counts_inv st'"
proof -
  have sub: "subseq xs ys \<Longrightarrow> fresh_order ys \<Longrightarrow> fresh_order xs" for xs ys
    by (rule sorted_wrt_subseq)
  have set: "x \<in> set (lane fb (cr_shown st @ in_flight st))" if "x \<in> set (lane fb (cr_shown st' @ in_flight st'))" for fb x
    using subseq_set [OF assms(3) that] .
  have 1: "fresh_order (lane fb (cr_shown st' @ in_flight st'))" for fb
    using assms(1) sub [OF assms(3)] unfolding counts_inv_def by blast
  have 2: "\<exists>latest. cr_filter st' = Some latest \<and> is_at_least_as_fresh_as latest p"
    if "p \<in> set (lane fb (cr_shown st' @ in_flight st'))" for fb p
    using assms(1,2) set [OF that] unfolding counts_inv_def by metis
  have 3: "(\<forall>p. cr_busy st' = LoopShowing p \<longrightarrow> \<not> tp_udp_feedback_only p) \<and> (\<forall>p. cr_feedback_pending st' = Some p \<longrightarrow> tp_udp_feedback_only p)"
    using assms(1,4,5) unfolding counts_inv_def by (metis option.discI)
  show ?thesis unfolding counts_inv_def using 1 2 3 by blast
qed

lemma counts_inv_lane:
  assumes "counts_inv st"
  shows "fresh_order (lane fb (cr_shown st))"
    and "\<forall>p\<in>set (lane fb (cr_shown st)). \<exists>latest. cr_filter st = Some latest \<and> is_at_least_as_fresh_as latest p"
proof -
  have "fresh_order (lane fb (cr_shown st @ in_flight st))"
    "\<forall>p\<in>set (lane fb (cr_shown st @ in_flight st)). \<exists>latest. cr_filter st = Some latest \<and> is_at_least_as_fresh_as latest p"
    using assms unfolding counts_inv_def by blast+
  then show "fresh_order (lane fb (cr_shown st))"
    and "\<forall>p\<in>set (lane fb (cr_shown st)). \<exists>latest. cr_filter st = Some latest \<and> is_at_least_as_fresh_as latest p"
    by (simp_all add: sorted_wrt_append)
qed

lemma counts_inv_frame:
  assumes "counts_inv st" "cr_shown st' = cr_shown st" "cr_filter st' = cr_filter st"
    "cr_busy st' = cr_busy st" "cr_feedback_pending st' = cr_feedback_pending st"
  shows "counts_inv st'"
  using assms by (simp add: counts_inv_def in_flight_def)

lemma receive_half_frame:
  assumes "receive_half e now stats streams aggregate st = (v, ss, st')"
  shows "cr_shown st' = cr_shown st" "cr_filter st' = cr_filter st" "cr_busy st' = cr_busy st"
    "cr_feedback_pending st' = cr_feedback_pending st"
  using assms by (auto simp: receive_half_def Let_def split: if_splits prod.splits option.splits)

lemma lane_kinds:
  assumes "counts_inv st" "cr_feedback_pending st = Some p"
  shows "lane False [p] = []" "lane True [p] = (case tp_udp_progress p of Some x \<Rightarrow> [x] | None \<Rightarrow> [])"
  using assms by (auto simp: counts_inv_def split: option.split)

lemma counts_inv_showing:
  assumes "counts_inv st" "cr_busy st = LoopIdle" "filter_option (cr_filter st) q = (tp_udp_progress p, filt)" "\<not> tp_udp_feedback_only p"
    "cr_shown st' = cr_shown st" "cr_filter st' = filt" "cr_feedback_pending st' = cr_feedback_pending st"
  shows "counts_inv (start_showing p st')"
proof (rule counts_inv_admit [OF assms(1), of q "tp_udp_progress p" "start_showing p st'" False])
  show "filter_option (cr_filter st) q = (tp_udp_progress p, cr_filter (start_showing p st'))"
    using assms(3,6) by (simp add: start_showing_def)
  show "lane fb (cr_shown (start_showing p st') @ in_flight (start_showing p st')) = lane fb (cr_shown st @ in_flight st)
      @ (if fb = False then (case tp_udp_progress p of Some x \<Rightarrow> [x] | None \<Rightarrow> []) else [])" for fb
    using assms(1,2,4,5,7) by (cases fb) (auto simp: in_flight_def counts_inv_def start_showing_def split: option.split)
qed (use assms(1,4,7) in \<open>auto simp: counts_inv_def start_showing_def\<close>)

lemma counts_inv_interval:
  assumes "counts_inv st" "cr_busy st = LoopIdle"
  shows "counts_inv (client_interval e now stats info el streams aggregate st)"
proof -
  obtain v ss st1 where h: "receive_half e now stats streams aggregate st = (v, ss, st1)" by (metis prod_cases3)
  obtain out filt where f: "filter_option (cr_filter st1) (ai_udp_progress aggregate) = (out, filt)" by fastforce
  note frame = receive_half_frame [OF h]
  have "counts_inv st1" using counts_inv_frame [OF assms(1) frame] .
  then have "counts_inv (start_showing p (st1\<lparr>cr_filter := filt\<rparr>))" if "tp_udp_progress p = out" "\<not> tp_udp_feedback_only p" for p
    by (rule counts_inv_showing) (use assms(2) frame f that in simp_all)
  then show ?thesis
    using assms(1) by (simp add: client_interval_def h f Let_def split: prod.split)
qed

lemma counts_inv_tick:
  assumes "counts_inv st" "cr_busy st = LoopIdle"
  shows "counts_inv (client_tick e now stats delivered st)"
proof (cases "udp_bidir e \<or> \<not> ce_progress e")
  case True
  have lanes: "lane fb (ps @ [p] @ qs) = lane fb (ps @ qs)" if "tp_udp_progress p = None" for fb p ps qs using that by simp
  have "counts_inv (show_progress delivered p st)" if "tp_udp_progress p = None" for p
    using assms(1) lanes [OF that, of _ "cr_shown st" "in_flight st"]
    by (cases delivered) (simp_all add: counts_inv_def show_progress_def in_flight_def del: lane_simps)
  with True assms(1) show ?thesis by (auto simp: client_tick_def feedback_progress_def Let_def)
next
  case False
  obtain out filt where f: "filter_apply (cr_filter st) (udp_local_progress stats) = (out, filt)" by fastforce
  then have "filter_option (cr_filter st) (Some (udp_local_progress stats)) = (out, filt)" by (simp add: filter_option_def)
  then have "counts_inv (start_showing p (st\<lparr>cr_last_recv_instant := i, cr_last_recv_bytes := bs, cr_filter := filt\<rparr>))"
    if "tp_udp_progress p = out" "\<not> tp_udp_feedback_only p" for p i bs
    using that by (intro counts_inv_showing [OF assms]) simp_all
  then show ?thesis
    using False by (simp add: client_tick_def f feedback_progress_def Let_def split: prod.split)
qed

lemma counts_inv_feedback:
  assumes "counts_inv st"
  shows "counts_inv (client_feedback e slots el st)"
proof -
  let ?total = "foldl add_progress zero_progress slots"
  obtain o' f' where f: "filter_apply (cr_filter st) ?total = (o', f')" by fastforce
  then have fo: "filter_option (cr_filter st) (Some ?total) = (o', f')" by (simp add: filter_option_def)
  obtain pending filt where t: "feedback_tick slots el (cr_filter st) = (pending, filt)" by fastforce
  let ?st' = "st\<lparr>cr_filter := filt, cr_feedback_pending := pending\<rparr>"
  have "counts_inv ?st'" if none: "cr_feedback_pending st = None"
  proof (cases pending)
    case None
    with t f have "filt = cr_filter st"
      using filter_apply_cases [OF f] by (auto simp: feedback_tick_def Let_def split: if_splits option.splits)
    with assms None none show ?thesis by (simp add: counts_inv_def in_flight_def)
  next
    case (Some p)
    with t f have p: "tp_udp_progress p = o'" "tp_udp_feedback_only p" "filt = f'"
      by (auto simp: feedback_tick_def feedback_progress_def Let_def split: if_splits option.splits)
    show ?thesis
    proof (rule counts_inv_admit [OF assms, of "Some ?total" o' ?st' True])
      show "filter_option (cr_filter st) (Some ?total) = (o', cr_filter ?st')" using fo p(3) by simp
      show "lane fb (cr_shown ?st' @ in_flight ?st') = lane fb (cr_shown st @ in_flight st)
          @ (if fb = True then case o' of None \<Rightarrow> [] | Some x \<Rightarrow> [x] else [])" for fb
        using none Some p by (simp add: in_flight_def split: option.split)
    qed (use assms Some p in \<open>auto simp: counts_inv_def\<close>)
  qed
  with assms show ?thesis by (simp add: client_feedback_def t)
qed

lemma counts_inv_sent:
  assumes "counts_inv st"
  shows "counts_inv (feedback_sent delivered st)" "counts_inv (wait_ends ev st)"
proof -
  have kinds: "cr_busy st = LoopShowing p \<Longrightarrow> \<not> tp_udp_feedback_only p" "cr_feedback_pending st = Some q \<Longrightarrow> tp_udp_feedback_only q" for p q
    using assms by (auto simp: counts_inv_def)
  show "counts_inv (feedback_sent delivered st)"
  proof (cases "cr_feedback_pending st")
    case (Some p)
    show ?thesis
      by (rule counts_inv_thin [OF assms]; use Some kinds in \<open>cases "cr_busy st"\<close>)
        (auto simp: feedback_sent_def show_progress_def in_flight_def)
  qed (use assms in \<open>simp add: feedback_sent_def\<close>)
  show "counts_inv (wait_ends ev st)"
    by (rule counts_inv_thin [OF assms]; use wait_ends_cases [of ev st] kinds in \<open>elim disjE exE conjE\<close>)
      (auto simp: show_progress_def in_flight_def subseq_append' intro: list_emb_append2)
qed

lemma counts_inv_event:
  assumes "counts_inv st"
  shows "counts_inv (cl_state (client_event_step e ev st))"
proof -
  have "counts_inv (cl_state (client_select e ev st))" if idle: "cr_busy st = LoopIdle"
  proof (cases ev)
    case (ClCommand cmd now stats info)
    have "counts_inv (cl_state (client_message e now stats info msg st))" for msg
      using assms counts_inv_interval [OF assms idle] counts_inv_frame [OF assms]
      by (cases msg) (simp_all add: client_message_def start_control_cancel_wait_def)
    then show ?thesis
      using ClCommand assms by (cases cmd) (auto simp: client_select_def split: ClientControlEvent.split)
  next
    case (ClTick now stats delivered)
    then show ?thesis using assms counts_inv_tick [OF assms idle] by (simp add: client_select_def)
  next
    case (ClPauseRequest req now)
    have "counts_inv (client_pause e b now st)" for b
      by (rule counts_inv_thin [OF assms])
        (auto simp: client_pause_def start_write_def in_flight_def idle Let_def split: option.split)
    then show ?thesis
      using ClPauseRequest assms counts_inv_frame [OF assms] by (auto simp: client_select_def split: option.splits)
  next
    case (ClCancelRequest req now)
    have "counts_inv (send_control_cancel msg now st)" for msg
      by (rule counts_inv_thin [OF assms])
        (auto simp: send_control_cancel_def start_control_cancel_wait_def start_write_def in_flight_def idle Let_def)
    then show ?thesis
      using ClCancelRequest assms counts_inv_frame [OF assms] by (auto simp: client_select_def split: option.splits)
  next
    case ClSendingDone
    have "counts_inv (start_write None msg (st\<lparr>cr_finish_sent := True\<rparr>))" for msg
      by (rule counts_inv_thin [OF assms]) (auto simp: start_write_def in_flight_def idle)
    then show ?thesis using ClSendingDone assms by (simp add: client_select_def)
  next
    case (ClLocalEnd now)
    then show ?thesis using assms counts_inv_frame [OF assms] by (auto simp: client_select_def split: option.splits)
  qed (use assms in \<open>simp_all add: client_select_def\<close>)
  then show ?thesis
    using assms counts_inv_sent [OF assms] counts_inv_feedback [OF assms] by (cases ev) (simp_all add: client_event_step_def)
qed

section \<open>The bytes shown for a download add up\<close>

definition counters_of :: "TestStats \<Rightarrow> u64 list" where
  "counters_of stats = map st_bytes_received (tst_streams stats)"

text \<open>Every update is queued, and the counters each tick reads are at least those of the tick before.\<close>

fun ticks_monotone :: "u64 list \<Rightarrow> client_event list \<Rightarrow> bool" where
  "ticks_monotone prev [] = True"
| "ticks_monotone prev (ClShown delivered # evs) = (delivered \<and> ticks_monotone prev evs)"
| "ticks_monotone prev (ClTick now stats delivered # evs) =
     (list_all2 (\<le>) prev (counters_of stats) \<and> ticks_monotone (counters_of stats) evs)"
| "ticks_monotone prev (_ # evs) = ticks_monotone prev evs"

text \<open>The bytes shown for a stream.\<close>

definition shown_bytes :: "nat \<Rightarrow> TestProgress list \<Rightarrow> nat" where
  "shown_bytes k ps = (\<Sum>p\<leftarrow>ps. if k < length (tp_streams p) then unat (si_bytes (tp_streams p ! k)) else 0)"

definition download_inv :: "u64 list \<Rightarrow> client_state \<Rightarrow> bool" where
  "download_inv prev st \<longleftrightarrow> length (cr_last_recv_bytes st) = length prev
     \<and> cr_feedback_pending st = None
     \<and> (\<forall>k<length prev. shown_bytes k (cr_shown st @ in_flight st) = unat (cr_last_recv_bytes st ! k) \<and> cr_last_recv_bytes st ! k \<le> prev ! k)"

lemma udp_recv_interval_deltas_aligned:
  assumes "length (tst_streams stats) = length last_recv"
  shows "udp_recv_interval_deltas stats last_recv =
    ((sum_list (map2 saturating_sub (counters_of stats) last_recv), map2 saturating_sub (counters_of stats) last_recv), counters_of stats)"
proof -
  have "map (\<lambda>(idx, s). saturating_sub (st_bytes_received s) (if idx < length last_recv then last_recv ! idx else 0))
      (enumerate 0 (tst_streams stats)) = map2 saturating_sub (counters_of stats) last_recv"
    using assms by (intro nth_equalityI) (auto simp: counters_of_def nth_enumerate_eq)
  moreover have "map (\<lambda>(idx, prev). if idx < length (tst_streams stats) then st_bytes_received (tst_streams stats ! idx) else prev)
      (enumerate 0 last_recv) = counters_of stats"
    using assms by (intro nth_equalityI) (auto simp: counters_of_def nth_enumerate_eq)
  ultimately show ?thesis by (simp add: udp_recv_interval_deltas_def Let_def)
qed

lemma download_inv_tick:
  assumes "download_inv prev st" "cr_busy st = LoopIdle" "udp_download e" "ce_progress e" "list_all2 (\<le>) prev (counters_of stats)"
  shows "download_inv (counters_of stats) (client_tick e now stats d st)"
    "cr_last_recv_bytes (client_tick e now stats d st) = counters_of stats"
proof -
  let ?last = "cr_last_recv_bytes st"
  have len: "length (tst_streams stats) = length ?last" "length prev = length ?last"
    using assms(1,5) by (auto simp: download_inv_def counters_of_def dest: list_all2_lengthD)
  have nb: "\<not> udp_bidir e" using assms(3) by (auto simp: udp_download_def udp_bidir_def)
  obtain out filt where f: "filter_apply (cr_filter st) (udp_local_progress stats) = (out, filt)" by fastforce
  let ?st' = "client_tick e now stats d st"
  have st': "cr_last_recv_bytes ?st' = counters_of stats"
    "cr_shown ?st' = cr_shown st" "cr_feedback_pending ?st' = cr_feedback_pending st"
    "\<exists>p. cr_busy ?st' = LoopShowing p \<and> map si_bytes (tp_streams p) = map2 saturating_sub (counters_of stats) ?last"
    using nb assms(4) f
    by (simp_all add: client_tick_def udp_recv_interval_deltas_aligned [OF len(1)] Let_def start_showing_def
        local_udp_recv_intervals_def comp_def case_prod_beta map_snd_enumerate)
  then obtain p where p: "cr_busy ?st' = LoopShowing p" "map si_bytes (tp_streams p) = map2 saturating_sub (counters_of stats) ?last"
    by blast
  have lp: "length (tp_streams p) = length ?last" using arg_cong [OF p(2), of length] len by (simp add: counters_of_def)
  have pend: "cr_feedback_pending st = None" using assms(1) by (simp add: download_inv_def)
  have fl: "cr_shown ?st' @ in_flight ?st' = cr_shown st @ [p]" "in_flight st = []"
    using st'(2,3) p(1) pend assms(2) by (simp_all add: in_flight_def)
  have "shown_bytes k (cr_shown ?st' @ in_flight ?st') = unat (counters_of stats ! k)" if k: "k < length ?last" for k
  proof -
    have "?last ! k \<le> counters_of stats ! k"
      using assms(1) k len list_all2_nthD [OF assms(5), of k] by (auto simp: download_inv_def intro: order_trans)
    moreover have "si_bytes (tp_streams p ! k) = saturating_sub (counters_of stats ! k) (?last ! k)"
      using arg_cong [OF p(2), of "\<lambda>xs. xs ! k"] k len lp by (simp add: counters_of_def)
    ultimately have "unat (si_bytes (tp_streams p ! k)) = unat (counters_of stats ! k) - unat (?last ! k)"
      "unat (?last ! k) \<le> unat (counters_of stats ! k)"
      by (simp_all add: unat_saturating_sub word_le_nat_alt)
    moreover have "shown_bytes k (cr_shown st) = unat (?last ! k)" using assms(1) k len fl(2) by (simp add: download_inv_def)
    ultimately show ?thesis unfolding fl(1) using lp k by (simp add: shown_bytes_def)
  qed
  then show "download_inv (counters_of stats) (client_tick e now stats d st)"
    using st'(1,3) pend len by (simp add: download_inv_def counters_of_def)
  show "cr_last_recv_bytes (client_tick e now stats d st) = counters_of stats" by (rule st'(1))
qed

lemma download_inv_frame:
  assumes "download_inv prev st" "cr_shown st' @ in_flight st' = cr_shown st @ in_flight st" "cr_last_recv_bytes st' = cr_last_recv_bytes st"
    "cr_feedback_pending st' = cr_feedback_pending st"
  shows "download_inv prev st'"
  using assms by (simp add: download_inv_def)

fun tick_counters :: "client_event \<Rightarrow> u64 list \<Rightarrow> u64 list" where
  "tick_counters (ClTick now stats delivered) prev = counters_of stats"
| "tick_counters _ prev = prev"

lemma ticks_monotone_Cons:
  "ticks_monotone prev (ev # evs) \<longleftrightarrow>
     ticks_monotone prev [ev] \<and> ticks_monotone (tick_counters ev prev) evs"
  by (cases ev) auto

lemma download_inv_mono:
  assumes "download_inv prev st" "list_all2 (\<le>) prev cs"
  shows "download_inv cs st"
  using assms list_all2_lengthD [OF assms(2)] list_all2_nthD [OF assms(2)]
  by (auto simp: download_inv_def intro: order_trans)

lemma download_inv_event:
  assumes "download_inv prev st" "udp_download e" "ce_progress e" "ticks_monotone prev [ev]"
  shows "download_inv (tick_counters ev prev) (cl_state (client_event_step e ev st))"
proof -
  have frame: "download_inv prev st'"
    if "cr_shown st' = cr_shown st" "\<forall>p. cr_busy st' \<noteq> LoopShowing p" "\<forall>p. cr_busy st \<noteq> LoopShowing p"
      "cr_last_recv_bytes st' = cr_last_recv_bytes st" "cr_feedback_pending st' = cr_feedback_pending st" for st'
    by (rule download_inv_frame [OF assms(1) _ that(4,5)])
      (use that in \<open>simp add: in_flight_def split: loop_busy.split\<close>)
  have nf: "\<not> has_feedback_consumer e" using assms(2) by (auto simp: udp_download_def has_feedback_consumer_def)
  have pend: "cr_feedback_pending st = None" using assms(1) by (simp add: download_inv_def)
  have "download_inv (tick_counters ev prev) (cl_state (client_select e ev st))" if idle: "cr_busy st = LoopIdle"
  proof (cases ev)
    case (ClTick now stats delivered)
    then show ?thesis
      using download_inv_tick [OF assms(1) idle assms(2,3)] download_inv_mono [OF assms(1)] assms(4)
      by (auto simp: client_select_def)
  next
    case (ClCommand cmd now stats info)
    have "download_inv prev (cl_state (client_message e now stats info msg st))" for msg
      using assms(1,2) frame idle
      by (cases msg) (simp_all add: client_message_def client_interval_def start_control_cancel_wait_def)
    then show ?thesis
      using ClCommand assms(1) by (cases cmd) (auto simp: client_select_def split: ClientControlEvent.split)
  next
    case (ClPauseRequest req now)
    then show ?thesis
      using assms(1) by (auto simp: client_select_def client_pause_def start_write_def idle Let_def intro!: frame split: option.splits)
  qed (use assms(1) in \<open>auto simp: client_select_def send_control_cancel_def start_control_cancel_wait_def start_write_def idle Let_def
       intro!: frame split: option.splits\<close>)
  moreover have written: "download_inv prev (st\<lparr>cr_busy := LoopIdle\<rparr>)" if "cr_busy st = LoopWriting limit" for limit
    by (rule frame) (simp_all add: that)
  have "download_inv (tick_counters ev prev) (wait_ends ev st)" if busy: "cr_busy st \<noteq> LoopIdle"
  proof (cases ev)
    case (ClTick now stats delivered)
    then show ?thesis using download_inv_mono [OF assms(1)] assms(4) wait_ends_cases [of ev st] by auto
  next
    case (ClShown d)
    then show ?thesis
      using assms(1,4) pend wait_ends_cases [of ev st] by (elim disjE exE conjE) (auto simp: show_progress_def download_inv_def in_flight_def)
  qed (use assms(1) wait_ends_cases [of ev st] written in auto)
  ultimately show ?thesis
    using assms(1) nf pend by (cases ev) (auto simp: client_event_step_def client_feedback_def feedback_sent_def)
qed

lemma client_loop_append:
  "client_loop e (xs @ ys) st =
     (case client_loop e xs st of ClRunning st' \<Rightarrow> client_loop e ys st' | ClDone r st' \<Rightarrow> ClDone r st')"
  by (induction xs arbitrary: st) (auto split: client_step.split)

lemma download_inv_prefix:
  assumes "download_inv prev st" "udp_download e" "ce_progress e" "ticks_monotone prev (xs @ ys)" "client_loop e xs st = ClRunning st'"
  shows "\<exists>prev'. ticks_monotone prev' ys \<and> download_inv prev' st' \<and> length prev' = length prev"
  using assms(1,4,5)
proof (induction xs arbitrary: prev st)
  case (Cons x xs)
  have m: "ticks_monotone prev [x]" "ticks_monotone (tick_counters x prev) (xs @ ys)"
    using Cons.prems(2) ticks_monotone_Cons [of prev x "xs @ ys"] by simp_all
  have len: "length (tick_counters x prev) = length prev" using m(1) by (cases x) (auto dest: list_all2_lengthD)
  obtain st1 where st1: "client_event_step e x st = ClRunning st1" "client_loop e xs st1 = ClRunning st'"
    using Cons.prems(3) by (auto split: client_step.splits)
  have "download_inv (tick_counters x prev) st1"
    using download_inv_event [OF Cons.prems(1) assms(2,3) m(1)] st1(1) by simp
  from Cons.IH [OF this m(2) st1(2)] show ?case by (simp add: len)
qed auto

section \<open>Clocks\<close>

definition clock_inv :: "client_env \<Rightarrow> instant \<Rightarrow> client_state \<Rightarrow> bool" where
  "clock_inv e start st \<longleftrightarrow> cr_deadline st = start + timeout_duration e + cr_paused_total st
     \<and> cr_local_end st = (if cl_duration (ce_config e) = 0 then None else Some (start + cl_duration (ce_config e) + cr_paused_total st))"

text \<open>A request to cancel, or the server's word that it has.\<close>

fun cancels :: "client_event \<Rightarrow> bool" where
  "cancels (ClCancelRequest (Some b) now) = b"
| "cancels (ClCommand (Some (EvMessage (Cancelled i))) now stats info) = True"
| "cancels _ = False"

text \<open>The events that touch no clock.\<close>

lemma interval_clock:
  "cr_deadline (client_interval e now stats info el ss ag st) = cr_deadline st"
  "cr_local_end (client_interval e now stats info el ss ag st) = cr_local_end st"
  "cr_paused_total (client_interval e now stats info el ss ag st) = cr_paused_total st"
  "cr_pause_started_at (client_interval e now stats info el ss ag st) = cr_pause_started_at st"
  "cr_stopped (client_interval e now stats info el ss ag st) = cr_stopped st"
  "cr_sent (client_interval e now stats info el ss ag st) = cr_sent st"
  "cr_finish_sent (client_interval e now stats info el ss ag st) = cr_finish_sent st"
  by (auto simp: client_interval_def receive_half_def start_showing_def Let_def split: prod.split option.split)

lemma tick_clock:
  "cr_deadline (client_tick e now stats delivered st) = cr_deadline st"
  "cr_local_end (client_tick e now stats delivered st) = cr_local_end st"
  "cr_paused_total (client_tick e now stats delivered st) = cr_paused_total st"
  "cr_pause_started_at (client_tick e now stats delivered st) = cr_pause_started_at st"
  "cr_stopped (client_tick e now stats delivered st) = cr_stopped st"
  "cr_sent (client_tick e now stats delivered st) = cr_sent st"
  "cr_finish_sent (client_tick e now stats delivered st) = cr_finish_sent st"
  by (auto simp: client_tick_def start_showing_def show_progress_def Let_def split: prod.split)

lemma wait_clock:
  "cr_deadline (wait_ends ev st) = cr_deadline st" "cr_local_end (wait_ends ev st) = cr_local_end st"
  "cr_paused_total (wait_ends ev st) = cr_paused_total st" "cr_pause_started_at (wait_ends ev st) = cr_pause_started_at st"
  "cr_stopped (wait_ends ev st) = cr_stopped st" "cr_sent (wait_ends ev st) = cr_sent st"
  "cr_finish_sent (wait_ends ev st) = cr_finish_sent st"
  by (auto simp: wait_ends_def show_progress_def split: loop_busy.split client_event.split option.split)

lemma feedback_clock:
  "cr_deadline (client_feedback e slots el st) = cr_deadline st" "cr_local_end (client_feedback e slots el st) = cr_local_end st"
  "cr_paused_total (client_feedback e slots el st) = cr_paused_total st"
  "cr_pause_started_at (client_feedback e slots el st) = cr_pause_started_at st"
  "cr_stopped (client_feedback e slots el st) = cr_stopped st" "cr_sent (client_feedback e slots el st) = cr_sent st"
  "cr_finish_sent (client_feedback e slots el st) = cr_finish_sent st" "cr_busy (client_feedback e slots el st) = cr_busy st"
  by (auto simp: client_feedback_def split: prod.split)

lemma sent_clock:
  "cr_deadline (feedback_sent d st) = cr_deadline st" "cr_local_end (feedback_sent d st) = cr_local_end st"
  "cr_paused_total (feedback_sent d st) = cr_paused_total st" "cr_pause_started_at (feedback_sent d st) = cr_pause_started_at st"
  "cr_stopped (feedback_sent d st) = cr_stopped st" "cr_sent (feedback_sent d st) = cr_sent st"
  "cr_finish_sent (feedback_sent d st) = cr_finish_sent st" "cr_busy (feedback_sent d st) = cr_busy st"
  by (auto simp: feedback_sent_def show_progress_def split: option.split)

lemma write_clock:
  "cr_deadline (start_write limit msg st) = cr_deadline st" "cr_local_end (start_write limit msg st) = cr_local_end st"
  "cr_paused_total (start_write limit msg st) = cr_paused_total st"
  "cr_pause_started_at (start_write limit msg st) = cr_pause_started_at st"
  "cr_stopped (start_write limit msg st) = cr_stopped st" "cr_sent (start_write limit msg st) = cr_sent st @ [msg]"
  "cr_finish_sent (start_write limit msg st) = cr_finish_sent st" "cr_busy (start_write limit msg st) = LoopWriting limit"
  by (simp_all add: start_write_def)

lemmas client_clock_simps = interval_clock tick_clock wait_clock feedback_clock sent_clock write_clock

text \<open>What time the requests to pause and resume that the loop took say was spent paused: the time from each request that says
  pause to the next one.\<close>

fun paused_between :: "(instant \<times> bool) list \<Rightarrow> duration" where
  "paused_between ((t1, b1) # (t2, b2) # rs) = (if b1 then t2 - t1 else 0) + paused_between ((t2, b2) # rs)"
| "paused_between _ = 0"

definition paused_now :: "(instant \<times> bool) list \<Rightarrow> bool" where
  "paused_now rs \<longleftrightarrow> rs \<noteq> [] \<and> snd (last rs)"

fun pause_taken :: "client_event \<Rightarrow> client_state \<Rightarrow> (instant \<times> bool) list" where
  "pause_taken (ClPauseRequest (Some b) now) st = (if cr_busy st = LoopIdle \<and> cr_pause_request_open st then [(now, b)] else [])"
| "pause_taken _ st = []"

fun pauses_taken :: "client_env \<Rightarrow> client_event list \<Rightarrow> client_state \<Rightarrow> (instant \<times> bool) list" where
  "pauses_taken e [] st = []"
| "pauses_taken e (ev # evs) st = pause_taken ev st @ pauses_taken e evs (cl_state (client_event_step e ev st))"

lemma paused_between_snoc:
  "paused_between (rs @ [(t, b)]) = paused_between rs + (if paused_now rs then t - fst (last rs) else 0)"
  by (induction rs rule: paused_between.induct) (auto simp: paused_now_def)

definition pause_inv :: "client_env \<Rightarrow> instant \<Rightarrow> (instant \<times> bool) list \<Rightarrow> client_state \<Rightarrow> bool" where
  "pause_inv e start rs st \<longleftrightarrow> clock_inv e start st
     \<and> (case cr_pause_started_at st of
          None \<Rightarrow> \<not> paused_now rs \<and> cr_paused_total st = paused_between rs
        | Some s \<Rightarrow> paused_now rs \<and> s \<le> fst (last rs) \<and> cr_paused_total st + (fst (last rs) - s) = paused_between rs)"

lemma pause_inv_frame:
  assumes "pause_inv e start rs st" "cr_deadline st' = cr_deadline st" "cr_local_end st' = cr_local_end st"
    "cr_paused_total st' = cr_paused_total st" "cr_pause_started_at st' = cr_pause_started_at st"
  shows "pause_inv e start rs st'"
  using assms by (auto simp: pause_inv_def clock_inv_def split: option.splits)

lemma pause_inv_request:
  assumes "pause_inv e start rs st" "rs \<noteq> [] \<Longrightarrow> fst (last rs) \<le> now"
  shows "pause_inv e start (rs @ [(now, b)]) (client_pause e b now st)"
proof (cases "cr_pause_started_at st")
  case None
  then show ?thesis
    using assms(1) by (cases b)
      (simp_all add: pause_inv_def clock_inv_def client_pause_def write_clock Let_def paused_between_snoc, simp_all add: paused_now_def)
next
  case (Some s)
  then have rs: "paused_now rs" "s \<le> fst (last rs)" "cr_paused_total st + (fst (last rs) - s) = paused_between rs"
    "clock_inv e start st" "fst (last rs) \<le> now"
    using assms by (auto simp: pause_inv_def paused_now_def)
  have sum: "paused_between (rs @ [(now, b)]) = cr_paused_total st + (now - s)"
    using rs by (simp add: paused_between_snoc)
  have now: "paused_now (rs @ [(now, b)]) = b" "fst (last (rs @ [(now, b)])) = now" by (simp_all add: paused_now_def)
  have "s \<le> now" using rs by simp
  then show ?thesis
    using Some rs(4) sum now by (cases b) (auto simp: pause_inv_def clock_inv_def client_pause_def write_clock Let_def)
qed

lemma pause_inv_event:
  assumes "pause_inv e start rs st" "\<not> cancels ev" "sorted (map fst (rs @ pause_taken ev st))"
  shows "pause_inv e start (rs @ pause_taken ev st) (cl_state (client_event_step e ev st))"
proof -
  note frame = pause_inv_frame [OF assms(1)]
  have waits: "pause_taken ev st = [] \<and> client_event_step e ev st = ClRunning st'"
    if "(\<exists>slots el. ev = ClFeedback slots el \<and> st' = client_feedback e slots el st) \<or> (\<exists>d. ev = ClFeedbackSent d \<and> st' = feedback_sent d st)"
    for st' using that by (auto simp: client_event_step_def)
  have "pause_inv e start (rs @ pause_taken ev st) (cl_state (client_select e ev st))" if idle: "cr_busy st = LoopIdle"
  proof (cases ev)
    case (ClCommand cmd now stats info)
    have "pause_inv e start rs (cl_state (client_message e now stats info msg st))" if "\<forall>i. msg \<noteq> Cancelled i" for msg
      using assms(1) that frame by (cases msg) (simp_all add: client_message_def client_clock_simps)
    moreover have "\<forall>i. msg \<noteq> Cancelled i" if "cmd = Some (EvMessage msg)" for msg using that assms(2) ClCommand by auto
    ultimately show ?thesis
      using ClCommand assms(1) by (cases cmd) (auto simp: client_select_def split: ClientControlEvent.split)
  next
    case (ClPauseRequest req now)
    have "rs \<noteq> [] \<Longrightarrow> fst (last rs) \<le> now" if "cr_pause_request_open st" "req = Some b" for b
      using assms(3) ClPauseRequest that idle by (auto simp: sorted_append)
    then show ?thesis
      using ClPauseRequest assms(1) pause_inv_request [OF assms(1)] frame idle
      by (cases req) (auto simp: client_select_def)
  next
    case (ClCancelRequest req now)
    then show ?thesis using assms(1,2) frame by (cases req) (auto simp: client_select_def)
  next
    case (ClLocalEnd now)
    then show ?thesis using assms(1) frame by (auto simp: client_select_def split: option.split)
  qed (use assms(1) frame in \<open>auto simp: client_select_def client_clock_simps\<close>)
  moreover have "pause_inv e start rs (wait_ends ev st)" "pause_inv e start rs (feedback_sent d st)"
    "pause_inv e start rs (client_feedback e slots el st)" for d slots el
    by (rule frame; simp add: client_clock_simps)+
  moreover have "cr_busy st \<noteq> LoopIdle \<Longrightarrow> pause_taken ev st = []" by (cases "(ev, st)" rule: pause_taken.cases) auto
  ultimately show ?thesis using waits by (cases ev) (auto simp: client_event_step_def)
qed

lemma pause_inv_loop:
  assumes "pause_inv e start rs st" "list_all (\<lambda>ev. \<not> cancels ev) evs" "sorted (map fst (rs @ pauses_taken e evs st))"
    "client_loop e evs st = ClRunning st'"
  shows "pause_inv e start (rs @ pauses_taken e evs st) st'"
  using assms
proof (induction evs arbitrary: rs st)
  case (Cons ev evs)
  obtain st1 where st1: "client_event_step e ev st = ClRunning st1" "client_loop e evs st1 = ClRunning st'"
    using Cons.prems(4) by (auto split: client_step.splits)
  have s: "sorted (map fst (rs @ pause_taken ev st))" using Cons.prems(3) by (simp add: sorted_append)
  have "pause_inv e start (rs @ pause_taken ev st) st1"
    using pause_inv_event [OF Cons.prems(1) _ s] Cons.prems(2) st1(1) by auto
  from Cons.IH [OF this] Cons.prems(2,3) st1 show ?case by simp
qed simp

lemma pause_inv_init: "pause_inv e now [] (client_init e stats now)"
  by (simp add: pause_inv_def clock_inv_def client_init_def local_stop_deadline_def paused_now_def)

section \<open>Cancellation\<close>

definition cancel_inv :: "client_env \<Rightarrow> instant \<Rightarrow> client_state \<Rightarrow> bool" where
  "cancel_inv e bound st \<longleftrightarrow> cr_deadline st \<le> bound \<and> cr_pause_started_at st = None \<and> cr_stopped st
     \<and> Cancel (ce_test_id e) ''User requested cancellation'' \<in> set (cr_sent st)
     \<and> (finish_on_budget e \<longrightarrow> cr_finish_sent st)
     \<and> (\<forall>limit. cr_busy st = LoopWriting limit \<longrightarrow> (\<exists>d\<le>bound. limit = Some d))"

text \<open>What may follow the request: acknowledgements and further requests early enough for the bound, and no request to pause or
  resume.\<close>

fun within_bound :: "instant \<Rightarrow> client_event \<Rightarrow> bool" where
  "within_bound bound (ClPauseRequest req now) = (req = None)"
| "within_bound bound (ClCancelRequest req now) = (now + CONTROL_CANCEL_RESULT_TIMEOUT \<le> bound)"
| "within_bound bound (ClCommand cmd now stats info) = (now + CONTROL_CANCEL_RESULT_TIMEOUT \<le> bound)"
| "within_bound bound _ = True"

lemma interval_busy: "cr_busy st = LoopIdle \<Longrightarrow> cr_busy (client_interval e now stats info el ss ag st) \<noteq> LoopWriting limit"
  by (auto simp: client_interval_def receive_half_def start_showing_def Let_def split: prod.splits)

lemma tick_busy: "cr_busy st = LoopIdle \<Longrightarrow> cr_busy (client_tick e now stats delivered st) \<noteq> LoopWriting limit"
  by (auto simp: client_tick_def start_showing_def show_progress_def Let_def split: prod.splits)

lemma wait_busy: "\<forall>limit. cr_busy (wait_ends ev st) = LoopWriting limit \<longrightarrow> cr_busy st = LoopWriting limit"
  by (auto simp: wait_ends_def show_progress_def split: loop_busy.splits client_event.splits option.splits if_splits)

lemma cancel_inv_event:
  assumes "cancel_inv e bound st" "within_bound bound ev"
  shows "cancel_inv e bound (cl_state (client_event_step e ev st))"
proof -
  have "cancel_inv e bound (cl_state (client_select e ev st))" if idle: "cr_busy st = LoopIdle"
  proof (cases ev)
    case (ClCommand cmd now stats info)
    have "cancel_inv e bound (cl_state (client_message e now stats info msg st))" for msg
      using assms ClCommand idle
      by (cases msg) (simp_all add: client_message_def cancel_inv_def client_clock_simps start_control_cancel_wait_def interval_busy)
    then show ?thesis
      using ClCommand assms(1) by (cases cmd) (auto simp: client_select_def split: ClientControlEvent.split)
  next
    case (ClTick now stats delivered)
    then show ?thesis using assms idle by (simp add: client_select_def cancel_inv_def client_clock_simps tick_busy)
  qed (use assms idle in \<open>auto simp: client_select_def cancel_inv_def client_clock_simps
       send_control_cancel_def start_control_cancel_wait_def Let_def split: option.splits\<close>)
  moreover have "cancel_inv e bound (wait_ends ev st)"
    using assms(1) wait_busy unfolding cancel_inv_def client_clock_simps by blast
  moreover have "cancel_inv e bound (feedback_sent d st)" "cancel_inv e bound (client_feedback e slots el st)" for d slots el
    using assms(1) by (simp_all add: cancel_inv_def client_clock_simps)
  ultimately show ?thesis by (cases ev) (simp_all add: client_event_step_def)
qed

text \<open>From such a state the timers alone end the loop.\<close>

lemma cancel_inv_ends:
  assumes "cancel_inv e t st"
  shows "\<exists>r st'. client_loop e [ClWriteTimeout t, ClShown False, ClDeadline t] st = ClDone r st' \<and> cr_stopped st'
    \<and> Cancel (ce_test_id e) ''User requested cancellation'' \<in> set (cr_sent st')"
proof (cases "cr_busy st")
  case (LoopWriting limit)
  with assms obtain d where "limit = Some d" "d \<le> t" by (auto simp: cancel_inv_def)
  with LoopWriting assms show ?thesis by (simp add: client_event_step_def client_select_def wait_ends_def cancel_inv_def)
qed (use assms in \<open>simp_all add: client_event_step_def client_select_def wait_ends_def cancel_inv_def show_progress_def\<close>)

text \<open>A pause requested after the cancellation takes the bound off again.\<close>

lemma pause_after_cancel_freezes:
  assumes "cr_busy st = LoopIdle" "cr_pause_request_open st" "cr_pause_started_at st = None" "ce_supports_pause e"
  shows "\<exists>st'. client_loop e [ClPauseRequest (Some True) now, ClWritten, ClDeadline t] st = ClRunning st'"
  using assms by (simp add: client_event_step_def client_select_def client_pause_def start_write_def wait_ends_def Let_def)

text \<open>A pause, resume or finish message has no time limit: while its write hangs, the loop takes no request and no timer.\<close>

lemma untimed_write_hangs:
  assumes "cr_busy st = LoopWriting None" "ClWritten \<notin> set evs"
  shows "\<exists>st'. client_loop e evs st = ClRunning st' \<and> cr_busy st' = LoopWriting None \<and> cr_stopped st' = cr_stopped st
    \<and> cr_sent st' = cr_sent st"
  using assms
proof (induction evs arbitrary: st)
  case (Cons ev evs)
  have "\<exists>st1. client_event_step e ev st = ClRunning st1 \<and> cr_busy st1 = LoopWriting None \<and> cr_stopped st1 = cr_stopped st
      \<and> cr_sent st1 = cr_sent st"
    using Cons.prems by (cases ev) (simp_all add: client_event_step_def wait_ends_def client_clock_simps)
  with Cons.IH Cons.prems(2) show ?case by fastforce
qed simp

lemma finish_blocks_cancel:
  assumes "finish_on_budget e" "ClWritten \<notin> set evs"
  shows "\<exists>st'. client_loop e (ClSendingDone # ClCancelRequest (Some True) now # evs) (client_init e stats start) = ClRunning st'
    \<and> \<not> cr_stopped st' \<and> cr_sent st' = [Finish (ce_test_id e)]"
proof -
  obtain st1 where st1: "client_event_step e ClSendingDone (client_init e stats start) = ClRunning st1" "cr_busy st1 = LoopWriting None"
      "\<not> cr_stopped st1" "cr_sent st1 = [Finish (ce_test_id e)]"
    using assms(1) by (simp add: client_event_step_def client_select_def client_init_def start_write_def)
  then show ?thesis
    using untimed_write_hangs [of st1 "ClCancelRequest (Some True) now # evs" e] assms(2) by (auto simp del: client_loop.simps simp: client_loop.simps(2) [of e ClSendingDone])
qed

section \<open>Properties\<close>

definition sample_client :: "Protocol.Direction \<Rightarrow> client_env" where
  "sample_client d = \<lparr>ce_config = ClientConfig_default\<lparr>cl_protocol := Udp, cl_direction := d\<rparr>, ce_test_id = ''t'', ce_supports_pause = True,
     ce_supports_udp_feedback = True, ce_progress = True, ce_progress_start = 0\<rparr>"

definition received_stats :: "u64 \<Rightarrow> TestStats" where
  "received_stats n = (TestStats_new ''t'' 1 0)\<lparr>tst_streams := [add_bytes_received (StreamStats_new 0 0) n]\<rparr>"

definition sample_aggregate :: "UdpIntervalProgress \<Rightarrow> AggregateInterval" where
  "sample_aggregate p = \<lparr>ai_bytes = 0, ai_throughput_mbps = 0, ai_retransmits = None, ai_jitter_ms = None, ai_lost = None,
     ai_udp_progress = Some p, ai_rtt_us = None, ai_cwnd = None, ai_bytes_sent = None, ai_bytes_received = None,
     ai_throughput_send_mbps = None, ai_throughput_recv_mbps = None\<rparr>"

lemmas feedback_run_defs = sample_client_def client_event_step_def client_select_def client_init_def TestStats_new_def
  client_feedback_def has_feedback_consumer_def feedback_tick_def add_progress_def zero_progress_def filter_apply_def
  is_at_least_as_fresh_as_def feedback_sent_def show_progress_def feedback_progress_def saturating_add_def
  ClientConfig_default_def Let_def

text \<open>The two lanes can cross in the queue: the loop filters an update and waits for room, the feedback consumer queues a fresher
  one meanwhile.\<close>

lemma lanes_cross:
  "map (\<lambda>p. map_option (unat \<circ> up_packets_received) (tp_udp_progress p)) (cr_shown (cl_state (client_loop (sample_client Upload)
     [ClCommand (Some (EvMessage (Interval ''t'' 1000 [] (sample_aggregate \<lparr>up_packets_received = 5, up_packets_lost = 0\<rparr>)))) 1
        (TestStats_new ''t'' 1 0) (\<lambda>_. None),
      ClFeedback [\<lparr>up_packets_received = 9, up_packets_lost = 0\<rparr>] 2, ClFeedbackSent True, ClShown True]
     (client_init (sample_client Upload) (TestStats_new ''t'' 1 0) 0)))) = [Some 9, Some 5]"
  by (simp add: feedback_run_defs sample_aggregate_def client_message_def client_interval_def receive_half_def start_showing_def
      udp_download_def udp_bidir_def is_sender_def poll_local_tcp_info_def filter_option_def wait_ends_def)

text \<open>C17: the packet counts that the client queues for its consumer never go back within what one producer sends, however the
  server's interval messages, the UDP feedback and the local measurements interleave: neither in the updates of the loop nor in those of
  the feedback consumer, each one is at least as fresh as all of that producer before it, and none is fresher than the latest
  count that the filter the two share has let through. Between the two producers the order of the queue can differ from
  the filter's (\<open>lanes_cross\<close>), which is why the consumers check again.\<close>

theorem progress_never_goes_back:
  "let st = cl_state (client_loop e evs (client_init e stats now));
       counts = \<lambda>feedback. List.map_filter tp_udp_progress (filter (\<lambda>p. tp_udp_feedback_only p = feedback) (cr_shown st))
   in sorted_wrt (\<lambda>p q. is_at_least_as_fresh_as q p) (counts True)
      \<and> sorted_wrt (\<lambda>p q. is_at_least_as_fresh_as q p) (counts False)
      \<and> (\<forall>p\<in>set (counts True) \<union> set (counts False). \<exists>latest. cr_filter st = Some latest \<and> is_at_least_as_fresh_as latest p)"
proof -
  have "counts_inv (client_init e stats now)" by (simp add: counts_inv_def client_init_def in_flight_def)
  then have "counts_inv (cl_state (client_loop e evs (client_init e stats now)))"
    using client_loop_inv [of evs counts_inv e] counts_inv_event by blast
  note lanes = counts_inv_lane [OF this]
  then show ?thesis unfolding Let_def lane_def by blast
qed

theorem progress_never_goes_back_witness:
  "let st = cl_state (client_loop (sample_client Upload) [ClFeedback [\<lparr>up_packets_received = 5, up_packets_lost = 0\<rparr>] 10, ClFeedbackSent True]
       (client_init (sample_client Upload) (TestStats_new ''t'' 1 0) 0))
   in lane True (cr_shown st) = [\<lparr>up_packets_received = 5, up_packets_lost = 0\<rparr>]
      \<and> (\<exists>latest. cr_filter st = Some latest \<and> is_at_least_as_fresh_as latest \<lparr>up_packets_received = 5, up_packets_lost = 0\<rparr>)"
proof -
  let ?st = "cl_state (client_loop (sample_client Upload) [ClFeedback [\<lparr>up_packets_received = 5, up_packets_lost = 0\<rparr>] 10, ClFeedbackSent True]
       (client_init (sample_client Upload) (TestStats_new ''t'' 1 0) 0))"
  have "lane True (cr_shown ?st) = [\<lparr>up_packets_received = 5, up_packets_lost = 0\<rparr>]"
    by (simp add: feedback_run_defs)
  then show ?thesis
    using progress_never_goes_back [of "sample_client Upload" "[ClFeedback [\<lparr>up_packets_received = 5, up_packets_lost = 0\<rparr>] 10, ClFeedbackSent True]"
        "TestStats_new ''t'' 1 0" 0]
    unfolding Let_def lane_def [symmetric] by simp
qed

text \<open>The bytes that a UDP download shows for a stream, added up over all updates, are exactly the bytes its
  socket had received at the last update: nothing is shown twice or dropped, whatever the server's messages
  say and however the test is paused.\<close>

theorem download_progress_adds_up:
  assumes "udp_download e" "ce_progress e" "client_loop e evs (client_init e stats0 start) = ClRunning st"
    "cr_busy st = LoopIdle" "\<not> cr_local_stop_sent st" "cr_pause_started_at st = None"
    "ticks_monotone (replicate (length (tst_streams stats0)) 0) (evs @ [ClTick now stats d])" "k < length (tst_streams stats0)"
  shows "shown_bytes k (cr_shown (cl_state (client_loop e (evs @ [ClTick now stats d, ClShown True]) (client_init e stats0 start))))
    = unat (st_bytes_received (tst_streams stats ! k))"
proof -
  let ?z = "replicate (length (tst_streams stats0)) 0 :: u64 list" and ?tick = "client_tick e now stats d st"
  have "download_inv ?z (client_init e stats0 start)" by (simp add: download_inv_def client_init_def shown_bytes_def in_flight_def)
  from download_inv_prefix [OF this assms(1,2,7,3)]
  obtain prev where p: "ticks_monotone prev [ClTick now stats d]" "download_inv prev st" "length prev = length ?z" by blast
  then have t: "download_inv (counters_of stats) ?tick" "cr_last_recv_bytes ?tick = counters_of stats"
    using download_inv_tick [OF p(2) assms(4,1,2)] by simp_all
  have "length (counters_of stats) = length ?z" using p(1,3) by (auto dest: list_all2_lengthD)
  moreover have "ticks_monotone (counters_of stats) [ClShown True]" by simp
  from download_inv_event [OF t(1) assms(1,2) this]
  have "download_inv (counters_of stats) (cl_state (client_event_step e (ClShown True) ?tick))" by simp
  moreover have step: "cl_state (client_loop e (evs @ [ClTick now stats d, ClShown True]) (client_init e stats0 start))
      = cl_state (client_event_step e (ClShown True) ?tick)"
    using assms(1,3-6) by (simp add: client_loop_append client_event_step_def client_select_def)
  moreover have "cr_busy ?tick \<noteq> LoopIdle"
    using assms(1,2) by (auto simp: client_tick_def start_showing_def udp_download_def udp_bidir_def Let_def split: prod.splits)
  then have "in_flight (cl_state (client_event_step e (ClShown True) ?tick)) = []" "cr_last_recv_bytes (cl_state (client_event_step e (ClShown True) ?tick)) = counters_of stats"
    using t assms(1,2) by (auto simp: client_event_step_def wait_ends_def show_progress_def in_flight_def download_inv_def
        client_tick_def start_showing_def udp_download_def udp_bidir_def Let_def split: prod.splits)
  ultimately show ?thesis using assms(8) unfolding step by (simp add: download_inv_def counters_of_def)
qed

text \<open>C18: time spent paused costs the test nothing. As long as nobody cancels, a client that has taken the requests \<open>rs\<close> to pause
  and resume is paused exactly when the last of them says so, and what it has then counted as paused is the time from each request to pause to the
  next request. It gives up waiting exactly when the requested duration, thirty seconds and that time have passed, never while
  paused, and stops its own streams only when the requested duration and that time have passed; a test without a
  duration is never stopped here.\<close>

theorem pauses_cost_no_time:
  assumes "client_loop e evs (client_init e stats start) = ClRunning st" "list_all (\<lambda>ev. \<not> cancels ev) evs" "cr_busy st = LoopIdle"
    "sorted (map fst (pauses_taken e evs (client_init e stats start)))"
  shows "let rs = pauses_taken e evs (client_init e stats start); paused = (rs \<noteq> [] \<and> snd (last rs))
    in (cr_pause_started_at st = None \<longleftrightarrow> \<not> paused)
    \<and> (\<not> paused \<longrightarrow> cr_paused_total st = paused_between rs)
    \<and> (client_event_step e (ClDeadline t) st = ClDone (Err TimedOut) st
      \<longleftrightarrow> \<not> paused \<and> start + timeout_duration e + paused_between rs \<le> t)
    \<and> (cr_stopped (cl_state (client_event_step e (ClLocalEnd t) st))
      \<longleftrightarrow> cr_stopped st \<or> (\<not> cr_local_stop_sent st \<and> \<not> paused \<and> cl_duration (ce_config e) \<noteq> 0
           \<and> start + cl_duration (ce_config e) + paused_between rs \<le> t))"
proof -
  have "pause_inv e start ([] @ pauses_taken e evs (client_init e stats start)) st"
    by (rule pause_inv_loop [OF pause_inv_init assms(2) _ assms(1)]) (use assms(4) in simp)
  then show ?thesis
    using assms(3) unfolding Let_def
    by (cases "cr_pause_started_at st")
      (auto simp: client_event_step_def client_select_def pause_inv_def clock_inv_def paused_now_def)
qed

theorem pauses_cost_no_time_witness:
  "\<exists>st. client_loop (sample_client Upload) [ClPauseRequest (Some True) 4, ClWritten, ClPauseRequest (Some True) 6, ClWritten,
        ClPauseRequest (Some False) 9, ClWritten] (client_init (sample_client Upload) (TestStats_new ''t'' 1 0) 0) = ClRunning st
     \<and> client_event_step (sample_client Upload) (ClDeadline 40000000004) st \<noteq> ClDone (Err TimedOut) st
     \<and> client_event_step (sample_client Upload) (ClDeadline 40000000005) st = ClDone (Err TimedOut) st"
proof -
  let ?evs = "[ClPauseRequest (Some True) 4, ClWritten, ClPauseRequest (Some True) 6, ClWritten, ClPauseRequest (Some False) 9, ClWritten]"
  let ?st0 = "client_init (sample_client Upload) (TestStats_new ''t'' 1 0) 0"
  note defs = client_event_step_def client_select_def wait_ends_def client_pause_def start_write_def client_init_def sample_client_def Let_def
  have "\<exists>st. client_loop (sample_client Upload) ?evs ?st0 = ClRunning st \<and> cr_busy st = LoopIdle \<and> cr_pause_started_at st = None"
    by (simp add: defs)
  then obtain st where st: "client_loop (sample_client Upload) ?evs ?st0 = ClRunning st" "cr_busy st = LoopIdle"
    by blast
  have rs: "pauses_taken (sample_client Upload) ?evs ?st0 = [(4, True), (6, True), (9, False)]" by (simp add: defs)
  have d: "timeout_duration (sample_client Upload) = 40000000000"
    by (simp add: timeout_duration_def sample_client_def ClientConfig_default_def)
  show ?thesis
    using pauses_cost_no_time [OF st(1) _ st(2), of 40000000004] pauses_cost_no_time [OF st(1) _ st(2), of 40000000005]
    unfolding rs Let_def by (intro exI [of _ st] conjI st(1)) (simp_all add: d)
qed

text \<open>C19: a cancellation ends the client in bounded time, whatever the server and the network do. A request to cancel that comes while the loop
  waits for nothing, or for the consumer of its updates, in a paused test too, is taken; the streams are told to stop at once and a
  message to the server is begun. Whatever then happens, with the write of that message hanging as on a dead link, the timers end the loop
  three seconds after the last request to cancel and the server's last message. Excepted are the
  messages whose writes have no limit: a request to pause or resume that follows, and a finish that is still to be sent
  (\<open>finish_blocks_cancel\<close>).\<close>

theorem cancel_is_bounded:
  assumes "cr_cancel_request_open st" "\<forall>limit. cr_busy st \<noteq> LoopWriting limit" "finish_on_budget e \<longrightarrow> cr_finish_sent st"
    "now + CONTROL_CANCEL_RESULT_TIMEOUT \<le> t" "list_all (within_bound t) evs"
  shows "\<exists>r st'. client_loop e (ClShown False # ClCancelRequest (Some True) now # evs @ [ClWriteTimeout t, ClShown False, ClDeadline t]) st
      = ClDone r st' \<and> cr_stopped st'
    \<and> Cancel (ce_test_id e) ''User requested cancellation'' \<in> set (cr_sent st')"
proof -
  obtain st0 where st0: "client_event_step e (ClShown False) st = ClRunning st0" "cr_busy st0 = LoopIdle" "cr_cancel_request_open st0"
      "cr_finish_sent st0 = cr_finish_sent st"
    using assms(1,2) by (cases "cr_busy st") (simp_all add: client_event_step_def client_select_def wait_ends_def show_progress_def)
  obtain st1 where st1: "client_event_step e (ClCancelRequest (Some True) now) st0 = ClRunning st1" "cancel_inv e t st1"
    using assms(3,4) st0 by (simp add: client_event_step_def client_select_def send_control_cancel_def start_control_cancel_wait_def
        cancel_inv_def write_clock Let_def)
  have inv: "cancel_inv e t (cl_state (client_loop e evs st1))"
    by (rule client_loop_inv [OF cancel_inv_event st1(2)]) (use assms(5) in \<open>simp_all add: list_all_iff\<close>)
  show ?thesis
  proof (cases "client_loop e evs st1")
    case (ClRunning st2)
    with inv have "cancel_inv e t st2" by simp
    from cancel_inv_ends [OF this] ClRunning st0(1) st1(1) show ?thesis
      by (simp only: client_loop.simps(2) client_loop_append client_step.case)
  next
    case (ClDone r st2)
    with inv st0(1) st1(1) show ?thesis by (simp add: client_loop_append cancel_inv_def)
  qed
qed

theorem cancel_is_bounded_witness:
  "\<exists>r st'. client_loop (sample_client Upload) (ClShown False # ClCancelRequest (Some True) 5 #
       [ClCommand (Some (EvMessage (Cancelled ''t''))) 7 (TestStats_new ''t'' 1 0) (\<lambda>_. None)]
       @ [ClWriteTimeout 3000000007, ClShown False, ClDeadline 3000000007])
       (client_init (sample_client Upload) (TestStats_new ''t'' 1 0) 0) = ClDone r st' \<and> cr_stopped st'"
  using cancel_is_bounded [of "client_init (sample_client Upload) (TestStats_new ''t'' 1 0) 0" "sample_client Upload" 5 3000000007
      "[ClCommand (Some (EvMessage (Cancelled ''t''))) 7 (TestStats_new ''t'' 1 0) (\<lambda>_. None)]"]
  by (auto simp: client_init_def CONTROL_CANCEL_RESULT_TIMEOUT_def finish_on_budget_def sample_client_def ClientConfig_default_def)

section \<open>The result\<close>

text \<open>A run ends with a result only by the server's result message.\<close>

lemma client_loop_result:
  assumes "client_loop e evs st = ClDone (Ok r) st'"
  shows "\<exists>result now stats info.
    ClCommand (Some (EvMessage (Result result))) now stats info \<in> set evs \<and> r = client_result e stats info result"
  using assms
proof (induction evs arbitrary: st)
  case (Cons ev evs)
  show ?case
  proof (cases "client_event_step e ev st")
    case (ClRunning st1)
    with Cons.IH [of st1] Cons.prems show ?thesis by (simp, blast)
  next
    case (ClDone r1 st1)
    with Cons.prems have "client_event_step e ev st = ClDone (Ok r) st'" by simp
    then have "\<exists>result now stats info.
        ev = ClCommand (Some (EvMessage (Result result))) now stats info \<and> r = client_result e stats info result"
      by (cases ev) (auto simp: client_event_step_def client_select_def client_message_def split: option.splits if_splits
          ClientControlEvent.splits ControlMessage.splits prod.splits)
    then show ?thesis by fastforce
  qed
qed simp

lemma client_result_frame:
  "tr_id (client_result e stats info result) = tr_id result" "tr_duration_ms (client_result e stats info result) = tr_duration_ms result"
  "tr_bytes_total (client_result e stats info result) = tr_bytes_total result"
  "tr_bytes_sent (client_result e stats info result) = tr_bytes_sent result"
  by (simp_all add: client_result_def Let_def split: option.split)

lemma no_control_in_sanitized: "\<forall>c\<in>set (sanitize_message m). \<not> is_control c"
  by (auto simp: sanitize_message_def dest: in_set_takeD)

lemma clean_errors:
  "\<forall>errs. tr_server_udp_send_errors r = Some errs \<longrightarrow> list_all (\<lambda>c. \<not> is_control c) (se_last_error errs)"
  if "client_finish e stats x = Ok r"
  using that no_control_in_sanitized
  by (cases x) (auto simp: client_finish_def Let_def list_all_iff split: if_splits)

lemma run_result_counts:
  assumes "client_run e stats0 start evs stats = (Some (Ok r), st)"
  shows "\<exists>result now s info. ClCommand (Some (EvMessage (Result result))) now s info \<in> set evs
    \<and> tr_id r = tr_id result \<and> tr_duration_ms r = tr_duration_ms result
    \<and> (udp_download e \<longrightarrow> tr_bytes_total r = total_bytes_received stats
         \<and> (\<forall>x\<in>set (tr_streams r). unat (str_id x) < length (tst_streams stats) \<longrightarrow>
               str_bytes x = st_bytes_received (tst_streams stats ! unat (str_id x))))
    \<and> (udp_bidir e \<longrightarrow> tr_bytes_received r = Some (total_bytes_received stats) \<and> tr_bytes_sent r = tr_bytes_sent result
         \<and> (\<forall>sent. tr_bytes_sent r = Some sent \<longrightarrow> tr_bytes_total r = sent + total_bytes_received stats))
    \<and> (\<not> udp_download e \<and> \<not> udp_bidir e \<longrightarrow> tr_bytes_total r = tr_bytes_total result)
    \<and> (\<forall>errs. tr_server_udp_send_errors r = Some errs \<longrightarrow> list_all (\<lambda>c. \<not> is_control c) (se_last_error errs))"
proof -
  obtain x st' where x: "client_loop e evs (client_init e stats0 start) = ClDone x st'" "client_finish e stats x = Ok r"
    using assms by (auto simp: client_run_def split: client_step.splits)
  then obtain y where y: "x = Ok y" by (cases x) (auto simp: client_finish_def)
  then obtain result now s info where res: "ClCommand (Some (EvMessage (Result result))) now s info \<in> set evs"
    "y = client_result e s info result"
    using client_loop_result x(1) by blast
  have excl: "udp_download e \<Longrightarrow> \<not> udp_bidir e" by (auto simp: udp_download_def udp_bidir_def)
  have tcp: "udp_download e \<or> udp_bidir e \<Longrightarrow> cl_protocol (ce_config e) \<noteq> Tcp" by (auto simp: udp_download_def udp_bidir_def)
  note frame = client_result_frame [of e s info result]
  have id: "tr_id r = tr_id result \<and> tr_duration_ms r = tr_duration_ms result"
    using x(2) y res(2) frame
    by (auto simp: client_finish_def overlay_udp_download_result_def overlay_udp_bidir_result_def Let_def split: if_splits option.splits)
  moreover have "udp_download e \<longrightarrow> tr_bytes_total r = total_bytes_received stats
      \<and> (\<forall>x\<in>set (tr_streams r). unat (str_id x) < length (tst_streams stats) \<longrightarrow>
               str_bytes x = st_bytes_received (tst_streams stats ! unat (str_id x)))"
    using x(2) y excl tcp by (auto simp: client_finish_def overlay_udp_download_result_def Let_def)
  moreover have "udp_bidir e \<longrightarrow> tr_bytes_received r = Some (total_bytes_received stats) \<and> tr_bytes_sent r = tr_bytes_sent result
      \<and> (\<forall>sent. tr_bytes_sent r = Some sent \<longrightarrow> tr_bytes_total r = sent + total_bytes_received stats)"
    using x(2) y excl tcp res(2) frame
    by (auto simp: client_finish_def overlay_udp_bidir_result_def Let_def split: option.splits)
  moreover have "\<not> udp_download e \<and> \<not> udp_bidir e \<longrightarrow> tr_bytes_total r = tr_bytes_total result"
    using x(2) y res(2) frame by (auto simp: client_finish_def Let_def split: if_splits)
  ultimately show ?thesis using res(1) clean_errors [OF x(2)] by blast
qed

text \<open>A run that returns a result returns the one the server sent, with its identity and duration, in which the
  receiver's own counts replace the sender's: a UDP download has the bytes this end's sockets received, in
  total and for every stream it knows; in both directions the received half is this end's count and the
  total is the two halves added up. The server's error text is free of control characters.\<close>

theorem result_has_receiver_counts:
  assumes "client_run e stats0 start evs stats = (Some (Ok r), st)"
  shows "\<exists>result now s info. ClCommand (Some (EvMessage (Result result))) now s info \<in> set evs
    \<and> tr_id r = tr_id result \<and> tr_duration_ms r = tr_duration_ms result
    \<and> (udp_download e \<longrightarrow> tr_bytes_total r = total_bytes_received stats
         \<and> (\<forall>x\<in>set (tr_streams r). unat (str_id x) < length (tst_streams stats) \<longrightarrow>
               str_bytes x = st_bytes_received (tst_streams stats ! unat (str_id x))))
    \<and> (udp_bidir e \<longrightarrow> tr_bytes_received r = Some (total_bytes_received stats) \<and> tr_bytes_sent r = tr_bytes_sent result
         \<and> (\<forall>sent. tr_bytes_sent r = Some sent \<longrightarrow> tr_bytes_total r = sent + total_bytes_received stats))
    \<and> (\<not> udp_download e \<and> \<not> udp_bidir e \<longrightarrow> tr_bytes_total r = tr_bytes_total result)
    \<and> (\<forall>errs. tr_server_udp_send_errors r = Some errs \<longrightarrow> list_all (\<lambda>c. \<not> is_control c) (se_last_error errs))"
  using run_result_counts [OF assms] .

definition sample_result :: TestResult where
  "sample_result = \<lparr>tr_id = ''t'', tr_bytes_total = 99, tr_duration_ms = 1000, tr_throughput_mbps = 0, tr_streams = [], tr_tcp_info = None,
     tr_udp_stats = None, tr_udp_stats_send = None, tr_udp_stats_recv = None, tr_bytes_sent = None, tr_bytes_received = None,
     tr_throughput_send_mbps = None, tr_throughput_recv_mbps = None, tr_mtu_probe = None, tr_server_udp_send_errors = None,
     tr_client_udp_send_errors = None, tr_zero_byte_streams = None\<rparr>"

theorem result_has_receiver_counts_witness:
  "\<exists>r st. client_run (sample_client Download) (TestStats_new ''t'' 1 0) 0
      [ClCommand (Some (EvMessage (Result sample_result))) 5 (received_stats 7) (\<lambda>_. None)] (received_stats 7) = (Some (Ok r), st)
    \<and> tr_bytes_total r = 7"
proof -
  have dl: "udp_download (sample_client Download)" "\<not> is_sender (sample_client Download)"
    by (simp_all add: udp_download_def is_sender_def sample_client_def)
  obtain r st where r: "client_run (sample_client Download) (TestStats_new ''t'' 1 0) 0
      [ClCommand (Some (EvMessage (Result sample_result))) 5 (received_stats 7) (\<lambda>_. None)] (received_stats 7) = (Some (Ok r), st)"
    by (simp add: client_run_def client_event_step_def client_select_def client_init_def client_message_def client_finish_def Let_def)
  have "total_bytes_received (received_stats 7) = 7"
    by (simp add: total_bytes_received_def received_stats_def add_bytes_received_def StreamStats_new_def)
  with result_has_receiver_counts [OF r] dl(1) r show ?thesis by auto
qed

end
