(* ===== verification/Server.thy ===== *)
theory Server
  imports Handshake Stats
begin

text \<open>
  The server around its tests, of \<open>serve.rs\<close>: configuration, admission of connections (access lists, permits, rate
  limit), routing of data connections and of single-port UDP hellos to their tests, collection of a
  test's streams, the registry of running tests, and the result sent at the end. The kernel's part (creating
  sockets, whether a send succeeds) is an input.
\<close>

section \<open>Configuration\<close>

record ServerConfig =
  sf_port :: u16
  sf_one_off :: bool
  sf_max_duration :: "duration option"
  sf_push_gateway_url :: "string option"
  sf_auth :: AuthConfig
  sf_acl :: AclConfig
  sf_rate_limit :: RateLimitConfig
  sf_address_family :: AddressFamily
  sf_bind_addr :: "IpAddr option"
  sf_enable_quic :: bool
  sf_max_concurrent :: u32
  sf_no_mdns :: bool
  sf_preset_allowed_clients :: "string list option"

definition ServerConfig_default :: ServerConfig where
  "ServerConfig_default = \<lparr>sf_port = DEFAULT_PORT, sf_one_off = False, sf_max_duration = None, sf_push_gateway_url = None,
     sf_auth = \<lparr>ac_psk = None\<rparr>, sf_acl = \<lparr>cfg_allow = [], cfg_deny = [], cfg_file = None\<rparr>,
     sf_rate_limit = RateLimitConfig_default, sf_address_family = DualStack, sf_bind_addr = None, sf_enable_quic = True,
     sf_max_concurrent = 100, sf_no_mdns = False, sf_preset_allowed_clients = None\<rparr>"

datatype server_config_error = BadAuth auth_error | ZeroWindow

definition ServerConfig_validate :: "ServerConfig \<Rightarrow> server_config_error + unit" where
  "ServerConfig_validate c =
     (case AuthConfig_validate (sf_auth c) of
        Err e \<Rightarrow> Err (BadAuth e)
      | Ok _ \<Rightarrow> if rlc_max_per_ip (sf_rate_limit c) = None \<or> 0 < rlc_window_secs (sf_rate_limit c) then Ok () else Err ZeroWindow)"

definition build_preset_acl :: "(string \<Rightarrow> 'net option) \<Rightarrow> string list option \<Rightarrow> acl_error + 'net Acl option" where
  "build_preset_acl parse allowed_clients =
     (case allowed_clients of
        Some clients \<Rightarrow>
          if clients = [] then Ok None
          else (case from_rules parse clients [] of Err e \<Rightarrow> Err e | Ok acl \<Rightarrow> Ok (Some acl))
      | None \<Rightarrow> Ok None)"

text \<open>Whether the main UDP port takes hellos: the start-up test passed, and either QUIC's endpoint or a plain
  shared socket is there. The capability is advertised exactly then.\<close>

definition udp_hello_active :: "bool \<Rightarrow> bool \<Rightarrow> bool \<Rightarrow> bool" where
  "udp_hello_active self_test_ok enable_quic shared_socket_ok = (self_test_ok \<and> (enable_quic \<or> shared_socket_ok))"

definition runtime_capabilities :: "bool \<Rightarrow> string list" where
  "runtime_capabilities hello_routes =
     (if hello_routes then supported_capabilities else supported_capabilities_without SINGLE_PORT_UDP_CAPABILITY)"

definition udp_v6only :: "AddressFamily \<Rightarrow> bool option" where
  "udp_v6only f = (case f of V4Only \<Rightarrow> None | V6Only \<Rightarrow> Some True | DualStack \<Rightarrow> Some False)"

definition legacy_udp_bind_addr :: "IpAddr option \<Rightarrow> SocketAddr \<Rightarrow> SocketAddr" where
  "legacy_udp_bind_addr bind_addr control_local =
     (case bind_addr of Some ip \<Rightarrow> SocketAddr_new ip 0 | None \<Rightarrow> with_port (normalize_addr control_local) 0)"

definition SERVER_DATA_NODELAY :: bool where "SERVER_DATA_NODELAY = True"

definition server_data_nodelay :: "bool \<Rightarrow> bool" where
  "server_data_nodelay client_requested = (client_requested \<or> SERVER_DATA_NODELAY)"

definition DEFAULT_BITRATE_BPS :: u64 where "DEFAULT_BITRATE_BPS = 1000000000"

definition per_stream_bitrate :: "u64 \<Rightarrow> nat \<Rightarrow> u64" where
  "per_stream_bitrate bitrate num_streams =
     (if bitrate = 0 then 0 else max (bitrate div word_of_nat (max num_streams 1)) 1)"

section \<open>Running tests\<close>

text \<open>The data channel of a single-port TCP test is the list of stream indices sent on it.\<close>

record ActiveTest =
  av_cancelled :: bool
  av_paused :: bool
  av_data_ports :: "u16 list"
  av_data_stream_tx :: "u16 list option"
  av_control_peer_ip :: IpAddr
  av_expected_streams :: u8

type_synonym active_tests = "string \<rightharpoonup> ActiveTest"

definition remove_active_test :: "active_tests \<Rightarrow> string \<Rightarrow> active_tests" where
  "remove_active_test tests test_id = tests(test_id := None)"

definition INITIAL_READ_TIMEOUT :: duration where "INITIAL_READ_TIMEOUT = 5000000000"
definition INITIAL_READ_TIMEOUT_PER_STREAM_MS :: u64 where "INITIAL_READ_TIMEOUT_PER_STREAM_MS = 80"
definition INITIAL_READ_TIMEOUT_MAX :: duration where "INITIAL_READ_TIMEOUT_MAX = 20000000000"

text \<open>The registry's values in any order.\<close>

definition initial_read_timeout_for_peer :: "ActiveTest list \<Rightarrow> IpAddr \<Rightarrow> duration" where
  "initial_read_timeout_for_peer tests peer_ip =
     (let mine = filter (\<lambda>t. normalize_ip (av_control_peer_ip t) = normalize_ip peer_ip) tests;
          max_streams = foldl max 0 (map (\<lambda>t. ucast (av_expected_streams t) :: u64) mine);
          scaled = unat (saturating_mul max_streams INITIAL_READ_TIMEOUT_PER_STREAM_MS) * 1000000;
          timeout = (if INITIAL_READ_TIMEOUT < scaled then scaled else INITIAL_READ_TIMEOUT)
      in min timeout INITIAL_READ_TIMEOUT_MAX)"

section \<open>The first line\<close>

datatype first_line_error = FirstClosed | FirstFailed | FirstTooLong

text \<open>One byte at a time, so that nothing after the line is taken from the socket; the rest of the bytes is
  returned. \<open>fails\<close> says that the socket fails after its last byte instead of ending.\<close>

fun read_first_line :: "nat \<Rightarrow> bool \<Rightarrow> bytes \<Rightarrow> bytes \<Rightarrow> first_line_error + bytes \<times> bytes" where
  "read_first_line max_len fails line [] = Err (if fails then FirstFailed else FirstClosed)"
| "read_first_line max_len fails line (b # bs) =
     (if b = 10 then Ok (line, bs)
      else if max_len \<le> length line + 1 then Err FirstTooLong
      else read_first_line max_len fails (line @ [b]) bs)"

definition read_first_line_unbuffered :: "nat \<Rightarrow> bool \<Rightarrow> bytes \<Rightarrow> first_line_error + bytes \<times> bytes" where
  "read_first_line_unbuffered max_len fails bs =
     (case read_first_line max_len fails [] bs of Err e \<Rightarrow> Err e | Ok (line, rest) \<Rightarrow> Ok (from_utf8_lossy line, rest))"

section \<open>Routing data connections\<close>

datatype route_outcome = Routed | RouteClosed | UnauthorizedIp | UnknownTest

text \<open>\<open>takes\<close>: the test still takes streams from its channel.\<close>

definition route_data_hello :: "active_tests \<Rightarrow> IpAddr \<Rightarrow> string \<Rightarrow> u16 \<Rightarrow> bool \<Rightarrow> active_tests \<times> route_outcome" where
  "route_data_hello tests peer_ip test_id stream_index takes =
     (case tests test_id of
        None \<Rightarrow> (tests, UnknownTest)
      | Some test \<Rightarrow>
          if normalize_ip (av_control_peer_ip test) \<noteq> normalize_ip peer_ip then (tests, UnauthorizedIp)
          else (case av_data_stream_tx test of
                  None \<Rightarrow> (tests, UnknownTest)
                | Some sent \<Rightarrow>
                    if takes then (tests(test_id \<mapsto> test\<lparr>av_data_stream_tx := Some (sent @ [stream_index])\<rparr>), Routed)
                    else (tests, RouteClosed)))"

text \<open>The streams of a test as they arrive: what the handlers were started for, until all are there or
  something stops the collection.\<close>

datatype collect_event = Arrived u16 | CollectCancelled | CollectCancelToggled | CollectTimeout | CollectClosed

fun collect_streams :: "nat \<Rightarrow> bool list \<Rightarrow> collect_event list \<Rightarrow> nat list \<times> bool list" where
  "collect_streams n received [] = ([], received)"
| "collect_streams n received (ev # evs) =
     (if \<not> list_ex Not received then ([], received)
      else (case ev of
              Arrived stream_index \<Rightarrow>
                (let i = unat stream_index
                 in if n \<le> i then collect_streams n received evs
                    else if received ! i then collect_streams n received evs
                    else (let (hs, r) = collect_streams n (received[i := True]) evs in (i # hs, r)))
            | CollectCancelToggled \<Rightarrow> collect_streams n received evs
            | _ \<Rightarrow> ([], received)))"

section \<open>Single-port UDP hellos\<close>

text \<open>A created socket is a number; \<open>uh_sockets\<close> has those of each stream.\<close>

record UdpHelloRoute =
  uh_control_peer_ip :: IpAddr
  uh_control_local :: SocketAddr
  uh_expected_streams :: u8
  uh_udp_buffer :: "u64 option"
  uh_sockets :: "nat option list"
  uh_send_errors :: "nat list"

datatype UdpHelloVerdict = Accept | Resend | UnknownToken | IpMismatch | BadStreamIndex

definition check_udp_hello :: "UdpHelloRoute option \<Rightarrow> UdpHelloPacket \<Rightarrow> IpAddr \<Rightarrow> UdpHelloVerdict" where
  "check_udp_hello route pkt src_ip =
     (case route of
        None \<Rightarrow> UnknownToken
      | Some route \<Rightarrow>
          if normalize_ip src_ip \<noteq> normalize_ip (uh_control_peer_ip route) then IpMismatch
          else if ucast (uh_expected_streams route) \<le> hello_stream_index pkt then BadStreamIndex
          else if unat (hello_stream_index pkt) < length (uh_sockets route) \<and> uh_sockets route ! unat (hello_stream_index pkt) \<noteq> None
          then Resend else Accept)"

text \<open>A datagram at the dispatcher: the connected socket the kernel made, if the hello is accepted, whether
  the ack was sent, whether the route is still there after that, and whether the test took the socket.\<close>

record hello_in =
  hd_data :: bytes
  hd_src :: IpAddr
  hd_created :: "nat option"
  hd_ack_sent :: bool
  hd_route_alive :: bool
  hd_taken :: bool

text \<open>What the dispatcher does: acks by socket, and sockets handed to the test of a token for a stream.\<close>

datatype hello_out = AckFrom nat bytes | HandOff bytes nat nat

type_synonym hello_routes = "bytes \<rightharpoonup> UdpHelloRoute"

definition count_send_error :: "hello_routes \<Rightarrow> bytes \<Rightarrow> nat \<Rightarrow> hello_routes" where
  "count_send_error routes token i =
     (case routes token of
        Some route \<Rightarrow> routes(token \<mapsto> route\<lparr>uh_send_errors := (uh_send_errors route)[i := uh_send_errors route ! i + 1]\<rparr>)
      | None \<Rightarrow> routes)"

definition hello_ack :: "UdpHelloPacket \<Rightarrow> bytes" where
  "hello_ack pkt = UdpHelloPacket_encode (pkt\<lparr>hello_kind := UDP_HELLO_KIND_ACK\<rparr>)"

definition create_stream_socket :: "hello_routes \<Rightarrow> UdpHelloPacket \<Rightarrow> hello_in \<Rightarrow> hello_routes \<times> hello_out list" where
  "create_stream_socket routes pkt h =
     (let token = hello_token pkt; i = unat (hello_stream_index pkt)
      in case hd_created h of
           None \<Rightarrow> (count_send_error routes token i, [])
         | Some sock \<Rightarrow>
             (let acks = (if hd_ack_sent h then [AckFrom sock (hello_ack pkt)] else []);
                  routes = (if hd_ack_sent h then routes else count_send_error routes token i);
                  routes = (if hd_route_alive h then routes else routes(token := None))
              in case routes token of
                   None \<Rightarrow> (routes, acks)
                 | Some route \<Rightarrow>
                     (routes(token \<mapsto> route\<lparr>uh_sockets := (uh_sockets route)[i := Some sock]\<rparr>),
                      acks @ (if hd_taken h then [HandOff token i sock] else []))))"

definition dispatch_hello :: "hello_routes \<Rightarrow> hello_in \<Rightarrow> hello_routes \<times> hello_out list" where
  "dispatch_hello routes h =
     (case UdpHelloPacket_decode (hd_data h) of
        None \<Rightarrow> (routes, [])
      | Some pkt \<Rightarrow>
          if hello_kind pkt \<noteq> UDP_HELLO_KIND_HELLO then (routes, [])
          else (case check_udp_hello (routes (hello_token pkt)) pkt (hd_src h) of
                  Accept \<Rightarrow> create_stream_socket routes pkt h
                | Resend \<Rightarrow>
                    (case uh_sockets (the (routes (hello_token pkt))) ! unat (hello_stream_index pkt) of
                       Some sock \<Rightarrow> (routes, if hd_ack_sent h then [AckFrom sock (hello_ack pkt)] else [])
                     | None \<Rightarrow> (routes, []))
                | _ \<Rightarrow> (routes, [])))"

fun dispatch_hellos :: "hello_routes \<Rightarrow> hello_in list \<Rightarrow> hello_routes \<times> hello_out list" where
  "dispatch_hellos routes [] = (routes, [])"
| "dispatch_hellos routes (h # hs) =
     (let (routes', out) = dispatch_hello routes h; (routes'', outs) = dispatch_hellos routes' hs in (routes'', out @ outs))"

text \<open>The listener without QUIC passes on what is in the hello lane.\<close>

definition plain_hello_listener :: "(bytes \<times> IpAddr) list \<Rightarrow> (bytes \<times> IpAddr) list" where
  "plain_hello_listener ds = filter (\<lambda>(d, src). classify_shared_datagram d = XfrHello) ds"

section \<open>Starting and ending a test\<close>

text \<open>The ports or the token that the client gets; \<open>ports\<close> are those of the sockets bound for it and
  \<open>candidates\<close> the random tokens drawn, of which the first unused one is taken.\<close>

datatype test_error = QuicNeedsEndpoint | NoTokenYet

record test_request =
  tn_id :: string
  tn_protocol :: Protocol
  tn_streams :: u8
  tn_peer_ip :: IpAddr
  tn_control_local :: SocketAddr
  tn_window_size :: "u64 option"
  tn_single_port_tcp :: bool

definition register_test :: "test_request \<Rightarrow> u16 list \<Rightarrow> bool \<Rightarrow> active_tests \<Rightarrow> active_tests" where
  "register_test req data_ports has_channel tests =
     tests(tn_id req \<mapsto> \<lparr>av_cancelled = False, av_paused = False, av_data_ports = data_ports,
       av_data_stream_tx = (if has_channel then Some [] else None), av_control_peer_ip = tn_peer_ip req,
       av_expected_streams = tn_streams req\<rparr>)"

definition hello_route :: "test_request \<Rightarrow> UdpHelloRoute" where
  "hello_route req = \<lparr>uh_control_peer_ip = tn_peer_ip req, uh_control_local = tn_control_local req,
     uh_expected_streams = tn_streams req, uh_udp_buffer = tn_window_size req,
     uh_sockets = replicate (unat (tn_streams req)) None, uh_send_errors = replicate (unat (tn_streams req)) 0\<rparr>"

definition start_test ::
  "test_request \<Rightarrow> bool \<Rightarrow> bytes list \<Rightarrow> u16 list \<Rightarrow> active_tests \<Rightarrow> hello_routes
     \<Rightarrow> test_error + ControlMessage \<times> bytes option \<times> active_tests \<times> hello_routes" where
  "start_test req udp_single_port candidates ports tests routes =
     (case tn_protocol req of
        Tcp \<Rightarrow>
          if tn_single_port_tcp req
          then Ok (TestAck (tn_id req) [] None, None, register_test req [] True tests, routes)
          else Ok (TestAck (tn_id req) ports None, None, register_test req ports False tests, routes)
      | Udp \<Rightarrow>
          if udp_single_port
          then (case find (\<lambda>t. routes t = None) candidates of
                  None \<Rightarrow> Err NoTokenYet
                | Some token \<Rightarrow>
                    Ok (TestAck (tn_id req) [] (Some (encode_hello_token token)), Some token,
                        register_test req [] False tests, routes(token \<mapsto> hello_route req)))
          else Ok (TestAck (tn_id req) ports None, None, register_test req ports False tests, routes)
      | _ \<Rightarrow> Err QuicNeedsEndpoint)"

text \<open>At the end, by whatever path: the registry entry and the hello route go.\<close>

definition end_test :: "string \<Rightarrow> bytes option \<Rightarrow> active_tests \<Rightarrow> hello_routes \<Rightarrow> active_tests \<times> hello_routes" where
  "end_test test_id token tests routes =
     (remove_active_test tests test_id, case token of Some t \<Rightarrow> routes(t := None) | None \<Rightarrow> routes)"

section \<open>Admission\<close>

text \<open>Who may connect: both lists must let the address in.\<close>

definition peer_allowed :: "('net \<Rightarrow> IpAddr \<Rightarrow> bool) \<Rightarrow> 'net Acl \<Rightarrow> 'net Acl option \<Rightarrow> IpAddr \<Rightarrow> bool" where
  "peer_allowed contains acl preset_acl ip =
     (is_allowed contains acl ip \<and> (case preset_acl of Some p \<Rightarrow> is_allowed contains p ip | None \<Rightarrow> True))"

text \<open>The free permits, the connections not classified yet (or awaited by a one-off server), the running
  handlers, and what went wrong or right so far. A server without a limiter has none.\<close>

record server =
  sv_tests :: active_tests
  sv_limiter :: "RateLimiter option"
  sv_handler_permits :: nat
  sv_conn_permits :: nat
  sv_open :: "IpAddr list"
  sv_running :: "IpAddr list"
  sv_blocked :: nat
  sv_shutdown :: bool

definition server_start :: "u32 \<Rightarrow> RateLimiter option \<Rightarrow> server" where
  "server_start max_concurrent limiter = \<lparr>sv_tests = Map.empty, sv_limiter = limiter, sv_handler_permits = unat max_concurrent,
     sv_conn_permits = unat max_concurrent * 4, sv_open = [], sv_running = [], sv_blocked = 0, sv_shutdown = False\<rparr>"

definition accept_tcp :: "(IpAddr \<Rightarrow> bool) \<Rightarrow> IpAddr \<Rightarrow> server \<Rightarrow> server" where
  "accept_tcp allowed peer_ip s =
     (if \<not> allowed peer_ip then s\<lparr>sv_blocked := sv_blocked s + 1\<rparr>
      else if sv_conn_permits s = 0 then s
      else s\<lparr>sv_conn_permits := sv_conn_permits s - 1, sv_open := peer_ip # sv_open s\<rparr>)"

text \<open>A control connection: the rate limit, then a permit; without a permit the guard of the rate limit is
  dropped. The flag says whether a handler was started.\<close>

definition admit_control :: "IpAddr \<Rightarrow> instant \<Rightarrow> instant \<Rightarrow> server \<Rightarrow> server \<times> bool" where
  "admit_control peer_ip now0 now1 s =
     (case (case sv_limiter s of
              None \<Rightarrow> Ok None
            | Some rl \<Rightarrow> (case check rl peer_ip now0 now1 of (rl', Ok _) \<Rightarrow> Ok (Some rl') | (rl', Err e) \<Rightarrow> Err rl')) of
        Err rl' \<Rightarrow> (s\<lparr>sv_limiter := Some rl', sv_blocked := sv_blocked s + 1\<rparr>, False)
      | Ok limiter \<Rightarrow>
          if sv_handler_permits s = 0
          then (s\<lparr>sv_limiter := map_option (\<lambda>rl. release rl peer_ip) limiter\<rparr>, False)
          else (s\<lparr>sv_limiter := limiter, sv_handler_permits := sv_handler_permits s - 1, sv_running := peer_ip # sv_running s\<rparr>, True))"

definition close_conn :: "IpAddr \<Rightarrow> server \<Rightarrow> server" where
  "close_conn peer_ip s = s\<lparr>sv_conn_permits := sv_conn_permits s + 1, sv_open := remove1 peer_ip (sv_open s)\<rparr>"

text \<open>A new connection once its first line was read: \<open>None\<close> if it timed out, failed or did not parse. The
  connection gives its permit back, except that a one-off server waits for the handler first.\<close>

definition handle_new_connection :: "bool \<Rightarrow> IpAddr \<Rightarrow> ControlMessage option \<Rightarrow> instant \<Rightarrow> instant \<Rightarrow> bool \<Rightarrow> server \<Rightarrow> server" where
  "handle_new_connection one_off peer_ip msg now0 now1 takes s =
     (case msg of
        Some (DataHello test_id stream_index) \<Rightarrow>
          close_conn peer_ip
            (if sv_tests s test_id = None then s
             else s\<lparr>sv_tests := fst (route_data_hello (sv_tests s) peer_ip test_id stream_index takes)\<rparr>)
      | Some (Hello h) \<Rightarrow>
          (let (s', started) = admit_control peer_ip now0 now1 s
           in if started \<and> one_off then s' else close_conn peer_ip s')
      | _ \<Rightarrow> close_conn peer_ip s)"

text \<open>A handler ends: its permit and its guard are dropped, and a one-off server shuts down after a success.\<close>

definition finish_handler :: "bool \<Rightarrow> IpAddr \<Rightarrow> bool \<Rightarrow> server \<Rightarrow> server" where
  "finish_handler one_off peer_ip success s =
     s\<lparr>sv_limiter := map_option (\<lambda>rl. release rl peer_ip) (sv_limiter s), sv_handler_permits := sv_handler_permits s + 1,
       sv_running := remove1 peer_ip (sv_running s), sv_shutdown := (sv_shutdown s \<or> (one_off \<and> success))\<rparr>"

text \<open>QUIC: a permit first, then the rate limit.\<close>

definition accept_quic :: "(IpAddr \<Rightarrow> bool) \<Rightarrow> IpAddr \<Rightarrow> instant \<Rightarrow> instant \<Rightarrow> server \<Rightarrow> server" where
  "accept_quic allowed peer_ip now0 now1 s =
     (if \<not> allowed peer_ip then s\<lparr>sv_blocked := sv_blocked s + 1\<rparr>
      else if sv_handler_permits s = 0 then s
      else fst (admit_control peer_ip now0 now1 s))"

inductive server_step :: "(IpAddr \<Rightarrow> bool) \<Rightarrow> bool \<Rightarrow> server \<Rightarrow> server \<Rightarrow> bool" for allowed :: "IpAddr \<Rightarrow> bool" and one_off :: bool where
  tcp_connection: "\<not> sv_shutdown s \<Longrightarrow> server_step allowed one_off s (accept_tcp allowed ip s)"
| quic_connection: "\<not> sv_shutdown s \<Longrightarrow> server_step allowed one_off s (accept_quic allowed ip now0 now1 s)"
| first_message: "ip \<in> set (sv_open s) \<Longrightarrow> server_step allowed one_off s (handle_new_connection one_off ip msg now0 now1 takes s)"
| handler_ends: "ip \<in> set (sv_running s) \<Longrightarrow> server_step allowed one_off s (finish_handler one_off ip success s)"
| awaited_ends: "one_off \<Longrightarrow> ip \<in> set (sv_open s) \<Longrightarrow> server_step allowed one_off s (close_conn ip s)"
| clean_limiter: "server_step allowed one_off s (s\<lparr>sv_limiter := map_option (\<lambda>rl. cleanup rl now) (sv_limiter s)\<rparr>)"
| test_starts: "tn_peer_ip req \<in> set (sv_running s) \<Longrightarrow>
     start_test req udp_single_port candidates ports (sv_tests s) routes = Ok (ack, token, tests', routes') \<Longrightarrow>
     server_step allowed one_off s (s\<lparr>sv_tests := tests'\<rparr>)"
| test_ends: "server_step allowed one_off s (s\<lparr>sv_tests := remove_active_test (sv_tests s) test_id\<rparr>)"

inductive_cases server_stepE: "server_step allowed one_off s t"

section \<open>The result\<close>

definition total_mbps :: "u64 \<Rightarrow> u64 \<Rightarrow> f64" where
  "total_mbps dur_ms b = (if dur_ms = 0 then 0 else (u64_as_f64 b * 8) / (u64_as_f64 dur_ms / 1000) / 1000000)"

definition directional_totals ::
  "Protocol.Direction \<Rightarrow> TestStats \<Rightarrow> u64 \<Rightarrow> u64 option \<times> u64 option \<times> f64 option \<times> f64 option" where
  "directional_totals direction stats dur_ms =
     (if direction \<noteq> Bidir then (None, None, None, None)
      else (let client_sent = total_bytes_received stats; client_received = total_bytes_sent stats
            in (Some client_sent, Some client_received, Some (total_mbps dur_ms client_sent), Some (total_mbps dur_ms client_received))))"

definition server_result ::
  "string \<Rightarrow> Protocol \<Rightarrow> Protocol.Direction \<Rightarrow> TestStats \<Rightarrow> u64 \<Rightarrow> (int \<Rightarrow> TcpInfoSnapshot option) \<Rightarrow> TestResult" where
  "server_result test_id protocol direction stats dur_ms tcp_info_of =
     (let b = TestStats_total_bytes stats; (sent, received, send_mbps, recv_mbps) = directional_totals direction stats dur_ms
      in \<lparr>tr_id = test_id, tr_bytes_total = b, tr_duration_ms = dur_ms, tr_throughput_mbps = total_mbps dur_ms b,
          tr_streams = map (\<lambda>s. to_result_with_direction s dur_ms (direction = Bidir)) (tst_streams stats),
          tr_tcp_info = final_local_tcp_info tcp_info_of stats, tr_udp_stats = aggregate_udp_stats stats,
          tr_udp_stats_send = (if protocol = Udp \<and> direction = Bidir then aggregate_udp_receiver_stats stats else None),
          tr_udp_stats_recv = None, tr_bytes_sent = sent, tr_bytes_received = received, tr_throughput_send_mbps = send_mbps,
          tr_throughput_recv_mbps = recv_mbps, tr_mtu_probe = None, tr_server_udp_send_errors = TestStats_udp_send_errors stats,
          tr_client_udp_send_errors = None, tr_zero_byte_streams = None\<rparr>)"

end
