(* ===== verification/Server_Correct.thy ===== *)
theory Server_Correct
  imports Server
begin

text \<open>
  Correctness of the server around its tests: admission keeps every limit in every interleaving, the streams of a
  test are collected once each, a UDP hello creates at most one socket for a stream and only for the
  address of the control connection, and what a test is acknowledged with leads the client to it.
\<close>

section \<open>Admission\<close>

definition limiter_inv :: "u32 \<Rightarrow> server \<Rightarrow> bool" where
  "limiter_inv m s \<longleftrightarrow> (\<forall>rl. sv_limiter s = Some rl \<longrightarrow> rl_inv m \<lparr>rs_limiter = rl, rs_guards = sv_running s\<rparr>)"

definition server_inv :: "(IpAddr \<Rightarrow> bool) \<Rightarrow> u32 \<Rightarrow> u32 \<Rightarrow> server \<Rightarrow> bool" where
  "server_inv allowed max_concurrent m s \<longleftrightarrow>
     sv_handler_permits s + length (sv_running s) = unat max_concurrent
     \<and> sv_conn_permits s + length (sv_open s) = unat max_concurrent * 4
     \<and> list_all allowed (sv_running s) \<and> list_all allowed (sv_open s)
     \<and> (\<forall>i t. sv_tests s i = Some t \<longrightarrow> allowed (av_control_peer_ip t)) \<and> limiter_inv m s"

lemma server_inv_admit:
  assumes "server_inv allowed mc m s" "allowed ip" "admit_control ip now0 now1 s = (s', started)"
  shows "server_inv allowed mc m s'" "sv_open s' = sv_open s" "sv_conn_permits s' = sv_conn_permits s"
proof -
  have lim: "rl_inv m \<lparr>rs_limiter = rl, rs_guards = sv_running s\<rparr>" if "sv_limiter s = Some rl" for rl
    using assms(1) that by (simp add: server_inv_def limiter_inv_def)
  have grant: "rl_inv m \<lparr>rs_limiter = rl', rs_guards = ip # sv_running s\<rparr>"
    if "sv_limiter s = Some rl" "check rl ip now0 now1 = (rl', Ok u)" for rl rl' u
    using rl_inv_step [OF lim [OF that(1)] rl_step.admit] that(2) by (cases u) auto
  have give_back: "rl_inv m \<lparr>rs_limiter = release rl' ip, rs_guards = sv_running s\<rparr>"
    if "sv_limiter s = Some rl" "check rl ip now0 now1 = (rl', Ok u)" for rl rl' u
    using rl_inv_step [OF grant [OF that] rl_step.drop_guard [where ip = ip]] by auto
  have refuse: "rl_inv m \<lparr>rs_limiter = rl', rs_guards = sv_running s\<rparr>"
    if "sv_limiter s = Some rl" "check rl ip now0 now1 = (rl', Err e)" for rl rl' e
    using rl_inv_step [OF lim [OF that(1)] rl_step.refuse] that(2) by auto
  show "server_inv allowed mc m s'" "sv_open s' = sv_open s" "sv_conn_permits s' = sv_conn_permits s"
    using assms grant give_back refuse
    by (auto simp: admit_control_def server_inv_def limiter_inv_def split: option.splits sum.splits prod.splits if_splits)
qed

lemma server_inv_close:
  assumes "server_inv allowed mc m s" "ip \<in> set (sv_open s)"
  shows "server_inv allowed mc m (close_conn ip s)"
proof -
  have "length (sv_open s) = length (remove1 ip (sv_open s)) + 1"
    using assms(2) length_remove1 [of ip "sv_open s"] length_pos_if_in_set [OF assms(2)] by simp
  moreover have "list_all allowed (remove1 ip (sv_open s))"
    using assms(1) set_remove1_subset [of ip "sv_open s"] by (auto simp: server_inv_def list_all_iff)
  ultimately show ?thesis using assms(1) by (simp add: server_inv_def close_conn_def limiter_inv_def)
qed

lemma server_inv_finish:
  assumes "server_inv allowed mc m s" "ip \<in> set (sv_running s)"
  shows "server_inv allowed mc m (finish_handler one_off ip success s)"
proof -
  have "length (sv_running s) = length (remove1 ip (sv_running s)) + 1"
    using assms(2) length_remove1 [of ip "sv_running s"] length_pos_if_in_set [OF assms(2)] by simp
  moreover have "list_all allowed (remove1 ip (sv_running s))"
    using assms(1) set_remove1_subset [of ip "sv_running s"] by (auto simp: server_inv_def list_all_iff)
  moreover have "rl_inv m \<lparr>rs_limiter = release rl ip, rs_guards = remove1 ip (sv_running s)\<rparr>" if "sv_limiter s = Some rl" for rl
    using rl_inv_step [OF _ rl_step.drop_guard [where ip = ip], of m "\<lparr>rs_limiter = rl, rs_guards = sv_running s\<rparr>"] assms that
    by (simp add: server_inv_def limiter_inv_def)
  ultimately show ?thesis
    using assms(1) by (auto simp: server_inv_def finish_handler_def limiter_inv_def split: option.splits)
qed

lemma route_data_hello_peers:
  assumes "fst (route_data_hello tests ip test_id i takes) j = Some t"
  shows "\<exists>t'. tests j = Some t' \<and> av_control_peer_ip t' = av_control_peer_ip t"
  using assms by (auto simp: route_data_hello_def split: option.splits if_splits)

lemma server_inv_message:
  assumes "server_inv allowed mc m s" "ip \<in> set (sv_open s)"
  shows "server_inv allowed mc m (handle_new_connection one_off ip msg now0 now1 takes s)"
proof -
  have ok: "allowed ip" using assms by (auto simp: server_inv_def list_all_iff)
  obtain s' started where ad: "admit_control ip now0 now1 s = (s', started)" by fastforce
  note inv' = server_inv_admit [OF assms(1) ok ad]
  have hello: "server_inv allowed mc m s'" "server_inv allowed mc m (close_conn ip s')"
    using inv' server_inv_close [OF inv'(1), of ip] assms(2) by simp_all
  have data: "server_inv allowed mc m (close_conn ip (s\<lparr>sv_tests := fst (route_data_hello (sv_tests s) ip t i takes)\<rparr>))" for t i
  proof (rule server_inv_close)
    show "server_inv allowed mc m (s\<lparr>sv_tests := fst (route_data_hello (sv_tests s) ip t i takes)\<rparr>)"
      using assms(1) route_data_hello_peers [of "sv_tests s" ip t i takes]
      by (auto simp: server_inv_def limiter_inv_def) metis
  qed (use assms(2) in simp)
  show ?thesis
    using hello data server_inv_close [OF assms]
    by (auto simp: handle_new_connection_def ad split: option.split ControlMessage.split)
qed

lemma server_inv_step:
  assumes "server_inv allowed mc m s" "server_step allowed one_off s t"
  shows "server_inv allowed mc m t"
  using assms(2)
proof (cases rule: server_step.cases)
  case (tcp_connection ip)
  then show ?thesis using assms(1) by (auto simp: accept_tcp_def server_inv_def limiter_inv_def)
next
  case (quic_connection ip now0 now1)
  then show ?thesis
    using assms(1) server_inv_admit(1) [OF assms(1), of ip now0 now1]
    by (auto simp: accept_quic_def server_inv_def limiter_inv_def) (metis prod.collapse)+
next
  case (first_message ip msg now0 now1 takes)
  then show ?thesis using server_inv_message [OF assms(1)] by simp
next
  case (handler_ends ip success)
  then show ?thesis using server_inv_finish [OF assms(1)] by simp
next
  case (awaited_ends ip)
  then show ?thesis using server_inv_close [OF assms(1)] by simp
next
  case (clean_limiter now)
  then show ?thesis
    using assms(1) rl_inv_step [OF _ rl_step.clean, of m _ now]
    by (fastforce simp: server_inv_def limiter_inv_def split: option.splits)
next
  case (test_starts req sp cs ports routes ack token tests' routes')
  then have "allowed (tn_peer_ip req)" using assms(1) by (auto simp: server_inv_def list_all_iff)
  with test_starts show ?thesis
    using assms(1)
    by (auto simp: server_inv_def limiter_inv_def start_test_def register_test_def split: Protocol.Protocol.splits if_splits option.splits)
next
  case (test_ends test_id)
  then show ?thesis using assms(1) by (auto simp: server_inv_def limiter_inv_def remove_active_test_def)
qed

definition server_initial :: "u32 \<Rightarrow> u32 \<Rightarrow> duration \<Rightarrow> server \<Rightarrow> bool" where
  "server_initial max_concurrent m w s \<longleftrightarrow> s \<in> {server_start max_concurrent None, server_start max_concurrent (Some (RateLimiter_new m w))}"

interpretation admission: inductive_invariant "server_initial mc m w" "server_step allowed one_off" "server_inv allowed mc m"
proof unfold_locales
  show "server_initial mc m w s \<Longrightarrow> server_inv allowed mc m s" for s
    by (auto simp: server_initial_def server_inv_def server_start_def limiter_inv_def rl_inv_def RateLimiter_new_def current_count_def)
qed (rule server_inv_step)

section \<open>Collecting the streams of a test\<close>

lemma collect_streams_facts:
  assumes "collect_streams n received evs = (hs, received')" "length received = n"
  shows "distinct hs \<and> length received' = n \<and> (\<forall>i\<in>set hs. i < n \<and> \<not> received ! i \<and> (\<exists>x. Arrived x \<in> set evs \<and> unat x = i))
    \<and> (\<forall>i<n. received' ! i \<longleftrightarrow> received ! i \<or> i \<in> set hs)"
  using assms
proof (induction evs arbitrary: received hs received')
  case (Cons ev evs)
  show ?case
  proof (cases "list_ex Not received \<and> (\<exists>x. ev = Arrived x \<and> unat x < n \<and> \<not> received ! unat x)")
    case True
    then obtain x where x: "ev = Arrived x" "unat x < n" "\<not> received ! unat x" "list_ex Not received" by blast
    obtain hs' r' where rec: "collect_streams n (received[unat x := True]) evs = (hs', r')" by fastforce
    with Cons.prems x have "hs = unat x # hs'" "received' = r'" by simp_all
    with Cons.IH [OF rec] Cons.prems(2) x show ?thesis by (auto simp: nth_list_update split: if_splits)
  next
    case False
    show ?thesis
    proof (cases "hs = [] \<and> received' = received")
      case True
      then show ?thesis using Cons.prems(2) by simp
    next
      case other: False
      have "collect_streams n received evs = (hs, received')"
        using Cons.prems False other by (auto simp: Let_def not_le split: collect_event.splits if_splits prod.splits)
      from Cons.IH [OF this Cons.prems(2)] show ?thesis by auto
    qed
  qed
qed simp

lemma collect_streams_complete:
  assumes "list_all (\<lambda>ev. (\<exists>x. ev = Arrived x) \<or> ev = CollectCancelToggled) evs" "length received = n" "i < n"
    "Arrived x \<in> set evs \<and> unat x = i \<or> received ! i"
  shows "snd (collect_streams n received evs) ! i"
  using assms
proof (induction evs arbitrary: received)
  case (Cons ev evs)
  show ?case
  proof (cases "list_ex Not received")
    case False
    then have "received ! i" using Cons.prems(2,3) by (auto simp: list_ex_iff)
    then show ?thesis using False by simp
  next
    case True
    have rest: "list_all (\<lambda>ev. (\<exists>x. ev = Arrived x) \<or> ev = CollectCancelToggled) evs" using Cons.prems(1) by simp
    show ?thesis
    proof (cases ev)
      case (Arrived y)
      have "snd (collect_streams n (if n \<le> unat y \<or> received ! unat y then received else received[unat y := True]) evs) ! i"
        using Cons.prems(2-4) Arrived
        by (intro Cons.IH [OF rest]) (auto simp: nth_list_update not_le)
      then show ?thesis using Arrived True by (auto simp: Let_def split: prod.splits if_splits)
    next
      case CollectCancelToggled
      then show ?thesis using Cons.IH [OF rest Cons.prems(2,3)] Cons.prems(4) True by auto
    qed (use Cons.prems(1) in auto)
  qed
qed simp

section \<open>Hellos\<close>

definition handoffs :: "bytes \<Rightarrow> hello_out list \<Rightarrow> nat list" where
  "handoffs token outs = List.map_filter (\<lambda>x. case x of HandOff t i sock \<Rightarrow> if t = token then Some i else None | _ \<Rightarrow> None) outs"

text \<open>A stream whose socket was handed over has a socket on record, as long as the route is there.\<close>

definition handed_inv :: "bytes \<Rightarrow> u8 \<Rightarrow> IpAddr \<Rightarrow> nat set \<Rightarrow> hello_routes \<Rightarrow> bool" where
  "handed_inv token streams ip done routes \<longleftrightarrow> (case routes token of
     None \<Rightarrow> True
   | Some r \<Rightarrow> uh_expected_streams r = streams \<and> uh_control_peer_ip r = ip \<and> length (uh_sockets r) = unat streams
       \<and> (\<forall>i\<in>done. i < unat streams \<longrightarrow> uh_sockets r ! i \<noteq> None))"

text \<open>A hello of this token from the address of its control connection, for one of its streams.\<close>

definition good_hello :: "bytes \<Rightarrow> u8 \<Rightarrow> IpAddr \<Rightarrow> nat \<Rightarrow> hello_in \<Rightarrow> bool" where
  "good_hello token streams ip i h \<longleftrightarrow> (\<exists>pkt. UdpHelloPacket_decode (hd_data h) = Some pkt \<and> hello_kind pkt = UDP_HELLO_KIND_HELLO
     \<and> hello_token pkt = token \<and> unat (hello_stream_index pkt) = i \<and> i < unat streams \<and> normalize_ip (hd_src h) = normalize_ip ip)"

lemma count_send_error_frame:
  "count_send_error routes t i token = None \<longleftrightarrow> routes token = None"
  "count_send_error routes t i token = Some r' \<Longrightarrow> \<exists>r. routes token = Some r \<and> uh_expected_streams r' = uh_expected_streams r
     \<and> uh_control_peer_ip r' = uh_control_peer_ip r \<and> uh_sockets r' = uh_sockets r"
  by (auto simp: count_send_error_def split: option.splits if_splits)

lemma handed_inv_count:
  assumes "handed_inv token streams ip d routes"
  shows "handed_inv token streams ip d (count_send_error routes t i)"
  using assms count_send_error_frame(1) [of routes t i token] count_send_error_frame(2) [of routes t i token]
  by (cases "count_send_error routes t i token") (fastforce simp: handed_inv_def)+

lemma unat_u8_u16: "unat (ucast (x :: u8) :: u16) = unat x"
proof -
  have "unat x < 2 ^ 8" using unat_lt_pow [of x] by simp
  then show ?thesis by (simp add: unsigned_ucast_eq take_bit_eq_mod)
qed

lemma update_keeps_Some: "j < length xs \<Longrightarrow> i = j \<or> xs ! j \<noteq> None \<Longrightarrow> xs[i := Some y] ! j \<noteq> None"
  by (cases "i = j") auto

lemma accept_good:
  assumes "check_udp_hello (Some r) pkt src = Accept"
  shows "normalize_ip src = normalize_ip (uh_control_peer_ip r)" "unat (hello_stream_index pkt) < unat (uh_expected_streams r)"
    "unat (hello_stream_index pkt) < length (uh_sockets r) \<Longrightarrow> uh_sockets r ! unat (hello_stream_index pkt) = None"
  using assms by (auto simp: check_udp_hello_def word_le_nat_alt unat_u8_u16 split: if_splits)

lemma create_stream_socket_cases:
  assumes "create_stream_socket routes pkt h = (routes', outs)"
  obtains routes1 where "routes1 = routes \<or> routes1 = count_send_error routes (hello_token pkt) (unat (hello_stream_index pkt))"
    "(\<forall>t. handoffs t outs = []) \<and> (routes' = routes1 \<or> routes' = routes1(hello_token pkt := None))
     \<or> (\<exists>r sock. routes1 (hello_token pkt) = Some r
          \<and> routes' = routes1(hello_token pkt \<mapsto> r\<lparr>uh_sockets := (uh_sockets r)[unat (hello_stream_index pkt) := Some sock]\<rparr>)
          \<and> (\<forall>t. handoffs t outs = (if t = hello_token pkt \<and> hd_taken h then [unat (hello_stream_index pkt)] else [])))"
proof (rule that)
  let ?r1 = "if hd_created h = None \<or> \<not> hd_ack_sent h
             then count_send_error routes (hello_token pkt) (unat (hello_stream_index pkt)) else routes"
  show "?r1 = routes \<or> ?r1 = count_send_error routes (hello_token pkt) (unat (hello_stream_index pkt))" by simp
  show "(\<forall>t. handoffs t outs = []) \<and> (routes' = ?r1 \<or> routes' = ?r1(hello_token pkt := None))
     \<or> (\<exists>r sock. ?r1 (hello_token pkt) = Some r
          \<and> routes' = ?r1(hello_token pkt \<mapsto> r\<lparr>uh_sockets := (uh_sockets r)[unat (hello_stream_index pkt) := Some sock]\<rparr>)
          \<and> (\<forall>t. handoffs t outs = (if t = hello_token pkt \<and> hd_taken h then [unat (hello_stream_index pkt)] else [])))"
    using assms
    by (auto simp: create_stream_socket_def Let_def handoffs_def map_filter_def split: option.splits if_splits)
qed

lemma handed_inv_dispatch:
  assumes "handed_inv token streams ip d routes" "dispatch_hello routes h = (routes', outs)"
  shows "(handoffs token outs = [] \<and> handed_inv token streams ip d routes')
    \<or> (\<exists>i. handoffs token outs = [i] \<and> i \<notin> d \<and> good_hello token streams ip i h \<and> handed_inv token streams ip (insert i d) routes')"
proof -
  consider (quiet) "routes' = routes" "handoffs token outs = []"
    | (create) pkt where "UdpHelloPacket_decode (hd_data h) = Some pkt" "hello_kind pkt = UDP_HELLO_KIND_HELLO"
        "check_udp_hello (routes (hello_token pkt)) pkt (hd_src h) = Accept" "create_stream_socket routes pkt h = (routes', outs)"
    using assms(2)
    by (auto simp: dispatch_hello_def handoffs_def map_filter_def split: option.splits if_splits UdpHelloVerdict.splits)
  then show ?thesis
  proof cases
    case quiet
    with assms(1) show ?thesis by simp
  next
    case create
    let ?i = "unat (hello_stream_index pkt)"
    obtain r where r: "routes (hello_token pkt) = Some r"
      using create(3) by (cases "routes (hello_token pkt)") (auto simp: check_udp_hello_def)
    obtain routes1 where r1: "routes1 = routes \<or> routes1 = count_send_error routes (hello_token pkt) ?i"
      and res: "(\<forall>t. handoffs t outs = []) \<and> (routes' = routes1 \<or> routes' = routes1(hello_token pkt := None))
       \<or> (\<exists>r sock. routes1 (hello_token pkt) = Some r
            \<and> routes' = routes1(hello_token pkt \<mapsto> r\<lparr>uh_sockets := (uh_sockets r)[?i := Some sock]\<rparr>)
            \<and> (\<forall>t. handoffs t outs = (if t = hello_token pkt \<and> hd_taken h then [?i] else [])))"
      using create_stream_socket_cases [OF create(4)] .
    have inv1: "handed_inv token streams ip d routes1" using r1 assms(1) handed_inv_count by blast
    show ?thesis
    proof (cases "hello_token pkt = token")
      case False
      then have "handed_inv token streams ip d routes'" using res inv1 by (auto simp: handed_inv_def)
      moreover have "handoffs token outs = []" using res False by auto
      ultimately show ?thesis by simp
    next
      case True
      have good: "good_hello token streams ip ?i h" and new: "?i \<notin> d"
        using accept_good [OF create(3) [unfolded r]] r True create(1,2) assms(1) by (auto simp: good_hello_def handed_inv_def)
      from res show ?thesis
      proof (elim disjE exE conjE)
        fix r2 sock assume a: "routes1 (hello_token pkt) = Some r2"
          "routes' = routes1(hello_token pkt \<mapsto> r2\<lparr>uh_sockets := (uh_sockets r2)[?i := Some sock]\<rparr>)"
          "\<forall>t. handoffs t outs = (if t = hello_token pkt \<and> hd_taken h then [?i] else [])"
        have "handed_inv token streams ip (insert ?i d) routes'"
          unfolding handed_inv_def using inv1 a(1,2) True update_keeps_Some [of _ "uh_sockets r2" ?i sock]
          by (auto simp: handed_inv_def simp del: not_None_eq)
        moreover from this have "handed_inv token streams ip d routes'" by (auto simp: handed_inv_def split: option.splits)
        ultimately show ?thesis using a(3) good new True by (cases "hd_taken h") auto
      qed (use inv1 True in \<open>auto simp: handed_inv_def\<close>)
    qed
  qed
qed

lemma handed_inv_run:
  assumes "handed_inv token streams ip d routes" "dispatch_hellos routes hs = (routes', outs)"
  shows "distinct (handoffs token outs) \<and> set (handoffs token outs) \<inter> d = {}
    \<and> (\<forall>i\<in>set (handoffs token outs). \<exists>h\<in>set hs. good_hello token streams ip i h)"
  using assms
proof (induction hs arbitrary: d routes outs)
  case Nil
  then show ?case by (simp add: handoffs_def map_filter_def)
next
  case (Cons h hs)
  obtain r1 o1 where d1: "dispatch_hello routes h = (r1, o1)" by fastforce
  obtain o2 where d2: "dispatch_hellos r1 hs = (routes', o2)" "outs = o1 @ o2"
    using Cons.prems(2) d1 by (auto split: prod.splits)
  have app: "handoffs token outs = handoffs token o1 @ handoffs token o2" by (simp add: d2(2) handoffs_def map_filter_def)
  from handed_inv_dispatch [OF Cons.prems(1) d1] show ?case
  proof (elim disjE exE conjE)
    assume "handoffs token o1 = []" "handed_inv token streams ip d r1"
    then show ?thesis using Cons.IH [OF _ d2(1)] app by force
  next
    fix i assume a: "handoffs token o1 = [i]" "i \<notin> d" "good_hello token streams ip i h" "handed_inv token streams ip (insert i d) r1"
    then show ?thesis using Cons.IH [OF a(4) d2(1)] app by force
  qed
qed

text \<open>A test that starts under an identifier in use displaces the running one, and the end of either takes the
  entry of both.\<close>

lemma duplicate_id_displaces:
  assumes "tests i = Some t" "tn_id req = i" "av_control_peer_ip t \<noteq> tn_peer_ip req"
  shows "register_test req ports ch tests i \<noteq> Some t"
    "remove_active_test (register_test req ports ch tests) i i = None"
  using assms by (auto simp: register_test_def remove_active_test_def)

section \<open>Properties\<close>

text \<open>C20: in every interleaving of TCP and QUIC connections, first messages, handlers ending, tests starting and ending and
  cleanups, the server runs at most its configured number of handlers and holds at most four times as many
  unclassified connections; everyone it holds, serves or has a test registered for passes both access
  lists, and with a rate limit no address has more handlers than the limit.\<close>

theorem admission_keeps_limits:
  assumes "reachable (server_initial max_concurrent m w) (server_step (peer_allowed contains acl preset) one_off) s"
  shows "length (sv_running s) \<le> unat max_concurrent \<and> length (sv_open s) \<le> 4 * unat max_concurrent
    \<and> (\<forall>ip\<in>set (sv_running s) \<union> set (sv_open s) \<union> av_control_peer_ip ` ran (sv_tests s).
         is_allowed contains acl ip \<and> (\<forall>p. preset = Some p \<longrightarrow> is_allowed contains p ip))
    \<and> (sv_limiter s \<noteq> None \<longrightarrow> count_list (sv_running s) ip \<le> unat m)"
proof -
  have inv: "server_inv (peer_allowed contains acl preset) max_concurrent m s"
    using admission.invar_reachable [OF assms] .
  have "peer_allowed contains acl preset x"
    if "x \<in> set (sv_running s) \<union> set (sv_open s) \<union> av_control_peer_ip ` ran (sv_tests s)" for x
    using inv that by (auto simp: server_inv_def list_all_iff ran_def)
  moreover have "sv_limiter s \<noteq> None \<longrightarrow> count_list (sv_running s) ip \<le> unat m"
    using inv by (auto simp: server_inv_def limiter_inv_def rl_inv_def)
  moreover have "length (sv_running s) \<le> unat max_concurrent" "length (sv_open s) \<le> 4 * unat max_concurrent"
    using inv by (auto simp: server_inv_def)
  ultimately show ?thesis by (auto simp: peer_allowed_def split: option.splits)
qed

theorem admission_keeps_limits_witness:
  "\<exists>s. reachable (server_initial 3 2 60) (server_step (peer_allowed (\<lambda>n ip. ip = V4 n) \<lparr>acl_allow = [7], acl_deny = []\<rparr> None) False) s
     \<and> sv_running s = [V4 7] \<and> count_list (sv_running s) (V4 7) \<le> 2"
proof -
  let ?al = "peer_allowed (\<lambda>n ip. ip = V4 n) \<lparr>acl_allow = [7], acl_deny = []\<rparr> None"
  define s0 where "s0 = server_start 3 (Some (RateLimiter_new 2 60))"
  define s1 where "s1 = accept_quic ?al (V4 7) 0 0 s0"
  have al: "?al (V4 7)" by (simp add: peer_allowed_def is_allowed_def normalize_ip_def)
  have "reachable (server_initial 3 2 60) (server_step ?al False) s0"
    by (rule reach_init) (simp add: server_initial_def s0_def)
  moreover have "server_step ?al False s0 s1"
    unfolding s1_def by (rule server_step.quic_connection) (simp add: s0_def server_start_def)
  ultimately have r: "reachable (server_initial 3 2 60) (server_step ?al False) s1" by (rule reach_step)
  have s1: "sv_running s1 = [V4 7]" "sv_limiter s1 \<noteq> None"
    using al by (simp_all add: s1_def s0_def accept_quic_def server_start_def admit_control_def check_def RateLimiter_new_def Let_def)
  then have "count_list (sv_running s1) (V4 7) \<le> 2" using admission_keeps_limits [OF r, of "V4 7"] by auto
  with r s1(1) show ?thesis by blast
qed

text \<open>Whatever arrives, duplicated, out of range or out of order, a test starts one handler for each stream index
  that arrived and is in range, and no other; when all its streams arrive and nothing stops the collection,
  it has them all.\<close>

theorem streams_collected_once:
  "let (handlers, received) = collect_streams n (replicate n False) evs in
     distinct handlers \<and> set handlers \<subseteq> {..<n} \<inter> {i. \<exists>x. Arrived x \<in> set evs \<and> unat x = i}
     \<and> set handlers = {i. i < n \<and> received ! i}
     \<and> (list_all (\<lambda>ev. (\<exists>x. ev = Arrived x) \<or> ev = CollectCancelToggled) evs
          \<and> (\<forall>i<n. \<exists>x. Arrived x \<in> set evs \<and> unat x = i) \<longrightarrow> set handlers = {..<n})"
proof -
  obtain hs r where c: "collect_streams n (replicate n False) evs = (hs, r)" by fastforce
  have f: "distinct hs" "\<forall>i\<in>set hs. i < n \<and> (\<exists>x. Arrived x \<in> set evs \<and> unat x = i)" "\<forall>i<n. r ! i \<longleftrightarrow> i \<in> set hs"
    using collect_streams_facts [OF c] by auto
  have "set hs = {..<n}" if all: "list_all (\<lambda>ev. (\<exists>x. ev = Arrived x) \<or> ev = CollectCancelToggled) evs"
    "\<forall>i<n. \<exists>x. Arrived x \<in> set evs \<and> unat x = i"
  proof -
    have "r ! i" if i: "i < n" for i
    proof -
      obtain x where "Arrived x \<in> set evs \<and> unat x = i" using all(2) i by blast
      with collect_streams_complete [OF all(1), of "replicate n False" n i x] i c show ?thesis by simp
    qed
    then show ?thesis using f(2,3) by auto
  qed
  moreover have "set hs \<subseteq> {..<n} \<inter> {i. \<exists>x. Arrived x \<in> set evs \<and> unat x = i}" using f(2) by auto
  moreover have "set hs = {i. i < n \<and> r ! i}" using f(2,3) by auto
  ultimately show ?thesis unfolding c Let_def prod.case using f(1) by blast
qed

theorem streams_collected_once_witness:
  "set (fst (collect_streams 2 (replicate 2 False) [Arrived 1, Arrived 1, Arrived 5, Arrived 0])) = {..<2}"
proof -
  have "\<exists>x. Arrived x \<in> set [Arrived 1, Arrived 1, Arrived 5, Arrived 0] \<and> unat x = i" if "i < 2" for i
  proof -
    have "i = 0 \<or> i = 1" using that by linarith
    then show ?thesis
    proof
      assume "i = 0" then show ?thesis by (intro exI [of _ 0]) simp
    next
      assume "i = 1" then show ?thesis by (intro exI [of _ 1]) simp
    qed
  qed
  moreover obtain hs r where c: "collect_streams 2 (replicate 2 False) [Arrived 1, Arrived 1, Arrived 5, Arrived 0] = (hs, r)"
    by (metis surj_pair)
  moreover have "list_all (\<lambda>ev. (\<exists>x. ev = Arrived x) \<or> ev = CollectCancelToggled) [Arrived 1, Arrived 1, Arrived 5, Arrived 0]" by simp
  ultimately have "set hs = {..<2}"
    using streams_collected_once [of 2 "[Arrived 1, Arrived 1, Arrived 5, Arrived 0]"] unfolding c Let_def prod.case by blast
  then show ?thesis unfolding c by simp
qed

text \<open>C21: for a test's route, however its hellos are repeated, forged or interleaved with those of other tests, the
  dispatcher hands the test at most one socket for each stream, and each only for a hello that carried
  the route's token and one of its stream numbers and came from the address of the control connection.\<close>

theorem hello_socket_once:
  assumes "routes token = Some (hello_route req)" "dispatch_hellos routes hs = (routes', outs)"
  shows "distinct (handoffs token outs)
    \<and> (\<forall>i\<in>set (handoffs token outs). \<exists>h\<in>set hs. good_hello token (tn_streams req) (tn_peer_ip req) i h)"
proof -
  have "handed_inv token (tn_streams req) (tn_peer_ip req) {} routes" using assms(1) by (simp add: handed_inv_def hello_route_def)
  from handed_inv_run [OF this assms(2)] show ?thesis by blast
qed

definition sample_request :: test_request where
  "sample_request = \<lparr>tn_id = ''t'', tn_protocol = Udp, tn_streams = 2, tn_peer_ip = V4 7, tn_control_local = SockV4 9 5201,
     tn_window_size = None, tn_single_port_tcp = True\<rparr>"

definition sample_hello :: "u16 \<Rightarrow> hello_in" where
  "sample_hello i = \<lparr>hd_data = UdpHelloPacket_encode \<lparr>hello_kind = UDP_HELLO_KIND_HELLO, hello_stream_index = i, hello_token = replicate 16 3\<rparr>,
     hd_src = V4 7, hd_created = Some 4, hd_ack_sent = True, hd_route_alive = True, hd_taken = True\<rparr>"

lemma dispatch_good_hello:
  assumes "routes token = Some r" "length token = UDP_HELLO_TOKEN_LEN" "normalize_ip src = normalize_ip (uh_control_peer_ip r)"
    "unat i < unat (uh_expected_streams r)" "unat i < length (uh_sockets r)" "uh_sockets r ! unat i = None"
  shows "dispatch_hello routes
      \<lparr>hd_data = UdpHelloPacket_encode \<lparr>hello_kind = UDP_HELLO_KIND_HELLO, hello_stream_index = i, hello_token = token\<rparr>,
       hd_src = src, hd_created = Some sock, hd_ack_sent = True, hd_route_alive = True, hd_taken = True\<rparr>
    = (routes(token \<mapsto> r\<lparr>uh_sockets := (uh_sockets r)[unat i := Some sock]\<rparr>),
       [AckFrom sock (UdpHelloPacket_encode \<lparr>hello_kind = UDP_HELLO_KIND_ACK, hello_stream_index = i, hello_token = token\<rparr>),
        HandOff token (unat i) sock])"
proof -
  let ?pkt = "\<lparr>hello_kind = UDP_HELLO_KIND_HELLO, hello_stream_index = i, hello_token = token\<rparr>"
  have "hello_valid ?pkt" using assms(2) by (simp add: hello_valid_def)
  then have "UdpHelloPacket_decode (UdpHelloPacket_encode ?pkt) = Some ?pkt" by (rule hello_codec.dec_enc)
  moreover have "check_udp_hello (routes token) ?pkt src = Accept"
    using assms by (simp add: check_udp_hello_def word_le_nat_alt unat_u8_u16)
  ultimately show ?thesis
    using assms(1) by (simp add: dispatch_hello_def create_stream_socket_def hello_ack_def Let_def)
qed

lemma distinct_singleton: "distinct xs \<Longrightarrow> set xs = {a} \<Longrightarrow> xs = [a]"
  by (cases xs; cases "tl xs") auto

theorem hello_socket_once_witness:
  "\<exists>routes' outs. dispatch_hellos [replicate 16 3 \<mapsto> hello_route sample_request] [sample_hello 1, sample_hello 1] = (routes', outs)
     \<and> distinct (handoffs (replicate 16 3) outs) \<and> handoffs (replicate 16 3) outs = [1]"
proof -
  obtain routes' outs where d: "dispatch_hellos [replicate 16 3 \<mapsto> hello_route sample_request] [sample_hello 1, sample_hello 1] = (routes', outs)"
    by fastforce
  have first: "HandOff (replicate 16 3) 1 4 \<in> set outs"
    using d dispatch_good_hello [of "[replicate 16 3 \<mapsto> hello_route sample_request]" "replicate 16 3" "hello_route sample_request" "V4 7" 1 4]
    by (auto simp: sample_hello_def hello_route_def sample_request_def udp_wire_consts split: prod.splits)
  have "distinct (handoffs (replicate 16 3) outs)
    \<and> (\<forall>i\<in>set (handoffs (replicate 16 3) outs). \<exists>h\<in>set [sample_hello 1, sample_hello 1]. good_hello (replicate 16 3) 2 (V4 7) i h)"
    using hello_socket_once [OF _ d, of "replicate 16 3" sample_request] by (simp add: sample_request_def)
  moreover have "i = 1" if "good_hello (replicate 16 3) 2 (V4 7) i (sample_hello 1)" for i
  proof -
    have "hello_valid \<lparr>hello_kind = UDP_HELLO_KIND_HELLO, hello_stream_index = 1, hello_token = replicate 16 3\<rparr>"
      by (simp add: hello_valid_def udp_wire_consts)
    from hello_codec.dec_enc [OF this] that show ?thesis by (auto simp: good_hello_def sample_hello_def)
  qed
  moreover have "1 \<in> set (handoffs (replicate 16 3) outs)"
    using first by (force simp: handoffs_def map_filter_def)
  ultimately have "distinct (handoffs (replicate 16 3) outs)" "set (handoffs (replicate 16 3) outs) = {1}" by auto
  then have "handoffs (replicate 16 3) outs = [1]" by (rule distinct_singleton)
  with d show ?thesis by auto
qed

text \<open>The acknowledgement leads the client to its test: a client whose server advertises the single-port modes takes
  the acknowledgement of its test, and each of its streams, announced the way the acknowledgement asks for
  from the address of its control connection, reaches the test: a TCP data hello is routed, and the first UDP
  hello of a stream gets a socket, the ack that the client waits for, and the hand-over.\<close>

theorem acked_streams_are_routed:
  assumes "start_test req single candidates ports tests routes = Ok (ack, tok, tests', routes')"
    "cl_protocol c = tn_protocol req" "list_all (\<lambda>t. length t = UDP_HELLO_TOKEN_LEN) candidates"
    "normalize_ip src = normalize_ip (tn_peer_ip req)" "unat i < unat (tn_streams req)"
  shows "(tn_protocol req = Tcp \<and> tn_single_port_tcp req \<longrightarrow>
       client_on_ack c (Some (runtime_capabilities single)) ack = Ok ([], None)
       \<and> snd (route_data_hello tests' src (tn_id req) i True) = Routed)
    \<and> (tn_protocol req = Udp \<and> single \<longrightarrow> (\<exists>token. tok = Some token
       \<and> client_on_ack c (Some (runtime_capabilities single)) ack = Ok ([], Some token)
       \<and> snd (dispatch_hello routes'
            \<lparr>hd_data = UdpHelloPacket_encode \<lparr>hello_kind = UDP_HELLO_KIND_HELLO, hello_stream_index = i, hello_token = token\<rparr>,
             hd_src = src, hd_created = Some sock, hd_ack_sent = True, hd_route_alive = True, hd_taken = True\<rparr>)
          = [AckFrom sock (UdpHelloPacket_encode \<lparr>hello_kind = UDP_HELLO_KIND_ACK, hello_stream_index = i, hello_token = token\<rparr>),
             HandOff token (unat i) sock]))"
proof (intro conjI impI)
  assume tcp: "tn_protocol req = Tcp \<and> tn_single_port_tcp req"
  then have ack: "ack = TestAck (tn_id req) [] None" "tests' = register_test req [] True tests"
    using assms(1) by (simp_all add: start_test_def)
  have "capability_advertised (Some (runtime_capabilities single)) ''single_port_tcp''"
    by (simp add: runtime_capabilities_def capability_advertised_def supported_capabilities_def supported_capabilities_without_def
        SUPPORTED_CAPABILITIES_def SINGLE_PORT_UDP_CAPABILITY_def)
  then show "client_on_ack c (Some (runtime_capabilities single)) ack = Ok ([], None)"
    using tcp assms(2) ack by (simp add: client_on_ack_def)
  show "snd (route_data_hello tests' src (tn_id req) i True) = Routed"
    using ack assms(4) by (simp add: route_data_hello_def register_test_def)
next
  assume udp: "tn_protocol req = Udp \<and> single"
  then obtain token where t: "find (\<lambda>t. routes t = None) candidates = Some token" "tok = Some token"
    "ack = TestAck (tn_id req) [] (Some (encode_hello_token token))" "routes' = routes(token \<mapsto> hello_route req)"
    using assms(1) by (auto simp: start_test_def split: option.splits)
  then have len: "length token = UDP_HELLO_TOKEN_LEN"
    using assms(3) by (auto simp: find_Some_iff list_all_iff)
  have "capability_advertised (Some (runtime_capabilities single)) SINGLE_PORT_UDP_CAPABILITY"
    using udp by (simp add: runtime_capabilities_def capability_advertised_def supported_capabilities_def
        SUPPORTED_CAPABILITIES_def SINGLE_PORT_UDP_CAPABILITY_def)
  then have "client_on_ack c (Some (runtime_capabilities single)) ack = Ok ([], Some token)"
    using udp assms(2) t len token_text_roundtrip by (simp add: client_on_ack_def)
  moreover have r: "routes' token = Some (hello_route req)" using t by simp
  note dispatch_good_hello [of routes' token "hello_route req" src i sock, OF r len]
  ultimately show "\<exists>token. tok = Some token
       \<and> client_on_ack c (Some (runtime_capabilities single)) ack = Ok ([], Some token)
       \<and> snd (dispatch_hello routes'
            \<lparr>hd_data = UdpHelloPacket_encode \<lparr>hello_kind = UDP_HELLO_KIND_HELLO, hello_stream_index = i, hello_token = token\<rparr>,
             hd_src = src, hd_created = Some sock, hd_ack_sent = True, hd_route_alive = True, hd_taken = True\<rparr>)
          = [AckFrom sock (UdpHelloPacket_encode \<lparr>hello_kind = UDP_HELLO_KIND_ACK, hello_stream_index = i, hello_token = token\<rparr>),
             HandOff token (unat i) sock]"
    using t(2) assms(4,5) by (simp add: hello_route_def)
qed

theorem acked_streams_are_routed_witness:
  "\<exists>ack tests' routes'. start_test sample_request True [replicate 16 3] [] Map.empty Map.empty
       = Ok (ack, Some (replicate 16 3), tests', routes')
     \<and> client_on_ack (ClientConfig_default\<lparr>cl_protocol := Udp\<rparr>) (Some (runtime_capabilities True)) ack = Ok ([], Some (replicate 16 3))
     \<and> snd (dispatch_hello routes' (sample_hello 1)) \<noteq> []"
proof -
  obtain ack tests' routes' where s: "start_test sample_request True [replicate 16 3] [] Map.empty Map.empty
       = Ok (ack, Some (replicate 16 3), tests', routes')"
    by (simp add: start_test_def sample_request_def)
  have "unat (1 :: u16) < unat (tn_streams sample_request)" by (simp add: sample_request_def)
  from acked_streams_are_routed [OF s, of "ClientConfig_default\<lparr>cl_protocol := Udp\<rparr>" "V4 7" 1 4, OF _ _ _ this] s
  show ?thesis by (auto simp: sample_request_def udp_wire_consts sample_hello_def)
qed

end
