(* ===== verification/Ip_Text.thy ===== *)
theory Ip_Text
  imports Rust_Format Net
begin

text \<open>
  Addresses in text: the standard library's parser of IP literals, the zones and literals of \<open>net.rs\<close>, and the
  host and port of a target (\<open>main.rs\<close>). The interface index of a zone name is the kernel's, a parameter.
\<close>

section \<open>The standard library's parser\<close>

text \<open>A parser takes the text to read and gives the value and the rest, or nothing. A number has at most
  \<open>max_digits\<close> digits and fits \<open>w\<close> bits.\<close>

definition is_radix_digit :: "nat \<Rightarrow> char \<Rightarrow> bool" where
  "is_radix_digit radix c = (digit_val radix c \<noteq> None)"

definition read_number :: "nat \<Rightarrow> nat \<Rightarrow> nat \<Rightarrow> bool \<Rightarrow> string \<Rightarrow> (nat \<times> string) option" where
  "read_number radix w max_digits allow_zero_prefix s =
     (let ds = takeWhile (is_radix_digit radix) s; rest = dropWhile (is_radix_digit radix) s
      in if ds = [] \<or> max_digits < length ds \<or> (\<not> allow_zero_prefix \<and> hd ds = CHR ''0'' \<and> 1 < length ds) then None
         else (case parse_digits radix 0 ds of
                 Some n \<Rightarrow> if n < 2 ^ w then Some (n, rest) else None
               | None \<Rightarrow> None))"

fun read_char :: "char \<Rightarrow> string \<Rightarrow> string option" where
  "read_char c [] = None"
| "read_char c (x # xs) = (if x = c then Some xs else None)"

fun read_octets :: "nat \<Rightarrow> string \<Rightarrow> (nat \<times> string) option" where
  "read_octets 0 s = Some (0, s)"
| "read_octets (Suc n) s =
     (case read_octets n s of
        None \<Rightarrow> None
      | Some (acc, r) \<Rightarrow>
          (case (if n = 0 then Some r else read_char CHR ''.'' r) of
             None \<Rightarrow> None
           | Some r' \<Rightarrow> map_option (\<lambda>(b, rest). (acc * 256 + b, rest)) (read_number 10 8 3 False r')))"

definition read_ipv4_addr :: "string \<Rightarrow> (32 word \<times> string) option" where
  "read_ipv4_addr s = map_option (\<lambda>(a, rest). (word_of_nat a, rest)) (read_octets 4 s)"

text \<open>Up to \<open>limit\<close> groups of 16 bits; an IPv4 address may stand for the last two. The index counts the groups
  read; the flag says that they ended in an IPv4 address.\<close>

definition read_separated :: "nat \<Rightarrow> string \<Rightarrow> string option" where
  "read_separated i s = (if i = 0 then Some s else read_char CHR '':'' s)"

function read_groups :: "nat \<Rightarrow> nat \<Rightarrow> string \<Rightarrow> nat list \<times> bool \<times> string" where
  "read_groups limit i s =
     (if limit \<le> i then ([], False, s)
      else (case (if i < limit - 1 then (case read_separated i s of None \<Rightarrow> None | Some r \<Rightarrow> read_ipv4_addr r) else None) of
              Some (a, rest) \<Rightarrow> ([unat a div 65536, unat a mod 65536], True, rest)
            | None \<Rightarrow>
                (case (case read_separated i s of None \<Rightarrow> None | Some r \<Rightarrow> read_number 16 16 4 True r) of
                   None \<Rightarrow> ([], False, s)
                 | Some (g, rest) \<Rightarrow> (case read_groups limit (i + 1) rest of (gs, v4, r) \<Rightarrow> (g # gs, v4, r)))))"
  by pat_completeness auto
termination by (relation "measure (\<lambda>(limit, i, s). limit - i)") auto

declare read_groups.simps [simp del]

definition ipv6_of_groups :: "nat list \<Rightarrow> 128 word" where
  "ipv6_of_groups gs = word_of_nat (foldl (\<lambda>acc g. acc * 65536 + g) 0 gs)"

definition read_ipv6_addr :: "string \<Rightarrow> (128 word \<times> string) option" where
  "read_ipv6_addr s =
     (case read_groups 8 0 s of
        (head, head_ipv4, r) \<Rightarrow>
          if length head = 8 then Some (ipv6_of_groups head, r)
          else if head_ipv4 then None
          else (case strip_prefix ''::'' r of
                  None \<Rightarrow> None
                | Some r' \<Rightarrow>
                    (case read_groups (8 - (length head + 1)) 0 r' of
                       (tail, _, rest) \<Rightarrow>
                         Some (ipv6_of_groups (head @ replicate (8 - length head - length tail) 0 @ tail), rest))))"

text \<open>\<open>str::parse::<IpAddr>\<close>: the whole text.\<close>

definition parse_ip :: "string \<Rightarrow> IpAddr option" where
  "parse_ip s =
     (case read_ipv4_addr s of
        Some (a, rest) \<Rightarrow> if rest = [] then Some (V4 a) else None
      | None \<Rightarrow> (case read_ipv6_addr s of
                   Some (a, rest) \<Rightarrow> if rest = [] then Some (V6 a) else None
                 | None \<Rightarrow> None))"

section \<open>Literals and zones\<close>

text \<open>\<open>is_unicast_link_local\<close>: the prefix \<open>fe80::/10\<close>.\<close>

definition is_unicast_link_local :: "128 word \<Rightarrow> bool" where
  "is_unicast_link_local a = (drop_bit 118 a = 0x3fa)"

datatype ip_error = NoSuchInterface string | NeedsZone | ZoneOffIpv6 string | BadPort string string | BadBind string

text \<open>\<open>if_nametoindex\<close> gives zero for an unknown name; a name with a NUL in it is not asked for.\<close>

definition zone_to_scope_id :: "(string \<Rightarrow> u32) \<Rightarrow> string \<Rightarrow> ip_error + u32" where
  "zone_to_scope_id if_nametoindex zone =
     (case parse_uint 10 32 zone of
        Some index \<Rightarrow> Ok (word_of_nat index)
      | None \<Rightarrow>
          (let index = (if char_of (0::nat) \<in> set zone then 0 else if_nametoindex zone)
           in if index \<noteq> 0 then Ok index else Err (NoSuchInterface zone)))"

definition unbracket :: "string \<Rightarrow> string option" where
  "unbracket s = (case strip_prefix ''['' s of Some r \<Rightarrow> strip_suffix CHR '']'' r | None \<Rightarrow> None)"

definition parse_ip_literal :: "(string \<Rightarrow> u32) \<Rightarrow> string \<Rightarrow> u16 \<Rightarrow> ip_error + SocketAddr option" where
  "parse_ip_literal if_nametoindex host p =
     (let host = (case unbracket host of Some h \<Rightarrow> h | None \<Rightarrow> host);
          (ip, zone) = (case split_once ''%'' host of Some (ip, zone) \<Rightarrow> (ip, Some zone) | None \<Rightarrow> (host, None))
      in case (parse_ip ip, zone) of
           (Some (V6 a), None) \<Rightarrow> if is_unicast_link_local a then Err NeedsZone else Ok (Some (SocketAddr_new (V6 a) p))
         | (Some ip, None) \<Rightarrow> Ok (Some (SocketAddr_new ip p))
         | (Some (V6 a), Some zone) \<Rightarrow>
             (case zone_to_scope_id if_nametoindex zone of Err e \<Rightarrow> Err e | Ok sc \<Rightarrow> Ok (Some (SockV6 a p 0 sc)))
         | (None, None) \<Rightarrow> Ok None
         | (_, Some _) \<Rightarrow> Err (ZoneOffIpv6 host))"

section \<open>Targets\<close>

definition split_host_port :: "string \<Rightarrow> ip_error + string \<times> u16 option" where
  "split_host_port s =
     (case unbracket s of
        Some host \<Rightarrow> Ok (host, None)
      | None \<Rightarrow>
          (case (case (case strip_prefix ''['' s of Some r \<Rightarrow> split_once '']:'' r | None \<Rightarrow> None) of
                   Some split \<Rightarrow> Some split
                 | None \<Rightarrow> (case split_once '':'' s of
                              Some (host, p) \<Rightarrow> if CHR '':'' \<notin> set p then Some (host, p) else None
                            | None \<Rightarrow> None)) of
             None \<Rightarrow> Ok (s, None)
           | Some (host, p) \<Rightarrow>
               (case parse_uint 10 16 p of
                  Some n \<Rightarrow> Ok (host, Some (word_of_nat n))
                | None \<Rightarrow> Err (BadPort p s))))"

definition parse_bind_address :: "(string \<Rightarrow> u32) \<Rightarrow> string \<Rightarrow> ip_error + SocketAddr" where
  "parse_bind_address if_nametoindex s =
     (case split_host_port s of
        Err e \<Rightarrow> Err e
      | Ok (host, p) \<Rightarrow>
          (case parse_ip_literal if_nametoindex host (case p of Some p \<Rightarrow> p | None \<Rightarrow> 0) of
             Err e \<Rightarrow> Err e
           | Ok (Some addr) \<Rightarrow> Ok addr
           | Ok None \<Rightarrow> Err (BadBind s)))"

text \<open>\<open>Display\<close> of an IPv4 address.\<close>

definition show_ipv4 :: "32 word \<Rightarrow> string" where
  "show_ipv4 a =
     (let n = unat a
      in show_nat (n div 2 ^ 24) @ ''.'' @ show_nat (n div 2 ^ 16 mod 256) @ ''.'' @ show_nat (n div 2 ^ 8 mod 256) @ ''.'' @ show_nat (n mod 256))"

section \<open>Lemmas\<close>

lemma show_nat_decimal: "c \<in> set (show_nat n) \<Longrightarrow> 48 \<le> (of_char c :: nat) \<and> (of_char c :: nat) \<le> 57"
  using show_nat_digits [of c n] by (auto simp: of_char_hex_digit)

lemma show_nat_not: "c \<in> {CHR '':'', CHR '']'', CHR ''['', CHR ''.'', CHR ''%''} \<Longrightarrow> c \<notin> set (show_nat n)"
  using show_nat_decimal [of c n] by auto

lemma unbracket_Some_iff: "unbracket s = Some h \<longleftrightarrow> s = ''['' @ h @ '']''"
  by (auto simp: unbracket_def strip_prefix_Some_iff strip_suffix_def ends_with_def split: option.splits)
     (metis append_butlast_last_id strip_prefix_Some_iff append_Cons append_Nil)

text \<open>What \<open>host_port\<close> prints for a target is read back as its host and port: a name or an IPv4 literal plainly,
  an IPv6 literal (zone included) in brackets.\<close>

lemma split_host_port_plain:
  assumes "CHR '':'' \<notin> set h" "CHR ''['' \<notin> set h" "CHR '']'' \<notin> set h"
  shows "split_host_port (h @ '':'' @ show_nat (unat p)) = Ok (h, Some p)"
proof -
  let ?s = "h @ '':'' @ show_nat (unat p)"
  have d: "CHR '':'' \<notin> set (show_nat (unat p))" "CHR '']'' \<notin> set (show_nat (unat p))" by (auto dest: show_nat_decimal)
  have nb: "CHR '']'' \<notin> set ?s" using assms d by auto
  have "unbracket ?s = None" using nb unbracket_Some_iff [of ?s] by (metis UnCI list.set_intros(1) not_Some_eq set_append)
  moreover have "strip_prefix ''['' ?s = None" using assms(2) by (cases h) auto
  moreover have "split_once '':'' ?s = Some (h, show_nat (unat p))"
    using split_once_at [OF assms(1)] by simp
  moreover have "parse_uint 10 16 (show_nat (unat p)) = Some (unat p)" using parse_show_nat [of "unat p" 16] unat_lt_pow [of p] by simp
  ultimately show ?thesis using d(1) by (simp add: split_host_port_def)
qed

lemma split_host_port_bracketed:
  assumes "CHR '']'' \<notin> set h"
  shows "split_host_port (''['' @ h @ '']:'' @ show_nat (unat p)) = Ok (h, Some p)"
proof -
  let ?s = "''['' @ h @ '']:'' @ show_nat (unat p)"
  have "last ?s = last (show_nat (unat p))" by simp
  then have "last ?s \<noteq> CHR '']''" using show_nat_not [of "CHR '']''" "unat p"] last_in_set [of "show_nat (unat p)"] by (metis insertCI show_nat_not_Nil)
  then have u: "unbracket ?s = None" using unbracket_Some_iff [of ?s] by (metis append_is_Nil_conv last_appendR last_ConsL list.distinct(1) not_Some_eq)
  have n: "parse_uint 10 16 (show_nat (unat p)) = Some (unat p)" using parse_show_nat [of "unat p" 16] unat_lt_pow [of p] by simp
  show ?thesis unfolding split_host_port_def u using split_once_bracket [OF assms] n by simp
qed

lemma host_port_plain:
  assumes "CHR ''['' \<notin> set h" "CHR '']'' \<notin> set h"
  shows "host_port h p = (if CHR '':'' \<in> set h then ''['' @ h @ '']:'' @ show_nat (unat p) else h @ '':'' @ show_nat (unat p))"
proof -
  have "dropWhile (\<lambda>c. c = CHR ''['') h = h" using assms(1) by (cases h) auto
  moreover have "dropWhile (\<lambda>c. c = CHR '']'') (rev h) = rev h" using assms(2) by (cases h rule: rev_cases) auto
  ultimately show ?thesis by (simp add: host_port_def)
qed

section \<open>Properties\<close>

text \<open>C25: the address that the program prints for a host and a port is parsed back into the same host and port,
  whatever the host is: a name, an IPv4 address, or an IPv6 address with or without a zone, as long as it has no brackets of its own.\<close>

theorem target_roundtrip:
  assumes "CHR ''['' \<notin> set h" "CHR '']'' \<notin> set h"
  shows "split_host_port (host_port h p) = Ok (h, Some p)"
  using assms by (simp add: host_port_plain split_host_port_plain split_host_port_bracketed del: append_Cons)

theorem target_roundtrip_witness: "split_host_port (host_port ''fe80::1%eth0'' 5201) = Ok (''fe80::1%eth0'', Some 5201)"
  by (rule target_roundtrip) simp_all

end
