(* ===== verification/Result_Diff.thy ===== *)
theory Result_Diff
  imports Rust_Format Stats
begin

text \<open>
  Comparing two results (\<open>src/diff.rs\<close>), and the human-readable numbers of \<open>stats.rs\<close> that all the reports use.
  The JSON decoder of result files is a parameter. A change from a baseline of zero is infinite, so percentages
  are \<open>float\<close>s, as is the threshold before it has been validated.
\<close>

section \<open>Numbers for people\<close>

definition normalize_for_display :: "real \<Rightarrow> nat \<Rightarrow> real" where
  "normalize_for_display v decimals = of_int (f64_round (v * 10 ^ decimals)) / 10 ^ decimals"

definition bytes_to_human :: "u64 \<Rightarrow> string" where
  "bytes_to_human n =
     (let KB = 1024; MB = KB * 1024; GB = MB * 1024; TB = GB * 1024 :: u64
      in if TB \<le> n then fmt_fixed 2 (u64_as_f64 n / u64_as_f64 TB) @ '' TB''
         else if GB \<le> n then fmt_fixed 2 (u64_as_f64 n / u64_as_f64 GB) @ '' GB''
         else if MB \<le> n then fmt_fixed 2 (u64_as_f64 n / u64_as_f64 MB) @ '' MB''
         else if KB \<le> n then fmt_fixed 2 (u64_as_f64 n / u64_as_f64 KB) @ '' KB''
         else show_nat (unat n) @ '' B'')"

definition mbps_to_human :: "real \<Rightarrow> string" where
  "mbps_to_human mbps =
     (let rounded_1dp = normalize_for_display mbps 1
      in if 1000 \<le> rounded_1dp then fmt_fixed 2 (normalize_for_display (mbps / 1000) 2) @ '' Gbps''
         else fmt_fixed 1 rounded_1dp @ '' Mbps'')"

section \<open>Comparison\<close>

definition DEFAULT_DIFF_THRESHOLD_PERCENT :: real where "DEFAULT_DIFF_THRESHOLD_PERCENT = 5"

record DiffConfig =
  df_threshold_percent :: float

definition DiffConfig_default :: DiffConfig where
  "DiffConfig_default = \<lparr>df_threshold_percent = Fin DEFAULT_DIFF_THRESHOLD_PERCENT\<rparr>"

datatype diff_error = BadThreshold | CannotRead string | BadResult string

definition DiffConfig_validate :: "DiffConfig \<Rightarrow> diff_error + unit" where
  "DiffConfig_validate c =
     (case df_threshold_percent c of
        Fin t \<Rightarrow> if 0 \<le> t then Ok () else Err BadThreshold
      | _ \<Rightarrow> Err BadThreshold)"

record DiffResult =
  dr_baseline :: TestResult
  dr_current :: TestResult
  dr_throughput_change_percent :: real
  dr_retransmit_change_percent :: float
  dr_rtt_change_percent :: float
  dr_threshold_percent :: float
  dr_is_regression :: bool

fun float_neg :: "float \<Rightarrow> float" where
  "float_neg (Fin x) = Fin (- x)"
| "float_neg PosInf = NegInf"
| "float_neg NegInf = PosInf"
| "float_neg NaN = NaN"

text \<open>The change of a counter, \<open>f\<close> of the two snapshots; nothing without both.\<close>

definition counter_change :: "(TcpInfoSnapshot \<Rightarrow> nat) \<Rightarrow> TcpInfoSnapshot option \<Rightarrow> TcpInfoSnapshot option \<Rightarrow> float" where
  "counter_change f b c =
     (case (b, c) of
        (Some b, Some c) \<Rightarrow>
          if 0 < f b then Fin ((real (f c) - real (f b)) / real (f b) * 100)
          else if 0 < f c then PosInf else Fin 0
      | _ \<Rightarrow> Fin 0)"

definition compare :: "TestResult \<Rightarrow> TestResult \<Rightarrow> DiffConfig \<Rightarrow> DiffResult" where
  "compare baseline current config =
     (let throughput_change =
            (if 0 < tr_throughput_mbps baseline
             then (tr_throughput_mbps current - tr_throughput_mbps baseline) / tr_throughput_mbps baseline * 100 else 0);
          retransmit_change = counter_change (\<lambda>t. unat (ti_retransmits t)) (tr_tcp_info baseline) (tr_tcp_info current);
          rtt_change = counter_change (\<lambda>t. unat (ti_rtt_us t)) (tr_tcp_info baseline) (tr_tcp_info current);
          t = df_threshold_percent config
      in \<lparr>dr_baseline = baseline, dr_current = current, dr_throughput_change_percent = throughput_change,
          dr_retransmit_change_percent = retransmit_change, dr_rtt_change_percent = rtt_change, dr_threshold_percent = t,
          dr_is_regression = (float_less (Fin throughput_change) (float_neg t) \<or> float_less t retransmit_change \<or> float_less t rtt_change)\<rparr>)"

definition load_result :: "(string \<Rightarrow> TestResult option) \<Rightarrow> (string \<Rightarrow> string option) \<Rightarrow> string \<Rightarrow> diff_error + TestResult" where
  "load_result from_json read_file path =
     (case read_file path of
        None \<Rightarrow> Err (CannotRead path)
      | Some content \<Rightarrow> (case from_json content of None \<Rightarrow> Err (BadResult path) | Some r \<Rightarrow> Ok r))"

definition run_diff ::
  "(string \<Rightarrow> TestResult option) \<Rightarrow> (string \<Rightarrow> string option) \<Rightarrow> string \<Rightarrow> string \<Rightarrow> DiffConfig \<Rightarrow> diff_error + DiffResult" where
  "run_diff from_json read_file baseline_path current_path config =
     (case DiffConfig_validate config of
        Err e \<Rightarrow> Err e
      | Ok _ \<Rightarrow>
          (case load_result from_json read_file baseline_path of
             Err e \<Rightarrow> Err e
           | Ok baseline \<Rightarrow>
               (case load_result from_json read_file current_path of
                  Err e \<Rightarrow> Err e
                | Ok current \<Rightarrow> Ok (compare baseline current config))))"

section \<open>The report\<close>

definition arrow :: string where "arrow = map char_of [226, 134, 146 :: nat]"

datatype tag = OkTag | WarnTag | FailTag | NoTag

definition tag_text :: "tag \<Rightarrow> string" where
  "tag_text t = (case t of OkTag \<Rightarrow> '' [OK]'' | WarnTag \<Rightarrow> '' [WARN]'' | FailTag \<Rightarrow> '' [FAIL]'' | NoTag \<Rightarrow> [])"

definition throughput_tag :: "DiffResult \<Rightarrow> tag" where
  "throughput_tag d =
     (if float_less (Fin (dr_throughput_change_percent d)) (float_neg (dr_threshold_percent d)) then FailTag
      else if dr_throughput_change_percent d < 0 then WarnTag else OkTag)"

definition increase_tag :: "DiffResult \<Rightarrow> float \<Rightarrow> tag" where
  "increase_tag d change =
     (if float_less (dr_threshold_percent d) change then FailTag
      else if float_less (Fin 0) change then WarnTag else NoTag)"

text \<open>The tags printed: those of the counters only when both results have them.\<close>

definition report_tags :: "DiffResult \<Rightarrow> tag list" where
  "report_tags d =
     throughput_tag d #
     (case (tr_tcp_info (dr_baseline d), tr_tcp_info (dr_current d)) of
        (Some b, Some c) \<Rightarrow> [increase_tag d (dr_retransmit_change_percent d), increase_tag d (dr_rtt_change_percent d)]
      | _ \<Rightarrow> [])"

definition format_plain :: "DiffResult \<Rightarrow> string" where
  "format_plain d =
     ''Throughput: '' @ fmt_fixed 1 (normalize_for_display (tr_throughput_mbps (dr_baseline d)) 1) @ '' Mbps '' @ arrow @ '' ''
       @ fmt_fixed 1 (normalize_for_display (tr_throughput_mbps (dr_current d)) 1) @ '' Mbps (''
       @ fmt_signed 1 (Fin (normalize_for_display (dr_throughput_change_percent d) 1)) @ ''%)'' @ line (tag_text (throughput_tag d))
     @ (case (tr_tcp_info (dr_baseline d), tr_tcp_info (dr_current d)) of
          (Some b, Some c) \<Rightarrow>
            ''Retransmits: '' @ show_nat (unat (ti_retransmits b)) @ '' '' @ arrow @ '' '' @ show_nat (unat (ti_retransmits c)) @ '' (''
              @ fmt_signed 1 (dr_retransmit_change_percent d) @ ''%)'' @ line (tag_text (increase_tag d (dr_retransmit_change_percent d)))
            @ ''RTT: '' @ fmt_fixed 2 (real (unat (ti_rtt_us b)) / 1000) @ '' ms '' @ arrow @ '' ''
              @ fmt_fixed 2 (real (unat (ti_rtt_us c)) / 1000) @ '' ms (''
              @ fmt_signed 1 (dr_rtt_change_percent d) @ ''%)'' @ line (tag_text (increase_tag d (dr_rtt_change_percent d)))
        | _ \<Rightarrow> [])
     @ line [] @ line (if dr_is_regression d then ''Verdict: REGRESSION DETECTED'' else ''Verdict: OK'')"

section \<open>Lemmas\<close>

lemma normalize_for_display_near: "\<bar>v - normalize_for_display v d\<bar> \<le> 1 / (2 * 10 ^ d)"
proof -
  have "\<bar>v * 10 ^ d - of_int (f64_round (v * 10 ^ d))\<bar> \<le> 1 / 2" by (rule f64_round_near)
  then have "\<bar>v * 10 ^ d - of_int (f64_round (v * 10 ^ d))\<bar> / 10 ^ d \<le> 1 / 2 / 10 ^ d" by (rule divide_right_mono) simp
  moreover have "\<bar>v - normalize_for_display v d\<bar> = \<bar>v * 10 ^ d - of_int (f64_round (v * 10 ^ d))\<bar> / 10 ^ d"
  proof -
    have "v - normalize_for_display v d = (v * 10 ^ d - of_int (f64_round (v * 10 ^ d))) / 10 ^ d"
      unfolding normalize_for_display_def by (simp add: field_simps)
    then show ?thesis by (simp add: abs_divide)
  qed
  ultimately show ?thesis by simp
qed

text \<open>A counter has increased by more than the threshold, a baseline of zero included.\<close>

lemma counter_change_exceeds:
  assumes "0 \<le> t"
  shows "float_less (Fin t) (counter_change f b c) \<longleftrightarrow>
    (\<exists>x y. b = Some x \<and> c = Some y \<and> real (f x) * (1 + t / 100) < real (f y))"
proof (cases "b = None \<or> c = None")
  case True
  then show ?thesis using assms by (auto simp: counter_change_def split: option.splits)
next
  case False
  then obtain x y where [simp]: "b = Some x" "c = Some y" by auto
  show ?thesis
  proof (cases "0 < f x")
    case True
    then have "t < (real (f y) - real (f x)) / real (f x) * 100 \<longleftrightarrow> real (f x) * (1 + t / 100) < real (f y)"
      by (simp add: field_simps)
    then show ?thesis using True by (simp add: counter_change_def)
  next
    case False
    then show ?thesis using assms by (simp add: counter_change_def)
  qed
qed

lemma throughput_change_exceeds:
  assumes "0 < b"
  shows "(c - b) / b * 100 < - t \<longleftrightarrow> c < b * (1 - t / 100 :: real)"
  using assms by (simp add: field_simps)

section \<open>Properties\<close>

text \<open>A result is called a regression exactly when the throughput fell below the baseline's by more than the
  threshold, or retransmissions or the round-trip time rose above it by more than the threshold (any rise from zero counts);
  and exactly then a line of the report carries the failure tag, however the two results are made up.\<close>

theorem regression_verdict:
  assumes "run_diff from_json read_file bp cp config = Ok d"
  shows "\<exists>t b c. df_threshold_percent config = Fin t \<and> dr_baseline d = b \<and> dr_current d = c \<and>
    (dr_is_regression d \<longleftrightarrow>
       0 < tr_throughput_mbps b \<and> tr_throughput_mbps c < tr_throughput_mbps b * (1 - t / 100)
       \<or> (\<exists>x y. tr_tcp_info b = Some x \<and> tr_tcp_info c = Some y
            \<and> (real (unat (ti_retransmits x)) * (1 + t / 100) < real (unat (ti_retransmits y))
               \<or> real (unat (ti_rtt_us x)) * (1 + t / 100) < real (unat (ti_rtt_us y)))))
    \<and> (FailTag \<in> set (report_tags d) \<longleftrightarrow> dr_is_regression d)"
proof -
  obtain t b c where t: "df_threshold_percent config = Fin t" "0 \<le> t" and d: "d = compare b c config"
    using assms by (auto simp: run_diff_def DiffConfig_validate_def split: sum.splits float.splits if_splits)
  have tp: "(if 0 < tr_throughput_mbps b then (tr_throughput_mbps c - tr_throughput_mbps b) / tr_throughput_mbps b * 100 else 0) < - t
      \<longleftrightarrow> 0 < tr_throughput_mbps b \<and> tr_throughput_mbps c < tr_throughput_mbps b * (1 - t / 100)"
    using t(2) throughput_change_exceeds [of "tr_throughput_mbps b" "tr_throughput_mbps c" t] by auto
  have reg: "dr_is_regression d \<longleftrightarrow>
       0 < tr_throughput_mbps b \<and> tr_throughput_mbps c < tr_throughput_mbps b * (1 - t / 100)
       \<or> (\<exists>x y. tr_tcp_info b = Some x \<and> tr_tcp_info c = Some y
            \<and> (real (unat (ti_retransmits x)) * (1 + t / 100) < real (unat (ti_retransmits y))
               \<or> real (unat (ti_rtt_us x)) * (1 + t / 100) < real (unat (ti_rtt_us y))))"
    unfolding d compare_def Let_def using tp by (auto simp: t(1) counter_change_exceeds [OF t(2)])
  have "FailTag \<in> set (report_tags d) \<longleftrightarrow> dr_is_regression d"
    using t(2) unfolding d compare_def Let_def
    by (auto simp: t(1) report_tags_def throughput_tag_def increase_tag_def counter_change_def split: option.splits)
  with reg t show ?thesis unfolding d by (simp add: compare_def Let_def)
qed

definition sample_result :: "real \<Rightarrow> u64 \<Rightarrow> u32 \<Rightarrow> TestResult" where
  "sample_result mbps retransmits rtt_us =
     \<lparr>tr_id = ''test'', tr_bytes_total = 1000000000, tr_duration_ms = 10000, tr_throughput_mbps = mbps, tr_streams = [],
      tr_tcp_info = Some \<lparr>ti_retransmits = retransmits, ti_rtt_us = rtt_us, ti_rtt_var_us = 100, ti_cwnd = 65535, ti_bytes_acked = None\<rparr>,
      tr_udp_stats = None, tr_udp_stats_send = None, tr_udp_stats_recv = None, tr_bytes_sent = None, tr_bytes_received = None,
      tr_throughput_send_mbps = None, tr_throughput_recv_mbps = None, tr_mtu_probe = None, tr_server_udp_send_errors = None,
      tr_client_udp_send_errors = None, tr_zero_byte_streams = None\<rparr>"

theorem regression_verdict_witness:
  "\<exists>d. run_diff (\<lambda>s. Some (if s = ''b'' then sample_result 1000 0 1000 else sample_result 1000 20 1000)) Some ''b'' ''c'' DiffConfig_default = Ok d
     \<and> dr_is_regression d"
proof -
  let ?j = "\<lambda>s. Some (if s = ''b'' then sample_result 1000 0 1000 else sample_result 1000 20 1000)"
  obtain d where d: "run_diff ?j Some ''b'' ''c'' DiffConfig_default = Ok d"
    "dr_baseline d = sample_result 1000 0 1000" "dr_current d = sample_result 1000 20 1000"
    by (simp add: run_diff_def load_result_def DiffConfig_validate_def DiffConfig_default_def DEFAULT_DIFF_THRESHOLD_PERCENT_def compare_def Let_def)
  with regression_verdict [OF d(1)] show ?thesis by (auto simp: sample_result_def)
qed

text \<open>The widths that the interval rows reserve (eleven and ten characters) hold what they say, up to a terabyte
  and just below 1000 Gbps; from 999.995 Gbps on the rate rounds up to one character more.\<close>

lemma gbps_width_exceeded: "length (mbps_to_human 999999) = 12"
proof -
  have "f64_round 9999990 = 9999990" "f64_round (999999 / 10) = 100000" by (simp_all add: f64_round_def)
  then have "mbps_to_human 999999 = ''1000.00 Gbps''"
    by (simp add: mbps_to_human_def normalize_for_display_def fmt_fixed_def show_scaled_def pad_zeros_def show_nat.simps hex_digit_def char_of_def bit_0)
  then show ?thesis by simp
qed

end
