(* ===== verification/Push_Gateway.thy ===== *)
theory Push_Gateway
  imports Rust_Format Stats Net "HOL-Library.Char_ord" "HOL-Library.List_Lexorder"
begin

text \<open>
  Pushing metrics (\<open>src/output/push_gateway.rs\<close>): operator labels, the grouping path of the gateway, and the
  exposition text. The URL parser, base64 and the HTTP client are third-party parameters; the shortest decimal of an
  \<open>f64\<close> (\<open>show_f64\<close>) is one too. A \<open>BTreeMap\<close> is an association list sorted by key.
\<close>

section \<open>Labels\<close>

type_synonym labels = "(string \<times> string) list"

definition ascii_alphabetic :: "char \<Rightarrow> bool" where
  "ascii_alphabetic c = (let k = of_char c :: nat in (65 \<le> k \<and> k \<le> 90) \<or> (97 \<le> k \<and> k \<le> 122))"

definition ascii_digit :: "char \<Rightarrow> bool" where
  "ascii_digit c = (let k = of_char c :: nat in 48 \<le> k \<and> k \<le> 57)"

definition RESERVED :: "string list" where
  "RESERVED = [''job'', ''role'', ''server'', ''client'', ''protocol'', ''test_direction'', ''direction'', ''view'', ''test_id'', ''stream_id'']"

definition valid_label_name :: "string \<Rightarrow> bool" where
  "valid_label_name name \<longleftrightarrow>
     name \<noteq> []
     \<and> list_all (\<lambda>(i, c). ascii_alphabetic c \<or> c = CHR ''_'' \<or> (0 < i \<and> ascii_digit c)) (enumerate 0 name)
     \<and> strip_prefix ''__'' name = None \<and> strip_prefix ''U__'' name = None \<and> name \<notin> set RESERVED"

datatype push_error =
    BadLabelName string
  | NotKeyValue string
  | DuplicateLabel string
  | BadUrl string
  | NotHttp
  | EmptyJob
  | NoInstance
  | NoContext
  | TimedOut
  | GatewayStatus nat
  | SendFailed

definition validate_push_labels :: "labels \<Rightarrow> push_error + unit" where
  "validate_push_labels ls =
     (case find (\<lambda>(k, v). \<not> valid_label_name k) ls of Some (k, v) \<Rightarrow> Err (BadLabelName k) | None \<Rightarrow> Ok ())"

text \<open>\<open>BTreeMap::insert\<close>: sorted, a present key's value replaced.\<close>

fun bt_insert :: "string \<Rightarrow> string \<Rightarrow> labels \<Rightarrow> labels" where
  "bt_insert k v [] = [(k, v)]"
| "bt_insert k v ((k', v') # m) =
     (if k < k' then (k, v) # (k', v') # m else if k = k' then (k, v) # m else (k', v') # bt_insert k v m)"

fun parse_overrides :: "string list \<Rightarrow> labels \<Rightarrow> push_error + labels" where
  "parse_overrides [] acc = Ok acc"
| "parse_overrides (label # ls) acc =
     (case split_once ''='' label of
        None \<Rightarrow> Err (NotKeyValue label)
      | Some (name, value) \<Rightarrow>
          if map_of acc name = None then parse_overrides ls (bt_insert name value acc) else Err (DuplicateLabel name))"

definition merge_push_labels :: "labels \<Rightarrow> string list \<Rightarrow> push_error + labels" where
  "merge_push_labels ls cli =
     (case parse_overrides cli [] of
        Err e \<Rightarrow> Err e
      | Ok overrides \<Rightarrow>
          (let merged = foldl (\<lambda>m (k, v). bt_insert k v m) ls overrides
           in case validate_push_labels merged of Err e \<Rightarrow> Err e | Ok _ \<Rightarrow> Ok merged))"

section \<open>The client\<close>

record Url =
  ur_scheme :: string
  ur_host :: "string option"
  ur_segments :: "string list"

record PushGatewayClient =
  pg_url :: Url
  pg_grouping_labels :: labels
  pg_test :: "(Protocol \<times> Protocol.Direction) option"
  pg_labels :: labels
  pg_job :: "string option"

text \<open>What of an unparsable URL an error shows: anything that may be credentials is masked.\<close>

definition rfind :: "char \<Rightarrow> string \<Rightarrow> nat option" where
  "rfind c s = (if c \<in> set s then Some (length s - 1 - length (takeWhile (\<lambda>x. x \<noteq> c) (rev s))) else None)"

definition shown_url :: "string \<Rightarrow> string" where
  "shown_url url =
     (case rfind CHR ''@'' url of
        Some pos \<Rightarrow>
          (let start = min (case split_once ''://'' url of Some (a, _) \<Rightarrow> length a + 3 | None \<Rightarrow> 0) pos
           in take start url @ ''***'' @ drop pos url)
      | None \<Rightarrow> url)"

definition PushGatewayClient_new :: "(string \<Rightarrow> Url option) \<Rightarrow> string \<Rightarrow> push_error + PushGatewayClient" where
  "PushGatewayClient_new parse_url url =
     (case parse_url url of
        None \<Rightarrow> Err (BadUrl (shown_url url))
      | Some u \<Rightarrow>
          if (ur_scheme u = ''http'' \<or> ur_scheme u = ''https'') \<and> ur_host u \<noteq> None
          then Ok \<lparr>pg_url = u, pg_grouping_labels = [], pg_test = None, pg_labels = [], pg_job = None\<rparr>
          else Err NotHttp)"

definition with_test :: "PushGatewayClient \<Rightarrow> Protocol \<Rightarrow> Protocol.Direction \<Rightarrow> PushGatewayClient" where
  "with_test c protocol direction = c\<lparr>pg_test := Some (protocol, direction)\<rparr>"

definition with_labels :: "PushGatewayClient \<Rightarrow> labels \<Rightarrow> push_error + PushGatewayClient" where
  "with_labels c ls = (case validate_push_labels ls of Err e \<Rightarrow> Err e | Ok _ \<Rightarrow> Ok (c\<lparr>pg_labels := ls\<rparr>))"

definition with_job :: "PushGatewayClient \<Rightarrow> string \<Rightarrow> push_error + PushGatewayClient" where
  "with_job c job = (if trim job = [] then Err EmptyJob else Ok (c\<lparr>pg_job := Some job\<rparr>))"

definition validate_context :: "PushGatewayClient \<Rightarrow> push_error + unit" where
  "validate_context c =
     (if pg_job c = None then Ok ()
      else if \<not> (case map_of (pg_labels c) ''instance'' of Some v \<Rightarrow> trim v \<noteq> [] | None \<Rightarrow> False) then Err NoInstance
      else if pg_test c \<noteq> None \<and> list_ex (\<lambda>(k, v). k = ''role'' \<and> v = ''client'') (pg_grouping_labels c)
              \<and> list_ex (\<lambda>(k, v). k = ''server'') (pg_grouping_labels c) then Ok ()
      else Err NoContext)"

definition with_endpoint :: "PushGatewayClient \<Rightarrow> string \<Rightarrow> string \<Rightarrow> string \<Rightarrow> PushGatewayClient" where
  "with_endpoint c name value role = c\<lparr>pg_grouping_labels := [(''role'', role), (name, value)]\<rparr>"

definition with_server :: "PushGatewayClient \<Rightarrow> string \<Rightarrow> u16 \<Rightarrow> PushGatewayClient" where
  "with_server c host p = with_endpoint c ''server'' (host_port host p) ''client''"

section \<open>The grouping path\<close>

text \<open>\<open>path_segments_mut\<close> of the URL library drops an empty last segment on demand and ignores the segments
  \<open>.\<close> and \<open>..\<close> when they are pushed. A segment here is what it stands for once percent-decoded.\<close>

definition pop_if_empty :: "string list \<Rightarrow> string list" where
  "pop_if_empty ss = (if ss \<noteq> [] \<and> last ss = [] then butlast ss else ss)"

definition push_segment :: "string list \<Rightarrow> string \<Rightarrow> string list" where
  "push_segment ss s = (if s = ''.'' \<or> s = ''..'' then ss else ss @ [s])"

definition needs_base64 :: "string \<Rightarrow> bool" where
  "needs_base64 v = (v = [] \<or> CHR ''/'' \<in> set v \<or> v = ''.'' \<or> v = ''..'')"

definition push_pair :: "(string \<Rightarrow> string) \<Rightarrow> string list \<Rightarrow> string \<times> string \<Rightarrow> string list" where
  "push_pair base64 ss kv =
     (case kv of (name, v) \<Rightarrow>
        if needs_base64 v
        then push_segment (push_segment ss (name @ ''@base64'')) (if v = [] then ''='' else base64 v)
        else push_segment (push_segment ss name) v)"

definition direction_label :: "Protocol.Direction \<Rightarrow> string" where
  "direction_label d = (case d of Upload \<Rightarrow> ''upload'' | Download \<Rightarrow> ''download'' | Bidir \<Rightarrow> ''bidir'')"

definition grouping_key :: "PushGatewayClient \<Rightarrow> string \<Rightarrow> labels" where
  "grouping_key c test_id =
     (''job'', case pg_job c of Some job \<Rightarrow> job | None \<Rightarrow> ''xfr_test_'' @ test_id)
     # pg_grouping_labels c
     @ (case (pg_job c, pg_test c) of
          (Some _, Some (protocol, direction)) \<Rightarrow>
            [(''protocol'', to_lowercase (Protocol_display protocol)), (''test_direction'', direction_label direction)]
        | _ \<Rightarrow> [])
     @ pg_labels c"

definition push_url :: "(string \<Rightarrow> string) \<Rightarrow> PushGatewayClient \<Rightarrow> string \<Rightarrow> Url" where
  "push_url base64 c test_id =
     (pg_url c)\<lparr>ur_segments :=
        foldl (push_pair base64) (push_segment (pop_if_empty (ur_segments (pg_url c))) ''metrics'') (grouping_key c test_id)\<rparr>"

section \<open>Delivery\<close>

text \<open>Up to three attempts; the times are those of the attempts, whose sum with the pauses between them the
  deadline bounds.\<close>

definition DELIVERY_DEADLINE :: nat where "DELIVERY_DEADLINE = 5000000000"

fun push_attempts :: "nat \<Rightarrow> nat \<Rightarrow> (nat \<times> (push_error + unit)) list \<Rightarrow> nat \<times> (push_error + unit)" where
  "push_attempts attempt t [] = (t, Err SendFailed)"
| "push_attempts attempt t ((d, r) # rs) =
     (case r of
        Ok _ \<Rightarrow> (t + d, Ok ())
      | Err e \<Rightarrow> if attempt < 3 then push_attempts (attempt + 1) (t + d + 100000000 * attempt) rs else (t + d, Err e))"

definition push_metrics :: "(nat \<times> (push_error + unit)) list \<Rightarrow> push_error + unit" where
  "push_metrics rs = (case push_attempts 1 0 rs of (t, r) \<Rightarrow> if DELIVERY_DEADLINE < t then Err TimedOut else r)"

text \<open>A response is good with a status from 200 to 299; \<open>None\<close>: the request failed.\<close>

definition push_with_retry :: "nat option \<Rightarrow> push_error + unit" where
  "push_with_retry response =
     (case response of
        None \<Rightarrow> Err SendFailed
      | Some status \<Rightarrow> if 200 \<le> status \<and> status < 300 then Ok () else Err (GatewayStatus status))"

definition request_method :: "PushGatewayClient \<Rightarrow> string" where
  "request_method c = (if pg_job c \<noteq> None then ''PUT'' else ''POST'')"

section \<open>Lemmas on labels\<close>

lemma map_of_bt_insert: "map_of (bt_insert k v m) = (map_of m)(k \<mapsto> v)"
  by (induction k v m rule: bt_insert.induct) (auto simp: fun_eq_iff)

lemma set_bt_insert: "set (bt_insert k v m) \<subseteq> insert (k, v) (set m)"
  by (induction k v m rule: bt_insert.induct) auto

lemma keys_bt_insert: "fst ` set (bt_insert k v m) = insert k (fst ` set m)"
  by (induction k v m rule: bt_insert.induct) auto

lemma sorted_bt_insert: "sorted_wrt (<) (map fst m) \<Longrightarrow> sorted_wrt (<) (map fst (bt_insert k v m))"
proof (induction k v m rule: bt_insert.induct)
  case (2 k v k' v' m)
  have "\<forall>x\<in>fst ` set (bt_insert k v m). k' < x" if "\<not> k < k'" "k \<noteq> k'"
    using that 2(2) unfolding keys_bt_insert by auto
  then show ?case using 2 by auto
qed simp

lemma foldl_bt_insert:
  "map_of (foldl (\<lambda>m (k, v). bt_insert k v m) m kvs) = map_of m ++ map_of (rev kvs)"
  "sorted_wrt (<) (map fst m) \<Longrightarrow> sorted_wrt (<) (map fst (foldl (\<lambda>m (k, v). bt_insert k v m) m kvs))"
  by (induction kvs arbitrary: m) (auto simp: map_of_bt_insert sorted_bt_insert map_add_def fun_eq_iff split: option.splits)

lemma parse_overrides_Ok:
  assumes "parse_overrides cli acc = Ok m"
  shows "\<exists>kvs. map (split_once ''='') cli = map Some kvs \<and> distinct (map fst kvs) \<and> (\<forall>k\<in>fst ` set kvs. map_of acc k = None)
    \<and> map_of m = map_of acc ++ map_of kvs"
  using assms
proof (induction cli arbitrary: acc)
  case Nil
  then show ?case by simp
next
  case (Cons label cli)
  then obtain name v where l: "split_once ''='' label = Some (name, v)" "map_of acc name = None"
    "parse_overrides cli (bt_insert name v acc) = Ok m"
    by (auto split: option.splits if_splits)
  from Cons.IH [OF l(3)] obtain kvs where k: "map (split_once ''='') cli = map Some kvs" "distinct (map fst kvs)"
    "\<forall>k\<in>fst ` set kvs. map_of (bt_insert name v acc) k = None" "map_of m = map_of (bt_insert name v acc) ++ map_of kvs" by blast
  have n: "name \<notin> fst ` set kvs" using k(3) by (auto simp: map_of_bt_insert)
  then have "map_of kvs name = None" by (simp add: map_of_eq_None_iff)
  then have m: "map_of m = map_of acc ++ map_of ((name, v) # kvs)"
    unfolding k(4) by (auto simp: map_of_bt_insert map_add_def fun_eq_iff split: option.splits)
  have "map (split_once ''='') (label # cli) = map Some ((name, v) # kvs)" using l(1) k(1) by simp
  moreover have "distinct (map fst ((name, v) # kvs))" using n k(2) by simp
  moreover have "\<forall>q\<in>fst ` set ((name, v) # kvs). map_of acc q = None"
    using l(2) k(3) by (auto simp: map_of_bt_insert split: if_splits)
  ultimately show ?case using m by (intro exI [of _ "(name, v) # kvs"] conjI)
qed

lemma parse_overrides_sorted:
  "parse_overrides cli acc = Ok m \<Longrightarrow> sorted_wrt (<) (map fst acc) \<Longrightarrow> sorted_wrt (<) (map fst m)"
  by (induction cli acc rule: parse_overrides.induct) (auto simp: sorted_bt_insert split: option.splits if_splits)

lemma sorted_keys_distinct: "sorted_wrt (<) xs \<Longrightarrow> distinct (xs :: string list)"
  by (induction xs) auto

lemma validate_push_labels_Ok: "validate_push_labels ls = Ok () \<longleftrightarrow> (\<forall>k\<in>fst ` set ls. valid_label_name k)"
proof (cases "find (\<lambda>(k, v). \<not> valid_label_name k) ls")
  case None
  then have "\<forall>kv\<in>set ls. valid_label_name (fst kv)" by (auto simp: find_None_iff)
  with None show ?thesis by (auto simp: validate_push_labels_def)
next
  case (Some kv)
  then have "kv \<in> set ls \<and> \<not> valid_label_name (fst kv)" using find_Some_mem by fastforce
  then show ?thesis using Some by (auto simp: validate_push_labels_def split: prod.splits)
qed

text \<open>A valid name has none of the characters with a meaning in the path or the text.\<close>

lemma valid_label_name_chars:
  assumes "valid_label_name name" "c \<in> set name"
  shows "c \<noteq> CHR ''@'' \<and> c \<noteq> CHR ''/'' \<and> c \<noteq> CHR ''.''"
proof -
  obtain i where "i < length name" "c = name ! i" using assms(2) by (auto simp: in_set_conv_nth)
  then have "(i, c) \<in> set (enumerate 0 name)" by (simp add: in_set_enumerate_eq)
  then have "ascii_alphabetic c \<or> c = CHR ''_'' \<or> ascii_digit c"
    using assms(1) unfolding valid_label_name_def list_all_iff by fastforce
  then show ?thesis by (auto simp: ascii_alphabetic_def ascii_digit_def)
qed

section \<open>Lemmas on the path\<close>

definition path_pair :: "(string \<Rightarrow> string) \<Rightarrow> string \<times> string \<Rightarrow> string list" where
  "path_pair base64 kv =
     (if needs_base64 (snd kv) then [fst kv @ ''@base64'', if snd kv = [] then ''='' else base64 (snd kv)] else [fst kv, snd kv])"

text \<open>How a gateway reads the path: the names and values in turn, a value after a marked name decoded.\<close>

fun read_path :: "(string \<Rightarrow> string) \<Rightarrow> string list \<Rightarrow> labels" where
  "read_path unbase64 (n # v # rest) =
     (case split_once ''@'' n of
        Some (name, _) \<Rightarrow> (name, if v = ''='' then [] else unbase64 v)
      | None \<Rightarrow> (n, v)) # read_path unbase64 rest"
| "read_path unbase64 _ = []"

definition path_name :: "string \<Rightarrow> bool" where
  "path_name n \<longleftrightarrow> n \<noteq> [] \<and> CHR ''@'' \<notin> set n \<and> CHR ''.'' \<notin> set n"

lemma path_name_valid: "valid_label_name n \<Longrightarrow> path_name n"
  using valid_label_name_chars [of n] by (auto simp: path_name_def valid_label_name_def)

lemma path_name_reserved: "n \<in> set RESERVED \<Longrightarrow> path_name n"
  by (auto simp: RESERVED_def path_name_def)

lemma push_pair_path:
  assumes "path_name (fst kv)" "\<And>v. base64 v \<notin> {''.'', ''..'', ''=''}"
  shows "push_pair base64 ss kv = ss @ path_pair base64 kv"
proof -
  obtain n v where kv: "kv = (n, v)" by (cases kv)
  have "n \<noteq> ''.'' \<and> n \<noteq> ''..'' \<and> n @ ''@base64'' \<noteq> ''.'' \<and> n @ ''@base64'' \<noteq> ''..''"
    using assms(1) by (auto simp: kv path_name_def append_eq_Cons_conv)
  then show ?thesis using assms(2) [of v] unfolding kv by (auto simp: push_pair_def path_pair_def push_segment_def needs_base64_def)
qed

lemma foldl_push_pair:
  assumes "\<forall>k\<in>fst ` set kvs. path_name k" "\<And>v. base64 v \<notin> {''.'', ''..'', ''=''}"
  shows "foldl (push_pair base64) ss kvs = ss @ concat (map (path_pair base64) kvs)"
  using assms(1)
proof (induction kvs arbitrary: ss)
  case (Cons kv kvs)
  then have "push_pair base64 ss kv = ss @ path_pair base64 kv" by (intro push_pair_path assms(2)) simp
  then show ?case using Cons by simp
qed simp

lemma read_path_pairs:
  assumes "\<forall>k\<in>fst ` set kvs. path_name k" "\<And>v. unbase64 (base64 v) = v" "\<And>v. base64 v \<notin> {''.'', ''..'', ''=''}"
  shows "read_path unbase64 (concat (map (path_pair base64) kvs)) = kvs"
  using assms(1)
proof (induction kvs)
  case (Cons kv kvs)
  obtain n v where kv: "kv = (n, v)" by (cases kv)
  have n: "CHR ''@'' \<notin> set n" using Cons.prems by (simp add: kv path_name_def)
  then have "split_once ''@'' (n @ ''@base64'') = Some (n, ''base64'')" using split_once_at [of "CHR ''@''" n "''base64''"] by simp
  moreover have "split_once ''@'' n = None" using n by (simp add: split_once_one)
  moreover have "read_path unbase64 (concat (map (path_pair base64) kvs)) = kvs" using Cons by simp
  moreover have "path_pair base64 kv = (if needs_base64 v then [n @ ''@base64'', if v = [] then ''='' else base64 v] else [n, v])"
    by (simp add: path_pair_def kv)
  ultimately show ?case using assms(2) [of v] assms(3) [of v] by (auto simp: kv)
qed simp

section \<open>Properties\<close>

text \<open>The labels pushed are the configured ones overridden by those of the command line, key by key, in order;
  every name is valid and none is a dimension of the exporter's own, and a key given twice on the command line or
  without a value is refused.\<close>

theorem merged_labels_override:
  assumes "sorted_wrt (<) (map fst config)" "merge_push_labels config cli = Ok merged"
  shows "\<exists>kvs. map (split_once ''='') cli = map Some kvs \<and> distinct (map fst kvs)
    \<and> map_of merged = map_of config ++ map_of kvs \<and> sorted_wrt (<) (map fst merged)
    \<and> (\<forall>k\<in>fst ` set merged. valid_label_name k \<and> k \<notin> set RESERVED)"
proof -
  obtain o' where o': "parse_overrides cli [] = Ok o'" "merged = foldl (\<lambda>m (k, v). bt_insert k v m) config o'"
    "validate_push_labels merged = Ok ()"
    using assms(2) by (auto simp: merge_push_labels_def Let_def split: sum.splits)
  obtain kvs where k: "map (split_once ''='') cli = map Some kvs" "distinct (map fst kvs)" "map_of o' = map_of kvs"
    using parse_overrides_Ok [OF o'(1)] by auto
  have d: "distinct (map fst o')" using sorted_keys_distinct [OF parse_overrides_sorted [OF o'(1)]] by simp
  have "map_of (rev o') = map_of o'" using d by (subst map_of_inject_set) (simp_all add: rev_map [symmetric])
  then have "map_of merged = map_of config ++ map_of kvs" using o'(2) k(3) foldl_bt_insert(1) by metis
  moreover have "sorted_wrt (<) (map fst merged)" using foldl_bt_insert(2) [OF assms(1)] o'(2) by simp
  moreover have "\<forall>k\<in>fst ` set merged. valid_label_name k \<and> k \<notin> set RESERVED"
    using o'(3) unfolding validate_push_labels_Ok by (auto simp: valid_label_name_def)
  ultimately show ?thesis using k by blast
qed

theorem merged_labels_override_witness:
  "\<exists>merged. merge_push_labels [(''instance'', ''a''), (''site'', ''x'')] [''site=y=z''] = Ok merged \<and> map_of merged ''site'' = Some ''y=z''"
proof -
  have s: "split_once ''='' ''site=y=z'' = Some (''site'', ''y=z'')" using split_once_at [of "CHR ''=''" "''site''" "''y=z''"] by simp
  then obtain m where m: "merge_push_labels [(''instance'', ''a''), (''site'', ''x'')] [''site=y=z''] = Ok m"
    by (simp add: merge_push_labels_def validate_push_labels_def valid_label_name_def RESERVED_def list_all_iff enumerate_eq_zip
        ascii_alphabetic_def ascii_digit_def upt_rec list_less_def Let_def)
  have "sorted_wrt (<) (map fst [(''instance'', ''a''), (''site'', ''x'')])" by (simp add: list_less_def)
  from merged_labels_override [OF this m] obtain kvs where k: "map (split_once ''='') [''site=y=z''] = map Some kvs"
    "map_of m = map_of [(''instance'', ''a''), (''site'', ''x'')] ++ map_of kvs" by blast
  then have "kvs = [(''site'', ''y=z'')]" using s by (cases kvs) auto
  then show ?thesis using m k(2) by (intro exI [of _ m]) simp
qed

text \<open>The path of a push spells out its grouping key and nothing else: a gateway that reads the segments after
  \<open>metrics\<close> in pairs gets back exactly the job, the endpoint, the context and the operator labels, each
  name once, whatever characters the values have; so two pushes replace each other only if they agree in all of these.\<close>

theorem push_url_roundtrip:
  assumes "pg_grouping_labels c \<in> {[], [(''role'', r), (''server'', e)], [(''role'', r), (''client'', e)]}"
    and "with_labels c0 (pg_labels c) = Ok c1" "distinct (map fst (pg_labels c))"
    and "\<And>v. unbase64 (base64 v) = v" "\<And>v. base64 v \<notin> {''.'', ''..'', ''=''}"
  shows "\<exists>pre. ur_segments (push_url base64 c test_id) = pre @ ''metrics'' # concat (map (path_pair base64) (grouping_key c test_id))
      \<and> pre = pop_if_empty (ur_segments (pg_url c))
      \<and> read_path unbase64 (drop (length pre + 1) (ur_segments (push_url base64 c test_id))) = grouping_key c test_id
      \<and> distinct (map fst (grouping_key c test_id))"
proof -
  have l: "\<forall>k\<in>fst ` set (pg_labels c). valid_label_name k"
    using assms(2) unfolding validate_push_labels_Ok [symmetric] by (auto simp: with_labels_def split: sum.splits)
  have g: "fst ` set (grouping_key c test_id) \<subseteq> set RESERVED \<union> fst ` set (pg_labels c)"
    using assms(1) by (auto simp: grouping_key_def RESERVED_def split: option.splits)
  then have p: "\<forall>k\<in>fst ` set (grouping_key c test_id). path_name k"
    using l path_name_valid path_name_reserved by blast
  have r: "\<forall>k\<in>fst ` set (pg_labels c). k \<notin> set RESERVED" using l by (simp add: valid_label_name_def)
  have d: "distinct (map fst (grouping_key c test_id))"
    using assms(1,3) r by (auto simp: grouping_key_def RESERVED_def split: option.splits)
  let ?pre = "pop_if_empty (ur_segments (pg_url c))"
  have "ur_segments (push_url base64 c test_id) = ?pre @ ''metrics'' # concat (map (path_pair base64) (grouping_key c test_id))"
    using foldl_push_pair [OF p assms(5)] by (simp add: push_url_def push_segment_def)
  then show ?thesis using d read_path_pairs [OF p assms(4,5)] by (intro exI [of _ ?pre]) simp
qed

definition sample_push :: PushGatewayClient where
  "sample_push = \<lparr>pg_url = \<lparr>ur_scheme = ''http'', ur_host = Some ''gw'', ur_segments = [[]]\<rparr>, pg_grouping_labels = [], pg_test = None,
     pg_labels = [(''path'', ''/var'')], pg_job = Some ''nightly''\<rparr>"

theorem push_url_roundtrip_witness:
  "\<exists>pre :: string list. read_path tl (drop (length pre + 1) (ur_segments (push_url (\<lambda>v. CHR ''b'' # v) (with_server sample_push ''::1'' 5201) ''7'')))
     = grouping_key (with_server sample_push ''::1'' 5201) ''7''"
proof -
  let ?c = "with_server sample_push ''::1'' 5201"
  have v: "with_labels sample_push (pg_labels ?c) = Ok (sample_push\<lparr>pg_labels := pg_labels ?c\<rparr>)"
    by (simp add: with_labels_def validate_push_labels_def valid_label_name_def RESERVED_def list_all_iff enumerate_eq_zip
        ascii_alphabetic_def ascii_digit_def upt_rec sample_push_def with_server_def with_endpoint_def)
  have g: "pg_grouping_labels ?c \<in> {[], [(''role'', ''client''), (''server'', host_port ''::1'' 5201)],
      [(''role'', ''client''), (''client'', host_port ''::1'' 5201)]}"
    by (simp add: with_server_def with_endpoint_def)
  have d: "distinct (map fst (pg_labels ?c))" by (simp add: with_server_def with_endpoint_def sample_push_def)
  have b: "\<And>v. tl (CHR ''b'' # v) = v" "\<And>v. CHR ''b'' # v \<notin> {''.'', ''..'', ''=''}" by simp_all
  from push_url_roundtrip [of ?c "''client''" "host_port ''::1'' 5201" sample_push _ tl "\<lambda>v. CHR ''b'' # v" "''7''", OF g v d b]
  show ?thesis by blast
qed

end
