(* ===== verification/Cli_Parse.thy ===== *)
theory Cli_Parse
  imports Ip_Text Result_Diff Handshake Config_File Push_Gateway
begin

text \<open>
  The values on the command line (\<open>src/main.rs\<close>): parsers of durations, rates, sizes and markings, and how each
  setting is resolved between the command line, the environment and the configuration file. Durations with unit suffixes are
  parsed by a third-party crate, a parameter.
\<close>

section \<open>Decimal numbers\<close>

text \<open>\<open>str::parse::<f64>\<close>: an optional sign, then infinity, NaN, or digits with an optional point and exponent;
  values that round beyond the largest finite \<open>f64\<close> become infinite.\<close>

definition is_digit :: "char \<Rightarrow> bool" where
  "is_digit c = (digit_val 10 c \<noteq> None)"

definition digits_value :: "string \<Rightarrow> nat" where
  "digits_value s = (case parse_digits 10 0 s of Some n \<Rightarrow> n | None \<Rightarrow> 0)"

definition parse_exponent :: "string \<Rightarrow> int option" where
  "parse_exponent s =
     (case s of
        [] \<Rightarrow> Some 0
      | c # cs \<Rightarrow>
          if c = CHR ''e'' \<or> c = CHR ''E''
          then (let (neg, ds) = (case cs of d # ds \<Rightarrow> if d = CHR ''-'' then (True, ds) else if d = CHR ''+'' then (False, ds) else (False, cs)
                                 | [] \<Rightarrow> (False, cs))
                in if ds \<noteq> [] \<and> list_all is_digit ds then Some (if neg then - int (digits_value ds) else int (digits_value ds)) else None)
          else None)"

definition ten_pow :: "int \<Rightarrow> real" where
  "ten_pow e = (if 0 \<le> e then 10 ^ nat e else 1 / 10 ^ nat (- e))"

definition parse_decimal :: "string \<Rightarrow> real option" where
  "parse_decimal s =
     (let ip = takeWhile is_digit s; r = dropWhile is_digit s;
          (fp, r') = (case r of c # cs \<Rightarrow> if c = CHR ''.'' then (takeWhile is_digit cs, dropWhile is_digit cs) else ([], r) | [] \<Rightarrow> ([], r))
      in if ip = [] \<and> fp = [] then None
         else map_option (\<lambda>e. real (digits_value (ip @ fp)) * ten_pow (e - int (length fp))) (parse_exponent r'))"

definition parse_f64 :: "string \<Rightarrow> float option" where
  "parse_f64 s =
     (let (neg, t) = (case s of c # cs \<Rightarrow> if c = CHR ''-'' then (True, cs) else if c = CHR ''+'' then (False, cs) else (False, s)
                      | [] \<Rightarrow> (False, s))
      in if to_lowercase t = ''inf'' \<or> to_lowercase t = ''infinity'' then Some (if neg then NegInf else PosInf)
         else if to_lowercase t = ''nan'' then Some NaN
         else map_option (\<lambda>x. if 2 ^ 1024 - 2 ^ 970 \<le> x then (if neg then NegInf else PosInf) else Fin (if neg then - x else x)) (parse_decimal t))"

section \<open>Durations\<close>

datatype cli_error =
    BadDuration string
  | ZeroDuration
  | NotWholeSeconds
  | DurationTooShort
  | DurationTooBig
  | BadInterval
  | IntervalTooLarge
  | BadFloat string
  | BadNumber string
  | Overflow string
  | ZeroBytes
  | TosTooBig nat
  | UnknownDscp string
  | ZeroRateWindow
  | BadStreams u8
  | PortConflict u16 u16
  | PortZero
  | BadWindowSize string
  | BadAddressFamily string
  | BindUnspecified
  | BindFamilyConflict
  | BadAddress ip_error
  | BindPortWithTcp
  | BindPortWithStreams
  | CportZero
  | CportRange
  | CportWithBindPort
  | BadClientOption cli_error
  | BadThresholdOption diff_error
  | NoHost
  | BadKey auth_error
  | UnknownPreset string
  | LabelWithoutGateway
  | BadPush push_error

definition from_secs :: "u64 \<Rightarrow> duration" where "from_secs n = unat n * 1000000000"

definition parse_duration :: "(string \<Rightarrow> duration option) \<Rightarrow> string \<Rightarrow> cli_error + duration" where
  "parse_duration humantime s =
     (case parse_uint 10 64 s of
        Some secs \<Rightarrow> Ok (from_secs (word_of_nat secs))
      | None \<Rightarrow> (case humantime s of Some d \<Rightarrow> Ok d | None \<Rightarrow> Err (BadDuration s)))"

definition parse_nonzero_duration :: "(string \<Rightarrow> duration option) \<Rightarrow> string \<Rightarrow> cli_error + duration" where
  "parse_nonzero_duration humantime s =
     (case parse_duration humantime s of Err e \<Rightarrow> Err e | Ok d \<Rightarrow> if d = 0 then Err ZeroDuration else Ok d)"

definition parse_rate_limit_window :: "(string \<Rightarrow> duration option) \<Rightarrow> string \<Rightarrow> cli_error + u64" where
  "parse_rate_limit_window humantime s =
     (case parse_nonzero_duration humantime s of
        Err e \<Rightarrow> Err e
      | Ok d \<Rightarrow> if d mod 1000000000 \<noteq> 0 then Err NotWholeSeconds else Ok (word_of_nat (as_secs d)))"

definition resolve_rate_limit_window :: "u64 option \<Rightarrow> u64 option \<Rightarrow> cli_error + u64" where
  "resolve_rate_limit_window cli config =
     (let w = (case cli of Some w \<Rightarrow> w | None \<Rightarrow> (case config of Some w \<Rightarrow> w | None \<Rightarrow> rlc_window_secs RateLimitConfig_default))
      in if w = 0 then Err ZeroRateWindow else Ok w)"

definition parse_test_duration :: "(string \<Rightarrow> duration option) \<Rightarrow> string \<Rightarrow> cli_error + duration" where
  "parse_test_duration humantime s =
     (case parse_duration humantime s of
        Err e \<Rightarrow> Err e
      | Ok d \<Rightarrow>
          if d = 0 then Ok 0
          else if d < 1000000000 then Err DurationTooShort
          else if unat (umax :: u32) < as_secs d then Err DurationTooBig
          else Ok d)"

text \<open>\<open>Duration::try_from_secs_f64\<close> accepts what is not negative and below \<open>2 ^ 64\<close> seconds.\<close>

definition validate_report_interval :: "float \<Rightarrow> cli_error + real" where
  "validate_report_interval seconds =
     (case seconds of
        Fin s \<Rightarrow> if s \<le> 0 then Err BadInterval else if 2 ^ 64 \<le> max s 1 * (19 / 10) then Err IntervalTooLarge else Ok s
      | _ \<Rightarrow> Err BadInterval)"

definition parse_report_interval :: "string \<Rightarrow> cli_error + real" where
  "parse_report_interval value =
     (case parse_f64 value of None \<Rightarrow> Err (BadFloat value) | Some x \<Rightarrow> validate_report_interval x)"

definition parse_diff_threshold :: "string \<Rightarrow> cli_error + float" where
  "parse_diff_threshold value =
     (case parse_f64 value of
        None \<Rightarrow> Err (BadFloat value)
      | Some x \<Rightarrow> (case DiffConfig_validate \<lparr>df_threshold_percent = x\<rparr> of Err e \<Rightarrow> Err (BadThresholdOption e) | Ok _ \<Rightarrow> Ok x))"

section \<open>Quantities\<close>

definition checked_mul :: "'a::len word \<Rightarrow> 'a word \<Rightarrow> 'a word option" where
  "checked_mul a b = (if unat a * unat b < 2 ^ LENGTH('a) then Some (a * b) else None)"

text \<open>The number without its suffix and what the suffix stands for; \<open>trim_end_matches\<close> takes all the trailing
  suffix letters, \<open>strip_suffix\<close> one.\<close>

definition split_suffix :: "(char \<Rightarrow> string \<Rightarrow> string) \<Rightarrow> nat \<Rightarrow> string \<Rightarrow> string \<times> nat" where
  "split_suffix chop k s =
     (if ends_with CHR ''G'' s then (chop CHR ''G'' s, k ^ 3)
      else if ends_with CHR ''M'' s then (chop CHR ''M'' s, k ^ 2)
      else if ends_with CHR ''K'' s then (chop CHR ''K'' s, k)
      else (s, 1))"

definition parse_scaled :: "(char \<Rightarrow> string \<Rightarrow> string) \<Rightarrow> nat \<Rightarrow> string \<Rightarrow> cli_error + u64" where
  "parse_scaled chop k s =
     (case split_suffix chop k (to_uppercase s) of
        (num, suffix) \<Rightarrow>
          (case parse_uint 10 64 num of
             None \<Rightarrow> Err (BadNumber s)
           | Some n \<Rightarrow> (case checked_mul (word_of_nat n) (word_of_nat suffix) of None \<Rightarrow> Err (Overflow s) | Some x \<Rightarrow> Ok x)))"

definition parse_bitrate :: "string \<Rightarrow> cli_error + u64" where
  "parse_bitrate s = parse_scaled trim_end_matches 1000 s"

definition parse_size :: "string \<Rightarrow> cli_error + usize" where
  "parse_size s = parse_scaled trim_end_matches 1024 s"

definition parse_byte_budget :: "string \<Rightarrow> cli_error + u64" where
  "parse_byte_budget s =
     (case parse_scaled (\<lambda>c t. butlast t) 1024 s of
        Err e \<Rightarrow> Err e
      | Ok n \<Rightarrow> if n = 0 then Err ZeroBytes else Ok n)"

definition parse_timestamp_format :: "string \<Rightarrow> protocol_error + TimestampFormat" where
  "parse_timestamp_format s = TimestampFormat_from_str s"

definition dscp_names :: "(string \<times> u8) list" where
  "dscp_names =
     [(''CS0'', 0), (''CS1'', 32), (''CS2'', 64), (''CS3'', 96), (''CS4'', 128), (''CS5'', 160), (''CS6'', 192), (''CS7'', 224),
      (''AF11'', 40), (''AF12'', 48), (''AF13'', 56), (''AF21'', 72), (''AF22'', 80), (''AF23'', 88), (''AF31'', 104), (''AF32'', 112),
      (''AF33'', 120), (''AF41'', 136), (''AF42'', 144), (''AF43'', 152), (''EF'', 184), (''VA'', 172)]"

definition parse_dscp :: "string \<Rightarrow> cli_error + u8" where
  "parse_dscp s =
     (case parse_uint 10 32 s of
        Some n \<Rightarrow> if 255 < n then Err (TosTooBig n) else Ok (word_of_nat n)
      | None \<Rightarrow> (case map_of dscp_names (to_uppercase s) of Some v \<Rightarrow> Ok v | None \<Rightarrow> Err (UnknownDscp s)))"

section \<open>Resolution\<close>

definition resolve_server_max_duration :: "duration option \<Rightarrow> ServerPreset option \<Rightarrow> duration option" where
  "resolve_server_max_duration cli preset =
     (case cli of Some d \<Rightarrow> Some d | None \<Rightarrow> Option.bind preset (\<lambda>p. map_option from_secs (sp_max_duration_secs p)))"

definition or_else :: "'a option \<Rightarrow> 'a option \<Rightarrow> 'a option" where
  "or_else a b = (case a of Some x \<Rightarrow> Some x | None \<Rightarrow> b)"

definition unwrap_or :: "'a option \<Rightarrow> 'a \<Rightarrow> 'a" where
  "unwrap_or a d = (case a of Some x \<Rightarrow> x | None \<Rightarrow> d)"

definition resolve_server_port :: "u16 option \<Rightarrow> u16 option \<Rightarrow> u16" where
  "resolve_server_port cli config = unwrap_or (or_else cli config) DEFAULT_PORT"

definition resolve_client_duration :: "duration option \<Rightarrow> bool \<Rightarrow> u64 option \<Rightarrow> Config \<Rightarrow> duration" where
  "resolve_client_duration cli_time probe_mtu byte_budget cf =
     (case cli_time of
        Some d \<Rightarrow> d
      | None \<Rightarrow>
          if probe_mtu then 60000000000
          else if byte_budget \<noteq> None then 0
          else unwrap_or (map_option from_secs (cd_duration_secs (cf_client cf))) 10000000000)"

definition resolve_parallel_streams :: "u8 option \<Rightarrow> u8 option \<Rightarrow> cli_error + u8" where
  "resolve_parallel_streams cli config =
     (let streams = unwrap_or (or_else cli config) 1
      in if 1 \<le> streams \<and> streams \<le> 128 then Ok streams else Err (BadStreams streams))"

definition resolve_client_port :: "u16 option \<Rightarrow> u16 option \<Rightarrow> u16 option \<Rightarrow> u16 option \<Rightarrow> cli_error + u16" where
  "resolve_client_port target cli env config =
     (case (target, cli) of
        (Some t, Some c) \<Rightarrow> if t = c then (if t = 0 then Err PortZero else Ok t) else Err (PortConflict t c)
      | _ \<Rightarrow>
          (let p = unwrap_or (or_else target (or_else cli (or_else env config))) DEFAULT_PORT
           in if p = 0 then Err PortZero else Ok p))"

definition resolve_window_size :: "usize option \<Rightarrow> string option \<Rightarrow> cli_error + usize option" where
  "resolve_window_size cli config =
     (case cli of
        Some w \<Rightarrow> Ok (Some w)
      | None \<Rightarrow>
          (case config of
             None \<Rightarrow> Ok None
           | Some s \<Rightarrow> (case parse_size s of Err e \<Rightarrow> Err (BadWindowSize s) | Ok w \<Rightarrow> Ok (Some w))))"

record ResolvedClientNetworkOptions =
  rn_bitrate :: "u64 option"
  rn_congestion :: "string option"
  rn_dscp :: "string option"
  rn_interval_secs :: real
  rn_bind :: "string option"
  rn_cport :: "u16 option"

definition resolve_client_network_options ::
  "u64 option \<Rightarrow> string option \<Rightarrow> string option \<Rightarrow> real option \<Rightarrow> string option \<Rightarrow> u16 option \<Rightarrow> ClientDefaults
     \<Rightarrow> cli_error + ResolvedClientNetworkOptions" where
  "resolve_client_network_options bitrate congestion dscp interval bind cport defaults =
     (case (case bitrate of
              Some b \<Rightarrow> Ok (Some b)
            | None \<Rightarrow> (case cd_bitrate defaults of
                         None \<Rightarrow> Ok None
                       | Some s \<Rightarrow> (case parse_bitrate s of Err e \<Rightarrow> Err e | Ok b \<Rightarrow> Ok (Some b)))) of
        Err e \<Rightarrow> Err (BadClientOption e)
      | Ok b \<Rightarrow>
          (case validate_report_interval (unwrap_or (or_else (map_option Fin interval) (cd_interval_secs defaults)) (Fin 1)) of
             Err e \<Rightarrow> Err (BadClientOption e)
           | Ok i \<Rightarrow> Ok \<lparr>rn_bitrate = b, rn_congestion = or_else congestion (cd_congestion defaults), rn_dscp = or_else dscp (cd_dscp defaults),
                        rn_interval_secs = i, rn_bind = or_else bind (cd_bind defaults), rn_cport = or_else cport (cd_cport defaults)\<rparr>))"

definition resolve_address_family :: "bool \<Rightarrow> bool \<Rightarrow> string option \<Rightarrow> cli_error + AddressFamily" where
  "resolve_address_family ipv4_only ipv6_only config =
     (if ipv4_only then Ok V4Only
      else if ipv6_only then Ok V6Only
      else (case config of
              Some v \<Rightarrow> (case AddressFamily_from_str v of Some f \<Rightarrow> Ok f | None \<Rightarrow> Err (BadAddressFamily v))
            | None \<Rightarrow> Ok DualStack))"

definition resolve_server_address_family :: "IpAddr option \<Rightarrow> bool \<Rightarrow> bool \<Rightarrow> string option \<Rightarrow> cli_error + AddressFamily" where
  "resolve_server_address_family bind ipv4_only ipv6_only config =
     (case bind of
        Some ip \<Rightarrow>
          if is_unspecified ip then Err BindUnspecified
          else (case ip of
                  V4 _ \<Rightarrow> if ipv6_only then Err BindFamilyConflict else Ok V4Only
                | V6 _ \<Rightarrow> if ipv4_only then Err BindFamilyConflict else Ok V6Only)
      | None \<Rightarrow> resolve_address_family ipv4_only ipv6_only config)"

definition validate_bind_address :: "SocketAddr option \<Rightarrow> Protocol \<Rightarrow> u8 \<Rightarrow> bool \<Rightarrow> cli_error + unit" where
  "validate_bind_address bind_addr protocol streams has_cport =
     (case bind_addr of
        Some addr \<Rightarrow>
          if addr_port addr = 0 then Ok ()
          else if protocol = Tcp \<and> \<not> has_cport then Err BindPortWithTcp
          else if 1 < streams \<and> \<not> has_cport then Err BindPortWithStreams
          else Ok ()
      | None \<Rightarrow> Ok ())"

section \<open>Notices\<close>

definition random_payload_notice :: "Protocol \<Rightarrow> Protocol.Direction \<Rightarrow> bool \<Rightarrow> bool \<Rightarrow> string option" where
  "random_payload_notice protocol direction random zeros =
     (if protocol = QuicProto
      then (if random then Some ''random payloads are ignored with QUIC (payload is already encrypted)'' else None)
      else if zeros \<and> (direction = Download \<or> direction = Bidir)
      then Some ''--zeros only affects client-sent traffic; server payload mode is not negotiated''
      else None)"

definition zerocopy_notice :: "bool \<Rightarrow> ZerocopyMode \<Rightarrow> Protocol.Direction \<Rightarrow> string option" where
  "zerocopy_notice linux zerocopy direction =
     (if zerocopy \<noteq> ZcRequested \<or> linux then None
      else if direction = Download then None
      else Some ''--zerocopy requires Linux sendfile(2); client-sent traffic will use regular writes'')"

text \<open>The cached reading of a direction takes only updates at least as fresh; jitter that an update lacks is kept.\<close>

definition cache_udp_direction :: "UdpDirectionProgress option \<Rightarrow> UdpDirectionProgress option \<Rightarrow> UdpDirectionProgress option \<times> UdpDirectionProgress option" where
  "cache_udp_direction cache update =
     (case update of
        None \<Rightarrow> (cache, None)
      | Some u \<Rightarrow>
          (case cache of
             Some p \<Rightarrow>
               if \<not> is_at_least_as_fresh_as (udp_progress_counts u) (udp_progress_counts p) then (cache, None)
               else (let u' = u\<lparr>udp_progress_jitter_ms := or_else (udp_progress_jitter_ms u) (udp_progress_jitter_ms p)\<rparr> in (Some u', Some u'))
           | None \<Rightarrow> (Some u, Some u)))"

section \<open>Lemmas\<close>

lemma or_else_simps [simp]: "or_else (Some x) b = Some x" "or_else None b = b" "or_else a None = a"
  by (simp_all add: or_else_def split: option.split)

lemma unwrap_or_simps [simp]: "unwrap_or (Some x) d = x" "unwrap_or None d = d"
  by (simp_all add: unwrap_or_def)

lemma checked_mul_Some: "checked_mul a b = Some c \<Longrightarrow> unat c = unat a * unat b"
  by (auto simp: checked_mul_def unat_word_ariths split: if_splits)

lemma parse_scaled_Ok:
  assumes "parse_scaled chop k s = Ok n" "k = 1000 \<or> k = 1024"
  shows "\<exists>v. parse_uint 10 64 (fst (split_suffix chop k (to_uppercase s))) = Some v \<and> unat n = v * snd (split_suffix chop k (to_uppercase s))"
proof -
  obtain num suffix where ns: "split_suffix chop k (to_uppercase s) = (num, suffix)" by fastforce
  have sx: "suffix < 2 ^ 64" using ns assms(2) by (auto simp: split_suffix_def split: if_splits)
  obtain v where v: "parse_uint 10 64 num = Some v" "checked_mul (word_of_nat v) (word_of_nat suffix) = Some n"
    using assms(1) ns by (auto simp: parse_scaled_def split: option.splits)
  have "v < 2 ^ 64" using v(1) by (auto simp: parse_uint_def Let_def split: if_splits option.splits)
  then have "unat n = v * suffix" using checked_mul_Some [OF v(2)] sx by (simp add: unat_word_of_nat)
  then show ?thesis using ns v(1) by simp
qed

text \<open>Repeated suffix letters are taken for one in rates and sizes, but not in a byte count.\<close>

lemma repeated_suffix: "parse_bitrate ''1GG'' = Ok 1000000000" "parse_byte_budget ''1GG'' = Err (BadNumber ''1GG'')"
  by (simp_all add: parse_bitrate_def parse_byte_budget_def parse_scaled_def split_suffix_def to_uppercase_def upper_char_def ends_with_def
      trim_end_matches_def parse_uint_def digit_val_def checked_mul_def)

section \<open>Properties\<close>

text \<open>What \<open>-n\<close> accepts is exactly what it says: the digits times 1024, its square or its cube by the last letter,
  never zero and never wrapped around; anything that does not fit 64 bits is an error.\<close>

theorem byte_budget_exact:
  "parse_byte_budget s = Ok n \<longleftrightarrow>
     (\<exists>v. parse_uint 10 64 (fst (split_suffix (\<lambda>c. butlast) 1024 (to_uppercase s))) = Some v
        \<and> unat n = v * snd (split_suffix (\<lambda>c. butlast) 1024 (to_uppercase s)) \<and> 0 < unat n)"
proof
  assume h: "parse_byte_budget s = Ok n"
  then have "parse_scaled (\<lambda>c t. butlast t) 1024 s = Ok n" "n \<noteq> 0"
    by (auto simp: parse_byte_budget_def split: sum.splits if_splits)
  with parse_scaled_Ok [OF this(1)] show "\<exists>v. parse_uint 10 64 (fst (split_suffix (\<lambda>c. butlast) 1024 (to_uppercase s))) = Some v
        \<and> unat n = v * snd (split_suffix (\<lambda>c. butlast) 1024 (to_uppercase s)) \<and> 0 < unat n"
    by (auto simp: unat_gt_0)
next
  obtain num suffix where ns: "split_suffix (\<lambda>c. butlast) 1024 (to_uppercase s) = (num, suffix)" by fastforce
  have sx: "suffix < 2 ^ 64" using ns by (auto simp: split_suffix_def split: if_splits)
  assume "\<exists>v. parse_uint 10 64 (fst (split_suffix (\<lambda>c. butlast) 1024 (to_uppercase s))) = Some v
        \<and> unat n = v * snd (split_suffix (\<lambda>c. butlast) 1024 (to_uppercase s)) \<and> 0 < unat n"
  then obtain v where v: "parse_uint 10 64 num = Some v" "unat n = v * suffix" "0 < unat n" using ns by auto
  have v64: "v < 2 ^ 64" using v(1) by (auto simp: parse_uint_def Let_def split: if_splits option.splits)
  have "checked_mul (word_of_nat v) (word_of_nat suffix) = Some n"
  proof -
    have "unat (word_of_nat v :: u64) * unat (word_of_nat suffix :: u64) = unat n" using v(2) v64 sx by (simp add: unat_word_of_nat)
    then have "unat (word_of_nat v * word_of_nat suffix :: u64) = unat n" using unat_lt_pow [of n] by (simp add: unat_word_ariths)
    then show ?thesis
      using \<open>unat (word_of_nat v :: u64) * unat (word_of_nat suffix :: u64) = unat n\<close> unat_lt_pow [of n]
      by (simp add: checked_mul_def word_unat_eq_iff)
  qed
  moreover have "n \<noteq> 0" using v(3) by auto
  ultimately show "parse_byte_budget s = Ok n" using ns v(1) by (simp add: parse_byte_budget_def parse_scaled_def)
qed

end
