(* ===== verification/Cli.thy ===== *)
theory Cli
  imports Cli_Parse Server
begin

text \<open>
  From the command line and the configuration file to a client's or a server's configuration (\<open>main\<close> of
  \<open>src/main.rs\<close>). The argument parser is a third-party crate: its result is the record of typed values, and
  \<open>clap_accepts\<close> states the constraints declared on the arguments, which it enforces. Files, interfaces and the MPTCP
  test of the kernel are parameters.
\<close>

section \<open>Arguments\<close>

record Cli =
  ci_completions :: "string option"
  ci_config :: "path option"
  ci_config_from_env :: bool
  ci_host :: "string option"
  ci_push_gateway :: "string option"
  ci_push_labels :: "string list"
  ci_push_job :: "string option"
  ci_time :: "duration option"
  ci_bytes :: "u64 option"
  ci_udp :: bool
  ci_udp_payload_size :: "u16 option"
  ci_quic :: bool
  ci_bitrate :: "u64 option"
  ci_parallel :: "u8 option"
  ci_reverse :: bool
  ci_bidir :: bool
  ci_json :: bool
  ci_json_stream :: bool
  ci_csv :: bool
  ci_quiet :: bool
  ci_output :: "string option"
  ci_no_tui :: bool
  ci_no_update_check :: bool
  ci_theme :: "string option"
  ci_interval :: "real option"
  ci_omit :: "u64 option"
  ci_port :: "u16 option"
  ci_port_on_command_line :: bool
  ci_tcp_nodelay :: bool
  ci_congestion :: "string option"
  ci_dscp :: "string option"
  ci_window :: "usize option"
  ci_timestamp_format :: "TimestampFormat option"
  ci_log_file :: "string option"
  ci_log_level :: "string option"
  ci_psk :: "string option"
  ci_psk_file :: "string option"
  ci_ipv4_only :: bool
  ci_ipv6_only :: bool
  ci_bind :: "string option"
  ci_cport :: "u16 option"
  ci_mptcp :: bool
  ci_random :: bool
  ci_zeros :: bool
  ci_zerocopy :: bool
  ci_no_zerocopy :: bool
  ci_probe_mtu :: bool
  ci_connect_timeout :: "duration option"

text \<open>The declared conflicts, requirements and ranges.\<close>

definition clap_accepts :: "Cli \<Rightarrow> bool" where
  "clap_accepts c \<longleftrightarrow>
     \<not> (ci_bytes c \<noteq> None \<and> ci_probe_mtu c) \<and> \<not> (ci_udp c \<and> ci_quic c) \<and> \<not> (ci_reverse c \<and> ci_bidir c)
     \<and> (ci_udp_payload_size c \<noteq> None \<longrightarrow> ci_udp c \<and> \<not> ci_probe_mtu c \<and> \<not> ci_quic c \<and> \<not> ci_mptcp c \<and> \<not> ci_zerocopy c)
     \<and> (\<forall>n. ci_udp_payload_size c = Some n \<longrightarrow> 16 \<le> n \<and> n \<le> 65507)
     \<and> (\<forall>n. ci_parallel c = Some n \<longrightarrow> 1 \<le> n \<and> n \<le> 128)
     \<and> (\<forall>d. ci_time c = Some d \<longrightarrow> (\<exists>humantime s. parse_test_duration humantime s = Ok d))
     \<and> (\<forall>n. ci_bytes c = Some n \<longrightarrow> (\<exists>s. parse_byte_budget s = Ok n))
     \<and> (\<forall>d. ci_connect_timeout c = Some d \<longrightarrow> 0 < d)
     \<and> (\<forall>i. ci_interval c = Some i \<longrightarrow> validate_report_interval (Fin i) = Ok i)
     \<and> \<not> (ci_json c \<and> (ci_csv c \<or> ci_json_stream c)) \<and> \<not> (ci_csv c \<and> ci_json_stream c) \<and> \<not> (ci_json_stream c \<and> ci_quiet c)
     \<and> \<not> (ci_ipv4_only c \<and> ci_ipv6_only c) \<and> \<not> (ci_mptcp c \<and> (ci_udp c \<or> ci_quic c)) \<and> \<not> (ci_random c \<and> ci_zeros c)
     \<and> \<not> (ci_zerocopy c \<and> (ci_udp c \<or> ci_quic c \<or> ci_no_zerocopy c))
     \<and> (ci_probe_mtu c \<longrightarrow> \<not> ci_quic c \<and> \<not> ci_reverse c \<and> \<not> ci_bidir c \<and> ci_bitrate c = None \<and> ci_parallel c = None
          \<and> \<not> ci_zerocopy c \<and> \<not> ci_zeros c)"

text \<open>Client options typed beside a subcommand are refused, but for a few; \<open>given\<close> are the options that stand on
  the command line, in the order in which they are declared.\<close>

definition SUBCOMMAND_COMPATIBLE_ARGS :: "string list" where
  "SUBCOMMAND_COMPATIBLE_ARGS = [''completions'', ''config'', ''theme'', ''log_file'', ''log_level'', ''no_update_check'']"

definition ignored_option :: "string list \<Rightarrow> string option" where
  "ignored_option given = find (\<lambda>i. i \<notin> set SUBCOMMAND_COMPATIBLE_ARGS) given"

text \<open>The configuration file in use; only a client may pass over one that it cannot read.\<close>

definition main_config :: "(string \<Rightarrow> Config option) \<Rightarrow> file_system \<Rightarrow> path option \<Rightarrow> Cli \<Rightarrow> bool
    \<Rightarrow> config_file_error + Config \<times> path option \<times> path list" where
  "main_config from_toml fs config_dir c is_server =
     load_with from_toml fs config_dir
       (map_option (\<lambda>p. (p, if ci_config_from_env c then ''XFR_CONFIG'' else ''--config'')) (ci_config c)) (\<not> is_server)"

section \<open>Client\<close>

definition effective_random_payload :: "Cli \<Rightarrow> bool" where
  "effective_random_payload c = (\<not> ci_zeros c)"

definition effective_zerocopy :: "Cli \<Rightarrow> ZerocopyMode" where
  "effective_zerocopy c = (if ci_no_zerocopy c then ZcOff else if ci_zerocopy c then ZcRequested else ZcAuto)"

definition client_json_output :: "Cli \<Rightarrow> Config \<Rightarrow> bool" where
  "client_json_output c cf \<longleftrightarrow>
     ci_json c \<or> (\<not> ci_json_stream c \<and> \<not> ci_csv c \<and> unwrap_or (cd_json_output (cf_client cf)) False)"

definition client_uses_tui :: "Cli \<Rightarrow> Config \<Rightarrow> bool \<Rightarrow> bool" where
  "client_uses_tui c cf terminal \<longleftrightarrow>
     terminal \<and> \<not> (ci_no_tui c \<or> unwrap_or (cd_no_tui (cf_client cf)) False \<or> client_json_output c cf \<or> ci_json_stream c
                 \<or> ci_csv c \<or> ci_quiet c \<or> ci_probe_mtu c)"

definition client_direction :: "Cli \<Rightarrow> Protocol.Direction" where
  "client_direction c = (if ci_bidir c then Bidir else if ci_reverse c then Download else Upload)"

definition client_protocol :: "Cli \<Rightarrow> Protocol" where
  "client_protocol c = (if ci_quic c then QuicProto else if ci_udp c \<or> ci_probe_mtu c then Udp else Tcp)"

text \<open>The warnings printed before the test, in their order.\<close>

definition client_warnings :: "bool \<Rightarrow> bool \<Rightarrow> Cli \<Rightarrow> ResolvedClientNetworkOptions \<Rightarrow> string list" where
  "client_warnings linux unix c opts =
     (let protocol = client_protocol c; direction = client_direction c
      in (case random_payload_notice protocol direction (ci_random c) (ci_zeros c) of Some m \<Rightarrow> [m] | None \<Rightarrow> [])
         @ (case zerocopy_notice linux (effective_zerocopy c) direction of Some m \<Rightarrow> [m] | None \<Rightarrow> [])
         @ (if rn_dscp opts \<noteq> None \<and> protocol = QuicProto then [''--dscp is ignored with QUIC (QUIC manages its own socket)''] else [])
         @ (if protocol = QuicProto
            then (if ci_window c \<noteq> None then [''-w/--window is ignored with QUIC (QUIC flow control manages buffering)''] else [])
               @ (if rn_congestion opts \<noteq> None then [''--congestion is ignored with QUIC (kernel TCP CC does not apply)''] else [])
               @ (if ci_tcp_nodelay c then [''--tcp-nodelay is ignored with QUIC (no Nagle on UDP transport)''] else [])
            else [])
         @ (if \<not> unix \<and> rn_dscp opts \<noteq> None \<and> protocol \<noteq> QuicProto then [''--dscp is not supported on this platform''] else []))"

text \<open>The pre-shared key: a key file, else the argument, else the configuration. \<open>read_key\<close> reads a key file.\<close>

definition effective_psk :: "(string \<Rightarrow> auth_error + string) \<Rightarrow> string option \<Rightarrow> string option \<Rightarrow> string option \<Rightarrow> cli_error + string option" where
  "effective_psk read_key psk_file psk config =
     (case (case psk_file of
              Some p \<Rightarrow> (case read_key p of Err e \<Rightarrow> Err e | Ok k \<Rightarrow> Ok (Some k))
            | None \<Rightarrow> Ok (or_else psk config)) of
        Err e \<Rightarrow> Err (BadKey e)
      | Ok None \<Rightarrow> Ok None
      | Ok (Some k) \<Rightarrow> (case validate_psk k of Err e \<Rightarrow> Err (BadKey e) | Ok _ \<Rightarrow> Ok (Some k)))"

text \<open>The source port joins the bind address.\<close>

definition merge_cport :: "u16 option \<Rightarrow> Protocol \<Rightarrow> u8 \<Rightarrow> AddressFamily \<Rightarrow> SocketAddr option \<Rightarrow> cli_error + SocketAddr option" where
  "merge_cport cport protocol streams family bind_addr =
     (case cport of
        None \<Rightarrow> Ok bind_addr
      | Some p \<Rightarrow>
          if p = 0 then Err CportZero
          else if protocol \<noteq> QuicProto \<and> 1 < streams \<and> 65535 < unat p + unat streams - 1 then Err CportRange
          else (case bind_addr of
                  Some addr \<Rightarrow> if addr_port addr \<noteq> 0 then Err CportWithBindPort else Ok (Some (with_port addr p))
                | None \<Rightarrow> Ok (Some (SocketAddr_new (if family = V6Only then V6 0 else V4 0) p))))"

definition client_bind :: "(string \<Rightarrow> u32) \<Rightarrow> ResolvedClientNetworkOptions \<Rightarrow> Protocol \<Rightarrow> u8 \<Rightarrow> AddressFamily \<Rightarrow> cli_error + SocketAddr option" where
  "client_bind if_nametoindex opts protocol streams family =
     (case (case rn_bind opts of
              None \<Rightarrow> Ok None
            | Some s \<Rightarrow> (case parse_bind_address if_nametoindex s of Err e \<Rightarrow> Err (BadAddress e) | Ok a \<Rightarrow> Ok (Some a))) of
        Err e \<Rightarrow> Err e
      | Ok bind \<Rightarrow>
          (case merge_cport (rn_cport opts) protocol streams family bind of
             Err e \<Rightarrow> Err e
           | Ok bind' \<Rightarrow>
               (case validate_bind_address bind' protocol streams (rn_cport opts \<noteq> None) of
                  Err e \<Rightarrow> Err e
                | Ok _ \<Rightarrow> Ok bind')))"

definition client_target :: "Cli \<Rightarrow> Config \<Rightarrow> string \<Rightarrow> cli_error + string \<times> u16" where
  "client_target c cf host =
     (case split_host_port host of
        Err e \<Rightarrow> Err (BadAddress e)
      | Ok (h, target_port) \<Rightarrow>
          (let (cli_port, env_port) = (if ci_port_on_command_line c then (ci_port c, None) else (None, ci_port c))
           in case resolve_client_port target_port cli_port env_port (cd_port (cf_client cf)) of
                Err e \<Rightarrow> Err e
              | Ok p \<Rightarrow> Ok (h, p)))"

text \<open>What of the world outside the setup asks.\<close>

record cli_world =
  wo_read_key :: "string \<Rightarrow> auth_error + string"
  wo_if_nametoindex :: "string \<Rightarrow> u32"
  wo_mptcp :: "cli_error + unit"
  wo_destination :: "string \<Rightarrow> cli_error + unit"

definition client_config :: "cli_world \<Rightarrow> Cli \<Rightarrow> Config \<Rightarrow> cli_error + ClientConfig \<times> ResolvedClientNetworkOptions" where
  "client_config w c cf =
     (case ci_host c of
        None \<Rightarrow> Err NoHost
      | Some host \<Rightarrow>
     (case (case ci_output c of Some p \<Rightarrow> wo_destination w p | None \<Rightarrow> Ok ()) of
        Err e \<Rightarrow> Err e
      | Ok _ \<Rightarrow>
     (let protocol = client_protocol c; file = cf_client cf
      in case resolve_client_network_options (ci_bitrate c) (ci_congestion c) (ci_dscp c) (ci_interval c) (ci_bind c) (ci_cport c) file of
           Err e \<Rightarrow> Err e
         | Ok opts \<Rightarrow>
     (case (if ci_mptcp c then wo_mptcp w else Ok ()) of
        Err e \<Rightarrow> Err e
      | Ok _ \<Rightarrow>
     (case resolve_parallel_streams (ci_parallel c) (cd_parallel_streams file) of
        Err e \<Rightarrow> Err e
      | Ok streams \<Rightarrow>
     (case resolve_window_size (ci_window c) (cd_window_size file) of
        Err e \<Rightarrow> Err e
      | Ok window_size \<Rightarrow>
     (case effective_psk (wo_read_key w) (ci_psk_file c) (ci_psk c) (cd_psk file) of
        Err e \<Rightarrow> Err e
      | Ok psk \<Rightarrow>
     (case resolve_address_family (ci_ipv4_only c) (ci_ipv6_only c) (cd_address_family file) of
        Err e \<Rightarrow> Err e
      | Ok family \<Rightarrow>
     (case client_bind (wo_if_nametoindex w) opts protocol streams family of
        Err e \<Rightarrow> Err e
      | Ok bind_addr \<Rightarrow>
     (case client_target c cf host of
        Err e \<Rightarrow> Err e
      | Ok (h, p) \<Rightarrow>
     (case (case rn_dscp opts of None \<Rightarrow> Ok None | Some s \<Rightarrow> (case parse_dscp s of Err e \<Rightarrow> Err e | Ok v \<Rightarrow> Ok (Some v))) of
        Err e \<Rightarrow> Err e
      | Ok dscp \<Rightarrow>
          Ok (\<lparr>cl_host = h, cl_port = p, cl_protocol = protocol, cl_streams = streams,
               cl_duration = resolve_client_duration (ci_time c) (ci_probe_mtu c) (ci_bytes c) cf,
               cl_direction = client_direction c, cl_bitrate = rn_bitrate opts, cl_udp_payload_size = ci_udp_payload_size c,
               cl_tcp_nodelay = (ci_tcp_nodelay c \<or> unwrap_or (cd_tcp_nodelay file) False), cl_tcp_congestion = rn_congestion opts,
               cl_window_size = window_size, cl_psk = psk, cl_address_family = family, cl_bind_addr = bind_addr,
               cl_sequential_ports = (protocol \<noteq> QuicProto \<and> rn_cport opts \<noteq> None \<and> 1 < streams), cl_mptcp = ci_mptcp c,
               cl_random_payload = effective_random_payload c, cl_zerocopy = effective_zerocopy c, cl_dscp = dscp,
               cl_mtu_probe = ci_probe_mtu c, cl_connect_timeout = ci_connect_timeout c, cl_byte_budget = ci_bytes c\<rparr>, opts))))))))))))"

text \<open>How the result is shown and pushed.\<close>

record OutputOptions =
  oo_push_gateway :: "PushGatewayClient option"
  oo_json :: bool
  oo_json_stream :: bool
  oo_csv :: bool
  oo_quiet :: bool
  oo_omit_secs :: u64
  oo_interval_secs :: real
  oo_timestamp_format :: TimestampFormat

definition client_gateway :: "(string \<Rightarrow> Url option) \<Rightarrow> Cli \<Rightarrow> Config \<Rightarrow> ClientConfig \<Rightarrow> cli_error + PushGatewayClient option" where
  "client_gateway parse_url c cf config =
     (let url = or_else (ci_push_gateway c) (cd_push_gateway (cf_client cf))
      in if (ci_push_labels c \<noteq> [] \<or> ci_push_job c \<noteq> None) \<and> url = None then Err LabelWithoutGateway
         else (case url of
                 None \<Rightarrow> Ok None
               | Some u \<Rightarrow>
                   (case (case merge_push_labels (cd_push_labels (cf_client cf)) (ci_push_labels c) of
                            Err e \<Rightarrow> Err e
                          | Ok ls \<Rightarrow>
                              (case PushGatewayClient_new parse_url u of
                                 Err e \<Rightarrow> Err e
                               | Ok g \<Rightarrow>
                                   (case with_labels (with_test (with_server g (cl_host config) (cl_port config)) (cl_protocol config) (cl_direction config)) ls of
                                      Err e \<Rightarrow> Err e
                                    | Ok g \<Rightarrow>
                                        (case (case or_else (ci_push_job c) (cd_push_job (cf_client cf)) of Some j \<Rightarrow> with_job g j | None \<Rightarrow> Ok g) of
                                           Err e \<Rightarrow> Err e
                                         | Ok g \<Rightarrow> (case validate_context g of Err e \<Rightarrow> Err e | Ok _ \<Rightarrow> Ok g))))) of
                      Err e \<Rightarrow> Err (BadPush e)
                    | Ok g \<Rightarrow> Ok (Some g))))"

definition client_setup :: "cli_world \<Rightarrow> (string \<Rightarrow> Url option) \<Rightarrow> Cli \<Rightarrow> Config \<Rightarrow> cli_error + ClientConfig \<times> OutputOptions" where
  "client_setup w parse_url c cf =
     (case client_config w c cf of
        Err e \<Rightarrow> Err e
      | Ok (config, opts) \<Rightarrow>
          (case client_gateway parse_url c cf config of
             Err e \<Rightarrow> Err e
           | Ok gateway \<Rightarrow>
               Ok (config,
                 \<lparr>oo_push_gateway = gateway, oo_json = client_json_output c cf, oo_json_stream = ci_json_stream c, oo_csv = ci_csv c,
                  oo_quiet = ci_quiet c, oo_omit_secs = unwrap_or (or_else (ci_omit c) (cd_omit_secs (cf_client cf))) 0,
                  oo_interval_secs = rn_interval_secs opts,
                  oo_timestamp_format = unwrap_or (or_else (ci_timestamp_format c) (cd_timestamp_format (cf_client cf))) Relative\<rparr>)))"

section \<open>Server\<close>

record Serve =
  sa_one_off :: bool
  sa_tui :: bool
  sa_max_duration :: "duration option"
  sa_preset :: "string option"
  sa_push_gateway :: "string option"
  sa_push_labels :: "string list"
  sa_no_mdns :: bool
  sa_port :: "u16 option"
  sa_bind :: "IpAddr option"
  sa_ipv4_only :: bool
  sa_ipv6_only :: bool
  sa_rate_limit :: "u32 option"
  sa_rate_limit_window :: "u64 option"
  sa_allow :: "string list"
  sa_deny :: "string list"
  sa_acl_file :: "string option"
  sa_psk :: "string option"
  sa_psk_file :: "string option"
  sa_log_file :: "string option"
  sa_log_level :: "string option"

definition log_settings :: "Serve option \<Rightarrow> Cli \<Rightarrow> Config \<Rightarrow> string option \<times> string option" where
  "log_settings serve c cf =
     (let file = or_else (ci_log_file c) (cd_log_file (cf_client cf)); level = or_else (ci_log_level c) (cd_log_level (cf_client cf))
      in case serve of
           Some s \<Rightarrow> (or_else (sa_log_file s) (or_else (sx_log_file (cf_server cf)) file),
                    or_else (sa_log_level s) (or_else (sx_log_level (cf_server cf)) level))
         | None \<Rightarrow> (file, level))"

definition server_gateway :: "(string \<Rightarrow> Url option) \<Rightarrow> Serve \<Rightarrow> Config \<Rightarrow> cli_error + string option \<times> labels" where
  "server_gateway parse_url s cf =
     (let url = or_else (sa_push_gateway s) (sx_push_gateway (cf_server cf))
      in if sa_push_labels s \<noteq> [] \<and> url = None then Err LabelWithoutGateway
         else (case url of
                 None \<Rightarrow> Ok (None, [])
               | Some u \<Rightarrow>
                   (case merge_push_labels (sx_push_labels (cf_server cf)) (sa_push_labels s) of
                      Err e \<Rightarrow> Err (BadPush e)
                    | Ok ls \<Rightarrow> (case PushGatewayClient_new parse_url u of Err e \<Rightarrow> Err (BadPush e) | Ok _ \<Rightarrow> Ok (Some u, ls)))))"

definition server_config ::
  "(string \<Rightarrow> auth_error + string) \<Rightarrow> (string \<Rightarrow> Url option) \<Rightarrow> Serve \<Rightarrow> Config \<Rightarrow> cli_error + ServerConfig \<times> labels" where
  "server_config read_key parse_url s cf =
     (let file = cf_server cf
      in case server_gateway parse_url s cf of
           Err e \<Rightarrow> Err e
         | Ok (url, ls) \<Rightarrow>
     (case effective_psk read_key (sa_psk_file s) (sa_psk s) (sx_psk file) of
        Err e \<Rightarrow> Err e
      | Ok psk \<Rightarrow>
     (case (case sa_preset s of
              None \<Rightarrow> Ok None
            | Some name \<Rightarrow> (case get_preset cf name of None \<Rightarrow> Err (UnknownPreset name) | Some p \<Rightarrow> Ok (Some p))) of
        Err e \<Rightarrow> Err e
      | Ok preset \<Rightarrow>
     (case resolve_rate_limit_window (sa_rate_limit_window s) (sx_rate_limit_window file) of
        Err e \<Rightarrow> Err e
      | Ok window \<Rightarrow>
     (case resolve_server_address_family (sa_bind s) (sa_ipv4_only s) (sa_ipv6_only s) (sx_address_family file) of
        Err e \<Rightarrow> Err e
      | Ok family \<Rightarrow>
          Ok (ServerConfig_default\<lparr>
                sf_port := resolve_server_port (sa_port s) (sx_port file),
                sf_one_off := (sa_one_off s \<or> unwrap_or (sx_one_off file) False),
                sf_max_duration := resolve_server_max_duration (sa_max_duration s) preset,
                sf_push_gateway_url := url, sf_auth := \<lparr>ac_psk = psk\<rparr>,
                sf_acl := \<lparr>cfg_allow = (if sa_allow s = [] then unwrap_or (sx_allow file) [] else sa_allow s),
                           cfg_deny = (if sa_deny s = [] then unwrap_or (sx_deny file) [] else sa_deny s),
                           cfg_file = or_else (sa_acl_file s) (sx_acl_file file)\<rparr>,
                sf_rate_limit := \<lparr>rlc_max_per_ip = or_else (sa_rate_limit s) (sx_rate_limit file), rlc_window_secs = window\<rparr>,
                sf_address_family := family, sf_bind_addr := sa_bind s, sf_enable_quic := True,
                sf_no_mdns := (sa_no_mdns s \<or> unwrap_or (sx_no_mdns file) False),
                sf_preset_allowed_clients := Option.bind preset sp_allowed_clients\<rparr>, ls))))))"

end
