(* ===== verification/Text_Output.thy ===== *)
theory Text_Output
  imports Result_Diff
begin

text \<open>
  What a test prints: plain text, CSV and streamed JSON (\<open>src/output/plain.rs\<close>, \<open>csv.rs\<close>, \<open>json.rs\<close>) and
  timestamps (\<open>TimestampFormat::format\<close>). Arrows and rules are their UTF-8 bytes. The JSON library writes a value of
  the type \<open>json\<close>; \<open>show_f64\<close> is Rust's shortest decimal of an \<open>f64\<close>, \<open>calendar\<close> the calendar library.
\<close>

section \<open>Timestamps\<close>

text \<open>Monotonic readings and the wall clock in nanoseconds; the wall clock counts from the epoch.\<close>

definition TimestampFormat_format :: "(int \<Rightarrow> string) \<Rightarrow> TimestampFormat \<Rightarrow> instant \<Rightarrow> instant \<Rightarrow> int \<Rightarrow> string" where
  "TimestampFormat_format calendar f test_start now system_start =
     (let elapsed = now - test_start; wall = system_start + int elapsed
      in case f of
           Relative \<Rightarrow> fmt_fixed 3 (real elapsed / 1000000000)
         | Iso8601 \<Rightarrow> calendar wall
         | Unix \<Rightarrow> fmt_fixed 3 (real (nat wall) / 1000000000))"

section \<open>Plain text\<close>

definition utf8_chars :: "nat list \<Rightarrow> string" where "utf8_chars bs = map char_of bs"

definition REPORT_SEPARATOR :: string where
  "REPORT_SEPARATOR = concat (replicate 60 (utf8_chars [226, 148, 128]))"

definition approx_sign :: string where "approx_sign = utf8_chars [226, 137, 136]"
definition up_arrow :: string where "up_arrow = utf8_chars [226, 134, 145]"
definition down_arrow :: string where "down_arrow = utf8_chars [226, 134, 147]"

definition append_udp_stats :: "string \<Rightarrow> UdpStats option \<Rightarrow> string" where
  "append_udp_stats title stats =
     line (''  '' @ title @ '':'')
     @ (case stats of
          None \<Rightarrow> line ''    Not reported'' @ line []
        | Some u \<Rightarrow>
            line (''    Packets Sent:     '' @ show_nat (unat (us_packets_sent u)))
            @ line (''    Packets Received: '' @ show_nat (unat (us_packets_received u)))
            @ line (''    Lost:             '' @ show_nat (unat (us_lost u)) @ '' ('' @ fmt_fixed 2 (us_lost_percent u) @ ''%)'')
            @ line (''    Jitter:           '' @ fmt_fixed 2 (us_jitter_ms u) @ ''ms'')
            @ (case us_jitter_max_ms u of Some m \<Rightarrow> line (''    Jitter Max:       '' @ fmt_fixed 2 m @ ''ms'') | None \<Rightarrow> [])
            @ line (''    Out of Order:     '' @ show_nat (unat (us_out_of_order u)))
            @ (case us_packet_size u of Some n \<Rightarrow> line (''    Packet Size:      '' @ show_nat (unat n) @ '' bytes'') | None \<Rightarrow> [])
            @ line [])"

definition format_verdict :: "SizeVerdict \<Rightarrow> u8 \<Rightarrow> u8 \<Rightarrow> string" where
  "format_verdict verdict ok attempts =
     (case verdict of
        Pass \<Rightarrow> ''pass ('' @ show_nat (unat ok) @ ''/'' @ show_nat (unat attempts) @ '')''
      | Fail \<Rightarrow> ''BLOCKED (0/'' @ show_nat (unat attempts) @ '')''
      | LocalLimit \<Rightarrow> ''local MTU limit''
      | Untested \<Rightarrow> ''untested'')"

definition probe_limit :: "string \<Rightarrow> string \<Rightarrow> nat option \<Rightarrow> nat option \<Rightarrow> string" where
  "probe_limit way none payload mtu =
     line (''  Largest payload '' @ way @ '': '' @
       (case (payload, mtu) of
          (Some p, Some m) \<Rightarrow> show_nat p @ '' bytes  (path MTU '' @ approx_sign @ '' '' @ show_nat m @ '')''
        | _ \<Rightarrow> none))"

definition format_mtu_probe :: "MtuProbeReport \<Rightarrow> string" where
  "format_mtu_probe p =
     (let there = ''client '' @ arrow @ '' server''; back_way = ''server '' @ arrow @ '' client''
      in line REPORT_SEPARATOR @ line ''  xfr Path MTU Probe'' @ line REPORT_SEPARATOR @ line []
         @ line (''  Address family: '' @ (if report_ipv6 p then ''IPv6'' else ''IPv4'') @ '' ('' @ show_nat (ip_overhead (report_ipv6 p))
             @ '' bytes IP+UDP overhead)'') @ line []
         @ line (''  Payload      '' @ there @ ''    '' @ back_way)
         @ concat (map (\<lambda>s. line (''  '' @ pad_left 7 (show_nat (sr_payload s)) @ ''      ''
               @ pad_right 18 (format_verdict (sr_forward s) (sr_forward_ok s) (sr_attempts s)) @ '' ''
               @ format_verdict (sr_reverse s) (sr_reverse_ok s) (sr_attempts s))) (report_sizes p))
         @ line []
         @ probe_limit there ''none survived'' (forward_max_payload p) (forward_path_mtu p)
         @ probe_limit back_way ''none observed'' (reverse_max_payload p) (reverse_path_mtu p)
         @ line (''  ('' @ back_way @ '' is a lower bound, capped by the '' @ there @ '' path)'')
         @ line REPORT_SEPARATOR)"

definition plain_totals :: "TestResult \<Rightarrow> string" where
  "plain_totals r =
     (case (tr_bytes_sent r, tr_bytes_received r, tr_throughput_send_mbps r, tr_throughput_recv_mbps r) of
        (Some sent, Some recv, Some ts_send, Some ts_recv) \<Rightarrow>
          line (''  Transfer:    Send: '' @ bytes_to_human sent @ ''    Recv: '' @ bytes_to_human recv @ ''    (Total: ''
                @ bytes_to_human (tr_bytes_total r) @ '')'')
          @ line (''  Throughput:  Send: '' @ mbps_to_human ts_send @ ''  Recv: '' @ mbps_to_human ts_recv @ ''  (Total: ''
                @ mbps_to_human (tr_throughput_mbps r) @ '')'')
      | _ \<Rightarrow>
          line (''  Transfer:    '' @ bytes_to_human (tr_bytes_total r))
          @ line (''  Throughput:  '' @ mbps_to_human (tr_throughput_mbps r)))"

definition plain_tcp_info :: "TcpInfoSnapshot option \<Rightarrow> bool \<Rightarrow> string" where
  "plain_tcp_info info mptcp =
     (case info of
        None \<Rightarrow> []
      | Some t \<Rightarrow>
          line (if mptcp then ''  Sender TCP Info (initial subflow):'' else ''  Sender TCP Info:'')
          @ line (''    Retransmits: '' @ show_nat (unat (ti_retransmits t)))
          @ line (''    RTT:         '' @ fmt_fixed 2 (real (unat (ti_rtt_us t)) / 1000) @ ''ms'')
          @ line (''    RTT Var:     '' @ fmt_fixed 2 (real (unat (ti_rtt_var_us t)) / 1000) @ ''ms'')
          @ line (''    Cwnd:        '' @ show_nat (unat (ti_cwnd t) div 1024) @ '' KB'')
          @ line [])"

definition plain_warnings :: "TestResult \<Rightarrow> string" where
  "plain_warnings r =
     concat (map (\<lambda>(side, errors). case errors of Some e \<Rightarrow> line (''  Warning: '' @ UdpSendErrors_describe e side) @ line [] | None \<Rightarrow> [])
       [(''Server'', tr_server_udp_send_errors r), (''Client'', tr_client_udp_send_errors r)])
     @ (case describe_zero_byte_streams r of Some m \<Rightarrow> line (''  Warning: '' @ m) @ line [] | None \<Rightarrow> [])"

definition plain_stream :: "StreamResult \<Rightarrow> string" where
  "plain_stream s =
     line (''    ['' @ show_nat (unat (str_id s)) @ ''] '' @ bytes_to_human (str_bytes s) @ '' @ '' @ mbps_to_human (str_throughput_mbps s)
       @ (case str_retransmits s of Some n \<Rightarrow> ''  rtx: '' @ show_nat (unat n) | None \<Rightarrow> []))
     @ (case (str_bytes_sent s, str_bytes_received s, str_throughput_send_mbps s, str_throughput_recv_mbps s) of
          (Some sent, Some recv, Some send_rate, Some recv_rate) \<Rightarrow>
            line (''        Upload: '' @ bytes_to_human sent @ '' @ '' @ mbps_to_human send_rate @ ''  Download: '' @ bytes_to_human recv
              @ '' @ '' @ mbps_to_human recv_rate)
        | _ \<Rightarrow> [])"

definition plain_streams :: "TestResult \<Rightarrow> string" where
  "plain_streams r =
     (if 1 < length (tr_streams r) \<or> list_ex (\<lambda>s. str_bytes_sent s \<noteq> None \<or> str_bytes_received s \<noteq> None) (tr_streams r)
      then line ''  Per-Stream Results:'' @ concat (map plain_stream (tr_streams r)) @ line []
      else [])"

definition plain_udp :: "TestResult \<Rightarrow> string" where
  "plain_udp r =
     (if tr_udp_stats_send r \<noteq> None \<or> tr_udp_stats_recv r \<noteq> None
      then append_udp_stats ''Upload UDP Stats'' (tr_udp_stats_send r) @ append_udp_stats ''Download UDP Stats'' (tr_udp_stats_recv r)
      else (case tr_udp_stats r of Some u \<Rightarrow> append_udp_stats ''UDP Stats'' (Some u) | None \<Rightarrow> []))"

definition output_plain :: "TestResult \<Rightarrow> bool \<Rightarrow> string" where
  "output_plain r mptcp =
     (case tr_mtu_probe r of
        Some probe \<Rightarrow> format_mtu_probe probe
      | None \<Rightarrow>
          line REPORT_SEPARATOR @ line ''  xfr Test Results'' @ line REPORT_SEPARATOR @ line []
          @ line (''  Duration:    '' @ fmt_fixed (if tr_duration_ms r < 1000 then 3 else 2) (u64_as_f64 (tr_duration_ms r) / 1000) @ ''s'')
          @ plain_totals r @ line [] @ plain_tcp_info (tr_tcp_info r) mptcp @ plain_udp r @ plain_warnings r @ plain_streams r
          @ line REPORT_SEPARATOR)"

text \<open>Interval rows, without their line end.\<close>

definition interval_columns :: "string \<Rightarrow> f64 \<Rightarrow> u64 \<Rightarrow> string" where
  "interval_columns timestamp mbps n =
     ''['' @ timestamp @ '']  '' @ pad_left 11 (mbps_to_human mbps) @ ''  '' @ pad_left 10 (bytes_to_human n)"

definition interval_plain_row ::
  "string \<Rightarrow> f64 \<Rightarrow> u64 \<Rightarrow> u64 option \<Rightarrow> f64 option \<Rightarrow> u64 option \<Rightarrow> u32 option \<Rightarrow> string" where
  "interval_plain_row timestamp mbps n retransmits jitter_ms lost rtt_us =
     interval_columns timestamp mbps n
     @ (case jitter_ms of
          Some j \<Rightarrow> ''  jitter: '' @ pad_left 7 (fmt_fixed 2 j) @ ''ms''
                    @ (case lost of Some l \<Rightarrow> ''  lost: '' @ show_nat (unat l) | None \<Rightarrow> [])
        | None \<Rightarrow> (case retransmits of Some r \<Rightarrow> ''  rtx: '' @ pad_left 5 (show_nat (unat r)) | None \<Rightarrow> [])
                 @ (case rtt_us of Some t \<Rightarrow> ''  rtt: '' @ fmt_fixed 2 (real (unat t) / 1000) @ ''ms'' | None \<Rightarrow> []))"

definition output_interval_plain ::
  "string \<Rightarrow> f64 \<Rightarrow> u64 \<Rightarrow> u64 option \<Rightarrow> f64 option \<Rightarrow> u64 option \<Rightarrow> u32 option \<Rightarrow> string" where
  "output_interval_plain timestamp mbps n retransmits jitter_ms lost rtt_us =
     line (interval_plain_row timestamp mbps n retransmits jitter_ms lost rtt_us)"

definition output_feedback_plain :: "string \<Rightarrow> u64 \<Rightarrow> f64 option \<Rightarrow> string" where
  "output_feedback_plain timestamp packets_lost pct =
     line (''['' @ timestamp @ '']  (reports stalled)  lost so far: '' @ show_nat (unat packets_lost)
       @ (case pct of Some p \<Rightarrow> '' ('' @ fmt_fixed 1 p @ ''%)'' | None \<Rightarrow> []))"

definition loss_column :: "UdpDirectionProgress option \<Rightarrow> string" where
  "loss_column m =
     (case Option.bind m (\<lambda>m. lost_percent (udp_progress_counts m)) of
        Some p \<Rightarrow> pad_left 5 (fmt_fixed 1 p) @ ''%''
      | None \<Rightarrow> pad_left 6 ''--%'')"

definition jitter_column :: "f64 option \<Rightarrow> string" where
  "jitter_column j = (case j of Some x \<Rightarrow> pad_left 5 (fmt_fixed 2 x) @ ''ms'' | None \<Rightarrow> pad_left 7 ''--ms'')"

definition directional_quality :: "UdpDirectionProgress option \<Rightarrow> UdpDirectionProgress option \<Rightarrow> f64 option \<Rightarrow> string" where
  "directional_quality udp_send udp_recv upload_jitter_fallback =
     ''  loss '' @ up_arrow @ loss_column udp_send @ '' '' @ down_arrow @ loss_column udp_recv
     @ ''  jitter '' @ up_arrow
       @ jitter_column (case Option.bind udp_send udp_progress_jitter_ms of Some j \<Rightarrow> Some j | None \<Rightarrow> upload_jitter_fallback)
     @ '' '' @ down_arrow @ jitter_column (Option.bind udp_recv udp_progress_jitter_ms)"

definition output_interval_plain_with_udp_directions ::
  "string \<Rightarrow> f64 \<Rightarrow> u64 \<Rightarrow> u64 option \<Rightarrow> f64 option \<Rightarrow> u64 option \<Rightarrow> u32 option
     \<Rightarrow> UdpDirectionProgress option \<Rightarrow> UdpDirectionProgress option \<Rightarrow> string" where
  "output_interval_plain_with_udp_directions timestamp mbps n retransmits jitter_ms lost rtt_us udp_send udp_recv =
     (if udp_send = None \<and> udp_recv = None
      then output_interval_plain timestamp mbps n retransmits jitter_ms lost rtt_us
      else line (butlast (output_interval_plain timestamp mbps n None None None None)
             @ directional_quality udp_send udp_recv jitter_ms))"

definition output_directional_feedback_plain :: "string \<Rightarrow> UdpDirectionProgress option \<Rightarrow> UdpDirectionProgress option \<Rightarrow> string" where
  "output_directional_feedback_plain timestamp udp_send udp_recv =
     line (''['' @ timestamp @ '']  (reports stalled)'' @ directional_quality udp_send udp_recv None)"

section \<open>CSV\<close>

text \<open>A row is its columns; \<open>csv_line\<close> joins them.\<close>

fun csv_join :: "string list \<Rightarrow> string" where
  "csv_join [] = []"
| "csv_join [c] = c"
| "csv_join (c # cs) = c @ '','' @ csv_join cs"

definition csv_line :: "string list \<Rightarrow> string" where "csv_line cs = line (csv_join cs)"

definition UDP_DIRECTION_COLUMNS :: "string list" where
  "UDP_DIRECTION_COLUMNS =
     [''udp_send_packets_received'', ''udp_send_packets_lost'', ''udp_send_lost_percent'', ''udp_send_jitter_ms'',
      ''udp_recv_packets_received'', ''udp_recv_packets_lost'', ''udp_recv_lost_percent'', ''udp_recv_jitter_ms'']"

definition opt_column :: "('a \<Rightarrow> string) \<Rightarrow> 'a option \<Rightarrow> string" where
  "opt_column f x = (case x of Some v \<Rightarrow> f v | None \<Rightarrow> [])"

definition show_u64 :: "u64 \<Rightarrow> string" where "show_u64 n = show_nat (unat n)"
definition show_u32 :: "u32 \<Rightarrow> string" where "show_u32 n = show_nat (unat n)"

definition direction_columns :: "UdpDirectionProgress option \<Rightarrow> string list" where
  "direction_columns m =
     (case m of
        Some m \<Rightarrow> [show_u64 (up_packets_received (udp_progress_counts m)), show_u64 (up_packets_lost (udp_progress_counts m)),
                   opt_column (fmt_fixed 2) (lost_percent (udp_progress_counts m)), opt_column (fmt_fixed 3) (udp_progress_jitter_ms m)]
      | None \<Rightarrow> [[], [], [], []])"

definition final_direction_columns :: "UdpStats option \<Rightarrow> string list" where
  "final_direction_columns s =
     (case s of
        Some s \<Rightarrow> [show_u64 (us_packets_received s), show_u64 (us_lost s), fmt_fixed 2 (us_lost_percent s), fmt_fixed 2 (us_jitter_ms s)]
      | None \<Rightarrow> [[], [], [], []])"

definition csv_result_header :: "string list" where
  "csv_result_header =
     [''test_id'', ''duration_secs'', ''transfer_bytes'', ''throughput_mbps'', ''retransmits'', ''jitter_ms'', ''lost'', ''lost_percent'',
      ''bytes_sent'', ''bytes_received'', ''throughput_send_mbps'', ''throughput_recv_mbps''] @ UDP_DIRECTION_COLUMNS"

definition csv_result_row :: "TestResult \<Rightarrow> string list" where
  "csv_result_row r =
     [tr_id r, fmt_fixed 2 (u64_as_f64 (tr_duration_ms r) / 1000), show_u64 (tr_bytes_total r), fmt_fixed 2 (tr_throughput_mbps r),
      show_u64 (case tr_tcp_info r of Some t \<Rightarrow> ti_retransmits t | None \<Rightarrow> 0),
      fmt_fixed 2 (case tr_udp_stats r of Some u \<Rightarrow> us_jitter_ms u | None \<Rightarrow> 0),
      show_u64 (case tr_udp_stats r of Some u \<Rightarrow> us_lost u | None \<Rightarrow> 0),
      fmt_fixed 2 (case tr_udp_stats r of Some u \<Rightarrow> us_lost_percent u | None \<Rightarrow> 0),
      opt_column show_u64 (tr_bytes_sent r), opt_column show_u64 (tr_bytes_received r),
      opt_column (fmt_fixed 2) (tr_throughput_send_mbps r), opt_column (fmt_fixed 2) (tr_throughput_recv_mbps r)]
     @ final_direction_columns (tr_udp_stats_send r) @ final_direction_columns (tr_udp_stats_recv r)"

definition output_csv :: "TestResult \<Rightarrow> string" where
  "output_csv r = csv_line csv_result_header @ csv_line (csv_result_row r)"

definition csv_interval_columns :: "string list" where
  "csv_interval_columns =
     [''timestamp'', ''elapsed_secs'', ''bytes'', ''throughput_mbps'', ''retransmits'', ''jitter_ms'', ''lost'', ''rtt_us'', ''cwnd'',
      ''bytes_sent'', ''bytes_received'', ''throughput_send_mbps'', ''throughput_recv_mbps''] @ UDP_DIRECTION_COLUMNS"

definition csv_interval_header :: string where "csv_interval_header = csv_line csv_interval_columns"

text \<open>What an interval row shows, in every format.\<close>

record interval_row =
  ir_timestamp :: string
  ir_elapsed_secs :: f64
  ir_throughput_mbps :: f64
  ir_bytes :: u64
  ir_retransmits :: "u64 option"
  ir_jitter_ms :: "f64 option"
  ir_lost :: "u64 option"
  ir_rtt_us :: "u32 option"
  ir_cwnd :: "u32 option"
  ir_bytes_sent :: "u64 option"
  ir_bytes_received :: "u64 option"
  ir_throughput_send_mbps :: "f64 option"
  ir_throughput_recv_mbps :: "f64 option"
  ir_udp_send :: "UdpDirectionProgress option"
  ir_udp_recv :: "UdpDirectionProgress option"

definition csv_interval_row :: "(f64 \<Rightarrow> string) \<Rightarrow> interval_row \<Rightarrow> string list" where
  "csv_interval_row show_f64 r =
     [ir_timestamp r, fmt_fixed 2 (ir_elapsed_secs r), show_u64 (ir_bytes r), fmt_fixed 2 (ir_throughput_mbps r),
      show_u64 (case ir_retransmits r of Some n \<Rightarrow> n | None \<Rightarrow> 0), show_f64 (case ir_jitter_ms r of Some j \<Rightarrow> j | None \<Rightarrow> 0),
      show_u64 (case ir_lost r of Some n \<Rightarrow> n | None \<Rightarrow> 0), opt_column show_u32 (ir_rtt_us r), opt_column show_u32 (ir_cwnd r),
      opt_column show_u64 (ir_bytes_sent r), opt_column show_u64 (ir_bytes_received r),
      opt_column (fmt_fixed 2) (ir_throughput_send_mbps r), opt_column (fmt_fixed 2) (ir_throughput_recv_mbps r)]
     @ direction_columns (ir_udp_send r) @ direction_columns (ir_udp_recv r)"

definition output_interval_csv_with_udp_directions :: "(f64 \<Rightarrow> string) \<Rightarrow> interval_row \<Rightarrow> string" where
  "output_interval_csv_with_udp_directions show_f64 r = csv_line (csv_interval_row show_f64 r)"

section \<open>JSON lines\<close>

datatype json = JString string | JNat nat | JReal f64 | JObject "(string \<times> json) list"

text \<open>A field that is skipped when it is missing.\<close>

definition opt_field :: "string \<Rightarrow> ('a \<Rightarrow> json) \<Rightarrow> 'a option \<Rightarrow> (string \<times> json) list" where
  "opt_field k f x = (case x of Some v \<Rightarrow> [(k, f v)] | None \<Rightarrow> [])"

definition DirectionSnapshot :: "UdpDirectionProgress \<Rightarrow> json" where
  "DirectionSnapshot m =
     JObject ([(''packets_received'', JNat (unat (up_packets_received (udp_progress_counts m)))),
               (''packets_lost'', JNat (unat (up_packets_lost (udp_progress_counts m))))]
       @ opt_field ''jitter_ms'' JReal (udp_progress_jitter_ms m)
       @ opt_field ''lost_percent'' JReal (lost_percent (udp_progress_counts m)))"

definition interval_json :: "interval_row \<Rightarrow> json" where
  "interval_json r =
     JObject ([(''timestamp'', JString (ir_timestamp r)), (''elapsed_secs'', JReal (ir_elapsed_secs r)), (''bytes'', JNat (unat (ir_bytes r))),
               (''throughput_mbps'', JReal (ir_throughput_mbps r))]
       @ opt_field ''retransmits'' (JNat \<circ> unat) (ir_retransmits r) @ opt_field ''jitter_ms'' JReal (ir_jitter_ms r)
       @ opt_field ''lost'' (JNat \<circ> unat) (ir_lost r) @ opt_field ''rtt_us'' (JNat \<circ> unat) (ir_rtt_us r)
       @ opt_field ''cwnd'' (JNat \<circ> unat) (ir_cwnd r)
       @ opt_field ''udp_send'' DirectionSnapshot (ir_udp_send r) @ opt_field ''udp_recv'' DirectionSnapshot (ir_udp_recv r))"

definition directional_feedback_json :: "string \<Rightarrow> f64 \<Rightarrow> UdpDirectionProgress option \<Rightarrow> UdpDirectionProgress option \<Rightarrow> json" where
  "directional_feedback_json timestamp elapsed_secs udp_send udp_recv =
     JObject ([(''event'', JString ''udp_feedback''), (''timestamp'', JString timestamp), (''elapsed_secs'', JReal elapsed_secs)]
       @ opt_field ''udp_send'' DirectionSnapshot udp_send @ opt_field ''udp_recv'' DirectionSnapshot udp_recv)"

definition feedback_json :: "string \<Rightarrow> f64 \<Rightarrow> UdpIntervalProgress \<Rightarrow> json" where
  "feedback_json timestamp elapsed_secs cum =
     JObject ([(''event'', JString ''udp_feedback''), (''timestamp'', JString timestamp), (''elapsed_secs'', JReal elapsed_secs),
               (''packets_received'', JNat (unat (up_packets_received cum))), (''packets_lost'', JNat (unat (up_packets_lost cum)))]
       @ opt_field ''lost_percent'' JReal (lost_percent cum))"

section \<open>Lemmas\<close>

text \<open>Up to a terabyte and below 999.995 Gbps the two number columns keep their width, so that what follows them starts
  at the same place in every row.\<close>

lemma length_fmt_fixed_2:
  assumes "0 \<le> x" "x \<le> of_nat m" "m * 100 < 10 ^ (2 + k)" "0 < k"
  shows "length (fmt_fixed 2 x) \<le> k + 3"
proof -
  have "round_half_even (x * 10 ^ 2) \<le> int (m * 100)" using assms(2) by (intro round_half_even_le) simp
  then have "nat (round_half_even (x * 10 ^ 2)) < 10 ^ (2 + k)" using assms(3) by linarith
  from length_show_scaled_le [OF this assms(4)] show ?thesis using assms(1) by (simp add: fmt_fixed_def)
qed

lemma length_bytes_to_human:
  assumes "n < 2 ^ 40"
  shows "length (bytes_to_human n) \<le> 10"
proof -
  have n: "unat n < 2 ^ 40" using assms by (simp add: word_less_nat_alt)
  have unit: "length (fmt_fixed 2 (u64_as_f64 n / real d)) \<le> 7" if "unat n \<le> 1024 * d" "0 < d" for d
  proof -
    have "u64_as_f64 n / real d \<le> of_nat 1024"
      using that of_nat_mono [OF that(1), where 'a = real] by (simp add: field_simps)
    moreover have "0 \<le> u64_as_f64 n / real d" by (intro divide_nonneg_nonneg of_nat_0_le_iff)
    ultimately show ?thesis using length_fmt_fixed_2 [of "u64_as_f64 n / real d" 1024 4] by simp
  qed
  have kb: "unat n \<le> 1024 * 1024" if "n < 1048576" using that by (simp add: word_less_nat_alt)
  have mb: "unat n \<le> 1024 * 1048576" if "n < 1073741824" using that by (simp add: word_less_nat_alt)
  have small: "length (show_nat (unat n)) \<le> 4" if "n < 1024"
    using that by (intro length_show_nat_le) (simp_all add: word_less_nat_alt)
  have "\<not> 1099511627776 \<le> n" using assms by simp
  then show ?thesis
    using unit [of 1024] kb unit [of 1048576] mb unit [of 1073741824] n small
    by (auto simp: bytes_to_human_def Let_def not_le)
qed

lemma length_mbps_to_human:
  assumes "0 \<le> x" "x < 999990"
  shows "length (mbps_to_human x) \<le> 11"
proof -
  have n: "0 \<le> f64_round y" if "0 \<le> y" for y using that by (simp add: f64_round_def)
  have nn: "0 \<le> normalize_for_display y d" if "0 \<le> y" for y d using n [of "y * 10 ^ d"] that by (simp add: normalize_for_display_def)
  show ?thesis
  proof (cases "1000 \<le> normalize_for_display x 1")
    case True
    have "f64_round (x / 1000 * 10 ^ 2) \<le> 99999"
    proof -
      have "x / 1000 * 10 ^ 2 + 1 / 2 < 100000" using assms(2) by simp
      then have "\<lfloor>x / 1000 * 10 ^ 2 + 1 / 2\<rfloor> < 100000" by (simp add: floor_less_iff)
      then show ?thesis using assms(1) by (simp add: f64_round_def)
    qed
    then have "normalize_for_display (x / 1000) 2 \<le> 999.99" by (simp add: normalize_for_display_def)
    then have le: "round_half_even (normalize_for_display (x / 1000) 2 * 10 ^ 2) \<le> 99999" by (intro round_half_even_le) simp
    have "length (show_scaled 2 (nat (round_half_even (normalize_for_display (x / 1000) 2 * 10 ^ 2)))) \<le> 3 + 1 + 2"
      by (rule length_show_scaled_le) (use le in simp_all)
    then have "length (fmt_fixed 2 (normalize_for_display (x / 1000) 2)) \<le> 6"
      using nn [of "x / 1000" 2] assms(1) by (simp add: fmt_fixed_def)
    then show ?thesis using True by (simp add: mbps_to_human_def Let_def)
  next
    case False
    then have le: "round_half_even (normalize_for_display x 1 * 10 ^ 1) \<le> 10000" by (intro round_half_even_le) simp
    have "length (show_scaled 1 (nat (round_half_even (normalize_for_display x 1 * 10 ^ 1)))) \<le> 4 + 1 + 1"
      by (rule length_show_scaled_le) (use le in simp_all)
    then have "length (fmt_fixed 1 (normalize_for_display x 1)) \<le> 6"
      using nn [of x 1] assms(1) by (simp add: fmt_fixed_def)
    then show ?thesis using False by (simp add: mbps_to_human_def Let_def)
  qed
qed

lemma interval_columns_width:
  assumes "0 \<le> mbps" "mbps < 999990" "n < 2 ^ 40"
  shows "length (interval_columns ts mbps n) = length ts + 27"
  using length_mbps_to_human [OF assms(1,2)] length_bytes_to_human [OF assms(3)]
  by (simp add: interval_columns_def pad_left_def)

lemma split_csv_join: "cs \<noteq> [] \<Longrightarrow> \<forall>c\<in>set cs. CHR '','' \<notin> set c \<Longrightarrow> split_on CHR '','' (csv_join cs) = cs"
  by (induction cs rule: csv_join.induct) (simp_all add: split_on_no_sep split_on_concat)

lemma butlast_csv_line [simp]: "butlast (csv_line cs) = csv_join cs"
  by (simp add: csv_line_def line_def)

lemma no_comma_decimal: "CHR '','' \<notin> set (fmt_fixed p x)" "CHR '','' \<notin> set (show_nat n)"
  using decimal_char_fmt_fixed [of "CHR '',''" p x] decimal_char_show_nat [of "CHR '',''" n] by (auto simp: decimal_char_def)

lemma no_comma_opt: "(\<And>x. CHR '','' \<notin> set (f x)) \<Longrightarrow> CHR '','' \<notin> set (opt_column f v)"
  by (simp add: opt_column_def split: option.split)

lemma no_comma_direction: "\<forall>c\<in>set (direction_columns m). CHR '','' \<notin> set c" "\<forall>c\<in>set (final_direction_columns s). CHR '','' \<notin> set c"
  by (auto simp: direction_columns_def final_direction_columns_def show_u64_def no_comma_decimal no_comma_opt split: option.splits)

lemma length_direction [simp]: "length (direction_columns m) = 4" "length (final_direction_columns s) = 4"
  by (simp_all add: direction_columns_def final_direction_columns_def split: option.splits)

lemma no_comma_header: "\<forall>c\<in>set csv_interval_columns. CHR '','' \<notin> set c" "\<forall>c\<in>set csv_result_header. CHR '','' \<notin> set c"
  by (simp_all add: csv_interval_columns_def csv_result_header_def UDP_DIRECTION_COLUMNS_def)

lemma no_comma_interval_row:
  assumes "CHR '','' \<notin> set (ir_timestamp r)" "\<And>x. CHR '','' \<notin> set (show_f64 x)"
  shows "\<forall>c\<in>set (csv_interval_row show_f64 r). CHR '','' \<notin> set c"
  using assms no_comma_direction(1) [of "ir_udp_send r"] no_comma_direction(1) [of "ir_udp_recv r"]
  by (auto simp: csv_interval_row_def show_u64_def show_u32_def no_comma_decimal no_comma_opt)

lemma no_comma_result_row:
  assumes "CHR '','' \<notin> set (tr_id r)"
  shows "\<forall>c\<in>set (csv_result_row r). CHR '','' \<notin> set c"
  using assms no_comma_direction(2) [of "tr_udp_stats_send r"] no_comma_direction(2) [of "tr_udp_stats_recv r"]
  by (auto simp: csv_result_row_def show_u64_def no_comma_decimal no_comma_opt)

lemma csv_lengths: "length (csv_interval_row show_f64 r) = length csv_interval_columns" "length (csv_result_row t) = length csv_result_header"
  by (simp_all add: csv_interval_row_def csv_interval_columns_def csv_result_row_def csv_result_header_def UDP_DIRECTION_COLUMNS_def)

section \<open>Properties\<close>

text \<open>A reader that splits the CSV lines at their commas gets one value per name of the header, on every row and
  whatever measurements are missing, and reads the number of bytes back, provided that the timestamp, or the test's id
  in the final row, has no comma.\<close>

theorem csv_read_back:
  assumes "CHR '','' \<notin> set (ir_timestamp r)" "\<And>x. CHR '','' \<notin> set (show_f64 x)" "CHR '','' \<notin> set (tr_id t)"
  shows "(let header = split_on CHR '','' (butlast csv_interval_header);
              row = split_on CHR '','' (butlast (output_interval_csv_with_udp_directions show_f64 r))
          in length row = length header \<and> distinct header
             \<and> Option.bind (map_of (zip header row) ''bytes'') (parse_uint 10 64) = Some (unat (ir_bytes r)))
    \<and> (\<exists>head last. output_csv t = line head @ line last
          \<and> (let header = split_on CHR '','' head; row = split_on CHR '','' last
             in length row = length header \<and> distinct header
                \<and> Option.bind (map_of (zip header row) ''transfer_bytes'') (parse_uint 10 64) = Some (unat (tr_bytes_total t))))"
proof -
  note rows = no_comma_interval_row [OF assms(1,2)] no_comma_result_row [OF assms(3)]
  have ne: "csv_interval_row show_f64 r \<noteq> []" "csv_result_row t \<noteq> []" "csv_interval_columns \<noteq> []" "csv_result_header \<noteq> []"
    by (simp_all add: csv_interval_row_def csv_result_row_def csv_interval_columns_def csv_result_header_def)
  have d: "distinct csv_interval_columns" "distinct csv_result_header"
    by (simp_all add: csv_interval_columns_def csv_result_header_def UDP_DIRECTION_COLUMNS_def)
  have n: "parse_uint 10 64 (show_u64 w) = Some (unat w)" for w
    unfolding show_u64_def using parse_show_nat [of "unat w" 64] unat_lt_pow [of w] by simp
  have "Option.bind (map_of (zip csv_interval_columns (csv_interval_row show_f64 r)) ''bytes'') (parse_uint 10 64) = Some (unat (ir_bytes r))"
    by (simp add: csv_interval_columns_def csv_interval_row_def n)
  moreover have "Option.bind (map_of (zip csv_result_header (csv_result_row t)) ''transfer_bytes'') (parse_uint 10 64) = Some (unat (tr_bytes_total t))"
    by (simp add: csv_result_header_def csv_result_row_def n)
  moreover have "output_csv t = line (csv_join csv_result_header) @ line (csv_join (csv_result_row t))"
    by (simp add: output_csv_def csv_line_def)
  ultimately show ?thesis
    using d csv_lengths split_csv_join [OF ne(1) rows(1)] split_csv_join [OF ne(2) rows(2)]
      split_csv_join [OF ne(3) no_comma_header(1)] split_csv_join [OF ne(4) no_comma_header(2)]
    unfolding csv_interval_header_def output_interval_csv_with_udp_directions_def butlast_csv_line Let_def by metis
qed

definition sample_row :: interval_row where
  "sample_row = \<lparr>ir_timestamp = ''1.000'', ir_elapsed_secs = 1, ir_throughput_mbps = 800, ir_bytes = 100000000, ir_retransmits = None,
     ir_jitter_ms = None, ir_lost = None, ir_rtt_us = None, ir_cwnd = None, ir_bytes_sent = None, ir_bytes_received = None,
     ir_throughput_send_mbps = None, ir_throughput_recv_mbps = None, ir_udp_send = None, ir_udp_recv = None\<rparr>"

theorem csv_read_back_witness:
  "(let header = split_on CHR '','' (butlast csv_interval_header);
        row = split_on CHR '','' (butlast (output_interval_csv_with_udp_directions (fmt_fixed 3) sample_row))
    in length row = length header \<and> distinct header
       \<and> Option.bind (map_of (zip header row) ''bytes'') (parse_uint 10 64) = Some 100000000)"
proof -
  have "CHR '','' \<notin> set (ir_timestamp sample_row)" "unat (ir_bytes sample_row) = 100000000" by (simp_all add: sample_row_def)
  moreover have "CHR '','' \<notin> set (tr_id (sample_result 1 0 0))" by (simp add: sample_result_def)
  ultimately show ?thesis using csv_read_back [of sample_row "fmt_fixed 3" "sample_result 1 0 0"] by (simp add: no_comma_decimal)
qed

end
