(* ===== verification/Push_Metrics.thy ===== *)
theory Push_Metrics
  imports Push_Gateway
begin

text \<open>
  The exposition text that is pushed (\<open>src/output/push_gateway.rs\<close>), as lines: which families of samples a result
  or the server's counters give, and their rendering. \<open>show_f64\<close> is Rust's shortest decimal of an \<open>f64\<close>.
\<close>

section \<open>Lines\<close>

datatype metric_line =
    TestId string
  | Help string string
  | TypeLine string string
  | Sample string "(string \<times> string) list" string

fun join :: "string \<Rightarrow> string list \<Rightarrow> string" where
  "join sep [] = []"
| "join sep [x] = x"
| "join sep (x # xs) = x @ sep @ join sep xs"

definition render_line :: "metric_line \<Rightarrow> string" where
  "render_line l =
     (case l of
        TestId i \<Rightarrow> ''# Test ID: '' @ i
      | Help n h \<Rightarrow> ''# HELP '' @ n @ '' '' @ h
      | TypeLine n t \<Rightarrow> ''# TYPE '' @ n @ '' '' @ t
      | Sample n ls v \<Rightarrow>
          n @ (if ls = [] then [] else ''{'' @ join '','' (map (\<lambda>(k, x). k @ ''='' @ [char_of (34::nat)] @ x @ [char_of (34::nat)]) ls) @ ''}'')
            @ '' '' @ v)"

definition render :: "metric_line list \<Rightarrow> string" where
  "render ls = concat (map (line \<circ> render_line) ls)"

text \<open>The three replacements, in their order, on one character.\<close>

definition escape_char :: "char \<Rightarrow> string" where
  "escape_char c =
     (if of_char c = (92::nat) then [c, c] else if of_char c = (34::nat) then [char_of (92::nat), c]
      else if of_char c = (10::nat) then [char_of (92::nat), CHR ''n''] else [c])"

definition escape_label :: "string \<Rightarrow> string" where
  "escape_label s = concat (map escape_char s)"

fun unescape_label :: "string \<Rightarrow> string" where
  "unescape_label [] = []"
| "unescape_label [c] = [c]"
| "unescape_label (c # d # cs) =
     (if of_char c = (92::nat) then (if d = CHR ''n'' then char_of (10::nat) else d) # unescape_label cs
      else c # unescape_label (d # cs))"

section \<open>Families\<close>

record family =
  fm_name :: string
  fm_help :: string
  fm_type :: string
  fm_samples :: "((string \<times> string) list \<times> string) list"

definition family_lines :: "family \<Rightarrow> metric_line list" where
  "family_lines f = Help (fm_name f) (fm_help f) # TypeLine (fm_name f) (fm_type f)
     # map (\<lambda>(ls, v). Sample (fm_name f) ls v) (fm_samples f)"

definition single :: "string \<Rightarrow> string \<Rightarrow> string \<Rightarrow> string \<Rightarrow> family" where
  "single name help ty v = \<lparr>fm_name = name, fm_help = help, fm_type = ty, fm_samples = [([], v)]\<rparr>"

type_synonym stream_sample = "u8 \<times> u64 \<times> f64 \<times> u64"

definition stream_families :: "(f64 \<Rightarrow> string) \<Rightarrow> string \<Rightarrow> stream_sample list \<Rightarrow> family list" where
  "stream_families show_f64 test_id streams =
     (let rows = (\<lambda>value. map (\<lambda>s. ([(''test_id'', test_id), (''stream_id'', show_nat (unat (fst s)))], show_f64 (value s))) streams)
      in if streams = [] then []
         else [\<lparr>fm_name = ''xfr_stream_bytes_total'', fm_help = ''Per-stream total bytes transferred'', fm_type = ''counter'',
                fm_samples = rows (\<lambda>(i, b, t, r). u64_as_f64 b)\<rparr>,
               \<lparr>fm_name = ''xfr_stream_throughput_mbps'', fm_help = ''Per-stream average throughput in Mbps'', fm_type = ''gauge'',
                fm_samples = rows (\<lambda>(i, b, t, r). t)\<rparr>,
               \<lparr>fm_name = ''xfr_stream_retransmits_total'', fm_help = ''Per-stream TCP retransmits'', fm_type = ''counter'',
                fm_samples = rows (\<lambda>(i, b, t, r). u64_as_f64 r)\<rparr>])"

definition tcp_families :: "(f64 \<Rightarrow> string) \<Rightarrow> TcpInfoSnapshot option \<Rightarrow> family list" where
  "tcp_families show_f64 tcp_info =
     (case tcp_info of
        None \<Rightarrow> []
      | Some t \<Rightarrow>
          [single ''xfr_tcp_rtt_microseconds'' ''TCP round-trip time in microseconds'' ''gauge'' (show_f64 (real (unat (ti_rtt_us t)))),
           single ''xfr_tcp_retransmits_total'' ''TCP retransmits'' ''counter'' (show_f64 (u64_as_f64 (ti_retransmits t))),
           single ''xfr_tcp_cwnd_bytes'' ''TCP congestion window in bytes'' ''gauge'' (show_f64 (real (unat (ti_cwnd t))))])"

definition udp_families :: "(f64 \<Rightarrow> string) \<Rightarrow> UdpStats list \<Rightarrow> family list" where
  "udp_families show_f64 udp =
     (if udp = [] then []
      else (let sent = foldl (\<lambda>a u. saturating_add a (us_packets_sent u)) 0 udp;
                received = foldl (\<lambda>a u. saturating_add a (us_packets_received u)) 0 udp;
                lost = foldl (\<lambda>a u. saturating_add a (us_lost u)) 0 udp;
                max_jitter = foldl (\<lambda>a u. max a (us_jitter_ms u)) 0 udp;
                lost_pct = (if 0 < sent then u64_as_f64 lost / u64_as_f64 sent * 100 else 0)
            in [single ''xfr_udp_packets_sent'' ''UDP packets sent'' ''counter'' (show_f64 (u64_as_f64 sent)),
                single ''xfr_udp_packets_received'' ''UDP packets received'' ''counter'' (show_f64 (u64_as_f64 received)),
                single ''xfr_udp_packets_lost'' ''UDP packets lost'' ''counter'' (show_f64 (u64_as_f64 lost)),
                single ''xfr_udp_jitter_ms'' ''UDP jitter in milliseconds'' ''gauge'' (show_f64 max_jitter),
                single ''xfr_udp_lost_percent'' ''UDP packet loss percentage'' ''gauge'' (show_f64 lost_pct)]))"

definition sample_families ::
  "(f64 \<Rightarrow> string) \<Rightarrow> string \<Rightarrow> u64 \<Rightarrow> u64 \<Rightarrow> f64 \<Rightarrow> stream_sample list \<Rightarrow> TcpInfoSnapshot option \<Rightarrow> UdpStats list \<Rightarrow> family list" where
  "sample_families show_f64 test_id elapsed_ms bytes_total throughput streams tcp_info udp =
     [single ''xfr_bytes_total'' ''Total bytes transferred'' ''counter'' (show_f64 (u64_as_f64 bytes_total)),
      single ''xfr_throughput_mbps'' ''Average throughput in Mbps'' ''gauge'' (show_f64 throughput),
      single ''xfr_duration_seconds'' ''Test duration in seconds'' ''gauge'' (show_f64 (u64_as_f64 elapsed_ms / 1000))]
     @ stream_families show_f64 test_id streams @ tcp_families show_f64 tcp_info @ udp_families show_f64 udp"

definition format_samples ::
  "(f64 \<Rightarrow> string) \<Rightarrow> string \<Rightarrow> u64 \<Rightarrow> u64 \<Rightarrow> f64 \<Rightarrow> stream_sample list \<Rightarrow> TcpInfoSnapshot option \<Rightarrow> UdpStats list \<Rightarrow> metric_line list" where
  "format_samples show_f64 test_id elapsed_ms bytes_total throughput streams tcp_info udp =
     TestId (escape_label test_id)
     # concat (map family_lines (sample_families show_f64 (escape_label test_id) elapsed_ms bytes_total throughput streams tcp_info udp))"

section \<open>Directions\<close>

record DirectionalUdp =
  du_direction :: string
  du_view :: string
  du_bytes :: "u64 option"
  du_throughput_mbps :: "f64 option"
  du_quality :: "UdpStats option"

definition measured :: "UdpStats option \<Rightarrow> UdpStats option" where
  "measured q = (case q of Some s \<Rightarrow> if 0 < us_packets_received s \<or> 0 < us_lost s then Some s else None | None \<Rightarrow> None)"

definition UDP_DIRECTION_METRICS :: "(string \<times> string) list" where
  "UDP_DIRECTION_METRICS =
     [(''bytes'', ''UDP bytes for this direction and measurement view''),
      (''throughput_mbps'', ''UDP throughput in Mbps for this direction and measurement view''),
      (''packets_expected'', ''UDP packets expected from receiver sequence observations''),
      (''packets_received'', ''UDP packets received''),
      (''packets_lost'', ''UDP packets lost according to the receiver''),
      (''lost_percent'', ''UDP packet loss percentage measured by the receiver''),
      (''jitter_ms'', ''UDP jitter in milliseconds measured by the receiver'')]"

definition direction_value :: "(f64 \<Rightarrow> string) \<Rightarrow> string \<Rightarrow> DirectionalUdp \<Rightarrow> string option" where
  "direction_value show_f64 metric s =
     (let q = measured (du_quality s)
      in if metric = ''bytes'' then map_option (show_nat \<circ> unat) (du_bytes s)
         else if metric = ''throughput_mbps'' then map_option show_f64 (du_throughput_mbps s)
         else if metric = ''packets_expected'' then map_option (show_nat \<circ> unat \<circ> us_packets_sent) q
         else if metric = ''packets_received'' then map_option (show_nat \<circ> unat \<circ> us_packets_received) q
         else if metric = ''packets_lost'' then map_option (show_nat \<circ> unat \<circ> us_lost) q
         else if metric = ''lost_percent'' then map_option (show_f64 \<circ> us_lost_percent) q
         else (case q of Some s \<Rightarrow> if 0 < us_packets_received s then Some (show_f64 (us_jitter_ms s)) else None | None \<Rightarrow> None))"

definition direction_labels :: "string \<Rightarrow> DirectionalUdp \<Rightarrow> (string \<times> string) list" where
  "direction_labels metric s =
     (if metric = ''bytes'' \<or> metric = ''throughput_mbps'' then [(''direction'', du_direction s), (''view'', du_view s)]
      else [(''direction'', du_direction s)])"

text \<open>A metric without a value in any direction has no header either.\<close>

definition direction_families :: "(f64 \<Rightarrow> string) \<Rightarrow> DirectionalUdp list \<Rightarrow> string \<Rightarrow> family list" where
  "direction_families show_f64 samples prefix =
     List.map_filter (\<lambda>(metric, help).
        let rows = List.map_filter (\<lambda>s. map_option (\<lambda>v. (direction_labels metric s, v)) (direction_value show_f64 metric s)) samples
        in if rows = [] then None
           else Some \<lparr>fm_name = prefix @ ''_'' @ metric, fm_help = help, fm_type = ''gauge'', fm_samples = rows\<rparr>) UDP_DIRECTION_METRICS"

definition append_udp_directions_named :: "(f64 \<Rightarrow> string) \<Rightarrow> DirectionalUdp list \<Rightarrow> string \<Rightarrow> metric_line list" where
  "append_udp_directions_named show_f64 samples prefix = concat (map family_lines (direction_families show_f64 samples prefix))"

definition result_directions :: "TestResult \<Rightarrow> Protocol.Direction \<Rightarrow> DirectionalUdp list" where
  "result_directions r direction =
     (if direction = Bidir
      then [\<lparr>du_direction = ''upload'', du_view = ''receiver'', du_bytes = tr_bytes_sent r, du_throughput_mbps = tr_throughput_send_mbps r,
              du_quality = tr_udp_stats_send r\<rparr>,
            \<lparr>du_direction = ''download'', du_view = ''receiver'', du_bytes = tr_bytes_received r, du_throughput_mbps = tr_throughput_recv_mbps r,
              du_quality = tr_udp_stats_recv r\<rparr>]
      else [\<lparr>du_direction = (if direction = Upload then ''upload'' else ''download''), du_view = ''receiver'',
              du_bytes = Some (tr_bytes_total r), du_throughput_mbps = Some (tr_throughput_mbps r), du_quality = tr_udp_stats r\<rparr>])"

definition format_result :: "(f64 \<Rightarrow> string) \<Rightarrow> PushGatewayClient \<Rightarrow> TestResult \<Rightarrow> metric_line list" where
  "format_result show_f64 c r =
     format_samples show_f64 (tr_id r) (tr_duration_ms r) (tr_bytes_total r) (tr_throughput_mbps r)
       (map (\<lambda>s. (str_id s, str_bytes s, str_throughput_mbps s, case str_retransmits s of Some n \<Rightarrow> n | None \<Rightarrow> 0)) (tr_streams r))
       (tr_tcp_info r) (case tr_udp_stats r of Some u \<Rightarrow> [u] | None \<Rightarrow> [])
     @ (case pg_test c of
          Some (Udp, direction) \<Rightarrow> append_udp_directions_named show_f64 (result_directions r direction) ''xfr_udp_direction''
        | _ \<Rightarrow> [])"

section \<open>Snapshots\<close>

text \<open>The header only before the first sample of a family; the check looks for its type line.\<close>

definition snapshot_gauge :: "metric_line list \<Rightarrow> string \<times> (string \<times> string) list \<times> string \<Rightarrow> metric_line list" where
  "snapshot_gauge out gauge =
     (case gauge of (metric, ls, v) \<Rightarrow>
        let name = ''xfr_last_test_'' @ metric
        in out @ (if TypeLine name ''gauge'' \<in> set out then []
                  else [Help name (''Most recently pushed test snapshot '' @ metric), TypeLine name ''gauge''])
           @ [Sample name ls v])"

definition sample_flags :: "DirectionalUdp \<Rightarrow> bool list" where
  "sample_flags s =
     [du_bytes s \<noteq> None \<and> du_throughput_mbps s \<noteq> None,
      (case du_quality s of Some q \<Rightarrow> 0 < us_packets_received q \<or> 0 < us_lost q | None \<Rightarrow> False),
      (case du_quality s of Some q \<Rightarrow> 0 < us_packets_received q | None \<Rightarrow> False)]"

definition show_flag :: "bool \<Rightarrow> string" where "show_flag b = (if b then ''1'' else ''0'')"

definition flag_gauges :: "DirectionalUdp list \<Rightarrow> (string \<times> (string \<times> string) list \<times> string) list" where
  "flag_gauges samples =
     concat (map (\<lambda>(i, metric, view). map (\<lambda>s. (metric, (''direction'', du_direction s) # view, show_flag (sample_flags s ! i))) samples)
       [(0, ''udp_direction_available'', [(''view'', ''receiver'')]), (1, ''udp_direction_quality_available'', []),
        (2, ''udp_direction_jitter_available'', [])])"

definition result_gauges :: "(f64 \<Rightarrow> string) \<Rightarrow> TestResult \<Rightarrow> (string \<times> (string \<times> string) list \<times> string) list" where
  "result_gauges show_f64 r =
     [(''bytes'', [], show_nat (unat (tr_bytes_total r))), (''throughput_mbps'', [], show_f64 (tr_throughput_mbps r)),
      (''duration_seconds'', [], show_f64 (u64_as_f64 (tr_duration_ms r) / 1000)), (''streams'', [], show_nat (length (tr_streams r))),
      (''tcp_info_available'', [], show_flag (tr_tcp_info r \<noteq> None))]
     @ (case tr_tcp_info r of
          Some t \<Rightarrow> [(''tcp_rtt_microseconds'', [], show_nat (unat (ti_rtt_us t))), (''tcp_retransmits'', [], show_nat (unat (ti_retransmits t))),
                     (''tcp_cwnd_bytes'', [], show_nat (unat (ti_cwnd t)))]
        | None \<Rightarrow> [])"

definition drop_partial :: "DirectionalUdp \<Rightarrow> DirectionalUdp" where
  "drop_partial s = (if hd (sample_flags s) then s else s\<lparr>du_bytes := None, du_throughput_mbps := None\<rparr>)"

definition format_snapshot :: "(f64 \<Rightarrow> string) \<Rightarrow> PushGatewayClient \<Rightarrow> TestResult \<Rightarrow> metric_line list" where
  "format_snapshot show_f64 c r =
     (let out = foldl snapshot_gauge [] (result_gauges show_f64 r)
      in case pg_test c of
           Some (Udp, direction) \<Rightarrow>
             (let samples = result_directions r direction
              in foldl snapshot_gauge out (flag_gauges samples)
                 @ append_udp_directions_named show_f64 (map drop_partial samples) ''xfr_last_test_udp_direction'')
         | _ \<Rightarrow> out)"

section \<open>Pushing\<close>

definition elapsed_ms :: "TestStats \<Rightarrow> instant \<Rightarrow> u64" where
  "elapsed_ms t now = word_of_nat ((now - tst_start_time t) div 1000000)"

definition format_metrics ::
  "(f64 \<Rightarrow> string) \<Rightarrow> (int \<Rightarrow> TcpInfoSnapshot option) \<Rightarrow> PushGatewayClient \<Rightarrow> TestStats \<Rightarrow> instant \<Rightarrow> metric_line list" where
  "format_metrics show_f64 tcp_info_of c t now =
     (let ms = elapsed_ms t now; duration_secs = u64_as_f64 ms / 1000;
          mbps = (\<lambda>b. if 0 < ms then u64_as_f64 b * 8 / duration_secs / 1000000 else 0)
      in format_samples show_f64 (tst_test_id t) ms (TestStats_total_bytes t) (mbps (TestStats_total_bytes t))
           (map (\<lambda>s. (st_stream_id s, total_bytes s, throughput_mbps s now, st_retransmits s)) (tst_streams t))
           (final_local_tcp_info tcp_info_of t) (tst_udp_stats t)
         @ (case pg_test c of
              Some (Udp, direction) \<Rightarrow>
                append_udp_directions_named show_f64
                  ((if direction \<noteq> Download
                    then [\<lparr>du_direction = ''upload'', du_view = ''receiver'', du_bytes = Some (total_bytes_received t),
                            du_throughput_mbps = Some (mbps (total_bytes_received t)), du_quality = aggregate_udp_receiver_stats t\<rparr>] else [])
                   @ (if direction \<noteq> Upload
                      then [\<lparr>du_direction = ''download'', du_view = ''sender'', du_bytes = Some (total_bytes_sent t),
                              du_throughput_mbps = Some (mbps (total_bytes_sent t)), du_quality = None\<rparr>] else [])) ''xfr_udp_direction''
            | _ \<Rightarrow> []))"

text \<open>What is sent: where to, how, and the text.\<close>

record push_request =
  pr_url :: Url
  pr_method :: string
  pr_body :: string

definition push_test_result :: "(f64 \<Rightarrow> string) \<Rightarrow> (string \<Rightarrow> string) \<Rightarrow> PushGatewayClient \<Rightarrow> TestResult \<Rightarrow> push_error + push_request" where
  "push_test_result show_f64 base64 c r =
     (case validate_context c of
        Err e \<Rightarrow> Err e
      | Ok _ \<Rightarrow> Ok \<lparr>pr_url = push_url base64 c (tr_id r), pr_method = request_method c,
                   pr_body = render (if pg_job c \<noteq> None then format_snapshot show_f64 c r else format_result show_f64 c r)\<rparr>)"

definition push_test_metrics ::
  "(f64 \<Rightarrow> string) \<Rightarrow> (int \<Rightarrow> TcpInfoSnapshot option) \<Rightarrow> (string \<Rightarrow> string) \<Rightarrow> PushGatewayClient \<Rightarrow> TestStats \<Rightarrow> instant \<Rightarrow> push_request option" where
  "push_test_metrics show_f64 tcp_info_of base64 c t now =
     (if pg_job c \<noteq> None then None
      else Some \<lparr>pr_url = push_url base64 c (tst_test_id t), pr_method = request_method c,
                 pr_body = render (format_metrics show_f64 tcp_info_of c t now)\<rparr>)"

definition maybe_push_metrics_for_peer ::
  "(string \<Rightarrow> Url option) \<Rightarrow> (IpAddr \<Rightarrow> string) \<Rightarrow> (f64 \<Rightarrow> string) \<Rightarrow> (int \<Rightarrow> TcpInfoSnapshot option) \<Rightarrow> (string \<Rightarrow> string)
     \<Rightarrow> string option \<Rightarrow> TestStats \<Rightarrow> instant \<Rightarrow> IpAddr option \<Rightarrow> (Protocol \<times> Protocol.Direction) option \<Rightarrow> labels \<Rightarrow> push_request option" where
  "maybe_push_metrics_for_peer parse_url show_ip show_f64 tcp_info_of base64 url t now peer test ls =
     (case url of
        None \<Rightarrow> None
      | Some u \<Rightarrow>
          (case PushGatewayClient_new parse_url u of
             Err _ \<Rightarrow> None
           | Ok c \<Rightarrow>
               (let c = (case peer of Some p \<Rightarrow> with_endpoint c ''client'' (show_ip (normalize_ip p)) ''server'' | None \<Rightarrow> c);
                    c = (case test of Some (p, d) \<Rightarrow> with_test c p d | None \<Rightarrow> c)
                in case with_labels c ls of
                     Err _ \<Rightarrow> None
                   | Ok c \<Rightarrow> push_test_metrics show_f64 tcp_info_of base64 c t now)))"

section \<open>Well-formed text\<close>

text \<open>The format's rule: a family is declared once, by a help line and a type line together, and its samples follow
  without any other family's between them. The state holds the families declared, the current one, and a help line
  that still waits for its type line.\<close>

fun scan_line :: "string list \<times> string option \<times> string option \<Rightarrow> metric_line \<Rightarrow> (string list \<times> string option \<times> string option) option" where
  "scan_line (seen, cur, None) (TestId i) = Some (seen, cur, None)"
| "scan_line (seen, cur, None) (Help n h) = (if n \<in> set seen then None else Some (seen, cur, Some n))"
| "scan_line (seen, cur, Some m) (TypeLine n t) = (if m = n then Some (n # seen, Some n, None) else None)"
| "scan_line (seen, cur, None) (Sample n ls v) = (if cur = Some n then Some (seen, cur, None) else None)"
| "scan_line _ _ = None"

fun scan :: "string list \<times> string option \<times> string option \<Rightarrow> metric_line list \<Rightarrow> (string list \<times> string option \<times> string option) option" where
  "scan st [] = Some st"
| "scan st (l # ls) = Option.bind (scan_line st l) (\<lambda>st'. scan st' ls)"

definition well_formed :: "metric_line list \<Rightarrow> bool" where
  "well_formed ls = (case scan ([], None, None) ls of Some (_, _, None) \<Rightarrow> True | _ \<Rightarrow> False)"

lemma scan_append: "scan st (xs @ ys) = Option.bind (scan st xs) (\<lambda>st'. scan st' ys)"
  by (induction xs arbitrary: st) (auto split: Option.bind_splits)

lemma scan_samples: "scan (seen, Some n, None) (map (\<lambda>(ls, v). Sample n ls v) rows) = Some (seen, Some n, None)"
  by (induction rows) auto

lemma scan_family:
  "fm_name f \<notin> set seen \<Longrightarrow> scan (seen, cur, None) (family_lines f) = Some (fm_name f # seen, Some (fm_name f), None)"
  by (simp add: family_lines_def scan_samples)

lemma scan_families:
  assumes "distinct (map fm_name fs)" "set (map fm_name fs) \<inter> set seen = {}"
  shows "\<exists>cur'. scan (seen, cur, None) (concat (map family_lines fs)) = Some (rev (map fm_name fs) @ seen, cur', None)"
  using assms
proof (induction fs arbitrary: seen cur)
  case (Cons f fs)
  have "set (map fm_name fs) \<inter> set (fm_name f # seen) = {}" "distinct (map fm_name fs)" using Cons.prems by auto
  from Cons.IH [OF this(2,1)] show ?case using Cons.prems by (simp add: scan_append scan_family)
qed simp

text \<open>Gauges that come family by family.\<close>

lemma snapshot_gauge_scan:
  assumes "scan ([], None, None) out = Some (seen, cur, None)" "\<forall>n. TypeLine n ''gauge'' \<in> set out \<longleftrightarrow> n \<in> set seen"
    "cur = Some (''xfr_last_test_'' @ metric) \<or> ''xfr_last_test_'' @ metric \<notin> set seen" "\<forall>n. cur = Some n \<longrightarrow> n \<in> set seen"
  shows "\<exists>seen'. scan ([], None, None) (snapshot_gauge out (metric, ls, v)) = Some (seen', Some (''xfr_last_test_'' @ metric), None)
    \<and> (\<forall>n. TypeLine n ''gauge'' \<in> set (snapshot_gauge out (metric, ls, v)) \<longleftrightarrow> n \<in> set seen')
    \<and> set seen' = insert (''xfr_last_test_'' @ metric) (set seen)"
proof (cases "''xfr_last_test_'' @ metric \<in> set seen")
  case True
  then show ?thesis using assms by (auto simp: snapshot_gauge_def scan_append Let_def insert_absorb)
next
  case False
  then show ?thesis using assms by (auto simp: snapshot_gauge_def scan_append Let_def)
qed

fun grouped :: "string list \<Rightarrow> string list \<Rightarrow> bool" where
  "grouped seen [] = True"
| "grouped seen (m # ms) = ((seen \<noteq> [] \<and> m = hd seen \<and> grouped seen ms) \<or> (m \<notin> set seen \<and> grouped (m # seen) ms))"

lemma snapshot_gauges_scan:
  assumes "scan ([], None, None) out = Some (seen, cur, None)" "\<forall>n. TypeLine n ''gauge'' \<in> set out \<longleftrightarrow> n \<in> set seen"
    "set seen = (\<lambda>m. ''xfr_last_test_'' @ m) ` set ms" "cur = (if ms = [] then None else Some (''xfr_last_test_'' @ hd ms))"
    "grouped ms (map fst gs)"
  shows "\<exists>seen' cur'. scan ([], None, None) (foldl snapshot_gauge out gs) = Some (seen', cur', None)
    \<and> set seen' = (\<lambda>m. ''xfr_last_test_'' @ m) ` (set ms \<union> set (map fst gs))"
  using assms
proof (induction gs arbitrary: out seen cur ms)
  case (Cons g gs)
  obtain metric ls v where g: "g = (metric, ls, v)" by (cases g)
  have hd: "ms \<noteq> [] \<Longrightarrow> hd ms \<in> set ms" by simp
  have cases: "(ms \<noteq> [] \<and> metric = hd ms \<and> grouped ms (map fst gs)) \<or> (metric \<notin> set ms \<and> grouped (metric # ms) (map fst gs))"
    using Cons.prems(5) by (simp add: g)
  have c3: "cur = Some (''xfr_last_test_'' @ metric) \<or> ''xfr_last_test_'' @ metric \<notin> set seen"
    using cases Cons.prems(3,4) by auto
  have c4: "\<forall>n. cur = Some n \<longrightarrow> n \<in> set seen" using Cons.prems(3,4) hd by auto
  from snapshot_gauge_scan [OF Cons.prems(1,2) c3 c4, of ls v] obtain seen' where
    s: "scan ([], None, None) (snapshot_gauge out g) = Some (seen', Some (''xfr_last_test_'' @ metric), None)"
      "\<forall>n. TypeLine n ''gauge'' \<in> set (snapshot_gauge out g) \<longleftrightarrow> n \<in> set seen'" "set seen' = insert (''xfr_last_test_'' @ metric) (set seen)"
    unfolding g by blast
  define ms' where "ms' = (if metric \<in> set ms then ms else metric # ms)"
  have "metric \<in> set ms \<Longrightarrow> ms \<noteq> [] \<and> metric = hd ms" using cases by blast
  then have m: "set ms' = insert metric (set ms)" "ms' \<noteq> []" "hd ms' = metric" "grouped ms' (map fst gs)"
    using cases by (auto simp: ms'_def)
  have a: "set seen' = (\<lambda>m. ''xfr_last_test_'' @ m) ` set ms'" using s(3) Cons.prems(3) m(1) by simp
  have b: "Some (''xfr_last_test_'' @ metric) = (if ms' = [] then None else Some (''xfr_last_test_'' @ hd ms'))" using m by simp
  from Cons.IH [OF s(1,2) a b m(4)] show ?case by (simp add: g m(1))
qed auto

section \<open>Lemmas on the families\<close>

lemma names_stream_families:
  "map fm_name (stream_families show_f64 i ss) =
     (if ss = [] then [] else [''xfr_stream_bytes_total'', ''xfr_stream_throughput_mbps'', ''xfr_stream_retransmits_total''])"
  by (simp add: stream_families_def Let_def)

lemma names_tcp_families:
  "map fm_name (tcp_families show_f64 tcp) =
     (if tcp = None then [] else [''xfr_tcp_rtt_microseconds'', ''xfr_tcp_retransmits_total'', ''xfr_tcp_cwnd_bytes''])"
  by (simp add: tcp_families_def single_def split: option.split)

lemma names_udp_families:
  "map fm_name (udp_families show_f64 udp) =
     (if udp = [] then [] else [''xfr_udp_packets_sent'', ''xfr_udp_packets_received'', ''xfr_udp_packets_lost'', ''xfr_udp_jitter_ms'', ''xfr_udp_lost_percent''])"
  unfolding udp_families_def single_def Let_def by (cases "udp = []") (simp_all only: if_True if_False list.map family.simps simp_thms)

lemma names_sample_families:
  "map fm_name (sample_families show_f64 i ms b t ss tcp udp) =
     [''xfr_bytes_total'', ''xfr_throughput_mbps'', ''xfr_duration_seconds'']
     @ (if ss = [] then [] else [''xfr_stream_bytes_total'', ''xfr_stream_throughput_mbps'', ''xfr_stream_retransmits_total''])
     @ (if tcp = None then [] else [''xfr_tcp_rtt_microseconds'', ''xfr_tcp_retransmits_total'', ''xfr_tcp_cwnd_bytes''])
     @ (if udp = [] then [] else [''xfr_udp_packets_sent'', ''xfr_udp_packets_received'', ''xfr_udp_packets_lost'', ''xfr_udp_jitter_ms'', ''xfr_udp_lost_percent''])"
  unfolding sample_families_def map_append names_stream_families names_tcp_families names_udp_families by (simp add: single_def)

lemma distinct_sample_families: "distinct (map fm_name (sample_families show_f64 i ms b t ss tcp udp))"
  unfolding names_sample_families by (cases "ss = []"; cases "tcp = None"; cases "udp = []"; simp)

lemma prefix_sample_families: "\<forall>n\<in>set (map fm_name (sample_families show_f64 i ms b t ss tcp udp)). take 17 n \<noteq> ''xfr_udp_direction''"
  unfolding names_sample_families by (cases "ss = []"; cases "tcp = None"; cases "udp = []"; simp)

lemma names_direction_families:
  "map fm_name (direction_families show_f64 samples prefix) =
     map (\<lambda>(metric, help). prefix @ ''_'' @ metric)
       (filter (\<lambda>(metric, help). List.map_filter (\<lambda>s. map_option (\<lambda>v. (direction_labels metric s, v)) (direction_value show_f64 metric s)) samples \<noteq> [])
          UDP_DIRECTION_METRICS)"
proof -
  have "map fm_name (List.map_filter (\<lambda>(metric, help). let rows = r metric in if rows = [] then None
           else Some \<lparr>fm_name = prefix @ ''_'' @ metric, fm_help = help, fm_type = ''gauge'', fm_samples = rows\<rparr>) xs)
      = map (\<lambda>(metric, help). prefix @ ''_'' @ metric) (filter (\<lambda>(metric, help). r metric \<noteq> []) xs)" for r and xs :: "(string \<times> string) list"
    by (induction xs) (auto simp: List.map_filter_simps Let_def)
  then show ?thesis unfolding direction_families_def .
qed

lemma distinct_direction_families: "distinct (map fm_name (direction_families show_f64 samples prefix))"
proof -
  have "distinct (map (\<lambda>(metric, help). prefix @ ''_'' @ metric) UDP_DIRECTION_METRICS)" by (simp add: UDP_DIRECTION_METRICS_def)
  then show ?thesis unfolding names_direction_families by (rule distinct_map_filter)
qed

lemma direction_family_names:
  assumes "n \<in> set (map fm_name (direction_families show_f64 samples prefix))"
  shows "\<exists>m\<in>fst ` set UDP_DIRECTION_METRICS. n = prefix @ ''_'' @ m"
proof -
  from assms obtain metric h where m: "(metric, h) \<in> set UDP_DIRECTION_METRICS" "n = prefix @ ''_'' @ metric"
    unfolding names_direction_families by auto
  have "metric \<in> fst ` set UDP_DIRECTION_METRICS" using m(1) by force
  then show ?thesis using m(2) by blast
qed

lemma scan_format_samples:
  "\<exists>seen cur. scan ([], None, None) (format_samples show_f64 i ms b t ss tcp udp) = Some (seen, cur, None)
     \<and> (\<forall>n\<in>set seen. take 17 n \<noteq> ''xfr_udp_direction'')"
proof -
  let ?fs = "sample_families show_f64 (escape_label i) ms b t ss tcp udp"
  obtain cur where "scan ([], None, None) (concat (map family_lines ?fs)) = Some (rev (map fm_name ?fs) @ [], cur, None)"
    using scan_families [of ?fs "[]" None] distinct_sample_families by auto
  then have "scan ([], None, None) (format_samples show_f64 i ms b t ss tcp udp) = Some (rev (map fm_name ?fs), cur, None)"
    unfolding format_samples_def by simp
  moreover have "\<forall>n\<in>set (rev (map fm_name ?fs)). take 17 n \<noteq> ''xfr_udp_direction''"
    using prefix_sample_families [of show_f64 "escape_label i" ms b t ss tcp udp] unfolding set_rev .
  ultimately show ?thesis by blast
qed

lemma scan_directions:
  assumes "\<forall>m\<in>fst ` set UDP_DIRECTION_METRICS. prefix @ ''_'' @ m \<notin> set seen"
  shows "\<exists>seen' cur'. scan (seen, cur, None) (append_udp_directions_named show_f64 samples prefix) = Some (seen', cur', None)"
proof -
  have "set (map fm_name (direction_families show_f64 samples prefix)) \<inter> set seen = {}"
    using assms direction_family_names by blast
  from scan_families [OF distinct_direction_families this] show ?thesis unfolding append_udp_directions_named_def by blast
qed

lemma well_formedI: "scan ([], None, None) ls = Some (seen, cur, None) \<Longrightarrow> well_formed ls"
  by (simp add: well_formed_def)

lemma well_formed_samples_directions:
  "well_formed (format_samples show_f64 i ms b t ss tcp udp @ append_udp_directions_named show_f64 samples ''xfr_udp_direction'')"
  "well_formed (format_samples show_f64 i ms b t ss tcp udp)"
proof -
  obtain seen cur where s: "scan ([], None, None) (format_samples show_f64 i ms b t ss tcp udp) = Some (seen, cur, None)"
    "\<forall>n\<in>set seen. take 17 n \<noteq> ''xfr_udp_direction''" using scan_format_samples by blast
  have "take 17 (''xfr_udp_direction'' @ ''_'' @ m) = ''xfr_udp_direction''" for m by simp
  then have "\<forall>m\<in>fst ` set UDP_DIRECTION_METRICS. ''xfr_udp_direction'' @ ''_'' @ m \<notin> set seen" using s(2) by metis
  from scan_directions [OF this, of cur show_f64 samples] obtain seen' cur' where
    "scan (seen, cur, None) (append_udp_directions_named show_f64 samples ''xfr_udp_direction'') = Some (seen', cur', None)" by blast
  then show "well_formed (format_samples show_f64 i ms b t ss tcp udp @ append_udp_directions_named show_f64 samples ''xfr_udp_direction'')"
    using s(1) by (intro well_formedI) (simp add: scan_append)
  show "well_formed (format_samples show_f64 i ms b t ss tcp udp)" using s(1) by (rule well_formedI)
qed

text \<open>The gauges of a snapshot come family by family.\<close>

lemma fst_result_gauges:
  "map fst (result_gauges show_f64 r) = [''bytes'', ''throughput_mbps'', ''duration_seconds'', ''streams'', ''tcp_info_available'']
     @ (if tr_tcp_info r = None then [] else [''tcp_rtt_microseconds'', ''tcp_retransmits'', ''tcp_cwnd_bytes''])"
  by (simp add: result_gauges_def split: option.split)

lemma fst_flag_gauges:
  "map fst (flag_gauges samples) = replicate (length samples) ''udp_direction_available''
     @ replicate (length samples) ''udp_direction_quality_available'' @ replicate (length samples) ''udp_direction_jitter_available''"
  by (simp add: flag_gauges_def comp_def map_replicate_const)

lemma length_result_directions: "length (result_directions r d) = 1 \<or> length (result_directions r d) = 2"
  by (simp add: result_directions_def)

lemma grouped_distinct: "distinct (xs @ seen) \<Longrightarrow> grouped (rev xs @ seen) ys \<Longrightarrow> grouped seen (xs @ ys)"
  by (induction xs arbitrary: seen) auto

lemma grouped_same: "grouped (m # seen) ys \<Longrightarrow> grouped (m # seen) (replicate n m @ ys)"
  by (induction n) auto

lemma grouped_replicate: "0 < n \<Longrightarrow> m \<notin> set seen \<Longrightarrow> grouped (m # seen) ys \<Longrightarrow> grouped seen (replicate n m @ ys)"
  using grouped_same by (cases n) auto

lemma grouped_snapshot:
  assumes "0 < n"
  shows "grouped [] (map fst (result_gauges show_f64 r))"
    "grouped [] (map fst (result_gauges show_f64 r)
       @ replicate n ''udp_direction_available'' @ replicate n ''udp_direction_quality_available'' @ replicate n ''udp_direction_jitter_available'')"
proof -
  let ?g = "map fst (result_gauges show_f64 r)"
  have d: "distinct (''udp_direction_jitter_available'' # ''udp_direction_quality_available'' # ''udp_direction_available'' # ?g)"
    unfolding fst_result_gauges by (cases "tr_tcp_info r = None") simp_all
  then show "grouped [] ?g" using grouped_distinct [of ?g "[]" "[]"] by simp
  have "grouped (rev ?g) (replicate n ''udp_direction_available'' @ replicate n ''udp_direction_quality_available'' @ replicate n ''udp_direction_jitter_available'' @ [])"
    by (intro grouped_replicate assms) (use d in simp_all)
  then show "grouped [] (?g @ replicate n ''udp_direction_available'' @ replicate n ''udp_direction_quality_available'' @ replicate n ''udp_direction_jitter_available'')"
    using grouped_distinct [of ?g "[]"] d by simp
qed

lemma gauges_from_start:
  assumes "grouped [] (map fst gs)"
  shows "\<exists>seen cur. scan ([], None, None) (foldl snapshot_gauge [] gs) = Some (seen, cur, None)
    \<and> set seen = (\<lambda>m. ''xfr_last_test_'' @ m) ` set (map fst gs)"
  using snapshot_gauges_scan [of "[]" "[]" None "[]" gs] assms by simp

lemma append_in_image: "(p @ y \<in> (\<lambda>m. p @ m) ` S) = (y \<in> S)"
  by auto

lemma scan_snapshot:
  "\<exists>seen cur. scan ([], None, None) (format_snapshot show_f64 c r) = Some (seen, cur, None)"
proof (cases "\<exists>direction. pg_test c = Some (Udp, direction)")
  case True
  then obtain direction where t: "pg_test c = Some (Udp, direction)" by blast
  let ?samples = "result_directions r direction"
  let ?gs = "result_gauges show_f64 r @ flag_gauges ?samples"
  have g: "grouped [] (map fst ?gs)"
    unfolding map_append fst_flag_gauges
    by (rule grouped_snapshot) (use length_result_directions [of r direction] in auto)
  obtain seen cur where
    s: "scan ([], None, None) (foldl snapshot_gauge [] ?gs) = Some (seen, cur, None)"
      "set seen = (\<lambda>m. ''xfr_last_test_'' @ m) ` set (map fst ?gs)" using gauges_from_start [OF g] by blast
  have fresh: "\<forall>m\<in>fst ` set UDP_DIRECTION_METRICS. ''udp_direction'' @ ''_'' @ m \<notin> set (map fst ?gs)"
    unfolding map_append fst_result_gauges fst_flag_gauges UDP_DIRECTION_METRICS_def by (cases "tr_tcp_info r = None") simp_all
  have pre: "''xfr_last_test_udp_direction'' @ x = ''xfr_last_test_'' @ (''udp_direction'' @ x)" for x by simp
  have "\<forall>m\<in>fst ` set UDP_DIRECTION_METRICS. ''xfr_last_test_udp_direction'' @ ''_'' @ m \<notin> set seen"
    unfolding s(2) pre append_in_image by (rule fresh)
  from scan_directions [OF this, of cur show_f64 "map drop_partial ?samples"] show ?thesis
    using s(1) by (simp only: format_snapshot_def Let_def t option.case prod.case Protocol.Protocol.case foldl_append [symmetric] scan_append
        Option.bind.bind_lunit)
next
  case False
  then have "format_snapshot show_f64 c r = foldl snapshot_gauge [] (result_gauges show_f64 r)"
    by (auto simp: format_snapshot_def Let_def split: option.splits prod.splits Protocol.Protocol.splits)
  moreover have "grouped [] (map fst (result_gauges show_f64 r))" by (rule grouped_snapshot(1) [of 1]) simp
  ultimately show ?thesis using gauges_from_start by (metis (no_types))
qed

text \<open>Escaped text can be put between quotes on one line and is read back.\<close>

lemma unescape_escape_append: "unescape_label (escape_label s) = s"
proof (induction s)
  case (Cons c s)
  have e: "escape_label (c # s) = escape_char c @ escape_label s" by (simp add: escape_label_def)
  show ?case
  proof (cases "of_char c = (92::nat) \<or> of_char c = (34::nat) \<or> of_char c = (10::nat)")
    case True
    moreover have "of_char c = (10::nat) \<longrightarrow> char_of (10::nat) = c" by (metis char_of_char)
    ultimately show ?thesis using Cons e by (auto simp: escape_char_def)
  next
    case False
    then have "escape_label (c # s) = c # escape_label s" using e by (simp add: escape_char_def)
    then show ?thesis using Cons False by (cases "escape_label s") auto
  qed
qed (simp add: escape_label_def)

lemma escape_label_chars: "c \<in> set (escape_label s) \<Longrightarrow> of_char c \<noteq> (10::nat)"
  by (auto simp: escape_label_def escape_char_def split: if_splits)

section \<open>Properties\<close>

text \<open>C26: whatever is pushed, for a finished result, a snapshot under a stable job or the server's own counters, is
  well-formed exposition text: every family is declared once, help and type together, and all its samples follow
  before the next family, whether or not TCP, UDP or directional measurements are there.\<close>

theorem exposition_well_formed:
  "well_formed (format_result show_f64 c r) \<and> well_formed (format_snapshot show_f64 c r) \<and> well_formed (format_metrics show_f64 info c t now)"
proof (intro conjI)
  show "well_formed (format_result show_f64 c r)"
    unfolding format_result_def using well_formed_samples_directions
    by (simp split: option.split prod.split Protocol.Protocol.split)
  show "well_formed (format_snapshot show_f64 c r)" using scan_snapshot well_formedI by blast
  show "well_formed (format_metrics show_f64 info c t now)"
    unfolding format_metrics_def Let_def using well_formed_samples_directions
    by (simp only: append_Nil2 split: option.split prod.split Protocol.Protocol.split) simp
qed

end
