(* ===== verification/Client_Plain.thy ===== *)
theory Client_Plain
  imports Cli Client_Run Text_Output Push_Metrics
begin

text \<open>
  A client run without the terminal interface (\<open>run_client_plain\<close> of \<open>src/main.rs\<close>): the task that prints interval rows,
  the race between the test and an interrupt, and what happens to the result. The readings of the clock and what the
  test sends are inputs. \<open>show_f64\<close>, \<open>calendar\<close> and the JSON writers are the library's; a writer may fail.
\<close>

section \<open>Interval rows\<close>

record plain_env =
  pe_opts :: OutputOptions
  pe_timestamp :: "instant \<Rightarrow> string"
  pe_show_f64 :: "f64 \<Rightarrow> string"
  pe_to_json :: "json \<Rightarrow> string option"

text \<open>\<open>Duration::from_secs_f64\<close> rounds to nanoseconds, ties to even.\<close>

definition from_secs_f64 :: "real \<Rightarrow> duration" where
  "from_secs_f64 x = nat (round_half_even (x * 1000000000))"

definition mul_f64 :: "duration \<Rightarrow> real \<Rightarrow> duration" where
  "mul_f64 d x = from_secs_f64 (x * (real d / 1000000000))"

record row_state =
  ps_last_printed_interval :: int
  ps_last_retransmits :: u64
  ps_cached_udp_progress :: "UdpIntervalProgress option"
  ps_cached_udp_send :: "UdpDirectionProgress option"
  ps_cached_udp_recv :: "UdpDirectionProgress option"
  ps_last_printed_cumulative_lost :: u64
  ps_last_row_at :: instant
  ps_last_feedback_row_at :: instant
  ps_cumulative_bytes :: u64
  ps_cumulative_elapsed_ms :: u64

definition print_init :: "instant \<Rightarrow> row_state" where
  "print_init start = \<lparr>ps_last_printed_interval = - 1, ps_last_retransmits = 0, ps_cached_udp_progress = None, ps_cached_udp_send = None,
     ps_cached_udp_recv = None, ps_last_printed_cumulative_lost = 0, ps_last_row_at = start, ps_last_feedback_row_at = start,
     ps_cumulative_bytes = 0, ps_cumulative_elapsed_ms = 0\<rparr>"

definition interval_retransmits :: "TestProgress \<Rightarrow> u64 \<Rightarrow> u64 option \<times> u64" where
  "interval_retransmits p last_retransmits =
     (case tp_total_retransmits p of
        Some cumulative \<Rightarrow> (Some (saturating_sub cumulative last_retransmits), cumulative)
      | None \<Rightarrow>
          (if list_ex (\<lambda>s. si_retransmits s \<noteq> None) (tp_streams p)
           then Some (sum_list (List.map_filter si_retransmits (tp_streams p))) else None, last_retransmits))"

text \<open>The freshest measurements: a direction's as \<open>cache_udp_direction\<close> says, a full interval shows what either channel
  brought, and a late snapshot does not undo a repair.\<close>

definition take_freshest :: "TestProgress \<Rightarrow> row_state \<Rightarrow> TestProgress \<times> row_state" where
  "take_freshest p st =
     (let (send_cache, send) = cache_udp_direction (ps_cached_udp_send st) (tp_udp_send p);
          (recv_cache, recv) = cache_udp_direction (ps_cached_udp_recv st) (tp_udp_recv p);
          p = p\<lparr>tp_udp_send := send, tp_udp_recv := recv\<rparr>;
          p = (if \<not> tp_udp_feedback_only p then p\<lparr>tp_udp_send := send_cache, tp_udp_recv := recv_cache\<rparr> else p)
      in (p, st\<lparr>ps_cached_udp_send := send_cache, ps_cached_udp_recv := recv_cache,
                ps_cached_udp_progress :=
                  (case tp_udp_progress p of
                     Some u \<Rightarrow> if (case ps_cached_udp_progress st of None \<Rightarrow> True | Some previous \<Rightarrow> is_at_least_as_fresh_as u previous)
                              then Some u else ps_cached_udp_progress st
                   | None \<Rightarrow> ps_cached_udp_progress st)\<rparr>))"

definition elapsed_secs_of :: "TestProgress \<Rightarrow> f64" where
  "elapsed_secs_of p = u64_as_f64 (tp_elapsed_ms p) / 1000"

definition quiet_of :: "OutputOptions \<Rightarrow> bool" where
  "quiet_of opts = (oo_quiet opts \<or> oo_json opts)"

definition row_period :: "OutputOptions \<Rightarrow> duration" where
  "row_period opts = from_secs_f64 (max (oo_interval_secs opts) 1)"

definition stalled :: "OutputOptions \<Rightarrow> TestProgress \<Rightarrow> instant \<Rightarrow> row_state \<Rightarrow> bool" where
  "stalled opts p now st \<longleftrightarrow>
     mul_f64 (row_period opts) 1.9 \<le> now - ps_last_row_at st
     \<and> mul_f64 (row_period opts) 0.9 \<le> now - ps_last_feedback_row_at st
     \<and> u64_as_f64 (oo_omit_secs opts) < elapsed_secs_of p"

text \<open>A feedback-only update prints a line of its own when rows have stalled; CSV has none.\<close>

definition feedback_line :: "plain_env \<Rightarrow> TestProgress \<Rightarrow> UdpIntervalProgress option \<Rightarrow> instant \<Rightarrow> string option" where
  "feedback_line e p cum now =
     (let ts = pe_timestamp e now; directional = (tp_udp_send p \<noteq> None \<or> tp_udp_recv p \<noteq> None)
      in if oo_json_stream (pe_opts e)
         then map_option line (pe_to_json e
                (if directional then directional_feedback_json ts (elapsed_secs_of p) (tp_udp_send p) (tp_udp_recv p)
                 else feedback_json ts (elapsed_secs_of p) (the cum)))
         else Some (if directional then output_directional_feedback_plain ts (tp_udp_send p) (tp_udp_recv p)
                    else output_feedback_plain ts (up_packets_lost (the cum)) (lost_percent (the cum))))"

definition feedback_step :: "plain_env \<Rightarrow> TestProgress \<Rightarrow> instant \<Rightarrow> row_state \<Rightarrow> string list \<times> row_state" where
  "feedback_step e p now st =
     (let opts = pe_opts e; directional = (tp_udp_send p \<noteq> None \<or> tp_udp_recv p \<noteq> None)
      in if \<not> quiet_of opts \<and> \<not> oo_csv opts \<and> (directional \<or> ps_cached_udp_progress st \<noteq> None) \<and> stalled opts p now st
         then (case feedback_line e p (ps_cached_udp_progress st) now of
                 Some l \<Rightarrow> ([l], st\<lparr>ps_last_feedback_row_at := now\<rparr>)
               | None \<Rightarrow> ([], st))
         else ([], st))"

definition average_jitter :: "TestProgress \<Rightarrow> f64 option" where
  "average_jitter p =
     (let js = List.map_filter si_jitter_ms (tp_streams p)
      in if js = [] then None else Some (sum_list js / real (length js)))"

text \<open>The losses since the last printed row, and the count that is now printed.\<close>

definition interval_lost :: "TestProgress \<Rightarrow> UdpIntervalProgress option \<Rightarrow> u64 \<Rightarrow> u64 option \<times> u64" where
  "interval_lost p cached last_lost =
     (case cached of
        Some cum \<Rightarrow> (Some (saturating_sub (up_packets_lost cum) last_lost), up_packets_lost cum)
      | None \<Rightarrow>
          (if list_ex (\<lambda>s. si_lost s \<noteq> None) (tp_streams p)
           then Some (sum_list (List.map_filter si_lost (tp_streams p))) else None, last_lost))"

text \<open>\<open>floor\<close>, then a cast to \<open>i64\<close>, which saturates.\<close>

definition interval_number :: "OutputOptions \<Rightarrow> TestProgress \<Rightarrow> int" where
  "interval_number opts p = min (2 ^ 63 - 1) \<lfloor>elapsed_secs_of p / oo_interval_secs opts\<rfloor>"

definition row_text :: "plain_env \<Rightarrow> interval_row \<Rightarrow> string option" where
  "row_text e r =
     (if oo_json_stream (pe_opts e) then map_option line (pe_to_json e (interval_json r))
      else if oo_csv (pe_opts e) then Some (output_interval_csv_with_udp_directions (pe_show_f64 e) r)
      else Some (output_interval_plain_with_udp_directions (ir_timestamp r) (ir_throughput_mbps r) (ir_bytes r) (ir_retransmits r)
                   (ir_jitter_ms r) (ir_lost r) (ir_rtt_us r) (ir_udp_send r) (ir_udp_recv r)))"

definition make_row :: "plain_env \<Rightarrow> TestProgress \<Rightarrow> u64 option \<Rightarrow> u64 option \<Rightarrow> instant \<Rightarrow> interval_row" where
  "make_row e p retransmits lost now =
     \<lparr>ir_timestamp = pe_timestamp e now, ir_elapsed_secs = elapsed_secs_of p, ir_throughput_mbps = tp_throughput_mbps p,
      ir_bytes = tp_total_bytes p, ir_retransmits = retransmits, ir_jitter_ms = average_jitter p, ir_lost = lost,
      ir_rtt_us = tp_rtt_us p, ir_cwnd = tp_cwnd p, ir_bytes_sent = tp_bytes_sent p, ir_bytes_received = tp_bytes_received p,
      ir_throughput_send_mbps = tp_throughput_send_mbps p, ir_throughput_recv_mbps = tp_throughput_recv_mbps p,
      ir_udp_send = tp_udp_send p, ir_udp_recv = tp_udp_recv p\<rparr>"

text \<open>A full interval: counted for the fallback, left out while omitted (the losses until then are not shown later), and
  printed once per configured interval. The row is given beside its text.\<close>

definition full_step :: "plain_env \<Rightarrow> TestProgress \<Rightarrow> instant \<Rightarrow> instant \<Rightarrow> row_state
    \<Rightarrow> (interval_row option \<times> string list) \<times> row_state" where
  "full_step e p now after st =
     (let opts = pe_opts e;
          (retransmits, last_r) = interval_retransmits p (ps_last_retransmits st);
          st = st\<lparr>ps_cumulative_bytes := ps_cumulative_bytes st + tp_total_bytes p, ps_cumulative_elapsed_ms := tp_elapsed_ms p,
                  ps_last_retransmits := last_r\<rparr>
      in if elapsed_secs_of p \<le> u64_as_f64 (oo_omit_secs opts)
         then ((None, []), case ps_cached_udp_progress st of Some cum \<Rightarrow> st\<lparr>ps_last_printed_cumulative_lost := up_packets_lost cum\<rparr> | None \<Rightarrow> st)
         else if quiet_of opts then ((None, []), st)
         else if interval_number opts p \<le> ps_last_printed_interval st then ((None, []), st)
         else
           (let (lost, last_lost) = interval_lost p (ps_cached_udp_progress st) (ps_last_printed_cumulative_lost st);
                st = st\<lparr>ps_last_printed_interval := interval_number opts p, ps_last_printed_cumulative_lost := last_lost\<rparr>;
                row = make_row e p retransmits lost now
            in case row_text e row of
                 None \<Rightarrow> ((None, []), st)
               | Some text \<Rightarrow> ((Some row, [text]), st\<lparr>ps_last_row_at := after\<rparr>)))"

text \<open>What the test sends, with the clock's readings while it is handled.\<close>

type_synonym print_event = "TestProgress \<times> instant \<times> instant"

definition print_step :: "plain_env \<Rightarrow> print_event \<Rightarrow> row_state \<Rightarrow> (interval_row option \<times> string list) \<times> row_state" where
  "print_step e ev st =
     (case ev of (p, now, after) \<Rightarrow>
       (case take_freshest p st of (p, st) \<Rightarrow>
          if tp_udp_feedback_only p
          then (case feedback_step e p now st of (out, st) \<Rightarrow> ((None, out), st))
          else full_step e p now after st))"

fun print_loop :: "plain_env \<Rightarrow> print_event list \<Rightarrow> row_state \<Rightarrow> interval_row list \<times> string list \<times> row_state" where
  "print_loop e [] st = ([], [], st)"
| "print_loop e (ev # evs) st =
     (case print_step e ev st of ((row, out), st') \<Rightarrow>
       (case print_loop e evs st' of (rows, outs, st'') \<Rightarrow>
          (case row of Some r \<Rightarrow> r # rows | None \<Rightarrow> rows, out @ outs, st'')))"

section \<open>The end of the test\<close>

definition build_fallback_result :: "u64 \<Rightarrow> u64 \<Rightarrow> TestResult" where
  "build_fallback_result cumulative_bytes ms =
     \<lparr>tr_id = [], tr_bytes_total = cumulative_bytes, tr_duration_ms = ms,
      tr_throughput_mbps = (if 0 < ms then u64_as_f64 cumulative_bytes * 8 / (u64_as_f64 ms / 1000) / 1000000 else 0),
      tr_streams = [], tr_tcp_info = None, tr_udp_stats = None, tr_udp_stats_send = None, tr_udp_stats_recv = None,
      tr_bytes_sent = None, tr_bytes_received = None, tr_throughput_send_mbps = None, tr_throughput_recv_mbps = None,
      tr_mtu_probe = None, tr_server_udp_send_errors = None, tr_client_udp_send_errors = None, tr_zero_byte_streams = None\<rparr>"

text \<open>How the test ends: by itself, or interrupted; then with the server's result after all, without one (an error or five
  seconds without an answer), or by a second interrupt. \<open>n\<close> is how many progress updates had been printed when the
  fallback was built.\<close>

datatype test_end =
    TestReturned "string + TestResult"
  | StoppedWithResult TestResult
  | StoppedWithout nat
  | InterruptedTwice

datatype plain_exit = ExitOk | ExitCode nat | ExitErr string

record plain_world =
  pw_json_compact :: "TestResult \<Rightarrow> string option"
  pw_json_pretty :: "TestResult \<Rightarrow> string option"
  pw_write_stdout :: "io_kind option"
  pw_broken_pipe :: bool
  pw_save :: "string \<Rightarrow> string \<Rightarrow> string + unit"

text \<open>What is left behind: the text written to standard output, the file saved, the result handed to the metrics, the exit.\<close>

record plain_outcome =
  po_stdout :: "string list"
  po_saved :: "(string \<times> string) option"
  po_result :: "TestResult option"
  po_exit :: plain_exit

definition result_text :: "plain_world \<Rightarrow> OutputOptions \<Rightarrow> bool \<Rightarrow> TestResult \<Rightarrow> string option" where
  "result_text w opts mptcp r =
     (if oo_json_stream opts then pw_json_compact w r
      else if oo_json opts then pw_json_pretty w r
      else if oo_csv opts then Some (output_csv r)
      else Some (output_plain r mptcp))"

text \<open>Saving comes after the result has been shown; a reader that closed the pipe does not prevent it.\<close>

definition save_result :: "plain_world \<Rightarrow> OutputOptions \<Rightarrow> string option \<Rightarrow> TestResult \<Rightarrow> string \<Rightarrow> string + (string \<times> string) option" where
  "save_result w opts file r shown =
     (case file of
        None \<Rightarrow> Ok None
      | Some path \<Rightarrow>
          (case (if oo_csv opts then Some shown else pw_json_pretty w r) of
             None \<Rightarrow> Err ''serialize''
           | Some content \<Rightarrow> (case pw_save w path content of Err e \<Rightarrow> Err e | Ok _ \<Rightarrow> Ok (Some (path, content)))))"

definition finish_plain :: "plain_world \<Rightarrow> OutputOptions \<Rightarrow> bool \<Rightarrow> string option \<Rightarrow> string list \<Rightarrow> TestResult \<Rightarrow> bool \<Rightarrow> plain_outcome" where
  "finish_plain w opts mptcp file printed r interrupted =
     (case result_text w opts mptcp r of
        None \<Rightarrow> \<lparr>po_stdout = printed, po_saved = None, po_result = None, po_exit = ExitErr ''serialize''\<rparr>
      | Some shown \<Rightarrow>
          if pw_write_stdout w \<noteq> None \<and> \<not> pw_broken_pipe w
          then \<lparr>po_stdout = printed, po_saved = None, po_result = None, po_exit = ExitErr ''stdout''\<rparr>
          else
            (let out = printed @ (if pw_write_stdout w = None then [line shown] else [])
             in case (if interrupted then Ok None else save_result w opts file r shown) of
                  Err e \<Rightarrow> \<lparr>po_stdout = out, po_saved = None, po_result = None, po_exit = ExitErr e\<rparr>
                | Ok saved \<Rightarrow>
                    if interrupted then \<lparr>po_stdout = out, po_saved = saved, po_result = None, po_exit = ExitCode 130\<rparr>
                    else \<lparr>po_stdout = out, po_saved = saved, po_result = Some r, po_exit = ExitOk\<rparr>))"

definition csv_start :: "OutputOptions \<Rightarrow> string list" where
  "csv_start opts = (if oo_csv opts \<and> \<not> oo_quiet opts then [csv_interval_header] else [])"

definition run_client_plain :: "plain_env \<Rightarrow> plain_world \<Rightarrow> bool \<Rightarrow> string option \<Rightarrow> instant \<Rightarrow> print_event list \<Rightarrow> test_end \<Rightarrow> plain_outcome" where
  "run_client_plain e w mptcp file start evs test_end =
     (let opts = pe_opts e; (rows, out, st) = print_loop e evs (print_init start); printed = csv_start opts @ out
      in case test_end of
           TestReturned (Err m) \<Rightarrow> \<lparr>po_stdout = printed, po_saved = None, po_result = None, po_exit = ExitErr m\<rparr>
         | TestReturned (Ok r) \<Rightarrow> finish_plain w opts mptcp file printed r False
         | StoppedWithResult r \<Rightarrow> finish_plain w opts mptcp file printed r False
         | StoppedWithout n \<Rightarrow>
             (case print_loop e (take n evs) (print_init start) of (_, out_n, st_n) \<Rightarrow>
                if ps_cumulative_bytes st_n = 0
                then \<lparr>po_stdout = csv_start opts @ out_n, po_saved = None, po_result = None, po_exit = ExitCode 130\<rparr>
                else finish_plain w opts mptcp file printed (build_fallback_result (ps_cumulative_bytes st_n) (ps_cumulative_elapsed_ms st_n)) True)
         | InterruptedTwice \<Rightarrow> \<lparr>po_stdout = printed, po_saved = None, po_result = None, po_exit = ExitCode 130\<rparr>)"

section \<open>Metrics of the client\<close>

text \<open>Deliveries run in the background; at the end the client waits for those that are pending, unless it is interrupted.
  The outcomes arrive in some order; \<open>None\<close> is the interrupt, \<open>Err\<close> a task that failed.\<close>

definition metrics_message :: "string + string \<Rightarrow> string" where
  "metrics_message outcome = (case outcome of Ok m \<Rightarrow> m | Err e \<Rightarrow> ''Warning: metrics task failed: '' @ e)"

definition metrics_outcome :: "TestResult \<Rightarrow> push_error + unit \<Rightarrow> (push_error \<Rightarrow> string) \<Rightarrow> string" where
  "metrics_outcome r delivered show_error =
     (let i = sanitize_message (tr_id r)
      in case delivered of
           Ok _ \<Rightarrow> ''Metrics pushed for test '' @ i
         | Err e \<Rightarrow> ''Warning: metrics delivery for test '' @ i @ '' was not confirmed: '' @ show_error e)"

text \<open>\<open>queue\<close>: the request of a delivery, if there is a gateway.\<close>

definition metrics_queue :: "(f64 \<Rightarrow> string) \<Rightarrow> (string \<Rightarrow> string) \<Rightarrow> PushGatewayClient option \<Rightarrow> TestResult \<Rightarrow> Protocol \<times> Protocol.Direction
    \<Rightarrow> (push_error + push_request) option" where
  "metrics_queue show_f64 base64 gateway r test =
     (case gateway of
        None \<Rightarrow> None
      | Some g \<Rightarrow> Some (push_test_result show_f64 base64 (with_test g (fst test) (snd test)) r))"

fun metrics_finish :: "nat \<Rightarrow> (string + string) option list \<Rightarrow> string list" where
  "metrics_finish 0 evs = []"
| "metrics_finish (Suc pending) [] = []"
| "metrics_finish (Suc pending) (None # evs) = [''Warning: metrics delivery not confirmed; test results are preserved.'']"
| "metrics_finish (Suc pending) (Some outcome # evs) = metrics_message outcome # metrics_finish pending evs"

end
