(* ===== verification/Cli_Correct.thy ===== *)
theory Cli_Correct
  imports Cli
begin

text \<open>
  What the setup guarantees: a configuration that it lets through is one that the client or the server accepts, and the
  command line decides over the file.
\<close>

section \<open>Lemmas\<close>

lemma parse_test_duration_range:
  "parse_test_duration humantime s = Ok d \<Longrightarrow> as_secs d \<le> unat (umax :: u32)"
  by (auto simp: parse_test_duration_def as_secs_def split: sum.splits if_splits)

lemma parse_byte_budget_pos: "parse_byte_budget s = Ok n \<Longrightarrow> n \<noteq> 0"
  by (auto simp: parse_byte_budget_def split: sum.splits if_splits)

lemma effective_psk_valid: "effective_psk read_key f p config = Ok (Some k) \<Longrightarrow> validate_psk k = Ok ()"
  by (auto simp: effective_psk_def split: sum.splits option.splits)

lemma resolve_client_port_nonzero: "resolve_client_port t c e f = Ok p \<Longrightarrow> p \<noteq> 0"
  by (auto simp: resolve_client_port_def Let_def split: option.splits if_splits)

lemma resolve_parallel_streams_range: "resolve_parallel_streams c f = Ok n \<Longrightarrow> 1 \<le> n \<and> n \<le> 128"
  by (auto simp: resolve_parallel_streams_def Let_def split: if_splits)

lemma client_bind_ok:
  assumes "client_bind ifs opts protocol streams family = Ok bind"
  shows "rn_cport opts = Some p \<Longrightarrow> p \<noteq> 0 \<and> (\<exists>a. bind = Some a \<and> addr_port a = p)
           \<and> (protocol \<noteq> QuicProto \<and> 1 < streams \<longrightarrow> unat p + unat streams - 1 \<le> 65535)"
    "bind = Some a \<Longrightarrow> addr_port a \<noteq> 0 \<Longrightarrow> rn_cport opts = None \<Longrightarrow> protocol \<noteq> Tcp \<and> streams \<le> 1"
  using assms
  by (auto simp: client_bind_def merge_cport_def validate_bind_address_def split: option.splits sum.splits if_splits)

text \<open>A successful setup is the sequence of its successful steps.\<close>

lemma client_config_Ok:
  assumes "client_config w c cf = Ok (cfg, opts)"
  shows "\<exists>host. ci_host c = Some host
    \<and> resolve_client_network_options (ci_bitrate c) (ci_congestion c) (ci_dscp c) (ci_interval c) (ci_bind c) (ci_cport c) (cf_client cf) = Ok opts
    \<and> resolve_parallel_streams (ci_parallel c) (cd_parallel_streams (cf_client cf)) = Ok (cl_streams cfg)
    \<and> effective_psk (wo_read_key w) (ci_psk_file c) (ci_psk c) (cd_psk (cf_client cf)) = Ok (cl_psk cfg)
    \<and> client_bind (wo_if_nametoindex w) opts (cl_protocol cfg) (cl_streams cfg) (cl_address_family cfg) = Ok (cl_bind_addr cfg)
    \<and> client_target c cf host = Ok (cl_host cfg, cl_port cfg)
    \<and> cl_protocol cfg = client_protocol c \<and> cl_duration cfg = resolve_client_duration (ci_time c) (ci_probe_mtu c) (ci_bytes c) cf
    \<and> cl_udp_payload_size cfg = ci_udp_payload_size c \<and> cl_mtu_probe cfg = ci_probe_mtu c \<and> cl_byte_budget cfg = ci_bytes c
    \<and> cl_sequential_ports cfg = (cl_protocol cfg \<noteq> QuicProto \<and> rn_cport opts \<noteq> None \<and> 1 < cl_streams cfg)
    \<and> cl_zerocopy cfg = effective_zerocopy c"
  using assms unfolding client_config_def Let_def
  by (auto split: option.splits sum.splits if_splits prod.splits)


section \<open>Properties\<close>

text \<open>C22: from arguments that the parser accepts, the setup of a client either fails or gives a configuration that the
  client's own validation accepts, the one exception being a duration in the configuration file of more seconds than
  32 bits; the port is never zero and a byte budget never empty, a port fixed for several streams leaves room for all of them,
  and a fixed local port without \<open>--cport\<close> only goes with a single stream that is not TCP.\<close>

theorem client_setup_is_valid:
  assumes "clap_accepts c" "client_config w c cf = Ok (cfg, opts)"
  shows "ClientConfig_validate cfg =
      (if ci_time c = None \<and> \<not> ci_probe_mtu c \<and> ci_bytes c = None \<and> (\<exists>n. cd_duration_secs (cf_client cf) = Some n \<and> 2 ^ 32 \<le> unat n)
       then Err DurationTooLong else Ok ())
    \<and> cl_port cfg \<noteq> 0 \<and> cl_byte_budget cfg \<noteq> Some 0
    \<and> (cl_sequential_ports cfg \<longrightarrow> (\<exists>a. cl_bind_addr cfg = Some a \<and> addr_port a \<noteq> 0 \<and> unat (addr_port a) + unat (cl_streams cfg) - 1 \<le> 65535))
    \<and> (\<forall>a. cl_bind_addr cfg = Some a \<and> addr_port a \<noteq> 0 \<and> rn_cport opts = None \<longrightarrow> cl_protocol cfg \<noteq> Tcp \<and> cl_streams cfg = 1)"
proof -
  obtain host where h: "resolve_parallel_streams (ci_parallel c) (cd_parallel_streams (cf_client cf)) = Ok (cl_streams cfg)"
    "effective_psk (wo_read_key w) (ci_psk_file c) (ci_psk c) (cd_psk (cf_client cf)) = Ok (cl_psk cfg)"
    "client_bind (wo_if_nametoindex w) opts (cl_protocol cfg) (cl_streams cfg) (cl_address_family cfg) = Ok (cl_bind_addr cfg)"
    "client_target c cf host = Ok (cl_host cfg, cl_port cfg)"
    "cl_duration cfg = resolve_client_duration (ci_time c) (ci_probe_mtu c) (ci_bytes c) cf"
    "cl_udp_payload_size cfg = ci_udp_payload_size c" "cl_mtu_probe cfg = ci_probe_mtu c" "cl_byte_budget cfg = ci_bytes c"
    "cl_sequential_ports cfg = (cl_protocol cfg \<noteq> QuicProto \<and> rn_cport opts \<noteq> None \<and> 1 < cl_streams cfg)"
    using client_config_Ok [OF assms(2)] by blast
  note streams = resolve_parallel_streams_range [OF h(1)]
  have dur: "unat (umax :: u32) < as_secs (cl_duration cfg) \<longleftrightarrow>
      ci_time c = None \<and> \<not> ci_probe_mtu c \<and> ci_bytes c = None \<and> (\<exists>n. cd_duration_secs (cf_client cf) = Some n \<and> 2 ^ 32 \<le> unat n)"
  proof (cases "ci_time c")
    case (Some d)
    then obtain ht s where "parse_test_duration ht s = Ok d" using assms(1) unfolding clap_accepts_def by metis
    then show ?thesis using Some parse_test_duration_range [of ht s d] by (simp add: h(5) resolve_client_duration_def)
  next
    case None
    then show ?thesis
      by (auto simp: h(5) resolve_client_duration_def as_secs_def from_secs_def unwrap_or_def split: option.splits)
  qed
  have len: "(case cl_udp_payload_size cfg of
                    None \<Rightarrow> Ok ()
                  | Some n \<Rightarrow> if cl_mtu_probe cfg then Err LengthWithProbe
                              else (case validate_payload_size (unat n) of Err e \<Rightarrow> Err (BadLength e) | Ok _ \<Rightarrow> Ok ())) = Ok ()"
  proof (cases "ci_udp_payload_size c")
    case (Some n)
    then have "16 \<le> n" "n \<le> 65507" "\<not> ci_probe_mtu c" using assms(1) by (auto simp: clap_accepts_def)
    then have "16 \<le> unat n" "unat n \<le> 65507" by (simp_all add: word_le_nat_alt)
    then show ?thesis using Some \<open>\<not> ci_probe_mtu c\<close> h(6,7)
      by (simp add: validate_payload_size_def UDP_HEADER_SIZE_def MAX_UDP_PAYLOAD_SIZE_def)
  qed (use h(6) in simp)
  have psk: "(case cl_psk cfg of None \<Rightarrow> Ok () | Some psk \<Rightarrow> (case validate_psk psk of Err e \<Rightarrow> Err (BadPsk e) | Ok _ \<Rightarrow> Ok ())) = Ok ()"
    using effective_psk_valid [of _ _ _ _ "the (cl_psk cfg)"] h(2) by (cases "cl_psk cfg") auto
  have valid: "ClientConfig_validate cfg = (if unat (umax :: u32) < as_secs (cl_duration cfg) then Err DurationTooLong else Ok ())"
    unfolding ClientConfig_validate_def len using streams psk by simp
  have port: "cl_port cfg \<noteq> 0"
    using h(4) resolve_client_port_nonzero by (auto simp: client_target_def Let_def split: sum.splits prod.splits)
  have budget: "cl_byte_budget cfg \<noteq> Some 0"
    using assms(1) parse_byte_budget_pos unfolding h(8) clap_accepts_def by metis
  have seq: "cl_sequential_ports cfg \<longrightarrow> (\<exists>a. cl_bind_addr cfg = Some a \<and> addr_port a \<noteq> 0 \<and> unat (addr_port a) + unat (cl_streams cfg) - 1 \<le> 65535)"
    using client_bind_ok(1) [OF h(3)] unfolding h(9) by blast
  have one: "cl_streams cfg \<le> 1 \<Longrightarrow> cl_streams cfg = 1" using streams by simp
  show ?thesis using valid port budget seq client_bind_ok(2) [OF h(3)] one unfolding dur by auto
qed

definition sample_world :: cli_world where
  "sample_world = \<lparr>wo_read_key = (\<lambda>_. Ok ''key''), wo_if_nametoindex = (\<lambda>_. 0), wo_mptcp = Ok (), wo_destination = (\<lambda>_. Ok ())\<rparr>"

definition sample_cli :: Cli where
  "sample_cli = \<lparr>ci_completions = None, ci_config = None, ci_config_from_env = False, ci_host = Some ''host'', ci_push_gateway = None, ci_push_labels = [], ci_push_job = None, ci_time = None,
     ci_bytes = None, ci_udp = True, ci_udp_payload_size = Some 1000, ci_quic = False, ci_bitrate = Some 0, ci_parallel = Some 4, ci_reverse = False,
     ci_bidir = False, ci_json = False, ci_json_stream = False, ci_csv = False, ci_quiet = False, ci_output = None, ci_no_tui = True,
     ci_no_update_check = False, ci_theme = None, ci_interval = None, ci_omit = None, ci_port = Some 7000, ci_port_on_command_line = True,
     ci_tcp_nodelay = True, ci_congestion = None, ci_dscp = None, ci_window = None, ci_timestamp_format = None, ci_log_file = None,
     ci_log_level = None, ci_psk = None, ci_psk_file = Some ''k'', ci_ipv4_only = True, ci_ipv6_only = False, ci_bind = None,
     ci_cport = Some 9000, ci_mptcp = False, ci_random = False, ci_zeros = False, ci_zerocopy = False, ci_no_zerocopy = False,
     ci_probe_mtu = False, ci_connect_timeout = None\<rparr>"

lemma sample_clap: "clap_accepts sample_cli"
  by (simp add: clap_accepts_def sample_cli_def)

lemma sample_setup:
  "\<exists>cfg opts. client_config sample_world sample_cli Config_default = Ok (cfg, opts) \<and> cl_sequential_ports cfg \<and> cl_streams cfg = 4"
  by (simp add: client_config_def sample_world_def sample_cli_def Config_default_def resolve_client_network_options_def
      validate_report_interval_def resolve_parallel_streams_def resolve_window_size_def effective_psk_def validate_psk_def MAX_PSK_LENGTH_def
      utf8_len_def is_ascii_char_def resolve_address_family_def client_bind_def merge_cport_def validate_bind_address_def client_target_def
      split_host_port_def unbracket_def split_once_one resolve_client_port_def client_protocol_def Let_def)

theorem client_setup_is_valid_witness:
  "\<exists>cfg opts. client_config sample_world sample_cli Config_default = Ok (cfg, opts) \<and> ClientConfig_validate cfg = Ok () \<and> cl_sequential_ports cfg
     \<and> (\<exists>a. cl_bind_addr cfg = Some a \<and> unat (addr_port a) + 3 \<le> 65535)"
proof -
  obtain cfg opts where s: "client_config sample_world sample_cli Config_default = Ok (cfg, opts)" "cl_sequential_ports cfg" "cl_streams cfg = 4"
    using sample_setup by blast
  have "ci_time sample_cli = None \<and> cd_duration_secs (cf_client Config_default) = None" by (simp add: sample_cli_def Config_default_def)
  with client_setup_is_valid [OF sample_clap s(1)] s show ?thesis by auto
qed

text \<open>What is given on the command line decides over the configuration file: with every setting that the file could
  supply given as an argument, two files lead to the same outcome, be it a configuration or an error.\<close>

theorem command_line_decides:
  assumes "ci_bitrate c \<noteq> None" "ci_congestion c \<noteq> None" "ci_dscp c \<noteq> None" "ci_interval c \<noteq> None" "ci_bind c \<noteq> None" "ci_cport c \<noteq> None"
    "ci_parallel c \<noteq> None" "ci_window c \<noteq> None" "ci_psk c \<noteq> None \<or> ci_psk_file c \<noteq> None" "ci_ipv4_only c \<or> ci_ipv6_only c"
    "ci_time c \<noteq> None \<or> ci_probe_mtu c \<or> ci_bytes c \<noteq> None" "ci_port c \<noteq> None" "ci_tcp_nodelay c"
  shows "client_config w c cf = client_config w c cf'"
proof -
  have n: "resolve_client_network_options (ci_bitrate c) (ci_congestion c) (ci_dscp c) (ci_interval c) (ci_bind c) (ci_cport c) (cf_client cf)
      = resolve_client_network_options (ci_bitrate c) (ci_congestion c) (ci_dscp c) (ci_interval c) (ci_bind c) (ci_cport c) (cf_client cf')"
    using assms(1-6) by (cases "ci_bitrate c"; cases "ci_congestion c"; cases "ci_dscp c"; cases "ci_interval c"; cases "ci_bind c"; cases "ci_cport c";
        simp add: resolve_client_network_options_def or_else_def split: sum.split)
  have p: "resolve_parallel_streams (ci_parallel c) f = resolve_parallel_streams (ci_parallel c) f'" for f f'
    using assms(7) by (auto simp: resolve_parallel_streams_def)
  have wn: "resolve_window_size (ci_window c) f = resolve_window_size (ci_window c) f'" for f f'
    using assms(8) by (auto simp: resolve_window_size_def)
  have k: "effective_psk r (ci_psk_file c) (ci_psk c) f = effective_psk r (ci_psk_file c) (ci_psk c) f'" for r f f'
    using assms(9) by (auto simp: effective_psk_def split: option.splits)
  have a: "resolve_address_family (ci_ipv4_only c) (ci_ipv6_only c) f = resolve_address_family (ci_ipv4_only c) (ci_ipv6_only c) f'" for f f'
    using assms(10) by (auto simp: resolve_address_family_def)
  have d: "resolve_client_duration (ci_time c) (ci_probe_mtu c) (ci_bytes c) cf = resolve_client_duration (ci_time c) (ci_probe_mtu c) (ci_bytes c) cf'"
    using assms(11) by (auto simp: resolve_client_duration_def split: option.splits)
  have t: "client_target c cf host = client_target c cf' host" for host
  proof -
    have i: "resolve_client_port t (ci_port c) e f = resolve_client_port t (ci_port c) e f'" for t e f f'
      using assms(12) by (auto simp: resolve_client_port_def or_else_def split: option.splits)
    have j: "resolve_client_port t l (ci_port c) f = resolve_client_port t l (ci_port c) f'" for t l f f'
      using assms(12) by (auto simp: resolve_client_port_def or_else_def split: option.splits)
    show ?thesis
    proof (cases "split_host_port host")
      case (Inr hp)
      show ?thesis
        by (cases hp; cases "ci_port_on_command_line c")
          (simp_all add: client_target_def Inr i [of _ _ "cd_port (cf_client cf)" "cd_port (cf_client cf')"]
            j [of _ _ "cd_port (cf_client cf)" "cd_port (cf_client cf')"])
    qed (simp add: client_target_def)
  qed
  have nodelay: "(ci_tcp_nodelay c \<or> x) = True" for x using assms(13) by simp
  show ?thesis
    unfolding client_config_def n Let_def d t nodelay p [of "cd_parallel_streams (cf_client cf)" "cd_parallel_streams (cf_client cf')"]
      wn [of "cd_window_size (cf_client cf)" "cd_window_size (cf_client cf')"] k [of _ "cd_psk (cf_client cf)" "cd_psk (cf_client cf')"]
      a [of "cd_address_family (cf_client cf)" "cd_address_family (cf_client cf')"] ..
qed

theorem command_line_decides_witness:
  "let c = sample_cli\<lparr>ci_congestion := Some ''bbr'', ci_dscp := Some ''EF'', ci_interval := Some 1, ci_bind := Some ''1.2.3.4'', ci_window := Some 1,
       ci_time := Some 0\<rparr>
   in client_config sample_world c Config_default
        = client_config sample_world c (Config_default\<lparr>cf_client := (cf_client Config_default)\<lparr>cd_psk := Some '''', cd_port := Some 1\<rparr>\<rparr>)"
  unfolding Let_def by (rule command_line_decides) (simp_all add: sample_cli_def)







end
