(* ===== verification/Client_Plain_Correct.thy ===== *)
theory Client_Plain_Correct
  imports Client_Plain Cli_Correct
begin

text \<open>
  What a client run without the terminal interface prints and leaves behind: rows once per interval, losses that add
  up, one JSON document alone on standard output, and only the server's own results saved or delivered.
\<close>

section \<open>Lemmas\<close>

lemma take_freshest_frame [simp]:
  "ps_last_printed_interval (snd (take_freshest p st)) = ps_last_printed_interval st"
  "ps_last_printed_cumulative_lost (snd (take_freshest p st)) = ps_last_printed_cumulative_lost st"
  "ps_cumulative_bytes (snd (take_freshest p st)) = ps_cumulative_bytes st"
  "tp_udp_feedback_only (fst (take_freshest p st)) = tp_udp_feedback_only p"
  "tp_elapsed_ms (fst (take_freshest p st)) = tp_elapsed_ms p"
  "tp_total_bytes (fst (take_freshest p st)) = tp_total_bytes p"
  by (simp_all add: take_freshest_def Let_def split: prod.split)

lemma feedback_step_frame [simp]:
  "ps_last_printed_interval (snd (feedback_step e p now st)) = ps_last_printed_interval st"
  "ps_last_printed_cumulative_lost (snd (feedback_step e p now st)) = ps_last_printed_cumulative_lost st"
  "ps_cumulative_bytes (snd (feedback_step e p now st)) = ps_cumulative_bytes st"
  "ps_cached_udp_progress (snd (feedback_step e p now st)) = ps_cached_udp_progress st"
  by (simp_all add: feedback_step_def Let_def split: option.split)

text \<open>The three outcomes of a full interval.\<close>

lemma full_step_omitted:
  assumes "elapsed_secs_of p \<le> u64_as_f64 (oo_omit_secs (pe_opts e))"
  shows "fst (full_step e p now after st) = (None, [])"
    "ps_last_printed_interval (snd (full_step e p now after st)) = ps_last_printed_interval st"
    "ps_cached_udp_progress (snd (full_step e p now after st)) = ps_cached_udp_progress st"
    "ps_last_printed_cumulative_lost (snd (full_step e p now after st)) =
       (case ps_cached_udp_progress st of Some u \<Rightarrow> up_packets_lost u | None \<Rightarrow> ps_last_printed_cumulative_lost st)"
  using assms by (simp_all add: full_step_def Let_def split: prod.split option.split)

lemma full_step_skipped:
  assumes "\<not> elapsed_secs_of p \<le> u64_as_f64 (oo_omit_secs (pe_opts e))"
    "quiet_of (pe_opts e) \<or> interval_number (pe_opts e) p \<le> ps_last_printed_interval st"
  shows "fst (full_step e p now after st) = (None, [])"
    "ps_last_printed_interval (snd (full_step e p now after st)) = ps_last_printed_interval st"
    "ps_cached_udp_progress (snd (full_step e p now after st)) = ps_cached_udp_progress st"
    "ps_last_printed_cumulative_lost (snd (full_step e p now after st)) = ps_last_printed_cumulative_lost st"
  using assms by (auto simp: full_step_def Let_def split: prod.split)

lemma full_step_row:
  assumes "\<not> elapsed_secs_of p \<le> u64_as_f64 (oo_omit_secs (pe_opts e))" "\<not> quiet_of (pe_opts e)"
    "ps_last_printed_interval st < interval_number (pe_opts e) p"
  shows "ps_last_printed_interval (snd (full_step e p now after st)) = interval_number (pe_opts e) p"
    "ps_cached_udp_progress (snd (full_step e p now after st)) = ps_cached_udp_progress st"
    "ps_last_printed_cumulative_lost (snd (full_step e p now after st)) =
       snd (interval_lost p (ps_cached_udp_progress st) (ps_last_printed_cumulative_lost st))"
    "fst (fst (full_step e p now after st)) =
       (let row = make_row e p (fst (interval_retransmits p (ps_last_retransmits st)))
                    (fst (interval_lost p (ps_cached_udp_progress st) (ps_last_printed_cumulative_lost st))) now
        in if row_text e row = None then None else Some row)"
  using assms by (simp_all add: full_step_def Let_def split: prod.split option.split)

lemma full_step_bytes: "ps_cumulative_bytes (snd (full_step e p now after st)) = ps_cumulative_bytes st + tp_total_bytes p"
  by (simp add: full_step_def Let_def split: prod.split option.split)

text \<open>Rows: where each one stands.\<close>

definition row_number :: "OutputOptions \<Rightarrow> interval_row \<Rightarrow> int" where
  "row_number opts r = min (2 ^ 63 - 1) \<lfloor>ir_elapsed_secs r / oo_interval_secs opts\<rfloor>"

lemma row_number_make_row: "row_number opts (make_row e p a b now) = interval_number opts p"
  by (simp add: row_number_def interval_number_def make_row_def)

lemma elapsed_take_freshest [simp]: "elapsed_secs_of (fst (take_freshest p st)) = elapsed_secs_of p"
  by (simp add: elapsed_secs_of_def)

lemma take_freshest_pair:
  assumes "take_freshest p st = (q, st1)"
  shows "tp_udp_feedback_only q = tp_udp_feedback_only p" "elapsed_secs_of q = elapsed_secs_of p" "tp_total_bytes q = tp_total_bytes p"
    "ps_last_printed_interval st1 = ps_last_printed_interval st"
    "ps_last_printed_cumulative_lost st1 = ps_last_printed_cumulative_lost st" "ps_cumulative_bytes st1 = ps_cumulative_bytes st"
  using take_freshest_frame [of p st] elapsed_take_freshest [of p st] unfolding assms by simp_all

lemma print_step_row:
  assumes "print_step e (p, now, after) st = ((Some r, out), st')"
  shows "\<not> tp_udp_feedback_only p" "elapsed_secs_of p = ir_elapsed_secs r" "u64_as_f64 (oo_omit_secs (pe_opts e)) < ir_elapsed_secs r"
    "ps_last_printed_interval st < row_number (pe_opts e) r" "ps_last_printed_interval st' = row_number (pe_opts e) r"
proof -
  obtain q st1 where t: "take_freshest p st = (q, st1)" by fastforce
  note q = take_freshest_pair [OF t]
  show fb: "\<not> tp_udp_feedback_only p"
  proof
    assume "tp_udp_feedback_only p"
    then show False using assms q by (simp add: print_step_def t split: prod.splits)
  qed
  then have f: "full_step e q now after st1 = ((Some r, out), st')" using assms q by (simp add: print_step_def t)
  have omit: "\<not> elapsed_secs_of q \<le> u64_as_f64 (oo_omit_secs (pe_opts e))"
    using full_step_omitted(1) [of q e now after st1] f by auto
  moreover have skip: "\<not> (quiet_of (pe_opts e) \<or> interval_number (pe_opts e) q \<le> ps_last_printed_interval st1)"
    using full_step_skipped(1) [OF omit, of st1 now after] f by auto
  ultimately have n: "ps_last_printed_interval st' = interval_number (pe_opts e) q"
    and r: "\<exists>a b. r = make_row e q a b now"
    using full_step_row(1,4) [of q e st1 now after] f by (auto simp: Let_def split: if_splits)
  show "elapsed_secs_of p = ir_elapsed_secs r" using r q by (auto simp: make_row_def)
  then show "u64_as_f64 (oo_omit_secs (pe_opts e)) < ir_elapsed_secs r" using omit q by simp
  show "ps_last_printed_interval st < row_number (pe_opts e) r" "ps_last_printed_interval st' = row_number (pe_opts e) r"
    using r n skip q by (auto simp: row_number_make_row)
qed

lemma print_step_no_row:
  assumes "print_step e ev st = ((None, out), st')"
  shows "ps_last_printed_interval st \<le> ps_last_printed_interval st'"
proof -
  obtain p now after where ev: "ev = (p, now, after)" by (cases ev)
  obtain q st1 where t: "take_freshest p st = (q, st1)" by fastforce
  note q = take_freshest_pair [OF t]
  show ?thesis
  proof (cases "tp_udp_feedback_only p")
    case True
    then have "st' = snd (feedback_step e q now st1)" using assms q by (simp add: print_step_def t ev split: prod.splits)
    then show ?thesis using q by simp
  next
    case False
    then have f: "st' = snd (full_step e q now after st1)" using assms q by (simp add: print_step_def t ev)
    consider "elapsed_secs_of q \<le> u64_as_f64 (oo_omit_secs (pe_opts e))"
      | "\<not> elapsed_secs_of q \<le> u64_as_f64 (oo_omit_secs (pe_opts e))"
        "quiet_of (pe_opts e) \<or> interval_number (pe_opts e) q \<le> ps_last_printed_interval st1"
      | "\<not> elapsed_secs_of q \<le> u64_as_f64 (oo_omit_secs (pe_opts e))" "\<not> quiet_of (pe_opts e)"
        "ps_last_printed_interval st1 < interval_number (pe_opts e) q" by linarith
    then show ?thesis
      using q by cases (simp_all add: f full_step_omitted full_step_skipped full_step_row)
  qed
qed

section \<open>Properties\<close>

text \<open>Rows are printed at most once per configured interval and in order, and none before the omitted seconds are
  over, however updates, feedback and skipped intervals interleave.\<close>

theorem rows_once_per_interval:
  assumes "print_loop e evs (print_init start) = (rows, outs, st)"
  shows "sorted_wrt (<) (map (row_number (pe_opts e)) rows)
    \<and> (\<forall>r\<in>set rows. u64_as_f64 (oo_omit_secs (pe_opts e)) < ir_elapsed_secs r)"
proof -
  have "sorted_wrt (<) (map (row_number (pe_opts e)) rows)
      \<and> (\<forall>r\<in>set rows. u64_as_f64 (oo_omit_secs (pe_opts e)) < ir_elapsed_secs r \<and> ps_last_printed_interval st0 < row_number (pe_opts e) r)"
    if "print_loop e evs st0 = (rows, outs, st)" for st0
    using that
  proof (induction evs arbitrary: st0 rows outs)
    case (Cons ev evs)
    obtain p now after where ev: "ev = (p, now, after)" by (cases ev)
    obtain row out st1 where s: "print_step e ev st0 = ((row, out), st1)" by (metis surj_pair)
    obtain rows' outs' where l: "print_loop e evs st1 = (rows', outs', st)" and rows: "rows = (case row of Some r \<Rightarrow> r # rows' | None \<Rightarrow> rows')"
      using Cons.prems s by (auto split: prod.splits)
    note IH = Cons.IH [OF l]
    show ?case
    proof (cases row)
      case None
      then have "ps_last_printed_interval st0 \<le> ps_last_printed_interval st1" using print_step_no_row s by blast
      then show ?thesis using IH None rows by fastforce
    next
      case (Some r)
      note R = print_step_row [OF s [unfolded ev Some]]
      show ?thesis using IH R rows Some by (auto intro: order.strict_trans)
    qed
  qed simp
  then show ?thesis using assms by blast
qed

definition in_omitted :: "plain_env \<Rightarrow> print_event \<Rightarrow> bool" where
  "in_omitted e ev \<longleftrightarrow> elapsed_secs_of (fst ev) \<le> u64_as_f64 (oo_omit_secs (pe_opts e))"

definition is_full :: "print_event \<Rightarrow> bool" where
  "is_full ev = (\<not> tp_udp_feedback_only (fst ev))"

text \<open>The cumulative counts that updates brought, and the freshest of them.\<close>

definition counts_of :: "print_event list \<Rightarrow> UdpIntervalProgress list" where
  "counts_of evs = List.map_filter (\<lambda>ev. tp_udp_progress (fst ev)) evs"

definition comparable :: "UdpIntervalProgress list \<Rightarrow> bool" where
  "comparable us \<longleftrightarrow> (\<forall>u\<in>set us. \<forall>v\<in>set us. is_at_least_as_fresh_as u v \<or> is_at_least_as_fresh_as v u)"

fun freshest :: "UdpIntervalProgress list \<Rightarrow> UdpIntervalProgress option \<Rightarrow> bool" where
  "freshest us None = (us = [])"
| "freshest us (Some u) = (u \<in> set us \<and> (\<forall>v\<in>set us. is_at_least_as_fresh_as u v))"

lemma counts_of_simps [simp]:
  "counts_of [] = []" "counts_of (xs @ ys) = counts_of xs @ counts_of ys"
  "counts_of [ev] = (case tp_udp_progress (fst ev) of Some u \<Rightarrow> [u] | None \<Rightarrow> [])"
  by (auto simp: counts_of_def map_filter_def split: option.split)

lemma counts_of_Cons: "counts_of (ev # evs) = (case tp_udp_progress (fst ev) of Some u \<Rightarrow> [u] | None \<Rightarrow> []) @ counts_of evs"
  by (simp add: counts_of_def map_filter_def split: option.split)

lemma comparable_append: "comparable (us @ vs) \<Longrightarrow> comparable us"
  by (simp add: comparable_def)

lemma interval_lost_Some [simp]: "interval_lost p (Some u) l = (Some (saturating_sub (up_packets_lost u) l), up_packets_lost u)"
  by (simp add: interval_lost_def)

lemma interval_lost_None [simp]: "snd (interval_lost p None l) = l"
  by (simp add: interval_lost_def)

lemma row_text_total: "(\<And>j. pe_to_json e j \<noteq> None) \<Longrightarrow> row_text e r \<noteq> None"
  by (auto simp: row_text_def)

lemma take_freshest_cache:
  "ps_cached_udp_progress (snd (take_freshest p st)) =
     (case tp_udp_progress p of
        Some u \<Rightarrow> if (case ps_cached_udp_progress st of None \<Rightarrow> True | Some previous \<Rightarrow> is_at_least_as_fresh_as u previous)
                  then Some u else ps_cached_udp_progress st
      | None \<Rightarrow> ps_cached_udp_progress st)"
  by (simp add: take_freshest_def Let_def split: prod.split option.split)

text \<open>Keeping the fresher of two keeps the freshest of all, in whatever order they come.\<close>

lemma freshest_step:
  assumes "freshest us (ps_cached_udp_progress st)" "comparable (us @ counts_of [ev])" "fst ev = p"
  shows "freshest (us @ counts_of [ev]) (ps_cached_udp_progress (snd (take_freshest p st)))"
proof (cases "tp_udp_progress p")
  case None
  then show ?thesis using assms by (simp add: take_freshest_cache)
next
  case (Some u)
  show ?thesis
  proof (cases "ps_cached_udp_progress st")
    case None
    then show ?thesis using assms(1,3) Some progress_order.fresh_refl by (simp add: take_freshest_cache)
  next
    case (Some c)
    have c: "c \<in> set us" "\<forall>v\<in>set us. is_at_least_as_fresh_as c v" using assms(1) Some by simp_all
    have total: "is_at_least_as_fresh_as u c \<or> is_at_least_as_fresh_as c u"
      using assms(2,3) c(1) \<open>tp_udp_progress p = Some u\<close> by (auto simp: comparable_def)
    show ?thesis
    proof (cases "is_at_least_as_fresh_as u c")
      case True
      then have "\<forall>v\<in>set us. is_at_least_as_fresh_as u v" using c(2) progress_order.fresh_trans by blast
      then show ?thesis
        using True Some \<open>tp_udp_progress p = Some u\<close> assms(3) progress_order.fresh_refl by (simp add: take_freshest_cache)
    next
      case False
      then show ?thesis using total c Some \<open>tp_udp_progress p = Some u\<close> assms(3) by (simp add: take_freshest_cache)
    qed
  qed
qed

text \<open>One update: what the baseline of the next row becomes.\<close>

lemma loss_step:
  assumes "print_step e (p, now, after) st = ((row, out), st')"
  shows "ps_cached_udp_progress st' = ps_cached_udp_progress (snd (take_freshest p st))"
    "in_omitted e (p, now, after) \<Longrightarrow> row = None"
    "in_omitted e (p, now, after) \<Longrightarrow>
       ps_last_printed_cumulative_lost st' = (case ps_cached_udp_progress st' of
          Some u \<Rightarrow> if is_full (p, now, after) then up_packets_lost u else ps_last_printed_cumulative_lost st
        | None \<Rightarrow> ps_last_printed_cumulative_lost st)"
    "\<not> in_omitted e (p, now, after) \<Longrightarrow> (\<And>j. pe_to_json e j \<noteq> None) \<Longrightarrow>
       (case row of
          None \<Rightarrow> ps_last_printed_cumulative_lost st' = ps_last_printed_cumulative_lost st
        | Some r \<Rightarrow> (case ps_cached_udp_progress st' of
             Some u \<Rightarrow> ir_lost r = Some (saturating_sub (up_packets_lost u) (ps_last_printed_cumulative_lost st))
                       \<and> ps_last_printed_cumulative_lost st' = up_packets_lost u
           | None \<Rightarrow> ps_last_printed_cumulative_lost st' = ps_last_printed_cumulative_lost st))"
proof -
  obtain q st1 where t: "take_freshest p st = (q, st1)" by fastforce
  note q = take_freshest_pair [OF t]
  have fb: "st' = snd (feedback_step e q now st1) \<and> row = None" if "tp_udp_feedback_only p"
    using assms q that by (simp add: print_step_def t split: prod.splits)
  have full: "st' = snd (full_step e q now after st1) \<and> row = fst (fst (full_step e q now after st1))" if "\<not> tp_udp_feedback_only p"
    using assms q that by (simp add: print_step_def t)
  have o: "in_omitted e (p, now, after) \<longleftrightarrow> elapsed_secs_of q \<le> u64_as_f64 (oo_omit_secs (pe_opts e))"
    using q by (simp add: in_omitted_def)
  have kept: "ps_cached_udp_progress (snd (full_step e q now after st1)) = ps_cached_udp_progress st1"
    by (simp add: full_step_def Let_def split: prod.split option.split)
  then show c: "ps_cached_udp_progress st' = ps_cached_udp_progress (snd (take_freshest p st))"
    using fb full t by (cases "tp_udp_feedback_only p") simp_all
  show "in_omitted e (p, now, after) \<Longrightarrow> row = None"
    using fb full o full_step_omitted(1) [of q e now after st1] by (cases "tp_udp_feedback_only p") simp_all
  show "in_omitted e (p, now, after) \<Longrightarrow>
       ps_last_printed_cumulative_lost st' = (case ps_cached_udp_progress st' of
          Some u \<Rightarrow> if is_full (p, now, after) then up_packets_lost u else ps_last_printed_cumulative_lost st
        | None \<Rightarrow> ps_last_printed_cumulative_lost st)"
    using fb full o q t unfolding c
    by (cases "tp_udp_feedback_only p") (simp_all add: is_full_def full_step_omitted(4) split: option.split)
  assume a: "\<not> in_omitted e (p, now, after)" "\<And>j. pe_to_json e j \<noteq> None"
  show "case row of
          None \<Rightarrow> ps_last_printed_cumulative_lost st' = ps_last_printed_cumulative_lost st
        | Some r \<Rightarrow> (case ps_cached_udp_progress st' of
             Some u \<Rightarrow> ir_lost r = Some (saturating_sub (up_packets_lost u) (ps_last_printed_cumulative_lost st))
                       \<and> ps_last_printed_cumulative_lost st' = up_packets_lost u
           | None \<Rightarrow> ps_last_printed_cumulative_lost st' = ps_last_printed_cumulative_lost st)"
  proof (cases "tp_udp_feedback_only p")
    case True
    then show ?thesis using fb q by simp
  next
    case False
    show ?thesis
    proof (cases "quiet_of (pe_opts e) \<or> interval_number (pe_opts e) q \<le> ps_last_printed_interval st1")
      case True
      then show ?thesis using full [OF False] full_step_skipped(1,4) [of q e st1 now after] a(1) o q by simp
    next
      case new: False
      then show ?thesis
        using full [OF False] full_step_row(3,4) [of q e st1 now after] a(1) o q t row_text_total [OF a(2)] unfolding c
        by (simp add: make_row_def split: option.split)
    qed
  qed
qed

lemma print_loop_append:
  "print_loop e (xs @ ys) st =
     (case print_loop e xs st of (rows, outs, st1) \<Rightarrow> case print_loop e ys st1 of (rows', outs', st2) \<Rightarrow> (rows @ rows', outs @ outs', st2))"
  by (induction xs arbitrary: st) (auto split: prod.splits option.splits)

lemma freshest_loop:
  assumes "print_loop e evs st = (rows, outs, st')" "freshest us (ps_cached_udp_progress st)" "comparable (us @ counts_of evs)"
  shows "freshest (us @ counts_of evs) (ps_cached_udp_progress st')"
  using assms
proof (induction evs arbitrary: st rows outs us)
  case (Cons ev evs)
  obtain p now after where ev: "ev = (p, now, after)" by (cases ev)
  obtain row out st1 where s: "print_step e ev st = ((row, out), st1)" by (metis surj_pair)
  obtain rows' outs' where l: "print_loop e evs st1 = (rows', outs', st')"
    using Cons.prems(1) s by (auto split: prod.splits)
  have split: "us @ counts_of (ev # evs) = (us @ counts_of [ev]) @ counts_of evs"
    using counts_of_simps(2) [of "[ev]" evs] by simp
  have c: "comparable ((us @ counts_of [ev]) @ counts_of evs)" using Cons.prems(3) unfolding split .
  have "freshest (us @ counts_of [ev]) (ps_cached_udp_progress st1)"
    using freshest_step [OF Cons.prems(2) comparable_append [OF c]] loss_step(1) [OF s [unfolded ev]] ev by simp
  from Cons.IH [OF l this c] show ?case unfolding split .
qed simp

text \<open>Without counts the baseline stays at zero.\<close>

lemma baseline_zero:
  assumes "print_loop e evs st = (rows, outs, st')" "counts_of evs = []" "ps_cached_udp_progress st = None"
    "\<And>j. pe_to_json e j \<noteq> None"
  shows "ps_last_printed_cumulative_lost st' = ps_last_printed_cumulative_lost st"
  using assms(1-3)
proof (induction evs arbitrary: st rows outs)
  case (Cons ev evs)
  obtain p now after where ev: "ev = (p, now, after)" by (cases ev)
  obtain row out st1 where s: "print_step e ev st = ((row, out), st1)" by (metis surj_pair)
  obtain rows' outs' where l: "print_loop e evs st1 = (rows', outs', st')"
    using Cons.prems(1) s by (auto split: prod.splits)
  have "counts_of [ev] = []" "counts_of evs = []" using Cons.prems(2) counts_of_simps(2) [of "[ev]" evs] by simp_all
  then have "tp_udp_progress p = None" by (simp add: ev split: option.splits)
  then have c: "ps_cached_udp_progress st1 = None" using loss_step(1) [OF s [unfolded ev]] Cons.prems(3) by (simp add: take_freshest_cache)
  have "ps_last_printed_cumulative_lost st1 = ps_last_printed_cumulative_lost st"
    using loss_step(3,4) [OF s [unfolded ev]] assms(4) c by (cases "in_omitted e (p, now, after)"; cases row) simp_all
  with Cons.IH [OF l \<open>counts_of evs = []\<close> c] show ?case by simp
qed simp

text \<open>Between two rows the baseline stays.\<close>

lemma baseline_kept:
  assumes "print_loop e evs st = ([], outs, st')" "\<forall>x\<in>set evs. is_full x \<longrightarrow> \<not> in_omitted e x" "\<And>j. pe_to_json e j \<noteq> None"
  shows "ps_last_printed_cumulative_lost st' = ps_last_printed_cumulative_lost st"
  using assms(1,2)
proof (induction evs arbitrary: st outs)
  case (Cons ev evs)
  obtain p now after where ev: "ev = (p, now, after)" by (cases ev)
  obtain row out st1 where s: "print_step e ev st = ((row, out), st1)" by (metis surj_pair)
  obtain outs' where l: "print_loop e evs st1 = ([], outs', st')" and row: "row = None"
    using Cons.prems(1) s by (auto split: prod.splits option.splits)
  have "ps_last_printed_cumulative_lost st1 = ps_last_printed_cumulative_lost st"
    using loss_step(3,4) [OF s [unfolded ev]] assms(3) Cons.prems(2) row ev
    by (cases "in_omitted e (p, now, after)") (auto split: option.splits)
  with Cons.IH [OF l] Cons.prems(2) show ?case by simp
qed simp

text \<open>The updates that set the baseline: one that printed a row, and a full one of the omitted seconds.\<close>

definition sets_baseline :: "plain_env \<Rightarrow> instant \<Rightarrow> print_event list \<Rightarrow> bool" where
  "sets_baseline e start evs \<longleftrightarrow>
     (case rev evs of
        [] \<Rightarrow> True
      | ev # pre \<Rightarrow> is_full ev \<and> in_omitted e ev
          \<or> fst (fst (print_step e ev (snd (snd (print_loop e (rev pre) (print_init start)))))) \<noteq> None)"

lemma baseline_set:
  assumes "sets_baseline e start evs" "print_loop e evs (print_init start) = (rows, outs, st)" "\<And>j. pe_to_json e j \<noteq> None"
  shows "ps_last_printed_cumulative_lost st = (case ps_cached_udp_progress st of Some u \<Rightarrow> up_packets_lost u | None \<Rightarrow> 0)
    \<or> ps_cached_udp_progress st = None"
proof (cases evs rule: rev_cases)
  case Nil
  then show ?thesis using assms(2) by (auto simp: print_init_def)
next
  case (snoc pre ev)
  obtain p now after where ev: "ev = (p, now, after)" by (cases ev)
  obtain rows0 outs0 st0 where l0: "print_loop e pre (print_init start) = (rows0, outs0, st0)" by (metis surj_pair)
  obtain row out where s: "print_step e ev st0 = ((row, out), st)"
    using assms(2) by (auto simp: snoc print_loop_append l0 split: prod.splits option.splits)
  have "is_full ev \<and> in_omitted e ev \<or> row \<noteq> None"
    using assms(1) s by (simp add: sets_baseline_def snoc l0)
  then show ?thesis
    using loss_step(2-4) [OF s [unfolded ev]] assms(3) ev
    by (cases "in_omitted e (p, now, after)"; cases "ps_cached_udp_progress st"; cases row) simp_all
qed

text \<open>C27: a printed row shows the losses since the row before it: the losses in the freshest report of the receiver so far less those
  in the freshest report at the last row (or at the last full update of the omitted seconds, or at the start), in whatever order the
  reports came, with feedback and skipped updates in between; nothing when reordered packets have filled more gaps than came up since. So no
  loss is shown twice and none is left out as long as the receiver's count of losses does not fall. Reports are
  comparable, as the snapshots of one receiver are, and every row has a text.\<close>

theorem rows_show_new_losses:
  assumes "comparable (counts_of (pre @ post @ [ev]))" "\<And>j. pe_to_json e j \<noteq> None"
    "sets_baseline e start pre" "print_loop e pre (print_init start) = (rows, outs, st0)"
    "print_loop e post st0 = ([], outs', st1)" "\<forall>x\<in>set post. is_full x \<longrightarrow> \<not> in_omitted e x"
    "print_step e ev st1 = ((Some r, out), st2)" "counts_of (pre @ post @ [ev]) \<noteq> []"
  shows "\<exists>base u. freshest (counts_of pre) base \<and> freshest (counts_of (pre @ post @ [ev])) (Some u)
    \<and> ir_lost r = Some (saturating_sub (up_packets_lost u) (case base of Some v \<Rightarrow> up_packets_lost v | None \<Rightarrow> 0))"
proof -
  obtain p now after where ev: "ev = (p, now, after)" by (cases ev)
  have split: "counts_of (pre @ post @ [ev]) = (counts_of pre @ counts_of post) @ counts_of [ev]" by simp
  note cmp = assms(1) [unfolded split]
  have f0: "freshest (counts_of pre) (ps_cached_udp_progress st0)"
    using freshest_loop [OF assms(4), of "[]"] comparable_append [OF comparable_append [OF cmp]] by (simp add: print_init_def)
  have f1: "freshest (counts_of pre @ counts_of post) (ps_cached_udp_progress st1)"
    by (rule freshest_loop [OF assms(5) f0 comparable_append [OF cmp]])
  have f2: "freshest ((counts_of pre @ counts_of post) @ counts_of [ev]) (ps_cached_udp_progress st2)"
    using freshest_step [OF f1 cmp] loss_step(1) [OF assms(7) [unfolded ev]] ev by simp
  then obtain u where u: "ps_cached_udp_progress st2 = Some u" using assms(8) unfolding split by (cases "ps_cached_udp_progress st2") simp_all
  have "\<not> in_omitted e (p, now, after)" using loss_step(2) [OF assms(7) [unfolded ev]] by auto
  then have lost: "ir_lost r = Some (saturating_sub (up_packets_lost u) (ps_last_printed_cumulative_lost st1))"
    using loss_step(4) [OF assms(7) [unfolded ev]] assms(2) u by simp
  have "ps_last_printed_cumulative_lost st1 = ps_last_printed_cumulative_lost st0"
    by (rule baseline_kept [OF assms(5,6,2)])
  moreover have "ps_last_printed_cumulative_lost st0 = (case ps_cached_udp_progress st0 of Some v \<Rightarrow> up_packets_lost v | None \<Rightarrow> 0)"
  proof (cases "ps_cached_udp_progress st0")
    case None
    then have "counts_of pre = []" using f0 by simp
    from baseline_zero [OF assms(4) this _ assms(2)] None show ?thesis by (simp add: print_init_def)
  next
    case (Some v)
    then show ?thesis using baseline_set [OF assms(3,4,2)] by simp
  qed
  ultimately show ?thesis using f0 f2 u lost unfolding split by auto
qed

definition sample_opts :: OutputOptions where
  "sample_opts = \<lparr>oo_push_gateway = None, oo_json = False, oo_json_stream = False, oo_csv = False, oo_quiet = False, oo_omit_secs = 1,
     oo_interval_secs = 1, oo_timestamp_format = Relative\<rparr>"

definition sample_env :: plain_env where
  "sample_env = \<lparr>pe_opts = sample_opts, pe_timestamp = (\<lambda>_. ''t''), pe_show_f64 = fmt_fixed 3, pe_to_json = (\<lambda>_. Some [])\<rparr>"

definition sample_update :: "u64 \<Rightarrow> u64 \<Rightarrow> u64 \<Rightarrow> print_event" where
  "sample_update ms received lost =
     ((feedback_progress ms)\<lparr>tp_udp_feedback_only := False, tp_udp_progress := Some \<lparr>up_packets_received = received, up_packets_lost = lost\<rparr>\<rparr>, 0, 0)"

lemma sample_loss_facts:
  "comparable (counts_of ([sample_update 1000 10 2] @ [] @ [sample_update 2000 30 5]))" "pe_to_json sample_env j \<noteq> None"
  "sets_baseline sample_env 0 [sample_update 1000 10 2]"
  "counts_of ([sample_update 1000 10 2] @ [] @ [sample_update 2000 30 5]) =
     [\<lparr>up_packets_received = 10, up_packets_lost = 2\<rparr>, \<lparr>up_packets_received = 30, up_packets_lost = 5\<rparr>]"
  by (simp_all add: comparable_def counts_of_Cons sample_update_def is_at_least_as_fresh_as_def saturating_add_def in_omitted_def is_full_def sample_env_def
      sets_baseline_def sample_opts_def elapsed_secs_of_def feedback_progress_def)

theorem rows_show_new_losses_witness:
  "\<exists>rows outs st r out st'. print_loop sample_env [sample_update 1000 10 2] (print_init 0) = (rows, outs, st)
     \<and> print_step sample_env (sample_update 2000 30 5) st = ((Some r, out), st') \<and> ir_lost r = Some 3"
proof -
  obtain rows outs st where l: "print_loop sample_env [sample_update 1000 10 2] (print_init 0) = (rows, outs, st)"
    by (metis surj_pair)
  have "\<exists>rows outs st. print_loop sample_env [sample_update 1000 10 2] (print_init 0) = (rows, outs, st)
      \<and> (\<exists>r out st'. print_step sample_env (sample_update 2000 30 5) st = ((Some r, out), st'))"
    by (simp add: print_step_def take_freshest_def cache_udp_direction_def sample_update_def sample_env_def sample_opts_def feedback_progress_def
        print_init_def Let_def full_step_def elapsed_secs_of_def quiet_of_def interval_retransmits_def interval_number_def interval_lost_def
        row_text_def is_at_least_as_fresh_as_def saturating_add_def)
  then obtain r out st' where s: "print_step sample_env (sample_update 2000 30 5) st = ((Some r, out), st')" using l by auto
  have post: "print_loop sample_env [] st = ([], [], st)" by simp
  obtain base u where "freshest (counts_of [sample_update 1000 10 2]) base"
      "freshest (counts_of ([sample_update 1000 10 2] @ [] @ [sample_update 2000 30 5])) (Some u)"
      "ir_lost r = Some (saturating_sub (up_packets_lost u) (case base of Some v \<Rightarrow> up_packets_lost v | None \<Rightarrow> 0))"
    using rows_show_new_losses [OF sample_loss_facts(1-3) l post _ s] sample_loss_facts(4) by fastforce
  then have "ir_lost r = Some 3"
    unfolding sample_loss_facts(4)
    by (cases base) (auto simp: sample_update_def is_at_least_as_fresh_as_def saturating_add_def saturating_sub_def)
  then show ?thesis using l s by blast
qed

theorem rows_once_per_interval_witness:
  "\<exists>rows outs st. print_loop sample_env [sample_update 2000 20 5, sample_update 2500 25 6] (print_init 0) = (rows, outs, st)
     \<and> sorted_wrt (<) (map (row_number (pe_opts sample_env)) rows)"
proof -
  obtain rows outs st where l: "print_loop sample_env [sample_update 2000 20 5, sample_update 2500 25 6] (print_init 0) = (rows, outs, st)"
    by (metis surj_pair)
  with rows_once_per_interval [OF l] show ?thesis by blast
qed

section \<open>What is left behind\<close>

text \<open>Nothing is printed on the way when the rows are quiet.\<close>

lemma quiet_step: "quiet_of (pe_opts e) \<Longrightarrow> snd (fst (print_step e ev st)) = []"
  by (auto simp: print_step_def feedback_step_def full_step_def Let_def split: prod.split if_splits option.split)

lemma quiet_loop: "quiet_of (pe_opts e) \<Longrightarrow> fst (snd (print_loop e evs st)) = []"
proof (induction evs arbitrary: st)
  case (Cons ev evs)
  obtain row out st1 where s: "print_step e ev st = ((row, out), st1)" by (metis surj_pair)
  obtain rows outs st2 where l: "print_loop e evs st1 = (rows, outs, st2)" by (metis surj_pair)
  have "out = []" "outs = []" using quiet_step [OF Cons.prems, of ev st] Cons.IH [OF Cons.prems, of st1] s l by simp_all
  then show ?case using s l by simp
qed simp

lemma finish_plain_stdout:
  "po_stdout (finish_plain w opts mptcp file printed r i) =
     printed @ (case result_text w opts mptcp r of Some shown \<Rightarrow> if pw_write_stdout w = None then [line shown] else [] | None \<Rightarrow> [])"
  by (auto simp: finish_plain_def Let_def split: option.split sum.split)

text \<open>C28: with summary JSON, asked for on the command line or in the file, standard output holds nothing but the one
  document, however the test goes and ends, so that it can be redirected and parsed.\<close>

theorem json_stands_alone:
  assumes "clap_accepts c" "client_setup cw parse_url c cf = Ok (config, opts)" "oo_json opts" "pe_opts e = opts"
  shows "po_stdout (run_client_plain e w mptcp file start evs end) = []
    \<or> (\<exists>r j. pw_json_pretty w r = Some j \<and> po_stdout (run_client_plain e w mptcp file start evs end) = [line j])"
proof -
  have o: "oo_json opts = client_json_output c cf" "oo_csv opts = ci_csv c" "oo_json_stream opts = ci_json_stream c"
    using assms(2) by (auto simp: client_setup_def split: sum.splits)
  have n: "\<not> oo_csv opts" "\<not> oo_json_stream opts" using o assms(1,3) by (auto simp: client_json_output_def clap_accepts_def)
  have q: "quiet_of (pe_opts e)" using assms(3,4) by (simp add: quiet_of_def)
  have p: "\<And>evs. fst (snd (print_loop e evs (print_init start))) = []" by (rule quiet_loop [OF q])
  have r: "result_text w opts mptcp r = pw_json_pretty w r" for r using n assms(3) by (simp add: result_text_def)
  have f: "po_stdout (finish_plain w opts mptcp file [] r i) = [] \<or> (\<exists>x j. pw_json_pretty w x = Some j \<and> po_stdout (finish_plain w opts mptcp file [] r i) = [line j])"
    for r i unfolding finish_plain_stdout r by (auto split: option.split)
  have s: "csv_start opts = []" using n by (simp add: csv_start_def)
  have l: "\<exists>rows st. print_loop e evs (print_init start) = (rows, [], st)" for evs using p [of evs] by (metis prod.collapse)
  obtain rows st where evs: "print_loop e evs (print_init start) = (rows, [], st)" using l by blast
  show ?thesis
  proof (cases "end")
    case (TestReturned res)
    show ?thesis
    proof (cases res)
      case (Inr r)
      have "run_client_plain e w mptcp file start evs end = finish_plain w opts mptcp file [] r False"
        by (simp add: run_client_plain_def TestReturned Inr evs assms(4) s)
      then show ?thesis using f by simp
    qed (simp add: TestReturned evs run_client_plain_def assms(4) s)
  next
    case (StoppedWithResult r)
    have "run_client_plain e w mptcp file start evs end = finish_plain w opts mptcp file [] r False"
      by (simp add: run_client_plain_def StoppedWithResult evs assms(4) s)
    then show ?thesis using f by simp
  next
    case (StoppedWithout n)
    obtain rows_n st_n where n: "print_loop e (take n evs) (print_init start) = (rows_n, [], st_n)" using l by blast
    show ?thesis
    proof (cases "ps_cumulative_bytes st_n = 0")
      case True
      then show ?thesis by (simp add: run_client_plain_def StoppedWithout evs n assms(4) s)
    next
      case False
      then have "run_client_plain e w mptcp file start evs end =
          finish_plain w opts mptcp file [] (build_fallback_result (ps_cumulative_bytes st_n) (ps_cumulative_elapsed_ms st_n)) True"
        by (simp add: run_client_plain_def StoppedWithout evs n assms(4) s)
      then show ?thesis using f by simp
    qed
  qed (simp add: evs run_client_plain_def assms(4) s)
qed

lemma print_loop_bytes:
  "ps_cumulative_bytes (snd (snd (print_loop e evs st))) =
     ps_cumulative_bytes st + (\<Sum>ev\<leftarrow>filter is_full evs. tp_total_bytes (fst ev))"
proof (induction evs arbitrary: st)
  case (Cons ev evs)
  obtain p now after where ev: "ev = (p, now, after)" by (cases ev)
  obtain q st1 where t: "take_freshest p st = (q, st1)" by fastforce
  note q = take_freshest_pair [OF t]
  have "ps_cumulative_bytes (snd (print_step e ev st)) = ps_cumulative_bytes st + (if is_full ev then tp_total_bytes p else 0)"
  proof (cases "tp_udp_feedback_only p")
    case True
    then have "snd (print_step e ev st) = snd (feedback_step e q now st1)" using q by (simp add: print_step_def ev t split: prod.split)
    then show ?thesis using True q by (simp add: is_full_def ev)
  next
    case False
    then have "snd (print_step e ev st) = snd (full_step e q now after st1)" using q by (simp add: print_step_def ev t)
    then show ?thesis using False q full_step_bytes [of e q now after st1] by (simp add: is_full_def ev)
  qed
  moreover obtain row out st2 where s: "print_step e ev st = ((row, out), st2)" by (metis surj_pair)
  moreover obtain rows outs st3 where "print_loop e evs st2 = (rows, outs, st3)" by (metis surj_pair)
  ultimately show ?case using Cons.IH [of st2] by (simp add: ev add.assoc)
qed simp

lemma finish_plain_saved:
  "po_saved (finish_plain w opts mptcp file printed r i) \<noteq> None \<Longrightarrow> \<not> i"
  "po_result (finish_plain w opts mptcp file printed r i) = Some r' \<Longrightarrow> r' = r \<and> \<not> i"
  "i \<Longrightarrow> po_exit (finish_plain w opts mptcp file printed r i) \<noteq> ExitOk"
  by (auto simp: finish_plain_def Let_def split: option.splits sum.splits if_splits)

text \<open>Only a result that came from the server is saved or handed to the metrics, as it came. An interrupted run without
  one leaves no file, delivers nothing and ends with an error; what it shows, if anything, is the sum of the bytes of the
  intervals seen.\<close>

theorem only_server_results_kept:
  assumes "run_client_plain e w mptcp file start evs end = out"
  shows "(po_saved out \<noteq> None \<longrightarrow> (\<exists>r. end = TestReturned (Ok r) \<or> end = StoppedWithResult r))
    \<and> (\<forall>r. po_result out = Some r \<longrightarrow> end = TestReturned (Ok r) \<or> end = StoppedWithResult r)
    \<and> (\<forall>n. end = StoppedWithout n \<longrightarrow>
         po_exit out \<noteq> ExitOk
         \<and> (let total = (\<Sum>ev\<leftarrow>filter is_full (take n evs). tp_total_bytes (fst ev))
            in if total = 0 then po_exit out = ExitCode 130
               else \<exists>printed ms. po_stdout out = printed @
                 (case result_text w (pe_opts e) mptcp (build_fallback_result total ms) of
                    Some shown \<Rightarrow> if pw_write_stdout w = None then [line shown] else [] | None \<Rightarrow> [])))"
proof -
  obtain rows printed st where evs: "print_loop e evs (print_init start) = (rows, printed, st)" by (metis surj_pair)
  show ?thesis
  proof (cases "end")
    case (TestReturned res)
    then show ?thesis
      using assms evs by (cases res) (auto simp: run_client_plain_def Let_def dest: finish_plain_saved(2))
  next
    case (StoppedWithResult r)
    then show ?thesis using assms evs by (auto simp: run_client_plain_def Let_def dest: finish_plain_saved(2))
  next
    case (StoppedWithout n)
    obtain rows_n out_n st_n where n: "print_loop e (take n evs) (print_init start) = (rows_n, out_n, st_n)" by (metis surj_pair)
    have total: "ps_cumulative_bytes st_n = (\<Sum>ev\<leftarrow>filter is_full (take n evs). tp_total_bytes (fst ev))"
      using print_loop_bytes [of e "take n evs" "print_init start"] n by (simp add: print_init_def)
    show ?thesis
    proof (cases "ps_cumulative_bytes st_n = 0")
      case True
      then show ?thesis using assms StoppedWithout total by (auto simp: run_client_plain_def evs n)
    next
      case False
      let ?r = "build_fallback_result (ps_cumulative_bytes st_n) (ps_cumulative_elapsed_ms st_n)"
      have out: "out = finish_plain w (pe_opts e) mptcp file (csv_start (pe_opts e) @ printed) ?r True"
        using assms False by (simp add: run_client_plain_def StoppedWithout evs n Let_def)
      have "po_saved out = None" unfolding out by (rule ccontr) (drule finish_plain_saved(1), simp)
      moreover have "\<forall>r. po_result out \<noteq> Some r" unfolding out by (intro allI notI) (drule finish_plain_saved(2), simp)
      moreover have "po_exit out \<noteq> ExitOk" unfolding out by (rule finish_plain_saved(3)) simp
      moreover have "\<exists>printed ms. po_stdout out = printed @ (case result_text w (pe_opts e) mptcp (build_fallback_result (ps_cumulative_bytes st_n) ms) of
                    Some shown \<Rightarrow> if pw_write_stdout w = None then [line shown] else [] | None \<Rightarrow> [])"
        using finish_plain_stdout unfolding out by blast
      ultimately show ?thesis using False StoppedWithout by (simp add: Let_def total [symmetric])
    qed
  next
    case InterruptedTwice
    then show ?thesis using assms evs by (auto simp: run_client_plain_def)
  qed
qed

definition sample_plain_world :: plain_world where
  "sample_plain_world = \<lparr>pw_json_compact = (\<lambda>_. Some ''{}''), pw_json_pretty = (\<lambda>_. Some ''{}''), pw_write_stdout = None, pw_broken_pipe = False,
     pw_save = (\<lambda>_ _. Ok ())\<rparr>"

theorem only_server_results_kept_witness:
  "\<exists>out printed ms. run_client_plain sample_env sample_plain_world False (Some ''f'') 0
       [((feedback_progress 2000)\<lparr>tp_udp_feedback_only := False, tp_total_bytes := 7\<rparr>, 0, 0)] (StoppedWithout 1) = out
     \<and> po_exit out \<noteq> ExitOk
     \<and> po_stdout out = printed @ [line (output_plain (build_fallback_result 7 ms) False)]"
proof -
  let ?evs = "[((feedback_progress 2000)\<lparr>tp_udp_feedback_only := False, tp_total_bytes := 7\<rparr>, 0, 0)] :: print_event list"
  obtain out where out: "run_client_plain sample_env sample_plain_world False (Some ''f'') 0 ?evs (StoppedWithout 1) = out" by blast
  have "(\<Sum>ev\<leftarrow>filter is_full (take 1 ?evs). tp_total_bytes (fst ev)) = 7" by (simp add: is_full_def)
  with only_server_results_kept [OF out] have "po_exit out \<noteq> ExitOk \<and> (\<exists>printed ms. po_stdout out = printed @
      (case result_text sample_plain_world (pe_opts sample_env) False (build_fallback_result 7 ms) of
         Some shown \<Rightarrow> if pw_write_stdout sample_plain_world = None then [line shown] else [] | None \<Rightarrow> []))" by (simp add: Let_def)
  then show ?thesis using out by (auto simp: result_text_def sample_env_def sample_opts_def sample_plain_world_def)
qed

theorem json_stands_alone_witness:
  "\<exists>config opts. client_setup sample_world (\<lambda>_. None) (sample_cli\<lparr>ci_json := True\<rparr>) Config_default = Ok (config, opts)
     \<and> (let out = po_stdout (run_client_plain (sample_env\<lparr>pe_opts := opts\<rparr>) sample_plain_world False None 0 [sample_update 1 2 3] (TestReturned (Ok (build_fallback_result 1 1))))
        in out = [] \<or> out = [line ''{}''])"
proof -
  let ?c = "sample_cli\<lparr>ci_json := True\<rparr>"
  have clap: "clap_accepts ?c" by (simp add: clap_accepts_def sample_cli_def)
  have "\<exists>cfg opts. client_config sample_world ?c Config_default = Ok (cfg, opts)"
    by (simp add: client_config_def sample_world_def sample_cli_def Config_default_def resolve_client_network_options_def
        validate_report_interval_def resolve_parallel_streams_def resolve_window_size_def effective_psk_def validate_psk_def MAX_PSK_LENGTH_def
        utf8_len_def is_ascii_char_def resolve_address_family_def client_bind_def merge_cport_def validate_bind_address_def client_target_def
        split_host_port_def unbracket_def split_once_one resolve_client_port_def client_protocol_def Let_def)
  then obtain cfg nopts where c: "client_config sample_world ?c Config_default = Ok (cfg, nopts)" by blast
  have "client_gateway (\<lambda>_. None) ?c Config_default cfg = Ok None" by (simp add: client_gateway_def sample_cli_def Config_default_def)
  with c obtain opts where s: "client_setup sample_world (\<lambda>_. None) ?c Config_default = Ok (cfg, opts)" "oo_json opts"
    by (simp add: client_setup_def client_json_output_def sample_cli_def)
  show ?thesis
    using s json_stands_alone [OF clap s, of "sample_env\<lparr>pe_opts := opts\<rparr>" sample_plain_world]
    by (auto simp: sample_plain_world_def Let_def)
qed

end
