(* ===== verification/Quic.thy ===== *)
theory Quic
  imports Server Tcp Reporting
begin

text \<open>
  The QUIC transport of \<open>src/quic.rs\<close>: the session key that ties a pre-shared key to one TLS connection, the
  tee that takes single-port UDP hellos off the socket of the QUIC endpoint, the send and receive loops of a data stream;
  and the server's end of a QUIC test, \<open>handle_quic_client\<close> and \<open>run_quic_test\<close> of \<open>serve.rs\<close>. The QUIC
  library, TLS and the key derivation are parameters; a connection is seen through its keying material exporter.
\<close>

section \<open>Constants\<close>

definition QUIC_DEFAULT_BUFFER_SIZE :: nat where "QUIC_DEFAULT_BUFFER_SIZE = 128 * 1024"
definition MAX_CONCURRENT_DATA_STREAMS :: u32 where "MAX_CONCURRENT_DATA_STREAMS = 128"
definition MAX_DIVERT_ITERATIONS :: nat where "MAX_DIVERT_ITERATIONS = 16"
definition QUIC_SEND_TEARDOWN_GRACE :: duration where "QUIC_SEND_TEARDOWN_GRACE = 250000000"
definition QUIC_CLOSE_GRACE :: duration where "QUIC_CLOSE_GRACE = 1000000000"
definition QUIC_IDLE_TIMEOUT :: duration where "QUIC_IDLE_TIMEOUT = 10000000000"
definition ACK_WAIT_CAP :: duration where "ACK_WAIT_CAP = 5000000000"

section \<open>The session key\<close>

text \<open>\<open>export label context\<close> is the keying material of the connection, \<open>None\<close> when TLS cannot give it.\<close>

type_synonym exporter = "bytes \<Rightarrow> bytes \<Rightarrow> bytes option"

datatype quic_error =
    QuicHs hs_error | ExportFailed | SessionKeyFailed | NoSessionKey | NoChannelBinding | NotQuic | PayloadForQuic
  | QuicExpectedHello | NoControlStream | QuicWrite control_error

definition PSK_CHANNEL_BINDING_EXPORTER_LABEL :: bytes where
  "PSK_CHANNEL_BINDING_EXPORTER_LABEL = as_bytes ''EXPORTER-Channel-Binding''"

definition PSK_SESSION_INFO :: bytes where "PSK_SESSION_INFO = as_bytes ''xfr-quic-psk-session-v1''"

definition derive_psk_session_key_from_exporter :: "hkdf \<Rightarrow> string \<Rightarrow> bytes \<Rightarrow> quic_error + bytes" where
  "derive_psk_session_key_from_exporter hkdf configured_psk exported =
     (case hkdf exported (as_bytes configured_psk) PSK_SESSION_INFO 32 of
        None \<Rightarrow> Err SessionKeyFailed
      | Some session_psk \<Rightarrow> Ok session_psk)"

definition derive_psk_session_key :: "hkdf \<Rightarrow> exporter \<Rightarrow> string \<Rightarrow> quic_error + bytes" where
  "derive_psk_session_key hkdf export configured_psk =
     (case export PSK_CHANNEL_BINDING_EXPORTER_LABEL [] of
        None \<Rightarrow> Err ExportFailed
      | Some exported \<Rightarrow> derive_psk_session_key_from_exporter hkdf configured_psk exported)"

section \<open>The shared socket\<close>

text \<open>What the inner socket reports of a buffer it filled: the sender and the number of bytes; \<open>rm_rest\<close> stands
  for the fields that the tee only moves.\<close>

record recv_meta =
  rm_addr :: SocketAddr
  rm_len :: nat
  rm_rest :: nat

type_synonym XfrHelloDatagram = "bytes \<times> SocketAddr"

text \<open>One pass over a batch: the number kept so far, the buffers, their meta data, the hellos put into the
  channel, and the room left in it.\<close>

record tee_state =
  tee_kept :: nat
  tee_bufs :: "bytes list"
  tee_meta :: "recv_meta list"
  tee_hellos :: "XfrHelloDatagram list"
  tee_room :: nat

definition tee_datagram :: "nat \<Rightarrow> tee_state \<Rightarrow> tee_state" where
  "tee_datagram i st =
     (let len = min (rm_len (tee_meta st ! i)) (length (tee_bufs st ! i)); datagram = take len (tee_bufs st ! i)
      in case classify_shared_datagram datagram of
           Quic \<Rightarrow>
             if tee_kept st \<noteq> i
             then (if length (tee_bufs st ! tee_kept st) < len then st
                   else st\<lparr>tee_bufs := (tee_bufs st)[tee_kept st := copy_at 0 datagram (tee_bufs st ! tee_kept st)],
                           tee_meta := (tee_meta st)[tee_kept st := tee_meta st ! i], tee_kept := tee_kept st + 1\<rparr>)
             else st\<lparr>tee_kept := tee_kept st + 1\<rparr>
         | XfrHello \<Rightarrow>
             if 0 < tee_room st
             then st\<lparr>tee_hellos := tee_hellos st @ [(datagram, rm_addr (tee_meta st ! i))], tee_room := tee_room st - 1\<rparr>
             else st
         | XfrStray \<Rightarrow> st)"

definition tee_batch :: "nat \<Rightarrow> tee_state \<Rightarrow> tee_state" where
  "tee_batch n st = fold tee_datagram [0..<n] (st\<lparr>tee_kept := 0\<rparr>)"

text \<open>A poll of the inner socket: not ready, failed, or \<open>n\<close> buffers filled. A poll of the tee ends with the
  number of datagrams kept, or pending; \<open>woken\<close> says that the tee itself asks to be polled again.\<close>

datatype inner_poll = InnerPending | InnerFailed | InnerReady "bytes list" "recv_meta list" nat
datatype tee_poll = TeePending bool | TeeFailed | TeeReady nat

fun poll_recv :: "nat \<Rightarrow> inner_poll list \<Rightarrow> tee_state \<Rightarrow> tee_poll \<times> tee_state \<times> inner_poll list" where
  "poll_recv divert_iterations [] st = (TeePending False, st, [])"
| "poll_recv divert_iterations (p # ps) st =
     (case p of
        InnerPending \<Rightarrow> (TeePending False, st, ps)
      | InnerFailed \<Rightarrow> (TeeFailed, st, ps)
      | InnerReady bufs meta n \<Rightarrow>
          (let st = tee_batch n (st\<lparr>tee_bufs := bufs, tee_meta := meta\<rparr>)
           in if 0 < tee_kept st \<or> n = 0 then (TeeReady (tee_kept st), st, ps)
              else if MAX_DIVERT_ITERATIONS \<le> divert_iterations + 1 then (TeePending True, st, ps)
              else poll_recv (divert_iterations + 1) ps st))"

section \<open>Data streams\<close>

definition quic_buf_size :: "u64 option \<Rightarrow> nat" where
  "quic_buf_size bitrate =
     (case bitrate of
        Some bps \<Rightarrow> if 0 < bps then min QUIC_DEFAULT_BUFFER_SIZE (max (unat (bps div 8) div 10) 1) else QUIC_DEFAULT_BUFFER_SIZE
      | None \<Rightarrow> QUIC_DEFAULT_BUFFER_SIZE)"

text \<open>The library's write errors, as far as the loop tells them apart.\<close>

datatype quic_write_error = Stopped | ConnectionLost | OtherWrite

record quic_send_state =
  qd_stats :: StreamStats
  qd_budget :: "ByteBudget option"
  qd_deadline :: instant
  qd_pace_start :: instant
  qd_pace_bytes_offset :: u64
  qd_wire :: bytes

text \<open>How the race around a write ends. A change of the cancel channel stops the loop if the flag is set or
  the sender is gone. A write takes some of the slice; the flag says whether the cancel channel changed during the pacing
  sleep, which starts at the time given. An error comes with the cancel flag and the time.\<close>

datatype quic_race =
    QRaceCancel bool
  | QRacePause
  | QRaceDeadline
  | QWriteOk nat instant bool
  | QWriteErr quic_write_error bool instant

datatype quic_iter = QCancelled | QPaused bool duration instant | QWrite instant quic_race

datatype quic_step = QContinue quic_send_state | QBreak quic_send_state | QFail quic_write_error quic_send_state

record quic_env =
  qe_infinite :: bool
  qe_bitrate :: "u64 option"

definition quic_buffer :: "quic_env \<Rightarrow> bytes" where
  "quic_buffer env = replicate (quic_buf_size (qe_bitrate env)) 0"

definition quic_written :: "quic_env \<Rightarrow> usize \<Rightarrow> nat \<Rightarrow> quic_send_state \<Rightarrow> quic_send_state" where
  "quic_written env claimed n st =
     st\<lparr>qd_budget := refund_unwritten (qd_budget st) claimed (word_of_nat n),
        qd_stats := add_bytes_sent (qd_stats st) (word_of_nat n),
        qd_wire := qd_wire st @ take n (quic_buffer env)\<rparr>"

definition quic_teardown :: "quic_env \<Rightarrow> quic_write_error \<Rightarrow> bool \<Rightarrow> instant \<Rightarrow> instant \<Rightarrow> bool" where
  "quic_teardown env e cancelled now deadline =
     (let deadline_reached = (\<not> qe_infinite env \<and> deadline \<le> now);
          near_deadline = (\<not> qe_infinite env \<and> deadline \<le> now + QUIC_SEND_TEARDOWN_GRACE);
          peer_closed = (e = Stopped \<or> e = ConnectionLost)
      in cancelled \<or> deadline_reached \<or> (peer_closed \<and> near_deadline))"

definition quic_write_result :: "quic_env \<Rightarrow> usize \<Rightarrow> quic_race \<Rightarrow> quic_send_state \<Rightarrow> quic_step" where
  "quic_write_result env claimed r st =
     (let unwritten = st\<lparr>qd_budget := refund_unwritten (qd_budget st) claimed 0\<rparr>
      in case r of
           QRaceCancel stop \<Rightarrow> if stop then QBreak unwritten else QContinue unwritten
         | QRacePause \<Rightarrow> QContinue unwritten
         | QRaceDeadline \<Rightarrow> if qe_infinite env then QContinue unwritten else QBreak unwritten
         | QWriteOk k now cancel_wakes \<Rightarrow>
             (let st' = quic_written env claimed (min k (unat claimed)) st
              in case qe_bitrate env of
                   Some bps \<Rightarrow>
                     if 0 < bps
                        \<and> pacing_sleep bps (st_bytes_sent (qd_stats st')) (qd_pace_bytes_offset st') (qd_pace_start st') now \<noteq> None
                        \<and> cancel_wakes
                     then QBreak st' else QContinue st'
                 | None \<Rightarrow> QContinue st')
         | QWriteErr e cancelled now \<Rightarrow>
             if quic_teardown env e cancelled now (qd_deadline st) then QBreak unwritten else QFail e unwritten)"

definition quic_send_iter :: "quic_env \<Rightarrow> quic_iter \<Rightarrow> quic_send_state \<Rightarrow> quic_step" where
  "quic_send_iter env it st =
     (case it of
        QCancelled \<Rightarrow> QBreak st
      | QPaused cancelled paused now \<Rightarrow>
          if cancelled then QBreak st
          else QContinue (st\<lparr>qd_deadline := qd_deadline st + paused, qd_pace_start := now,
                            qd_pace_bytes_offset := st_bytes_sent (qd_stats st)\<rparr>)
      | QWrite now r \<Rightarrow>
          if \<not> qe_infinite env \<and> qd_deadline st \<le> now then QBreak st
          else (case claim_or_full (qd_budget st) (word_of_nat (length (quic_buffer env))) of
                  (claimed, budget') \<Rightarrow>
                    if claimed = 0 then QBreak (st\<lparr>qd_budget := budget'\<rparr>)
                    else quic_write_result env claimed r (st\<lparr>qd_budget := budget'\<rparr>)))"

fun quic_send_loop :: "quic_env \<Rightarrow> quic_iter list \<Rightarrow> quic_send_state \<Rightarrow> quic_step" where
  "quic_send_loop env [] st = QContinue st"
| "quic_send_loop env (it # its) st =
     (case quic_send_iter env it st of
        QContinue st' \<Rightarrow> quic_send_loop env its st'
      | r \<Rightarrow> r)"

definition quic_send_init :: "StreamStats \<Rightarrow> ByteBudget option \<Rightarrow> instant \<Rightarrow> duration \<Rightarrow> quic_send_state" where
  "quic_send_init stats budget start dur = \<lparr>qd_stats = stats, qd_budget = budget, qd_deadline = start + dur,
     qd_pace_start = start, qd_pace_bytes_offset = 0, qd_wire = []\<rparr>"

text \<open>After the loop the stream is finished; with a budget, and unless cancelled, the task lingers until the peer
  acknowledged everything, a cancellation, or the cap. The times are those after which the acknowledgement and a
  change of the cancel channel come.\<close>

definition quic_linger :: "ByteBudget option \<Rightarrow> bool \<Rightarrow> duration option \<Rightarrow> duration option \<Rightarrow> duration" where
  "quic_linger budget cancelled acked cancel_changed =
     (if budget \<noteq> None \<and> \<not> cancelled
      then min ACK_WAIT_CAP (min (case acked of Some t \<Rightarrow> t | None \<Rightarrow> ACK_WAIT_CAP) (case cancel_changed of Some t \<Rightarrow> t | None \<Rightarrow> ACK_WAIT_CAP))
      else 0)"

datatype CancelAction = CancelContinue | CancelStop

text \<open>\<open>changed\<close> is whether the wait for a change succeeded, and fails when the sender is gone.\<close>

definition handle_cancel_change :: "bool \<Rightarrow> bool \<Rightarrow> CancelAction" where
  "handle_cancel_change changed cancel = (if \<not> changed then CancelStop else if cancel then CancelStop else CancelContinue)"

datatype quic_recv_event = QRead nat | QFinished | QReadErr | QCancelChanged bool bool
datatype quic_recv_step = QRecvContinue StreamStats | QRecvEnd StreamStats | QRecvFail StreamStats

definition quic_recv_iter :: "quic_recv_event \<Rightarrow> StreamStats \<Rightarrow> quic_recv_step" where
  "quic_recv_iter e stats =
     (case e of
        QRead n \<Rightarrow> QRecvContinue (add_bytes_received stats (word_of_nat n))
      | QFinished \<Rightarrow> QRecvEnd stats
      | QReadErr \<Rightarrow> QRecvFail stats
      | QCancelChanged changed cancel \<Rightarrow>
          (case handle_cancel_change changed cancel of CancelStop \<Rightarrow> QRecvEnd stats | CancelContinue \<Rightarrow> QRecvContinue stats))"

fun receive_quic_data :: "quic_recv_event list \<Rightarrow> StreamStats \<Rightarrow> quic_recv_step" where
  "receive_quic_data [] stats = QRecvContinue stats"
| "receive_quic_data (e # es) stats =
     (case quic_recv_iter e stats of QRecvContinue stats' \<Rightarrow> receive_quic_data es stats' | r \<Rightarrow> r)"

section \<open>The server's side\<close>

text \<open>The answer to the client's hello, once the session key has been derived.\<close>

definition quic_server_on_hello ::
  "(ControlMessage \<Rightarrow> string) \<Rightarrow> SecurityContext \<Rightarrow> string \<Rightarrow> ControlMessage \<Rightarrow> string list \<times> (quic_error + server_await)" where
  "quic_server_on_hello to_json security nonce msg =
     (case msg of
        Hello h \<Rightarrow>
          if \<not> versions_compatible (h_version h) PROTOCOL_VERSION
          then ([serialize to_json (error_message (''Incompatible protocol version: '' @ h_version h @ '' (server: '' @ PROTOCOL_VERSION @ '')''))],
                Err (QuicHs VersionMismatch))
          else if sc_psk security \<noteq> None
          then (if \<not> capability_advertised (h_capabilities h) PROTECTED_CONTROL_CAPABILITY
                then ([serialize to_json (error_message ''PSK authentication requires protected_control_v1 capability'')],
                      Err (QuicHs NoProtectedControl))
                else if \<not> capability_advertised (h_capabilities h) QUIC_CHANNEL_BINDING_CAPABILITY
                then ([serialize to_json (error_message ''QUIC PSK authentication requires quic_channel_binding_v1 capability'')],
                      Err NoChannelBinding)
                else (let server_hello_json = serialize to_json (server_hello_with_auth_and_capabilities nonce (sc_capabilities security))
                      in ([server_hello_json],
                          Ok \<lparr>sa_auth = Some (nonce, server_hello_json), sa_capabilities = h_capabilities h,
                              sa_client_nonce = h_client_nonce h\<rparr>)))
          else ([serialize to_json (server_hello_with_capabilities (sc_capabilities security))],
                Ok \<lparr>sa_auth = None, sa_capabilities = h_capabilities h, sa_client_nonce = h_client_nonce h\<rparr>)
      | _ \<Rightarrow> ([serialize to_json (error_message ''Expected hello message'')], Err QuicExpectedHello))"

definition quic_server_on_auth ::
  "hkdf \<Rightarrow> hmac \<Rightarrow> (ControlMessage \<Rightarrow> string) \<Rightarrow> bytes option \<Rightarrow> string \<Rightarrow> string \<Rightarrow> string \<Rightarrow> string option \<Rightarrow> ControlMessage
     \<Rightarrow> string list \<times> (quic_error + ProtectedControl)" where
  "quic_server_on_auth hkdf hmac to_json quic_session_psk raw_client_hello nonce server_hello_json hello_nonce msg =
     (case msg of
        AuthResponse response \<Rightarrow>
          (case quic_session_psk of
             None \<Rightarrow> ([], Err NoSessionKey)
           | Some session_psk \<Rightarrow>
               if \<not> verify_response_with_key hmac nonce session_psk response
               then ([serialize to_json (error_message ''Authentication failed'')], Err (QuicHs AuthenticationFailed))
               else (case hello_nonce of
                       None \<Rightarrow> ([], Err (QuicHs NoClientNonce))
                     | Some cn \<Rightarrow>
                         (case derive_pair_with_key hkdf cn nonce session_psk of
                            Err e \<Rightarrow> ([], Err (QuicHs (CryptoFailed e)))
                          | Ok (c2s, s2c) \<Rightarrow>
                              (case compute_server_proof_with_key hkdf hmac (as_bytes raw_client_hello) (as_bytes server_hello_json)
                                      cn nonce session_psk of
                                 Err e \<Rightarrow> ([], Err (QuicHs (CryptoFailed e)))
                               | Ok server_proof \<Rightarrow>
                                   ([serialize to_json (auth_success_with_proof server_proof)], Ok (protected_server c2s s2c))))))
      | _ \<Rightarrow> ([serialize to_json (error_message ''Expected auth response'')], Err (QuicHs ExpectedAuthResponse)))"

text \<open>From the established connection to the installed control channel. The control stream, the client's hello
  and the answer to the challenge each come within the time limit or not.\<close>

definition hello_line :: "handshake_read \<Rightarrow> quic_error + string" where
  "hello_line r = (case r of ReadTimeout \<Rightarrow> Err (QuicHs HsTimeout) | ReadFailed \<Rightarrow> Err (QuicHs HsRead) | ReadLine line \<Rightarrow> Ok line)"

definition quic_server_authenticate ::
  "hkdf \<Rightarrow> hmac \<Rightarrow> (string \<Rightarrow> ControlMessage option) \<Rightarrow> (ControlMessage \<Rightarrow> string) \<Rightarrow> bytes option \<Rightarrow> string
     \<Rightarrow> server_await \<Rightarrow> handshake_read \<Rightarrow> string list \<times> (quic_error + ProtectedControl)" where
  "quic_server_authenticate hkdf hmac from_json to_json session_psk raw_client_hello aw auth_read =
     (case sa_auth aw of
        None \<Rightarrow> ([], Ok Plaintext)
      | Some (n, server_hello_json) \<Rightarrow>
          (case handshake_line auth_read (sa_client_nonce aw \<noteq> None) True of
             Err e \<Rightarrow> ([], Err (QuicHs e))
           | Ok line \<Rightarrow>
               (case parse_line from_json line of
                  Err e \<Rightarrow> ([], Err (QuicHs e))
                | Ok msg \<Rightarrow>
                    quic_server_on_auth hkdf hmac to_json session_psk raw_client_hello n server_hello_json (sa_client_nonce aw) msg)))"

definition quic_server_handshake ::
  "hkdf \<Rightarrow> hmac \<Rightarrow> (string \<Rightarrow> ControlMessage option) \<Rightarrow> (ControlMessage \<Rightarrow> string) \<Rightarrow> exporter \<Rightarrow> SecurityContext \<Rightarrow> string
     \<Rightarrow> bool \<Rightarrow> handshake_read \<Rightarrow> handshake_read \<Rightarrow> string list \<times> (quic_error + server_await \<times> ProtectedControl)" where
  "quic_server_handshake hkdf hmac from_json to_json export security nonce stream_opened hello_read auth_read =
     (case (case sc_psk security of
              None \<Rightarrow> Ok None
            | Some psk \<Rightarrow> (case derive_psk_session_key hkdf export psk of Err e \<Rightarrow> Err e | Ok k \<Rightarrow> Ok (Some k))) of
        Err e \<Rightarrow> ([], Err e)
      | Ok session_psk \<Rightarrow>
          if \<not> stream_opened then ([], Err NoControlStream)
          else (case hello_line hello_read of
                  Err e \<Rightarrow> ([], Err e)
                | Ok line \<Rightarrow>
                    (case parse_line from_json line of
                       Err e \<Rightarrow> ([], Err (QuicHs e))
                     | Ok msg \<Rightarrow>
                         (case quic_server_on_hello to_json security nonce msg of
                            (out, Err e) \<Rightarrow> (out, Err e)
                          | (out, Ok aw) \<Rightarrow>
                              (case quic_server_authenticate hkdf hmac from_json to_json session_psk (trim line) aw auth_read of
                                 (out', Err e) \<Rightarrow> (out @ out', Err e)
                               | (out', Ok t) \<Rightarrow> (out @ out', Ok (aw, t)))))))"

text \<open>The test request: the error to send, or the test to run and its acknowledgement.\<close>

record quic_test =
  qt_id :: string
  qt_streams :: u8
  qt_duration :: duration
  qt_direction :: Protocol.Direction
  qt_byte_budget :: "u64 option"
  qt_bitrate :: "u64 option"

definition quic_check_request ::
  "duration option \<Rightarrow> ControlMessage \<Rightarrow> ControlMessage \<times> (quic_error + quic_test)" where
  "quic_check_request server_max msg =
     (case msg of
        TestStart ts \<Rightarrow>
          if ts_udp_payload_size ts \<noteq> None
          then (error_message ''UDP payload size requires a UDP throughput test'', Err PayloadForQuic)
          else if ts_protocol ts \<noteq> QuicProto
          then (error_message ''Expected QUIC protocol for QUIC connection'', Err NotQuic)
          else if ts_streams ts = 0 \<or> MAX_STREAMS < ts_streams ts
          then (error_message (''Invalid stream count '' @ show_nat (unat (ts_streams ts)) @ '' (must be 1-'' @ show_nat (unat MAX_STREAMS) @ '')''),
                Err (QuicHs BadStreamCount))
          else (TestAck (ts_id ts) [] None,
                Ok \<lparr>qt_id = ts_id ts, qt_streams = ts_streams ts, qt_duration = effective_duration server_max (ts_duration_secs ts),
                    qt_direction = ts_direction ts, qt_byte_budget = ts_byte_budget ts, qt_bitrate = ts_bitrate ts\<rparr>)
      | _ \<Rightarrow> (error_message ''Expected test_start message'', Err (QuicHs ExpectedTestStart)))"

definition quic_handle_request ::
  "aead \<Rightarrow> (string \<Rightarrow> ControlMessage option) \<Rightarrow> (ControlMessage \<Rightarrow> string) \<Rightarrow> SecurityContext \<Rightarrow> duration option
     \<Rightarrow> server_await \<Rightarrow> ProtectedControl \<Rightarrow> handshake_read \<Rightarrow> ProtectedControl \<times> bytes \<times> (quic_error + quic_test)" where
  "quic_handle_request enc from_json to_json security server_max aw transport r =
     (case handshake_line r (sa_client_nonce aw \<noteq> None) (sc_psk security \<noteq> None) of
        Err e \<Rightarrow> (transport, [], Err (QuicHs e))
      | Ok line \<Rightarrow>
          (case parse_line from_json line of
             Err e \<Rightarrow> (transport, [], Err (QuicHs e))
           | Ok msg \<Rightarrow>
               (case quic_check_request server_max msg of
                  (reply, res) \<Rightarrow>
                    (case ProtectedControl_write_message enc transport (serialize to_json reply) of
                       (transport', Err e) \<Rightarrow> (transport', [], Err (QuicWrite e))
                     | (transport', Ok bs) \<Rightarrow> (transport', bs, res)))))"

section \<open>A test on the server\<close>

definition quic_per_stream_bitrate :: "u64 option \<Rightarrow> u8 \<Rightarrow> u64 option" where
  "quic_per_stream_bitrate bitrate streams = map_option (\<lambda>b. if b = 0 then 0 else max (b div ucast streams) 1) bitrate"

definition quic_end_on_server_send :: "quic_test \<Rightarrow> bool" where
  "quic_end_on_server_send q = (qt_byte_budget q \<noteq> None \<and> (qt_direction q = Download \<or> qt_direction q = Bidir))"

text \<open>What a handler of the server does with its stream: for an upload it accepts one the client opened and
  receives, for a download it opens one and sends, in both directions it accepts a bidirectional stream and does both.
  The wait for the stream ends with it, with an error, the time limit or a cancellation.\<close>

datatype stream_wait = GotStream | StreamRefused | StreamTimeout | StreamCancelled

record stream_role =
  sr_sends :: bool
  sr_receives :: bool
  sr_holds_sending_done :: bool
  sr_holds_recv_done :: bool

definition quic_server_stream :: "quic_test \<Rightarrow> stream_wait \<Rightarrow> stream_role option" where
  "quic_server_stream q w =
     (if w \<noteq> GotStream then None
      else Some (case qt_direction q of
             Upload \<Rightarrow> \<lparr>sr_sends = False, sr_receives = True, sr_holds_sending_done = False, sr_holds_recv_done = (qt_byte_budget q \<noteq> None)\<rparr>
           | Download \<Rightarrow> \<lparr>sr_sends = True, sr_receives = False, sr_holds_sending_done = quic_end_on_server_send q, sr_holds_recv_done = False\<rparr>
           | Bidir \<Rightarrow> \<lparr>sr_sends = True, sr_receives = True, sr_holds_sending_done = quic_end_on_server_send q,
                        sr_holds_recv_done = (qt_byte_budget q \<noteq> None)\<rparr>))"

definition quic_register :: "quic_test \<Rightarrow> IpAddr \<Rightarrow> active_tests \<Rightarrow> active_tests" where
  "quic_register q peer_ip tests =
     tests(qt_id q \<mapsto> \<lparr>av_cancelled = False, av_paused = False, av_data_ports = [], av_data_stream_tx = None,
       av_control_peer_ip = peer_ip, av_expected_streams = qt_streams q\<rparr>)"

definition quic_report_config :: "bool \<Rightarrow> quic_test \<Rightarrow> ReportLoopConfig" where
  "quic_report_config has_tui q = \<lparr>rc_id = qt_id q, rc_protocol = QuicProto, rc_duration = qt_duration q, rc_direction = qt_direction q,
     rc_tui = has_tui, rc_byte_budget_test = (qt_byte_budget q \<noteq> None), rc_end_on_server_send = quic_end_on_server_send q\<rparr>"

definition quic_server_result :: "quic_test \<Rightarrow> TestStats \<Rightarrow> u64 \<Rightarrow> TestResult" where
  "quic_server_result q stats dur_ms =
     (let b = TestStats_total_bytes stats; (sent, received, send_mbps, recv_mbps) = directional_totals (qt_direction q) stats dur_ms
      in \<lparr>tr_id = qt_id q, tr_bytes_total = b, tr_duration_ms = dur_ms, tr_throughput_mbps = total_mbps dur_ms b,
          tr_streams = map (\<lambda>s. to_result_with_direction s dur_ms (qt_direction q = Bidir)) (tst_streams stats),
          tr_tcp_info = None, tr_udp_stats = None, tr_udp_stats_send = None, tr_udp_stats_recv = None,
          tr_bytes_sent = sent, tr_bytes_received = received, tr_throughput_send_mbps = send_mbps,
          tr_throughput_recv_mbps = recv_mbps, tr_mtu_probe = None, tr_server_udp_send_errors = None,
          tr_client_udp_send_errors = None, tr_zero_byte_streams = None\<rparr>)"

text \<open>The run, from the registration to the removal of the entry, which happens on every path: the report loop
  on the split transport, the statistics once every handler has stopped, and the final flush of the result.\<close>

definition run_quic_test ::
  "aead \<Rightarrow> (ControlMessage \<Rightarrow> string) \<Rightarrow> bool \<Rightarrow> quic_test \<Rightarrow> IpAddr \<Rightarrow> ControlWriter \<Rightarrow> instant \<Rightarrow> (instant \<times> report_event) list
     \<Rightarrow> TestStats \<Rightarrow> TestStats \<Rightarrow> instant \<Rightarrow> flush_result \<Rightarrow> active_tests
     \<Rightarrow> active_tests \<times> (report_error + TestResult \<times> bytes) option" where
  "run_quic_test enc to_json has_tui q peer_ip writer start its stats0 stats now flush tests =
     (let tests = quic_register q peer_ip tests;
          config = quic_report_config has_tui q;
          r = report_loop enc to_json config start its (report_init writer stats0)
      in case r of
           Running st \<Rightarrow> (tests, None)
         | Failed e st \<Rightarrow> (remove_active_test tests (qt_id q), Some (Err e))
         | Ended st \<Rightarrow>
             (let reports = report_end to_json config start now st;
                  result = quic_server_result q stats (duration_ms reports now)
              in (remove_active_test tests (qt_id q),
                  Some (case Reporting_finish enc reports (serialize to_json (Result result)) flush of
                          (_, bs, Err e) \<Rightarrow> Err e
                        | (_, bs, Ok _) \<Rightarrow> Ok (result, bs)))))"

end
