(* ===== verification/Quic_Client.thy ===== *)
theory Quic_Client
  imports Quic Client_Run
begin

text \<open>
  The client's end of a QUIC test, \<open>run_quic\<close> and \<open>run_quic_session\<close> of \<open>src/client.rs\<close>: the handshake
  bound to the TLS connection, the control loop, and the end of the connection. The lines that the client reads are arguments, and
  the events of the control loop are those of the loop for TCP and UDP.
\<close>

section \<open>The handshake\<close>

text \<open>The session key is derived only once the server's challenge and both capabilities are there; it is part of the
  result, with the answer.\<close>

definition quic_client_on_hello ::
  "hkdf \<Rightarrow> hmac \<Rightarrow> (string \<Rightarrow> ControlMessage option) \<Rightarrow> (ControlMessage \<Rightarrow> string) \<Rightarrow> exporter \<Rightarrow> ClientConfig \<Rightarrow> string
     \<Rightarrow> quic_error + (string \<times> bytes) option \<times> client_hs" where
  "quic_client_on_hello hkdf hmac from_json to_json export c line =
     (case parse_line from_json line of
        Err e \<Rightarrow> Err (QuicHs e)
      | Ok (Hello h) \<Rightarrow>
          if \<not> versions_compatible (h_version h) PROTOCOL_VERSION then Err (QuicHs VersionMismatch)
          else (let st = \<lparr>ch_capabilities = h_capabilities h, ch_server_version = h_server h, ch_server_nonce = None,
                         ch_raw_server_hello = trim line\<rparr>
                in case h_auth h of
                     Some challenge \<Rightarrow>
                       (case cl_psk c of
                          None \<Rightarrow> Err (QuicHs PskRequired)
                        | Some psk \<Rightarrow>
                            if \<not> capability_advertised (h_capabilities h) PROTECTED_CONTROL_CAPABILITY then Err (QuicHs NoProtectedControl)
                            else if \<not> capability_advertised (h_capabilities h) QUIC_CHANNEL_BINDING_CAPABILITY then Err NoChannelBinding
                            else (case derive_psk_session_key hkdf export psk of
                                    Err e \<Rightarrow> Err e
                                  | Ok session_psk \<Rightarrow>
                                      Ok (Some (serialize to_json (auth_response (compute_response_with_key hmac (ac_nonce challenge) session_psk)),
                                                session_psk),
                                          st\<lparr>ch_server_nonce := Some (ac_nonce challenge)\<rparr>)))
                   | None \<Rightarrow> if cl_psk c \<noteq> None then Err (QuicHs ServerUsesNoPsk) else Ok (None, st))
      | Ok (Error message) \<Rightarrow> Err (QuicHs (ServerError message))
      | Ok _ \<Rightarrow> Err (QuicHs UnexpectedResponse))"

definition quic_client_on_auth ::
  "hkdf \<Rightarrow> hmac \<Rightarrow> (string \<Rightarrow> ControlMessage option) \<Rightarrow> bytes \<Rightarrow> string \<Rightarrow> string \<Rightarrow> string \<Rightarrow> string option \<Rightarrow> string
     \<Rightarrow> quic_error + unit" where
  "quic_client_on_auth hkdf hmac from_json session_psk client_hello_json raw_server_hello server_nonce cn line =
     (case parse_line from_json line of
        Err e \<Rightarrow> Err (QuicHs e)
      | Ok (AuthSuccess server_proof) \<Rightarrow>
          (case cn of
             None \<Rightarrow> Err (QuicHs NoClientNonce)
           | Some n \<Rightarrow>
               (case server_proof of
                  None \<Rightarrow> Err (QuicHs NoProof)
                | Some proof \<Rightarrow>
                    (case verify_server_proof_with_key hkdf hmac (as_bytes client_hello_json) (as_bytes raw_server_hello) n server_nonce
                            session_psk proof of
                       Err e \<Rightarrow> Err (QuicHs (CryptoFailed e))
                     | Ok good \<Rightarrow> if good then Ok () else Err (QuicHs ProofFailed))))
      | Ok (Error message) \<Rightarrow> Err (QuicHs (AuthRejected message))
      | Ok _ \<Rightarrow> Err (QuicHs UnexpectedResponse))"

definition quic_client_transport ::
  "hkdf \<Rightarrow> ClientConfig \<Rightarrow> bytes option \<Rightarrow> string option \<Rightarrow> string option \<Rightarrow> quic_error + ProtectedControl" where
  "quic_client_transport hkdf c quic_session_psk cn sn =
     (if cl_psk c = None then Ok Plaintext
      else (case quic_session_psk of
              None \<Rightarrow> Err NoSessionKey
            | Some session_psk \<Rightarrow>
                (case (cn, sn) of
                   (Some n, Some s) \<Rightarrow>
                     (case derive_pair_with_key hkdf n s session_psk of
                        Err e \<Rightarrow> Err (QuicHs (CryptoFailed e))
                      | Ok (c2s, s2c) \<Rightarrow> Ok (protected_client c2s s2c))
                 | _ \<Rightarrow> Err (QuicHs NoClientNonce))))"

definition quic_client_handshake ::
  "hkdf \<Rightarrow> hmac \<Rightarrow> (string \<Rightarrow> ControlMessage option) \<Rightarrow> (ControlMessage \<Rightarrow> string) \<Rightarrow> exporter \<Rightarrow> ClientConfig \<Rightarrow> string
     \<Rightarrow> string \<Rightarrow> string \<Rightarrow> string list \<times> (quic_error + client_hs \<times> ProtectedControl)" where
  "quic_client_handshake hkdf hmac from_json to_json export c fresh server_line reply_line =
     (let cn = client_nonce c fresh; client_hello_json = serialize to_json (client_first c fresh)
      in case quic_client_on_hello hkdf hmac from_json to_json export c server_line of
           Err e \<Rightarrow> ([client_hello_json], Err e)
         | Ok (None, st) \<Rightarrow>
             ([client_hello_json],
              case quic_client_transport hkdf c None cn (ch_server_nonce st) of Err e \<Rightarrow> Err e | Ok t \<Rightarrow> Ok (st, t))
         | Ok (Some (answer, session_psk), st) \<Rightarrow>
             ([client_hello_json, answer],
              case quic_client_on_auth hkdf hmac from_json session_psk client_hello_json (ch_raw_server_hello st)
                     (the (ch_server_nonce st)) cn reply_line of
                Err e \<Rightarrow> Err e
              | Ok _ \<Rightarrow> (case quic_client_transport hkdf c (Some session_psk) cn (ch_server_nonce st) of
                           Err e \<Rightarrow> Err e | Ok t \<Rightarrow> Ok (st, t))))"

definition quic_supports_pause :: "client_hs \<Rightarrow> bool" where
  "quic_supports_pause st = (case ch_capabilities st of Some caps \<Rightarrow> list_ex (\<lambda>c. c = ''pause_resume'') caps | None \<Rightarrow> False)"

definition quic_test_start :: "ClientConfig \<Rightarrow> string list option \<Rightarrow> string \<Rightarrow> hs_error + ControlMessage" where
  "quic_test_start c caps test_id =
     (if cl_byte_budget c \<noteq> None \<and> \<not> capability_advertised caps BYTE_BUDGET_CAPABILITY then Err NoByteBudgetSupport
      else Ok (TestStart \<lparr>ts_id = test_id, ts_protocol = QuicProto, ts_streams = cl_streams c,
               ts_duration_secs = word_of_nat (as_secs (cl_duration c)), ts_direction = cl_direction c, ts_bitrate = cl_bitrate c,
               ts_congestion = None, ts_mptcp = False, ts_dscp = None, ts_window_size = None, ts_zerocopy = False,
               ts_mtu_probe = False, ts_tcp_nodelay = False, ts_byte_budget = cl_byte_budget c, ts_udp_payload_size = None\<rparr>))"

definition quic_on_ack :: "ControlMessage \<Rightarrow> hs_error + unit" where
  "quic_on_ack msg =
     (case msg of
        TestAck i data_ports udp_token \<Rightarrow> Ok ()
      | Error message \<Rightarrow> Err (ServerError message)
      | _ \<Rightarrow> Err ExpectedTestAck)"

section \<open>Streams\<close>

text \<open>What the task of a stream does once it has its stream, as on the server with the sides exchanged: the guard of
  the byte budget is held by every task, until both halves have ended.\<close>

definition quic_client_stream :: "ClientConfig \<Rightarrow> bool \<Rightarrow> stream_role option" where
  "quic_client_stream c got =
     (let guard = (cl_byte_budget c \<noteq> None \<and> cl_direction c \<noteq> Download)
      in if \<not> got then None
         else Some \<lparr>sr_sends = (cl_direction c \<noteq> Download), sr_receives = (cl_direction c \<noteq> Upload),
                    sr_holds_sending_done = guard, sr_holds_recv_done = False\<rparr>)"

section \<open>The control loop\<close>

definition quic_init :: "client_env \<Rightarrow> instant \<Rightarrow> client_state" where
  "quic_init e now = \<lparr>cr_deadline = now + timeout_duration e, cr_local_end = None, cr_local_stop_sent = False,
     cr_pause_started_at = None, cr_paused_total = 0, cr_finish_sent = False, cr_cancel_request_open = True,
     cr_pause_request_open = True, cr_last_recv_bytes = [], cr_last_recv_instant = now, cr_filter = None, cr_stopped = False,
     cr_pauses = [], cr_sent = [], cr_shown = [], cr_busy = LoopIdle, cr_feedback_pending = None\<rparr>"

definition quic_interval :: "client_env \<Rightarrow> u64 \<Rightarrow> StreamInterval list \<Rightarrow> AggregateInterval \<Rightarrow> client_state \<Rightarrow> client_state" where
  "quic_interval e elapsed_ms streams aggregate st =
     (if \<not> ce_progress e then st
      else start_showing
        \<lparr>tp_elapsed_ms = elapsed_ms, tp_total_bytes = ai_bytes aggregate, tp_throughput_mbps = ai_throughput_mbps aggregate,
         tp_streams = streams, tp_rtt_us = ai_rtt_us aggregate, tp_cwnd = ai_cwnd aggregate, tp_total_retransmits = None,
         tp_bytes_sent = ai_bytes_sent aggregate, tp_bytes_received = ai_bytes_received aggregate,
         tp_throughput_send_mbps = ai_throughput_send_mbps aggregate, tp_throughput_recv_mbps = ai_throughput_recv_mbps aggregate,
         tp_udp_progress = ai_udp_progress aggregate, tp_udp_feedback_only = False, tp_udp_send = None, tp_udp_recv = None\<rparr> st)"

definition quic_message :: "client_env \<Rightarrow> instant \<Rightarrow> ControlMessage \<Rightarrow> client_state \<Rightarrow> client_step" where
  "quic_message e now msg st =
     (case msg of
        Interval i elapsed_ms streams aggregate \<Rightarrow> ClRunning (quic_interval e elapsed_ms streams aggregate st)
      | Result result \<Rightarrow> ClDone (Ok result) (st\<lparr>cr_stopped := True\<rparr>)
      | Error message \<Rightarrow> ClDone (Err (ServerSaid message)) (st\<lparr>cr_stopped := True\<rparr>)
      | Cancelled i \<Rightarrow> ClRunning (start_control_cancel_wait now (st\<lparr>cr_stopped := True\<rparr>))
      | _ \<Rightarrow> ClRunning st)"

definition quic_pause :: "client_env \<Rightarrow> bool \<Rightarrow> instant \<Rightarrow> client_state \<Rightarrow> client_state" where
  "quic_pause e paused now st =
     (let st = (if paused
                then (if cr_pause_started_at st = None then st\<lparr>cr_pause_started_at := Some now\<rparr> else st)
                else (case cr_pause_started_at st of
                        Some started \<Rightarrow> st\<lparr>cr_pause_started_at := None, cr_deadline := cr_deadline st + (now - started)\<rparr>
                      | None \<Rightarrow> st));
          st = st\<lparr>cr_pauses := cr_pauses st @ [paused]\<rparr>
      in if ce_supports_pause e
         then start_write None (if paused then ControlMessage.Pause (ce_test_id e) else Resume (ce_test_id e)) st
         else st)"

text \<open>The loop has no branches for a local end, ticks or feedback: their events change nothing.\<close>

definition quic_select :: "client_env \<Rightarrow> client_event \<Rightarrow> client_state \<Rightarrow> client_step" where
  "quic_select e ev st =
     (case ev of
        ClCommand cmd now stats tcp_info_of \<Rightarrow>
          (case cmd of
             Some EvEof \<Rightarrow> ClDone (Err NoResult) (st\<lparr>cr_stopped := True\<rparr>)
           | Some (EvError err) \<Rightarrow> ClDone (Err err) (st\<lparr>cr_stopped := True\<rparr>)
           | Some (EvMessage msg) \<Rightarrow> quic_message e now msg st
           | None \<Rightarrow> ClDone (Err NoResult) (st\<lparr>cr_stopped := True\<rparr>))
      | ClCancelRequest req now \<Rightarrow>
          if \<not> cr_cancel_request_open st then ClRunning st
          else (case req of
                  None \<Rightarrow> ClRunning (st\<lparr>cr_cancel_request_open := False\<rparr>)
                | Some requested \<Rightarrow>
                    if requested
                    then ClRunning (send_control_cancel (Cancel (ce_test_id e) ''User requested cancellation'') now st)
                    else ClRunning st)
      | ClPauseRequest req now \<Rightarrow>
          if \<not> cr_pause_request_open st then ClRunning st
          else (case req of
                  None \<Rightarrow> ClRunning (st\<lparr>cr_pause_request_open := False\<rparr>)
                | Some paused \<Rightarrow> ClRunning (quic_pause e paused now st))
      | ClSendingDone \<Rightarrow>
          if finish_on_budget e \<and> \<not> cr_finish_sent st
          then ClRunning (start_write None (Finish (ce_test_id e)) (st\<lparr>cr_finish_sent := True\<rparr>)) else ClRunning st
      | ClDeadline now \<Rightarrow>
          if cr_pause_started_at st = None \<and> cr_deadline st \<le> now then ClDone (Err TimedOut) (st\<lparr>cr_stopped := True\<rparr>) else ClRunning st
      | _ \<Rightarrow> ClRunning st)"

definition quic_event_step :: "client_env \<Rightarrow> client_event \<Rightarrow> client_state \<Rightarrow> client_step" where
  "quic_event_step e ev st = (if cr_busy st = LoopIdle then quic_select e ev st else ClRunning (wait_ends ev st))"

fun quic_loop :: "client_env \<Rightarrow> client_event list \<Rightarrow> client_state \<Rightarrow> client_step" where
  "quic_loop e [] st = ClRunning st"
| "quic_loop e (ev # evs) st =
     (case quic_event_step e ev st of ClRunning st' \<Rightarrow> quic_loop e evs st' | ClDone r st' \<Rightarrow> ClDone r st')"

section \<open>A whole session\<close>

text \<open>After the loop the streams are stopped and joined within a limit; with a result the client stays connected until the
  server closes, at most \<open>QUIC_CLOSE_GRACE\<close>. The flags of the end: how long the join and the server's close
  took (\<open>None\<close> when they never came), and whether the library closed the connection because it heard nothing.\<close>

datatype session_error = Handshake quic_error | Run run_error | ConnectTimedOut | ConnectFailed | ServerSilent

record session_end =
  se_join :: "duration option"
  se_server_close :: "duration option"
  se_idle_closed :: bool

definition wait_at_most :: "duration \<Rightarrow> duration option \<Rightarrow> duration" where
  "wait_at_most limit t = (case t of Some d \<Rightarrow> min d limit | None \<Rightarrow> limit)"

definition quic_closing_time :: "client_env \<Rightarrow> session_end \<Rightarrow> (run_error + TestResult) \<Rightarrow> duration" where
  "quic_closing_time e fin r =
     wait_at_most (stream_join_timeout (cl_streams (ce_config e))) (se_join fin)
     + (case r of Ok _ \<Rightarrow> wait_at_most QUIC_CLOSE_GRACE (se_server_close fin) | Err _ \<Rightarrow> 0)"

definition quic_run :: "client_env \<Rightarrow> instant \<Rightarrow> client_event list \<Rightarrow> (run_error + TestResult) option \<times> client_state" where
  "quic_run e now evs =
     (case quic_loop e evs (quic_init e now) of
        ClRunning st \<Rightarrow> (None, st)
      | ClDone r st \<Rightarrow> (Some r, st\<lparr>cr_stopped := True\<rparr>))"

text \<open>An error of a session whose connection went idle is replaced by one that says so.\<close>

definition explain_silence :: "session_end \<Rightarrow> (session_error + TestResult) \<Rightarrow> session_error + TestResult" where
  "explain_silence fin r = (case r of Err e \<Rightarrow> if se_idle_closed fin then Err ServerSilent else Err e | Ok res \<Rightarrow> Ok res)"

text \<open>\<open>run_quic\<close>: a new run forgets what the last one knew of the server, connects within the time limit if there is one, and
  runs the session. \<open>connect\<close> is when resolving and connecting end and whether they succeed, \<open>None\<close> if they never end.\<close>

definition quic_reset :: "Client \<Rightarrow> Client" where
  "quic_reset x = x\<lparr>cx_server_supports_pause := None, cx_pause_request := None, cx_server_version := None\<rparr>"

definition quic_learn :: "client_hs \<Rightarrow> Client \<Rightarrow> Client" where
  "quic_learn hs x = x\<lparr>cx_server_version := ch_server_version hs, cx_server_supports_pause := Some (quic_supports_pause hs)\<rparr>"

definition connect_within :: "duration option \<Rightarrow> (duration \<times> bool) option \<Rightarrow> (session_error + unit) option" where
  "connect_within limit connect =
     (let outcome = (\<lambda>ok. Some (if ok then Ok () else Err ConnectFailed))
      in case (limit, connect) of
           (Some l, Some (t, ok)) \<Rightarrow> if t < l then outcome ok else Some (Err ConnectTimedOut)
         | (Some l, None) \<Rightarrow> Some (Err ConnectTimedOut)
         | (None, Some (t, ok)) \<Rightarrow> outcome ok
         | (None, None) \<Rightarrow> None)"

definition quic_session ::
  "client_env \<Rightarrow> quic_error + client_hs \<times> ProtectedControl \<Rightarrow> ControlMessage \<Rightarrow> instant \<Rightarrow> client_event list \<Rightarrow> Client
     \<Rightarrow> (session_error + TestResult) option \<times> Client" where
  "quic_session e handshake ack now evs x =
     (case handshake of
        Err err \<Rightarrow> (Some (Err (Handshake err)), x)
      | Ok (hs, transport) \<Rightarrow>
          (let x = quic_learn hs x
           in case quic_test_start (ce_config e) (ch_capabilities hs) (ce_test_id e) of
                Err err \<Rightarrow> (Some (Err (Handshake (QuicHs err))), x)
              | Ok start \<Rightarrow>
                  (case quic_on_ack ack of
                     Err err \<Rightarrow> (Some (Err (Handshake (QuicHs err))), x)
                   | Ok _ \<Rightarrow>
                       (map_option (\<lambda>r. case r of Err err \<Rightarrow> Err (Run err) | Ok res \<Rightarrow> Ok res)
                          (fst (quic_run (e\<lparr>ce_supports_pause := quic_supports_pause hs\<rparr>) now evs)), x))))"

definition run_quic ::
  "client_env \<Rightarrow> (duration \<times> bool) option \<Rightarrow> quic_error + client_hs \<times> ProtectedControl \<Rightarrow> ControlMessage
     \<Rightarrow> instant \<Rightarrow> client_event list \<Rightarrow> session_end \<Rightarrow> Client \<Rightarrow> (session_error + TestResult) option \<times> Client" where
  "run_quic e connect handshake ack now evs fin x =
     (let x = quic_reset x
      in case connect_within (cl_connect_timeout (ce_config e)) connect of
           None \<Rightarrow> (None, x)
         | Some (Err err) \<Rightarrow> (Some (Err err), x)
         | Some (Ok _) \<Rightarrow>
             (case quic_session e handshake ack now evs x of (r, x) \<Rightarrow> (map_option (explain_silence fin) r, x)))"

end
