(* ===== verification/Quic_Correct.thy ===== *)
theory Quic_Correct
  imports Quic_Client Handshake_Correct Tcp_Correct Client_Run_Correct
begin

text \<open>
  Correctness of the QUIC transport: a pre-shared key proves itself only on the TLS connection it was used on, both ends
  insist on that binding, the tee gives each side of the shared socket exactly its datagrams, and a sender counts what it wrote and
  stays inside its budget.
\<close>

section \<open>The shared socket\<close>

text \<open>The datagram that the inner socket left in buffer \<open>i\<close>, with its meta data.\<close>

definition received :: "bytes list \<Rightarrow> recv_meta list \<Rightarrow> nat \<Rightarrow> bytes \<times> recv_meta" where
  "received bufs meta i = (take (rm_len (meta ! i)) (bufs ! i), meta ! i)"

definition quic_lane :: "bytes list \<Rightarrow> recv_meta list \<Rightarrow> nat \<Rightarrow> (bytes \<times> recv_meta) list" where
  "quic_lane bufs meta n = filter (\<lambda>(d, m). classify_shared_datagram d = Quic) (map (received bufs meta) [0..<n])"

definition hello_lane :: "bytes list \<Rightarrow> recv_meta list \<Rightarrow> nat \<Rightarrow> XfrHelloDatagram list" where
  "hello_lane bufs meta n =
     map (\<lambda>(d, m). (d, rm_addr m)) (filter (\<lambda>(d, m). classify_shared_datagram d = XfrHello) (map (received bufs meta) [0..<n]))"

lemma lanes_Suc:
  "quic_lane bufs meta (Suc i) = quic_lane bufs meta i
     @ (if classify_shared_datagram (fst (received bufs meta i)) = Quic then [received bufs meta i] else [])"
  "hello_lane bufs meta (Suc i) = hello_lane bufs meta i
     @ (if classify_shared_datagram (fst (received bufs meta i)) = XfrHello
        then [(fst (received bufs meta i), rm_addr (snd (received bufs meta i)))] else [])"
  by (simp_all add: quic_lane_def hello_lane_def split: prod.splits)

lemma take_min_length: "take (min n (length xs)) xs = take n xs"
  by (cases "n \<le> length xs") auto

text \<open>After \<open>i\<close> datagrams of a batch: the kept ones are compacted at the front, in order, the hellos are in the
  channel as far as it has room, and the buffers not looked at yet are untouched.\<close>

definition tee_inv :: "bytes list \<Rightarrow> recv_meta list \<Rightarrow> nat \<Rightarrow> XfrHelloDatagram list \<Rightarrow> nat \<Rightarrow> nat \<Rightarrow> tee_state \<Rightarrow> bool" where
  "tee_inv bufs meta cap sent room i st \<longleftrightarrow>
     tee_kept st \<le> i
     \<and> length (tee_bufs st) = length bufs \<and> length (tee_meta st) = length meta
     \<and> list_all (\<lambda>b. length b = cap) (tee_bufs st)
     \<and> map (received (tee_bufs st) (tee_meta st)) [0..<tee_kept st] = quic_lane bufs meta i
     \<and> (\<forall>j\<ge>i. tee_bufs st ! j = bufs ! j \<and> tee_meta st ! j = meta ! j)
     \<and> tee_hellos st = sent @ take room (hello_lane bufs meta i)
     \<and> tee_room st = room - length (hello_lane bufs meta i)"

lemma take_copy_at: "length d \<le> length b \<Longrightarrow> take (length d) (copy_at 0 d b) = d \<and> length (copy_at 0 d b) = length b"
  by (simp add: copy_at_def)

lemma received_copy:
  assumes "length b = length b'" "d = take n b"
  shows "take n (copy_at 0 d b') = d" "length (copy_at 0 d b') = length b'"
  using assms by (cases "n \<le> length b"; simp)+

lemma tee_inv_step:
  assumes inv: "tee_inv bufs meta cap sent room i st" and i: "i < length bufs" "length meta = length bufs"
  shows "tee_inv bufs meta cap sent room (Suc i) (tee_datagram i st)"
proof -
  let ?b = "tee_bufs st ! i" and ?m = "tee_meta st ! i" and ?k = "tee_kept st"
  define d where "d = take (rm_len ?m) ?b"
  have same: "?b = bufs ! i" "?m = meta ! i" and k: "?k \<le> i" and len: "length (tee_bufs st) = length bufs" "length (tee_meta st) = length bufs"
    and caps: "\<And>j. j < length bufs \<Longrightarrow> length (tee_bufs st ! j) = cap"
    using inv i by (auto simp: tee_inv_def list_all_length)
  have r: "received bufs meta i = (d, ?m)" by (simp add: received_def d_def same)
  have dd: "take (min (rm_len ?m) (length ?b)) ?b = d" by (simp add: d_def take_min_length)
  show ?thesis
  proof (cases "classify_shared_datagram d")
    case Quic
    have lanes: "quic_lane bufs meta (Suc i) = quic_lane bufs meta i @ [(d, ?m)]" "hello_lane bufs meta (Suc i) = hello_lane bufs meta i"
      using Quic r by (simp_all add: lanes_Suc)
    show ?thesis
    proof (cases "?k = i")
      case True
      then have st': "tee_datagram i st = st\<lparr>tee_kept := ?k + 1\<rparr>" by (simp add: tee_datagram_def Let_def dd Quic)
      have "received (tee_bufs st) (tee_meta st) i = (d, ?m)" by (simp add: received_def d_def)
      then show ?thesis using inv True by (simp add: tee_inv_def st' lanes)
    next
      case False
      define nb where "nb = copy_at 0 d (tee_bufs st ! ?k)"
      have ki: "?k < i" using False k by simp
      have nb: "take (rm_len ?m) nb = d" "length nb = cap"
        using received_copy [of ?b "tee_bufs st ! ?k" d "rm_len ?m"] caps [of i] caps [of ?k] ki i
        by (simp_all add: nb_def d_def del: copy_at_0)
      have "length (tee_bufs st ! ?k) = length ?b" using caps ki i by simp
      then have st': "tee_datagram i st = st\<lparr>tee_bufs := (tee_bufs st)[?k := nb], tee_meta := (tee_meta st)[?k := ?m], tee_kept := ?k + 1\<rparr>"
        using False by (simp add: tee_datagram_def Let_def dd Quic nb_def del: copy_at_0)
      have old: "received ((tee_bufs st)[?k := nb]) ((tee_meta st)[?k := ?m]) j = received (tee_bufs st) (tee_meta st) j" if "j < ?k" for j
        using that by (simp add: received_def)
      have new: "received ((tee_bufs st)[?k := nb]) ((tee_meta st)[?k := ?m]) ?k = (d, ?m)"
        using ki i len nb(1) by (simp add: received_def)
      have "map (received ((tee_bufs st)[?k := nb]) ((tee_meta st)[?k := ?m])) [0..<?k]
          = map (received (tee_bufs st) (tee_meta st)) [0..<?k]"
        using old by simp
      moreover have "map (received (tee_bufs st) (tee_meta st)) [0..<?k] = quic_lane bufs meta i"
        using inv unfolding tee_inv_def by blast
      ultimately have "map (received ((tee_bufs st)[?k := nb]) ((tee_meta st)[?k := ?m])) [0..<?k] = quic_lane bufs meta i"
        by (rule trans)
      moreover have "list_all (\<lambda>b. length b = cap) ((tee_bufs st)[?k := nb])"
        using caps nb(2) len less_trans [OF ki i(1)] by (simp add: list_all_length nth_list_update)
      ultimately show ?thesis using inv new ki by (simp add: tee_inv_def st' lanes)
    qed
  next
    case XfrHello
    have lanes: "quic_lane bufs meta (Suc i) = quic_lane bufs meta i"
      "hello_lane bufs meta (Suc i) = hello_lane bufs meta i @ [(d, rm_addr ?m)]"
      using XfrHello r by (simp_all add: lanes_Suc)
    have st': "tee_datagram i st = (if 0 < tee_room st
        then st\<lparr>tee_hellos := tee_hellos st @ [(d, rm_addr ?m)], tee_room := tee_room st - 1\<rparr> else st)"
      by (simp add: tee_datagram_def Let_def dd XfrHello)
    show ?thesis
      using inv by (cases "length (hello_lane bufs meta i) < room") (simp_all add: tee_inv_def st' lanes)
  next
    case XfrStray
    have lanes: "quic_lane bufs meta (Suc i) = quic_lane bufs meta i" "hello_lane bufs meta (Suc i) = hello_lane bufs meta i"
      using XfrStray r by (simp_all add: lanes_Suc)
    have "tee_datagram i st = st" by (simp add: tee_datagram_def Let_def dd XfrStray)
    then show ?thesis using inv by (simp add: tee_inv_def lanes)
  qed
qed

lemma tee_batch_inv:
  assumes "n \<le> length bufs" "length meta = length bufs" "list_all (\<lambda>b. length b = cap) bufs" "tee_bufs st = bufs" "tee_meta st = meta"
  shows "tee_inv bufs meta cap (tee_hellos st) (tee_room st) n (tee_batch n st)"
proof -
  have "tee_inv bufs meta cap (tee_hellos st) (tee_room st) i (fold tee_datagram [0..<i] (st\<lparr>tee_kept := 0\<rparr>))" if "i \<le> n" for i
    using that
  proof (induction i)
    case 0
    show ?case using assms by (simp add: tee_inv_def quic_lane_def hello_lane_def)
  next
    case (Suc i)
    then show ?case using assms(1,2) by (simp add: tee_inv_step)
  qed
  then show ?thesis by (simp add: tee_batch_def)
qed

section \<open>Data streams\<close>

fun quic_state :: "quic_step \<Rightarrow> quic_send_state" where
  "quic_state (QContinue st) = st"
| "quic_state (QBreak st) = st"
| "quic_state (QFail e st) = st"

fun quic_paused :: "quic_iter \<Rightarrow> duration" where
  "quic_paused (QPaused cancelled paused now) = (if cancelled then 0 else paused)"
| "quic_paused _ = 0"

definition quic_inv :: "nat option \<Rightarrow> u64 \<Rightarrow> quic_send_state \<Rightarrow> bool" where
  "quic_inv N b0 st \<longleftrightarrow> budget_ok N (qd_budget st) (length (qd_wire st))
     \<and> st_bytes_sent (qd_stats st) = b0 + word_of_nat (length (qd_wire st))"

lemma quic_buffer_length: "0 < length (quic_buffer env)" "length (quic_buffer env) < 2 ^ 64"
  by (auto simp: quic_buffer_def quic_buf_size_def QUIC_DEFAULT_BUFFER_SIZE_def split: option.splits)


lemma quic_inv_iter:
  assumes "quic_inv N b0 st"
  shows "quic_inv N b0 (quic_state (quic_send_iter env it st))"
proof (cases "\<exists>now r. it = QWrite now r \<and> \<not> (\<not> qe_infinite env \<and> qd_deadline st \<le> now)")
  case False
  then show ?thesis using assms by (cases it) (auto simp: quic_send_iter_def quic_inv_def)
next
  case True
  then obtain now r where it: "it = QWrite now r" "\<not> (\<not> qe_infinite env \<and> qd_deadline st \<le> now)" by blast
  obtain claimed b' where c: "claim_or_full (qd_budget st) (word_of_nat (length (quic_buffer env))) = (claimed, b')"
    by (cases "claim_or_full (qd_budget st) (word_of_nat (length (quic_buffer env)))")
  have ok: "budget_ok N (qd_budget st) (length (qd_wire st))" using assms by (simp add: quic_inv_def)
  have w: "unat (word_of_nat (length (quic_buffer env)) :: usize) = length (quic_buffer env)"
    using quic_buffer_length(2) [of env] by (intro unat_word_of_nat) simp
  note refund = claim_refund [OF c _ ok]
  have le: "unat claimed \<le> length (quic_buffer env)" using refund(2) [of 0] w by (simp add: word_le_nat_alt)
  have none: "quic_inv N b0 (st\<lparr>qd_budget := refund_unwritten b' claimed 0\<rparr>)"
    using refund(1) [of 0] assms by (simp add: quic_inv_def)
  have some: "quic_inv N b0 (quic_written env claimed (min k (unat claimed)) (st\<lparr>qd_budget := b'\<rparr>))" for k
    using refund(1) [of "min k (unat claimed)"] assms le
    by (simp add: quic_inv_def quic_written_def add_bytes_sent_def min_absorb1 min.coboundedI2 add.assoc)
  show ?thesis
  proof (cases "claimed = 0")
    case True
    have "quic_inv N b0 (st\<lparr>qd_budget := b'\<rparr>)"
      using none True by (cases b') (auto simp: refund_unwritten_def refund_def saturating_sub_def)
    then show ?thesis using it c True assms by (auto simp: quic_send_iter_def)
  next
    case False
    then have "quic_send_iter env it st = quic_write_result env claimed r (st\<lparr>qd_budget := b'\<rparr>)"
      using it c by (auto simp: quic_send_iter_def)
    then show ?thesis
      using none some by (cases r) (auto simp: quic_write_result_def Let_def split: option.splits)
  qed
qed

lemma quic_inv_loop: "quic_inv N b0 st \<Longrightarrow> quic_inv N b0 (quic_state (quic_send_loop env its st))"
proof (induction its arbitrary: st)
  case Nil
  then show ?case by simp
next
  case (Cons it its)
  show ?case
    using quic_inv_iter [OF Cons.prems, of env it] Cons.IH by (cases "quic_send_iter env it st") simp_all
qed


lemma quic_deadline_iter:
  "(case quic_send_iter env it st of
      QContinue st' \<Rightarrow> qd_deadline st' = qd_deadline st + quic_paused it
    | QBreak st' \<Rightarrow> True
    | QFail e st' \<Rightarrow> (\<exists>now. \<exists>t. it = QWrite t (QWriteErr e False now)
        \<and> (qe_infinite env \<or> now < qd_deadline st)
        \<and> (e = OtherWrite \<or> qe_infinite env \<or> now + QUIC_SEND_TEARDOWN_GRACE < qd_deadline st)))"
proof (cases it)
  case (QWrite now r)
  then show ?thesis
    by (cases r) (auto simp: quic_send_iter_def quic_write_result_def quic_written_def quic_teardown_def Let_def
        split: prod.splits option.splits; metis quic_write_error.exhaust)+
qed (auto simp: quic_send_iter_def)

lemma quic_wire_zero:
  "set (qd_wire (quic_state (quic_send_iter env it st))) \<subseteq> insert 0 (set (qd_wire st))"
proof (cases it)
  case (QWrite now r)
  then show ?thesis
    by (cases r) (auto simp: quic_send_iter_def quic_write_result_def quic_written_def quic_buffer_def Let_def
        split: prod.splits option.splits dest: in_set_takeD)
qed (auto simp: quic_send_iter_def)


section \<open>Authentication\<close>

lemma verify_response_with_key_iff:
  "verify_response_with_key hmac nonce key response \<longleftrightarrow> response = compute_response_with_key hmac nonce key"
  by (auto simp: verify_response_with_key_def Let_def constant_time_eq_iff as_bytes_inj)

lemma verify_server_proof_with_key_iff:
  "verify_server_proof_with_key hkdf hmac ch sh cn sn key p = Ok True
     \<longleftrightarrow> compute_server_proof_with_key hkdf hmac ch sh cn sn key = Ok p"
  by (auto simp: verify_server_proof_with_key_def constant_time_eq_iff as_bytes_inj split: sum.splits)

lemma quic_server_hello_Ok:
  assumes "quic_server_on_hello to_json sec nonce msg = (out, Ok aw)" "sc_psk sec = Some psk"
  shows "\<exists>h. msg = Hello h \<and> capability_advertised (h_capabilities h) PROTECTED_CONTROL_CAPABILITY
    \<and> capability_advertised (h_capabilities h) QUIC_CHANNEL_BINDING_CAPABILITY
    \<and> aw = \<lparr>sa_auth = Some (nonce, to_json (server_hello_with_auth_and_capabilities nonce (sc_capabilities sec))),
             sa_capabilities = h_capabilities h, sa_client_nonce = h_client_nonce h\<rparr>"
  using assms
  by (cases msg) (auto simp: quic_server_on_hello_def Let_def serialize_def split: if_splits)

lemma quic_server_auth_Ok:
  assumes "quic_server_on_auth hkdf hmac to_json key raw n sh cn msg = (out, Ok t)"
  shows "\<exists>k c c2s s2c. key = Some k \<and> cn = Some c \<and> msg = AuthResponse (compute_response_with_key hmac n k)
    \<and> derive_pair_with_key hkdf c n k = Ok (c2s, s2c) \<and> t = protected_server c2s s2c"
  using assms
  by (cases msg) (auto simp: quic_server_on_auth_def verify_response_with_key_iff split: option.splits if_splits sum.splits prod.splits)

lemma quic_server_authenticate_Ok:
  assumes "quic_server_authenticate hkdf hmac from_json to_json key raw aw r = (out, Ok t)" "sa_auth aw = Some (n, sh)"
  shows "\<exists>k c c2s s2c line. key = Some k \<and> sa_client_nonce aw = Some c \<and> r = ReadLine line
    \<and> parse_line from_json line = Ok (AuthResponse (compute_response_with_key hmac n k))
    \<and> derive_pair_with_key hkdf c n k = Ok (c2s, s2c) \<and> t = protected_server c2s s2c"
proof -
  obtain line msg where l: "handshake_line r (sa_client_nonce aw \<noteq> None) True = Ok line" "parse_line from_json line = Ok msg"
    and a: "quic_server_on_auth hkdf hmac to_json key raw n sh (sa_client_nonce aw) msg = (out, Ok t)"
    using assms by (auto simp: quic_server_authenticate_def split: sum.splits)
  have "r = ReadLine line"
    using l(1) by (auto simp: handshake_line_def explain_psk_hangup_def split: handshake_read.splits if_splits bool.splits)
  then show ?thesis using quic_server_auth_Ok [OF a] l(2) by blast
qed

lemma quic_server_handshake_psk:
  assumes "quic_server_handshake hkdf hmac from_json to_json export sec sn opened hello_read auth_read = (out, Ok (aw, t))"
    "sc_psk sec = Some psk"
  shows "\<exists>key h cn c2s s2c hello line. derive_psk_session_key hkdf export psk = Ok key
    \<and> hello_read = ReadLine hello \<and> parse_line from_json hello = Ok (Hello h) \<and> h_client_nonce h = Some cn
    \<and> capability_advertised (h_capabilities h) PROTECTED_CONTROL_CAPABILITY
    \<and> capability_advertised (h_capabilities h) QUIC_CHANNEL_BINDING_CAPABILITY
    \<and> auth_read = ReadLine line \<and> parse_line from_json line = Ok (AuthResponse (compute_response_with_key hmac sn key))
    \<and> derive_pair_with_key hkdf cn sn key = Ok (c2s, s2c) \<and> t = protected_server c2s s2c"
proof -
  obtain key where key: "derive_psk_session_key hkdf export psk = Ok key"
    using assms by (cases "derive_psk_session_key hkdf export psk") (auto simp: quic_server_handshake_def)
  obtain hello where hello: "hello_read = ReadLine hello"
    using assms key by (cases hello_read) (auto simp: quic_server_handshake_def hello_line_def split: if_splits)
  obtain msg where msg: "parse_line from_json hello = Ok msg"
    using assms key hello
    by (cases "parse_line from_json hello") (auto simp: quic_server_handshake_def hello_line_def split: if_splits)
  obtain o1 o2 where h: "quic_server_on_hello to_json sec sn msg = (o1, Ok aw)"
    and a: "quic_server_authenticate hkdf hmac from_json to_json (Some key) (trim hello) aw auth_read = (o2, Ok t)"
    using assms key hello msg
    by (auto simp: quic_server_handshake_def hello_line_def split: if_splits sum.splits prod.splits)
  obtain hf where hf: "msg = Hello hf" "capability_advertised (h_capabilities hf) PROTECTED_CONTROL_CAPABILITY"
    "capability_advertised (h_capabilities hf) QUIC_CHANNEL_BINDING_CAPABILITY"
    "aw = \<lparr>sa_auth = Some (sn, to_json (server_hello_with_auth_and_capabilities sn (sc_capabilities sec))),
             sa_capabilities = h_capabilities hf, sa_client_nonce = h_client_nonce hf\<rparr>"
    using quic_server_hello_Ok [OF h assms(2)] by blast
  then have "sa_auth aw = Some (sn, to_json (server_hello_with_auth_and_capabilities sn (sc_capabilities sec)))" by simp
  from quic_server_authenticate_Ok [OF a this] hf key hello msg show ?thesis by auto
qed

lemma quic_client_hello_Ok:
  assumes "quic_client_on_hello hkdf hmac from_json to_json export c line = Ok (ans, st)" "cl_psk c = Some psk"
  shows "\<exists>h ch key. parse_line from_json line = Ok (Hello h) \<and> h_auth h = Some ch \<and> ch_server_nonce st = Some (ac_nonce ch)
    \<and> capability_advertised (h_capabilities h) PROTECTED_CONTROL_CAPABILITY
    \<and> capability_advertised (h_capabilities h) QUIC_CHANNEL_BINDING_CAPABILITY
    \<and> derive_psk_session_key hkdf export psk = Ok key \<and> ch_raw_server_hello st = trim line
    \<and> ans = Some (to_json (AuthResponse (compute_response_with_key hmac (ac_nonce ch) key)), key)"
  using assms
  by (auto simp: quic_client_on_hello_def Let_def serialize_def auth_response_def
      split: sum.splits ControlMessage.splits if_splits option.splits)

lemma quic_client_auth_Ok:
  assumes "quic_client_on_auth hkdf hmac from_json key chj rsh sn cn line = Ok ()"
  shows "\<exists>n p. cn = Some n \<and> parse_line from_json line = Ok (AuthSuccess (Some p))
    \<and> compute_server_proof_with_key hkdf hmac (as_bytes chj) (as_bytes rsh) n sn key = Ok p"
proof -
  obtain sp where "parse_line from_json line = Ok (AuthSuccess sp)"
    using assms by (auto simp: quic_client_on_auth_def split: sum.splits ControlMessage.splits)
  moreover obtain n where "cn = Some n"
    using assms calculation by (cases cn) (auto simp: quic_client_on_auth_def)
  moreover obtain p where "sp = Some p"
    using assms calculation by (cases sp) (auto simp: quic_client_on_auth_def)
  moreover have "verify_server_proof_with_key hkdf hmac (as_bytes chj) (as_bytes rsh) n sn key p = Ok True"
    using assms calculation by (auto simp: quic_client_on_auth_def split: sum.splits if_splits)
  ultimately show ?thesis by (simp add: verify_server_proof_with_key_iff)
qed

lemma quic_client_handshake_psk:
  assumes "quic_client_handshake hkdf hmac from_json to_json export c cn server_line reply_line = (out, Ok (st, t))" "cl_psk c = Some psk"
  shows "\<exists>key h sn c2s s2c p. derive_psk_session_key hkdf export psk = Ok key
    \<and> parse_line from_json server_line = Ok (Hello h)
    \<and> capability_advertised (h_capabilities h) PROTECTED_CONTROL_CAPABILITY
    \<and> capability_advertised (h_capabilities h) QUIC_CHANNEL_BINDING_CAPABILITY
    \<and> ch_server_nonce st = Some sn \<and> parse_line from_json reply_line = Ok (AuthSuccess (Some p))
    \<and> compute_server_proof_with_key hkdf hmac (as_bytes (to_json (client_first c cn))) (as_bytes (trim server_line)) cn sn key = Ok p
    \<and> derive_pair_with_key hkdf cn sn key = Ok (c2s, s2c) \<and> t = protected_client c2s s2c
    \<and> out = [to_json (client_first c cn), to_json (AuthResponse (compute_response_with_key hmac sn key))]"
proof -
  have cn: "client_nonce c cn = Some cn" using assms(2) by (simp add: client_nonce_def)
  obtain ans st' where h: "quic_client_on_hello hkdf hmac from_json to_json export c server_line = Ok (ans, st')"
    using assms(1) by (auto simp: quic_client_handshake_def Let_def split: sum.splits option.splits)
  from quic_client_hello_Ok [OF h assms(2)] obtain hf ch key where hf: "parse_line from_json server_line = Ok (Hello hf)"
    "ch_server_nonce st' = Some (ac_nonce ch)" "capability_advertised (h_capabilities hf) PROTECTED_CONTROL_CAPABILITY"
    "capability_advertised (h_capabilities hf) QUIC_CHANNEL_BINDING_CAPABILITY"
    "derive_psk_session_key hkdf export psk = Ok key" "ch_raw_server_hello st' = trim server_line"
    and ha: "h_auth hf = Some ch"
    and ans: "ans = Some (to_json (AuthResponse (compute_response_with_key hmac (ac_nonce ch) key)), key)" by blast
  have run: "quic_client_on_auth hkdf hmac from_json key (to_json (client_first c cn)) (trim server_line) (ac_nonce ch) (Some cn) reply_line = Ok ()"
    "quic_client_transport hkdf c (Some key) (Some cn) (Some (ac_nonce ch)) = Ok t" "st = st'"
    "out = [to_json (client_first c cn), to_json (AuthResponse (compute_response_with_key hmac (ac_nonce ch) key))]"
    using assms(1) h ans hf(2,6) cn by (auto simp: quic_client_handshake_def Let_def serialize_def split: sum.splits)
  have "\<exists>c2s s2c. derive_pair_with_key hkdf cn (ac_nonce ch) key = Ok (c2s, s2c) \<and> t = protected_client c2s s2c"
    using run(2) assms(2) by (auto simp: quic_client_transport_def split: sum.splits prod.splits)
  with quic_client_auth_Ok [OF run(1)] hf run(3,4) show ?thesis by auto
qed


lemma key_codecs_deliver:
  assumes "aead_ok enc dec" "derive_pair_with_key hkdf cn sn key = Ok (c2s, s2c)"
    "list_all (\<lambda>m. utf8_len m + 24 \<le> MAX_FRAME) ms" "length ms < 2 ^ 64"
  shows "delivers enc dec (snd (split_transport (protected_client c2s s2c))) (fst (split_transport (protected_server c2s s2c))) ms
    \<and> delivers enc dec (snd (split_transport (protected_server c2s s2c))) (fst (split_transport (protected_client c2s s2c))) ms"
proof -
  have "derive_pair (\<lambda>salt ikm. hkdf salt key) cn sn [] = Ok (c2s, s2c)"
    using assms(2) by (simp add: derive_pair_def derive_pair_with_key_def derive_keys_def Let_def)
  from derived_codecs_deliver [OF assms(1) this assms(3,4)] show ?thesis .
qed

text \<open>The messages of an honest handshake on a connection with session key \<open>key\<close>.\<close>

definition quic_messages ::
  "hkdf \<Rightarrow> hmac \<Rightarrow> (ControlMessage \<Rightarrow> string) \<Rightarrow> SecurityContext \<Rightarrow> ClientConfig \<Rightarrow> string \<Rightarrow> string \<Rightarrow> bytes \<Rightarrow> ControlMessage set" where
  "quic_messages hkdf hmac to_json sec c cn sn key =
     (let hello = server_hello_with_auth_and_capabilities sn (sc_capabilities sec)
      in {client_first c cn, hello, AuthResponse (compute_response_with_key hmac sn key)}
         \<union> {AuthSuccess (Some p) | p. compute_server_proof_with_key hkdf hmac (as_bytes (to_json (client_first c cn)))
                                      (as_bytes (to_json hello)) cn sn key = Ok p})"

lemma own_capabilities:
  "capability_advertised (Some supported_capabilities) PROTECTED_CONTROL_CAPABILITY"
  "capability_advertised (Some supported_capabilities) QUIC_CHANNEL_BINDING_CAPABILITY"
  by (simp_all add: capability_advertised_def supported_capabilities_def SUPPORTED_CAPABILITIES_def PROTECTED_CONTROL_CAPABILITY_def)

lemma quic_handshake_honest:
  assumes json: "json_ok from_json to_json (quic_messages hkdf hmac to_json sec c cn sn key)"
    and psk: "cl_psk c = Some psk" "sc_psk sec = Some psk"
    and caps: "capability_advertised (Some (sc_capabilities sec)) PROTECTED_CONTROL_CAPABILITY"
      "capability_advertised (Some (sc_capabilities sec)) QUIC_CHANNEL_BINDING_CAPABILITY"
    and key: "derive_psk_session_key hkdf export psk = Ok key" "derive_keys hkdf cn sn key = Ok ks"
  shows "\<exists>first hello answer reply aw st c2s s2c.
    quic_server_handshake hkdf hmac from_json to_json export sec sn True (ReadLine (as_line first)) (ReadLine (as_line answer))
      = ([hello, reply], Ok (aw, protected_server c2s s2c))
    \<and> quic_client_handshake hkdf hmac from_json to_json export c cn (as_line hello) (as_line reply)
      = ([first, answer], Ok (st, protected_client c2s s2c))
    \<and> ch_capabilities st = Some (sc_capabilities sec) \<and> derive_pair_with_key hkdf cn sn key = Ok (c2s, s2c)"
proof -
  define first where "first = to_json (client_first c cn)"
  define hello where "hello = to_json (server_hello_with_auth_and_capabilities sn (sc_capabilities sec))"
  define answer where "answer = to_json (AuthResponse (compute_response_with_key hmac sn key))"
  obtain c2s s2c ak where ks: "ks = (c2s, s2c, ak)" by (cases ks)
  define p where "p = hex_encode (hmac ak (as_bytes first @ as_bytes hello))"
  define reply where "reply = to_json (AuthSuccess (Some p))"
  let ?c2s = "ControlCodec_new c2s C2S" and ?s2c = "ControlCodec_new s2c S2C"
  have pair: "derive_pair_with_key hkdf cn sn key = Ok (?c2s, ?s2c)" using key(2) ks by (simp add: derive_pair_with_key_def)
  have pf: "compute_server_proof_with_key hkdf hmac (as_bytes first) (as_bytes hello) cn sn key = Ok p"
    using key(2) ks by (simp add: compute_server_proof_with_key_def p_def)
  have M: "client_first c cn \<in> quic_messages hkdf hmac to_json sec c cn sn key"
    "server_hello_with_auth_and_capabilities sn (sc_capabilities sec) \<in> quic_messages hkdf hmac to_json sec c cn sn key"
    "AuthResponse (compute_response_with_key hmac sn key) \<in> quic_messages hkdf hmac to_json sec c cn sn key"
    "AuthSuccess (Some p) \<in> quic_messages hkdf hmac to_json sec c cn sn key"
    using pf by (simp_all add: quic_messages_def Let_def first_def hello_def)
  have vld: "validate (client_first c cn) = Ok ()" "validate (AuthSuccess q) = Ok ()" "validate (AuthResponse r) = Ok ()"
    "validate (server_hello_with_auth_and_capabilities sn (sc_capabilities sec)) = Ok ()" for q r
    by (simp_all add: validate_def client_first_psk [OF psk(1)] client_hello_with_nonce_def server_hello_with_auth_and_capabilities_def)
  note lns = parse_own_line [OF json M(1) vld(1)] parse_own_line [OF json M(2) vld(4)]
    parse_own_line [OF json M(3) vld(3)] parse_own_line [OF json M(4) vld(2)]
  have nonce: "client_nonce c cn = Some cn" using psk(1) by (simp add: client_nonce_def)
  let ?aw = "\<lparr>sa_auth = Some (sn, hello), sa_capabilities = Some supported_capabilities, sa_client_nonce = Some cn\<rparr>"
  have sh: "quic_server_on_hello to_json sec sn (client_first c cn) = ([hello], Ok ?aw)"
    using psk own_version own_capabilities
    by (simp add: quic_server_on_hello_def client_first_psk client_hello_with_nonce_def serialize_def hello_def Let_def)
  have sa: "quic_server_authenticate hkdf hmac from_json to_json (Some key) first ?aw (ReadLine (as_line answer))
      = ([reply], Ok (protected_server ?c2s ?s2c))"
    using pair pf lns(5)
    by (simp add: quic_server_authenticate_def handshake_line_def explain_psk_hangup_def as_line_def answer_def
        quic_server_on_auth_def verify_response_with_key_iff serialize_def auth_success_with_proof_def reply_def)
  have srv: "quic_server_handshake hkdf hmac from_json to_json export sec sn True (ReadLine (as_line first)) (ReadLine (as_line answer))
      = ([hello, reply], Ok (?aw, protected_server ?c2s ?s2c))"
    using psk(2) key(1) lns(1,2) sh sa
    by (simp add: quic_server_handshake_def hello_line_def first_def)
  let ?st = "\<lparr>ch_capabilities = Some (sc_capabilities sec), ch_server_version = Some (''xfr/'' @ CARGO_PKG_VERSION),
      ch_server_nonce = Some sn, ch_raw_server_hello = hello\<rparr>"
  have ch: "quic_client_on_hello hkdf hmac from_json to_json export c (as_line hello) = Ok (Some (answer, key), ?st)"
    using psk(1) caps key(1) lns(3,4) own_version
    by (simp add: quic_client_on_hello_def hello_def server_hello_with_auth_and_capabilities_def serialize_def auth_response_def
        answer_def Let_def)
  have ca: "quic_client_on_auth hkdf hmac from_json key first hello sn (Some cn) (as_line reply) = Ok ()"
    using lns(7) pf
    by (simp add: quic_client_on_auth_def reply_def verify_server_proof_with_key_def constant_time_eq_iff)
  have cli: "quic_client_handshake hkdf hmac from_json to_json export c cn (as_line hello) (as_line reply)
      = ([first, answer], Ok (?st, protected_client ?c2s ?s2c))"
    using ch ca nonce psk(1) pair
    by (simp add: quic_client_handshake_def Let_def serialize_def first_def quic_client_transport_def)
  from srv cli pair show ?thesis by force
qed

lemma quic_request_accepted:
  assumes "ClientConfig_validate c = Ok ()" "quic_test_start c caps test_id = Ok msg"
  shows "\<exists>q. quic_check_request mx msg = (TestAck test_id [] None, Ok q) \<and> qt_streams q = cl_streams c
    \<and> qt_direction q = cl_direction c \<and> qt_byte_budget q = cl_byte_budget c \<and> qt_bitrate q = cl_bitrate c
    \<and> qt_duration q = effective_duration mx (word_of_nat (as_secs (cl_duration c)))"
proof -
  have "1 \<le> cl_streams c" "cl_streams c \<le> 128"
    using assms(1) by (auto simp: ClientConfig_validate_def split: if_splits)
  then have "cl_streams c \<noteq> 0" "\<not> 128 < cl_streams c" by auto
  then show ?thesis
    using assms(2) by (auto simp: quic_test_start_def quic_check_request_def MAX_STREAMS_def split: if_splits)
qed

section \<open>The control loop\<close>

text \<open>What the QUIC loop and the loop for TCP and UDP share: the clock, the pause, what the loop waits for, and what went to the server
  and the pause channel of the streams.\<close>

fun waits_for :: "loop_busy \<Rightarrow> bool + instant option" where
  "waits_for LoopIdle = Inl False"
| "waits_for (LoopShowing p) = Inl True"
| "waits_for (LoopWriting limit) = Inr limit"

definition control_view :: "client_state \<Rightarrow> (instant \<times> instant option) \<times> (bool \<times> bool \<times> bool) \<times> bool list \<times> ControlMessage list
    \<times> (bool + instant option)" where
  "control_view st = ((cr_deadline st, cr_pause_started_at st),
     (cr_finish_sent st, cr_cancel_request_open st, cr_pause_request_open st), cr_pauses st, cr_sent st, waits_for (cr_busy st))"

text \<open>The cancel channels of the streams: the TCP loop also stops them at the end of the requested time, the QUIC loop also when the
  server says that it has cancelled.\<close>

definition stops_agree :: "bool \<Rightarrow> client_state \<Rightarrow> client_state \<Rightarrow> bool" where
  "stops_agree acknowledged q t \<longleftrightarrow> (cr_stopped t \<and> \<not> cr_local_stop_sent t \<longrightarrow> cr_stopped q)
     \<and> (cr_stopped q \<and> \<not> acknowledged \<longrightarrow> cr_stopped t)"

fun acknowledges :: "client_event \<Rightarrow> bool" where
  "acknowledges (ClCommand (Some (EvMessage (Cancelled i))) now stats info) = True"
| "acknowledges _ = False"

text \<open>A run ends with the same outcome; the TCP loop overlays the sender's own readings on the server's result.\<close>

definition same_outcome :: "client_env \<Rightarrow> bool \<Rightarrow> client_step \<Rightarrow> client_step \<Rightarrow> bool" where
  "same_outcome e acknowledged q t \<longleftrightarrow> control_view (cl_state q) = control_view (cl_state t)
     \<and> (case (q, t) of
          (ClRunning q', ClRunning t') \<Rightarrow> stops_agree acknowledged q' t'
        | (ClDone (Err a) q', ClDone (Err b) _) \<Rightarrow> a = b \<and> cr_stopped q'
        | (ClDone (Ok a) q', ClDone (Ok b) _) \<Rightarrow> (\<exists>stats info. b = client_result e stats info a) \<and> cr_stopped q'
        | _ \<Rightarrow> False)"

lemma waits_for_idle: "waits_for b = waits_for c \<Longrightarrow> b = LoopIdle \<longleftrightarrow> c = LoopIdle"
  by (cases b; cases c) simp_all

lemma interval_frame:
  "cr_stopped (client_interval e now stats info ms ss ag st) = cr_stopped st"
  "cr_local_stop_sent (client_interval e now stats info ms ss ag st) = cr_local_stop_sent st"
  "cr_stopped (quic_interval e ms ss ag st') = cr_stopped st'"
  by (auto simp: client_interval_def quic_interval_def receive_half_def start_showing_def Let_def split: prod.split option.split)

lemma interval_view:
  assumes "control_view q = control_view t" "\<not> udp_bidir e" "\<not> udp_download e"
  shows "control_view (quic_interval e ms ss ag q) = control_view (client_interval e now stats info ms ss ag t)"
  using assms by (auto simp: client_interval_def quic_interval_def receive_half_def Let_def control_view_def start_showing_def
      split: prod.splits)

lemma cancel_wait_view:
  "control_view q = control_view t \<Longrightarrow>
     control_view (start_control_cancel_wait now (q\<lparr>cr_stopped := True\<rparr>)) = control_view (start_control_cancel_wait now t)"
  by (simp add: control_view_def start_control_cancel_wait_def)

lemma cancel_wait_frame:
  "cr_stopped (start_control_cancel_wait now st) = cr_stopped st"
  "cr_local_stop_sent (start_control_cancel_wait now st) = cr_local_stop_sent st"
  by (simp_all add: start_control_cancel_wait_def)

lemma same_outcome_message:
  assumes "control_view q = control_view t" "stops_agree ack q t" "\<not> udp_bidir e" "\<not> udp_download e"
  shows "same_outcome e (ack \<or> (\<exists>i. msg = Cancelled i)) (quic_message e now msg q) (client_message e now stats info msg t)"
proof -
  have view: "control_view (st\<lparr>cr_stopped := True\<rparr>) = control_view st" for st by (simp add: control_view_def)
  note frames = view interval_view [OF assms(1,3,4)] assms(1) cancel_wait_view [OF assms(1)]
  show ?thesis
    using assms(2)
    by (cases msg) (auto simp: same_outcome_def quic_message_def client_message_def frames stops_agree_def interval_frame cancel_wait_frame)
qed

lemma wait_ends_view:
  assumes "control_view q = control_view t" "stops_agree ack q t"
  shows "control_view (wait_ends ev q) = control_view (wait_ends ev t)" "stops_agree ack (wait_ends ev q) (wait_ends ev t)"
proof -
  have b: "waits_for (cr_busy q) = waits_for (cr_busy t)" using assms(1) by (simp add: control_view_def)
  show "control_view (wait_ends ev q) = control_view (wait_ends ev t)" "stops_agree ack (wait_ends ev q) (wait_ends ev t)"
    using b assms by (cases "cr_busy q"; cases "cr_busy t"; cases ev;
        auto simp: wait_ends_def control_view_def stops_agree_def show_progress_def split: option.split)+
qed

lemma same_outcome_select:
  assumes "cl_protocol (ce_config e) = QuicProto" "control_view q = control_view t" "stops_agree ack q t"
  shows "same_outcome e (ack \<or> acknowledges ev) (quic_select e ev q) (client_select e ev t)"
proof -
  have udp: "\<not> udp_download e" "\<not> udp_bidir e"
    using assms(1) by (simp_all add: udp_download_def udp_bidir_def)
  have v: "cr_deadline q = cr_deadline t" "cr_pause_started_at q = cr_pause_started_at t" "cr_finish_sent q = cr_finish_sent t"
    "cr_cancel_request_open q = cr_cancel_request_open t" "cr_pause_request_open q = cr_pause_request_open t"
    "cr_pauses q = cr_pauses t" "cr_sent q = cr_sent t" "waits_for (cr_busy q) = waits_for (cr_busy t)"
    using assms(2) by (simp_all add: control_view_def)
  show ?thesis
  proof (cases ev)
    case (ClCommand cmd now stats info)
    have "same_outcome e (ack \<or> (\<exists>i. msg = Cancelled i)) (quic_message e now msg q) (client_message e now stats info msg t)" for msg
      using same_outcome_message [OF assms(2,3)] udp by blast
    moreover have "acknowledges (ClCommand (Some (EvMessage msg)) now stats info) = (\<exists>i. msg = Cancelled i)" for msg
      by (cases msg) simp_all
    ultimately have msg: "same_outcome e (ack \<or> acknowledges ev) (quic_select e ev q) (client_select e ev t)"
      if "cmd = Some (EvMessage msg)" for msg
      using that ClCommand by (simp add: quic_select_def client_select_def)
    have view: "control_view (q\<lparr>cr_stopped := True\<rparr>) = control_view t" using assms(2) by (simp add: control_view_def)
    show ?thesis
    proof (cases "\<exists>msg. cmd = Some (EvMessage msg)")
      case False
      then show ?thesis
        using ClCommand view by (auto simp: quic_select_def client_select_def same_outcome_def split: option.split ClientControlEvent.split)
    qed (use msg in blast)
  next
    case (ClPauseRequest req now)
    then show ?thesis
      using v assms(3) by (cases req) (auto simp: quic_select_def client_select_def same_outcome_def quic_pause_def client_pause_def
          control_view_def stops_agree_def start_write_def Let_def split: option.splits)
  qed (use v udp assms(3) in \<open>auto simp: quic_select_def client_select_def same_outcome_def control_view_def send_control_cancel_def
         start_control_cancel_wait_def start_write_def stops_agree_def Let_def split: option.splits\<close>)
qed

lemma same_outcome_event:
  assumes "cl_protocol (ce_config e) = QuicProto" "control_view q = control_view t" "stops_agree ack q t"
  shows "same_outcome e (ack \<or> acknowledges ev) (quic_event_step e ev q) (client_event_step e ev t)"
proof -
  have nf: "\<not> has_feedback_consumer e" using assms(1) by (simp add: has_feedback_consumer_def)
  have idle: "cr_busy q = LoopIdle \<longleftrightarrow> cr_busy t = LoopIdle"
    using assms(2) by (intro waits_for_idle) (simp add: control_view_def)
  have more: "stops_agree (ack \<or> b) q' t'" if "stops_agree ack q' t'" for b q' t' using that by (auto simp: stops_agree_def)
  note waits = wait_ends_view [OF assms(2,3), of ev]
  show ?thesis
  proof (cases ev)
    case (ClFeedback slots el)
    then show ?thesis
      using assms(2,3) nf
      by (simp add: quic_event_step_def quic_select_def client_event_step_def client_feedback_def same_outcome_def wait_ends_def
          split: loop_busy.split option.split)
  next
    case (ClFeedbackSent d)
    have "control_view (feedback_sent d t) = control_view t" "stops_agree ack q (feedback_sent d t)"
      using assms(3) by (auto simp: feedback_sent_def show_progress_def control_view_def stops_agree_def split: option.split)
    then show ?thesis
      using ClFeedbackSent assms(2)
      by (simp add: quic_event_step_def quic_select_def client_event_step_def same_outcome_def wait_ends_def
          split: loop_busy.split option.split)
  qed (use same_outcome_select [OF assms, of ev] waits more [OF waits(2)] idle in
      \<open>auto simp: quic_event_step_def client_event_step_def same_outcome_def\<close>)
qed

lemma same_outcome_loop:
  assumes "cl_protocol (ce_config e) = QuicProto" "control_view q = control_view t" "stops_agree ack q t"
  shows "same_outcome e (ack \<or> list_ex acknowledges evs) (quic_loop e evs q) (client_loop e evs t)"
  using assms(2,3)
proof (induction evs arbitrary: q t ack)
  case Nil
  then show ?case by (simp add: same_outcome_def)
next
  case (Cons ev evs)
  note step = same_outcome_event [OF assms(1) Cons.prems, of ev]
  show ?case
  proof (cases "quic_event_step e ev q")
    case (ClRunning q')
    then obtain t' where t': "client_event_step e ev t = ClRunning t'"
      using step by (cases "client_event_step e ev t") (auto simp: same_outcome_def)
    then have "control_view q' = control_view t'" "stops_agree (ack \<or> acknowledges ev) q' t'"
      using step ClRunning by (simp_all add: same_outcome_def)
    from Cons.IH [OF this] show ?thesis using ClRunning t' by (simp add: disj_assoc)
  next
    case (ClDone r q')
    then obtain r' t' where t': "client_event_step e ev t = ClDone r' t'"
      using step by (cases "client_event_step e ev t"; cases r) (auto simp: same_outcome_def)
    then show ?thesis using step ClDone by (simp add: same_outcome_def)
  qed
qed

lemma same_outcome_init:
  "control_view (quic_init e now) = control_view (client_init e stats now)" "stops_agree False (quic_init e now) (client_init e stats now)"
  by (simp_all add: control_view_def stops_agree_def quic_init_def client_init_def)

lemma quic_failure_point:
  assumes "quic_send_loop env its st = QFail e st'"
  shows "\<exists>pre t now post. its = pre @ QWrite t (QWriteErr e False now) # post
    \<and> (qe_infinite env \<or> now < qd_deadline st + sum_list (map quic_paused pre))
    \<and> (e = OtherWrite \<or> qe_infinite env \<or> now + QUIC_SEND_TEARDOWN_GRACE < qd_deadline st + sum_list (map quic_paused pre))"
  using assms
proof (induction its arbitrary: st)
  case Nil
  then show ?case by simp
next
  case (Cons it its)
  note step = quic_deadline_iter [where env = env and it = it and st = st]
  show ?case
  proof (cases "quic_send_iter env it st")
    case (QContinue st1)
    then have "quic_send_loop env its st1 = QFail e st'" using Cons.prems by simp
    from Cons.IH [OF this] obtain pre t now post where h: "its = pre @ QWrite t (QWriteErr e False now) # post"
      "qe_infinite env \<or> now < qd_deadline st1 + sum_list (map quic_paused pre)"
      "e = OtherWrite \<or> qe_infinite env \<or> now + QUIC_SEND_TEARDOWN_GRACE < qd_deadline st1 + sum_list (map quic_paused pre)"
      by blast
    moreover have "qd_deadline st1 = qd_deadline st + quic_paused it" using step QContinue by simp
    ultimately show ?thesis
      by (intro exI [of _ "it # pre"] exI [of _ t] exI [of _ now] exI [of _ post]) (simp add: add.assoc)
  next
    case (QBreak st1)
    then show ?thesis using Cons.prems by simp
  next
    case (QFail e1 st1)
    then have "e1 = e" using Cons.prems by simp
    with step QFail obtain t now where "it = QWrite t (QWriteErr e False now)" "qe_infinite env \<or> now < qd_deadline st"
      "e = OtherWrite \<or> qe_infinite env \<or> now + QUIC_SEND_TEARDOWN_GRACE < qd_deadline st" by auto
    then show ?thesis
      by (intro exI [of _ "[]"] exI [of _ t] exI [of _ now] exI [of _ its]) simp
  qed
qed

text \<open>What a poll of the inner socket brought for each lane, and the shape of a batch: buffers of one size, one entry of
  meta data for each.\<close>

fun polled_quic :: "inner_poll \<Rightarrow> (bytes \<times> recv_meta) list" where
  "polled_quic (InnerReady bufs meta n) = quic_lane bufs meta n"
| "polled_quic _ = []"

fun polled_hellos :: "inner_poll \<Rightarrow> XfrHelloDatagram list" where
  "polled_hellos (InnerReady bufs meta n) = hello_lane bufs meta n"
| "polled_hellos _ = []"

fun batch_ok :: "nat \<Rightarrow> inner_poll \<Rightarrow> bool" where
  "batch_ok cap (InnerReady bufs meta n) = (n \<le> length bufs \<and> length meta = length bufs \<and> list_all (\<lambda>b. length b = cap) bufs)"
| "batch_ok cap _ = True"

lemma poll_recv_lanes:
  assumes "list_all (batch_ok cap) ps" "poll_recv d ps st = (r, st', rest)" "d < MAX_DIVERT_ITERATIONS"
  shows "\<exists>polled. ps = polled @ rest \<and> length polled + d \<le> MAX_DIVERT_ITERATIONS
    \<and> tee_hellos st' = tee_hellos st @ take (tee_room st) (concat (map polled_hellos polled))
    \<and> (case r of TeeReady k \<Rightarrow> map (received (tee_bufs st') (tee_meta st')) [0..<k] = concat (map polled_quic polled)
        | _ \<Rightarrow> concat (map polled_quic polled) = [])"
  using assms
proof (induction ps arbitrary: d st)
  case Nil
  then show ?case by auto
next
  case (Cons p ps)
  show ?case
  proof (cases p)
    case (InnerReady bufs meta n)
    define s where "s = tee_batch n (st\<lparr>tee_bufs := bufs, tee_meta := meta\<rparr>)"
    have inv: "tee_inv bufs meta cap (tee_hellos st) (tee_room st) n s"
      using tee_batch_inv [of n bufs meta cap "st\<lparr>tee_bufs := bufs, tee_meta := meta\<rparr>"] Cons.prems(1) InnerReady
      by (simp add: s_def)
    then have h: "tee_hellos s = tee_hellos st @ take (tee_room st) (hello_lane bufs meta n)"
      "tee_room s = tee_room st - length (hello_lane bufs meta n)"
      and q: "map (received (tee_bufs s) (tee_meta s)) [0..<tee_kept s] = quic_lane bufs meta n"
      unfolding tee_inv_def by blast+
    have rec: "poll_recv d (p # ps) st =
      (if 0 < tee_kept s \<or> n = 0 then (TeeReady (tee_kept s), s, ps)
       else if MAX_DIVERT_ITERATIONS \<le> d + 1 then (TeePending True, s, ps) else poll_recv (d + 1) ps s)"
      using InnerReady by (simp add: s_def Let_def)
    show ?thesis
    proof (cases "0 < tee_kept s \<or> n = 0 \<or> MAX_DIVERT_ITERATIONS \<le> d + 1")
      case True
      have "n = 0 \<Longrightarrow> tee_kept s = 0" using inv by (simp add: tee_inv_def)
      then have "\<not> 0 < tee_kept s \<Longrightarrow> quic_lane bufs meta n = []" using q by simp
      then show ?thesis
        using Cons.prems(2,3) rec True h q InnerReady
        by (intro exI [of _ "[p]"]) (auto split: if_splits)
    next
      case False
      then have none: "quic_lane bufs meta n = []" using q by simp
      have "poll_recv (d + 1) ps s = (r, st', rest)" "list_all (batch_ok cap) ps" "d + 1 < MAX_DIVERT_ITERATIONS"
        using False rec Cons.prems by simp_all
      from Cons.IH [OF this(2,1,3)] obtain polled where p: "ps = polled @ rest" "length polled + (d + 1) \<le> MAX_DIVERT_ITERATIONS"
        "tee_hellos st' = tee_hellos s @ take (tee_room s) (concat (map polled_hellos polled))"
        "case r of TeeReady k \<Rightarrow> map (received (tee_bufs st') (tee_meta st')) [0..<k] = concat (map polled_quic polled)
           | _ \<Rightarrow> concat (map polled_quic polled) = []" by blast
      then show ?thesis
        using h none InnerReady by (intro exI [of _ "p # polled"]) (auto split: tee_poll.splits)
    qed
  qed (use Cons.prems in \<open>auto intro!: exI [of _ "[p]"]\<close>)
qed

section \<open>Properties\<close>

definition quic_toy_to_json :: "ControlMessage \<Rightarrow> string" where
  "quic_toy_to_json m = (case m of Hello h \<Rightarrow> if h_client_nonce h = None then ''h'' else ''c'' | AuthResponse r \<Rightarrow> ''r''
     | AuthSuccess p \<Rightarrow> ''a'' | _ \<Rightarrow> ''x'')"

definition quic_toy_from_json :: "string \<Rightarrow> ControlMessage option" where
  "quic_toy_from_json s = (if s = ''h'' then Some (server_hello_with_auth_and_capabilities ''n'' supported_capabilities)
     else if s = ''c'' then Some (client_hello_with_nonce ''m'')
     else if s = ''r'' then Some (AuthResponse []) else if s = ''a'' then Some (AuthSuccess (Some [])) else None)"

definition quic_toy_export :: exporter where "quic_toy_export label context = Some (replicate 32 7)"

lemma quic_toy_json_ok:
  "json_ok quic_toy_from_json quic_toy_to_json (quic_messages toy_hkdf toy_hmac quic_toy_to_json toy_security toy_config ''m'' ''n'' key)"
  by (auto simp: json_ok_def quic_messages_def Let_def quic_toy_to_json_def quic_toy_from_json_def toy_security_def
      client_first_psk [OF toy_facts(1)] client_hello_with_nonce_def
      server_hello_with_auth_and_capabilities_def compute_response_with_key_def toy_hmac_def hex_encode_def
      compute_server_proof_with_key_def toy_keys trim_def is_whitespace_def)

lemma quic_toy_key: "derive_psk_session_key toy_hkdf quic_toy_export ''k'' = Ok []"
  by (simp add: derive_psk_session_key_def derive_psk_session_key_from_exporter_def quic_toy_export_def toy_hkdf_def)

lemma quic_toy_caps:
  "capability_advertised (Some (sc_capabilities toy_security)) PROTECTED_CONTROL_CAPABILITY"
  "capability_advertised (Some (sc_capabilities toy_security)) QUIC_CHANNEL_BINDING_CAPABILITY"
  using own_capabilities by (simp_all add: toy_security_def)


text \<open>C29: an answer to the server's challenge proves the key on one TLS connection only. If the answer that a client made
  on its connection is accepted by a server, however it got there, then both exporters gave the same value, so that no relay
  sits between two connections, the keys are the same, and the client answered this very challenge; provided that neither the key
  derivation nor the MAC collides on the inputs of the two ends.\<close>

theorem relay_rejected:
  assumes "json_ok from_json to_json {AuthResponse (compute_response_with_key hmac nC keyC)}"
    "quic_client_on_hello hkdf hmac from_json to_json exportC c server_line = Ok (Some (answer, keyC), st)"
    "cl_psk c = Some pskC" "ch_server_nonce st = Some nC"
    "quic_server_handshake hkdf hmac from_json to_json exportS sec nonce opened hello_read (ReadLine (as_line answer)) = (out, Ok (aw, t))"
    "sc_psk sec = Some pskS" "derive_psk_session_key hkdf exportS pskS = Ok keyS"
    "exportC PSK_CHANNEL_BINDING_EXPORTER_LABEL [] = Some eC" "exportS PSK_CHANNEL_BINDING_EXPORTER_LABEL [] = Some eS"
    "inj_on (\<lambda>(salt, ikm). hkdf salt ikm PSK_SESSION_INFO 32) {(eC, as_bytes pskC), (eS, as_bytes pskS)}"
    "inj_on (\<lambda>(key, msg). hmac key msg) {(keyC, as_bytes nC), (keyS, as_bytes nonce)}"
  shows "eC = eS \<and> pskC = pskS \<and> nC = nonce"
proof -
  let ?r = "compute_response_with_key hmac nC keyC"
  have c: "derive_psk_session_key hkdf exportC pskC = Ok keyC" "answer = to_json (AuthResponse ?r)"
    using quic_client_hello_Ok [OF assms(2,3)] assms(4) by auto
  have p: "parse_line from_json (as_line answer) = Ok (AuthResponse ?r)"
    unfolding c(2) by (rule parse_own_line(1) [OF assms(1)]) (simp_all add: validate_def)
  from quic_server_handshake_psk [OF assms(5,6)] obtain key line where "derive_psk_session_key hkdf exportS pskS = Ok key"
    "ReadLine (as_line answer) = ReadLine line" "parse_line from_json line = Ok (AuthResponse (compute_response_with_key hmac nonce key))"
    by blast
  then have "?r = compute_response_with_key hmac nonce keyS" using p assms(7) by simp
  then have "hmac keyC (as_bytes nC) = hmac keyS (as_bytes nonce)"
    unfolding compute_response_with_key_def by (rule hex_encode_inj)
  then have "(keyC, as_bytes nC) = (keyS, as_bytes nonce)" by (intro inj_onD [OF assms(11)]) simp_all
  then have h: "keyC = keyS" "as_bytes nC = as_bytes nonce" by simp_all
  have "hkdf eC (as_bytes pskC) PSK_SESSION_INFO 32 = Some keyC" "hkdf eS (as_bytes pskS) PSK_SESSION_INFO 32 = Some keyS"
    using c(1) assms(7-9)
    by (auto simp: derive_psk_session_key_def derive_psk_session_key_from_exporter_def split: option.splits)
  then have "(eC, as_bytes pskC) = (eS, as_bytes pskS)" using h(1) by (intro inj_onD [OF assms(10)]) simp_all
  then show ?thesis using h(2) by (simp add: as_bytes_inj)
qed

theorem relay_rejected_witness:
  "\<exists>answer key st out aw t.
     quic_client_on_hello toy_hkdf toy_hmac quic_toy_from_json quic_toy_to_json quic_toy_export toy_config (as_line ''h'')
       = Ok (Some (answer, key), st)
     \<and> quic_server_handshake toy_hkdf toy_hmac quic_toy_from_json quic_toy_to_json quic_toy_export toy_security ''n'' True
         (ReadLine (as_line ''c'')) (ReadLine (as_line answer)) = (out, Ok (aw, t))
     \<and> ch_server_nonce st = Some ''n''"
proof -
  have ok: "json_ok quic_toy_from_json quic_toy_to_json {AuthResponse (compute_response_with_key toy_hmac nC keyC)}" for nC keyC
    by (simp add: json_ok_def quic_toy_to_json_def quic_toy_from_json_def compute_response_with_key_def toy_hmac_def hex_encode_def
        trim_def is_whitespace_def)
  obtain first hello answer reply aw st c2s s2c where
    s: "quic_server_handshake toy_hkdf toy_hmac quic_toy_from_json quic_toy_to_json quic_toy_export toy_security ''n'' True
         (ReadLine (as_line first)) (ReadLine (as_line answer)) = ([hello, reply], Ok (aw, protected_server c2s s2c))"
    and c: "quic_client_handshake toy_hkdf toy_hmac quic_toy_from_json quic_toy_to_json quic_toy_export toy_config ''m''
         (as_line hello) (as_line reply) = ([first, answer], Ok (st, protected_client c2s s2c))"
    using quic_handshake_honest [OF quic_toy_json_ok toy_facts(1,2) quic_toy_caps quic_toy_key toy_keys] by blast
  have first: "first = ''c''"
    using quic_client_handshake_psk [OF c toy_facts(1)]
    by (auto simp: client_first_psk [OF toy_facts(1)] client_hello_with_nonce_def quic_toy_to_json_def)
  have hello: "hello = ''h''"
    using s toy_facts(2)
    by (auto simp: quic_server_handshake_def quic_server_on_hello_def Let_def serialize_def hello_line_def quic_toy_to_json_def
        server_hello_with_auth_and_capabilities_def split: sum.splits if_splits ControlMessage.splits prod.splits)
  from c hello obtain st' key where h: "quic_client_on_hello toy_hkdf toy_hmac quic_toy_from_json quic_toy_to_json quic_toy_export
      toy_config (as_line ''h'') = Ok (Some (answer, key), st')"
    by (auto simp: quic_client_handshake_def Let_def split: sum.splits option.splits)
  have n: "ch_server_nonce st' = Some ''n''"
  proof -
    have "parse_line quic_toy_from_json (as_line ''h'') = Ok (server_hello_with_auth_and_capabilities ''n'' supported_capabilities)"
      by (simp add: parse_line_def as_line_def trim_def is_whitespace_def deserialize_def quic_toy_from_json_def validate_def
          server_hello_with_auth_and_capabilities_def)
    then show ?thesis
      using quic_client_hello_Ok [OF h toy_facts(1)] by (auto simp: server_hello_with_auth_and_capabilities_def)
  qed
  have "key = []" using quic_client_hello_Ok [OF h toy_facts(1)] quic_toy_key by auto
  then have "(replicate 32 7 :: bytes) = replicate 32 7 \<and> ''k'' = ''k'' \<and> ''n'' = ''n''"
    by (intro relay_rejected [OF ok h toy_facts(1) n s toy_facts(2) quic_toy_key]) (simp_all add: quic_toy_export_def)
  with s h n first show ?thesis by blast
qed


text \<open>C30: two ends with the same key on the same TLS connection complete the QUIC handshake reading each other's lines; the
  protected channel carries any messages that fit a frame in both directions; and the test that a client with a valid
  configuration then asks for is accepted, acknowledged and run with the streams, direction, budget and rate asked for.\<close>

theorem quic_session_agrees:
  assumes "json_ok from_json to_json (quic_messages hkdf hmac to_json sec c cn sn key)"
    "cl_psk c = Some psk" "sc_psk sec = Some psk"
    "capability_advertised (Some (sc_capabilities sec)) PROTECTED_CONTROL_CAPABILITY"
    "capability_advertised (Some (sc_capabilities sec)) QUIC_CHANNEL_BINDING_CAPABILITY"
    "derive_psk_session_key hkdf export psk = Ok key" "derive_keys hkdf cn sn key = Ok ks" "aead_ok enc dec"
    "list_all (\<lambda>m. utf8_len m + 24 \<le> MAX_FRAME) ms" "length ms < 2 ^ 64"
    "ClientConfig_validate c = Ok ()" "quic_test_start c (Some (sc_capabilities sec)) test_id = Ok request"
  shows "\<exists>first hello answer reply aw st server client q.
    quic_server_handshake hkdf hmac from_json to_json export sec sn True (ReadLine (as_line first)) (ReadLine (as_line answer))
      = ([hello, reply], Ok (aw, server))
    \<and> quic_client_handshake hkdf hmac from_json to_json export c cn (as_line hello) (as_line reply) = ([first, answer], Ok (st, client))
    \<and> ch_capabilities st = Some (sc_capabilities sec)
    \<and> delivers enc dec (snd (split_transport client)) (fst (split_transport server)) ms
    \<and> delivers enc dec (snd (split_transport server)) (fst (split_transport client)) ms
    \<and> quic_check_request mx request = (TestAck test_id [] None, Ok q) \<and> quic_on_ack (TestAck test_id [] None) = Ok ()
    \<and> qt_streams q = cl_streams c \<and> qt_direction q = cl_direction c \<and> qt_byte_budget q = cl_byte_budget c
    \<and> qt_bitrate q = cl_bitrate c \<and> qt_duration q = effective_duration mx (word_of_nat (as_secs (cl_duration c)))"
proof -
  obtain q where q: "quic_check_request mx request = (TestAck test_id [] None, Ok q)" "qt_streams q = cl_streams c"
    "qt_direction q = cl_direction c" "qt_byte_budget q = cl_byte_budget c" "qt_bitrate q = cl_bitrate c"
    "qt_duration q = effective_duration mx (word_of_nat (as_secs (cl_duration c)))"
    using quic_request_accepted [OF assms(11,12)] by blast
  have ack: "quic_on_ack (TestAck test_id [] None) = Ok ()" by (simp add: quic_on_ack_def)
  from quic_handshake_honest [OF assms(1-7)] key_codecs_deliver [OF assms(8) _ assms(9,10)] q ack show ?thesis by blast
qed

theorem quic_session_agrees_witness:
  "\<exists>first hello answer reply aw st server client. \<exists>q :: quic_test.
    quic_server_handshake toy_hkdf toy_hmac quic_toy_from_json quic_toy_to_json quic_toy_export toy_security ''n'' True
        (ReadLine (as_line first)) (ReadLine (as_line answer)) = ([hello, reply], Ok (aw, server))
    \<and> quic_client_handshake toy_hkdf toy_hmac quic_toy_from_json quic_toy_to_json quic_toy_export toy_config ''m''
        (as_line hello) (as_line reply) = ([first, answer], Ok (st, client))
    \<and> delivers toy_enc toy_dec (snd (split_transport client)) (fst (split_transport server)) [''go'']
    \<and> qt_streams q = 1"
proof -
  have v: "ClientConfig_validate toy_config = Ok ()"
    by (simp add: ClientConfig_validate_def toy_config_def ClientConfig_default_def as_secs_def validate_psk_def MAX_PSK_LENGTH_def utf8_len_def)
  obtain request where r: "quic_test_start toy_config (Some (sc_capabilities toy_security)) ''t'' = Ok request"
    by (simp add: quic_test_start_def toy_config_def ClientConfig_default_def)
  have ms: "list_all (\<lambda>m. utf8_len m + 24 \<le> MAX_FRAME) [''go'']" "length [''go''] < 2 ^ 64"
    by (simp_all add: utf8_len_def MAX_FRAME_def)
  from quic_session_agrees [where mx = None, OF quic_toy_json_ok toy_facts(1,2) quic_toy_caps quic_toy_key toy_keys toy_aead_ok ms v r]
  have "\<exists>first hello answer reply aw st server client. \<exists>q :: quic_test.
    quic_server_handshake toy_hkdf toy_hmac quic_toy_from_json quic_toy_to_json quic_toy_export toy_security ''n'' True
        (ReadLine (as_line first)) (ReadLine (as_line answer)) = ([hello, reply], Ok (aw, server))
    \<and> quic_client_handshake toy_hkdf toy_hmac quic_toy_from_json quic_toy_to_json quic_toy_export toy_config ''m''
        (as_line hello) (as_line reply) = ([first, answer], Ok (st, client))
    \<and> delivers toy_enc toy_dec (snd (split_transport client)) (fst (split_transport server)) [''go'']
    \<and> qt_streams q = cl_streams toy_config" by blast
  then show ?thesis by (simp add: toy_config_def ClientConfig_default_def)
qed

text \<open>C31: a poll of the shared socket loses nothing of the QUIC lane: what the library gets, in the first buffers and
  their meta data, are the QUIC datagrams of the batches polled, in order and intact; the hello channel gets the hello
  datagrams in order as far as it has room; a poll that gives nothing to the library held nothing for it; and no more than 16
  batches are polled.\<close>

theorem tee_splits_lanes:
  assumes "list_all (batch_ok cap) ps" "poll_recv 0 ps st = (r, st', rest)"
  shows "\<exists>polled. ps = polled @ rest \<and> length polled \<le> 16
    \<and> tee_hellos st' = tee_hellos st @ take (tee_room st) (concat (map polled_hellos polled))
    \<and> (case r of TeeReady k \<Rightarrow> map (received (tee_bufs st') (tee_meta st')) [0..<k] = concat (map polled_quic polled)
        | _ \<Rightarrow> concat (map polled_quic polled) = [])"
  using poll_recv_lanes [OF assms] by (simp add: MAX_DIVERT_ITERATIONS_def)

definition tee_sample_meta :: "recv_meta list" where
  "tee_sample_meta = [\<lparr>rm_addr = SockV4 1 5, rm_len = 2, rm_rest = 0\<rparr>, \<lparr>rm_addr = SockV4 1 6, rm_len = 1, rm_rest = 0\<rparr>]"

definition tee_start :: "bytes list \<Rightarrow> recv_meta list \<Rightarrow> tee_state" where
  "tee_start bufs meta = \<lparr>tee_kept = 0, tee_bufs = bufs, tee_meta = meta, tee_hellos = [], tee_room = 3\<rparr>"

theorem tee_splits_lanes_witness:
  "\<exists>st'. poll_recv 0 [InnerReady [[0, 9], [0xC0, 1]] tee_sample_meta 2, InnerPending] (tee_start [] []) = (TeeReady 1, st', [InnerPending])
     \<and> fst (received (tee_bufs st') (tee_meta st') 0) = [0xC0] \<and> tee_hellos st' = []"
proof -
  let ?ps = "[InnerReady [[0, 9], [0xC0, 1]] tee_sample_meta 2, InnerPending]"
  have c: "classify_shared_datagram [0, 9] = XfrStray" "classify_shared_datagram [0xC0] = Quic"
    by (simp_all add: classify_shared_datagram_def udp_wire_consts)
  obtain st' where p: "poll_recv 0 ?ps (tee_start [] []) = (TeeReady 1, st', [InnerPending])"
    using c by (simp add: tee_sample_meta_def tee_start_def tee_batch_def tee_datagram_def numeral_2_eq_2 Let_def)
  have ok: "list_all (batch_ok 2) ?ps" by (simp add: tee_sample_meta_def)
  from tee_splits_lanes [OF ok p] p c show ?thesis
    by (auto simp: tee_sample_meta_def tee_start_def quic_lane_def hello_lane_def received_def numeral_2_eq_2)
qed

text \<open>C32: through pauses, interrupted and short writes and errors, a QUIC sender counts exactly the bytes its stream took, and
  they are what a byte budget loses. It fails only at a write that was refused while nobody had cancelled, before its
  deadline, which moves by the time spent paused and by nothing else, and, where the peer closed the stream, only more than
  the teardown grace before it.\<close>

theorem quic_send_exact:
  "let r = quic_send_loop env its (quic_send_init stats budget start dur); n = length (qd_wire (quic_state r)) in
   budget_ok (map_option (\<lambda>b. unat (remaining b)) budget) (qd_budget (quic_state r)) n
   \<and> st_bytes_sent (qd_stats (quic_state r)) = st_bytes_sent stats + word_of_nat n
   \<and> (case r of
        QFail e st' \<Rightarrow> \<exists>pre t now post. its = pre @ QWrite t (QWriteErr e False now) # post
          \<and> (qe_infinite env \<or> now < start + dur + sum_list (map quic_paused pre))
          \<and> (e = OtherWrite \<or> qe_infinite env
             \<or> now + QUIC_SEND_TEARDOWN_GRACE < start + dur + sum_list (map quic_paused pre))
      | _ \<Rightarrow> True)"
proof -
  let ?st = "quic_send_init stats budget start dur"
  have "quic_inv (map_option (\<lambda>b. unat (remaining b)) budget) (st_bytes_sent stats) ?st"
    by (cases budget) (simp_all add: quic_inv_def quic_send_init_def budget_ok_def)
  from quic_inv_loop [OF this, of env its] quic_failure_point [of env its ?st]
  show ?thesis by (auto simp: Let_def quic_inv_def quic_send_init_def split: quic_step.split)
qed

text \<open>C33: the control loop of a QUIC test is the one of a TCP test but for when it stops the streams. On every sequence of events both
  keep the same clock and pause, wait for the same, send the server and the pause channel of the streams the same,
  and end together with the same error or the server's result, on which only the TCP client overlays readings of its sockets.
  The cancel channels of the streams agree too while the loops run, except that the TCP loop also stops them at the end of the requested
  time and the QUIC loop also when the server says that it has cancelled; a QUIC loop that ends has stopped them.\<close>

theorem quic_loop_is_client_loop:
  assumes "cl_protocol (ce_config e) = QuicProto"
  shows "same_outcome e (list_ex acknowledges evs) (quic_loop e evs (quic_init e now)) (client_loop e evs (client_init e stats now))"
  using same_outcome_loop [OF assms same_outcome_init] by simp

theorem quic_loop_is_client_loop_witness:
  "let e = (sample_client Upload)\<lparr>ce_config := ClientConfig_default\<lparr>cl_protocol := QuicProto\<rparr>\<rparr>; stats = TestStats_new ''t'' 1 0;
     evs = [ClCancelRequest (Some True) 5, ClWritten, ClCommand (Some (EvMessage (Cancelled ''t''))) 7 stats (\<lambda>_. None), ClDeadline 3000000007]
   in same_outcome e (list_ex acknowledges evs) (quic_loop e evs (quic_init e 0)) (client_loop e evs (client_init e stats 0))"
  unfolding Let_def by (rule quic_loop_is_client_loop) simp

end
