(* ===== verification/Tui_Settings.thy ===== *)
theory Tui_Settings
  imports Client_Plain
begin

text \<open>
  The settings screen of the terminal interface (\<open>src/tui/settings.rs\<close>) and the names of the themes
  (\<open>src/tui/theme.rs\<close>, whose colours are not modelled: a theme is its canonical name).
\<close>

section \<open>Themes\<close>

definition Theme_list :: "string list" where
  "Theme_list = [''default'', ''kawaii'', ''cyber'', ''dracula'', ''monochrome'', ''matrix'', ''nord'', ''gruvbox'',
     ''catppuccin'', ''tokyo_night'', ''solarized'']"

definition Theme_by_name :: "string \<Rightarrow> string" where
  "Theme_by_name name =
     (let n = to_lowercase name
      in if n = ''kawaii'' then ''kawaii''
         else if n = ''cyber'' \<or> n = ''futuristic'' then ''cyber''
         else if n = ''monochrome'' \<or> n = ''mono'' then ''monochrome''
         else if n = ''dracula'' then ''dracula''
         else if n = ''matrix'' \<or> n = ''hacker'' then ''matrix''
         else if n = ''nord'' then ''nord''
         else if n = ''gruvbox'' then ''gruvbox''
         else if n = ''catppuccin'' \<or> n = ''mocha'' then ''catppuccin''
         else if n = ''tokyo_night'' \<or> n = ''tokyo'' \<or> n = ''tokyonight'' then ''tokyo_night''
         else if n = ''solarized'' then ''solarized''
         else ''default'')"

definition hue_free :: "string \<Rightarrow> bool" where "hue_free theme = (theme = ''monochrome'')"

text \<open>\<open>Iterator::position\<close>.\<close>

definition position_of :: "('a \<Rightarrow> bool) \<Rightarrow> 'a list \<Rightarrow> nat option" where
  "position_of P xs = (let n = length (takeWhile (\<lambda>x. \<not> P x) xs) in if n < length xs then Some n else None)"

section \<open>Settings\<close>

datatype SettingsCategory = Display | Test

definition SettingsCategory_next :: "SettingsCategory \<Rightarrow> SettingsCategory" where
  "SettingsCategory_next c = (case c of Display \<Rightarrow> Test | Test \<Rightarrow> Display)"

datatype Units = AutoUnits | Bits | Bytes

definition Units_as_str :: "Units \<Rightarrow> string" where
  "Units_as_str u = (case u of AutoUnits \<Rightarrow> ''auto'' | Bits \<Rightarrow> ''bits'' | Bytes \<Rightarrow> ''bytes'')"

definition Units_next :: "Units \<Rightarrow> Units" where
  "Units_next u = (case u of AutoUnits \<Rightarrow> Bits | Bits \<Rightarrow> Bytes | Bytes \<Rightarrow> AutoUnits)"

definition Units_prev :: "Units \<Rightarrow> Units" where
  "Units_prev u = (case u of AutoUnits \<Rightarrow> Bytes | Bits \<Rightarrow> AutoUnits | Bytes \<Rightarrow> Bits)"

definition Protocol_next :: "Protocol \<Rightarrow> Protocol" where
  "Protocol_next p = (case p of Tcp \<Rightarrow> Udp | Udp \<Rightarrow> QuicProto | QuicProto \<Rightarrow> Tcp)"

definition Protocol_prev :: "Protocol \<Rightarrow> Protocol" where
  "Protocol_prev p = (case p of Tcp \<Rightarrow> QuicProto | Udp \<Rightarrow> Tcp | QuicProto \<Rightarrow> Udp)"

definition Direction_next :: "Protocol.Direction \<Rightarrow> Protocol.Direction" where
  "Direction_next d = (case d of Upload \<Rightarrow> Download | Download \<Rightarrow> Bidir | Bidir \<Rightarrow> Upload)"

definition Direction_prev :: "Protocol.Direction \<Rightarrow> Protocol.Direction" where
  "Direction_prev d = (case d of Upload \<Rightarrow> Bidir | Download \<Rightarrow> Upload | Bidir \<Rightarrow> Download)"

text \<open>The five parameters of a test that the screen edits, as they are and as they were last applied.\<close>

record edited =
  ed_streams :: u8
  ed_protocol :: Protocol
  ed_duration_secs :: u64
  ed_direction :: Protocol.Direction
  ed_bitrate :: "u64 option"

record SettingsState =
  sg_visible :: bool
  sg_category :: SettingsCategory
  sg_selected_index :: nat
  sg_button_focused :: bool
  sg_button_index :: nat
  sg_theme_index :: nat
  sg_timestamp_format :: TimestampFormat
  sg_units :: Units
  sg_update_check :: bool
  sg_update_check_lock_reason :: "string option"
  sg_update_check_touched :: bool
  sg_params :: edited
  sg_original :: edited

definition SettingsState_new ::
  "nat \<Rightarrow> u8 \<Rightarrow> Protocol \<Rightarrow> duration \<Rightarrow> Protocol.Direction \<Rightarrow> u64 option \<Rightarrow> SettingsState" where
  "SettingsState_new theme_index streams protocol dur direction bitrate =
     (let p = \<lparr>ed_streams = streams, ed_protocol = protocol, ed_duration_secs = word_of_nat (as_secs dur), ed_direction = direction,
              ed_bitrate = bitrate\<rparr>
      in \<lparr>sg_visible = False, sg_category = Display, sg_selected_index = 0, sg_button_focused = False, sg_button_index = 0,
          sg_theme_index = theme_index, sg_timestamp_format = Relative, sg_units = AutoUnits, sg_update_check = True,
          sg_update_check_lock_reason = None, sg_update_check_touched = False, sg_params = p, sg_original = p\<rparr>)"

definition SettingsState_default :: SettingsState where
  "SettingsState_default = SettingsState_new 0 1 Tcp 10000000000 Upload None"

definition mark_applied :: "SettingsState \<Rightarrow> SettingsState" where
  "mark_applied s = s\<lparr>sg_original := sg_params s\<rparr>"

definition settings_toggle :: "SettingsState \<Rightarrow> SettingsState" where
  "settings_toggle s =
     (let s = s\<lparr>sg_visible := \<not> sg_visible s\<rparr>
      in if sg_visible s then s\<lparr>sg_selected_index := 0, sg_button_focused := False\<rparr> else s)"

definition settings_close :: "SettingsState \<Rightarrow> SettingsState" where
  "settings_close s = s\<lparr>sg_visible := False\<rparr>"

definition test_params_dirty :: "SettingsState \<Rightarrow> bool" where
  "test_params_dirty s = (sg_params s \<noteq> sg_original s)"

definition items_in_category :: "SettingsState \<Rightarrow> nat" where
  "items_in_category s = (case sg_category s of Display \<Rightarrow> 4 | Test \<Rightarrow> 5)"

definition move_up :: "SettingsState \<Rightarrow> SettingsState" where
  "move_up s =
     (if sg_button_focused s then s\<lparr>sg_button_focused := False, sg_selected_index := items_in_category s - 1\<rparr>
      else if 0 < sg_selected_index s then s\<lparr>sg_selected_index := sg_selected_index s - 1\<rparr>
      else s)"

definition focus_button :: "SettingsState \<Rightarrow> SettingsState" where
  "focus_button s = s\<lparr>sg_button_focused := True, sg_button_index := (if test_params_dirty s then 0 else 1)\<rparr>"

definition move_down :: "SettingsState \<Rightarrow> SettingsState" where
  "move_down s =
     (if sg_button_focused s then s
      else if sg_selected_index s < items_in_category s - 1 then s\<lparr>sg_selected_index := sg_selected_index s + 1\<rparr>
      else focus_button s)"

definition switch_tab :: "SettingsState \<Rightarrow> SettingsState" where
  "switch_tab s = s\<lparr>sg_category := SettingsCategory_next (sg_category s), sg_selected_index := 0, sg_button_focused := False\<rparr>"

definition toggle_update_check :: "SettingsState \<Rightarrow> SettingsState" where
  "toggle_update_check s =
     (if sg_update_check_lock_reason s \<noteq> None then s
      else s\<lparr>sg_update_check := \<not> sg_update_check s, sg_update_check_touched := True\<rparr>)"

section \<open>Values\<close>

definition duration_next :: "u64 \<Rightarrow> u64" where "duration_next secs = min ((secs div 5 + 1) * 5) 3600"
definition duration_prev :: "u64 \<Rightarrow> u64" where "duration_prev secs = max (saturating_sub secs 1 div 5 * 5) 5"

definition BITRATE_STEPS :: "u64 option list" where
  "BITRATE_STEPS = [None, Some 1000000, Some 10000000, Some 100000000, Some 1000000000, Some 10000000000]"

definition bitrate_index :: "u64 option \<Rightarrow> nat" where
  "bitrate_index current = (case position_of (\<lambda>step. step = current) BITRATE_STEPS of Some i \<Rightarrow> i | None \<Rightarrow> 0)"

definition bitrate_next :: "u64 option \<Rightarrow> u64 option" where
  "bitrate_next current = BITRATE_STEPS ! ((bitrate_index current + 1) mod length BITRATE_STEPS)"

definition bitrate_prev :: "u64 option \<Rightarrow> u64 option" where
  "bitrate_prev current =
     (let i = bitrate_index current in BITRATE_STEPS ! (if i = 0 then length BITRATE_STEPS - 1 else i - 1))"

definition bitrate_display :: "u64 option \<Rightarrow> string" where
  "bitrate_display bitrate =
     (case bitrate of
        None \<Rightarrow> ''unlimited''
      | Some bps \<Rightarrow>
          if bps mod 1000000000 = 0 then show_nat (unat (bps div 1000000000)) @ '' Gbps''
          else if bps mod 1000000 = 0 then show_nat (unat (bps div 1000000)) @ '' Mbps''
          else if bps mod 1000 = 0 then show_nat (unat (bps div 1000)) @ '' Kbps''
          else show_nat (unat bps) @ '' bps'')"

definition value_next :: "SettingsState \<Rightarrow> SettingsState" where
  "value_next s =
     (let p = sg_params s
      in if sg_button_focused s
         then (if test_params_dirty s then s\<lparr>sg_button_index := (sg_button_index s + 1) mod 2\<rparr> else s)
         else (case sg_category s of
                 Display \<Rightarrow>
                   if sg_selected_index s = 0 then s\<lparr>sg_theme_index := (sg_theme_index s + 1) mod length Theme_list\<rparr>
                   else if sg_selected_index s = 1 then s\<lparr>sg_timestamp_format := TimestampFormat_next (sg_timestamp_format s)\<rparr>
                   else if sg_selected_index s = 2 then s\<lparr>sg_units := Units_next (sg_units s)\<rparr>
                   else if sg_selected_index s = 3 then toggle_update_check s
                   else s
               | Test \<Rightarrow>
                   if sg_selected_index s = 0 then s\<lparr>sg_params := p\<lparr>ed_streams := min (saturating_add (ed_streams p) 1) 128\<rparr>\<rparr>
                   else if sg_selected_index s = 1 then s\<lparr>sg_params := p\<lparr>ed_protocol := Protocol_next (ed_protocol p)\<rparr>\<rparr>
                   else if sg_selected_index s = 2 then s\<lparr>sg_params := p\<lparr>ed_duration_secs := duration_next (ed_duration_secs p)\<rparr>\<rparr>
                   else if sg_selected_index s = 3 then s\<lparr>sg_params := p\<lparr>ed_direction := Direction_next (ed_direction p)\<rparr>\<rparr>
                   else if sg_selected_index s = 4 then s\<lparr>sg_params := p\<lparr>ed_bitrate := bitrate_next (ed_bitrate p)\<rparr>\<rparr>
                   else s))"

definition value_prev :: "SettingsState \<Rightarrow> SettingsState" where
  "value_prev s =
     (let p = sg_params s
      in if sg_button_focused s
         then (if test_params_dirty s then s\<lparr>sg_button_index := (if sg_button_index s = 0 then 1 else 0)\<rparr> else s)
         else (case sg_category s of
                 Display \<Rightarrow>
                   if sg_selected_index s = 0
                   then s\<lparr>sg_theme_index := (if sg_theme_index s = 0 then length Theme_list - 1 else sg_theme_index s - 1)\<rparr>
                   else if sg_selected_index s = 1 then s\<lparr>sg_timestamp_format := TimestampFormat_prev (sg_timestamp_format s)\<rparr>
                   else if sg_selected_index s = 2 then s\<lparr>sg_units := Units_prev (sg_units s)\<rparr>
                   else if sg_selected_index s = 3 then toggle_update_check s
                   else s
               | Test \<Rightarrow>
                   if sg_selected_index s = 0 then s\<lparr>sg_params := p\<lparr>ed_streams := max (saturating_sub (ed_streams p) 1) 1\<rparr>\<rparr>
                   else if sg_selected_index s = 1 then s\<lparr>sg_params := p\<lparr>ed_protocol := Protocol_prev (ed_protocol p)\<rparr>\<rparr>
                   else if sg_selected_index s = 2 then s\<lparr>sg_params := p\<lparr>ed_duration_secs := duration_prev (ed_duration_secs p)\<rparr>\<rparr>
                   else if sg_selected_index s = 3 then s\<lparr>sg_params := p\<lparr>ed_direction := Direction_prev (ed_direction p)\<rparr>\<rparr>
                   else if sg_selected_index s = 4 then s\<lparr>sg_params := p\<lparr>ed_bitrate := bitrate_prev (ed_bitrate p)\<rparr>\<rparr>
                   else s))"

definition settings_theme_name :: "SettingsState \<Rightarrow> string" where
  "settings_theme_name s = (if sg_theme_index s < length Theme_list then Theme_list ! sg_theme_index s else ''default'')"

datatype SettingsAction = NoAction | CloseAction | RestartAction

definition on_enter :: "SettingsState \<Rightarrow> SettingsState \<times> SettingsAction" where
  "on_enter s =
     (if \<not> sg_button_focused s then (focus_button s, NoAction)
      else if sg_button_index s = 0
      then (settings_close s, if test_params_dirty s then RestartAction else CloseAction)
      else if sg_button_index s = 1 then (settings_close s, CloseAction)
      else (s, NoAction))"

end
