(* ===== verification/Tui_App.thy ===== *)
theory Tui_App
  imports Tui_Settings
begin

text \<open>
  The state of the client's terminal interface, \<open>App\<close> of \<open>src/tui/app.rs\<close>, and everything that changes
  it. What one run of a test shows is the record \<open>run_view\<close>; \<open>App\<close> keeps it beside what outlives a run: the session's parameters,
  theme, settings and history. An operation gets the readings of the clocks as arguments; the lines that one operation logs have one
  reading.
\<close>

section \<open>Constants and parts\<close>

definition SPARKLINE_HISTORY :: nat where "SPARKLINE_HISTORY = 60"
definition LOG_HISTORY :: nat where "LOG_HISTORY = 100"
definition BAR_INTERVAL :: duration where "BAR_INTERVAL = 1000000000"
definition BAR_STALL_AFTER :: duration where "BAR_STALL_AFTER = 2000000000"
definition JITTER_HISTORY_SAMPLES :: nat where "JITTER_HISTORY_SAMPLES = 10"

datatype AppState = AppConnecting | AppRunning | AppPaused | AppCompleted | AppError

definition AppState_fmt :: "AppState \<Rightarrow> string" where
  "AppState_fmt s = (case s of AppConnecting \<Rightarrow> ''Connecting...'' | AppRunning \<Rightarrow> ''Running...'' | AppPaused \<Rightarrow> ''Paused''
     | AppCompleted \<Rightarrow> ''Complete'' | AppError \<Rightarrow> ''Error'')"

record StreamData =
  sd_id :: u8
  sd_bytes :: u64
  sd_throughput_mbps :: f64
  sd_retransmits :: u64
  sd_jitter_ms :: "f64 option"
  sd_throughput_send_mbps :: "f64 option"
  sd_throughput_recv_mbps :: "f64 option"

definition StreamData_fresh :: "u8 \<Rightarrow> StreamData" where
  "StreamData_fresh i = \<lparr>sd_id = i, sd_bytes = 0, sd_throughput_mbps = 0, sd_retransmits = 0, sd_jitter_ms = None,
     sd_throughput_send_mbps = None, sd_throughput_recv_mbps = None\<rparr>"

definition fresh_streams :: "u8 \<Rightarrow> StreamData list" where
  "fresh_streams n = map (\<lambda>i. StreamData_fresh (word_of_nat i)) [0..<unat n]"

record UdpDirectionState =
  ud_progress :: "UdpIntervalProgress option"
  ud_jitter_ms :: "f64 option"

definition UdpDirectionState_default :: UdpDirectionState where
  "UdpDirectionState_default = \<lparr>ud_progress = None, ud_jitter_ms = None\<rparr>"

definition UdpDirectionState_lost_percent :: "UdpDirectionState \<Rightarrow> f64 option" where
  "UdpDirectionState_lost_percent d = Option.bind (ud_progress d) Protocol.lost_percent"

definition UdpDirectionState_update :: "UdpDirectionState \<Rightarrow> UdpDirectionProgress \<Rightarrow> UdpDirectionState" where
  "UdpDirectionState_update d measurement =
     (if (case ud_progress d of
            None \<Rightarrow> False
          | Some previous \<Rightarrow> \<not> is_at_least_as_fresh_as (udp_progress_counts measurement) previous)
      then d
      else d\<lparr>ud_progress := Some (udp_progress_counts measurement),
             ud_jitter_ms := (case udp_progress_jitter_ms measurement of Some j \<Rightarrow> Some j | None \<Rightarrow> ud_jitter_ms d)\<rparr>)"

definition UdpDirectionState_from_result :: "UdpStats option \<Rightarrow> UdpDirectionState" where
  "UdpDirectionState_from_result stats =
     (case stats of
        None \<Rightarrow> UdpDirectionState_default
      | Some s \<Rightarrow> \<lparr>ud_progress = Some \<lparr>up_packets_received = us_packets_received s, up_packets_lost = us_lost s\<rparr>,
                   ud_jitter_ms = (if 0 < us_packets_received s then Some (us_jitter_ms s) else None)\<rparr>)"

text \<open>A bar of the sparkline; \<open>th_interval_packets = 0\<close> means that its loss is not known.\<close>

record ThroughputSample =
  th_mbps :: f64
  th_lost_packets :: u64
  th_interval_packets :: u64

definition loss_rate_percent :: "ThroughputSample \<Rightarrow> f64 option" where
  "loss_rate_percent t =
     (if th_interval_packets t = 0 then None
      else Some (real (unat (th_lost_packets t)) / real (unat (th_interval_packets t)) * 100))"

record LogEntry =
  le_timestamp :: string
  le_message :: string
  le_elapsed :: duration
  le_recorded_at :: instant

definition two_digits :: "nat \<Rightarrow> string" where "two_digits n = pad_zeros 2 (show_nat n)"

text \<open>\<open>clock\<close> is the session's anchor, an instant and the wall clock at it.\<close>

definition LogEntry_format_timestamp :: "(int \<Rightarrow> string) \<Rightarrow> LogEntry \<Rightarrow> TimestampFormat \<Rightarrow> instant \<times> int \<Rightarrow> string" where
  "LogEntry_format_timestamp calendar e f clock =
     (case f of
        Relative \<Rightarrow> (let s = as_secs (le_elapsed e)
                     in two_digits (s div 3600) @ '':'' @ two_digits (s mod 3600 div 60) @ '':'' @ two_digits (s mod 60))
      | _ \<Rightarrow> TimestampFormat_format calendar f (fst clock) (le_recorded_at e) (snd clock))"

section \<open>The view of a run\<close>

record run_view =
  rv_elapsed :: duration
  rv_total_bytes :: u64
  rv_current_mbps :: f64
  rv_bars :: "ThroughputSample list"
  rv_jitters :: "f64 list"
  rv_streams :: "StreamData list"
  rv_bidir_bytes_sent :: u64
  rv_bidir_bytes_received :: u64
  rv_send_mbps :: f64
  rv_recv_mbps :: f64
  rv_retransmits :: u64
  rv_retransmits_are_authoritative :: bool
  rv_rtt_us :: u32
  rv_cwnd :: u32
  rv_udp_jitter_ms :: f64
  rv_udp_lost_percent :: "f64 option"
  rv_udp_packets_sent :: u64
  rv_udp_packets_lost :: u64
  rv_udp_send :: UdpDirectionState
  rv_udp_recv :: UdpDirectionState
  rv_average_mbps :: f64
  rv_throughput_count :: u64
  rv_peak_mbps :: f64
  rv_prev_retransmits :: u64
  rv_prev_udp_lost :: u64
  rv_prev_udp_progress :: "UdpIntervalProgress option"
  rv_latest_udp_progress :: "UdpIntervalProgress option"
  rv_last_bar_at :: "instant option"

definition fresh_view :: "StreamData list \<Rightarrow> run_view" where
  "fresh_view streams = \<lparr>rv_elapsed = 0, rv_total_bytes = 0, rv_current_mbps = 0, rv_bars = [], rv_jitters = [],
     rv_streams = streams, rv_bidir_bytes_sent = 0, rv_bidir_bytes_received = 0, rv_send_mbps = 0, rv_recv_mbps = 0,
     rv_retransmits = 0, rv_retransmits_are_authoritative = False, rv_rtt_us = 0, rv_cwnd = 0, rv_udp_jitter_ms = 0,
     rv_udp_lost_percent = None, rv_udp_packets_sent = 0, rv_udp_packets_lost = 0,
     rv_udp_send = UdpDirectionState_default, rv_udp_recv = UdpDirectionState_default, rv_average_mbps = 0,
     rv_throughput_count = 0, rv_peak_mbps = 0, rv_prev_retransmits = 0, rv_prev_udp_lost = 0,
     rv_prev_udp_progress = None, rv_latest_udp_progress = None, rv_last_bar_at = None\<rparr>"

text \<open>\<open>push_back\<close> and then \<open>pop_front\<close> once the window is full.\<close>

definition push_capped :: "nat \<Rightarrow> 'a \<Rightarrow> 'a list \<Rightarrow> 'a list" where
  "push_capped n x xs = (let ys = xs @ [x] in if n < length ys then tl ys else ys)"

definition push_throughput_sample :: "ThroughputSample \<Rightarrow> run_view \<Rightarrow> run_view" where
  "push_throughput_sample t v = v\<lparr>rv_bars := push_capped SPARKLINE_HISTORY t (rv_bars v)\<rparr>"

text \<open>The packets and the losses since the last bar, both zero while there is no earlier count to compare with.\<close>

definition bar_delta :: "run_view \<Rightarrow> u64 \<times> u64" where
  "bar_delta v =
     (case (rv_latest_udp_progress v, rv_prev_udp_progress v) of
        (Some cur, Some prev) \<Rightarrow>
          (let lost = saturating_sub (up_packets_lost cur) (up_packets_lost prev);
               expected = saturating_add (up_packets_received cur) (up_packets_lost cur);
               previous = saturating_add (up_packets_received prev) (up_packets_lost prev)
           in (saturating_sub expected previous, lost))
      | _ \<Rightarrow> (0, 0))"

definition append_bar :: "f64 \<Rightarrow> run_view \<Rightarrow> run_view" where
  "append_bar mbps v =
     (let (interval_packets, interval_lost) = bar_delta v;
          v = push_throughput_sample \<lparr>th_mbps = mbps, th_lost_packets = interval_lost, th_interval_packets = interval_packets\<rparr> v
      in case rv_latest_udp_progress v of
           Some latest \<Rightarrow> v\<lparr>rv_prev_udp_progress := Some latest\<rparr>
         | None \<Rightarrow> v)"

definition maybe_append_stalled_bar :: "instant \<Rightarrow> instant option \<Rightarrow> run_view \<Rightarrow> run_view" where
  "maybe_append_stalled_bar now start v =
     (case (case rv_last_bar_at v of Some t \<Rightarrow> Some t | None \<Rightarrow> start) of
        None \<Rightarrow> v
      | Some t0 \<Rightarrow>
          if now - t0 < BAR_STALL_AFTER then v
          else (let advanced = t0 + BAR_INTERVAL
                in (append_bar (rv_current_mbps v) v)
                     \<lparr>rv_last_bar_at := Some (if BAR_STALL_AFTER \<le> now - advanced then now else advanced)\<rparr>))"

section \<open>Progress\<close>

text \<open>One stream of an interval: its row, and the sums of jitter and losses over the streams.\<close>

definition show_interval :: "TestProgress \<Rightarrow> StreamInterval \<Rightarrow> StreamData \<Rightarrow> StreamData" where
  "show_interval p i d = d\<lparr>sd_bytes := si_bytes i,
     sd_throughput_mbps :=
       (case (si_throughput_send_mbps i, si_throughput_recv_mbps i) of
          (Some send, Some recv) \<Rightarrow> send + recv
        | _ \<Rightarrow> if 0 < tp_total_bytes p
               then tp_throughput_mbps p * real (unat (si_bytes i)) / real (unat (tp_total_bytes p))
               else 0),
     sd_retransmits := (case si_retransmits i of Some n \<Rightarrow> n | None \<Rightarrow> 0),
     sd_jitter_ms := si_jitter_ms i,
     sd_throughput_send_mbps := si_throughput_send_mbps i,
     sd_throughput_recv_mbps := si_throughput_recv_mbps i\<rparr>"

definition update_stream :: "u8 \<Rightarrow> (StreamData \<Rightarrow> StreamData) \<Rightarrow> StreamData list \<Rightarrow> StreamData list" where
  "update_stream i f ds = (if unat i < length ds then ds[unat i := f (ds ! unat i)] else ds)"

definition interval_step ::
  "TestProgress \<Rightarrow> StreamInterval \<Rightarrow> StreamData list \<times> f64 \<times> u64 \<times> nat \<Rightarrow> StreamData list \<times> f64 \<times> u64 \<times> nat" where
  "interval_step p i = (\<lambda>(ds, total_jitter, total_lost, jitter_count).
     (let ds = update_stream (si_id i) (show_interval p i) ds;
          (total_jitter, jitter_count) =
            (case si_jitter_ms i of Some j \<Rightarrow> (total_jitter + j, jitter_count + 1) | None \<Rightarrow> (total_jitter, jitter_count));
          total_lost = (case si_lost i of Some n \<Rightarrow> saturating_add total_lost n | None \<Rightarrow> total_lost)
      in (ds, total_jitter, total_lost, jitter_count)))"

definition note_directions :: "TestProgress \<Rightarrow> run_view \<Rightarrow> run_view" where
  "note_directions p v =
     v\<lparr>rv_udp_send := (case tp_udp_send p of Some m \<Rightarrow> UdpDirectionState_update (rv_udp_send v) m | None \<Rightarrow> rv_udp_send v),
       rv_udp_recv := (case tp_udp_recv p of Some m \<Rightarrow> UdpDirectionState_update (rv_udp_recv v) m | None \<Rightarrow> rv_udp_recv v)\<rparr>"

text \<open>The count of the whole test, dropped when one at least as fresh was seen.\<close>

definition fresh_progress :: "TestProgress \<Rightarrow> run_view \<Rightarrow> UdpIntervalProgress option" where
  "fresh_progress p v =
     (case tp_udp_progress p of
        None \<Rightarrow> None
      | Some candidate \<Rightarrow>
          (case rv_latest_udp_progress v of
             None \<Rightarrow> Some candidate
           | Some previous \<Rightarrow> if is_at_least_as_fresh_as candidate previous then Some candidate else None))"

definition note_lost_percent :: "UdpIntervalProgress option \<Rightarrow> run_view \<Rightarrow> run_view" where
  "note_lost_percent udp v =
     (case Option.bind udp Protocol.lost_percent of
        Some percent \<Rightarrow> v\<lparr>rv_udp_lost_percent := Some percent\<rparr>
      | None \<Rightarrow> v)"

definition note_latest :: "UdpIntervalProgress option \<Rightarrow> run_view \<Rightarrow> run_view" where
  "note_latest udp v = (case udp of Some c \<Rightarrow> v\<lparr>rv_latest_udp_progress := Some c\<rparr> | None \<Rightarrow> v)"

definition note_totals :: "TestProgress \<Rightarrow> run_view \<Rightarrow> run_view" where
  "note_totals p v =
     (let v = v\<lparr>rv_total_bytes := saturating_add (rv_total_bytes v) (tp_total_bytes p), rv_current_mbps := tp_throughput_mbps p\<rparr>
      in case (tp_bytes_sent p, tp_bytes_received p, tp_throughput_send_mbps p, tp_throughput_recv_mbps p) of
           (Some sent, Some recv, Some ts, Some tr) \<Rightarrow>
             v\<lparr>rv_bidir_bytes_sent := rv_bidir_bytes_sent v + sent, rv_bidir_bytes_received := rv_bidir_bytes_received v + recv,
               rv_send_mbps := ts, rv_recv_mbps := tr\<rparr>
         | _ \<Rightarrow> v)"

definition append_due_bar :: "instant \<Rightarrow> f64 \<Rightarrow> run_view \<Rightarrow> run_view" where
  "append_due_bar now mbps v =
     (if (case rv_last_bar_at v of None \<Rightarrow> True | Some t0 \<Rightarrow> BAR_INTERVAL div 2 \<le> now - t0)
      then (append_bar mbps v)\<lparr>rv_last_bar_at := Some now\<rparr> else v)"

definition note_retransmits :: "TestProgress \<Rightarrow> run_view \<Rightarrow> run_view" where
  "note_retransmits p v =
     (case tp_total_retransmits p of
        Some n \<Rightarrow> v\<lparr>rv_retransmits := n, rv_retransmits_are_authoritative := True\<rparr>
      | None \<Rightarrow>
          if \<not> rv_retransmits_are_authoritative v
          then v\<lparr>rv_retransmits := saturating_add (rv_retransmits v)
                   (sum_list (map (\<lambda>s. case si_retransmits s of Some n \<Rightarrow> n | None \<Rightarrow> 0) (tp_streams p)))\<rparr>
          else v)"

definition note_tcp_info :: "TestProgress \<Rightarrow> run_view \<Rightarrow> run_view" where
  "note_tcp_info p v =
     v\<lparr>rv_rtt_us := (case tp_rtt_us p of Some r \<Rightarrow> r | None \<Rightarrow> rv_rtt_us v),
       rv_cwnd := (case tp_cwnd p of Some c \<Rightarrow> c | None \<Rightarrow> rv_cwnd v)\<rparr>"

definition note_jitter :: "Protocol \<Rightarrow> Protocol.Direction \<Rightarrow> f64 \<Rightarrow> nat \<Rightarrow> run_view \<Rightarrow> run_view" where
  "note_jitter protocol direction total_jitter jitter_count v =
     (if 0 < jitter_count
      then (let j = total_jitter / real jitter_count; v = v\<lparr>rv_udp_jitter_ms := j\<rparr>;
                v = (if protocol = Udp \<and> direction = Bidir \<and> ud_progress (rv_udp_send v) = None
                     then v\<lparr>rv_udp_send := (rv_udp_send v)\<lparr>ud_jitter_ms := Some j\<rparr>\<rparr> else v)
            in v\<lparr>rv_jitters := push_capped JITTER_HISTORY_SAMPLES j (rv_jitters v)\<rparr>)
      else v)"

definition note_lost :: "u64 \<Rightarrow> run_view \<Rightarrow> run_view" where
  "note_lost total_lost v =
     v\<lparr>rv_udp_packets_lost := (case rv_latest_udp_progress v of
         Some c \<Rightarrow> up_packets_lost c
       | None \<Rightarrow> saturating_add (rv_udp_packets_lost v) total_lost)\<rparr>"

definition note_average :: "TestProgress \<Rightarrow> run_view \<Rightarrow> run_view" where
  "note_average p v =
     (let v = v\<lparr>rv_throughput_count := rv_throughput_count v + 1\<rparr>; elapsed_secs = real (unat (tp_elapsed_ms p)) / 1000
      in if 0 < elapsed_secs
         then v\<lparr>rv_average_mbps := real (unat (rv_total_bytes v)) * 8 / elapsed_secs / 1000000\<rparr> else v)"

text \<open>The lines for the history, in the order they are logged.\<close>

definition detect_events :: "f64 \<Rightarrow> run_view \<Rightarrow> run_view \<times> string list" where
  "detect_events mbps v =
     (let (v, peak) =
            (if 2 < rv_throughput_count v \<and> rv_peak_mbps v * (11 / 10) < mbps
             then (v\<lparr>rv_peak_mbps := mbps\<rparr>, [''Peak: '' @ fmt_fixed 0 mbps @ '' Mbps''])
             else if rv_peak_mbps v < mbps then (v\<lparr>rv_peak_mbps := mbps\<rparr>, []) else (v, []));
          retransmits =
            (if rv_prev_retransmits v < rv_retransmits v \<and> 10 \<le> rv_retransmits v - rv_prev_retransmits v
             then [''Retransmits: +'' @ show_nat (unat (rv_retransmits v - rv_prev_retransmits v))] else []);
          v = v\<lparr>rv_prev_retransmits := rv_retransmits v\<rparr>;
          (v, lost) =
            (if rv_prev_udp_lost v < rv_udp_packets_lost v
             then (v\<lparr>rv_prev_udp_lost := rv_udp_packets_lost v\<rparr>,
                   if 5 \<le> rv_udp_packets_lost v - rv_prev_udp_lost v
                   then [''UDP loss: +'' @ show_nat (unat (rv_udp_packets_lost v - rv_prev_udp_lost v)) @ '' packets''] else [])
             else (v, []))
      in (v, peak @ retransmits @ lost))"

definition view_on_progress ::
  "Protocol \<Rightarrow> Protocol.Direction \<Rightarrow> instant \<Rightarrow> TestProgress \<Rightarrow> run_view \<Rightarrow> run_view \<times> string list" where
  "view_on_progress protocol direction now p v =
     (let v = note_directions p v; udp = fresh_progress p v
      in if tp_udp_feedback_only p then (note_lost_percent udp (note_latest udp v), [])
         else (let v = note_totals p v;
                   (ds, total_jitter, total_lost, jitter_count) = fold (interval_step p) (tp_streams p) (rv_streams v, 0, 0, 0);
                   v = note_latest udp (v\<lparr>rv_streams := ds\<rparr>);
                   v = append_due_bar now (tp_throughput_mbps p) v;
                   v = note_tcp_info p (note_retransmits p v);
                   v = note_lost total_lost (note_jitter protocol direction total_jitter jitter_count v);
                   v = note_average p (note_lost_percent udp v)
               in detect_events (tp_throughput_mbps p) v))"

section \<open>The end of a run\<close>

definition show_result :: "StreamResult \<Rightarrow> StreamData \<Rightarrow> StreamData" where
  "show_result r d = d\<lparr>sd_bytes := str_bytes r, sd_throughput_mbps := str_throughput_mbps r,
     sd_throughput_send_mbps := str_throughput_send_mbps r, sd_throughput_recv_mbps := str_throughput_recv_mbps r,
     sd_retransmits := (case str_retransmits r of Some n \<Rightarrow> n | None \<Rightarrow> 0),
     sd_jitter_ms := (case str_jitter_ms r of Some j \<Rightarrow> Some j | None \<Rightarrow> sd_jitter_ms d)\<rparr>"

definition view_on_result :: "duration \<Rightarrow> TestResult \<Rightarrow> run_view \<Rightarrow> run_view" where
  "view_on_result planned r v =
     (let v = v\<lparr>rv_elapsed := (if planned = 0 then unat (tr_duration_ms r) * 1000000 else planned),
                rv_total_bytes := tr_bytes_total r,
                rv_streams := fold (\<lambda>s. update_stream (str_id s) (show_result s)) (tr_streams r) (rv_streams v),
                rv_udp_send := UdpDirectionState_from_result (tr_udp_stats_send r),
                rv_udp_recv := UdpDirectionState_from_result (tr_udp_stats_recv r),
                rv_average_mbps := tr_throughput_mbps r,
                rv_retransmits := sum_list (List.map_filter str_retransmits (tr_streams r))\<rparr>;
          v = (case tr_tcp_info r of Some t \<Rightarrow> v\<lparr>rv_rtt_us := ti_rtt_us t, rv_cwnd := ti_cwnd t\<rparr> | None \<Rightarrow> v);
          v = (case tr_udp_stats r of
                 Some u \<Rightarrow> v\<lparr>rv_udp_jitter_ms := us_jitter_ms u, rv_udp_lost_percent := Some (us_lost_percent u),
                             rv_udp_packets_sent := us_packets_sent u, rv_udp_packets_lost := us_lost u\<rparr>
               | None \<Rightarrow> v)
      in case (tr_bytes_sent r, tr_bytes_received r, tr_throughput_send_mbps r, tr_throughput_recv_mbps r) of
           (Some sent, Some recv, Some ts, Some tr) \<Rightarrow>
             v\<lparr>rv_bidir_bytes_sent := sent, rv_bidir_bytes_received := recv, rv_send_mbps := ts, rv_recv_mbps := tr\<rparr>
         | _ \<Rightarrow> v)"

text \<open>The lines of the history for a result, in the order they are logged.\<close>

definition result_lines :: "TestResult \<Rightarrow> string list" where
  "result_lines r =
     (''Test completed. Avg: '' @ fmt_fixed 0 (tr_throughput_mbps r) @ '' Mbps.'')
     # (case tr_server_udp_send_errors r of Some e \<Rightarrow> [UdpSendErrors_describe e ''Server''] | None \<Rightarrow> [])
     @ (case tr_client_udp_send_errors r of Some e \<Rightarrow> [UdpSendErrors_describe e ''Client''] | None \<Rightarrow> [])
     @ (case describe_zero_byte_streams r of Some m \<Rightarrow> [m] | None \<Rightarrow> [])"

section \<open>The application\<close>

record App =
  ap_state :: AppState
  ap_host :: string
  ap_port :: u16
  ap_protocol :: Protocol
  ap_direction :: Protocol.Direction
  ap_streams_count :: u8
  ap_duration :: duration
  ap_bitrate :: "u64 option"
  ap_byte_budget :: "u64 option"
  ap_view :: run_view
  ap_result :: "TestResult option"
  ap_error :: "string option"
  ap_cancel_deadline :: "instant option"
  ap_start_time :: "instant option"
  ap_pause_started_at :: "instant option"
  ap_show_help :: bool
  ap_help_scroll :: u16
  ap_show_streams :: bool
  ap_timestamp_format :: TimestampFormat
  ap_theme :: string
  ap_theme_index :: nat
  ap_theme_touched :: bool
  ap_settings :: SettingsState
  ap_history :: "LogEntry list"
  ap_history_clock :: "instant \<times> int"
  ap_update_available :: "string option"
  ap_server_version :: "string option"

definition App_new ::
  "instant \<times> int \<Rightarrow> string \<Rightarrow> u16 \<Rightarrow> Protocol \<Rightarrow> Protocol.Direction \<Rightarrow> u8 \<Rightarrow> duration \<Rightarrow> u64 option \<Rightarrow> TimestampFormat
     \<Rightarrow> string \<Rightarrow> App" where
  "App_new clock host port protocol direction streams dur bitrate f theme =
     \<lparr>ap_state = AppConnecting, ap_host = host, ap_port = port, ap_protocol = protocol, ap_direction = direction,
      ap_streams_count = streams, ap_duration = dur, ap_bitrate = bitrate, ap_byte_budget = None,
      ap_view = fresh_view (fresh_streams streams), ap_result = None, ap_error = None, ap_cancel_deadline = None,
      ap_start_time = None, ap_pause_started_at = None, ap_show_help = False, ap_help_scroll = 0, ap_show_streams = False,
      ap_timestamp_format = f, ap_theme = theme, ap_theme_index = 0, ap_theme_touched = False,
      ap_settings = (SettingsState_new 0 streams protocol dur direction bitrate)\<lparr>sg_timestamp_format := f\<rparr>,
      ap_history = [], ap_history_clock = clock, ap_update_available = None, ap_server_version = None\<rparr>"

definition with_theme_name ::
  "instant \<times> int \<Rightarrow> string \<Rightarrow> u16 \<Rightarrow> Protocol \<Rightarrow> Protocol.Direction \<Rightarrow> u8 \<Rightarrow> duration \<Rightarrow> u64 option \<Rightarrow> TimestampFormat
     \<Rightarrow> string \<Rightarrow> App" where
  "with_theme_name clock host port protocol direction streams dur bitrate f palette =
     (let theme = Theme_by_name palette;
          theme_index = (case position_of (\<lambda>name. name = theme) Theme_list of Some i \<Rightarrow> i | None \<Rightarrow> 0);
          app = App_new clock host port protocol direction streams dur bitrate f theme
      in app\<lparr>ap_theme_index := theme_index, ap_settings := (ap_settings app)\<lparr>sg_theme_index := theme_index\<rparr>\<rparr>)"

text \<open>The newest entry comes first, and the oldest falls out.\<close>

definition tui_log :: "(int \<Rightarrow> string) \<Rightarrow> instant \<Rightarrow> string \<Rightarrow> App \<Rightarrow> App" where
  "tui_log calendar now message app =
     (let e = \<lparr>le_timestamp = [], le_message = message,
               le_elapsed = (case ap_start_time app of Some start \<Rightarrow> now - start | None \<Rightarrow> 0), le_recorded_at = now\<rparr>;
          e = e\<lparr>le_timestamp := LogEntry_format_timestamp calendar e (ap_timestamp_format app) (ap_history_clock app)\<rparr>;
          h = e # ap_history app
      in app\<lparr>ap_history := (if LOG_HISTORY < length h then butlast h else h)\<rparr>)"

definition log_all :: "(int \<Rightarrow> string) \<Rightarrow> instant \<Rightarrow> string list \<Rightarrow> App \<Rightarrow> App" where
  "log_all calendar now = fold (tui_log calendar now)"

definition set_timestamp_format :: "(int \<Rightarrow> string) \<Rightarrow> TimestampFormat \<Rightarrow> App \<Rightarrow> App" where
  "set_timestamp_format calendar f app =
     (let app = (if ap_timestamp_format app \<noteq> f
                 then app\<lparr>ap_timestamp_format := f,
                          ap_history := map (\<lambda>e. e\<lparr>le_timestamp := LogEntry_format_timestamp calendar e f (ap_history_clock app)\<rparr>)
                                          (ap_history app)\<rparr>
                 else app)
      in app\<lparr>ap_settings := (ap_settings app)\<lparr>sg_timestamp_format := f\<rparr>\<rparr>)"

definition cycle_theme :: "App \<Rightarrow> App" where
  "cycle_theme app =
     (let i = (ap_theme_index app + 1) mod length Theme_list
      in app\<lparr>ap_theme_index := i, ap_theme := Theme_by_name (Theme_list ! i),
             ap_settings := (ap_settings app)\<lparr>sg_theme_index := i\<rparr>, ap_theme_touched := True\<rparr>)"

definition set_theme_index :: "nat \<Rightarrow> App \<Rightarrow> App" where
  "set_theme_index i app =
     (if i < length Theme_list
      then app\<lparr>ap_theme_touched := ap_theme_touched app \<or> ap_theme_index app \<noteq> i, ap_theme_index := i,
               ap_theme := Theme_by_name (Theme_list ! i), ap_settings := (ap_settings app)\<lparr>sg_theme_index := i\<rparr>\<rparr>
      else app)"

definition changed_theme_name :: "App \<Rightarrow> string option" where
  "changed_theme_name app = (if ap_theme_touched app then Some (ap_theme app) else None)"

definition on_connected :: "(int \<Rightarrow> string) \<Rightarrow> instant \<Rightarrow> App \<Rightarrow> App" where
  "on_connected calendar now app =
     tui_log calendar now ''Connecting to server...'' (app\<lparr>ap_state := AppRunning, ap_start_time := Some now\<rparr>)"

definition apply_test_params ::
  "Protocol \<Rightarrow> Protocol.Direction \<Rightarrow> u8 \<Rightarrow> duration \<Rightarrow> u64 option \<Rightarrow> App \<Rightarrow> App" where
  "apply_test_params protocol direction streams dur bitrate app =
     app\<lparr>ap_protocol := protocol, ap_direction := direction, ap_streams_count := streams, ap_duration := dur,
         ap_bitrate := bitrate, ap_view := (ap_view app)\<lparr>rv_streams := fresh_streams streams\<rparr>,
         ap_settings := mark_applied (ap_settings app)\<rparr>"

definition clear_stream :: "StreamData \<Rightarrow> StreamData" where
  "clear_stream d = d\<lparr>sd_bytes := 0, sd_throughput_mbps := 0, sd_retransmits := 0, sd_jitter_ms := None,
     sd_throughput_send_mbps := None, sd_throughput_recv_mbps := None\<rparr>"

definition clear_view :: "run_view \<Rightarrow> run_view" where
  "clear_view v = v\<lparr>rv_elapsed := 0, rv_total_bytes := 0, rv_current_mbps := 0, rv_bars := [], rv_jitters := [],
     rv_streams := map clear_stream (rv_streams v), rv_bidir_bytes_sent := 0, rv_bidir_bytes_received := 0, rv_send_mbps := 0,
     rv_recv_mbps := 0, rv_retransmits := 0, rv_retransmits_are_authoritative := False, rv_rtt_us := 0, rv_cwnd := 0,
     rv_udp_jitter_ms := 0, rv_udp_lost_percent := None, rv_udp_packets_sent := 0, rv_udp_packets_lost := 0,
     rv_udp_send := UdpDirectionState_default, rv_udp_recv := UdpDirectionState_default, rv_peak_mbps := 0,
     rv_prev_retransmits := 0, rv_prev_udp_lost := 0, rv_prev_udp_progress := None, rv_latest_udp_progress := None,
     rv_last_bar_at := None, rv_average_mbps := 0, rv_throughput_count := 0\<rparr>"

definition reset_for_restart :: "(int \<Rightarrow> string) \<Rightarrow> instant \<Rightarrow> App \<Rightarrow> App" where
  "reset_for_restart calendar now app =
     tui_log calendar now ''Test restarting...''
       (app\<lparr>ap_state := AppConnecting, ap_view := clear_view (ap_view app), ap_result := None, ap_error := None,
            ap_cancel_deadline := None, ap_start_time := None, ap_show_help := False, ap_show_streams := False,
            ap_pause_started_at := None, ap_server_version := None\<rparr>)"

definition tick :: "instant \<Rightarrow> App \<Rightarrow> App" where
  "tick now app =
     (case ap_start_time app of
        Some start \<Rightarrow>
          if ap_state app = AppRunning
          then app\<lparr>ap_view := maybe_append_stalled_bar now (Some start) ((ap_view app)\<lparr>rv_elapsed := now - start\<rparr>)\<rparr>
          else app
      | None \<Rightarrow> app)"

definition MAX_VERSION_LEN :: nat where "MAX_VERSION_LEN = 32"

definition sanitize_server_version :: "string \<Rightarrow> string" where
  "sanitize_server_version raw =
     (let cleaned = take MAX_VERSION_LEN (filter (\<lambda>c. \<not> is_control c) raw)
      in if cleaned = [] then ''(unknown)'' else cleaned)"

definition set_server_version :: "(int \<Rightarrow> string) \<Rightarrow> instant \<Rightarrow> string \<Rightarrow> App \<Rightarrow> App" where
  "set_server_version calendar now version app =
     (let app = (if ap_server_version app = None then tui_log calendar now ''Connected to server.'' app else app)
      in app\<lparr>ap_server_version := Some (sanitize_server_version version)\<rparr>)"

definition on_progress :: "(int \<Rightarrow> string) \<Rightarrow> instant \<Rightarrow> TestProgress \<Rightarrow> App \<Rightarrow> App" where
  "on_progress calendar now p app =
     (let (v, msgs) = view_on_progress (ap_protocol app) (ap_direction app) now p (ap_view app)
      in log_all calendar now msgs (app\<lparr>ap_view := v\<rparr>))"

definition on_result :: "(int \<Rightarrow> string) \<Rightarrow> instant \<Rightarrow> TestResult \<Rightarrow> App \<Rightarrow> App" where
  "on_result calendar now r app =
     (let app = app\<lparr>ap_state := AppCompleted, ap_view := view_on_result (ap_duration app) r (ap_view app)\<rparr>
      in (log_all calendar now (result_lines r) app)\<lparr>ap_result := Some r\<rparr>)"

definition on_error :: "(int \<Rightarrow> string) \<Rightarrow> instant \<Rightarrow> string \<Rightarrow> App \<Rightarrow> App" where
  "on_error calendar now e app =
     (tui_log calendar now (''Error: '' @ e) (app\<lparr>ap_state := AppError\<rparr>))\<lparr>ap_error := Some e\<rparr>"

definition toggle_pause :: "(int \<Rightarrow> string) \<Rightarrow> instant \<Rightarrow> App \<Rightarrow> App" where
  "toggle_pause calendar now app =
     (case ap_state app of
        AppRunning \<Rightarrow> tui_log calendar now ''Test paused'' (app\<lparr>ap_state := AppPaused, ap_pause_started_at := Some now\<rparr>)
      | AppPaused \<Rightarrow>
          (let app = app\<lparr>ap_start_time :=
                            (case (ap_pause_started_at app, ap_start_time app) of
                               (Some paused_at, Some start) \<Rightarrow> Some (start + (now - paused_at))
                             | (_, start) \<Rightarrow> start),
                         ap_pause_started_at := None\<rparr>
           in tui_log calendar now ''Test resumed'' (app\<lparr>ap_state := AppRunning\<rparr>))
      | _ \<Rightarrow> app)"

definition toggle_help :: "App \<Rightarrow> App" where
  "toggle_help app = app\<lparr>ap_show_help := \<not> ap_show_help app, ap_help_scroll := 0\<rparr>"

definition toggle_streams :: "App \<Rightarrow> App" where
  "toggle_streams app = (if 1 < ap_streams_count app then app\<lparr>ap_show_streams := \<not> ap_show_streams app\<rparr> else app)"

section \<open>What is shown\<close>

definition is_infinite :: "App \<Rightarrow> bool" where "is_infinite app = (ap_duration app = 0)"

definition progress_percent :: "App \<Rightarrow> f64" where
  "progress_percent app =
     (case (case ap_byte_budget app of Some b \<Rightarrow> if 0 < b then Some b else None | None \<Rightarrow> None) of
        Some budget \<Rightarrow> min (real (unat (rv_total_bytes (ap_view app))) / real (unat budget) * 100) 100
      | None \<Rightarrow>
          if is_infinite app then 0
          else min (real (rv_elapsed (ap_view app)) / 1000000000 / (real (ap_duration app) / 1000000000) * 100) 100)"

definition time_remaining :: "App \<Rightarrow> duration" where
  "time_remaining app = (if is_infinite app then 0 else ap_duration app - rv_elapsed (ap_view app))"

definition max_throughput :: "App \<Rightarrow> f64" where
  "max_throughput app = fold (\<lambda>t m. max m (th_mbps t)) (rv_bars (ap_view app)) 0"

definition avg_jitter_ms :: "App \<Rightarrow> f64" where
  "avg_jitter_ms app =
     (let js = rv_jitters (ap_view app) in if js = [] then 0 else sum_list js / real (length js))"

record JitterDisplay =
  jd_primary :: f64
  jd_smoothed :: "f64 option"

definition jitter_display :: "App \<Rightarrow> JitterDisplay" where
  "jitter_display app =
     (if ap_state app = AppCompleted then \<lparr>jd_primary = rv_udp_jitter_ms (ap_view app), jd_smoothed = None\<rparr>
      else \<lparr>jd_primary = rv_udp_jitter_ms (ap_view app), jd_smoothed = Some (avg_jitter_ms app)\<rparr>)"

definition cancel_wait_secs :: "instant \<Rightarrow> App \<Rightarrow> nat option" where
  "cancel_wait_secs now app = map_option (\<lambda>d. nat \<lceil>real (d - now) / 1000000000\<rceil>) (ap_cancel_deadline app)"

end
