(* ===== verification/Tui_View.thy ===== *)
theory Tui_View
  imports Tui_App
begin

text \<open>
  What the terminal interface derives from its state without drawing it: the help pages, the progress bar, the colours that stand for a severity and
  the key hints of \<open>src/tui/ui.rs\<close>, the fingerprint of a frame of \<open>src/tui/app.rs\<close>, and the status reports of
  \<open>src/tui/program_status.rs\<close>. Widgets and layout are not modelled; a colour is the role it has in the theme.
\<close>

section \<open>Severities\<close>

datatype role = SuccessRole | WarningRole | ErrorRole | GraphRole

definition loss_color :: "f64 \<Rightarrow> role" where
  "loss_color p = (if p < 1 / 10 then SuccessRole else if p \<le> 1 then WarningRole else ErrorRole)"

definition jitter_color :: "f64 \<Rightarrow> role" where
  "jitter_color ms = (if ms < 1 then SuccessRole else if ms \<le> 10 then WarningRole else ErrorRole)"

text \<open>The style of a bar: its colour, and whether it is underlined and reversed.\<close>

definition loss_severity_style :: "f64 option \<Rightarrow> string \<Rightarrow> role \<times> bool \<times> bool" where
  "loss_severity_style rate theme =
     (case rate of
        None \<Rightarrow> (GraphRole, False, False)
      | Some r \<Rightarrow>
          if r \<le> 0 then (GraphRole, False, False)
          else if r < 1 then (WarningRole, True, False)
          else if hue_free theme then (ErrorRole, True, True)
          else (ErrorRole, True, False))"

section \<open>The progress bar\<close>

definition progress_bar_cells :: "App \<Rightarrow> u16 \<Rightarrow> nat \<times> nat" where
  "progress_bar_cells app inner_width =
     (let transferred_len = length (bytes_to_human (rv_total_bytes (ap_view app))) + 1;
          bar_width = max (unat inner_width - (12 + 16 + transferred_len)) 10;
          total_eighths = bar_width * 8;
          filled_eighths =
            (if (case ap_byte_budget app of None \<Rightarrow> True | Some b \<Rightarrow> b = 0) \<and> is_infinite app then total_eighths
             else min (nat \<lfloor>progress_percent app / 100 * real total_eighths\<rfloor>) total_eighths)
      in (bar_width, filled_eighths))"

section \<open>Help\<close>

definition CLIENT_HELP :: "string list" where
  "CLIENT_HELP = [''q          quit'', ''r          restart'', ''p          pause/resume'', ''s          settings'',
     ''t          cycle theme'', ''j          print JSON'', ''d          toggle streams'', ''?          toggle help'',
     ''PgUp/PgDn  page help'', ''Home/End   first/last page'', ''Esc        close'']"

definition SERVER_HELP :: "string list" where
  "SERVER_HELP = [''q          quit server'', ''?          toggle help'', ''PgUp/PgDn  page help'',
     ''Home/End   first/last page'', ''Esc        close'']"

definition find_double_space :: "string \<Rightarrow> nat option" where
  "find_double_space l = List.find (\<lambda>i. take 2 (drop i l) = ''  '') [0..<length l]"

definition help_line_rows :: "nat \<Rightarrow> string \<Rightarrow> (string \<times> string) list" where
  "help_line_rows width l =
     (let key_len = (case find_double_space l of Some i \<Rightarrow> i | None \<Rightarrow> 0)
      in map (\<lambda>k. let start = k * width; stop = min (start + width) (length l); split = min (max key_len start) stop
                   in (take (split - start) (drop start l), take (stop - split) (drop split l)))
           [0..<(length l + width - 1) div width])"

definition help_rows :: "u16 \<Rightarrow> bool \<Rightarrow> (string \<times> string) list" where
  "help_rows width server = concat (map (help_line_rows (unat (max width 1))) (if server then SERVER_HELP else CLIENT_HELP))"

datatype key_code =
    KChar char | KF nat | KEsc | KUp | KDown | KLeft | KRight | KTab | KEnter | KPageUp | KPageDown | KHome | KEnd | KOther

record terminal_size =
  tz_width :: u16
  tz_height :: u16

definition help_scroll :: "u16 \<Rightarrow> terminal_size \<Rightarrow> bool \<Rightarrow> key_code option \<Rightarrow> u16" where
  "help_scroll scroll sz server key =
     (let visible = saturating_sub (min (tz_height sz) (if server then 8 else 16)) 2;
          bound = saturating_sub (word_of_nat (length (help_rows (saturating_sub (min (tz_width sz) 40) 2) server))) visible;
          scroll = min scroll bound
      in case key of
           Some KPageDown \<Rightarrow> min (saturating_add scroll (max visible 1)) bound
         | Some KPageUp \<Rightarrow> saturating_sub scroll (max visible 1)
         | Some KHome \<Rightarrow> 0
         | Some KEnd \<Rightarrow> bound
         | _ \<Rightarrow> scroll)"

section \<open>Key hints\<close>

definition BASE_KEYS :: "(string \<times> string) list" where
  "BASE_KEYS = [(''?'', ''Help''), (''q'', ''Quit''), (''p'', ''Pause''), (''r'', ''Restart''), (''s'', ''Settings''), (''t'', ''Theme'')]"

definition full_hints_width :: "(string \<times> string) list \<Rightarrow> nat" where
  "full_hints_width ks = sum_list (map (\<lambda>(k, l). length k + length l + 3) ks) + 3 * (length ks - 1)"

definition roomy_hints_fit :: "u16 \<Rightarrow> bool" where
  "roomy_hints_fit width = (full_hints_width BASE_KEYS + length '' Status: Running...'' \<le> unat width)"

text \<open>The text of the hints that fit, each whole.\<close>

fun key_hints_from :: "bool \<Rightarrow> nat \<Rightarrow> nat \<Rightarrow> bool \<Rightarrow> (string \<times> string) list \<Rightarrow> string" where
  "key_hints_from tight available used started [] = []"
| "key_hints_from tight available used started ((k, l) # ks) =
     (let cost = (if started then (if tight then 1 else 3) else 0) + length k + length l + (if tight then 1 else 3)
      in if available < used + cost then []
         else (if started then (if tight then '' '' else '' | '') else [])
              @ (if tight then k @ '':'' @ l else ''['' @ k @ ''] '' @ l)
              @ key_hints_from tight available (used + cost) True ks)"

definition key_hints :: "(string \<times> string) list \<Rightarrow> u16 \<Rightarrow> bool \<Rightarrow> string" where
  "key_hints ks width tight = key_hints_from tight (unat width) 0 False ks"

text \<open>The footer: its hints, and the label and text of its status.\<close>

definition footer_status :: "instant \<Rightarrow> App \<Rightarrow> string" where
  "footer_status now app =
     (case cancel_wait_secs now app of
        Some secs \<Rightarrow> ''Waiting for server ('' @ show_nat secs @ ''s)...''
      | None \<Rightarrow> AppState_fmt (ap_state app))"

definition footer_keys :: "App \<Rightarrow> (string \<times> string) list" where
  "footer_keys app = BASE_KEYS @ (if 1 < ap_streams_count app then [(''d'', ''Streams'')] else [])
     @ (if ap_update_available app \<noteq> None then [(''u'', ''Dismiss'')] else [])"

definition footer_label :: "u16 \<Rightarrow> string \<Rightarrow> string option" where
  "footer_label width status =
     (let room = unat width - length ''?:Help''
      in List.find (\<lambda>label. length label + length status \<le> room) ['' Status: '', '' ''])"

definition draw_footer :: "instant \<Rightarrow> App \<Rightarrow> u16 \<Rightarrow> string \<times> string option" where
  "draw_footer now app width =
     (let status = footer_status now app; label = footer_label width status;
          status_width = (case label of Some l \<Rightarrow> length l + length status | None \<Rightarrow> 0);
          hint_width = width - word_of_nat status_width;
          tight = unat hint_width < full_hints_width (footer_keys app)
      in (key_hints (footer_keys app) hint_width tight, map_option (\<lambda>l. l @ status) label))"

section \<open>The fingerprint of a frame\<close>

text \<open>What is fed to the hasher, in order; the hash function itself is a parameter. A theme is hashed as its name.\<close>

datatype hash_item = HInt int | HText string | HFloat f64

definition hash_nat :: "nat \<Rightarrow> hash_item list" where "hash_nat n = [HInt (int n)]"
definition hash_bool :: "bool \<Rightarrow> hash_item list" where "hash_bool b = [HInt (if b then 1 else 0)]"
definition hash_text :: "string \<Rightarrow> hash_item list" where "hash_text s = [HText s]"
definition hash_float :: "f64 \<Rightarrow> hash_item list" where "hash_float x = [HFloat x]"

definition hash_option :: "('a \<Rightarrow> hash_item list) \<Rightarrow> 'a option \<Rightarrow> hash_item list" where
  "hash_option h x = (case x of None \<Rightarrow> [HInt 0] | Some y \<Rightarrow> HInt 1 # h y)"

definition hash_list :: "('a \<Rightarrow> hash_item list) \<Rightarrow> 'a list \<Rightarrow> hash_item list" where
  "hash_list h xs = HInt (int (length xs)) # concat (map h xs)"

definition hash_protocol :: "Protocol \<Rightarrow> hash_item list" where
  "hash_protocol p = [HInt (case p of Tcp \<Rightarrow> 0 | Udp \<Rightarrow> 1 | QuicProto \<Rightarrow> 2)]"

definition hash_direction :: "Protocol.Direction \<Rightarrow> hash_item list" where
  "hash_direction d = [HInt (case d of Upload \<Rightarrow> 0 | Download \<Rightarrow> 1 | Bidir \<Rightarrow> 2)]"

definition hash_state :: "AppState \<Rightarrow> hash_item list" where
  "hash_state s = [HInt (case s of AppConnecting \<Rightarrow> 0 | AppRunning \<Rightarrow> 1 | AppPaused \<Rightarrow> 2 | AppCompleted \<Rightarrow> 3 | AppError \<Rightarrow> 4)]"

definition hash_sample :: "ThroughputSample \<Rightarrow> hash_item list" where
  "hash_sample t = hash_float (th_mbps t) @ hash_nat (unat (th_lost_packets t)) @ hash_nat (unat (th_interval_packets t))"

definition hash_stream :: "StreamData \<Rightarrow> hash_item list" where
  "hash_stream d = hash_nat (unat (sd_id d)) @ hash_float (sd_throughput_mbps d) @ hash_nat (unat (sd_retransmits d))
     @ hash_option hash_float (sd_jitter_ms d) @ hash_option hash_float (sd_throughput_send_mbps d)
     @ hash_option hash_float (sd_throughput_recv_mbps d)"

definition hash_edited :: "edited \<Rightarrow> hash_item list" where
  "hash_edited e = hash_nat (unat (ed_streams e)) @ hash_protocol (ed_protocol e) @ hash_nat (unat (ed_duration_secs e))
     @ hash_direction (ed_direction e) @ hash_option (\<lambda>b. hash_nat (unat b)) (ed_bitrate e)"

definition hash_settings :: "SettingsState \<Rightarrow> hash_item list" where
  "hash_settings s = hash_bool (sg_visible s) @ [HInt (case sg_category s of Display \<Rightarrow> 0 | Test \<Rightarrow> 1)]
     @ hash_nat (sg_selected_index s) @ hash_bool (sg_button_focused s) @ hash_nat (sg_button_index s) @ hash_nat (sg_theme_index s)
     @ [HInt (case sg_timestamp_format s of Relative \<Rightarrow> 0 | Iso8601 \<Rightarrow> 1 | Unix \<Rightarrow> 2)]
     @ [HInt (case sg_units s of AutoUnits \<Rightarrow> 0 | Bits \<Rightarrow> 1 | Bytes \<Rightarrow> 2)]
     @ hash_bool (sg_update_check s) @ hash_option hash_text (sg_update_check_lock_reason s) @ hash_bool (sg_update_check_touched s)
     @ hash_edited (sg_params s) @ hash_edited (sg_original s)"

definition hash_log :: "LogEntry \<Rightarrow> hash_item list" where
  "hash_log e = hash_text (le_timestamp e) @ hash_text (le_message e) @ hash_nat (le_elapsed e) @ hash_nat (le_recorded_at e)"

definition hash_udp :: "UdpDirectionState \<Rightarrow> hash_item list" where
  "hash_udp d = hash_option hash_float (UdpDirectionState_lost_percent d) @ hash_option hash_float (ud_jitter_ms d)"

definition hash_view :: "run_view \<Rightarrow> hash_item list" where
  "hash_view v = hash_nat (unat (rv_total_bytes v)) @ hash_float (rv_current_mbps v) @ hash_list hash_sample (rv_bars v)
     @ hash_list hash_float (rv_jitters v) @ hash_list hash_stream (rv_streams v) @ hash_float (rv_send_mbps v)
     @ hash_float (rv_recv_mbps v) @ hash_nat (unat (rv_retransmits v)) @ hash_nat (unat (rv_rtt_us v))
     @ hash_float (rv_udp_jitter_ms v) @ hash_option hash_float (rv_udp_lost_percent v) @ hash_udp (rv_udp_send v)
     @ hash_udp (rv_udp_recv v)"

definition fingerprint_items :: "terminal_size \<Rightarrow> instant \<Rightarrow> App \<Rightarrow> hash_item list" where
  "fingerprint_items sz now app =
     (let cells = progress_bar_cells app (saturating_sub (tz_width sz) 2)
      in hash_nat (unat (tz_width sz)) @ hash_nat (unat (tz_height sz)) @ hash_state (ap_state app) @ hash_text (ap_host app)
         @ hash_nat (unat (ap_port app)) @ hash_protocol (ap_protocol app) @ hash_direction (ap_direction app)
         @ hash_nat (unat (ap_streams_count app)) @ hash_nat (ap_duration app)
         @ hash_option (\<lambda>b. hash_nat (unat b)) (ap_byte_budget app) @ hash_nat (as_secs (rv_elapsed (ap_view app)))
         @ hash_nat (fst cells) @ hash_nat (snd cells) @ hash_view (ap_view app) @ hash_option hash_text (ap_error app)
         @ hash_option hash_nat (cancel_wait_secs now app) @ hash_bool (ap_show_help app) @ hash_nat (unat (ap_help_scroll app))
         @ hash_bool (ap_show_streams app) @ hash_text (ap_theme app) @ hash_nat (ap_theme_index app)
         @ hash_settings (ap_settings app) @ hash_list hash_log (ap_history app) @ hash_float (rv_average_mbps (ap_view app))
         @ hash_option hash_text (ap_update_available app) @ hash_option hash_text (ap_server_version app))"

definition render_fingerprint :: "(hash_item list \<Rightarrow> u64) \<Rightarrow> terminal_size \<Rightarrow> instant \<Rightarrow> App \<Rightarrow> u64" where
  "render_fingerprint hash sz now app = hash (fingerprint_items sz now app)"

end
