(* ===== verification/Tui_Loop.thy ===== *)
theory Tui_Loop
  imports Tui_View
begin

text \<open>
  The loop of the client's terminal interface, \<open>run_tui_loop\<close> of \<open>src/main.rs\<close>, with the functions it is made of.
  One iteration is a function of the state and of what the loop observes in it: finished deliveries of metrics, the
  answer of the update check, the running client, a key, progress and the end of the run. What it does to the client is
  a list of effects.
\<close>

section \<open>Keys\<close>

record key_event =
  ke_code :: key_code
  ke_control :: bool

datatype TuiQuitAction = QuitNoop | QuitOk | QuitError | QuitStartCancel | QuitForce | QuitIgnore

definition is_ctrl_c :: "key_event \<Rightarrow> bool" where
  "is_ctrl_c k = ((ke_code k = KChar CHR ''c'' \<and> ke_control k) \<or> ke_code k = KChar CHR 0x03)"

definition settings_captures_key :: "bool \<Rightarrow> key_event \<Rightarrow> bool" where
  "settings_captures_key settings_visible k = (settings_visible \<and> \<not> is_ctrl_c k)"

definition server_tui_quit_key :: "key_event \<Rightarrow> bool" where
  "server_tui_quit_key k = (ke_code k = KChar CHR ''q'' \<or> is_ctrl_c k)"

definition tui_quit_action :: "key_event \<Rightarrow> AppState \<Rightarrow> bool \<Rightarrow> bool \<Rightarrow> TuiQuitAction" where
  "tui_quit_action k state cancel_pending run_active =
     (let ctrl_c = is_ctrl_c k; is_quit = (ke_code k = KChar CHR ''q'' \<or> ctrl_c)
      in if \<not> is_quit then QuitNoop
         else if state = AppError then QuitError
         else if state = AppCompleted \<or> \<not> run_active then QuitOk
         else if cancel_pending then (if ctrl_c then QuitForce else QuitIgnore)
         else QuitStartCancel)"

definition live_edit :: "(int \<Rightarrow> string) \<Rightarrow> (SettingsState \<Rightarrow> SettingsState) \<Rightarrow> App \<Rightarrow> App" where
  "live_edit calendar f app =
     (let app = app\<lparr>ap_settings := f (ap_settings app)\<rparr>;
          app = set_theme_index (sg_theme_index (ap_settings app)) app
      in set_timestamp_format calendar (sg_timestamp_format (ap_settings app)) app)"

definition handle_tui_settings_key :: "(int \<Rightarrow> string) \<Rightarrow> key_code \<Rightarrow> App \<Rightarrow> App \<times> SettingsAction" where
  "handle_tui_settings_key calendar code app =
     (let edit = (\<lambda>f. app\<lparr>ap_settings := f (ap_settings app)\<rparr>)
      in if code = KEsc \<or> code = KChar CHR ''s'' then (edit settings_close, CloseAction)
         else if code = KUp \<or> code = KChar CHR ''k'' then (edit move_up, NoAction)
         else if code = KDown \<or> code = KChar CHR ''j'' then (edit move_down, NoAction)
         else if code = KLeft \<or> code = KChar CHR ''h'' then (live_edit calendar value_prev app, NoAction)
         else if code = KRight \<or> code = KChar CHR ''l'' then (live_edit calendar value_next app, NoAction)
         else if code = KTab then (edit switch_tab, NoAction)
         else if code = KEnter then (let (s, action) = on_enter (ap_settings app) in (app\<lparr>ap_settings := s\<rparr>, action))
         else (app, NoAction))"

section \<open>The configuration of a run\<close>

text \<open>The settings keep every preference; only the run drops what does not apply to its protocol.\<close>

definition tui_run_config :: "ClientConfig \<Rightarrow> ClientConfig" where
  "tui_run_config c =
     (let active = c\<lparr>cl_sequential_ports := cl_protocol c \<noteq> QuicProto \<and> 1 < cl_streams c
                       \<and> (case cl_bind_addr c of Some a \<Rightarrow> addr_port a \<noteq> 0 | None \<Rightarrow> False)\<rparr>;
          active = (if cl_protocol c \<noteq> Udp then active\<lparr>cl_udp_payload_size := None\<rparr> else active)
      in if cl_protocol c \<noteq> Tcp then active\<lparr>cl_mptcp := False, cl_zerocopy := ZcOff\<rparr> else active)"

definition apply_tui_settings :: "ClientConfig \<Rightarrow> App \<Rightarrow> ClientConfig \<times> App" where
  "apply_tui_settings c app =
     (let p = sg_params (ap_settings app);
          c = c\<lparr>cl_streams := ed_streams p, cl_protocol := ed_protocol p, cl_duration := unat (ed_duration_secs p) * 1000000000,
                cl_direction := ed_direction p, cl_bitrate := ed_bitrate p\<rparr>
      in (c, apply_test_params (cl_protocol c) (cl_direction c) (cl_streams c) (cl_duration c) (cl_bitrate c) app))"

definition quic_ignored_options :: "ClientConfig \<Rightarrow> string list" where
  "quic_ignored_options c =
     (if cl_protocol c \<noteq> QuicProto then []
      else map snd (filter fst
        [(cl_window_size c \<noteq> None, ''-w/--window is ignored with QUIC (QUIC flow control manages buffering)''),
         (cl_tcp_congestion c \<noteq> None, ''--congestion is ignored with QUIC (kernel TCP CC does not apply)''),
         (cl_tcp_nodelay c, ''--tcp-nodelay is ignored with QUIC (no Nagle on UDP transport)''),
         (cl_dscp c \<noteq> None, ''--dscp is ignored with QUIC (QUIC manages its own socket)'')]))"

definition log_tui_quic_ignored_options :: "(int \<Rightarrow> string) \<Rightarrow> instant \<Rightarrow> ClientConfig \<Rightarrow> App \<Rightarrow> App" where
  "log_tui_quic_ignored_options calendar now c app =
     log_all calendar now (map (\<lambda>msg. ''Warning: '' @ msg) (quic_ignored_options c)) app"

definition tui_fallback_result :: "u64 \<Rightarrow> u64 \<Rightarrow> TestResult option" where
  "tui_fallback_result bytes ms = (if 0 < bytes then Some (build_fallback_result bytes ms) else None)"

definition remember_tui_theme :: "Prefs \<Rightarrow> App \<Rightarrow> Prefs" where
  "remember_tui_theme p app = (case changed_theme_name app of Some t \<Rightarrow> p\<lparr>pf_theme := Some t\<rparr> | None \<Rightarrow> p)"

section \<open>The state of the loop and what it observes\<close>

definition TUI_CANCEL_WAIT :: duration where "TUI_CANCEL_WAIT = 5000000000"

text \<open>A run is the configuration it was started with. \<open>MetricsQueued\<close> has the request of a delivery.\<close>

datatype tui_effect =
    RunStarted ClientConfig | CancelSent | RunAborted | PauseToggled | MetricsQueued "push_error + push_request"

record tui_state =
  tl_app :: App
  tl_prefs :: Prefs
  tl_config :: ClientConfig
  tl_run :: "ClientConfig option"
  tl_fallback_bytes :: u64
  tl_fallback_elapsed_ms :: u64
  tl_print_json :: bool
  tl_update_check_done :: bool
  tl_last_drawn :: "u64 option"
  tl_effects :: "tui_effect list"

datatype update_poll = UpdateSent "string option" | UpdateEmpty | UpdateGone

text \<open>What fails at the terminal, if anything: asking its size, drawing a frame, reading a key (or asking the size again for a key
  pressed in the help, which ends the loop in the same state), or drawing the frame of a restart.\<close>

datatype terminal_failure = SizeFails string | DrawFails string | KeyFails string | RestartDrawFails string

text \<open>\<open>tn_now\<close> is the clock at the top of the iteration, \<open>tn_key_now\<close> when the key is handled, \<open>tn_restart_now\<close> after the run before
  a restart has stopped, \<open>tn_end_now\<close> when a finished run is taken. \<open>tn_stopped\<close> is how that run stopped, if it did in time.\<close>

record tui_input =
  tn_now :: instant
  tn_outcomes :: "(string + string) list"
  tn_update :: update_poll
  tn_client :: Client
  tn_size :: terminal_size
  tn_failure :: "terminal_failure option"
  tn_key :: "key_event option"
  tn_key_now :: instant
  tn_stopped :: "(string + TestResult) option"
  tn_restart_now :: instant
  tn_progress :: "(instant \<times> TestProgress) list"
  tn_finished :: "(string + TestResult) option"
  tn_end_now :: instant

record tui_env =
  tv_calendar :: "int \<Rightarrow> string"
  tv_hash :: "hash_item list \<Rightarrow> u64"
  tv_gateway :: "PushGatewayClient option"
  tv_show_f64 :: "f64 \<Rightarrow> string"
  tv_base64 :: "string \<Rightarrow> string"

text \<open>The end of the loop: the result, the preferences, whether to print JSON, whether the result is partial; or an error.\<close>

datatype tui_exit = TuiOk "TestResult option" Prefs bool bool | TuiErr string

datatype tui_outcome = TuiNext tui_state | TuiContinue tui_state | TuiExit tui_exit tui_state

definition effects :: "tui_effect list \<Rightarrow> tui_state \<Rightarrow> tui_state" where
  "effects es st = st\<lparr>tl_effects := tl_effects st @ es\<rparr>"

definition on_app :: "(App \<Rightarrow> App) \<Rightarrow> tui_state \<Rightarrow> tui_state" where
  "on_app f st = st\<lparr>tl_app := f (tl_app st)\<rparr>"

definition tui_log_line :: "tui_env \<Rightarrow> instant \<Rightarrow> string \<Rightarrow> tui_state \<Rightarrow> tui_state" where
  "tui_log_line e now msg = on_app (tui_log (tv_calendar e) now msg)"

definition exit_ok :: "bool \<Rightarrow> tui_state \<Rightarrow> tui_outcome" where
  "exit_ok partial st = TuiExit (TuiOk (ap_result (tl_app st)) (tl_prefs st) (tl_print_json st) partial) st"

definition exit_error :: "tui_state \<Rightarrow> tui_outcome" where
  "exit_error st = TuiExit (TuiErr (case ap_error (tl_app st) of Some m \<Rightarrow> m | None \<Rightarrow> [])) st"

text \<open>An exit without the server's answer: what the result is and whether it is partial.\<close>

definition exit_fallback :: "tui_state \<Rightarrow> tui_outcome" where
  "exit_fallback st =
     (if ap_result (tl_app st) = None
      then exit_ok True (on_app (\<lambda>a. a\<lparr>ap_result := tui_fallback_result (tl_fallback_bytes st) (tl_fallback_elapsed_ms st)\<rparr>) st)
      else exit_ok False st)"

definition abort_run :: "tui_state \<Rightarrow> tui_state" where
  "abort_run st = (if tl_run st = None then st else effects [RunAborted] (st\<lparr>tl_run := None\<rparr>))"

section \<open>One iteration\<close>

definition start_run :: "tui_env \<Rightarrow> instant \<Rightarrow> tui_state \<Rightarrow> tui_state" where
  "start_run e now st =
     (let c = tui_run_config (tl_config st)
      in on_app (on_connected (tv_calendar e) now) (effects [RunStarted c] (st\<lparr>tl_run := Some c\<rparr>)))"

definition tui_init ::
  "tui_env \<Rightarrow> ClientConfig \<Rightarrow> TimestampFormat \<Rightarrow> Prefs \<Rightarrow> string \<Rightarrow> bool \<Rightarrow> string option \<Rightarrow> instant \<times> int \<Rightarrow> tui_state" where
  "tui_init e c f prefs palette update_disabled lock_reason clock =
     (let app = with_theme_name clock (cl_host c) (cl_port c) (cl_protocol c) (cl_direction c) (cl_streams c) (cl_duration c)
                  (cl_bitrate c) f palette;
          app = app\<lparr>ap_byte_budget := cl_byte_budget c,
                    ap_settings := (ap_settings app)\<lparr>sg_update_check := \<not> update_disabled, sg_update_check_lock_reason := lock_reason\<rparr>\<rparr>;
          app = log_tui_quic_ignored_options (tv_calendar e) (fst clock) c app
      in start_run e (fst clock)
           \<lparr>tl_app = app, tl_prefs = prefs, tl_config = c, tl_run = None, tl_fallback_bytes = 0, tl_fallback_elapsed_ms = 0,
            tl_print_json = False, tl_update_check_done = update_disabled, tl_last_drawn = None, tl_effects = []\<rparr>)"

definition poll_update_check :: "update_poll \<Rightarrow> tui_state \<Rightarrow> tui_state" where
  "poll_update_check p st =
     (if tl_update_check_done st then st
      else (case p of
              UpdateSent (Some version) \<Rightarrow> (on_app (\<lambda>a. a\<lparr>ap_update_available := Some version\<rparr>) st)\<lparr>tl_update_check_done := True\<rparr>
            | UpdateSent None \<Rightarrow> st\<lparr>tl_update_check_done := True\<rparr>
            | UpdateEmpty \<Rightarrow> st
            | UpdateGone \<Rightarrow> st\<lparr>tl_update_check_done := True\<rparr>))"

text \<open>Up to the deadline of a cancel.\<close>

definition tui_begin :: "tui_env \<Rightarrow> tui_input \<Rightarrow> tui_state \<Rightarrow> tui_outcome" where
  "tui_begin e i st =
     (let st = fold (\<lambda>x. tui_log_line e (tn_now i) (metrics_message x)) (tn_outcomes i) st;
          st = st\<lparr>tl_prefs := remember_tui_theme (tl_prefs st) (tl_app st)\<rparr>
      in if (case ap_cancel_deadline (tl_app st) of Some deadline \<Rightarrow> deadline < tn_now i | None \<Rightarrow> False)
         then exit_fallback (abort_run st) else TuiNext st)"

text \<open>A frame is drawn when what it shows has changed.\<close>

definition tui_draw :: "tui_env \<Rightarrow> tui_input \<Rightarrow> tui_state \<Rightarrow> tui_outcome" where
  "tui_draw e i st =
     (let st = (if ap_show_help (tl_app st)
                then on_app (\<lambda>a. a\<lparr>ap_help_scroll := help_scroll (ap_help_scroll a) (tn_size i) False None\<rparr>) st else st);
          fingerprint = render_fingerprint (tv_hash e) (tn_size i) (tn_now i) (tl_app st)
      in if tl_last_drawn st \<noteq> Some fingerprint
         then (case tn_failure i of
                 Some (DrawFails m) \<Rightarrow> TuiExit (TuiErr m) st
               | _ \<Rightarrow> TuiNext (st\<lparr>tl_last_drawn := Some fingerprint\<rparr>))
         else TuiNext st)"

text \<open>What the screen shows, and whether it is drawn again.\<close>

definition tui_refresh :: "tui_env \<Rightarrow> tui_input \<Rightarrow> tui_state \<Rightarrow> tui_outcome" where
  "tui_refresh e i st =
     (let st = poll_update_check (tn_update i) st;
          st = (if sg_update_check_touched (ap_settings (tl_app st))
                then st\<lparr>tl_prefs := (tl_prefs st)\<lparr>pf_disable_update_check := Some (\<not> sg_update_check (ap_settings (tl_app st)))\<rparr>\<rparr>
                else st);
          st = on_app (tick (tn_now i)) st;
          st = (if ap_server_version (tl_app st) = None \<and> tl_run st \<noteq> None
                then (case cx_server_version (tn_client i) of
                        Some v \<Rightarrow> on_app (set_server_version (tv_calendar e) (tn_now i) v) st
                      | None \<Rightarrow> st)
                else st)
      in case tn_failure i of
           Some (SizeFails m) \<Rightarrow> TuiExit (TuiErr m) st
         | _ \<Rightarrow> tui_draw e i st)"

text \<open>\<open>restart_tui_run\<close>; the last frame drawn no longer counts.\<close>

definition restart_tui_run :: "tui_env \<Rightarrow> tui_input \<Rightarrow> tui_state \<Rightarrow> string + tui_state" where
  "restart_tui_run e i st =
     (let stopped =
            (if tl_run st = None then Ok st
             else (let st = tui_log_line e (tn_key_now i) ''Restarting, waiting for current test to stop...'' (st\<lparr>tl_run := None\<rparr>)
                   in case tn_failure i of
                        Some (RestartDrawFails m) \<Rightarrow> Err m
                      | _ \<Rightarrow>
                          let st = effects [CancelSent] st
                          in Ok (case tn_stopped i of
                                   Some (Ok _) \<Rightarrow> st
                                 | Some (Err m) \<Rightarrow> tui_log_line e (tn_restart_now i) (''Previous test ended while restarting: '' @ m) st
                                 | None \<Rightarrow> effects [RunAborted]
                                     (tui_log_line e (tn_restart_now i) ''Previous test did not stop in time; aborted.'' st))))
      in case stopped of
           Err m \<Rightarrow> Err m
         | Ok st \<Rightarrow>
             let st = on_app (reset_for_restart (tv_calendar e) (tn_restart_now i)) st;
                 st = on_app (log_tui_quic_ignored_options (tv_calendar e) (tn_restart_now i) (tl_config st)) st
             in Ok (start_run e (tn_restart_now i) st))"

definition forget_run :: "tui_state \<Rightarrow> tui_state" where
  "forget_run st = (on_app (\<lambda>a. a\<lparr>ap_cancel_deadline := None\<rparr>) st)
     \<lparr>tl_fallback_bytes := 0, tl_fallback_elapsed_ms := 0, tl_print_json := False\<rparr>"

definition tui_settings_key :: "tui_env \<Rightarrow> tui_input \<Rightarrow> key_event \<Rightarrow> tui_state \<Rightarrow> tui_outcome" where
  "tui_settings_key e i k st =
     (let (app, action) = handle_tui_settings_key (tv_calendar e) (ke_code k) (tl_app st); st = st\<lparr>tl_app := app\<rparr>
      in if action = RestartAction
         then (let (c, app) = apply_tui_settings (tl_config st) (tl_app st);
                   st = forget_run (st\<lparr>tl_config := c, tl_app := app\<rparr>)
               in case restart_tui_run e i st of
                    Err m \<Rightarrow> TuiExit (TuiErr m) st
                  | Ok st \<Rightarrow> TuiContinue (st\<lparr>tl_last_drawn := None\<rparr>))
         else TuiContinue st)"

definition start_cancel :: "tui_env \<Rightarrow> tui_input \<Rightarrow> tui_state \<Rightarrow> tui_state" where
  "start_cancel e i st =
     (let st = (if tl_run st = None then st else effects [CancelSent] st);
          st = on_app (\<lambda>a. a\<lparr>ap_cancel_deadline := Some (tn_key_now i + TUI_CANCEL_WAIT), ap_settings := settings_close (ap_settings a)\<rparr>) st
      in tui_log_line e (tn_key_now i)
           (''Cancelling, waiting up to '' @ show_nat (as_secs TUI_CANCEL_WAIT) @ ''s for the server summary...'') st)"

definition tui_pause_key :: "tui_env \<Rightarrow> tui_input \<Rightarrow> tui_state \<Rightarrow> tui_state" where
  "tui_pause_key e i st =
     (if tl_run st = None then st
      else (case snd (Client_pause (tn_client i)) of
              PauseApplied \<Rightarrow> effects [PauseToggled] (on_app (toggle_pause (tv_calendar e) (tn_key_now i)) st)
            | PauseUnsupported \<Rightarrow>
                (case ap_state (tl_app st) of
                   AppRunning \<Rightarrow> tui_log_line e (tn_key_now i) ''Display paused (server does not support pause/resume)''
                     (on_app (\<lambda>a. a\<lparr>ap_state := AppPaused\<rparr>) st)
                 | AppPaused \<Rightarrow> tui_log_line e (tn_key_now i) ''Display resumed (server does not support pause/resume)''
                     (on_app (\<lambda>a. a\<lparr>ap_state := AppRunning\<rparr>) st)
                 | _ \<Rightarrow> st)
            | PauseNotReady \<Rightarrow> st))"

text \<open>The keys that are no request to quit, while the settings are closed.\<close>

definition tui_command_key :: "tui_env \<Rightarrow> tui_input \<Rightarrow> key_code \<Rightarrow> tui_state \<Rightarrow> tui_outcome" where
  "tui_command_key e i code st =
     (let app = tl_app st
      in if code = KChar CHR ''p'' then TuiNext (tui_pause_key e i st)
         else if code = KChar CHR ''r''
         then (case restart_tui_run e i (forget_run st) of
                 Err m \<Rightarrow> TuiExit (TuiErr m) (forget_run st)
               | Ok st \<Rightarrow> TuiNext (st\<lparr>tl_last_drawn := None\<rparr>))
         else if code = KChar CHR ''t'' then TuiNext (on_app cycle_theme st)
         else if code = KChar CHR ''s'' then TuiNext (on_app (\<lambda>a. a\<lparr>ap_settings := settings_toggle (ap_settings a)\<rparr>) st)
         else if code = KChar CHR ''?'' \<or> code = KF 1 then TuiNext (on_app toggle_help st)
         else if code = KChar CHR ''d'' then TuiNext (on_app toggle_streams st)
         else if code = KEsc \<and> ap_show_help app then TuiNext (on_app (\<lambda>a. a\<lparr>ap_show_help := False\<rparr>) st)
         else if code = KEsc \<and> ap_state app = AppCompleted then exit_ok False st
         else if code = KEsc \<and> ap_state app = AppError then exit_error st
         else if code = KChar CHR ''j'' \<and> ap_result app \<noteq> None
         then TuiNext (tui_log_line e (tn_key_now i) ''JSON output queued for display on exit.'' (st\<lparr>tl_print_json := True\<rparr>))
         else if code = KChar CHR ''u'' \<and> ap_update_available app \<noteq> None
         then TuiNext (on_app (\<lambda>a. a\<lparr>ap_update_available := None\<rparr>) st)
         else TuiNext st)"

definition tui_key :: "tui_env \<Rightarrow> tui_input \<Rightarrow> key_event \<Rightarrow> tui_state \<Rightarrow> tui_outcome" where
  "tui_key e i k st =
     (if settings_captures_key (sg_visible (ap_settings (tl_app st))) k then tui_settings_key e i k st
      else (let st = (if ap_show_help (tl_app st)
                      then on_app (\<lambda>a. a\<lparr>ap_help_scroll := help_scroll (ap_help_scroll a) (tn_size i) False (Some (ke_code k))\<rparr>) st
                      else st)
            in case tui_quit_action k (ap_state (tl_app st)) (ap_cancel_deadline (tl_app st) \<noteq> None) (tl_run st \<noteq> None) of
                 QuitNoop \<Rightarrow> tui_command_key e i (ke_code k) st
               | QuitError \<Rightarrow> exit_error st
               | QuitOk \<Rightarrow> exit_ok False st
               | QuitForce \<Rightarrow> exit_ok False (abort_run st)
               | QuitIgnore \<Rightarrow> TuiContinue st
               | QuitStartCancel \<Rightarrow> TuiContinue (start_cancel e i st)))"

definition tui_read_key :: "tui_env \<Rightarrow> tui_input \<Rightarrow> tui_state \<Rightarrow> tui_outcome" where
  "tui_read_key e i st =
     (case tn_failure i of
        Some (KeyFails m) \<Rightarrow> TuiExit (TuiErr m) st
      | _ \<Rightarrow> (case tn_key i of None \<Rightarrow> TuiNext st | Some k \<Rightarrow> tui_key e i k st))"

definition tui_take_progress :: "tui_env \<Rightarrow> instant \<times> TestProgress \<Rightarrow> tui_state \<Rightarrow> tui_state" where
  "tui_take_progress e x st =
     (let p = snd x;
          st = (if \<not> tp_udp_feedback_only p
                then st\<lparr>tl_fallback_bytes := tl_fallback_bytes st + tp_total_bytes p, tl_fallback_elapsed_ms := tp_elapsed_ms p\<rparr>
                else st)
      in on_app (on_progress (tv_calendar e) (fst x) p) st)"

definition tui_progress :: "tui_env \<Rightarrow> tui_input \<Rightarrow> tui_state \<Rightarrow> tui_state" where
  "tui_progress e i st = (if tl_run st = None then st else fold (tui_take_progress e) (tn_progress i) st)"

definition tui_finish :: "tui_env \<Rightarrow> tui_input \<Rightarrow> tui_state \<Rightarrow> tui_outcome" where
  "tui_finish e i st =
     (case (tl_run st, tn_finished i) of
        (Some c, Some finished) \<Rightarrow>
          (let st = st\<lparr>tl_run := None\<rparr>
           in case finished of
                Ok result \<Rightarrow>
                  (let st = (case metrics_queue (tv_show_f64 e) (tv_base64 e) (tv_gateway e) result (cl_protocol c, cl_direction c) of
                               Some request \<Rightarrow> tui_log_line e (tn_end_now i) ''Pushing metrics (test complete)...''
                                                 (effects [MetricsQueued request] st)
                             | None \<Rightarrow> st);
                       st = on_app (on_result (tv_calendar e) (tn_end_now i) result) st
                   in if ap_cancel_deadline (tl_app st) \<noteq> None then exit_ok False st else TuiNext st)
              | Err m \<Rightarrow>
                  if ap_cancel_deadline (tl_app st) \<noteq> None then exit_fallback st
                  else TuiNext (on_app (on_error (tv_calendar e) (tn_end_now i) m) st))
      | _ \<Rightarrow> TuiNext st)"

definition and_then :: "tui_outcome \<Rightarrow> (tui_state \<Rightarrow> tui_outcome) \<Rightarrow> tui_outcome" where
  "and_then r f = (case r of TuiNext st \<Rightarrow> f st | _ \<Rightarrow> r)"

definition tui_iteration :: "tui_env \<Rightarrow> tui_input \<Rightarrow> tui_state \<Rightarrow> tui_outcome" where
  "tui_iteration e i st =
     and_then (and_then (and_then (tui_begin e i st) (tui_refresh e i)) (tui_read_key e i))
       (\<lambda>st. tui_finish e i (tui_progress e i st))"

text \<open>The loop over what it observes; \<open>TuiNext\<close> at the end means that it has not ended yet.\<close>

fun run_tui_loop :: "tui_env \<Rightarrow> tui_input list \<Rightarrow> tui_state \<Rightarrow> tui_outcome" where
  "run_tui_loop e [] st = TuiNext st"
| "run_tui_loop e (i # is) st =
     (case tui_iteration e i st of
        TuiNext st' \<Rightarrow> run_tui_loop e is st'
      | TuiContinue st' \<Rightarrow> run_tui_loop e is st'
      | TuiExit x st' \<Rightarrow> TuiExit x st')"

section \<open>After the loop\<close>

text \<open>What \<open>run_client_tui\<close> leaves: standard output, the file, a warning that the result is partial, and the preferences or an error.\<close>

record tui_left =
  tu_stdout :: "string list"
  tu_saved :: "(string \<times> string) option"
  tu_warned :: bool
  tu_return :: "string + Prefs"

definition run_client_tui ::
  "(TestResult \<Rightarrow> string option) \<Rightarrow> (string \<Rightarrow> string \<Rightarrow> string + unit) \<Rightarrow> string option \<Rightarrow> ClientConfig \<Rightarrow> tui_exit \<Rightarrow> tui_left" where
  "run_client_tui json_pretty save file config x =
     (case x of
        TuiErr m \<Rightarrow> \<lparr>tu_stdout = [], tu_saved = None, tu_warned = False, tu_return = Err m\<rparr>
      | TuiOk None prefs print_json partial \<Rightarrow>
          \<lparr>tu_stdout = [line ''Test cancelled.''], tu_saved = None, tu_warned = False, tu_return = Ok prefs\<rparr>
      | TuiOk (Some r) prefs print_json partial \<Rightarrow>
          (case (if print_json then json_pretty r else Some (output_plain r (cl_mptcp (tui_run_config config)))) of
             None \<Rightarrow> \<lparr>tu_stdout = [], tu_saved = None, tu_warned = partial, tu_return = Err ''serialize''\<rparr>
           | Some shown \<Rightarrow>
               (case (if partial then None else file) of
                  None \<Rightarrow> \<lparr>tu_stdout = [line shown], tu_saved = None, tu_warned = partial, tu_return = Ok prefs\<rparr>
                | Some path \<Rightarrow>
                    (case json_pretty r of
                       None \<Rightarrow> \<lparr>tu_stdout = [line shown], tu_saved = None, tu_warned = partial, tu_return = Err ''serialize''\<rparr>
                     | Some content \<Rightarrow>
                         (case save path content of
                            Err m \<Rightarrow> \<lparr>tu_stdout = [line shown], tu_saved = None, tu_warned = partial, tu_return = Err m\<rparr>
                          | Ok _ \<Rightarrow> \<lparr>tu_stdout = [line shown, line (''Results saved to '' @ path)], tu_saved = Some (path, content),
                                     tu_warned = partial, tu_return = Ok prefs\<rparr>)))))"

end
