(* ===== verification/Tui_Correct.thy ===== *)
theory Tui_Correct
  imports Tui_Loop
begin

text \<open>
  Correctness of the client's terminal interface: no key or message makes it start a run that the command line would have refused, a restart
  shows nothing of the run before, the sparkline counts each packet at most once, a request to quit is answered in bounded time,
  and what is saved is what the server reported.
\<close>

section \<open>Frames\<close>

named_theorems tui_frame

lemma tui_log_fields [tui_frame]:
  "ap_state (tui_log cal now m a) = ap_state a" "ap_protocol (tui_log cal now m a) = ap_protocol a"
  "ap_direction (tui_log cal now m a) = ap_direction a" "ap_streams_count (tui_log cal now m a) = ap_streams_count a"
  "ap_duration (tui_log cal now m a) = ap_duration a" "ap_bitrate (tui_log cal now m a) = ap_bitrate a"
  "ap_byte_budget (tui_log cal now m a) = ap_byte_budget a" "ap_view (tui_log cal now m a) = ap_view a"
  "ap_result (tui_log cal now m a) = ap_result a" "ap_error (tui_log cal now m a) = ap_error a"
  "ap_cancel_deadline (tui_log cal now m a) = ap_cancel_deadline a" "ap_start_time (tui_log cal now m a) = ap_start_time a"
  "ap_pause_started_at (tui_log cal now m a) = ap_pause_started_at a" "ap_settings (tui_log cal now m a) = ap_settings a"
  "ap_show_help (tui_log cal now m a) = ap_show_help a" "ap_server_version (tui_log cal now m a) = ap_server_version a"
  "ap_theme (tui_log cal now m a) = ap_theme a" "ap_theme_index (tui_log cal now m a) = ap_theme_index a"
  by (simp_all add: tui_log_def Let_def)

lemma log_all_fields [tui_frame]:
  "ap_state (log_all cal now ms a) = ap_state a" "ap_protocol (log_all cal now ms a) = ap_protocol a"
  "ap_direction (log_all cal now ms a) = ap_direction a" "ap_streams_count (log_all cal now ms a) = ap_streams_count a"
  "ap_duration (log_all cal now ms a) = ap_duration a" "ap_bitrate (log_all cal now ms a) = ap_bitrate a"
  "ap_byte_budget (log_all cal now ms a) = ap_byte_budget a" "ap_view (log_all cal now ms a) = ap_view a"
  "ap_result (log_all cal now ms a) = ap_result a" "ap_error (log_all cal now ms a) = ap_error a"
  "ap_cancel_deadline (log_all cal now ms a) = ap_cancel_deadline a" "ap_start_time (log_all cal now ms a) = ap_start_time a"
  "ap_pause_started_at (log_all cal now ms a) = ap_pause_started_at a" "ap_settings (log_all cal now ms a) = ap_settings a"
  "ap_show_help (log_all cal now ms a) = ap_show_help a" "ap_server_version (log_all cal now ms a) = ap_server_version a"
  "ap_theme (log_all cal now ms a) = ap_theme a" "ap_theme_index (log_all cal now ms a) = ap_theme_index a"
  unfolding log_all_def by (induction ms arbitrary: a; simp add: tui_log_fields)+

lemma length_tui_log: "length (ap_history a) \<le> LOG_HISTORY \<Longrightarrow> length (ap_history (tui_log cal now m a)) \<le> LOG_HISTORY"
  by (simp add: tui_log_def Let_def)

lemma length_log_all: "length (ap_history a) \<le> LOG_HISTORY \<Longrightarrow> length (ap_history (log_all cal now ms a)) \<le> LOG_HISTORY"
  unfolding log_all_def by (induction ms arbitrary: a) (simp_all add: length_tui_log)

lemma length_push_capped: "length xs \<le> n \<Longrightarrow> length (push_capped n x xs) \<le> n"
  by (simp add: push_capped_def Let_def)

section \<open>The rows of the streams\<close>

lemma clear_fresh: "clear_stream (StreamData_fresh i) = StreamData_fresh i"
  by (simp add: clear_stream_def StreamData_fresh_def)

lemma clear_show_interval: "clear_stream (show_interval p i d) = clear_stream d"
  by (simp add: clear_stream_def show_interval_def)

lemma clear_show_result: "clear_stream (show_result r d) = clear_stream d"
  by (simp add: clear_stream_def show_result_def)

lemma clear_clear: "clear_stream (clear_stream d) = clear_stream d"
  by (simp add: clear_stream_def)

lemma clear_update:
  assumes "\<And>d. clear_stream (f d) = clear_stream d"
  shows "map clear_stream (update_stream i f ds) = map clear_stream ds"
  by (simp add: update_stream_def map_update assms list_eq_iff_nth_eq nth_list_update)

lemma clear_fresh_streams: "map clear_stream (fresh_streams n) = fresh_streams n"
  by (simp add: fresh_streams_def clear_fresh)

lemma clear_intervals:
  "map clear_stream (fst (fold (interval_step p) is acc)) = map clear_stream (fst acc)"
proof (induction "is" arbitrary: acc)
  case (Cons i "is")
  have "map clear_stream (fst (interval_step p i acc)) = map clear_stream (fst acc)"
    by (cases acc) (simp add: interval_step_def Let_def clear_update clear_show_interval split: option.splits)
  then show ?case using Cons by simp
qed simp

lemma clear_results:
  "map clear_stream (fold (\<lambda>s. update_stream (str_id s) (show_result s)) rs ds) = map clear_stream ds"
  by (induction rs arbitrary: ds) (simp_all add: clear_update clear_show_result)

section \<open>The sparkline\<close>

text \<open>The packets that a count stands for; it is exact where their number is below \<open>2 ^ 64\<close>.\<close>

definition progress_total :: "UdpIntervalProgress \<Rightarrow> nat" where
  "progress_total p = unat (up_packets_received p) + unat (up_packets_lost p)"

definition countable_progress :: "UdpIntervalProgress \<Rightarrow> bool" where "countable_progress p = (progress_total p < 2 ^ 64)"

lemma unat_total:
  "countable_progress p \<Longrightarrow> unat (saturating_add (up_packets_received p) (up_packets_lost p)) = progress_total p"
  by (simp add: countable_progress_def progress_total_def unat_saturating_add)

lemma fresh_total:
  assumes "is_at_least_as_fresh_as c p" "countable_progress c" "countable_progress p"
  shows "progress_total p \<le> progress_total c" "unat (up_packets_received p) \<le> unat (up_packets_received c)"
  using assms by (auto simp: is_at_least_as_fresh_as_def word_le_nat_alt unat_total)

lemma fresh_trans:
  "is_at_least_as_fresh_as c b \<Longrightarrow> is_at_least_as_fresh_as b a \<Longrightarrow> is_at_least_as_fresh_as c a"
  by (auto simp: is_at_least_as_fresh_as_def)

lemma fresh_refl: "is_at_least_as_fresh_as a a"
  by (simp add: is_at_least_as_fresh_as_def)

definition packets_shown :: "run_view \<Rightarrow> nat" where
  "packets_shown v = sum_list (map (\<lambda>t. unat (th_interval_packets t)) (rv_bars v))"

text \<open>Every packet in a bar is in the count the last bar was drawn from, and that count is no fresher than the latest.\<close>

definition bars_inv :: "run_view \<Rightarrow> bool" where
  "bars_inv v \<longleftrightarrow>
     packets_shown v \<le> (case rv_prev_udp_progress v of None \<Rightarrow> 0 | Some p \<Rightarrow> progress_total p)
     \<and> (\<forall>p. rv_prev_udp_progress v = Some p \<longrightarrow> countable_progress p
          \<and> (\<exists>c. rv_latest_udp_progress v = Some c \<and> is_at_least_as_fresh_as c p))
     \<and> (\<forall>c. rv_latest_udp_progress v = Some c \<longrightarrow> countable_progress c)
     \<and> (\<forall>t\<in>set (rv_bars v). th_lost_packets t \<le> th_interval_packets t)
     \<and> length (rv_bars v) \<le> SPARKLINE_HISTORY"

lemma bars_inv_fresh: "bars_inv (fresh_view ds)"
  by (simp add: bars_inv_def fresh_view_def packets_shown_def)

lemma sum_push_capped:
  "sum_list (map f (push_capped n x xs)) \<le> sum_list (map f xs) + (f x :: nat)"
  by (cases xs) (simp_all add: push_capped_def Let_def)

lemma set_push_capped: "set (push_capped n x xs) \<subseteq> insert x (set xs)"
  by (cases xs) (auto simp: push_capped_def Let_def)

lemma bar_delta_bounds:
  assumes "bars_inv v" "bar_delta v = (n, l)"
  shows "l \<le> n"
    "unat n + (case rv_prev_udp_progress v of None \<Rightarrow> 0 | Some p \<Rightarrow> progress_total p)
       \<le> (case rv_latest_udp_progress v of None \<Rightarrow> 0 | Some c \<Rightarrow> progress_total c)"
proof -
  have "l \<le> n \<and> unat n + (case rv_prev_udp_progress v of None \<Rightarrow> 0 | Some p \<Rightarrow> progress_total p)
       \<le> (case rv_latest_udp_progress v of None \<Rightarrow> 0 | Some c \<Rightarrow> progress_total c)"
  proof (cases "rv_prev_udp_progress v")
    case None
    then show ?thesis using assms(2) by (auto simp: bar_delta_def split: option.splits)
  next
    case (Some p)
    then obtain c where c: "rv_latest_udp_progress v = Some c" "is_at_least_as_fresh_as c p" "countable_progress c" "countable_progress p"
      using assms(1) by (auto simp: bars_inv_def)
    have n: "unat n = progress_total c - progress_total p" and l: "unat l = unat (up_packets_lost c) - unat (up_packets_lost p)"
      using assms(2) Some c by (auto simp: bar_delta_def Let_def unat_saturating_sub unat_total)
    have "unat l \<le> unat n"
      using n l fresh_total [OF c(2-4)] by (simp add: progress_total_def)
    then show ?thesis using n fresh_total [OF c(2-4)] Some c by (simp add: word_le_nat_alt)
  qed
  then show "l \<le> n" and "unat n + (case rv_prev_udp_progress v of None \<Rightarrow> 0 | Some p \<Rightarrow> progress_total p)
       \<le> (case rv_latest_udp_progress v of None \<Rightarrow> 0 | Some c \<Rightarrow> progress_total c)" by blast+
qed

lemma bars_inv_append:
  assumes "bars_inv v"
  shows "bars_inv (append_bar mbps v)"
proof -
  obtain n l where d: "bar_delta v = (n, l)" by fastforce
  let ?t = "\<lparr>th_mbps = mbps, th_lost_packets = l, th_interval_packets = n\<rparr>"
  have shown: "sum_list (map (\<lambda>t. unat (th_interval_packets t)) (push_capped SPARKLINE_HISTORY ?t (rv_bars v)))
      \<le> packets_shown v + unat n"
    using sum_push_capped [of "\<lambda>t. unat (th_interval_packets t)" _ ?t] by (simp add: packets_shown_def)
  have bars: "\<forall>t\<in>set (push_capped SPARKLINE_HISTORY ?t (rv_bars v)). th_lost_packets t \<le> th_interval_packets t"
    using assms bar_delta_bounds(1) [OF assms d] set_push_capped [of SPARKLINE_HISTORY ?t] by (fastforce simp: bars_inv_def)
  have len: "length (push_capped SPARKLINE_HISTORY ?t (rv_bars v)) \<le> SPARKLINE_HISTORY"
    using assms by (simp add: bars_inv_def length_push_capped)
  show ?thesis
  proof (cases "rv_latest_udp_progress v")
    case None
    then have "rv_prev_udp_progress v = None" using assms by (auto simp: bars_inv_def)
    then show ?thesis
      using None assms d shown bars len bar_delta_bounds(2) [OF assms d]
      by (simp add: append_bar_def push_throughput_sample_def Let_def bars_inv_def packets_shown_def
          del: sum_list_eq_0_iff)
  next
    case (Some c)
    have "packets_shown v + unat n \<le> progress_total c"
      using assms bar_delta_bounds(2) [OF assms d] Some by (auto simp: bars_inv_def split: option.splits)
    then show ?thesis
      using Some assms d shown bars len
      by (simp add: append_bar_def push_throughput_sample_def Let_def bars_inv_def packets_shown_def fresh_refl)
  qed
qed

lemma bars_inv_cong:
  assumes "rv_bars w = rv_bars v" "rv_prev_udp_progress w = rv_prev_udp_progress v"
    "rv_latest_udp_progress w = rv_latest_udp_progress v"
  shows "bars_inv w = bars_inv v"
  by (simp add: bars_inv_def packets_shown_def assms)

lemma bars_fields [tui_frame]:
  "rv_bars (note_directions p v) = rv_bars v" "rv_prev_udp_progress (note_directions p v) = rv_prev_udp_progress v"
  "rv_latest_udp_progress (note_directions p v) = rv_latest_udp_progress v"
  "rv_bars (note_lost_percent u v) = rv_bars v" "rv_prev_udp_progress (note_lost_percent u v) = rv_prev_udp_progress v"
  "rv_latest_udp_progress (note_lost_percent u v) = rv_latest_udp_progress v"
  "rv_bars (note_totals p v) = rv_bars v" "rv_prev_udp_progress (note_totals p v) = rv_prev_udp_progress v"
  "rv_latest_udp_progress (note_totals p v) = rv_latest_udp_progress v"
  "rv_bars (note_retransmits p v) = rv_bars v" "rv_prev_udp_progress (note_retransmits p v) = rv_prev_udp_progress v"
  "rv_latest_udp_progress (note_retransmits p v) = rv_latest_udp_progress v"
  "rv_bars (note_tcp_info p v) = rv_bars v" "rv_prev_udp_progress (note_tcp_info p v) = rv_prev_udp_progress v"
  "rv_latest_udp_progress (note_tcp_info p v) = rv_latest_udp_progress v"
  "rv_bars (note_jitter pr di j n v) = rv_bars v" "rv_prev_udp_progress (note_jitter pr di j n v) = rv_prev_udp_progress v"
  "rv_latest_udp_progress (note_jitter pr di j n v) = rv_latest_udp_progress v"
  "rv_bars (note_lost l v) = rv_bars v" "rv_prev_udp_progress (note_lost l v) = rv_prev_udp_progress v"
  "rv_latest_udp_progress (note_lost l v) = rv_latest_udp_progress v"
  "rv_bars (note_average p v) = rv_bars v" "rv_prev_udp_progress (note_average p v) = rv_prev_udp_progress v"
  "rv_latest_udp_progress (note_average p v) = rv_latest_udp_progress v"
  "rv_bars (fst (detect_events x v)) = rv_bars v" "rv_prev_udp_progress (fst (detect_events x v)) = rv_prev_udp_progress v"
  "rv_latest_udp_progress (fst (detect_events x v)) = rv_latest_udp_progress v"
  "rv_bars (view_on_result d r v) = rv_bars v" "rv_prev_udp_progress (view_on_result d r v) = rv_prev_udp_progress v"
  "rv_latest_udp_progress (view_on_result d r v) = rv_latest_udp_progress v"
  by (simp_all add: note_directions_def note_lost_percent_def note_totals_def note_retransmits_def note_tcp_info_def note_jitter_def
      note_lost_def note_average_def detect_events_def view_on_result_def Let_def split: option.split)

lemma bars_inv_frame [tui_frame]:
  "bars_inv (note_directions p v) = bars_inv v" "bars_inv (note_lost_percent u v) = bars_inv v"
  "bars_inv (note_totals p v) = bars_inv v" "bars_inv (note_retransmits p v) = bars_inv v"
  "bars_inv (note_tcp_info p v) = bars_inv v" "bars_inv (note_jitter pr di j n v) = bars_inv v"
  "bars_inv (note_lost l v) = bars_inv v" "bars_inv (note_average p v) = bars_inv v"
  "bars_inv (fst (detect_events x v)) = bars_inv v" "bars_inv (view_on_result d r v) = bars_inv v"
  "bars_inv (v\<lparr>rv_streams := ds\<rparr>) = bars_inv v" "bars_inv (v\<lparr>rv_last_bar_at := t\<rparr>) = bars_inv v"
  "bars_inv (v\<lparr>rv_elapsed := d\<rparr>) = bars_inv v"
  by (rule bars_inv_cong; simp add: bars_fields)+

definition countable_update :: "TestProgress \<Rightarrow> bool" where
  "countable_update p = (case tp_udp_progress p of None \<Rightarrow> True | Some c \<Rightarrow> countable_progress c)"

lemma bars_inv_latest:
  assumes "bars_inv v" "countable_update p" "rv_latest_udp_progress w = rv_latest_udp_progress v"
  shows "bars_inv (note_latest (fresh_progress p w) v)"
proof (cases "fresh_progress p w")
  case (Some c)
  then have c: "countable_progress c" "\<And>l. rv_latest_udp_progress v = Some l \<Longrightarrow> is_at_least_as_fresh_as c l"
    using assms(2,3) by (auto simp: fresh_progress_def countable_update_def split: option.splits if_splits)
  show ?thesis
    using assms(1) c Some
    by (auto simp: note_latest_def bars_inv_def packets_shown_def) (erule (1) fresh_trans)
qed (simp add: note_latest_def assms(1))

lemma bars_inv_due: "bars_inv v \<Longrightarrow> bars_inv (append_due_bar now x v)"
  by (simp add: append_due_bar_def bars_inv_append tui_frame)

lemma bars_inv_progress:
  assumes "bars_inv v" "countable_update p"
  shows "bars_inv (fst (view_on_progress pr di now p v))"
proof (cases "tp_udp_feedback_only p")
  case True
  then show ?thesis
    using bars_inv_latest [of "note_directions p v" p "note_directions p v"] assms
    by (simp add: view_on_progress_def Let_def tui_frame)
next
  case False
  let ?n = "note_directions p v" and ?t = "note_totals p (note_directions p v)"
  obtain ds j l n where f: "fold (interval_step p) (tp_streams p) (rv_streams ?t, 0, 0, 0) = (ds, j, l, n)"
    by (metis prod_cases4)
  have "bars_inv (note_latest (fresh_progress p ?n) (?t\<lparr>rv_streams := ds\<rparr>))"
    by (rule bars_inv_latest) (simp_all add: assms tui_frame)
  then show ?thesis
    using False f by (simp add: view_on_progress_def Let_def tui_frame bars_inv_due)
qed

lemma bars_inv_stalled: "bars_inv v \<Longrightarrow> bars_inv (maybe_append_stalled_bar now start v)"
  by (simp add: maybe_append_stalled_bar_def Let_def tui_frame bars_inv_append split: option.split)

section \<open>The settings\<close>

text \<open>What the command line accepts for the parameters that the settings edit, and a theme that there is.\<close>

definition edited_ok :: "edited \<Rightarrow> bool" where
  "edited_ok p \<longleftrightarrow> 1 \<le> ed_streams p \<and> ed_streams p \<le> 128 \<and> unat (ed_duration_secs p) \<le> 4294967295"

definition settings_ok :: "SettingsState \<Rightarrow> bool" where
  "settings_ok s \<longleftrightarrow> edited_ok (sg_params s) \<and> sg_theme_index s < length Theme_list"

lemma duration_next_le: "unat (duration_next d) \<le> 4294967295"
  by (simp add: duration_next_def min_def word_le_nat_alt)

lemma duration_prev_le:
  assumes "unat d \<le> 4294967295"
  shows "unat (duration_prev d) \<le> 4294967295"
proof -
  have small: "unat (saturating_sub d 1 :: u64) < 4294967296" using assms by (simp add: unat_saturating_sub)
  have "unat (saturating_sub d 1 div 5 :: u64) = unat (saturating_sub d 1 :: u64) div 5" by (simp add: unat_div_distrib)
  moreover have "unat (saturating_sub d 1 :: u64) div 5 * 5 < 4294967296" using small by linarith
  ultimately have "unat (saturating_sub d 1 div 5 * 5 :: u64) = unat (saturating_sub d 1 :: u64) div 5 * 5"
    by (subst unat_mult_lem [THEN iffD1]) simp_all
  then show ?thesis using small by (auto simp: duration_prev_def max_def)
qed

lemma streams_next: "1 \<le> n \<Longrightarrow> 1 \<le> min (saturating_add n 1) 128 \<and> min (saturating_add n (1 :: u8)) 128 \<le> 128"
  by (simp add: word_le_nat_alt min_def unat_saturating_add)

lemma streams_prev: "n \<le> 128 \<Longrightarrow> 1 \<le> max (saturating_sub n 1) 1 \<and> max (saturating_sub n (1 :: u8)) 1 \<le> 128"
  by (auto simp: word_le_nat_alt max_def unat_saturating_sub)

lemma length_Theme_list: "length Theme_list = 11" by (simp add: Theme_list_def)

lemma settings_ok_value_next: "settings_ok s \<Longrightarrow> settings_ok (value_next s)"
  using streams_next [of "ed_streams (sg_params s)"]
  by (simp add: settings_ok_def edited_ok_def value_next_def toggle_update_check_def Let_def duration_next_le length_Theme_list
      split: SettingsCategory.split)

lemma settings_ok_value_prev: "settings_ok s \<Longrightarrow> settings_ok (value_prev s)"
  using streams_prev [of "ed_streams (sg_params s)"]
  by (auto simp: settings_ok_def edited_ok_def value_prev_def toggle_update_check_def Let_def duration_prev_le length_Theme_list
      split: SettingsCategory.split)

lemma settings_frame [tui_frame]:
  "settings_ok (move_up s) = settings_ok s" "settings_ok (move_down s) = settings_ok s" "settings_ok (switch_tab s) = settings_ok s"
  "settings_ok (settings_close s) = settings_ok s" "settings_ok (settings_toggle s) = settings_ok s"
  "settings_ok (fst (on_enter s)) = settings_ok s" "settings_ok (mark_applied s) = settings_ok s"
  "settings_ok (s\<lparr>sg_timestamp_format := f\<rparr>) = settings_ok s"
  by (simp_all add: settings_ok_def move_up_def move_down_def focus_button_def switch_tab_def settings_close_def settings_toggle_def
      on_enter_def mark_applied_def Let_def)

lemma params_on_enter: "sg_params (fst (on_enter s)) = sg_params s"
  by (simp add: on_enter_def focus_button_def settings_close_def)

section \<open>The application\<close>

definition app_inv :: "bool \<Rightarrow> App \<Rightarrow> bool" where
  "app_inv cnt a \<longleftrightarrow>
     map clear_stream (rv_streams (ap_view a)) = fresh_streams (ap_streams_count a)
     \<and> length (rv_bars (ap_view a)) \<le> SPARKLINE_HISTORY \<and> length (rv_jitters (ap_view a)) \<le> JITTER_HISTORY_SAMPLES
     \<and> length (ap_history a) \<le> LOG_HISTORY \<and> settings_ok (ap_settings a) \<and> (cnt \<longrightarrow> bars_inv (ap_view a))"

text \<open>What a key or a message does not change: the parameters of the running test.\<close>

definition same_params :: "App \<Rightarrow> App \<Rightarrow> bool" where
  "same_params a b \<longleftrightarrow> ap_protocol a = ap_protocol b \<and> ap_direction a = ap_direction b \<and> ap_streams_count a = ap_streams_count b
     \<and> ap_duration a = ap_duration b \<and> ap_bitrate a = ap_bitrate b \<and> ap_byte_budget a = ap_byte_budget b"

definition keeps :: "bool \<Rightarrow> (App \<Rightarrow> App) \<Rightarrow> bool" where
  "keeps cnt f \<longleftrightarrow> (\<forall>a. app_inv cnt a \<longrightarrow> app_inv cnt (f a) \<and> same_params (f a) a)"

lemma keepsI: "(\<And>a. app_inv cnt a \<Longrightarrow> app_inv cnt (f a)) \<Longrightarrow> (\<And>a. same_params (f a) a) \<Longrightarrow> keeps cnt f"
  by (simp add: keeps_def)

lemma same_params_refl: "same_params a a" by (simp add: same_params_def)

lemma keeps_id: "keeps cnt (\<lambda>a. a)" by (simp add: keeps_def same_params_refl)

lemma keeps_log: "keeps cnt (tui_log cal now m)"
  by (rule keepsI) (simp_all add: app_inv_def same_params_def tui_frame length_tui_log)

lemma keeps_log_all: "keeps cnt (log_all cal now ms)"
  by (rule keepsI) (simp_all add: app_inv_def same_params_def tui_frame length_log_all)

lemma keeps_comp: "keeps cnt f \<Longrightarrow> keeps cnt g \<Longrightarrow> keeps cnt (\<lambda>a. f (g a))"
  by (auto simp: keeps_def same_params_def)

lemma keeps_update:
  assumes "\<And>a. ap_view (f a) = ap_view a" "\<And>a. ap_history (f a) = ap_history a"
    "\<And>a. settings_ok (ap_settings a) \<Longrightarrow> settings_ok (ap_settings (f a))" "\<And>a. same_params (f a) a"
  shows "keeps cnt f"
  using assms by (auto simp: keeps_def app_inv_def same_params_def)

lemma length_bars_append:
  "length (rv_bars v) \<le> SPARKLINE_HISTORY \<Longrightarrow> length (rv_bars (append_bar x v)) \<le> SPARKLINE_HISTORY"
  by (simp add: append_bar_def push_throughput_sample_def Let_def length_push_capped split: prod.split option.split)

lemma append_bar_fields [tui_frame]: "rv_streams (append_bar x v) = rv_streams v" "rv_jitters (append_bar x v) = rv_jitters v"
  by (simp_all add: append_bar_def push_throughput_sample_def Let_def split: prod.split option.split)

text \<open>What matters of a view for the invariant: the rows without their readings, and the windows.\<close>

definition view_ok :: "u8 \<Rightarrow> run_view \<Rightarrow> bool" where
  "view_ok n v \<longleftrightarrow> map clear_stream (rv_streams v) = fresh_streams n
     \<and> length (rv_bars v) \<le> SPARKLINE_HISTORY \<and> length (rv_jitters v) \<le> JITTER_HISTORY_SAMPLES"

lemma view_ok_frame [tui_frame]:
  "view_ok n (note_directions p v) = view_ok n v" "view_ok n (note_lost_percent u v) = view_ok n v"
  "view_ok n (note_totals p v) = view_ok n v" "view_ok n (note_retransmits p v) = view_ok n v"
  "view_ok n (note_tcp_info p v) = view_ok n v" "view_ok n (note_lost l v) = view_ok n v"
  "view_ok n (note_average p v) = view_ok n v" "view_ok n (fst (detect_events x v)) = view_ok n v"
  "view_ok n (note_latest u v) = view_ok n v" "view_ok n (v\<lparr>rv_last_bar_at := t\<rparr>) = view_ok n v"
  "view_ok n (v\<lparr>rv_elapsed := d\<rparr>) = view_ok n v"
  by (simp_all add: view_ok_def note_directions_def note_lost_percent_def note_totals_def note_retransmits_def note_tcp_info_def
      note_lost_def note_average_def detect_events_def note_latest_def Let_def split: option.split)

lemma view_ok_jitter: "view_ok n v \<Longrightarrow> view_ok n (note_jitter pr di j k v)"
  by (simp add: view_ok_def note_jitter_def Let_def length_push_capped)

lemma view_ok_append: "view_ok n v \<Longrightarrow> view_ok n (append_bar x v)"
  by (simp add: view_ok_def tui_frame length_bars_append)

lemma view_ok_due: "view_ok n v \<Longrightarrow> view_ok n (append_due_bar now x v)"
  by (simp add: append_due_bar_def tui_frame view_ok_append)

lemma view_ok_stalled: "view_ok n v \<Longrightarrow> view_ok n (maybe_append_stalled_bar now start v)"
  by (simp add: maybe_append_stalled_bar_def Let_def tui_frame view_ok_append split: option.split)

lemma view_ok_progress: "view_ok n v \<Longrightarrow> view_ok n (fst (view_on_progress pr di now p v))"
proof (cases "tp_udp_feedback_only p")
  case False
  assume v: "view_ok n v"
  let ?t = "note_totals p (note_directions p v)"
  obtain ds j l k where f: "fold (interval_step p) (tp_streams p) (rv_streams ?t, 0, 0, 0) = (ds, j, l, k)"
    by (metis prod_cases4)
  have "map clear_stream ds = map clear_stream (rv_streams ?t)"
    using clear_intervals [of p "tp_streams p" "(rv_streams ?t, 0, 0, 0)"] f by simp
  moreover have "view_ok n ?t" using v by (simp add: tui_frame)
  ultimately have "view_ok n (?t\<lparr>rv_streams := ds\<rparr>)" by (simp add: view_ok_def)
  then show ?thesis using False f by (simp add: view_on_progress_def Let_def tui_frame view_ok_due view_ok_jitter)
qed (simp add: view_on_progress_def Let_def tui_frame)

lemma view_ok_result: "view_ok n v \<Longrightarrow> view_ok n (view_on_result d r v)"
  by (simp add: view_ok_def view_on_result_def Let_def clear_results split: option.split)

lemma view_ok_fresh: "view_ok n (fresh_view (fresh_streams n))"
  by (simp add: view_ok_def fresh_view_def clear_fresh_streams)

lemma clear_view_is_fresh: "clear_view v = fresh_view (map clear_stream (rv_streams v))"
  by (simp add: clear_view_def fresh_view_def)

lemma app_inv_view:
  "app_inv cnt a \<longleftrightarrow> view_ok (ap_streams_count a) (ap_view a) \<and> length (ap_history a) \<le> LOG_HISTORY \<and> settings_ok (ap_settings a)
     \<and> (cnt \<longrightarrow> bars_inv (ap_view a))"
  by (auto simp: app_inv_def view_ok_def)

lemma keeps_view:
  assumes "\<And>a. view_ok (ap_streams_count a) (ap_view a) \<Longrightarrow> view_ok (ap_streams_count a) (ap_view (f a))"
    "\<And>a. bars_inv (ap_view a) \<Longrightarrow> bars_inv (ap_view (f a))"
    "\<And>a. ap_history (f a) = ap_history a" "\<And>a. settings_ok (ap_settings a) \<Longrightarrow> settings_ok (ap_settings (f a))"
    "\<And>a. same_params (f a) a"
  shows "keeps cnt f"
  using assms by (simp add: keeps_def app_inv_view same_params_def)

lemma keeps_tick: "keeps cnt (tick now)"
  by (rule keeps_view) (simp_all add: tick_def same_params_def view_ok_stalled bars_inv_stalled tui_frame split: option.split)

lemma keeps_progress: "(cnt \<Longrightarrow> countable_update p) \<Longrightarrow> keeps cnt (on_progress cal now p)"
proof (rule keepsI)
  fix a assume "cnt \<Longrightarrow> countable_update p" and "app_inv cnt a"
  then show "app_inv cnt (on_progress cal now p a)"
    using bars_inv_progress [of "ap_view a" p "ap_protocol a" "ap_direction a" now] view_ok_progress [of "ap_streams_count a" "ap_view a" "ap_protocol a" "ap_direction a" now p]
    by (simp add: app_inv_view on_progress_def tui_frame length_log_all case_prod_beta)
next
  fix a show "same_params (on_progress cal now p a) a"
    by (simp add: on_progress_def same_params_def tui_frame split: prod.split)
qed

lemma keeps_result: "keeps cnt (on_result cal now r)"
  by (rule keepsI) (simp_all add: app_inv_view on_result_def Let_def same_params_def tui_frame length_log_all view_ok_result)

lemma keeps_error: "keeps cnt (on_error cal now m)"
  by (rule keepsI) (simp_all add: app_inv_view on_error_def same_params_def tui_frame length_tui_log)

lemma keeps_pause: "keeps cnt (toggle_pause cal now)"
  by (rule keepsI) (simp_all add: app_inv_view toggle_pause_def Let_def same_params_def tui_frame length_tui_log split: AppState.split)

lemma keeps_version: "keeps cnt (set_server_version cal now x)"
  by (rule keepsI) (simp_all add: app_inv_view set_server_version_def Let_def same_params_def tui_frame length_tui_log)

lemma keeps_connected: "keeps cnt (on_connected cal now)"
  by (rule keepsI) (simp_all add: app_inv_view on_connected_def same_params_def tui_frame length_tui_log)

lemma keeps_reset: "keeps cnt (reset_for_restart cal now)"
  by (rule keepsI)
    (simp_all add: app_inv_view reset_for_restart_def clear_view_is_fresh bars_inv_fresh view_ok_fresh same_params_def tui_frame length_tui_log, simp add: view_ok_def view_ok_fresh fresh_view_def clear_fresh_streams)

lemma keeps_quic: "keeps cnt (log_tui_quic_ignored_options cal now c)"
  unfolding log_tui_quic_ignored_options_def by (rule keeps_log_all)

lemma keeps_cycle: "keeps cnt cycle_theme"
  by (rule keeps_update) (simp_all add: cycle_theme_def Let_def settings_ok_def length_Theme_list same_params_def)

lemma keeps_toggles: "keeps cnt toggle_help" "keeps cnt toggle_streams"
  by (rule keeps_update; simp add: toggle_help_def toggle_streams_def same_params_def)+

lemma keeps_fields:
  "keeps cnt (\<lambda>a. a\<lparr>ap_show_help := b\<rparr>)" "keeps cnt (\<lambda>a. a\<lparr>ap_help_scroll := g a\<rparr>)" "keeps cnt (\<lambda>a. a\<lparr>ap_update_available := u\<rparr>)"
  "keeps cnt (\<lambda>a. a\<lparr>ap_state := s\<rparr>)" "keeps cnt (\<lambda>a. a\<lparr>ap_cancel_deadline := d\<rparr>)" "keeps cnt (\<lambda>a. a\<lparr>ap_result := r\<rparr>)"
  "keeps cnt (\<lambda>a. a\<lparr>ap_settings := settings_toggle (ap_settings a)\<rparr>)"
  "keeps cnt (\<lambda>a. a\<lparr>ap_cancel_deadline := d, ap_settings := settings_close (ap_settings a)\<rparr>)"
  by (rule keeps_update; simp add: same_params_def tui_frame)+

lemma keeps_set_theme: "keeps cnt (set_theme_index i)"
  by (rule keeps_update) (simp_all add: set_theme_index_def settings_ok_def same_params_def)

lemma keeps_set_timestamp: "keeps cnt (set_timestamp_format cal f)"
  by (rule keepsI) (simp_all add: app_inv_view set_timestamp_format_def Let_def same_params_def tui_frame)

lemma keeps_settings:
  assumes "\<And>s. settings_ok s \<Longrightarrow> settings_ok (f s)"
  shows "keeps cnt (\<lambda>a. a\<lparr>ap_settings := f (ap_settings a)\<rparr>)"
  by (rule keeps_update) (simp_all add: assms same_params_def)

lemma keeps_apply: "keeps cnt f \<Longrightarrow> app_inv cnt a \<Longrightarrow> app_inv cnt (f a)" "keeps cnt f \<Longrightarrow> app_inv cnt a \<Longrightarrow> same_params (f a) a"
  by (simp_all add: keeps_def)

lemma same_params_trans: "same_params a b \<Longrightarrow> same_params b c \<Longrightarrow> same_params a c"
  by (simp add: same_params_def)

lemma keeps_dep: "(\<And>x. keeps cnt (g x)) \<Longrightarrow> keeps cnt f \<Longrightarrow> keeps cnt (\<lambda>a. g (h (f a)) (f a))"
  by (auto simp: keeps_def same_params_def)

lemma keeps_live_edit:
  assumes "\<And>s. settings_ok s \<Longrightarrow> settings_ok (f s)"
  shows "keeps cnt (live_edit cal f)"
proof -
  have "keeps cnt (\<lambda>a. set_timestamp_format cal (sg_timestamp_format (ap_settings (set_theme_index (sg_theme_index (f (ap_settings a)))
      (a\<lparr>ap_settings := f (ap_settings a)\<rparr>)))) (set_theme_index (sg_theme_index (f (ap_settings a))) (a\<lparr>ap_settings := f (ap_settings a)\<rparr>)))"
    using keeps_dep [where g = "set_timestamp_format cal" and h = "\<lambda>a. sg_timestamp_format (ap_settings a)", OF keeps_set_timestamp
        keeps_dep [where g = set_theme_index and h = "\<lambda>a. sg_theme_index (ap_settings a)", OF keeps_set_theme keeps_settings [OF assms]]]
    by simp
  then show ?thesis by (simp add: live_edit_def [abs_def] Let_def)
qed

lemma keeps_if: "keeps cnt f \<Longrightarrow> keeps cnt g \<Longrightarrow> keeps cnt (\<lambda>a. if b then f a else g a)"
  by (cases b) simp_all

lemma keeps_settings_key: "keeps cnt (\<lambda>a. fst (handle_tui_settings_key cal code a))"
proof -
  have enter: "keeps cnt (\<lambda>a. a\<lparr>ap_settings := fst (on_enter (ap_settings a))\<rparr>)"
    by (rule keeps_settings) (simp add: tui_frame)
  have simple: "keeps cnt (\<lambda>a. a\<lparr>ap_settings := settings_close (ap_settings a)\<rparr>)" "keeps cnt (\<lambda>a. a\<lparr>ap_settings := move_up (ap_settings a)\<rparr>)"
    "keeps cnt (\<lambda>a. a\<lparr>ap_settings := move_down (ap_settings a)\<rparr>)" "keeps cnt (\<lambda>a. a\<lparr>ap_settings := switch_tab (ap_settings a)\<rparr>)"
    by (rule keeps_settings; simp add: tui_frame)+
  have edits: "keeps cnt (live_edit cal value_prev)" "keeps cnt (live_edit cal value_next)"
    by (rule keeps_live_edit, erule settings_ok_value_prev settings_ok_value_next)+
  show ?thesis
    unfolding handle_tui_settings_key_def Let_def case_prod_beta if_distrib [of fst] fst_conv
    by (intro keeps_if enter simple edits keeps_id)
qed

end
