(* ===== verification/Tui_Loop_Correct.thy ===== *)
theory Tui_Loop_Correct
  imports Tui_Correct
begin

text \<open>
  The invariant of the client's loop: every run it starts has a configuration that the command line would have accepted, the application shows the
  parameters of that configuration, and its result is one that the server reported.
\<close>

section \<open>Outcomes\<close>

definition outcome_ok :: "(tui_state \<Rightarrow> bool) \<Rightarrow> (tui_exit \<Rightarrow> tui_state \<Rightarrow> bool) \<Rightarrow> tui_outcome \<Rightarrow> bool" where
  "outcome_ok P Q r = (case r of TuiNext st \<Rightarrow> P st | TuiContinue st \<Rightarrow> P st | TuiExit x st \<Rightarrow> Q x st)"

lemma outcome_simps [simp]:
  "outcome_ok P Q (TuiNext st) = P st" "outcome_ok P Q (TuiContinue st) = P st" "outcome_ok P Q (TuiExit x st) = Q x st"
  by (simp_all add: outcome_ok_def)

lemma outcome_and_then:
  assumes "outcome_ok P Q r" "\<And>st. P st \<Longrightarrow> outcome_ok P Q (f st)"
  shows "outcome_ok P Q (and_then r f)"
  using assms by (cases r) (simp_all add: and_then_def)

lemma outcome_loop:
  assumes "\<And>i st. i \<in> set is \<Longrightarrow> P st \<Longrightarrow> outcome_ok P Q (tui_iteration e i st)" "P st"
  shows "outcome_ok P Q (run_tui_loop e is st)"
  using assms
proof (induction "is" arbitrary: st)
  case (Cons i "is")
  have "outcome_ok P Q (tui_iteration e i st)" using Cons.prems by simp
  then show ?case
    using Cons.IH Cons.prems(1) by (cases "tui_iteration e i st") simp_all
qed simp

section \<open>Configurations\<close>

text \<open>What the client's own validation accepts, without the options that only another protocol has.\<close>

definition run_ok :: "ClientConfig \<Rightarrow> bool" where
  "run_ok c \<longleftrightarrow> ClientConfig_validate c = Ok ()
     \<and> (cl_protocol c \<noteq> Udp \<longrightarrow> cl_udp_payload_size c = None)
     \<and> (cl_protocol c \<noteq> Tcp \<longrightarrow> \<not> cl_mptcp c \<and> cl_zerocopy c = ZcOff)
     \<and> (cl_sequential_ports c \<longrightarrow> cl_protocol c \<noteq> QuicProto \<and> 1 < cl_streams c
          \<and> (\<exists>a. cl_bind_addr c = Some a \<and> addr_port a \<noteq> 0))"

lemma run_config_ok: "ClientConfig_validate c = Ok () \<Longrightarrow> run_ok (tui_run_config c)"
  by (auto simp: run_ok_def tui_run_config_def Let_def ClientConfig_validate_def split: if_splits option.splits sum.splits)

definition edit_config :: "edited \<Rightarrow> ClientConfig \<Rightarrow> ClientConfig" where
  "edit_config p c = c\<lparr>cl_streams := ed_streams p, cl_protocol := ed_protocol p, cl_duration := unat (ed_duration_secs p) * 1000000000,
     cl_direction := ed_direction p, cl_bitrate := ed_bitrate p\<rparr>"

lemma edit_config_valid: "ClientConfig_validate c = Ok () \<Longrightarrow> edited_ok p \<Longrightarrow> ClientConfig_validate (edit_config p c) = Ok ()"
  by (auto simp: edit_config_def edited_ok_def ClientConfig_validate_def as_secs_def split: if_splits option.splits sum.splits)

text \<open>The application shows the parameters of the configuration.\<close>

definition shows_config :: "ClientConfig \<Rightarrow> App \<Rightarrow> bool" where
  "shows_config c a \<longleftrightarrow> ap_protocol a = cl_protocol c \<and> ap_direction a = cl_direction c \<and> ap_streams_count a = cl_streams c
     \<and> ap_duration a = cl_duration c \<and> ap_bitrate a = cl_bitrate c \<and> ap_byte_budget a = cl_byte_budget c"

section \<open>The invariant\<close>

definition tui_inv :: "bool \<Rightarrow> TestResult set \<Rightarrow> tui_state \<Rightarrow> bool" where
  "tui_inv cnt seen st \<longleftrightarrow>
     app_inv cnt (tl_app st) \<and> shows_config (tl_config st) (tl_app st) \<and> ClientConfig_validate (tl_config st) = Ok ()
     \<and> (\<forall>c. RunStarted c \<in> set (tl_effects st) \<longrightarrow> run_ok c) \<and> (\<forall>r. ap_result (tl_app st) = Some r \<longrightarrow> r \<in> seen)"

definition exit_inv :: "TestResult set \<Rightarrow> tui_exit \<Rightarrow> tui_state \<Rightarrow> bool" where
  "exit_inv seen x st \<longleftrightarrow>
     (\<forall>c. RunStarted c \<in> set (tl_effects st) \<longrightarrow> run_ok c)
     \<and> (case x of
          TuiErr m \<Rightarrow> True
        | TuiOk res prefs json partial \<Rightarrow>
            if partial then \<forall>r. res = Some r \<longrightarrow> (\<exists>bytes ms. 0 < bytes \<and> r = build_fallback_result bytes ms)
            else \<forall>r. res = Some r \<longrightarrow> r \<in> seen)"

abbreviation "ok_step cnt seen \<equiv> outcome_ok (tui_inv cnt seen) (exit_inv seen)"

text \<open>An operation on the application that leaves its result alone, clears it, or sets it to one that was seen.\<close>

definition honest :: "TestResult set \<Rightarrow> (App \<Rightarrow> App) \<Rightarrow> bool" where
  "honest seen f \<longleftrightarrow> (\<forall>a r. ap_result (f a) = Some r \<longrightarrow> ap_result a = Some r \<or> r \<in> seen)"

lemma inv_on_app:
  assumes "keeps cnt f" "honest seen f" "tui_inv cnt seen st"
  shows "tui_inv cnt seen (on_app f st)"
  using assms by (auto simp: tui_inv_def on_app_def keeps_def same_params_def shows_config_def honest_def) blast

lemma inv_effects:
  assumes "tui_inv cnt seen st" "\<And>c. RunStarted c \<in> set es \<Longrightarrow> run_ok c"
  shows "tui_inv cnt seen (effects es st)"
  using assms by (auto simp: tui_inv_def effects_def)

lemma inv_fields:
  "tui_inv cnt seen (st\<lparr>tl_prefs := p\<rparr>) = tui_inv cnt seen st" "tui_inv cnt seen (st\<lparr>tl_run := r\<rparr>) = tui_inv cnt seen st"
  "tui_inv cnt seen (st\<lparr>tl_fallback_bytes := b\<rparr>) = tui_inv cnt seen st"
  "tui_inv cnt seen (st\<lparr>tl_fallback_elapsed_ms := b\<rparr>) = tui_inv cnt seen st"
  "tui_inv cnt seen (st\<lparr>tl_print_json := j\<rparr>) = tui_inv cnt seen st"
  "tui_inv cnt seen (st\<lparr>tl_update_check_done := d\<rparr>) = tui_inv cnt seen st" "tui_inv cnt seen (st\<lparr>tl_last_drawn := l\<rparr>) = tui_inv cnt seen st"
  by (simp_all add: tui_inv_def)

lemma honest_same: "(\<And>a. ap_result (f a) = ap_result a) \<Longrightarrow> honest seen f"
  by (simp add: honest_def)

lemma result_fields:
  "ap_result (tick now a) = ap_result a" "ap_result (on_progress cal now p a) = ap_result a"
  "ap_result (on_error cal now m a) = ap_result a" "ap_result (toggle_pause cal now a) = ap_result a"
  "ap_result (set_server_version cal now x a) = ap_result a" "ap_result (on_connected cal now a) = ap_result a"
  "ap_result (log_tui_quic_ignored_options cal now c a) = ap_result a" "ap_result (cycle_theme a) = ap_result a"
  "ap_result (toggle_help a) = ap_result a" "ap_result (toggle_streams a) = ap_result a"
  "ap_result (reset_for_restart cal now a) = None" "ap_result (on_result cal now r a) = Some r"
  "ap_result (live_edit cal g a) = ap_result a"
  by (simp_all add: tick_def on_progress_def on_error_def toggle_pause_def set_server_version_def on_connected_def
      log_tui_quic_ignored_options_def cycle_theme_def toggle_help_def toggle_streams_def reset_for_restart_def on_result_def
      live_edit_def set_timestamp_format_def set_theme_index_def
      Let_def tui_frame split: option.split AppState.split prod.split)

lemma inv_log: "tui_inv cnt seen st \<Longrightarrow> tui_inv cnt seen (tui_log_line e now m st)"
  unfolding tui_log_line_def by (rule inv_on_app [OF keeps_log honest_same]) (simp_all add: tui_frame)

lemma inv_logs: "tui_inv cnt seen st \<Longrightarrow> tui_inv cnt seen (fold (\<lambda>x. tui_log_line e now (g x)) xs st)"
  by (induction xs arbitrary: st) (simp_all add: inv_log)

text \<open>The operations of the loop on the application, each with the reason that it keeps the invariant.\<close>

lemmas inv_ops =
  inv_on_app [OF keeps_tick honest_same [OF result_fields(1)]]
  inv_on_app [OF keeps_error honest_same [OF result_fields(3)]]
  inv_on_app [OF keeps_pause honest_same [OF result_fields(4)]]
  inv_on_app [OF keeps_version honest_same [OF result_fields(5)]]
  inv_on_app [OF keeps_connected honest_same [OF result_fields(6)]]
  inv_on_app [OF keeps_quic honest_same [OF result_fields(7)]]
  inv_on_app [OF keeps_cycle honest_same [OF result_fields(8)]]
  inv_on_app [OF keeps_toggles(1) honest_same [OF result_fields(9)]]
  inv_on_app [OF keeps_toggles(2) honest_same [OF result_fields(10)]]

lemma inv_app_field:
  assumes "tui_inv cnt seen st"
  shows "tui_inv cnt seen (on_app (\<lambda>a. a\<lparr>ap_show_help := b\<rparr>) st)" "tui_inv cnt seen (on_app (\<lambda>a. a\<lparr>ap_help_scroll := g a\<rparr>) st)"
    "tui_inv cnt seen (on_app (\<lambda>a. a\<lparr>ap_update_available := u\<rparr>) st)" "tui_inv cnt seen (on_app (\<lambda>a. a\<lparr>ap_state := s\<rparr>) st)"
    "tui_inv cnt seen (on_app (\<lambda>a. a\<lparr>ap_cancel_deadline := d\<rparr>) st)"
    "tui_inv cnt seen (on_app (\<lambda>a. a\<lparr>ap_settings := settings_toggle (ap_settings a)\<rparr>) st)"
    "tui_inv cnt seen (on_app (\<lambda>a. a\<lparr>ap_cancel_deadline := d, ap_settings := settings_close (ap_settings a)\<rparr>) st)"
  by (rule inv_on_app [OF _ _ assms]; simp add: keeps_fields honest_def)+

lemma inv_reset: "tui_inv cnt seen st \<Longrightarrow> tui_inv cnt seen (on_app (reset_for_restart cal now) st)"
  by (rule inv_on_app [OF keeps_reset]) (simp_all add: honest_def result_fields)

lemma inv_result: "tui_inv cnt seen st \<Longrightarrow> r \<in> seen \<Longrightarrow> tui_inv cnt seen (on_app (on_result cal now r) st)"
  by (rule inv_on_app [OF keeps_result]) (simp_all add: honest_def result_fields)

section \<open>The steps\<close>

lemma inv_exit_ok: "tui_inv cnt seen st \<Longrightarrow> ok_step cnt seen (exit_ok False st)"
  by (simp add: exit_ok_def exit_inv_def tui_inv_def)

lemma inv_exit_error: "tui_inv cnt seen st \<Longrightarrow> ok_step cnt seen (exit_error st)"
  by (simp add: exit_error_def exit_inv_def tui_inv_def)

lemma inv_exit_fallback: "tui_inv cnt seen st \<Longrightarrow> ok_step cnt seen (exit_fallback st)"
  by (auto simp: exit_fallback_def exit_ok_def exit_inv_def tui_inv_def on_app_def tui_fallback_result_def)

lemma inv_abort: "tui_inv cnt seen st \<Longrightarrow> tui_inv cnt seen (abort_run st)"
  by (auto simp: abort_run_def inv_fields intro!: inv_effects)

lemma inv_start: "tui_inv cnt seen st \<Longrightarrow> tui_inv cnt seen (start_run e now st)"
  unfolding start_run_def Let_def
  by (rule inv_ops, rule inv_effects) (auto simp: inv_fields run_config_ok tui_inv_def)

lemma inv_begin: "tui_inv cnt seen st \<Longrightarrow> ok_step cnt seen (tui_begin e i st)"
  by (simp add: tui_begin_def Let_def inv_exit_fallback inv_abort inv_fields inv_logs)

lemma inv_poll: "tui_inv cnt seen st \<Longrightarrow> tui_inv cnt seen (poll_update_check u st)"
  by (simp add: poll_update_check_def inv_fields inv_app_field split: update_poll.split option.split)

lemma inv_exit_err: "tui_inv cnt seen st \<Longrightarrow> exit_inv seen (TuiErr m) st"
  by (simp add: exit_inv_def tui_inv_def)

lemma let_rule: "P x \<Longrightarrow> (\<And>y. P y \<Longrightarrow> Q (f y)) \<Longrightarrow> Q (Let x f)"
  by (simp add: Let_def)

lemma inv_draw: "tui_inv cnt seen st \<Longrightarrow> ok_step cnt seen (tui_draw e i st)"
  unfolding tui_draw_def
  by (rule let_rule [where P = "tui_inv cnt seen"], simp add: inv_app_field)
    (auto simp: Let_def inv_fields inv_exit_err split: option.split terminal_failure.split)

lemma inv_refresh: "tui_inv cnt seen st \<Longrightarrow> ok_step cnt seen (tui_refresh e i st)"
  unfolding tui_refresh_def
  by (rule let_rule [where P = "tui_inv cnt seen"], erule inv_poll, rule let_rule [where P = "tui_inv cnt seen"], simp add: inv_fields,
      rule let_rule [where P = "tui_inv cnt seen"], erule inv_ops(1), rule let_rule [where P = "tui_inv cnt seen"],
      simp add: inv_ops split: option.split) (auto simp: inv_draw inv_exit_err split: option.split terminal_failure.split)

definition ok_inv :: "bool \<Rightarrow> TestResult set \<Rightarrow> string + tui_state \<Rightarrow> bool" where
  "ok_inv cnt seen r = (case r of Err m \<Rightarrow> True | Ok st \<Rightarrow> tui_inv cnt seen st)"

lemma inv_restart: "tui_inv cnt seen st \<Longrightarrow> ok_inv cnt seen (restart_tui_run e i st)"
  unfolding restart_tui_run_def
proof (rule let_rule [where P = "ok_inv cnt seen"])
  assume inv: "tui_inv cnt seen st"
  let ?log = "tui_log_line e (tn_key_now i) ''Restarting, waiting for current test to stop...'' (st\<lparr>tl_run := None\<rparr>)"
  have log: "tui_inv cnt seen ?log" using inv by (simp add: inv_log inv_fields)
  have "tui_inv cnt seen (effects [CancelSent] ?log)" by (rule inv_effects [OF log]) simp
  then have stopped: "tui_inv cnt seen (effects [CancelSent] ?log)" "\<And>m. tui_inv cnt seen (tui_log_line e (tn_restart_now i) m (effects [CancelSent] ?log))"
    "\<And>m. tui_inv cnt seen (effects [RunAborted] (tui_log_line e (tn_restart_now i) m (effects [CancelSent] ?log)))"
    by (auto intro!: inv_log inv_effects)
  show "ok_inv cnt seen (if tl_run st = None then Ok st
      else (let st = ?log
            in case tn_failure i of Some (RestartDrawFails m) \<Rightarrow> Err m
               | _ \<Rightarrow> let st = effects [CancelSent] st
                      in Ok (case tn_stopped i of Some (Ok _) \<Rightarrow> st
                             | Some (Err m) \<Rightarrow> tui_log_line e (tn_restart_now i) (''Previous test ended while restarting: '' @ m) st
                             | None \<Rightarrow> effects [RunAborted]
                                 (tui_log_line e (tn_restart_now i) ''Previous test did not stop in time; aborted.'' st))))"
    using inv stopped by (simp add: ok_inv_def Let_def split: option.split terminal_failure.split sum.split)
next
  fix r :: "string + tui_state" assume "ok_inv cnt seen r"
  then show "ok_inv cnt seen (case r of Err m \<Rightarrow> Err m
      | Ok st \<Rightarrow> let st = on_app (reset_for_restart (tv_calendar e) (tn_restart_now i)) st;
                    st = on_app (log_tui_quic_ignored_options (tv_calendar e) (tn_restart_now i) (tl_config st)) st
                in Ok (start_run e (tn_restart_now i) st))"
    by (cases r) (simp_all add: ok_inv_def Let_def inv_start inv_ops inv_reset)
qed

lemma inv_forget: "tui_inv cnt seen st \<Longrightarrow> tui_inv cnt seen (forget_run st)"
  by (simp add: forget_run_def inv_fields inv_app_field)

lemma inv_apply_settings:
  assumes "tui_inv cnt seen st" "apply_tui_settings (tl_config st) (tl_app st) = (c, a)"
  shows "tui_inv cnt seen (st\<lparr>tl_config := c, tl_app := a\<rparr>)"
proof -
  let ?p = "sg_params (ap_settings (tl_app st))"
  have ok: "edited_ok ?p" and valid: "ClientConfig_validate (tl_config st) = Ok ()"
    using assms(1) by (auto simp: tui_inv_def app_inv_def settings_ok_def)
  have c: "c = edit_config ?p (tl_config st)" and a: "a = apply_test_params (ed_protocol ?p) (ed_direction ?p) (ed_streams ?p)
      (unat (ed_duration_secs ?p) * 1000000000) (ed_bitrate ?p) (tl_app st)"
    using assms(2) by (auto simp: apply_tui_settings_def Let_def edit_config_def)
  have "app_inv cnt a"
    using assms(1) by (simp add: a tui_inv_def app_inv_def apply_test_params_def clear_fresh_streams tui_frame)
  moreover have "shows_config c a"
    using assms(1) by (simp add: a c tui_inv_def shows_config_def apply_test_params_def edit_config_def)
  moreover have "ap_result a = ap_result (tl_app st)" by (simp add: a apply_test_params_def)
  ultimately show ?thesis
    using assms(1) edit_config_valid [OF valid ok] by (simp add: tui_inv_def c)
qed

lemma settings_key_result: "ap_result (fst (handle_tui_settings_key cal code a)) = ap_result a"
  by (simp add: handle_tui_settings_key_def Let_def case_prod_beta result_fields)

lemma inv_settings_key:
  assumes "tui_inv cnt seen st"
  shows "ok_step cnt seen (tui_settings_key e i k st)"
proof -
  let ?h = "handle_tui_settings_key (tv_calendar e) (ke_code k)"
  let ?st = "on_app (\<lambda>a. fst (?h a)) st"
  have st: "tui_inv cnt seen ?st"
    by (rule inv_on_app [OF keeps_settings_key honest_same assms]) (rule settings_key_result)
  obtain c a where ca: "apply_tui_settings (tl_config ?st) (tl_app ?st) = (c, a)" by fastforce
  let ?r = "restart_tui_run e i (forget_run (?st\<lparr>tl_config := c, tl_app := a\<rparr>))"
  have r: "ok_inv cnt seen ?r" by (rule inv_restart [OF inv_forget [OF inv_apply_settings [OF st ca]]])
  have err: "exit_inv seen (TuiErr m) (?st\<lparr>tl_config := c, tl_app := a\<rparr>)" for m
    by (rule inv_exit_err [OF inv_apply_settings [OF st ca]])
  have shape: "tui_settings_key e i k st =
      (if snd (?h (tl_app st)) = RestartAction
       then (case ?r of Err m \<Rightarrow> TuiExit (TuiErr m) (forget_run (?st\<lparr>tl_config := c, tl_app := a\<rparr>)) | Ok st \<Rightarrow> TuiContinue (st\<lparr>tl_last_drawn := None\<rparr>))
       else TuiContinue ?st)"
    using ca by (simp add: tui_settings_key_def Let_def case_prod_beta on_app_def split: sum.split)
  show ?thesis
    unfolding shape
    using st r inv_exit_err [OF inv_forget [OF inv_apply_settings [OF st ca]]] by (cases ?r) (simp_all add: ok_inv_def inv_fields)
qed

lemma inv_start_cancel:
  assumes "tui_inv cnt seen st"
  shows "tui_inv cnt seen (start_cancel e i st)"
proof -
  have "tui_inv cnt seen (effects [CancelSent] st)" by (rule inv_effects [OF assms]) simp
  then show ?thesis unfolding start_cancel_def Let_def by (simp add: assms inv_log inv_app_field)
qed

lemma inv_pause:
  assumes "tui_inv cnt seen st"
  shows "tui_inv cnt seen (tui_pause_key e i st)"
proof -
  have "tui_inv cnt seen (effects [PauseToggled] (on_app (toggle_pause (tv_calendar e) (tn_key_now i)) st))"
    by (rule inv_effects [OF inv_ops(3) [OF assms]]) simp
  then show ?thesis
    using assms by (simp add: tui_pause_key_def inv_log inv_app_field split: PauseResult.split AppState.split)
qed

lemma inv_command:
  assumes "tui_inv cnt seen st"
  shows "ok_step cnt seen (tui_command_key e i code st)"
proof -
  let ?r = "restart_tui_run e i (forget_run st)"
  have "ok_inv cnt seen ?r" by (rule inv_restart [OF inv_forget [OF assms]])
  then have r: "ok_step cnt seen (case ?r of Err m \<Rightarrow> TuiExit (TuiErr m) (forget_run st) | Ok st \<Rightarrow> TuiNext (st\<lparr>tl_last_drawn := None\<rparr>))"
    using inv_exit_err [OF inv_forget [OF assms]] by (cases ?r) (simp_all add: ok_inv_def inv_fields)
  have j: "tui_inv cnt seen (tui_log_line e now m (st\<lparr>tl_print_json := True\<rparr>))" for now m
    by (rule inv_log) (simp add: inv_fields assms)
  show ?thesis
    unfolding tui_command_key_def Let_def
    by (simp only: if_distrib [of "ok_step cnt seen"] outcome_simps)
      (simp only: r j inv_pause [OF assms] inv_ops [OF assms] inv_app_field [OF assms] inv_exit_ok [OF assms] inv_exit_error [OF assms] assms if_cancel)
qed

lemma inv_key:
  assumes "tui_inv cnt seen st"
  shows "ok_step cnt seen (tui_key e i k st)"
proof (cases "settings_captures_key (sg_visible (ap_settings (tl_app st))) k")
  case False
  show ?thesis
    unfolding tui_key_def if_not_P [OF False]
    by (rule let_rule [where P = "tui_inv cnt seen"], simp add: assms inv_app_field)
      (simp add: inv_command inv_exit_ok inv_exit_error inv_abort inv_start_cancel split: TuiQuitAction.split)
qed (simp add: tui_key_def inv_settings_key assms)

lemma inv_read_key: "tui_inv cnt seen st \<Longrightarrow> ok_step cnt seen (tui_read_key e i st)"
  by (simp add: tui_read_key_def inv_key inv_exit_err split: option.split terminal_failure.split)

lemma inv_take:
  assumes "tui_inv cnt seen st" "cnt \<Longrightarrow> countable_update (snd x)"
  shows "tui_inv cnt seen (tui_take_progress e x st)"
  unfolding tui_take_progress_def Let_def
  by (rule inv_on_app [OF keeps_progress honest_same]) (simp_all add: assms inv_fields result_fields)

text \<open>With \<open>cnt\<close> the counts of the input are exact.\<close>

definition countable_input :: "tui_input \<Rightarrow> bool" where
  "countable_input i = (\<forall>x\<in>set (tn_progress i). countable_update (snd x))"

lemma inv_progress:
  assumes "tui_inv cnt seen st" "cnt \<Longrightarrow> countable_input i"
  shows "tui_inv cnt seen (tui_progress e i st)"
proof -
  have "tui_inv cnt seen st \<Longrightarrow> (cnt \<Longrightarrow> \<forall>x\<in>set ps. countable_update (snd x)) \<Longrightarrow> tui_inv cnt seen (fold (tui_take_progress e) ps st)" for ps
    by (induction ps arbitrary: st) (simp_all add: inv_take)
  then show ?thesis using assms by (simp add: tui_progress_def countable_input_def)
qed

lemma inv_finish:
  assumes "tui_inv cnt seen st" "\<And>r. tn_finished i = Some (Ok r) \<Longrightarrow> r \<in> seen"
  shows "ok_step cnt seen (tui_finish e i st)"
proof (cases "tl_run st = None \<or> tn_finished i = None")
  case False
  then obtain c x where c: "tl_run st = Some c" and x: "tn_finished i = Some x" by auto
  have run: "tui_inv cnt seen (st\<lparr>tl_run := None\<rparr>)" using assms(1) by (simp add: inv_fields)
  show ?thesis
  proof (cases x)
    case (Inl m)
    then show ?thesis
      using c x run by (simp add: tui_finish_def Let_def inv_exit_fallback inv_ops)
  next
    case (Inr r)
    let ?q = "metrics_queue (tv_show_f64 e) (tv_base64 e) (tv_gateway e) r (cl_protocol c, cl_direction c)"
    let ?st = "case ?q of
        Some request \<Rightarrow> tui_log_line e (tn_end_now i) ''Pushing metrics (test complete)...'' (effects [MetricsQueued request] (st\<lparr>tl_run := None\<rparr>))
      | None \<Rightarrow> st\<lparr>tl_run := None\<rparr>"
    have "tui_inv cnt seen ?st" using run by (auto intro!: inv_log inv_effects split: option.split)
    then have "tui_inv cnt seen (on_app (on_result (tv_calendar e) (tn_end_now i) r) ?st)"
      by (rule inv_result) (use assms(2) x Inr in simp)
    then show ?thesis
      using c x Inr inv_exit_ok by (simp add: tui_finish_def Let_def)
  qed
qed (auto simp: tui_finish_def assms(1) split: option.split)

lemma inv_iteration:
  assumes "tui_inv cnt seen st" "cnt \<Longrightarrow> countable_input i" "\<And>r. tn_finished i = Some (Ok r) \<Longrightarrow> r \<in> seen"
  shows "ok_step cnt seen (tui_iteration e i st)"
  unfolding tui_iteration_def
  by (intro outcome_and_then) (simp_all add: assms inv_begin inv_refresh inv_read_key inv_finish inv_progress)

section \<open>The start\<close>

lemma position_of_less: "position_of P xs = Some i \<Longrightarrow> i < length xs"
  by (simp add: position_of_def Let_def split: if_splits)

lemma inv_init:
  assumes "ClientConfig_validate c = Ok ()"
  shows "tui_inv cnt seen (tui_init e c f prefs palette update_disabled lock_reason clock)"
proof -
  have valid: "1 \<le> cl_streams c" "cl_streams c \<le> 128" "as_secs (cl_duration c) \<le> 4294967295"
    using assms by (auto simp: ClientConfig_validate_def split: if_splits)
  then have secs: "unat (word_of_nat (as_secs (cl_duration c)) :: u64) \<le> 4294967295"
    by (simp add: unat_of_nat)
  let ?app = "with_theme_name clock (cl_host c) (cl_port c) (cl_protocol c) (cl_direction c) (cl_streams c) (cl_duration c) (cl_bitrate c) f palette"
  let ?shown = "?app\<lparr>ap_byte_budget := cl_byte_budget c,
      ap_settings := (ap_settings ?app)\<lparr>sg_update_check := \<not> update_disabled, sg_update_check_lock_reason := lock_reason\<rparr>\<rparr>"
  have theme: "(case position_of (\<lambda>name. name = Theme_by_name palette) Theme_list of None \<Rightarrow> 0 | Some i \<Rightarrow> i) < length Theme_list"
    by (auto simp: length_Theme_list split: option.split dest: position_of_less)
  have shown: "app_inv cnt ?shown" "shows_config c ?shown" "ap_result ?shown = None"
    using valid secs theme
    by (simp_all add: app_inv_view with_theme_name_def App_new_def Let_def view_ok_fresh bars_inv_fresh settings_ok_def edited_ok_def
        SettingsState_new_def shows_config_def)
  let ?logged = "log_tui_quic_ignored_options (tv_calendar e) (fst clock) c ?shown"
  have "app_inv cnt ?logged" "same_params ?logged ?shown" "ap_result ?logged = None"
    using keeps_apply [OF keeps_quic shown(1)] shown(3) by (simp_all add: result_fields)
  then show ?thesis
    unfolding tui_init_def Let_def
    by (intro inv_start) (use assms shown(2) in \<open>simp add: tui_inv_def shows_config_def same_params_def\<close>)
qed

section \<open>The deadline of a cancel\<close>

definition waits :: "instant \<Rightarrow> tui_state \<Rightarrow> bool" where
  "waits d st \<longleftrightarrow> ap_cancel_deadline (tl_app st) = Some d"

abbreviation "waits_step d \<equiv> outcome_ok (waits d) (\<lambda>x st. True)"

definition no_restart :: "tui_input \<Rightarrow> bool" where
  "no_restart i = (\<forall>k. tn_key i = Some k \<longrightarrow> ke_code k \<noteq> KChar CHR ''r'' \<and> ke_code k \<noteq> KEnter)"

lemma waits_on_app: "(\<And>a. ap_cancel_deadline (f a) = ap_cancel_deadline a) \<Longrightarrow> waits d (on_app f st) = waits d st"
  by (simp add: waits_def on_app_def)

lemma deadline_fields:
  "ap_cancel_deadline (tick now a) = ap_cancel_deadline a" "ap_cancel_deadline (on_progress cal now p a) = ap_cancel_deadline a"
  "ap_cancel_deadline (on_error cal now m a) = ap_cancel_deadline a" "ap_cancel_deadline (toggle_pause cal now a) = ap_cancel_deadline a"
  "ap_cancel_deadline (set_server_version cal now x a) = ap_cancel_deadline a" "ap_cancel_deadline (cycle_theme a) = ap_cancel_deadline a"
  "ap_cancel_deadline (toggle_help a) = ap_cancel_deadline a" "ap_cancel_deadline (toggle_streams a) = ap_cancel_deadline a"
  "ap_cancel_deadline (on_result cal now r a) = ap_cancel_deadline a" "ap_cancel_deadline (live_edit cal g a) = ap_cancel_deadline a"
  "ap_cancel_deadline (fst (handle_tui_settings_key cal code a)) = ap_cancel_deadline a"
  by (simp_all add: tick_def on_progress_def on_error_def toggle_pause_def set_server_version_def cycle_theme_def toggle_help_def
      toggle_streams_def on_result_def live_edit_def set_timestamp_format_def set_theme_index_def handle_tui_settings_key_def
      case_prod_beta Let_def tui_frame split: option.split AppState.split)

lemma waits_frame:
  "waits d (tui_log_line e now m st) = waits d st" "waits d (on_app (tick now) st) = waits d st"
  "waits d (on_app (on_progress cal now p) st) = waits d st" "waits d (on_app (on_error cal now m) st) = waits d st"
  "waits d (on_app (toggle_pause cal now) st) = waits d st" "waits d (on_app (set_server_version cal now x) st) = waits d st"
  "waits d (on_app cycle_theme st) = waits d st" "waits d (on_app toggle_help st) = waits d st"
  "waits d (on_app toggle_streams st) = waits d st" "waits d (on_app (on_result cal now r) st) = waits d st"
  "waits d (on_app (\<lambda>a. a\<lparr>ap_show_help := b\<rparr>) st) = waits d st" "waits d (on_app (\<lambda>a. a\<lparr>ap_help_scroll := g a\<rparr>) st) = waits d st"
  "waits d (on_app (\<lambda>a. a\<lparr>ap_update_available := u\<rparr>) st) = waits d st" "waits d (on_app (\<lambda>a. a\<lparr>ap_state := s\<rparr>) st) = waits d st"
  "waits d (on_app (\<lambda>a. a\<lparr>ap_settings := settings_toggle (ap_settings a)\<rparr>) st) = waits d st"
  "waits d (effects es st) = waits d st" "waits d (st\<lparr>tl_prefs := p'\<rparr>) = waits d st" "waits d (st\<lparr>tl_run := r'\<rparr>) = waits d st"
  "waits d (st\<lparr>tl_fallback_bytes := w\<rparr>) = waits d st" "waits d (st\<lparr>tl_fallback_elapsed_ms := w\<rparr>) = waits d st"
  "waits d (st\<lparr>tl_print_json := j\<rparr>) = waits d st" "waits d (st\<lparr>tl_update_check_done := dn\<rparr>) = waits d st"
  "waits d (st\<lparr>tl_last_drawn := l\<rparr>) = waits d st"
  by (simp_all add: tui_log_line_def waits_on_app deadline_fields tui_frame) (simp_all add: waits_def effects_def)

lemma waits_logs: "waits d (fold (\<lambda>x. tui_log_line e now (g x)) xs st) = waits d st"
  by (induction xs arbitrary: st) (simp_all add: waits_frame)

lemma exits [simp]:
  "waits_step d (exit_ok b st)" "waits_step d (exit_fallback st)" "waits_step d (exit_error st)"
  by (simp_all add: exit_ok_def exit_fallback_def exit_error_def)

lemma waits_begin: "waits d st \<Longrightarrow> waits_step d (tui_begin e i st)"
  by (simp add: tui_begin_def Let_def waits_frame waits_logs)

lemma waits_draw: "waits d st \<Longrightarrow> waits_step d (tui_draw e i st)"
  unfolding tui_draw_def
  by (rule let_rule [where P = "waits d"], simp add: waits_frame)
    (auto simp: Let_def waits_frame split: option.split terminal_failure.split)

lemma waits_refresh: "waits d st \<Longrightarrow> waits_step d (tui_refresh e i st)"
  unfolding tui_refresh_def poll_update_check_def
  by (rule let_rule [where P = "waits d"], simp add: waits_frame split: update_poll.split option.split,
      rule let_rule [where P = "waits d"], simp add: waits_frame,
      rule let_rule [where P = "waits d"], simp add: waits_frame, rule let_rule [where P = "waits d"],
      simp add: waits_frame split: option.split) (auto simp: waits_draw split: option.split terminal_failure.split)

lemma restart_only_on_enter: "snd (handle_tui_settings_key cal code a) = RestartAction \<Longrightarrow> code = KEnter"
  by (simp add: handle_tui_settings_key_def Let_def case_prod_beta split: if_splits)

lemma waits_settings_key:
  assumes "waits d st" "ke_code k \<noteq> KEnter"
  shows "waits_step d (tui_settings_key e i k st)"
proof -
  have "snd (handle_tui_settings_key (tv_calendar e) (ke_code k) (tl_app st)) \<noteq> RestartAction"
    using restart_only_on_enter assms(2) by blast
  then show ?thesis
    using assms(1) by (simp add: tui_settings_key_def Let_def case_prod_beta waits_def deadline_fields)
qed

lemma waits_command:
  assumes "waits d st" "code \<noteq> KChar CHR ''r''"
  shows "waits_step d (tui_command_key e i code st)"
proof -
  have "waits d (tui_pause_key e i st)"
    using assms(1) by (simp add: tui_pause_key_def waits_frame split: PauseResult.split AppState.split)
  then show ?thesis
    using assms by (simp add: tui_command_key_def Let_def waits_frame)
qed

lemma waits_key:
  assumes "waits d st" "ke_code k \<noteq> KChar CHR ''r''" "ke_code k \<noteq> KEnter"
  shows "waits_step d (tui_key e i k st)"
proof (cases "settings_captures_key (sg_visible (ap_settings (tl_app st))) k")
  case False
  have "tui_quit_action k s True r \<noteq> QuitStartCancel" for s r
    by (simp add: tui_quit_action_def Let_def)
  then have step: "waits_step d (case tui_quit_action k (ap_state (tl_app y)) (ap_cancel_deadline (tl_app y) \<noteq> None) (tl_run y \<noteq> None) of
      QuitNoop \<Rightarrow> tui_command_key e i (ke_code k) y | QuitError \<Rightarrow> exit_error y | QuitOk \<Rightarrow> exit_ok False y
      | QuitForce \<Rightarrow> exit_ok False (abort_run y) | QuitIgnore \<Rightarrow> TuiContinue y
      | QuitStartCancel \<Rightarrow> TuiContinue (start_cancel e i y))" if "waits d y" for y
    using that waits_command [OF that assms(2)] by (simp add: waits_def split: TuiQuitAction.split)
  show ?thesis
    unfolding tui_key_def if_not_P [OF False]
    by (rule let_rule [where P = "waits d"], simp add: assms waits_frame) (erule step)
qed (simp add: tui_key_def waits_settings_key assms)

lemma waits_iteration:
  assumes "waits d st" "no_restart i"
  shows "waits_step d (tui_iteration e i st)"
proof -
  have key: "waits d st \<Longrightarrow> waits_step d (tui_read_key e i st)" for st
    using assms(2) by (auto simp: tui_read_key_def no_restart_def waits_key split: option.split terminal_failure.split)
  have "waits d st \<Longrightarrow> waits d (fold (tui_take_progress e) ps st)" for ps st
    by (induction ps arbitrary: st) (simp_all add: tui_take_progress_def Let_def waits_frame)
  then have progress: "waits d st \<Longrightarrow> waits d (tui_progress e i st)" for st by (simp add: tui_progress_def)
  have finish: "waits d st \<Longrightarrow> waits_step d (tui_finish e i st)" for st
    by (auto simp: tui_finish_def Let_def waits_frame split: option.split sum.split)
  show ?thesis
    unfolding tui_iteration_def
    by (intro outcome_and_then) (simp_all add: assms waits_begin waits_refresh key progress finish)
qed

lemma exit_fallback_exits: "\<exists>x st'. exit_fallback st = TuiExit x st'"
  by (cases "ap_result (tl_app st) = None") (simp_all add: exit_fallback_def exit_ok_def)

lemma deadline_exits:
  assumes "waits d st" "d < tn_now i"
  shows "\<exists>x st'. tui_iteration e i st = TuiExit x st'"
proof -
  have "waits d (fold (\<lambda>x. tui_log_line e (tn_now i) (metrics_message x)) (tn_outcomes i) st)" using assms(1) by (simp add: waits_logs)
  then have "\<exists>s. tui_begin e i st = exit_fallback s" using assms(2) by (auto simp: tui_begin_def Let_def waits_def)
  then have "\<exists>x st'. tui_begin e i st = TuiExit x st'" using exit_fallback_exits by metis
  then show ?thesis by (auto simp: tui_iteration_def and_then_def)
qed

lemma waits_end:
  assumes "waits d st" "\<forall>i\<in>set is. no_restart i" "\<exists>i\<in>set is. d < tn_now i"
  shows "\<exists>x st'. run_tui_loop e is st = TuiExit x st'"
  using assms
proof (induction "is" arbitrary: st)
  case (Cons i "is")
  show ?case
  proof (cases "d < tn_now i")
    case True
    then show ?thesis using deadline_exits [OF Cons.prems(1) True, of e] by auto
  next
    case False
    have "waits_step d (tui_iteration e i st)" using Cons.prems by (simp add: waits_iteration)
    then show ?thesis
      using Cons.IH Cons.prems False by (cases "tui_iteration e i st") auto
  qed
qed simp

section \<open>Properties\<close>

definition outcome_state :: "tui_outcome \<Rightarrow> tui_state" where
  "outcome_state r = (case r of TuiNext st \<Rightarrow> st | TuiContinue st \<Rightarrow> st | TuiExit x st \<Rightarrow> st)"

definition reported :: "tui_input list \<Rightarrow> TestResult set" where
  "reported is = {r. \<exists>i\<in>set is. tn_finished i = Some (Ok r)}"

lemma inv_loop:
  assumes "ClientConfig_validate c = Ok ()" "cnt \<Longrightarrow> \<forall>i\<in>set is. countable_input i"
  shows "ok_step cnt (reported is) (run_tui_loop e is (tui_init e c f prefs palette disabled lock clock))"
  by (rule outcome_loop [OF inv_iteration inv_init [OF assms(1)]]) (use assms(2) in \<open>auto simp: reported_def\<close>)

text \<open>C34: whatever keys are pressed and whatever the client reports, every run that the terminal interface starts from a configuration
  that passes the client's validation (\<open>ClientConfig::validate\<close>), the first and each restart with edited settings, has one that
  passes it too, with a payload size only over UDP, MPTCP and zero copy only over TCP, and sequential ports only for several streams
  over TCP or UDP from a fixed port. (What only the command line checks, such as the range of those ports, is not checked again:
  \<open>settings_exceed_port_range\<close>.) While the loop goes on, the screen
  shows the parameters of the configuration in force and its windows stay bounded.\<close>

theorem tui_runs_are_valid:
  assumes "ClientConfig_validate c = Ok ()"
  shows "let r = run_tui_loop e is (tui_init e c f prefs palette disabled lock clock); st = outcome_state r in
    (\<forall>c'. RunStarted c' \<in> set (tl_effects st) \<longrightarrow>
       ClientConfig_validate c' = Ok () \<and> (cl_protocol c' \<noteq> Udp \<longrightarrow> cl_udp_payload_size c' = None)
       \<and> (cl_protocol c' \<noteq> Tcp \<longrightarrow> \<not> cl_mptcp c' \<and> cl_zerocopy c' = ZcOff)
       \<and> (cl_sequential_ports c' \<longrightarrow> cl_protocol c' \<noteq> QuicProto \<and> 1 < cl_streams c'
            \<and> (\<exists>a. cl_bind_addr c' = Some a \<and> addr_port a \<noteq> 0)))
    \<and> ((\<forall>x st'. r \<noteq> TuiExit x st') \<longrightarrow>
       ap_protocol (tl_app st) = cl_protocol (tl_config st) \<and> ap_streams_count (tl_app st) = cl_streams (tl_config st)
       \<and> ap_direction (tl_app st) = cl_direction (tl_config st) \<and> ap_duration (tl_app st) = cl_duration (tl_config st)
       \<and> length (rv_bars (ap_view (tl_app st))) \<le> SPARKLINE_HISTORY
       \<and> length (rv_jitters (ap_view (tl_app st))) \<le> JITTER_HISTORY_SAMPLES \<and> length (ap_history (tl_app st)) \<le> LOG_HISTORY)"
  using inv_loop [OF assms, of False "is" e f prefs palette disabled lock clock]
  by (auto simp: Let_def outcome_state_def outcome_ok_def tui_inv_def exit_inv_def run_ok_def shows_config_def app_inv_def split: tui_outcome.splits)

lemma config_on_app: "tl_config (on_app f st) = tl_config st" by (simp add: on_app_def)

lemma restart_shape:
  assumes "restart_tui_run e i st = Ok st'"
  shows "\<exists>s. st' = start_run e (tn_restart_now i) (on_app (log_tui_quic_ignored_options (tv_calendar e) (tn_restart_now i) (tl_config s))
      (on_app (reset_for_restart (tv_calendar e) (tn_restart_now i)) s))
    \<and> ap_view (tl_app s) = ap_view (tl_app st) \<and> tl_config s = tl_config st \<and> tl_fallback_bytes s = tl_fallback_bytes st
    \<and> tl_fallback_elapsed_ms s = tl_fallback_elapsed_ms st \<and> tl_print_json s = tl_print_json st"
proof (cases "tl_run st")
  case None
  then show ?thesis using assms by (intro exI [of _ st]) (simp add: restart_tui_run_def Let_def config_on_app)
next
  case (Some c)
  define s where "s = (let st = effects [CancelSent] (tui_log_line e (tn_key_now i) ''Restarting, waiting for current test to stop...'' (st\<lparr>tl_run := None\<rparr>))
    in case tn_stopped i of
         Some (Ok _) \<Rightarrow> st
       | Some (Err m) \<Rightarrow> tui_log_line e (tn_restart_now i) (''Previous test ended while restarting: '' @ m) st
       | None \<Rightarrow> effects [RunAborted] (tui_log_line e (tn_restart_now i) ''Previous test did not stop in time; aborted.'' st))"
  have fields: "ap_view (tl_app s) = ap_view (tl_app st) \<and> tl_config s = tl_config st \<and> tl_fallback_bytes s = tl_fallback_bytes st
    \<and> tl_fallback_elapsed_ms s = tl_fallback_elapsed_ms st \<and> tl_print_json s = tl_print_json st"
    by (simp add: s_def Let_def tui_log_line_def on_app_def effects_def tui_frame split: option.split sum.split)
  have "\<not> (\<exists>m. tn_failure i = Some (RestartDrawFails m))" using assms Some by (auto simp: restart_tui_run_def Let_def)
  then have "restart_tui_run e i st = Ok (start_run e (tn_restart_now i)
      (on_app (log_tui_quic_ignored_options (tv_calendar e) (tn_restart_now i) (tl_config s)) (on_app (reset_for_restart (tv_calendar e) (tn_restart_now i)) s)))"
    using Some by (simp add: restart_tui_run_def Let_def s_def [unfolded Let_def, symmetric] config_on_app split: option.split terminal_failure.split)
  then show ?thesis using assms fields by (intro exI [of _ s]) simp
qed

text \<open>A restart, by the key or from the settings.\<close>

definition fresh_run :: "tui_input \<Rightarrow> tui_state \<Rightarrow> bool" where
  "fresh_run i st \<longleftrightarrow> ap_view (tl_app st) = fresh_view (fresh_streams (cl_streams (tl_config st)))
    \<and> ap_result (tl_app st) = None \<and> ap_error (tl_app st) = None \<and> ap_cancel_deadline (tl_app st) = None
    \<and> ap_pause_started_at (tl_app st) = None \<and> ap_server_version (tl_app st) = None
    \<and> ap_state (tl_app st) = AppRunning \<and> ap_start_time (tl_app st) = Some (tn_restart_now i)
    \<and> tl_run st = Some (tui_run_config (tl_config st))
    \<and> tl_fallback_bytes st = 0 \<and> tl_fallback_elapsed_ms st = 0 \<and> \<not> tl_print_json st"

lemma restart_fresh:
  assumes "tui_inv cnt seen st" "restart_tui_run e i (forget_run st) = Ok st'"
  shows "fresh_run i (st'\<lparr>tl_last_drawn := l\<rparr>) \<and> tl_config st' = tl_config st"
proof -
  have rows: "map clear_stream (rv_streams (ap_view (tl_app st))) = fresh_streams (cl_streams (tl_config st))"
    using assms(1) by (simp add: tui_inv_def app_inv_def shows_config_def)
  obtain s where s: "st' = start_run e (tn_restart_now i) (on_app (log_tui_quic_ignored_options (tv_calendar e) (tn_restart_now i) (tl_config s))
      (on_app (reset_for_restart (tv_calendar e) (tn_restart_now i)) s))" "ap_view (tl_app s) = ap_view (tl_app st)" "tl_config s = tl_config st"
    "tl_fallback_bytes s = 0" "tl_fallback_elapsed_ms s = 0" "\<not> tl_print_json s"
    using restart_shape [OF assms(2)] by (auto simp: forget_run_def on_app_def)
  show ?thesis
    using rows s(2-)
    by (simp add: fresh_run_def s(1) start_run_def Let_def on_app_def effects_def on_connected_def log_tui_quic_ignored_options_def
        reset_for_restart_def clear_view_is_fresh tui_frame)
qed

text \<open>The runs started so far.\<close>

fun starts_run :: "tui_effect \<Rightarrow> bool" where
  "starts_run (RunStarted c) = True"
| "starts_run _ = False"

definition runs_started :: "tui_state \<Rightarrow> nat" where
  "runs_started st = length (filter starts_run (tl_effects st))"

lemma runs_started_simps [simp]:
  "runs_started (on_app f st) = runs_started st" "runs_started (tui_log_line e now m st) = runs_started st"
  "runs_started (effects es st) = runs_started st + length (filter starts_run es)"
  "runs_started (st\<lparr>tl_print_json := b\<rparr>) = runs_started st" "runs_started (st\<lparr>tl_app := a\<rparr>) = runs_started st"
  by (simp_all add: runs_started_def on_app_def tui_log_line_def effects_def)

lemma settings_key_fresh:
  assumes "tui_inv cnt seen st" "tui_settings_key e i k st = TuiContinue st'" "runs_started st < runs_started st'"
  shows "fresh_run i st' \<and> (\<exists>p. tl_config st' = edit_config p (tl_config st))"
proof -
  let ?h = "handle_tui_settings_key (tv_calendar e) (ke_code k)"
  let ?st = "on_app (\<lambda>a. fst (?h a)) st"
  have st: "tui_inv cnt seen ?st"
    by (rule inv_on_app [OF keeps_settings_key honest_same assms(1)]) (rule settings_key_result)
  obtain c a where ca: "apply_tui_settings (tl_config ?st) (tl_app ?st) = (c, a)" by fastforce
  let ?new = "?st\<lparr>tl_config := c, tl_app := a\<rparr>"
  have inv: "tui_inv cnt seen ?new" by (rule inv_apply_settings [OF st ca])
  have c: "\<exists>p. c = edit_config p (tl_config st)"
    using ca by (auto simp: apply_tui_settings_def Let_def edit_config_def on_app_def)
  have "tui_settings_key e i k st =
      (if snd (?h (tl_app st)) = RestartAction
       then (case restart_tui_run e i (forget_run ?new) of
               Err m \<Rightarrow> TuiExit (TuiErr m) (forget_run ?new) | Ok st \<Rightarrow> TuiContinue (st\<lparr>tl_last_drawn := None\<rparr>))
       else TuiContinue ?st)"
    using ca by (simp add: tui_settings_key_def Let_def case_prod_beta on_app_def split: sum.split)
  then obtain s where s: "restart_tui_run e i (forget_run ?new) = Ok s" "st' = s\<lparr>tl_last_drawn := None\<rparr>"
    using assms(2,3) by (auto split: if_splits sum.splits)
  from restart_fresh [OF inv s(1), of None] s(2) c show ?thesis by auto
qed

lemma command_key_fresh:
  assumes "tui_inv cnt seen st" "tui_command_key e i code st = TuiNext st' \<or> tui_command_key e i code st = TuiContinue st'"
    "runs_started st < runs_started st'"
  shows "fresh_run i st' \<and> tl_config st' = tl_config st"
proof -
  have pause: "runs_started (tui_pause_key e i st) = runs_started st"
    by (simp add: tui_pause_key_def split: PauseResult.split AppState.split)
  have "\<exists>s. restart_tui_run e i (forget_run st) = Ok s \<and> st' = s\<lparr>tl_last_drawn := None\<rparr>"
    using assms(2,3) pause
    by (auto simp: tui_command_key_def Let_def exit_ok_def exit_error_def split: if_splits sum.splits)
  then show ?thesis using restart_fresh [OF assms(1), of e i _ None] by auto
qed

lemma read_key_fresh:
  assumes inv: "tui_inv cnt seen st" and r: "tui_read_key e i st = TuiNext st' \<or> tui_read_key e i st = TuiContinue st'"
    and new: "runs_started st < runs_started st'"
  shows "fresh_run i st' \<and> (tl_config st' = tl_config st \<or> (\<exists>p. tl_config st' = edit_config p (tl_config st)))"
proof -
  obtain k where k: "tui_key e i k st = TuiNext st' \<or> tui_key e i k st = TuiContinue st'"
    using r new by (auto simp: tui_read_key_def split: option.splits terminal_failure.splits)
  show ?thesis
  proof (cases "settings_captures_key (sg_visible (ap_settings (tl_app st))) k")
    case True
    then have "tui_settings_key e i k st = TuiContinue st'"
      using k by (auto simp: tui_key_def tui_settings_key_def Let_def split: prod.splits if_splits sum.splits)
    from settings_key_fresh [OF inv this new] show ?thesis by blast
  next
    case False
    define s where "s = (if ap_show_help (tl_app st)
      then on_app (\<lambda>a. a\<lparr>ap_help_scroll := help_scroll (ap_help_scroll a) (tn_size i) False (Some (ke_code k))\<rparr>) st else st)"
    have s: "tui_inv cnt seen s" "runs_started s = runs_started st" "tl_config s = tl_config st"
      using inv by (simp_all add: s_def inv_app_field config_on_app)
    have abort: "runs_started (start_cancel e i s) = runs_started s" by (simp add: start_cancel_def Let_def)
    have "tui_command_key e i (ke_code k) s = TuiNext st' \<or> tui_command_key e i (ke_code k) s = TuiContinue st'"
      using k new s(2) abort
      by (auto simp: tui_key_def False Let_def s_def [symmetric] exit_ok_def exit_error_def split: TuiQuitAction.splits)
    from command_key_fresh [OF s(1) this] new s(2,3) show ?thesis by simp
  qed
qed

lemma inv_to_key:
  assumes "tui_inv cnt seen st" "and_then (tui_begin e i st) (tui_refresh e i) = TuiNext st1"
  shows "tui_inv cnt seen st1"
proof -
  have "ok_step cnt seen (and_then (tui_begin e i st) (tui_refresh e i))"
    by (intro outcome_and_then inv_begin inv_refresh assms(1))
  then show ?thesis using assms(2) by simp
qed

text \<open>C35: a restart shows nothing of the runs before, whether by its key or from edited settings. Whenever the handling of a key in a session
  starts a run, every reading, window and baseline on the screen is the one of an interface that was just started, with the streams of the
  configuration now in force, which is the one before or the edited one; the run has that configuration, and its clock starts when
  the run before had stopped.\<close>

theorem restart_shows_a_fresh_run:
  assumes "ClientConfig_validate c = Ok ()"
    and "run_tui_loop e is (tui_init e c f prefs palette disabled lock clock) = TuiNext st"
    and "and_then (tui_begin e i st) (tui_refresh e i) = TuiNext st1"
    and "tui_read_key e i st1 = TuiNext st' \<or> tui_read_key e i st1 = TuiContinue st'"
    and "length (filter starts_run (tl_effects st1)) < length (filter starts_run (tl_effects st'))"
  shows "ap_view (tl_app st') = fresh_view (fresh_streams (cl_streams (tl_config st')))
    \<and> ap_result (tl_app st') = None \<and> ap_error (tl_app st') = None \<and> ap_cancel_deadline (tl_app st') = None
    \<and> ap_pause_started_at (tl_app st') = None \<and> ap_server_version (tl_app st') = None
    \<and> ap_state (tl_app st') = AppRunning \<and> ap_start_time (tl_app st') = Some (tn_restart_now i)
    \<and> tl_run st' = Some (tui_run_config (tl_config st'))
    \<and> (tl_config st' = tl_config st1 \<or> (\<exists>p. tl_config st' = edit_config p (tl_config st1)))
    \<and> tl_fallback_bytes st' = 0 \<and> tl_fallback_elapsed_ms st' = 0 \<and> \<not> tl_print_json st'"
proof -
  have "tui_inv False (reported is) st" using inv_loop [OF assms(1), of False "is" e f prefs palette disabled lock clock] assms(2) by simp
  from read_key_fresh [OF inv_to_key [OF this assms(3)] assms(4)] assms(5) show ?thesis
    unfolding fresh_run_def runs_started_def by blast
qed

text \<open>C36: a result that is not marked partial is one the server reported for a run of this session; a partial one is the summary of
  bytes that did arrive, warned about and never written to the file. What the file gets is the server's result.\<close>

theorem tui_saves_only_server_results:
  assumes "ClientConfig_validate c = Ok ()"
    and "run_tui_loop e is (tui_init e c f prefs palette disabled lock clock) = TuiExit (TuiOk res prefs' print_json partial) st"
  shows "(\<not> partial \<longrightarrow> (\<forall>r. res = Some r \<longrightarrow> (\<exists>i\<in>set is. tn_finished i = Some (Ok r))))
    \<and> (partial \<longrightarrow> (\<forall>r. res = Some r \<longrightarrow> (\<exists>bytes ms. 0 < bytes \<and> r = build_fallback_result bytes ms))
         \<and> tu_saved (run_client_tui json_pretty save file (tl_config st) (TuiOk res prefs' print_json partial)) = None
         \<and> (res \<noteq> None \<longrightarrow> tu_warned (run_client_tui json_pretty save file (tl_config st) (TuiOk res prefs' print_json partial))))
    \<and> (\<forall>path content. tu_saved (run_client_tui json_pretty save file (tl_config st) (TuiOk res prefs' print_json partial)) = Some (path, content)
         \<longrightarrow> file = Some path \<and> (\<exists>r. \<exists>i\<in>set is. tn_finished i = Some (Ok r) \<and> json_pretty r = Some content))"
proof -
  have "exit_inv (reported is) (TuiOk res prefs' print_json partial) st"
    using inv_loop [OF assms(1), of False "is" e f prefs palette disabled lock clock] assms(2) by simp
  then have part: "partial \<Longrightarrow> \<forall>r. res = Some r \<longrightarrow> (\<exists>bytes ms. 0 < bytes \<and> r = build_fallback_result bytes ms)"
    and full: "\<not> partial \<Longrightarrow> \<forall>r. res = Some r \<longrightarrow> (\<exists>i\<in>set is. tn_finished i = Some (Ok r))"
    by (auto simp: exit_inv_def reported_def)
  show ?thesis
    using part full
    by (cases res; cases partial) (auto simp: run_client_tui_def split: option.splits sum.splits if_splits)
qed

text \<open>C37: a request to quit a running test starts a cancel whose deadline is five seconds away, and unless the user starts another run the loop has ended at
  the first iteration after that, whatever the server does and whatever other keys are pressed.\<close>

theorem quit_is_bounded:
  assumes "\<not> settings_captures_key (sg_visible (ap_settings (tl_app st))) k"
    and "tui_quit_action k (ap_state (tl_app st)) (ap_cancel_deadline (tl_app st) \<noteq> None) (tl_run st \<noteq> None) = QuitStartCancel"
    and "\<forall>j\<in>set is. \<forall>k'. tn_key j = Some k' \<longrightarrow> ke_code k' \<noteq> KChar CHR ''r'' \<and> ke_code k' \<noteq> KEnter"
    and "\<exists>j\<in>set is. tn_key_now i + 5000000000 < tn_now j"
  shows "\<exists>st'. tui_key e i k st = TuiContinue st' \<and> CancelSent \<in> set (tl_effects st')
    \<and> (\<exists>x st''. run_tui_loop e is st' = TuiExit x st'')"
proof -
  obtain c where run: "tl_run st = Some c" using assms(2) by (auto simp: tui_quit_action_def Let_def split: if_splits)
  let ?st = "if ap_show_help (tl_app st)
    then on_app (\<lambda>a. a\<lparr>ap_help_scroll := help_scroll (ap_help_scroll a) (tn_size i) False (Some (ke_code k))\<rparr>) st else st"
  have same: "ap_state (tl_app ?st) = ap_state (tl_app st)" "ap_cancel_deadline (tl_app ?st) = ap_cancel_deadline (tl_app st)"
    "tl_run ?st = tl_run st" by (simp_all add: on_app_def)
  have key: "tui_key e i k st = TuiContinue (start_cancel e i ?st)"
    unfolding tui_key_def if_not_P [OF assms(1)] using assms(2) by (simp add: Let_def on_app_def)
  have "waits (tn_key_now i + 5000000000) (start_cancel e i ?st)" "CancelSent \<in> set (tl_effects (start_cancel e i ?st))"
    using run by (simp_all add: start_cancel_def Let_def waits_def tui_log_line_def on_app_def tui_frame TUI_CANCEL_WAIT_def effects_def)
  then show ?thesis
    using key waits_end [of _ _ "is" e] assms(3,4) by (auto simp: no_restart_def)
qed

lemma share_of_hundred: "a \<le> b \<Longrightarrow> 0 \<le> real a / real b * 100 \<and> real a / real b * 100 \<le> 100"
  by (cases "b = 0") (simp_all add: divide_le_eq)

text \<open>C38: as long as the counts of the receivers stay below \<open>2 ^ 64\<close> packets, the bars of the sparkline show every packet at
  most once, whether a bar comes from a report or from feedback while reports are held up, and no bar shows more lost packets than
  packets.\<close>

theorem bars_count_packets_once:
  assumes "ClientConfig_validate c = Ok ()" "\<forall>i\<in>set is. countable_input i"
    and "run_tui_loop e is (tui_init e c f prefs palette disabled lock clock) = TuiNext st"
  shows "let v = ap_view (tl_app st) in
    sum_list (map (\<lambda>t. unat (th_interval_packets t)) (rv_bars v))
      \<le> (case rv_latest_udp_progress v of None \<Rightarrow> 0 | Some p \<Rightarrow> unat (up_packets_received p) + unat (up_packets_lost p))
    \<and> (\<forall>t\<in>set (rv_bars v). th_lost_packets t \<le> th_interval_packets t
         \<and> (\<forall>rate. loss_rate_percent t = Some rate \<longrightarrow> 0 \<le> rate \<and> rate \<le> 100))"
proof -
  have "tui_inv True (reported is) st" using inv_loop [of c True "is" e f prefs palette disabled lock clock] assms by simp
  then have b: "bars_inv (ap_view (tl_app st))" by (simp add: tui_inv_def app_inv_def)
  let ?v = "ap_view (tl_app st)"
  have "packets_shown ?v \<le> (case rv_latest_udp_progress ?v of None \<Rightarrow> 0 | Some p \<Rightarrow> progress_total p)"
  proof (cases "rv_prev_udp_progress ?v")
    case None
    then show ?thesis using b by (auto simp: bars_inv_def)
  next
    case (Some p)
    then obtain l where l: "rv_latest_udp_progress ?v = Some l" "is_at_least_as_fresh_as l p" "countable_progress l" "countable_progress p"
      using b by (auto simp: bars_inv_def)
    then show ?thesis using b Some fresh_total(1) [OF l(2-4)] by (auto simp: bars_inv_def)
  qed
  moreover have "0 \<le> rate \<and> rate \<le> 100" if "t \<in> set (rv_bars ?v)" "loss_rate_percent t = Some rate" for t rate
  proof -
    have le: "unat (th_lost_packets t) \<le> unat (th_interval_packets t)" using that(1) b by (auto simp: bars_inv_def word_le_nat_alt)
    have "rate = real (unat (th_lost_packets t)) / real (unat (th_interval_packets t)) * 100"
      using that(2) by (auto simp: loss_rate_percent_def split: if_splits)
    then show ?thesis using share_of_hundred [OF le] by simp
  qed
  ultimately show ?thesis using b by (auto simp: Let_def bars_inv_def packets_shown_def progress_total_def split: option.splits)
qed

text \<open>What only the command line checks: a range of local ports that it rejects is reached by editing the streams.\<close>

lemma settings_exceed_port_range:
  fixes edited defines "edited \<equiv> \<lparr>ed_streams = 128, ed_protocol = Tcp, ed_duration_secs = 10, ed_direction = Upload, ed_bitrate = None\<rparr>"
  shows "merge_cport (Some 65500) Tcp 1 DualStack None = Ok (Some (SockV4 0 65500))"
    "merge_cport (Some 65500) Tcp 128 DualStack None = Err CportRange"
    "ClientConfig_validate (tui_run_config (edit_config edited (ClientConfig_default\<lparr>cl_bind_addr := Some (SockV4 0 65500)\<rparr>))) = Ok ()"
    "cl_streams (tui_run_config (edit_config edited (ClientConfig_default\<lparr>cl_bind_addr := Some (SockV4 0 65500)\<rparr>))) = 128"
    "cl_sequential_ports (tui_run_config (edit_config edited (ClientConfig_default\<lparr>cl_bind_addr := Some (SockV4 0 65500)\<rparr>)))"
  by (simp_all add: edited_def merge_cport_def tui_run_config_def edit_config_def ClientConfig_default_def
      ClientConfig_validate_def as_secs_def Let_def)

text \<open>A duration that is not a whole number of seconds, which the command line accepts, is cut by a restart with edited settings although only
  the streams were edited.\<close>

lemma restart_cuts_duration:
  "let app = with_theme_name clock host port protocol direction 1 1500000000 bitrate f palette;
       s = value_next (switch_tab (settings_toggle (ap_settings app)))
   in test_params_dirty s \<and> ed_duration_secs (sg_params s) = ed_duration_secs (sg_original s)
      \<and> cl_duration (fst (apply_tui_settings c (app\<lparr>ap_settings := s\<rparr>))) = 1000000000"
  by (simp add: with_theme_name_def App_new_def SettingsState_new_def settings_toggle_def switch_tab_def SettingsCategory_next_def value_next_def
      Let_def test_params_dirty_def apply_tui_settings_def as_secs_def saturating_add_def min_def)

section \<open>Samples\<close>

definition sample_tui_env :: tui_env where
  "sample_tui_env = \<lparr>tv_calendar = (\<lambda>_. ''t''), tv_hash = (\<lambda>_. 0), tv_gateway = None, tv_show_f64 = (\<lambda>_. ''0''), tv_base64 = (\<lambda>s. s)\<rparr>"

definition sample_tui_start :: tui_state where
  "sample_tui_start = tui_init sample_tui_env ClientConfig_default Relative Prefs_default ''nord'' True None (0, 0)"

definition sample_tui_input :: tui_input where
  "sample_tui_input = \<lparr>tn_now = 1, tn_outcomes = [], tn_update = UpdateEmpty,
     tn_client = \<lparr>cx_cancel_request = None, cx_pause_request = None, cx_server_supports_pause = None, cx_server_version = None\<rparr>,
     tn_size = \<lparr>tz_width = 80, tz_height = 24\<rparr>, tn_failure = None, tn_key = None, tn_key_now = 1, tn_stopped = None,
     tn_restart_now = 1, tn_progress = [], tn_finished = None, tn_end_now = 1\<rparr>"

definition sample_progress :: TestProgress where
  "sample_progress = (feedback_progress 1000)\<lparr>tp_total_bytes := 1000, tp_udp_feedback_only := False,
     tp_udp_progress := Some \<lparr>up_packets_received = 9, up_packets_lost = 1\<rparr>\<rparr>"

lemma default_config_valid: "ClientConfig_validate ClientConfig_default = Ok ()"
  by (simp add: ClientConfig_validate_def ClientConfig_default_def as_secs_def)

text \<open>A state in which the loop has nothing to wait for.\<close>

definition calm :: "tui_state \<Rightarrow> bool" where
  "calm st \<longleftrightarrow> ap_cancel_deadline (tl_app st) = None \<and> \<not> ap_show_help (tl_app st) \<and> \<not> sg_visible (ap_settings (tl_app st))"

lemma sample_start_fields:
  "calm sample_tui_start" "ap_state (tl_app sample_tui_start) = AppRunning"
  "tl_run sample_tui_start = Some (tui_run_config ClientConfig_default)" "tl_config sample_tui_start = ClientConfig_default"
  "tl_effects sample_tui_start = [RunStarted (tui_run_config ClientConfig_default)]"
  by (simp_all add: calm_def sample_tui_start_def tui_init_def start_run_def Let_def on_app_def effects_def on_connected_def log_tui_quic_ignored_options_def
      with_theme_name_def App_new_def SettingsState_new_def sample_tui_env_def tui_frame)

definition still :: "tui_state \<Rightarrow> tui_state \<Rightarrow> bool" where
  "still st st' \<longleftrightarrow> ap_cancel_deadline (tl_app st') = ap_cancel_deadline (tl_app st) \<and> ap_show_help (tl_app st') = ap_show_help (tl_app st)
     \<and> sg_visible (ap_settings (tl_app st')) = sg_visible (ap_settings (tl_app st)) \<and> ap_state (tl_app st') = ap_state (tl_app st)
     \<and> tl_run st' = tl_run st \<and> ap_result (tl_app st') = ap_result (tl_app st) \<and> tl_print_json st' = tl_print_json st"

lemma still_refl: "still st st" by (simp add: still_def)

lemma still_tick: "still st s \<Longrightarrow> still st (on_app (tick now) s)"
  by (simp add: still_def on_app_def tick_def split: option.split)

lemma still_fields:
  "still st (s\<lparr>tl_prefs := p\<rparr>) = still st s" "still st (s\<lparr>tl_last_drawn := l\<rparr>) = still st s"
  "still st (on_app (\<lambda>a. a\<lparr>ap_help_scroll := g a\<rparr>) s) = still st s"
  by (simp_all add: still_def on_app_def)

lemma still_draw:
  assumes "still st s" "tn_failure i = None"
  shows "\<exists>st'. tui_draw e i s = TuiNext st' \<and> still st st'"
  unfolding tui_draw_def
  by (rule let_rule [where P = "still st" and Q = "\<lambda>r. \<exists>st'. r = TuiNext st' \<and> still st st'"], simp add: still_fields assms,
      simp add: Let_def still_fields assms)

lemma still_refresh:
  assumes "still st s" "tn_failure i = None" "tn_update i = UpdateEmpty" "cx_server_version (tn_client i) = None"
  shows "\<exists>st'. tui_refresh e i s = TuiNext st' \<and> still st st'"
  unfolding tui_refresh_def poll_update_check_def
  by (rule let_rule [where P = "still st" and Q = "\<lambda>r. \<exists>st'. r = TuiNext st' \<and> still st st'"], simp add: assms,
      rule let_rule [where P = "still st" and Q = "\<lambda>r. \<exists>st'. r = TuiNext st' \<and> still st st'"], simp add: still_fields,
      rule let_rule [where P = "still st" and Q = "\<lambda>r. \<exists>st'. r = TuiNext st' \<and> still st st'"], erule still_tick,
      rule let_rule [where P = "still st" and Q = "\<lambda>r. \<exists>st'. r = TuiNext st' \<and> still st st'"], simp add: assms)
    (simp add: assms still_draw)

lemma sample_refresh:
  assumes "calm st" "tn_outcomes i = []" "tn_failure i = None" "tn_update i = UpdateEmpty" "cx_server_version (tn_client i) = None"
  shows "\<exists>st'. and_then (tui_begin e i st) (tui_refresh e i) = TuiNext st' \<and> still st st'"
proof -
  have "tui_begin e i st = TuiNext (st\<lparr>tl_prefs := remember_tui_theme (tl_prefs st) (tl_app st)\<rparr>)"
    using assms(1,2) by (simp add: tui_begin_def calm_def)
  then show ?thesis
    using still_refresh [of st "st\<lparr>tl_prefs := remember_tui_theme (tl_prefs st) (tl_app st)\<rparr>" i e] assms(3-)
    by (auto simp: still_fields still_refl and_then_def)
qed

definition sample_server_result :: TestResult where "sample_server_result = build_fallback_result 8 1000"

definition finished_input :: tui_input where "finished_input = sample_tui_input\<lparr>tn_finished := Some (Ok sample_server_result)\<rparr>"

definition escape_input :: tui_input where "escape_input = sample_tui_input\<lparr>tn_key := Some \<lparr>ke_code = KEsc, ke_control = False\<rparr>\<rparr>"

definition progress_input :: tui_input where "progress_input = sample_tui_input\<lparr>tn_progress := [(1, sample_progress)]\<rparr>"

lemma input_fields:
  "tn_outcomes i = [] \<and> tn_failure i = None \<and> tn_update i = UpdateEmpty \<and> cx_server_version (tn_client i) = None"
  if "i \<in> {finished_input, escape_input, progress_input}"
  using that by (auto simp: finished_input_def escape_input_def progress_input_def sample_tui_input_def)

lemma on_result_fields:
  "ap_state (on_result cal now r a) = AppCompleted" "ap_show_help (on_result cal now r a) = ap_show_help a"
  "ap_settings (on_result cal now r a) = ap_settings a"
  by (simp_all add: on_result_def Let_def tui_frame)

lemma sample_finished:
  "\<exists>st. tui_iteration sample_tui_env finished_input sample_tui_start = TuiNext st \<and> calm st \<and> ap_state (tl_app st) = AppCompleted
     \<and> ap_result (tl_app st) = Some sample_server_result \<and> tl_run st = None"
proof -
  obtain s where s: "and_then (tui_begin sample_tui_env finished_input sample_tui_start) (tui_refresh sample_tui_env finished_input) = TuiNext s"
    "still sample_tui_start s"
    using sample_refresh [OF sample_start_fields(1), of finished_input sample_tui_env] input_fields [of finished_input] by auto
  have run: "tl_run s = Some (tui_run_config ClientConfig_default)" "ap_cancel_deadline (tl_app s) = None"
    "\<not> ap_show_help (tl_app s)" "\<not> sg_visible (ap_settings (tl_app s))"
    using s(2) sample_start_fields by (auto simp: still_def calm_def)
  show ?thesis
    unfolding tui_iteration_def s(1)
    using run
    by (simp add: and_then_def tui_read_key_def tui_progress_def tui_finish_def finished_input_def sample_tui_input_def
        metrics_queue_def sample_tui_env_def Let_def on_app_def calm_def deadline_fields result_fields on_result_fields)
qed

lemma sample_escape:
  assumes "calm st" "ap_state (tl_app st) = AppCompleted" "ap_result (tl_app st) = Some r" "tl_run st = None"
  shows "\<exists>prefs json st'. tui_iteration e escape_input st = TuiExit (TuiOk (Some r) prefs json False) st'"
proof -
  obtain s where s: "and_then (tui_begin e escape_input st) (tui_refresh e escape_input) = TuiNext s" "still st s"
    using sample_refresh [OF assms(1), of escape_input e] input_fields [of escape_input] by auto
  have run: "ap_state (tl_app s) = AppCompleted" "ap_result (tl_app s) = Some r" "\<not> ap_show_help (tl_app s)"
    "\<not> sg_visible (ap_settings (tl_app s))"
    using s(2) assms by (auto simp: still_def calm_def)
  show ?thesis
    unfolding tui_iteration_def s(1)
    using run
    by (simp add: and_then_def tui_read_key_def escape_input_def sample_tui_input_def tui_key_def settings_captures_key_def Let_def
        tui_quit_action_def is_ctrl_c_def tui_command_key_def exit_ok_def)
qed

lemma sample_progressed: "\<exists>st. run_tui_loop sample_tui_env [progress_input] sample_tui_start = TuiNext st"
proof -
  obtain s where s: "and_then (tui_begin sample_tui_env progress_input sample_tui_start) (tui_refresh sample_tui_env progress_input) = TuiNext s"
    "still sample_tui_start s"
    using sample_refresh [OF sample_start_fields(1), of progress_input sample_tui_env] input_fields [of progress_input] by auto
  have "\<exists>st. tui_iteration sample_tui_env progress_input sample_tui_start = TuiNext st"
    unfolding tui_iteration_def s(1)
    by (simp add: and_then_def tui_read_key_def tui_finish_def progress_input_def sample_tui_input_def split: option.split)
  then show ?thesis by auto
qed

theorem tui_runs_are_valid_witness:
  "RunStarted (tui_run_config ClientConfig_default) \<in> set (tl_effects (outcome_state (run_tui_loop sample_tui_env [] sample_tui_start)))
   \<and> ClientConfig_validate (tui_run_config ClientConfig_default) = Ok ()"
  using tui_runs_are_valid [OF default_config_valid, of sample_tui_env "[]" Relative Prefs_default "''nord''" True None "(0, 0)"]
  by (simp add: Let_def sample_tui_start_def [symmetric] outcome_state_def sample_start_fields)

definition restart_input :: tui_input where
  "restart_input = sample_tui_input\<lparr>tn_key := Some \<lparr>ke_code = KChar CHR ''r'', ke_control = False\<rparr>, tn_stopped := Some (Err ''reset'')\<rparr>"

lemma restart_input_fields:
  "tn_failure restart_input = None" "tn_key restart_input = Some \<lparr>ke_code = KChar CHR ''r'', ke_control = False\<rparr>"
  "tn_stopped restart_input = Some (Err ''reset'')" "tn_restart_now restart_input = 1"
  "tn_outcomes restart_input = []" "tn_update restart_input = UpdateEmpty" "cx_server_version (tn_client restart_input) = None"
  by (simp_all add: restart_input_def sample_tui_input_def)

text \<open>The key, from a state with a run going on.\<close>

lemma restart_key_step:
  assumes "calm st" "ap_state (tl_app st) = AppRunning" "tl_run st = Some c"
  shows "\<exists>s. tui_read_key e restart_input st = TuiNext s \<and> runs_started st < runs_started s"
  using assms
  by (simp add: tui_read_key_def restart_input_fields tui_key_def settings_captures_key_def calm_def is_ctrl_c_def Let_def tui_quit_action_def
      tui_command_key_def restart_tui_run_def forget_run_def start_run_def runs_started_def on_app_def effects_def tui_log_line_def)

theorem restart_shows_a_fresh_run_witness:
  "\<exists>st1 st'. and_then (tui_begin sample_tui_env restart_input sample_tui_start) (tui_refresh sample_tui_env restart_input) = TuiNext st1
    \<and> tui_read_key sample_tui_env restart_input st1 = TuiNext st'
    \<and> ap_view (tl_app st') = fresh_view (fresh_streams (cl_streams (tl_config st'))) \<and> ap_start_time (tl_app st') = Some 1"
proof -
  have loop: "run_tui_loop sample_tui_env [] (tui_init sample_tui_env ClientConfig_default Relative Prefs_default ''nord'' True None (0, 0))
      = TuiNext sample_tui_start" by (simp add: sample_tui_start_def)
  obtain st1 where st1: "and_then (tui_begin sample_tui_env restart_input sample_tui_start) (tui_refresh sample_tui_env restart_input) = TuiNext st1"
      "still sample_tui_start st1"
    using sample_refresh [OF sample_start_fields(1), of restart_input] restart_input_fields by blast
  have "calm st1" "ap_state (tl_app st1) = AppRunning" "tl_run st1 = Some (tui_run_config ClientConfig_default)"
    using st1(2) sample_start_fields by (simp_all add: still_def calm_def)
  from restart_key_step [OF this] obtain st' where
    st': "tui_read_key sample_tui_env restart_input st1 = TuiNext st'" "runs_started st1 < runs_started st'" by blast
  from restart_shows_a_fresh_run [OF default_config_valid loop st1(1) disjI1 [OF st'(1)] st'(2) [unfolded runs_started_def]]
  show ?thesis using st1(1) st'(1) restart_input_fields(4) by auto
qed

theorem tui_saves_only_server_results_witness:
  "\<exists>res prefs json st. run_tui_loop sample_tui_env [finished_input, escape_input] sample_tui_start = TuiExit (TuiOk res prefs json False) st
     \<and> (\<exists>i\<in>{finished_input, escape_input}. tn_finished i = map_option Inr res) \<and> res \<noteq> None"
proof -
  obtain st where st: "tui_iteration sample_tui_env finished_input sample_tui_start = TuiNext st" "calm st" "ap_state (tl_app st) = AppCompleted"
    "ap_result (tl_app st) = Some sample_server_result" "tl_run st = None"
    using sample_finished by blast
  obtain prefs json st' where exit: "run_tui_loop sample_tui_env [finished_input, escape_input] sample_tui_start
      = TuiExit (TuiOk (Some sample_server_result) prefs json False) st'"
    using sample_escape [OF st(2-), of sample_tui_env] st(1) by auto
  show ?thesis
    using tui_saves_only_server_results [OF default_config_valid exit [unfolded sample_tui_start_def]] exit by auto
qed

theorem quit_is_bounded_witness:
  "\<exists>st' x st''. tui_key sample_tui_env sample_tui_input \<lparr>ke_code = KChar CHR ''q'', ke_control = False\<rparr> sample_tui_start = TuiContinue st'
     \<and> run_tui_loop sample_tui_env [sample_tui_input\<lparr>tn_now := 5000000002\<rparr>] st' = TuiExit x st''"
proof -
  let ?k = "\<lparr>ke_code = KChar CHR ''q'', ke_control = False\<rparr>" and ?is = "[sample_tui_input\<lparr>tn_now := 5000000002\<rparr>]"
  have "\<not> settings_captures_key (sg_visible (ap_settings (tl_app sample_tui_start))) ?k"
    "tui_quit_action ?k (ap_state (tl_app sample_tui_start)) (ap_cancel_deadline (tl_app sample_tui_start) \<noteq> None) (tl_run sample_tui_start \<noteq> None)
       = QuitStartCancel"
    using sample_start_fields by (simp_all add: settings_captures_key_def tui_quit_action_def calm_def)
  from quit_is_bounded [OF this, of ?is sample_tui_input sample_tui_env]
  show ?thesis by (auto simp: sample_tui_input_def)
qed

theorem bars_count_packets_once_witness:
  "\<exists>st. run_tui_loop sample_tui_env [progress_input] sample_tui_start = TuiNext st
     \<and> sum_list (map (\<lambda>t. unat (th_interval_packets t)) (rv_bars (ap_view (tl_app st))))
         \<le> (case rv_latest_udp_progress (ap_view (tl_app st)) of None \<Rightarrow> 0 | Some p \<Rightarrow> unat (up_packets_received p) + unat (up_packets_lost p))"
proof -
  obtain st where st: "run_tui_loop sample_tui_env [progress_input] sample_tui_start = TuiNext st" using sample_progressed by blast
  have "\<forall>i\<in>set [progress_input]. countable_input i"
    by (simp add: countable_input_def progress_input_def sample_tui_input_def countable_update_def sample_progress_def
        countable_progress_def progress_total_def)
  from bars_count_packets_once [OF default_config_valid this st [unfolded sample_tui_start_def]]
  show ?thesis using st by (auto simp: Let_def)
qed

end
