(* ===== verification/Tui_View_Correct.thy ===== *)
theory Tui_View_Correct
  imports Tui_View
begin

text \<open>
  What is derived from the state of the terminal interface stays inside the screen, and what is hashed for a frame determines everything
  the frame shows, so an unchanged fingerprint never hides a change unless the hash function itself collides.
\<close>

section \<open>The fingerprint reads back\<close>

text \<open>\<open>decodes h\<close>: what is hashed for a value ends where the next one begins.\<close>

definition decodes :: "('a \<Rightarrow> hash_item list) \<Rightarrow> bool" where
  "decodes h \<longleftrightarrow> (\<forall>x y r s. h x @ r = h y @ s \<longleftrightarrow> x = y \<and> r = s)"

lemma decodesI: "(\<And>x y r s. h x @ r = h y @ s \<Longrightarrow> x = y \<and> r = s) \<Longrightarrow> decodes h"
  by (auto simp: decodes_def)

lemma decodes_simp: "decodes h \<Longrightarrow> h x @ r = h y @ s \<longleftrightarrow> x = y \<and> r = s"
  by (simp add: decodes_def)

lemma decodes_basic: "decodes hash_nat" "decodes hash_bool" "decodes hash_text" "decodes hash_float" "decodes hash_state"
  "decodes hash_protocol" "decodes hash_direction"
  by (auto simp: decodes_def hash_nat_def hash_bool_def hash_text_def hash_float_def hash_state_def hash_protocol_def hash_direction_def
      split: AppState.splits Protocol.Protocol.splits Protocol.Direction.splits)

lemma decodes_word: "decodes (\<lambda>w :: 'a :: len word. hash_nat (unat w))"
  by (auto simp: decodes_def decodes_simp [OF decodes_basic(1)] word_unat_eq_iff)

lemma decodes_option: "decodes h \<Longrightarrow> decodes (hash_option h)"
  by (rule decodesI) (auto simp: hash_option_def decodes_simp split: option.splits)

lemma concat_decodes:
  assumes "decodes h" "length xs = length ys" "concat (map h xs) @ r = concat (map h ys) @ s"
  shows "xs = ys \<and> r = s"
  using assms(2,3) by (induction xs ys rule: list_induct2) (simp_all add: decodes_simp [OF assms(1)])

lemma decodes_list: "decodes h \<Longrightarrow> decodes (hash_list h)"
  by (rule decodesI) (auto simp: hash_list_def dest: concat_decodes)

lemmas decode_simps = decodes_simp [OF decodes_basic(1)] decodes_simp [OF decodes_basic(2)] decodes_simp [OF decodes_basic(3)]
  decodes_simp [OF decodes_basic(4)] decodes_simp [OF decodes_basic(5)] decodes_simp [OF decodes_basic(6)]
  decodes_simp [OF decodes_basic(7)] decodes_simp [OF decodes_option [OF decodes_basic(1)]]
  decodes_simp [OF decodes_option [OF decodes_basic(3)]] decodes_simp [OF decodes_option [OF decodes_basic(4)]]
  decodes_simp [OF decodes_option [OF decodes_word]] decodes_simp [OF decodes_word]

lemma decodes_sample: "decodes hash_sample"
proof (rule decodesI)
  fix x y r s show "hash_sample x @ r = hash_sample y @ s \<Longrightarrow> x = y \<and> r = s"
    by (cases x; cases y) (simp add: hash_sample_def decode_simps word_unat_eq_iff)
qed

lemma decodes_log: "decodes hash_log"
proof (rule decodesI)
  fix x y r s show "hash_log x @ r = hash_log y @ s \<Longrightarrow> x = y \<and> r = s"
    by (cases x; cases y) (simp add: hash_log_def decode_simps)
qed

lemma decodes_edited: "decodes hash_edited"
proof (rule decodesI)
  fix x y r s show "hash_edited x @ r = hash_edited y @ s \<Longrightarrow> x = y \<and> r = s"
    by (cases x; cases y) (simp add: hash_edited_def decode_simps word_unat_eq_iff)
qed

lemma decodes_settings: "decodes hash_settings"
proof (rule decodesI)
  fix x y r s show "hash_settings x @ r = hash_settings y @ s \<Longrightarrow> x = y \<and> r = s"
    by (cases x; cases y) (auto simp: hash_settings_def decode_simps decodes_simp [OF decodes_edited]
        split: SettingsCategory.splits TimestampFormat.splits Units.splits)
qed

text \<open>A row of the streams is hashed without its bytes, which are not drawn.\<close>

lemma decodes_stream: "hash_stream d @ r = hash_stream d' @ s \<longleftrightarrow> d\<lparr>sd_bytes := 0\<rparr> = d'\<lparr>sd_bytes := 0\<rparr> \<and> r = s"
  by (cases d; cases d') (auto simp: hash_stream_def decode_simps word_unat_eq_iff)

lemma decodes_streams:
  "hash_list hash_stream ds @ r = hash_list hash_stream es @ s \<Longrightarrow>
     map (sd_bytes_update (\<lambda>_. 0)) ds = map (sd_bytes_update (\<lambda>_. 0)) es \<and> r = s"
proof -
  have "length ds = length es \<Longrightarrow> concat (map hash_stream ds) @ r = concat (map hash_stream es) @ s \<Longrightarrow>
      map (sd_bytes_update (\<lambda>_. 0)) ds = map (sd_bytes_update (\<lambda>_. 0)) es \<and> r = s"
    by (induction ds es rule: list_induct2) (simp_all add: decodes_stream)
  then show "hash_list hash_stream ds @ r = hash_list hash_stream es @ s \<Longrightarrow>
     map (sd_bytes_update (\<lambda>_. 0)) ds = map (sd_bytes_update (\<lambda>_. 0)) es \<and> r = s"
    by (auto simp: hash_list_def)
qed

lemma hash_udp_decodes:
  "hash_udp a @ r = hash_udp b @ s \<longleftrightarrow>
     UdpDirectionState_lost_percent a = UdpDirectionState_lost_percent b \<and> ud_jitter_ms a = ud_jitter_ms b \<and> r = s"
  by (simp add: hash_udp_def decode_simps)

definition same_drawn :: "run_view \<Rightarrow> run_view \<Rightarrow> bool" where
  "same_drawn v w \<longleftrightarrow>
     rv_total_bytes v = rv_total_bytes w \<and> rv_current_mbps v = rv_current_mbps w \<and> rv_bars v = rv_bars w
     \<and> rv_jitters v = rv_jitters w \<and> map (sd_bytes_update (\<lambda>_. 0)) (rv_streams v) = map (sd_bytes_update (\<lambda>_. 0)) (rv_streams w)
     \<and> rv_send_mbps v = rv_send_mbps w \<and> rv_recv_mbps v = rv_recv_mbps w \<and> rv_retransmits v = rv_retransmits w
     \<and> rv_rtt_us v = rv_rtt_us w \<and> rv_udp_jitter_ms v = rv_udp_jitter_ms w \<and> rv_udp_lost_percent v = rv_udp_lost_percent w
     \<and> UdpDirectionState_lost_percent (rv_udp_send v) = UdpDirectionState_lost_percent (rv_udp_send w)
     \<and> ud_jitter_ms (rv_udp_send v) = ud_jitter_ms (rv_udp_send w)
     \<and> UdpDirectionState_lost_percent (rv_udp_recv v) = UdpDirectionState_lost_percent (rv_udp_recv w)
     \<and> ud_jitter_ms (rv_udp_recv v) = ud_jitter_ms (rv_udp_recv w)"

lemma hash_view_decodes: "hash_view v @ r = hash_view w @ s \<Longrightarrow> same_drawn v w \<and> r = s"
  using decodes_streams [of "rv_streams v" _ "rv_streams w"]
  by (auto simp: hash_view_def same_drawn_def decode_simps hash_udp_decodes decodes_simp [OF decodes_list [OF decodes_sample]]
      decodes_simp [OF decodes_list [OF decodes_basic(4)]] word_unat_eq_iff dest!: decodes_streams)

text \<open>What a frame shows is determined by what is hashed for it: the size, the state, the readings, the seconds, the bar, the settings,
  the history and the notices.\<close>

lemma fingerprint_determines_frame:
  assumes "fingerprint_items sz now a = fingerprint_items sz' now' b"
  shows "tz_width sz = tz_width sz' \<and> tz_height sz = tz_height sz' \<and> ap_state a = ap_state b \<and> ap_host a = ap_host b \<and> ap_port a = ap_port b
    \<and> ap_protocol a = ap_protocol b \<and> ap_direction a = ap_direction b \<and> ap_streams_count a = ap_streams_count b
    \<and> ap_duration a = ap_duration b \<and> ap_byte_budget a = ap_byte_budget b
    \<and> as_secs (rv_elapsed (ap_view a)) = as_secs (rv_elapsed (ap_view b))
    \<and> progress_bar_cells a (saturating_sub (tz_width sz) 2) = progress_bar_cells b (saturating_sub (tz_width sz') 2)
    \<and> same_drawn (ap_view a) (ap_view b) \<and> ap_error a = ap_error b \<and> cancel_wait_secs now a = cancel_wait_secs now' b
    \<and> ap_show_help a = ap_show_help b \<and> ap_help_scroll a = ap_help_scroll b \<and> ap_show_streams a = ap_show_streams b
    \<and> ap_theme a = ap_theme b \<and> ap_settings a = ap_settings b \<and> ap_history a = ap_history b
    \<and> rv_average_mbps (ap_view a) = rv_average_mbps (ap_view b) \<and> ap_update_available a = ap_update_available b
    \<and> ap_server_version a = ap_server_version b"
proof -
  have end_version: "hash_option hash_text x = hash_option hash_text y \<Longrightarrow> x = y" for x y
    using decodes_simp [OF decodes_option [OF decodes_basic(3)], of x "[]" y "[]"] by simp
  show ?thesis
    using assms
    by (auto simp: fingerprint_items_def Let_def decode_simps decodes_simp [OF decodes_settings]
        decodes_simp [OF decodes_list [OF decodes_log]] prod_eq_iff word_unat_eq_iff
        dest!: hash_view_decodes end_version)
qed

section \<open>Inside the screen\<close>

lemma progress_bar_fits:
  "10 \<le> fst (progress_bar_cells a w) \<and> snd (progress_bar_cells a w) \<le> 8 * fst (progress_bar_cells a w)
    \<and> (unat w \<ge> 38 + length (bytes_to_human (rv_total_bytes (ap_view a))) + 1 \<longrightarrow>
        fst (progress_bar_cells a w) + 28 + length (bytes_to_human (rv_total_bytes (ap_view a))) + 1 = unat w)"
  by (auto simp: progress_bar_cells_def Let_def)

definition help_bound :: "terminal_size \<Rightarrow> bool \<Rightarrow> u16" where
  "help_bound sz server = saturating_sub (word_of_nat (length (help_rows (saturating_sub (min (tz_width sz) 40) 2) server)))
     (saturating_sub (min (tz_height sz) (if server then 8 else 16)) 2)"

text \<open>Paging never leaves the help text, and the keys for its ends reach them.\<close>

lemma help_scroll_stays_inside:
  "help_scroll scroll sz server key \<le> help_bound sz server"
  "help_scroll scroll sz server (Some KEnd) = help_bound sz server" "help_scroll scroll sz server (Some KHome) = 0"
  "help_scroll scroll sz server (Some KPageUp) \<le> scroll"
proof -
  have down: "saturating_sub x y \<le> x" for x y :: u16 by (simp add: word_le_nat_alt unat_saturating_sub)
  have "saturating_sub (min scroll x) y \<le> x \<and> saturating_sub (min scroll x) y \<le> scroll" for x y :: u16
    using down [of "min scroll x" y] by (meson min.cobounded1 min.cobounded2 order_trans)
  then show "help_scroll scroll sz server key \<le> help_bound sz server" "help_scroll scroll sz server (Some KPageUp) \<le> scroll"
    "help_scroll scroll sz server (Some KEnd) = help_bound sz server" "help_scroll scroll sz server (Some KHome) = 0"
    by (simp_all add: help_scroll_def help_bound_def Let_def split: option.split key_code.split)
qed

end
