(* ===== verification/Tui_Status.thy ===== *)
theory Tui_Status
  imports Tui_Loop
begin

text \<open>
  The status reports that the terminal interface sends to the terminal (\<open>src/tui/program_status.rs\<close>), and the dashboard of the server
  (\<open>src/tui/server.rs\<close> without its drawing, \<open>run_server_tui\<close> of \<open>src/main.rs\<close>). The arrows in a message are outside the code points
  that strings have here, so a message is a list of code points. Base64 is a parameter.
\<close>

section \<open>Reports\<close>

definition cps :: "string \<Rightarrow> nat list" where "cps s = map of_char s"

definition cp_is_control :: "nat \<Rightarrow> bool" where "cp_is_control c = (c < 32 \<or> (127 \<le> c \<and> c < 160))"

definition cp_is_whitespace :: "nat \<Rightarrow> bool" where
  "cp_is_whitespace c = ((9 \<le> c \<and> c \<le> 13) \<or> c \<in> {32, 133, 160, 5760, 8232, 8233, 8239, 8287, 12288} \<or> (8192 \<le> c \<and> c \<le> 8202))"

definition cp_len_utf8 :: "nat \<Rightarrow> nat" where
  "cp_len_utf8 c = (if c < 128 then 1 else if c < 2048 then 2 else if c < 65536 then 3 else 4)"

definition cp_bytes :: "nat list \<Rightarrow> nat" where "cp_bytes s = sum_list (map cp_len_utf8 s)"

text \<open>\<open>split_whitespace\<close>, \<open>join\<close> and the cut at the last character boundary within \<open>n\<close> bytes.\<close>

fun cp_words_from :: "nat list \<Rightarrow> nat list \<Rightarrow> nat list list" where
  "cp_words_from w [] = (if w = [] then [] else [w])"
| "cp_words_from w (c # cs) =
     (if cp_is_whitespace c then (if w = [] then [] else [w]) @ cp_words_from [] cs else cp_words_from (w @ [c]) cs)"

fun cp_join :: "nat list list \<Rightarrow> nat list" where
  "cp_join [] = []"
| "cp_join [w] = w"
| "cp_join (w # ws) = w @ [32] @ cp_join ws"

fun cp_truncate :: "nat \<Rightarrow> nat list \<Rightarrow> nat list" where
  "cp_truncate n [] = []"
| "cp_truncate n (c # cs) = (if cp_len_utf8 c \<le> n then c # cp_truncate (n - cp_len_utf8 c) cs else [])"

definition MSG_MAX_BYTES :: nat where "MSG_MAX_BYTES = 2048"
definition MIN_UPDATE_INTERVAL :: duration where "MIN_UPDATE_INTERVAL = 1000000000"

definition status_message :: "nat list \<Rightarrow> nat list" where
  "status_message msg =
     cp_truncate MSG_MAX_BYTES (cp_join (cp_words_from [] (map (\<lambda>c. if cp_is_control c then 32 else c) msg)))"

definition status_report :: "(nat list \<Rightarrow> string) \<Rightarrow> string \<Rightarrow> nat option \<Rightarrow> nat list option \<Rightarrow> string" where
  "status_report base64 state progress msg =
     CHR 0x1B # '']7501;state='' @ state @ '':app=xfr''
     @ (case progress of Some p \<Rightarrow> '':progress='' @ show_nat (min p 100) | None \<Rightarrow> [])
     @ (case msg of Some m \<Rightarrow> '':msg='' @ base64 (status_message m) | None \<Rightarrow> [])
     @ [CHR 0x1B, CHR 0x5C]"

section \<open>The status of the client\<close>

definition status_rate :: "App \<Rightarrow> f64 \<Rightarrow> nat list" where
  "status_rate app mbps =
     (let proto = cps (Protocol_display (ap_protocol app)); v = ap_view app; up = 8593; down = 8595
      in case ap_direction app of
           Upload \<Rightarrow> proto @ [32, up, 32] @ cps (mbps_to_human mbps)
         | Download \<Rightarrow> proto @ [32, down, 32] @ cps (mbps_to_human mbps)
         | Bidir \<Rightarrow>
             if 0 < rv_send_mbps v \<or> 0 < rv_recv_mbps v
             then proto @ [32, up, 32] @ cps (mbps_to_human (rv_send_mbps v)) @ cps '' / '' @ [down, 32] @ cps (mbps_to_human (rv_recv_mbps v))
             else proto @ [32, up, down, 32] @ cps (mbps_to_human mbps))"

definition client_status :: "App \<Rightarrow> string \<times> nat option \<times> nat list" where
  "client_status app =
     (let v = ap_view app;
          connecting = (ap_state app = AppConnecting
            \<or> (ap_state app = AppRunning \<and> ap_server_version app = None \<and> rv_bars v = []))
      in if connecting then (''working'', None, cps (''Connecting to '' @ host_port (ap_host app) (ap_port app)))
         else (case ap_state app of
                 AppPaused \<Rightarrow> (''idle'', None, cps ''Paused'')
               | AppCompleted \<Rightarrow>
                   (''done'', None,
                    status_rate app (rv_average_mbps v)
                    @ cps (if ap_protocol app \<noteq> Udp then '', '' @ show_nat (unat (rv_retransmits v)) @ '' retransmits''
                           else (case rv_udp_lost_percent v of Some loss \<Rightarrow> '', '' @ fmt_fixed 1 loss @ ''% loss'' | None \<Rightarrow> [])))
               | AppError \<Rightarrow> (''error'', None, cps (case ap_error app of Some e \<Rightarrow> e | None \<Rightarrow> []))
               | _ \<Rightarrow>
                   (let bounded = ((case ap_byte_budget app of Some b \<Rightarrow> 0 < b | None \<Rightarrow> False) \<or> \<not> is_infinite app)
                    in (''working'', if bounded then Some (min (nat \<lfloor>progress_percent app\<rfloor>) 255) else None,
                        status_rate app (rv_current_mbps v)))))"

section \<open>The reporter\<close>

record StatusReporter =
  rp_enabled :: bool
  rp_last :: "(string \<times> string \<times> instant) option"

definition StatusReporter_new :: "bool \<Rightarrow> StatusReporter" where
  "StatusReporter_new enabled = \<lparr>rp_enabled = enabled, rp_last = None\<rparr>"

text \<open>The reporter and what it writes.\<close>

definition reporter_update ::
  "(nat list \<Rightarrow> string) \<Rightarrow> instant \<Rightarrow> string \<Rightarrow> nat option \<Rightarrow> nat list option \<Rightarrow> StatusReporter \<Rightarrow> StatusReporter \<times> string" where
  "reporter_update base64 now state progress msg r =
     (if \<not> rp_enabled r then (r, [])
      else (let report = status_report base64 state progress msg
            in if (case rp_last r of
                     None \<Rightarrow> False
                   | Some (last_state, sent, sent_at) \<Rightarrow> sent = report \<or> (last_state = state \<and> now - sent_at < MIN_UPDATE_INTERVAL))
               then (r, [])
               else (r\<lparr>rp_last := Some (state, report, now)\<rparr>, report)))"

definition reporter_finish :: "(nat list \<Rightarrow> string) \<Rightarrow> StatusReporter \<Rightarrow> string" where
  "reporter_finish base64 r =
     (if rp_enabled r \<and> (case rp_last r of None \<Rightarrow> False | Some (state, _) \<Rightarrow> state \<noteq> ''done'' \<and> state \<noteq> ''error'')
      then status_report base64 ''clear'' None None else [])"

section \<open>The dashboard of the server\<close>

record ActiveTestInfo =
  ai_id :: string
  ai_client_ip :: IpAddr
  ai_protocol :: string
  ai_direction :: string
  ai_streams :: u8
  ai_started :: instant
  ai_duration_secs :: u32
  ai_bytes :: u64
  ai_throughput_mbps :: f64

datatype ServerEvent =
    TestStarted ActiveTestInfo | TestUpdated string u64 f64 | TestCompleted string u64 | TestFailed string u64
  | ConnectionBlocked | AuthFailure

definition BANDWIDTH_HISTORY :: nat where "BANDWIDTH_HISTORY = 60"

record ServerApp =
  va_active_tests :: "ActiveTestInfo list"
  va_total_tests :: u64
  va_failed_tests :: u64
  va_total_bytes :: u64
  va_bandwidth_history :: "f64 list"
  va_connections_blocked :: u64
  va_auth_failures :: u64
  va_start_time :: instant
  va_show_help :: bool
  va_help_scroll :: u16

definition ServerApp_new :: "instant \<Rightarrow> ServerApp" where
  "ServerApp_new now = \<lparr>va_active_tests = [], va_total_tests = 0, va_failed_tests = 0, va_total_bytes = 0,
     va_bandwidth_history = [], va_connections_blocked = 0, va_auth_failures = 0, va_start_time = now, va_show_help = False,
     va_help_scroll = 0\<rparr>"

definition add_test :: "ActiveTestInfo \<Rightarrow> ServerApp \<Rightarrow> ServerApp" where
  "add_test info a = a\<lparr>va_active_tests := va_active_tests a @ [info], va_total_tests := va_total_tests a + 1\<rparr>"

fun update_first :: "('a \<Rightarrow> bool) \<Rightarrow> ('a \<Rightarrow> 'a) \<Rightarrow> 'a list \<Rightarrow> 'a list" where
  "update_first P f [] = []"
| "update_first P f (x # xs) = (if P x then f x # xs else x # update_first P f xs)"

definition update_test :: "string \<Rightarrow> u64 \<Rightarrow> f64 \<Rightarrow> ServerApp \<Rightarrow> ServerApp" where
  "update_test i bytes mbps a =
     a\<lparr>va_active_tests := update_first (\<lambda>t. ai_id t = i) (\<lambda>t. t\<lparr>ai_bytes := bytes, ai_throughput_mbps := mbps\<rparr>) (va_active_tests a)\<rparr>"

definition remove_test :: "string \<Rightarrow> u64 \<Rightarrow> ServerApp \<Rightarrow> ServerApp" where
  "remove_test i bytes a =
     a\<lparr>va_active_tests := filter (\<lambda>t. ai_id t \<noteq> i) (va_active_tests a), va_total_bytes := va_total_bytes a + bytes\<rparr>"

definition fail_test :: "string \<Rightarrow> u64 \<Rightarrow> ServerApp \<Rightarrow> ServerApp" where
  "fail_test i bytes a =
     a\<lparr>va_active_tests := filter (\<lambda>t. ai_id t \<noteq> i) (va_active_tests a), va_failed_tests := va_failed_tests a + 1,
       va_total_bytes := va_total_bytes a + bytes\<rparr>"

definition record_blocked :: "ServerApp \<Rightarrow> ServerApp" where
  "record_blocked a = a\<lparr>va_connections_blocked := va_connections_blocked a + 1\<rparr>"

definition record_auth_failure :: "ServerApp \<Rightarrow> ServerApp" where
  "record_auth_failure a = a\<lparr>va_auth_failures := va_auth_failures a + 1\<rparr>"

definition current_bandwidth :: "ServerApp \<Rightarrow> f64" where
  "current_bandwidth a = sum_list (map ai_throughput_mbps (va_active_tests a))"

definition update_bandwidth :: "ServerApp \<Rightarrow> ServerApp" where
  "update_bandwidth a = a\<lparr>va_bandwidth_history := push_capped BANDWIDTH_HISTORY (current_bandwidth a) (va_bandwidth_history a)\<rparr>"

definition server_toggle_help :: "ServerApp \<Rightarrow> ServerApp" where
  "server_toggle_help a = a\<lparr>va_show_help := \<not> va_show_help a, va_help_scroll := 0\<rparr>"

definition server_event_step :: "ServerEvent \<Rightarrow> ServerApp \<Rightarrow> ServerApp" where
  "server_event_step ev a =
     (case ev of
        TestStarted info \<Rightarrow> add_test info a
      | TestUpdated i bytes mbps \<Rightarrow> update_test i bytes mbps a
      | TestCompleted i bytes \<Rightarrow> remove_test i bytes a
      | TestFailed i bytes \<Rightarrow> fail_test i bytes a
      | ConnectionBlocked \<Rightarrow> record_blocked a
      | AuthFailure \<Rightarrow> record_auth_failure a)"

definition hash_ip :: "(IpAddr \<Rightarrow> string) \<Rightarrow> IpAddr \<Rightarrow> hash_item list" where "hash_ip show_ip a = hash_text (show_ip a)"

definition hash_test :: "(IpAddr \<Rightarrow> string) \<Rightarrow> instant \<Rightarrow> ActiveTestInfo \<Rightarrow> hash_item list" where
  "hash_test show_ip now t = hash_ip show_ip (ai_client_ip t) @ hash_text (ai_protocol t) @ hash_text (ai_direction t)
     @ hash_nat (unat (ai_streams t)) @ hash_nat (as_secs (now - ai_started t)) @ hash_nat (unat (ai_duration_secs t))
     @ hash_float (ai_throughput_mbps t)"

definition server_fingerprint ::
  "(hash_item list \<Rightarrow> u64) \<Rightarrow> (IpAddr \<Rightarrow> string) \<Rightarrow> terminal_size \<Rightarrow> instant \<Rightarrow> ServerApp \<Rightarrow> u64" where
  "server_fingerprint hash show_ip sz now a =
     hash (hash_nat (unat (tz_width sz)) @ hash_nat (unat (tz_height sz)) @ hash_nat (as_secs (now - va_start_time a))
       @ hash_nat (unat (va_total_tests a)) @ hash_nat (unat (va_failed_tests a)) @ hash_nat (unat (va_connections_blocked a))
       @ hash_nat (unat (va_auth_failures a)) @ hash_bool (va_show_help a) @ hash_nat (unat (va_help_scroll a))
       @ hash_list (hash_test show_ip now) (va_active_tests a))"

section \<open>The loop of the server's dashboard\<close>

text \<open>One iteration: the frame and the status, a key, the events that have arrived, and whether the server has ended.\<close>

record server_input =
  sn_now :: instant
  sn_size :: terminal_size
  sn_failure :: "terminal_failure option"
  sn_key :: "key_event option"
  sn_events :: "ServerEvent list"
  sn_ended :: bool

record server_tui =
  vt_app :: ServerApp
  vt_last_drawn :: "u64 option"
  vt_reporter :: StatusReporter
  vt_written :: string

datatype server_outcome = ServerNext server_tui | ServerQuit server_tui | ServerFails string

definition server_tui_init :: "instant \<Rightarrow> bool \<Rightarrow> server_tui" where
  "server_tui_init now is_terminal =
     \<lparr>vt_app = ServerApp_new now, vt_last_drawn = None, vt_reporter = StatusReporter_new is_terminal, vt_written = []\<rparr>"

definition server_status :: "(nat list \<Rightarrow> string) \<Rightarrow> instant \<Rightarrow> server_tui \<Rightarrow> server_tui" where
  "server_status base64 now st =
     (let n = length (va_active_tests (vt_app st));
          (r, out) = (if n = 0 then reporter_update base64 now ''idle'' None None (vt_reporter st)
                      else reporter_update base64 now ''working'' None (Some (cps (show_nat n @ '' active test(s)''))) (vt_reporter st))
      in st\<lparr>vt_reporter := r, vt_written := vt_written st @ out\<rparr>)"

definition server_key :: "terminal_size \<Rightarrow> key_event \<Rightarrow> ServerApp \<Rightarrow> ServerApp" where
  "server_key sz k a =
     (let a = (if va_show_help a then a\<lparr>va_help_scroll := help_scroll (va_help_scroll a) sz True (Some (ke_code k))\<rparr> else a)
      in if ke_code k = KChar CHR ''?'' \<or> ke_code k = KF 1 then server_toggle_help a
         else if ke_code k = KEsc \<and> va_show_help a then a\<lparr>va_show_help := False\<rparr>
         else a)"

text \<open>What fails, of the calls to the terminal that an iteration makes: its size, a frame if one is drawn, a key (or the size again for
  a key in the help).\<close>

fun server_terminal_fails :: "terminal_failure option \<Rightarrow> bool \<Rightarrow> string option" where
  "server_terminal_fails (Some (SizeFails m)) redraw = Some m"
| "server_terminal_fails (Some (DrawFails m)) redraw = (if redraw then Some m else None)"
| "server_terminal_fails (Some (KeyFails m)) redraw = Some m"
| "server_terminal_fails f redraw = None"

definition server_tui_iteration ::
  "(hash_item list \<Rightarrow> u64) \<Rightarrow> (IpAddr \<Rightarrow> string) \<Rightarrow> (nat list \<Rightarrow> string) \<Rightarrow> server_input \<Rightarrow> server_tui \<Rightarrow> server_outcome" where
  "server_tui_iteration hash show_ip base64 i st =
     (let a = vt_app st;
          a = (if va_show_help a then a\<lparr>va_help_scroll := help_scroll (va_help_scroll a) (sn_size i) True None\<rparr> else a);
          fingerprint = server_fingerprint hash show_ip (sn_size i) (sn_now i) a;
          redraw = (vt_last_drawn st \<noteq> Some fingerprint);
          st = server_status base64 (sn_now i) (st\<lparr>vt_app := a, vt_last_drawn := Some fingerprint\<rparr>)
      in case server_terminal_fails (sn_failure i) redraw of
           Some m \<Rightarrow> ServerFails m
         | None \<Rightarrow>
           if (case sn_key i of Some k \<Rightarrow> server_tui_quit_key k | None \<Rightarrow> False) then ServerQuit st
           else (let a = (case sn_key i of Some k \<Rightarrow> server_key (sn_size i) k (vt_app st) | None \<Rightarrow> vt_app st);
                     st = st\<lparr>vt_app := fold server_event_step (sn_events i) a\<rparr>
                 in if sn_ended i then ServerQuit st else ServerNext st))"

fun run_server_tui ::
  "(hash_item list \<Rightarrow> u64) \<Rightarrow> (IpAddr \<Rightarrow> string) \<Rightarrow> (nat list \<Rightarrow> string) \<Rightarrow> server_input list \<Rightarrow> server_tui \<Rightarrow> server_outcome" where
  "run_server_tui hash show_ip base64 [] st = ServerNext st"
| "run_server_tui hash show_ip base64 (i # is) st =
     (case server_tui_iteration hash show_ip base64 i st of
        ServerNext st' \<Rightarrow> run_server_tui hash show_ip base64 is st'
      | r \<Rightarrow> r)"

section \<open>Correctness\<close>

text \<open>The message of a report fits the terminal's limit and has no control character, whatever was in it: a terminal would discard the
  report otherwise.\<close>

lemma set_words: "w \<in> set (cp_words_from v cs) \<Longrightarrow> set w \<subseteq> set v \<union> set cs"
  by (induction v cs rule: cp_words_from.induct) (auto split: if_splits)

lemma set_join: "set (cp_join ws) \<subseteq> \<Union> (set ` set ws) \<union> {32}"
  by (induction ws rule: cp_join.induct) auto

lemma set_truncate: "set (cp_truncate n cs) \<subseteq> set cs"
  by (induction n cs rule: cp_truncate.induct) auto

lemma bytes_truncate: "cp_bytes (cp_truncate n cs) \<le> n"
  by (induction n cs rule: cp_truncate.induct) (auto simp: cp_bytes_def)

lemma truncate_short: "cp_bytes cs \<le> n \<Longrightarrow> cp_truncate n cs = cs"
  by (induction n cs rule: cp_truncate.induct) (auto simp: cp_bytes_def)

lemma status_message_acceptable:
  "cp_bytes (status_message msg) \<le> 2048" "c \<in> set (status_message msg) \<Longrightarrow> \<not> cp_is_control c"
proof -
  show "cp_bytes (status_message msg) \<le> 2048" by (simp add: status_message_def MSG_MAX_BYTES_def bytes_truncate)
  let ?flat = "map (\<lambda>c. if cp_is_control c then 32 else c) msg"
  have "set (status_message msg) \<subseteq> \<Union> (set ` set (cp_words_from [] ?flat)) \<union> {32}"
    unfolding status_message_def by (rule order_trans [OF set_truncate set_join])
  moreover have "\<Union> (set ` set (cp_words_from [] ?flat)) \<subseteq> set ?flat" using set_words [of _ "[]" ?flat] by auto
  moreover assume "c \<in> set (status_message msg)"
  ultimately have "c \<in> set ?flat \<union> {32}" by blast
  then show "\<not> cp_is_control c" by (auto simp: cp_is_control_def split: if_splits)
qed

text \<open>The counters of the dashboard are those of the events: the tests shown are those started and not ended since, in the order they
  started, and nothing counts a test twice.\<close>

fun ended_id :: "ServerEvent \<Rightarrow> string option" where
  "ended_id (TestCompleted i b) = Some i"
| "ended_id (TestFailed i b) = Some i"
| "ended_id ev = None"

fun still_running :: "ServerEvent list \<Rightarrow> string list" where
  "still_running [] = []"
| "still_running (TestStarted t # evs) =
     (if Some (ai_id t) \<in> set (map ended_id evs) then still_running evs else ai_id t # still_running evs)"
| "still_running (ev # evs) = still_running evs"

lemma ids_update_first: "(\<And>t. ai_id (f t) = ai_id t) \<Longrightarrow> map ai_id (update_first P f ts) = map ai_id ts"
  by (induction ts) auto

lemma ids_filter: "map ai_id (filter (\<lambda>t. ai_id t \<noteq> i) ts) = filter (\<lambda>j. j \<noteq> i) (map ai_id ts)"
  by (induction ts) auto

lemma dashboard_shows_running:
  "map ai_id (va_active_tests (fold server_event_step evs a))
     = filter (\<lambda>i. Some i \<notin> set (map ended_id evs)) (map ai_id (va_active_tests a)) @ still_running evs"
proof (induction evs arbitrary: a)
  case (Cons ev evs)
  show ?case
  proof (cases ev)
    case (TestUpdated i b m)
    then show ?thesis using Cons by (simp add: server_event_step_def update_test_def ids_update_first)
  next
    case (TestCompleted i b)
    then show ?thesis using Cons
      by (simp add: server_event_step_def remove_test_def ids_filter)
  next
    case (TestFailed i b)
    then show ?thesis using Cons
      by (simp add: server_event_step_def fail_test_def ids_filter)
  qed (use Cons in \<open>simp_all add: server_event_step_def add_test_def record_blocked_def record_auth_failure_def\<close>)
qed simp

lemma dashboard_totals:
  "va_total_tests (fold server_event_step evs a) = va_total_tests a + word_of_nat (length (filter (\<lambda>ev. \<exists>t. ev = TestStarted t) evs))"
  "va_failed_tests (fold server_event_step evs a) = va_failed_tests a + word_of_nat (length (filter (\<lambda>ev. \<exists>i b. ev = TestFailed i b) evs))"
  by (induction evs arbitrary: a; simp add: server_event_step_def add_test_def update_test_def remove_test_def fail_test_def
      record_blocked_def record_auth_failure_def split: ServerEvent.split)+

end
