(* ===== verification/Spec2Isabelle.thy ===== *)
theory Spec2Isabelle
  imports Tracker_Refinement Byte_Budget Acl Rate_Limit Auth Probe_Correct Udp_Receive_Correct Reporting_Correct Handshake_Correct Tcp_Stream_Correct Persistence_Correct Client_Run_Correct Server_Correct Client_Plain_Correct Quic_Correct Tui_Loop_Correct Tui_View_Correct Tui_Status
begin

text \<open>
xfr measures network throughput between a client and a server: a control connection carries
JSON messages (plain or encrypted), and TCP, UDP or QUIC streams carry the test data. This
development models the parts of xfr that decide what a test reports and whom it serves.

\<^bold>\<open>How the parts interact.\<close> A client opens a control connection, the server admits it through
the access list and the rate limiter, both agree on protocol version and capabilities, the client
answers a challenge keyed by a pre-shared key, and from then on the control channel is encrypted.
The streams draw on one byte budget and one pause channel; each stream's counters are read once an
interval; UDP receivers count sequence numbers and report progress back to the sender.

\<^bold>\<open>Theories and what they model\<close> (files under \<open>src/src\<close>):
  \<^item> \<open>Xfr_Prelude\<close>: Rust's integer operations on words, byte encodings, results, and the generic
    interfaces: \<open>wire_codec\<close>, \<open>inductive_invariant\<close>, \<open>freshness\<close>; \<open>Rust_Text\<close>: strings and UTF-8.
  \<^item> \<open>Udp_Wire\<close>: datagram formats of \<open>udp.rs\<close>, with round trips and lane separation.
  \<^item> \<open>Packet_Tracker\<close>, \<open>Tracker_Refinement\<close>: the sequence tracker of \<open>udp.rs\<close> (a ring of bits with a jump
    confirmation) and its refinement to a specification over sets of sequence numbers.
  \<^item> \<open>Byte_Budget\<close>: \<open>budget.rs\<close>; claims and refunds as an interleaving of atomic steps.
  \<^item> \<open>Acl\<close>, \<open>Rate_Limit\<close>, \<open>Auth\<close>: \<open>acl.rs\<close>, \<open>rate_limit.rs\<close>, \<open>auth.rs\<close>.
  \<^item> \<open>Probe\<close>, \<open>Probe_Correct\<close>: the path-MTU search of \<open>probe.rs\<close> and its responder, exact and total.
  \<^item> \<open>Protocol\<close>: the messages and negotiation of \<open>protocol.rs\<close>; \<open>Control_Crypto\<close>, \<open>Control_Channel\<close>:
    \<open>control_crypto.rs\<close>, the channel in order, without replay or nonce reuse.
  \<^item> \<open>Stats\<close>, \<open>Stats_Correct\<close>: \<open>stats.rs\<close>; \<open>Pause\<close>: \<open>pause.rs\<close>.
  \<^item> \<open>Udp_Send\<close>, \<open>Udp_Send_Correct\<close>, \<open>Udp_Receive\<close>, \<open>Udp_Receive_Correct\<close>: the loops of \<open>udp.rs\<close>.
  \<^item> \<open>Tcp\<close>, \<open>Tcp_Correct\<close>: the send and receive loops of \<open>tcp.rs\<close>; \<open>Tcp_Stream\<close>, \<open>Tcp_Stream_Correct\<close>: whole streams around
    them, socket options, \<open>zerocopy.rs\<close>, and that the halves of a bidirectional stream do not disturb each other.
  \<^item> \<open>Reporting\<close>, \<open>Reporting_Correct\<close>: \<open>serve/reporting.rs\<close> and the control reader of \<open>serve.rs\<close>: what the server
    reports while the client may not be reading, and the account of its bytes.
  \<^item> \<open>Net\<close>: addresses, resolution and buffer sizes of \<open>net.rs\<close>; \<open>Handshake\<close>, \<open>Handshake_Correct\<close>: the control
    connection up to the accepted test, on the server (\<open>serve.rs\<close>) and the client (\<open>client.rs\<close>).
  \<^item> \<open>Client_Run\<close>, \<open>Client_Run_Correct\<close>: the client's loop from the acknowledged test to its result
    (\<open>run_test\<close> of \<open>client.rs\<close>): progress, pauses, cancellation and the receiver's counts in the result. Writes and a full
    queue take time, during which the loop takes no branch; the feedback consumer is a task of its own beside it.
  \<^item> \<open>Server\<close>, \<open>Server_Correct\<close>: \<open>serve.rs\<close> around the handshake: admission as a step relation over permits
    and the rate limiter, routing and collecting data connections, the UDP hello dispatcher, the result.
  \<^item> \<open>Rust_Format\<close>: formatting and string functions of Rust's library; \<open>Result_Diff\<close>: \<open>diff.rs\<close> and the numbers for
    people of \<open>stats.rs\<close>; \<open>Ip_Text\<close>: addresses as text (\<open>net.rs\<close>, \<open>main.rs\<close>) and that a printed target is read back.
  \<^item> \<open>Config_File\<close>: \<open>config.rs\<close>, \<open>prefs.rs\<close>, \<open>update.rs\<close>: which file decides, and that none is dropped silently.
  \<^item> \<open>Persistence\<close>, \<open>Persistence_Correct\<close>: \<open>persistence.rs\<close>, \<open>save\<close> of \<open>prefs.rs\<close>: a save is atomic at every moment
    and after a crash, on a disk that writes back contents and names in any order until they are synced.
  \<^item> \<open>Push_Gateway\<close>, \<open>Push_Metrics\<close>: \<open>output/push_gateway.rs\<close>: labels, the grouping path and its reading back, the
    exposition text and its well-formedness.
  \<^item> \<open>Cli_Parse\<close>, \<open>Cli\<close>, \<open>Cli_Correct\<close>: \<open>main.rs\<close> from the arguments and the file to a client's or server's configuration:
    what it lets through is valid, and no protection configured is lost.
  \<^item> \<open>Text_Output\<close>: \<open>output/plain.rs\<close>, \<open>csv.rs\<close>, \<open>json.rs\<close>; \<open>Client_Plain\<close>, \<open>Client_Plain_Correct\<close>: \<open>run_client_plain\<close> of
    \<open>main.rs\<close>: which rows are printed, which losses each of them shows, what is saved and delivered.
  \<^item> \<open>Quic\<close>, \<open>Quic_Client\<close>, \<open>Quic_Correct\<close>: \<open>quic.rs\<close> and the QUIC paths of \<open>serve.rs\<close> and \<open>client.rs\<close>: keys bound
    to the session, framing, the stream loops and their sharing of the client's loop.
  \<^item> \<open>Tui_Settings\<close>, \<open>Tui_App\<close>, \<open>Tui_View\<close>, \<open>Tui_Loop\<close>, \<open>Tui_Status\<close>: the terminal interface without its drawing: \<open>tui/settings.rs\<close>,
    \<open>tui/app.rs\<close>, what \<open>tui/ui.rs\<close> computes, \<open>run_tui_loop\<close> of \<open>main.rs\<close> one iteration at a time, the reports of
    \<open>tui/program_status.rs\<close> and the dashboard of \<open>tui/server.rs\<close>. \<open>Tui_Correct\<close>, \<open>Tui_Loop_Correct\<close>, \<open>Tui_View_Correct\<close>: it starts only
    runs that the client's own check accepts, a restart leaves nothing behind, bars count packets once, quitting is bounded, partial results are not saved.
This theory has the properties that span components.

\<^bold>\<open>Conventions.\<close> Machine integers are words and wrap where the release build wraps; \<open>f64\<close> is a real number
(rounding and NaN are not modelled); instants and durations are nanoseconds and every clock reading
is an argument. What a loop's \<open>select\<close> observes is a list of events in order, so a theorem over all
event lists covers every interleaving. Strings are over the code points up to U+00FF. Third-party
code (HMAC, HKDF, AEAD, JSON, CIDR networks, the kernel) is a parameter with documented
behaviour as a hypothesis. A list of observations takes the place of fuel: a loop that has not ended
says so in its result; the MTU probe's fuel is proved sufficient.

\<^bold>\<open>Not modelled.\<close> Widgets, layout and colours, the metrics registry, the making of sockets, mDNS, the QUIC
library and the asynchronous runtime; JSON encoding and timestamps formatted through the calendar library.
\<close>

section \<open>The UDP path from sender to receiver\<close>

text \<open>C1: what the paced sender puts on the wire, delivered to the receiver in any order, with any losses and any
  duplicates (up to a window of datagrams), is counted exactly: the packets received are the distinct
  datagrams that arrived, the packets lost are the gaps below the highest one, and when everything
  arrives nothing is lost and both ends report the same number of packets.\<close>

theorem udp_end_to_end:
  assumes "send_udp_paced rate sz dur stats budget packet start its = Ok (ended, st)" "length packet = unat sz"
    "length (sd_wire st) \<le> PACKET_TRACKER_WINDOW" "picks \<noteq> []" "length picks < 2 ^ 64 - 2"
    "\<forall>(i, t)\<in>set picks. i < length (sd_wire st)"
  shows "let arrived = set (map fst picks);
             result = snd (receive_udp ack rstats now po (deliver (sd_wire st) picks) [])
         in unat (us_packets_received result) = card arrived
            \<and> unat (us_lost result) = card ({..Max arrived} - arrived)
            \<and> (arrived = {..<length (sd_wire st)} \<longrightarrow>
                 us_lost result = 0 \<and> us_packets_received result = uss_packets_sent (send_result st))"
proof -
  let ?xs = "map fst picks"
  let ?r = "snd (receive_loop ack (deliver (sd_wire st) picks) (receive_init rstats now po))"
  have w: "wire_ok (unat sz) (sd_wire st)" "sd_sequence st = word_of_nat (length (sd_wire st))"
    using send_udp_paced_inv [OF assms(1,2)] by (simp_all add: send_inv_def)
  have small: "length (sd_wire st) \<le> 2 ^ 32" using assms(3) by (simp add: tracker_consts)
  have tr: "rx_tracker ?r = foldl record_packet PacketTracker_new (map word_of_nat ?xs)"
    using receive_deliver(2) [OF w(1) small assms(6), of ack "receive_init rstats now po"]
    by (simp add: receive_init_def)
  have win: "\<forall>x\<in>set ?xs. x < PACKET_TRACKER_WINDOW" using assms(3,6) by fastforce
  have cnt: "unat (pt_received (rx_tracker ?r)) = card (set ?xs)"
    "unat (pt_lost (rx_tracker ?r)) = card ({..Max (set ?xs)} - set ?xs)"
    unfolding tr using tracker_run_counts [of ?xs] assms(4,5) win by auto
  have res: "us_packets_received (snd (receive_udp ack rstats now po (deliver (sd_wire st) picks) [])) = pt_received (rx_tracker ?r)"
    "us_lost (snd (receive_udp ack rstats now po (deliver (sd_wire st) picks) [])) = pt_lost (rx_tracker ?r)"
    by (simp_all add: receive_udp_def receive_result_def PacketTracker_stats_def Let_def split: prod.split)
  have all: "us_lost (snd (receive_udp ack rstats now po (deliver (sd_wire st) picks) [])) = 0"
    "us_packets_received (snd (receive_udp ack rstats now po (deliver (sd_wire st) picks) [])) = uss_packets_sent (send_result st)"
    if "set ?xs = {..<length (sd_wire st)}"
  proof -
    have "Max (set ?xs) \<in> set ?xs" using assms(4) by (intro Max_in) auto
    then have "Max (set ?xs) < length (sd_wire st)" unfolding that by blast
    then have "{..Max (set ?xs)} - set ?xs = {}" unfolding that by (auto simp: that)
    then have "unat (pt_lost (rx_tracker ?r)) = 0" using cnt(2) by (metis card.empty)
    then show "us_lost (snd (receive_udp ack rstats now po (deliver (sd_wire st) picks) [])) = 0"
      by (simp add: res unat_eq_0)
    have "unat (pt_received (rx_tracker ?r)) = length (sd_wire st)" using cnt(1) that by simp
    moreover have "pt_received (rx_tracker ?r) = word_of_nat (unat (pt_received (rx_tracker ?r)))" by simp
    ultimately show "us_packets_received (snd (receive_udp ack rstats now po (deliver (sd_wire st) picks) [])) = uss_packets_sent (send_result st)"
      by (simp only: res send_result_def w(2) UdpSendStats.simps)
  qed
  show ?thesis unfolding Let_def using cnt all by (simp add: res)
qed

theorem udp_end_to_end_witness:
  "\<exists>ended st. send_udp_paced 0 16 0 (StreamStats_new 0 0) None (replicate 16 0) 0
      [IterBurst 0 [sample_packet_in, sample_packet_in, sample_packet_in]] = Ok (ended, st)
    \<and> unat (us_lost (snd (receive_udp None (StreamStats_new 1 0) 0 True (deliver (sd_wire st) [(2, 9), (0, 10)]) []))) = 1"
proof -
  obtain ended st where r: "send_udp_paced 0 16 0 (StreamStats_new 0 0) None (replicate 16 0) 0
      [IterBurst 0 [sample_packet_in, sample_packet_in, sample_packet_in]] = Ok (ended, st)"
    by (cases "send_udp_unlimited 16 0 (StreamStats_new 0 0) None (replicate 16 0) 0
         [IterBurst 0 [sample_packet_in, sample_packet_in, sample_packet_in]]")
      (simp add: send_udp_paced_def validate_payload_size_def udp_wire_consts)
  have n: "length (sd_wire st) = 3"
    using r by (auto simp: send_udp_paced_def validate_payload_size_def udp_wire_consts send_udp_unlimited_def
        send_iter_def send_init_def sample_packet_in_def claim_datagram_None UNLIMITED_BURST_PACKETS_def Let_def)
  have "{..2} - {2, 0} = {1 :: nat}" by auto
  with udp_end_to_end [OF r, of "[(2, 9), (0, 10)]" None "StreamStats_new 1 0" 0 True] r n
  show ?thesis by (simp add: Let_def tracker_consts)
qed

section \<open>From the handshake to the report the client reads\<close>

text \<open>A protected writer that has encoded some messages had sequence numbers for them.\<close>

lemma send_all_within_sequence:
  "send_all enc (ProtectedWriter c) ms = Ok x \<Longrightarrow> unat (cc_seq c) + length ms < 2 ^ 64"
proof (induction ms arbitrary: c x)
  case Nil
  then show ?case using unat_lt_pow [of "cc_seq c"] by simp
next
  case (Cons m ms)
  obtain c' p y where e: "seal enc c (as_bytes m) = (c', Ok p)" "send_all enc (ProtectedWriter c') ms = Ok y"
    using Cons.prems by (auto simp: encode_message_def Let_def split: prod.splits sum.splits)
  have "c' = c\<lparr>cc_seq := cc_seq c + 1\<rparr>" "unat (cc_seq c) + 1 < 2 ^ 64" using seal_cases(2) [OF e(1)] by simp_all
  then have "unat (cc_seq c') = unat (cc_seq c) + 1" by (simp add: unat_word_ariths)
  then show ?case using Cons.IH [OF e(2)] by simp
qed

text \<open>C2: a server that completed the handshake with a client holding the same key, and whose report ended and was
  flushed, is read by that client to the last message however the connection cuts the bytes: interval messages of
  this test, the cancellation if there was one and the result, in order and unchanged; and the
  intervals the client reads account for every byte each stream had counted at the last tick (less the
  sample that a cancellation drops). It reads them if each of these messages fits a frame, which the reader limits to one megabyte
  and the writer does not check.\<close>

theorem report_reaches_client:
  assumes "json_ok from_json to_json (handshake_messages hkdf hmac to_json sec c cn sn psk)"
    "cl_psk c = Some psk" "sc_psk sec = Some psk" "PROTECTED_CONTROL_CAPABILITY \<in> set (sc_capabilities sec)"
    "derive_keys hkdf cn sn (as_bytes psk) = Ok ks" "aead_ok enc dec"
  shows "\<exists>hello answer reply aw cst server client.
    server_handshake hkdf hmac from_json to_json sec sn (client_first c cn) (to_json (client_first c cn)) (ReadLine (as_line answer))
      = ([hello, reply], Ok (aw, server))
    \<and> client_handshake hkdf hmac from_json to_json c cn (as_line hello) (as_line reply) = ([answer], Ok (cst, client))
    \<and> (\<forall>config start its test_id streams t0 st now result rep tail.
         report_loop enc to_json config start its
           (report_init (snd (split_transport server)) (TestStats_new test_id streams t0)) = Ended st
         \<and> ticks_ok (replicate (unat streams) 0) its
         \<and> Reporting_finish enc (report_end to_json config start now st) (to_json result) Flushed = (rep, tail, Ok ())
         \<longrightarrow> (\<exists>ms. list_all (is_interval_of (rc_id config) (unat streams)) ms
              \<and> (\<forall>k<unat streams. (\<Sum>m\<leftarrow>ms. interval_bytes k m) + (if rp_cancelled st then sample_bytes k (rp_pending st) else 0)
                   = unat (st_last_bytes (tst_streams (rp_stats st) ! k)))
              \<and> (\<forall>r. concat (rd_chunks r) = rp_written st @ tail \<longrightarrow>
                   (let lines = report_lines to_json config st ms result in
                    list_all (\<lambda>m. utf8_len m + 24 \<le> MAX_FRAME) lines \<longrightarrow> (\<exists>t' r'. recv_all dec (length lines) (fst (split_transport client)) r = Ok (map as_bytes lines, t', r')
                      \<and> concat (rd_chunks r') = [])))))"
proof -
  obtain hello answer reply aw cst c2s s2c where hs:
    "server_handshake hkdf hmac from_json to_json sec sn (client_first c cn) (to_json (client_first c cn)) (ReadLine (as_line answer))
      = ([hello, reply], Ok (aw, protected_server c2s s2c))"
    "client_handshake hkdf hmac from_json to_json c cn (as_line hello) (as_line reply) = ([answer], Ok (cst, protected_client c2s s2c))"
    "derive_pair hkdf cn sn psk = Ok (c2s, s2c)"
    using handshake_psk [OF assms(1-5)] by blast
  define w0 where "w0 = snd (split_transport (protected_server c2s s2c))"
  define t0' where "t0' = fst (split_transport (protected_client c2s s2c))"
  have w0: "w0 = ProtectedWriter s2c" by (simp add: w0_def split_transport_def protected_server_def)
  have "\<exists>ms. list_all (is_interval_of (rc_id config) (unat streams)) ms
      \<and> (\<forall>k<unat streams. (\<Sum>m\<leftarrow>ms. interval_bytes k m) + (if rp_cancelled st then sample_bytes k (rp_pending st) else 0)
           = unat (st_last_bytes (tst_streams (rp_stats st) ! k)))
      \<and> (\<forall>r. concat (rd_chunks r) = rp_written st @ tail \<longrightarrow>
           (let lines = report_lines to_json config st ms result in
            list_all (\<lambda>m. utf8_len m + 24 \<le> MAX_FRAME) lines \<longrightarrow>
              (\<exists>t' r'. recv_all dec (length lines) t0' r = Ok (map as_bytes lines, t', r') \<and> concat (rd_chunks r') = [])))"
    if run: "report_loop enc to_json config start its (report_init w0 (TestStats_new test_id streams t0)) = Ended st"
      "ticks_ok (replicate (unat streams) 0) its"
      "Reporting_finish enc (report_end to_json config start now st) (to_json result) Flushed = (rep, tail, Ok ())"
    for config start its test_id streams t0 st now result rep tail
  proof -
    obtain ms w where ms: "list_all (is_interval_of (rc_id config) (unat streams)) ms"
      "send_all enc w0 (report_lines to_json config st ms result) = Ok (rp_written st @ tail, w)"
      "\<forall>k<unat streams. (\<Sum>m\<leftarrow>ms. interval_bytes k m) + (if rp_cancelled st then sample_bytes k (rp_pending st) else 0)
         = unat (st_last_bytes (tst_streams (rp_stats st) ! k))"
      using report_messages [OF run] by blast
    define lines where "lines = report_lines to_json config st ms result"
    have "length lines < 2 ^ 64" using send_all_within_sequence ms(2) unfolding w0 lines_def by (metis add_lessD1 add.commute)
    then have "list_all (\<lambda>m. utf8_len m + 24 \<le> MAX_FRAME) lines \<Longrightarrow> delivers enc dec w0 t0' lines"
      unfolding w0_def t0'_def using derived_codecs_deliver [OF assms(6) hs(3)] by blast
    then have "list_all (\<lambda>m. utf8_len m + 24 \<le> MAX_FRAME) lines \<Longrightarrow> \<forall>r. concat (rd_chunks r) = rp_written st @ tail \<longrightarrow>
        (\<exists>t' r'. recv_all dec (length lines) t0' r = Ok (map as_bytes lines, t', r') \<and> concat (rd_chunks r') = [])"
      using ms(2) by (metis (no_types, lifting) Inr_inject append_Nil2 delivers_def lines_def prod.inject)
    then show ?thesis using ms(1,3) unfolding Let_def lines_def by blast
  qed
  then show ?thesis using hs(1,2) unfolding w0_def t0'_def by blast
qed

lemma protected_sample_run:
  assumes "cc_seq c = 0"
  shows "\<exists>st rep tail. report_loop toy_enc toy_to_json sample_config 0 sample_its
      (report_init (ProtectedWriter c) (TestStats_new ''t'' 1 0)) = Ended st
    \<and> rp_cancelled st = False \<and> st_last_bytes (tst_streams (rp_stats st) ! 0) = 8
    \<and> Reporting_finish toy_enc (report_end toy_to_json sample_config 0 0 st) (toy_to_json (Cancelled [])) Flushed = (rep, tail, Ok ())"
  using assms
  by (simp add: sample_its_def report_eval as_bytes_def utf8_char_def saturating_sub_def toy_to_json_def seal_def toy_enc_def
      checked_add_def Reporting_finish_def report_end_def option_list_def)

theorem report_reaches_client_witness:
  "\<exists>hello answer reply aw cst server client st tail ms.
    server_handshake toy_hkdf toy_hmac toy_from_json toy_to_json toy_security ''n'' (client_first toy_config ''m'')
        (toy_to_json (client_first toy_config ''m'')) (ReadLine (as_line answer)) = ([hello, reply], Ok (aw, server))
    \<and> report_loop toy_enc toy_to_json sample_config 0 sample_its
        (report_init (snd (split_transport server)) (TestStats_new ''t'' 1 0)) = Ended st
    \<and> (\<Sum>m\<leftarrow>ms. interval_bytes 0 m) = 8
    \<and> (\<exists>t' r'. recv_all toy_dec (length ms + 1) (fst (split_transport client)) \<lparr>rd_chunks = [rp_written st, tail], rd_fails = False\<rparr>
        = Ok (map as_bytes (map toy_to_json (ms @ [Cancelled []])), t', r'))"
proof -
  have "utf8_len (toy_to_json m) + 24 \<le> MAX_FRAME" for m
    by (cases m) (simp_all add: toy_to_json_def utf8_len_def MAX_FRAME_def)
  then have fits: "list_all (\<lambda>m. utf8_len m + 24 \<le> MAX_FRAME) (report_lines toy_to_json config st ms result)"
    for config st ms result
    by (auto simp: list_all_iff report_lines_def)
  obtain hello answer reply aw cst server client where hs:
    "server_handshake toy_hkdf toy_hmac toy_from_json toy_to_json toy_security ''n'' (client_first toy_config ''m'')
        (toy_to_json (client_first toy_config ''m'')) (ReadLine (as_line answer)) = ([hello, reply], Ok (aw, server))"
    and rd: "\<And>config start its test_id streams t0 st now result rep tail.
      report_loop toy_enc toy_to_json config start its
           (report_init (snd (split_transport server)) (TestStats_new test_id streams t0)) = Ended st \<Longrightarrow>
      ticks_ok (replicate (unat streams) 0) its \<Longrightarrow>
      Reporting_finish toy_enc (report_end toy_to_json config start now st) (toy_to_json result) Flushed = (rep, tail, Ok ()) \<Longrightarrow>
      \<exists>ms. (\<forall>k<unat streams. (\<Sum>m\<leftarrow>ms. interval_bytes k m) + (if rp_cancelled st then sample_bytes k (rp_pending st) else 0)
                   = unat (st_last_bytes (tst_streams (rp_stats st) ! k)))
        \<and> (\<forall>r. concat (rd_chunks r) = rp_written st @ tail \<longrightarrow>
             (\<exists>t' r'. recv_all toy_dec (length (report_lines toy_to_json config st ms result)) (fst (split_transport client)) r
                = Ok (map as_bytes (report_lines toy_to_json config st ms result), t', r')))"
    using report_reaches_client [OF toy_json_ok toy_facts toy_keys toy_aead_ok, of "''m''"] fits unfolding Let_def by metis
  obtain c2s s2c where "server = protected_server c2s s2c" "derive_pair toy_hkdf ''m'' ''n'' ''k'' = Ok (c2s, s2c)"
    using server_handshake_psk [OF hs toy_facts(2)] toy_facts(1) by (auto simp: client_first_psk client_hello_with_nonce_def)
  then have w: "snd (split_transport server) = ProtectedWriter s2c" "cc_seq s2c = 0"
    by (auto simp: split_transport_def protected_server_def derive_pair_def derive_pair_with_key_def ControlCodec_new_def
        split: sum.splits prod.splits)
  obtain st rep tail where st: "report_loop toy_enc toy_to_json sample_config 0 sample_its
      (report_init (snd (split_transport server)) (TestStats_new ''t'' 1 0)) = Ended st" "rp_cancelled st = False"
    "st_last_bytes (tst_streams (rp_stats st) ! 0) = 8"
    "Reporting_finish toy_enc (report_end toy_to_json sample_config 0 0 st) (toy_to_json (Cancelled [])) Flushed = (rep, tail, Ok ())"
    using protected_sample_run [OF w(2)] unfolding w(1) by blast
  have "ticks_ok (replicate (unat (1 :: u8)) 0) sample_its" by (simp add: sample_its_def sample_reading_def)
  from rd [OF st(1) this st(4)] obtain ms where ms: "(\<Sum>m\<leftarrow>ms. interval_bytes 0 m) = 8"
    "\<forall>r. concat (rd_chunks r) = rp_written st @ tail \<longrightarrow> (\<exists>t' r'. recv_all toy_dec (length ms + 1) (fst (split_transport client)) r
                = Ok (map as_bytes (map toy_to_json (ms @ [Cancelled []])), t', r'))"
    using st(2,3) by (auto simp: report_lines_def)
  then have "\<exists>t' r'. recv_all toy_dec (length ms + 1) (fst (split_transport client)) \<lparr>rd_chunks = [rp_written st, tail], rd_fails = False\<rparr>
      = Ok (map as_bytes (map toy_to_json (ms @ [Cancelled []])), t', r')" by simp
  with ms(1) hs st(1) show ?thesis by blast
qed

section \<open>The TCP path of a byte-budget test\<close>

lemma sum_word_of_nat: "sum_list (map word_of_nat ns) = (word_of_nat (sum_list ns) :: u64)"
  by (induction ns) simp_all

text \<open>C3: when a TCP sender of a byte-budget test has spent its budget, the receiver that reads its stream to the
  end, in whatever pieces, ends quietly and has counted exactly the bytes of the budget, which is also the
  sender's count.\<close>

theorem tcp_budget_delivered:
  assumes "tcp_send_loop env info its (tcp_send_init (StreamStats_new i t) (Some (ByteBudget_new N)) start dur zc) = TcpBreak st"
    "te_buffer env \<noteq> []" "length (te_buffer env) < 2 ^ 64" "td_budget st = Some b" "is_spent b"
    "concat chunks = td_wire st" "[] \<notin> set chunks"
  shows "\<exists>rst. tcp_recv_loop rstart rdur (map (\<lambda>c. RecvBytes (word_of_nat (length c))) chunks @ [RecvBytes 0])
       (tcp_recv_init (StreamStats_new j u)) = RecvEnd rst
    \<and> st_bytes_received (tr_stats rst) = N \<and> st_bytes_sent (td_stats st) = N"
proof -
  have inv: "tcp_inv (Some (unat N)) env 0 st"
    using tcp_inv_loop [OF tcp_inv_init [of "Some (ByteBudget_new N)" env "StreamStats_new i t" start dur zc] assms(2,3), of info its]
      assms(1) by (simp add: Let_def ByteBudget_new_def StreamStats_new_def)
  then have n: "length (td_wire st) = unat N" using assms(4,5) by (simp add: tcp_inv_def budget_ok_def is_spent_def)
  let ?es = "map (\<lambda>c. RecvBytes (word_of_nat (length c))) chunks" and ?r0 = "tcp_recv_init (StreamStats_new j u)"
  let ?run = "\<lambda>e. \<not> ends_receive rstart rdur e \<and> \<not> fails_receive rstart rdur e"
  have nz: "word_of_nat (length c) \<noteq> (0 :: u64)" if "c \<in> set chunks" for c
  proof -
    have "length c \<le> length (concat chunks)" using that by (auto simp: length_concat intro!: member_le_sum_list)
    then have "length c < 2 ^ 64" using assms(6) n unat_lt_pow [of N] by simp
    then have "unat (word_of_nat (length c) :: u64) = length c" by (intro unat_word_of_nat) simp
    moreover have "0 < length c" using that assms(7) by auto
    ultimately show ?thesis by (metis less_irrefl unat_0)
  qed
  then have tw: "takeWhile ?run (?es @ [RecvBytes 0]) = ?es" by (subst takeWhile_append2) (auto simp: nz)
  have dw: "dropWhile ?run (?es @ [RecvBytes 0]) = [RecvBytes 0]" by (subst dropWhile_append2) (auto simp: nz)
  have "sum_list (map event_bytes ?es) = sum_list (map word_of_nat (map length chunks))" by (simp add: comp_def)
  also have "\<dots> = word_of_nat (length (concat chunks))" by (simp only: sum_word_of_nat length_concat)
  finally have sum: "sum_list (map event_bytes ?es) = N" using assms(6) n by simp
  have "\<exists>rst. tcp_recv_loop rstart rdur (?es @ [RecvBytes 0]) ?r0 = RecvEnd rst \<and> st_bytes_received (tr_stats rst) = N"
    using tcp_recv_loop_stop [of rstart rdur "?es @ [RecvBytes 0]" ?r0] tw dw sum
    by (cases "tcp_recv_loop rstart rdur (?es @ [RecvBytes 0]) ?r0")
      (auto simp: Let_def tcp_recv_init_def StreamStats_new_def)
  moreover have "st_bytes_sent (td_stats st) = N" using inv n by (simp add: tcp_inv_def)
  ultimately show ?thesis by blast
qed

theorem tcp_budget_delivered_witness:
  "\<exists>st rst. tcp_send_loop tcp_sample_env (\<lambda>_. None) [TcpWrite 1 (WriteOk 3 1 False), TcpWrite 2 (WriteOk 9 2 False), TcpWrite 3 RacePause]
      (tcp_send_init (StreamStats_new 0 0) (Some (ByteBudget_new 4)) 0 100 False) = TcpBreak st
    \<and> tcp_recv_loop 0 100 [RecvBytes 1, RecvBytes 3, RecvBytes 0] (tcp_recv_init (StreamStats_new 0 0)) = RecvEnd rst
    \<and> st_bytes_received (tr_stats rst) = 4 \<and> st_bytes_sent (td_stats st) = 4"
proof -
  obtain st b where st: "tcp_send_loop tcp_sample_env (\<lambda>_. None)
      [TcpWrite 1 (WriteOk 3 1 False), TcpWrite 2 (WriteOk 9 2 False), TcpWrite 3 RacePause]
      (tcp_send_init (StreamStats_new 0 0) (Some (ByteBudget_new 4)) 0 100 False) = TcpBreak st"
    "td_wire st = [1, 2, 3, 4]" "td_budget st = Some b" "is_spent b"
    by (simp add: tcp_send_iter_def tcp_send_init_def tcp_sample_env_def claim_or_full_def claim_def ByteBudget_new_def is_spent_def
        tcp_write_result_def tcp_written_def refund_unwritten_def refund_def saturating_sub_def Let_def min_def word_le_nat_alt word_less_nat_alt)
  from tcp_budget_delivered [OF st(1) _ _ st(3,4), of "[[1], [2, 3, 4]]" 0 100 0 0] st(1,2)
  show ?thesis by (auto simp: tcp_sample_env_def)
qed

section \<open>The result of a bidirectional UDP test\<close>

text \<open>C4: the result of a bidirectional UDP test that the client returns reports each direction as its receiver counted
  it, whatever either sender believes it sent: the bytes sent are those the server received, the bytes received
  those the client received, and the total is their sum.\<close>

theorem each_direction_by_its_receiver:
  assumes "udp_bidir e" "client_run e stats0 start evs client_stats = (Some (Ok r), st)"
    "\<forall>result now s i. ClCommand (Some (EvMessage (Result result))) now s i \<in> set evs \<longrightarrow>
       result = server_result (ce_test_id e) Udp Bidir server_stats dur_ms info"
  shows "tr_bytes_sent r = Some (total_bytes_received server_stats) \<and> tr_bytes_received r = Some (total_bytes_received client_stats)
    \<and> tr_bytes_total r = total_bytes_received server_stats + total_bytes_received client_stats \<and> tr_duration_ms r = dur_ms"
proof -
  obtain result now s i where res: "ClCommand (Some (EvMessage (Result result))) now s i \<in> set evs"
    "tr_duration_ms r = tr_duration_ms result" "tr_bytes_received r = Some (total_bytes_received client_stats)"
    "tr_bytes_sent r = tr_bytes_sent result" "\<forall>sent. tr_bytes_sent r = Some sent \<longrightarrow> tr_bytes_total r = sent + total_bytes_received client_stats"
    using run_result_counts [OF assms(2)] assms(1) by blast
  then have "result = server_result (ce_test_id e) Udp Bidir server_stats dur_ms info" using assms(3) by blast
  then have "tr_bytes_sent result = Some (total_bytes_received server_stats)" "tr_duration_ms result = dur_ms"
    by (simp_all add: server_result_def directional_totals_def Let_def)
  with res show ?thesis by simp
qed

theorem each_direction_by_its_receiver_witness:
  "\<exists>r st. client_run (sample_client Bidir) (TestStats_new ''t'' 1 0) 0
      [ClCommand (Some (EvMessage (Result (server_result ''t'' Udp Bidir (received_stats 5) 1000 (\<lambda>_. None))))) 5 (received_stats 7) (\<lambda>_. None)]
      (received_stats 7) = (Some (Ok r), st) \<and> tr_bytes_total r = 12"
proof -
  let ?res = "server_result ''t'' Udp Bidir (received_stats 5) 1000 (\<lambda>_. None)"
  obtain r st where r: "client_run (sample_client Bidir) (TestStats_new ''t'' 1 0) 0
      [ClCommand (Some (EvMessage (Result ?res))) 5 (received_stats 7) (\<lambda>_. None)] (received_stats 7) = (Some (Ok r), st)"
    by (simp add: client_run_def client_event_step_def client_select_def client_init_def client_message_def client_finish_def Let_def)
  have "total_bytes_received (received_stats n) = n" for n
    by (simp add: total_bytes_received_def received_stats_def add_bytes_received_def StreamStats_new_def)
  with each_direction_by_its_receiver [OF _ r, of "received_stats 5" 1000 "\<lambda>_. None"] r show ?thesis
    by (auto simp: sample_client_def udp_bidir_def)
qed

end
